(* ===== verification/Kael_Prelude.thy ===== *)
theory Kael_Prelude
  imports Main "HOL-Library.AList" "HOL-Library.Sublist"
begin

text \<open>
  What every theory of the development shares: the collections of rewrite rules
  (\<open>go_simps\<close> for the behaviour of the Go library model, \<open>gate_simps\<close> for handlers,
  \<open>queue_simps\<close> for the job tables), the type of association lists that stands for a Go
  \<^verbatim>\<open>map[string]T\<close>, errors with the sentinels they wrap (\<^verbatim>\<open>errors.Is\<close>), and
  generic lemmas on lists, options and association lists.
\<close>

named_theorems go_simps "behaviour of the Go library model"
named_theorems gate_simps "what each handler wrapper does"
named_theorems queue_simps "what each statement does to a row"

section \<open>Go maps\<close>

text \<open>
  A Go map with string keys is an association list with lookup \<open>map_of\<close>. The order of the
  list is the order \<^verbatim>\<open>range\<close> visits the entries in, which Go leaves open: a theorem about
  every list is a theorem about every visiting order. \<open>wf_gomap\<close> (no key twice) is what a Go
  map always satisfies.
\<close>

type_synonym 'v gomap = "(string \<times> 'v) list"

definition wf_gomap :: "'v gomap \<Rightarrow> bool" where
  "wf_gomap m \<longleftrightarrow> distinct (map fst m)"

definition gm_get :: "'v gomap \<Rightarrow> string \<Rightarrow> 'v option" where
  "gm_get m k = map_of m k"

definition gm_set :: "string \<Rightarrow> 'v \<Rightarrow> 'v gomap \<Rightarrow> 'v gomap" where
  "gm_set k v m = AList.update k v m"

definition gm_del :: "string \<Rightarrow> 'v gomap \<Rightarrow> 'v gomap" where
  "gm_del k m = AList.delete k m"

definition gm_keys :: "'v gomap \<Rightarrow> string list" where
  "gm_keys m = map fst m"

lemma gm_get_Nil [simp]: "gm_get [] k = None"
  by (simp add: gm_get_def)

lemma gm_get_Cons [simp]: "gm_get ((k', v) # m) k = (if k = k' then Some v else gm_get m k)"
  by (simp add: gm_get_def)

lemma gm_get_set [simp]: "gm_get (gm_set k v m) k' = (if k' = k then Some v else gm_get m k')"
  by (simp add: gm_get_def gm_set_def update_conv')

lemma gm_get_del [simp]: "gm_get (gm_del k m) k' = (if k' = k then None else gm_get m k')"
  by (simp add: gm_get_def gm_del_def delete_conv')

lemma wf_gomap_Nil [simp]: "wf_gomap []"
  by (simp add: wf_gomap_def)

lemma wf_gomap_set [simp]: "wf_gomap m \<Longrightarrow> wf_gomap (gm_set k v m)"
  by (simp add: wf_gomap_def gm_set_def distinct_update)

lemma wf_gomap_del [simp]: "wf_gomap m \<Longrightarrow> wf_gomap (gm_del k m)"
  by (simp add: wf_gomap_def gm_del_def distinct_delete)

lemma gm_get_in_keys: "gm_get m k = Some v \<Longrightarrow> k \<in> set (gm_keys m)"
  by (auto simp: gm_get_def gm_keys_def dest: map_of_SomeD intro: rev_image_eqI)

lemma gm_get_in_set: "gm_get m k = Some v \<Longrightarrow> (k, v) \<in> set m"
  by (simp add: gm_get_def map_of_SomeD)

lemma gm_get_None_iff: "gm_get m k = None \<longleftrightarrow> k \<notin> fst ` set m"
  by (simp add: gm_get_def map_of_eq_None_iff)

lemma gm_get_of_set: "wf_gomap m \<Longrightarrow> (k, v) \<in> set m \<Longrightarrow> gm_get m k = Some v"
  by (simp add: gm_get_def wf_gomap_def)

lemma gm_get_filter:
  "wf_gomap m \<Longrightarrow> gm_get (filter (\<lambda>(k, v). \<not> P v) m) k = (case gm_get m k of Some v \<Rightarrow> if P v then None else Some v | None \<Rightarrow> None)"
proof (induction m)
  case (Cons x m)
  obtain a b where x: "x = (a, b)" by fastforce
  have "gm_get m a = None" using Cons.prems by (simp add: x wf_gomap_def gm_get_None_iff)
  then show ?case using Cons by (auto simp: x wf_gomap_def split: option.splits)
qed simp

lemma wf_gomap_filter [simp]: "wf_gomap m \<Longrightarrow> wf_gomap (filter P m)"
  by (simp add: wf_gomap_def distinct_map_filter)

lemma gm_del_absent: "gm_get m k = None \<Longrightarrow> gm_del k m = m"
  by (induction m) (auto simp: gm_del_def gm_get_def AList.delete_eq split: if_splits)

lemma gm_set_same: "gm_get m k = Some v \<Longrightarrow> gm_set k v m = m"
  by (induction m) (auto simp: gm_set_def gm_get_def split: if_splits)

section \<open>Errors\<close>

text \<open>
  A Go error is its text and the sentinel errors it wraps, which is what
  \<^verbatim>\<open>errors.Is\<close> looks at. \<open>GoPanic\<close> marks a panic that unwinds to the caller, which nothing
  in the modelled code recovers from. \<open>wrapf\<close> is \<^verbatim>\<open>fmt.Errorf("...: %w", err)\<close>: a new
  text, the same sentinels.
\<close>

datatype sentinel = ErrSuperseded | ErrLLMOutOfCredit | ErrLLMUnavailable | ErrSignInUnavailable | ErrCtxDone | ErrNoWakePlan | GoPanic

record goerr =
  err_text :: string
  err_wraps :: "sentinel list"

definition errorf :: "string \<Rightarrow> goerr" where
  "errorf s = \<lparr>err_text = s, err_wraps = []\<rparr>"

definition wrapf :: "string \<Rightarrow> goerr \<Rightarrow> goerr" where
  "wrapf pre e = \<lparr>err_text = pre @ err_text e, err_wraps = err_wraps e\<rparr>"

definition errors_is :: "goerr \<Rightarrow> sentinel \<Rightarrow> bool" where
  "errors_is e s \<longleftrightarrow> s \<in> set (err_wraps e)"

lemma errors_is_errorf [simp]: "\<not> errors_is (errorf t) s"
  by (simp add: errors_is_def errorf_def)

lemma errors_is_wrapf [simp]: "errors_is (wrapf t e) s = errors_is e s"
  by (simp add: errors_is_def wrapf_def)

section \<open>Lists\<close>

text \<open>The first element a \<open>for ... { if p { return x } }\<close> loop returns.\<close>

lemma find_Some_iff': "find P xs = Some x \<longleftrightarrow> (\<exists>ys zs. xs = ys @ x # zs \<and> P x \<and> (\<forall>y\<in>set ys. \<not> P y))"
proof (induction xs)
  case Nil
  then show ?case by simp
next
  case (Cons a xs)
  show ?case
  proof (cases "P a")
    case True
    then show ?thesis by (auto simp: Cons_eq_append_conv)
  next
    case False
    then show ?thesis by (auto simp: Cons_eq_append_conv Cons.IH) (metis list.set_intros(2) set_ConsD)+
  qed
qed

lemma find_Some_mem: "find P xs = Some x \<Longrightarrow> x \<in> set xs \<and> P x"
  by (auto simp: find_Some_iff')

lemma find_None_all: "find P xs = None \<longleftrightarrow> (\<forall>x\<in>set xs. \<not> P x)"
  by (auto simp: find_None_iff)

lemma find_append: "find P (xs @ ys) = (case find P xs of Some x \<Rightarrow> Some x | None \<Rightarrow> find P ys)"
  by (induction xs) auto

text \<open>
  \<open>dedupe_by\<close> keeps the first of each group of elements with one key: the loop over a
  \<^verbatim>\<open>seen\<close> set that the code uses in many places.
\<close>

fun dedupe_by :: "('a \<Rightarrow> 'k) \<Rightarrow> 'k list \<Rightarrow> 'a list \<Rightarrow> 'a list" where
  "dedupe_by f seen [] = []"
| "dedupe_by f seen (x # xs) =
     (if f x \<in> set seen then dedupe_by f seen xs else x # dedupe_by f (f x # seen) xs)"

lemma set_dedupe_by_subset: "set (dedupe_by f seen xs) \<subseteq> set xs"
  by (induction xs arbitrary: seen) auto

lemma dedupe_by_keys: "f ` set (dedupe_by f seen xs) = f ` set xs - set seen"
  by (induction xs arbitrary: seen) auto

lemma distinct_dedupe_by: "distinct (map f (dedupe_by f seen xs))"
proof (induction xs arbitrary: seen)
  case Nil
  then show ?case by simp
next
  case (Cons x xs)
  have "f x \<notin> f ` set (dedupe_by f (f x # seen) xs)"
    by (simp add: dedupe_by_keys)
  then show ?case using Cons.IH by auto
qed

lemma dedupe_by_id: "distinct (map f xs) \<Longrightarrow> f ` set xs \<inter> set seen = {} \<Longrightarrow> dedupe_by f seen xs = xs"
  by (induction xs arbitrary: seen) auto

end
