(* ===== verification/Go_Strings.thy ===== *)
theory Go_Strings
  imports Kael_Prelude
begin

text \<open>
  The part of Go's \<^verbatim>\<open>strings\<close>, \<^verbatim>\<open>unicode/utf8\<close> and \<^verbatim>\<open>strconv\<close> packages that
  the modelled code uses. A Go string is its bytes, a \<open>char list\<close>. White space and runes are
  read from the UTF-8 encoding, as Go does; letter case is modelled on the ASCII letters (other
  runes have no case here).
\<close>

section \<open>White space\<close>

text \<open>The encodings of the runes \<^verbatim>\<open>unicode.IsSpace\<close> accepts.\<close>

definition space_runes :: "string list" where
  "space_runes =
     [[CHR 0x20], [CHR 0x09], [CHR 0x0A], [CHR 0x0B], [CHR 0x0C], [CHR 0x0D],
      [CHR 0xC2, CHR 0x85], [CHR 0xC2, CHR 0xA0], [CHR 0xE1, CHR 0x9A, CHR 0x80],
      [CHR 0xE2, CHR 0x80, CHR 0x80], [CHR 0xE2, CHR 0x80, CHR 0x81], [CHR 0xE2, CHR 0x80, CHR 0x82],
      [CHR 0xE2, CHR 0x80, CHR 0x83], [CHR 0xE2, CHR 0x80, CHR 0x84], [CHR 0xE2, CHR 0x80, CHR 0x85],
      [CHR 0xE2, CHR 0x80, CHR 0x86], [CHR 0xE2, CHR 0x80, CHR 0x87], [CHR 0xE2, CHR 0x80, CHR 0x88],
      [CHR 0xE2, CHR 0x80, CHR 0x89], [CHR 0xE2, CHR 0x80, CHR 0x8A], [CHR 0xE2, CHR 0x80, CHR 0xA8],
      [CHR 0xE2, CHR 0x80, CHR 0xA9], [CHR 0xE2, CHR 0x80, CHR 0xAF], [CHR 0xE2, CHR 0x81, CHR 0x9F],
      [CHR 0xE3, CHR 0x80, CHR 0x80]]"

definition token_at :: "string list \<Rightarrow> string \<Rightarrow> string option" where
  "token_at R s = find (\<lambda>w. w \<noteq> [] \<and> take (length w) s = w) R"

lemma token_at_shorter: "token_at R s = Some w \<Longrightarrow> length (drop (length w) s) < length s"
  by (auto simp: token_at_def dest!: find_Some_mem) (metis diff_less length_greater_0_conv take_eq_Nil2)

text \<open>Take tokens of \<open>R\<close> off the front as long as there is one.\<close>

function strip_left :: "string list \<Rightarrow> string \<Rightarrow> string" where
  "strip_left R s = (case token_at R s of None \<Rightarrow> s | Some w \<Rightarrow> strip_left R (drop (length w) s))"
  by pat_completeness auto
termination
  by (relation "measure (\<lambda>(R, s). length s)") (auto dest: token_at_shorter)

declare strip_left.simps [simp del]

definition trim_left :: "string \<Rightarrow> string" where
  "trim_left s = strip_left space_runes s"

definition trim_right :: "string \<Rightarrow> string" where
  "trim_right s = rev (strip_left (map rev space_runes) (rev s))"

definition trim_space :: "string \<Rightarrow> string" where
  "trim_space s = trim_right (trim_left s)"

lemma strip_left_no_token: "token_at R (strip_left R s) = None"
  by (induction R s rule: strip_left.induct) (simp add: strip_left.simps split: option.split)

lemma strip_left_fixed: "token_at R s = None \<Longrightarrow> strip_left R s = s"
  by (simp add: strip_left.simps)

lemma strip_left_suffix: "suffix (strip_left R s) s"
proof (induction R s rule: strip_left.induct)
  case (1 R s)
  then show ?case
    by (subst strip_left.simps)
      (auto split: option.split intro: suffix_order.trans suffix_drop)
qed

lemma trim_right_prefix: "prefix (trim_right s) s"
  using strip_left_suffix [of "map rev space_runes" "rev s"]
  by (simp add: trim_right_def suffix_to_prefix)

lemma token_at_prefix: "token_at R s = None \<Longrightarrow> prefix p s \<Longrightarrow> token_at R p = None"
proof -
  assume none: "token_at R s = None" and pre: "prefix p s"
  have "\<not> (w \<noteq> [] \<and> take (length w) p = w)" if "w \<in> set R" for w
  proof
    assume w: "w \<noteq> [] \<and> take (length w) p = w"
    then have "prefix w p" by (metis take_is_prefix)
    then have "prefix w s" using pre by (rule prefix_order.trans)
    then have "take (length w) s = w" by (auto simp: prefix_def)
    with w none that show False by (auto simp: token_at_def find_None_iff)
  qed
  then show ?thesis by (auto simp: token_at_def find_None_iff)
qed

lemma trim_space_idem [simp]: "trim_space (trim_space s) = trim_space s"
proof -
  let ?l = "trim_left s"
  have "token_at space_runes ?l = None"
    by (simp add: trim_left_def strip_left_no_token)
  then have "token_at space_runes (trim_right ?l) = None"
    using trim_right_prefix by (rule token_at_prefix)
  then have "trim_left (trim_right ?l) = trim_right ?l"
    by (simp add: trim_left_def strip_left_fixed)
  moreover have "trim_right (trim_right ?l) = trim_right ?l"
    by (simp add: trim_right_def strip_left_fixed strip_left_no_token)
  ultimately show ?thesis by (simp add: trim_space_def)
qed

lemma token_at_Nil [simp]: "token_at R [] = None"
  by (auto simp: token_at_def find_None_iff)

lemma strip_left_Nil [simp]: "strip_left R [] = []"
  by (simp add: strip_left_fixed)

lemma trim_space_Nil [simp]: "trim_space [] = []"
  by (simp add: trim_space_def trim_left_def trim_right_def)

section \<open>Case, splitting, joining\<close>

definition lower_char :: "char \<Rightarrow> char" where
  "lower_char c = (let n = of_char c :: nat in if 65 \<le> n \<and> n \<le> 90 then char_of (n + 32) else c)"

definition upper_char :: "char \<Rightarrow> char" where
  "upper_char c = (let n = of_char c :: nat in if 97 \<le> n \<and> n \<le> 122 then char_of (n - 32) else c)"

definition to_lower :: "string \<Rightarrow> string" where
  "to_lower s = map lower_char s"

definition to_upper :: "string \<Rightarrow> string" where
  "to_upper s = map upper_char s"

definition equal_fold :: "string \<Rightarrow> string \<Rightarrow> bool" where
  "equal_fold a b \<longleftrightarrow> to_lower a = to_lower b"

definition has_prefix :: "string \<Rightarrow> string \<Rightarrow> bool" where
  "has_prefix s p \<longleftrightarrow> take (length p) s = p"

fun contains_str :: "string \<Rightarrow> string \<Rightarrow> bool" where
  "contains_str [] sub = (sub = [])"
| "contains_str (c # s) sub = (has_prefix (c # s) sub \<or> contains_str s sub)"

definition contains_any :: "string \<Rightarrow> string \<Rightarrow> bool" where
  "contains_any s chars \<longleftrightarrow> (\<exists>c \<in> set s. c \<in> set chars)"

text \<open>\<^verbatim>\<open>strings.Join\<close> and \<^verbatim>\<open>strings.Split\<close> with a separator of one byte.\<close>

fun join :: "string \<Rightarrow> string list \<Rightarrow> string" where
  "join sep [] = []"
| "join sep [x] = x"
| "join sep (x # y # xs) = x @ sep @ join sep (y # xs)"

fun split_char :: "char \<Rightarrow> string \<Rightarrow> string list" where
  "split_char c [] = [[]]"
| "split_char c (x # s) =
     (if x = c then [] # split_char c s
      else (case split_char c s of [] \<Rightarrow> [[x]] | w # ws \<Rightarrow> (x # w) # ws))"

text \<open>\<^verbatim>\<open>strings.ReplaceAll\<close> of a non-empty piece, left to right and not overlapping.\<close>

function replace_all :: "string \<Rightarrow> string \<Rightarrow> string \<Rightarrow> string" where
  "replace_all old new [] = []"
| "replace_all old new (c # s) =
     (if old \<noteq> [] \<and> has_prefix (c # s) old
      then new @ replace_all old new (drop (length old) (c # s))
      else c # replace_all old new s)"
  by pat_completeness auto
termination
  by (relation "measure (\<lambda>(old, new, s). length s)") auto

text \<open>\<^verbatim>\<open>humanize\<close> of the code: trim, then underscores become spaces.\<close>

definition humanize :: "string \<Rightarrow> string" where
  "humanize name = replace_all ''_'' '' '' (trim_space name)"

lemma split_char_not_Nil [simp]: "split_char c s \<noteq> []"
  by (induction s) (auto split: list.split)

lemma join_split_char: "join [c] (split_char c s) = s"
proof (induction s)
  case Nil
  then show ?case by simp
next
  case (Cons x s)
  obtain w ws where sp: "split_char c s = w # ws"
    by (meson list.exhaust split_char_not_Nil)
  show ?case
  proof (cases ws)
    case Nil
    with sp Cons.IH show ?thesis by simp
  next
    case (Cons v vs)
    with sp Cons.IH show ?thesis by simp
  qed
qed

lemma has_prefix_append [simp]: "has_prefix (p @ s) p"
  by (simp add: has_prefix_def)

lemma has_prefix_self [simp]: "has_prefix s s"
  by (simp add: has_prefix_def)

lemma contains_str_prefix: "has_prefix s p \<Longrightarrow> contains_str s p"
  by (cases s) (auto simp: has_prefix_def)

lemma contains_str_append: "contains_str (a @ sub @ b) sub"
proof (induction a)
  case Nil
  then show ?case by (simp add: contains_str_prefix)
next
  case (Cons c a)
  then show ?case by simp
qed

section \<open>Runes\<close>

text \<open>
  \<open>rune_size\<close> is how many bytes \<^verbatim>\<open>utf8.DecodeRune\<close> takes off the front: the length of a
  valid encoding, 1 for a byte that starts none (which decodes to U+FFFD).
\<close>

definition byte :: "char \<Rightarrow> nat" where
  "byte c = of_char c"

definition cont_byte :: "char \<Rightarrow> bool" where
  "cont_byte c \<longleftrightarrow> 128 \<le> byte c \<and> byte c \<le> 191"

definition byte_in :: "nat \<Rightarrow> nat \<Rightarrow> char \<Rightarrow> bool" where
  "byte_in lo hi c \<longleftrightarrow> lo \<le> byte c \<and> byte c \<le> hi"

fun valid_rune_size :: "string \<Rightarrow> nat option" where
  "valid_rune_size [] = None"
| "valid_rune_size (b # s) =
     (if byte b < 128 then Some 1
      else if byte_in 194 223 b then
        (case s of c1 # _ \<Rightarrow> if cont_byte c1 then Some 2 else None | _ \<Rightarrow> None)
      else if byte_in 224 239 b then
        (case s of c1 # c2 # _ \<Rightarrow>
           if byte_in (if byte b = 224 then 160 else 128) (if byte b = 237 then 159 else 191) c1 \<and> cont_byte c2
           then Some 3 else None
         | _ \<Rightarrow> None)
      else if byte_in 240 244 b then
        (case s of c1 # c2 # c3 # _ \<Rightarrow>
           if byte_in (if byte b = 240 then 144 else 128) (if byte b = 244 then 143 else 191) c1
              \<and> cont_byte c2 \<and> cont_byte c3
           then Some 4 else None
         | _ \<Rightarrow> None)
      else None)"

definition rune_error :: "string" where
  "rune_error = [CHR 0xEF, CHR 0xBF, CHR 0xBD]"

lemma valid_rune_size_pos: "valid_rune_size s = Some n \<Longrightarrow> 0 < n \<and> n \<le> length s"
  by (cases s) (auto split: if_splits list.splits)

declare valid_rune_size.simps(2) [simp del]

text \<open>\<^verbatim>\<open>[]rune(s)\<close>, each rune as the bytes it is written back with.\<close>

function runes :: "string \<Rightarrow> string list" where
  "runes [] = []"
| "runes (b # s) =
     (case valid_rune_size (b # s) of
        None \<Rightarrow> rune_error # runes s
      | Some n \<Rightarrow> take n (b # s) # runes (drop n (b # s)))"
  by pat_completeness auto
termination
  by (relation "measure length") (auto dest!: valid_rune_size_pos)

definition rune_count :: "string \<Rightarrow> nat" where
  "rune_count s = length (runes s)"

definition ellipsis :: "string" where
  "ellipsis = [CHR 0xE2, CHR 0x80, CHR 0xA6]"

text \<open>\<^verbatim>\<open>truncateRunes\<close>: the first \<open>n\<close> characters, with an ellipsis when there were more.\<close>

definition truncate_runes :: "string \<Rightarrow> nat \<Rightarrow> string" where
  "truncate_runes s n = (if n < length (runes s) then concat (take n (runes s)) @ ellipsis else s)"

text \<open>
  \<^verbatim>\<open>%q\<close>: quotes and backslashes escaped, control characters and bytes that are no rune as
  escapes, every other rune as it is.
\<close>

definition hex_digit :: "nat \<Rightarrow> char" where
  "hex_digit d = (if d < 10 then char_of (48 + d) else char_of (87 + d))"

definition x_escape :: "char \<Rightarrow> string" where
  "x_escape c = [CHR 0x5C, CHR ''x'', hex_digit (byte c div 16), hex_digit (byte c mod 16)]"

definition quote_char :: "char \<Rightarrow> string" where
  "quote_char c =
     (if c = CHR 0x22 \<or> c = CHR 0x5C then [CHR 0x5C, c]
      else if c = CHR 0x07 then [CHR 0x5C, CHR ''a'']
      else if c = CHR 0x08 then [CHR 0x5C, CHR ''b'']
      else if c = CHR 0x0C then [CHR 0x5C, CHR ''f'']
      else if c = CHR 0x0A then [CHR 0x5C, CHR ''n'']
      else if c = CHR 0x0D then [CHR 0x5C, CHR ''r'']
      else if c = CHR 0x09 then [CHR 0x5C, CHR ''t'']
      else if c = CHR 0x0B then [CHR 0x5C, CHR ''v'']
      else if byte c < 32 \<or> byte c = 127 then x_escape c
      else [c])"

function quote_body :: "string \<Rightarrow> string" where
  "quote_body [] = []"
| "quote_body (b # s) =
     (case valid_rune_size (b # s) of
        None \<Rightarrow> x_escape b @ quote_body s
      | Some n \<Rightarrow> (if n = 1 then quote_char b @ quote_body s
                   else take n (b # s) @ quote_body (drop n (b # s))))"
  by pat_completeness auto
termination
  by (relation "measure length") (auto dest!: valid_rune_size_pos)

definition go_quote :: "string \<Rightarrow> string" where
  "go_quote s = [CHR 0x22] @ quote_body s @ [CHR 0x22]"

definition em_dash :: "string" where
  "em_dash = [CHR 0xE2, CHR 0x80, CHR 0x94]"

section \<open>Fields\<close>

text \<open>
  \<^verbatim>\<open>strings.Fields\<close>: the maximal runs of runes that are not white space.
\<close>

definition is_space_rune :: "string \<Rightarrow> bool" where
  "is_space_rune r \<longleftrightarrow> r \<in> set space_runes"

fun field_runes :: "string \<Rightarrow> string list \<Rightarrow> string list" where
  "field_runes cur [] = (if cur = [] then [] else [cur])"
| "field_runes cur (r # rs) =
     (if is_space_rune r then (if cur = [] then field_runes [] rs else cur # field_runes [] rs)
      else field_runes (cur @ r) rs)"

definition fields :: "string \<Rightarrow> string list" where
  "fields s = field_runes [] (runes s)"

lemma field_runes_nonempty: "\<forall>r\<in>set rs. r \<noteq> [] \<Longrightarrow> w \<in> set (field_runes cur rs) \<Longrightarrow> w \<noteq> []"
  by (induction cur rs rule: field_runes.induct) (auto split: if_splits)

section \<open>Decimal integers\<close>

definition digit_char :: "int \<Rightarrow> char" where
  "digit_char d = char_of (48 + nat d)"

text \<open>The decimal digits of a number that is not negative.\<close>

function int_digits :: "int \<Rightarrow> string" where
  "int_digits n = (if n < 10 then [digit_char n] else int_digits (n div 10) @ [digit_char (n mod 10)])"
  by pat_completeness auto
termination
  by (relation "measure nat") auto

declare int_digits.simps [simp del]

definition itoa :: "int \<Rightarrow> string" where
  "itoa i = (if i < 0 then ''-'' @ int_digits (- i) else int_digits i)"

text \<open>The range of Go's \<^verbatim>\<open>int\<close>.\<close>

definition int64_range :: "int \<Rightarrow> bool" where
  "int64_range n \<longleftrightarrow> - (2 ^ 63) \<le> n \<and> n < 2 ^ 63"

definition is_digit :: "char \<Rightarrow> bool" where
  "is_digit c \<longleftrightarrow> 48 \<le> byte c \<and> byte c \<le> 57"

definition digit_val :: "char \<Rightarrow> int" where
  "digit_val c = int (byte c) - 48"

definition digits_val :: "string \<Rightarrow> int" where
  "digits_val ds = foldl (\<lambda>n c. 10 * n + digit_val c) 0 ds"

lemma digit_val_digit_char [simp]: "0 \<le> d \<Longrightarrow> d < 10 \<Longrightarrow> digit_val (digit_char d) = d"
  by (simp add: digit_val_def digit_char_def byte_def)

lemma digits_val_snoc [simp]: "digits_val (ds @ [c]) = 10 * digits_val ds + digit_val c"
  by (simp add: digits_val_def)

text \<open>Reading back what was printed.\<close>

lemma digits_val_int_digits: "0 \<le> n \<Longrightarrow> digits_val (int_digits n) = n"
proof (induction n rule: int_digits.induct)
  case (1 n)
  show ?case
  proof (cases "n < 10")
    case True
    then show ?thesis using "1.prems" by (simp add: int_digits.simps [of n] digits_val_def)
  next
    case False
    then have "digits_val (int_digits n) = 10 * digits_val (int_digits (n div 10)) + n mod 10"
      by (simp add: int_digits.simps [of n])
    then show ?thesis using "1.IH" [OF False] "1.prems" by simp
  qed
qed

lemma int_digits_digits: "0 \<le> n \<Longrightarrow> c \<in> set (int_digits n) \<Longrightarrow> is_digit c"
proof (induction n arbitrary: c rule: int_digits.induct)
  case (1 n)
  have d: "is_digit (digit_char d)" if "0 \<le> d" "d < 10" for d
    using that by (simp add: is_digit_def digit_char_def byte_def)
  show ?case
  proof (cases "n < 10")
    case True
    then show ?thesis using "1.prems" d by (simp add: int_digits.simps [of n])
  next
    case False
    then show ?thesis using "1.prems" "1.IH" d by (auto simp: int_digits.simps [of n])
  qed
qed

lemma minus_not_in_digits: "0 \<le> n \<Longrightarrow> CHR ''-'' \<notin> set (int_digits n)"
proof
  assume "0 \<le> n" "CHR ''-'' \<in> set (int_digits n)"
  then have "is_digit (CHR ''-'')" by (rule int_digits_digits)
  then show False by (simp add: is_digit_def byte_def)
qed

lemma itoa_minus: "CHR ''-'' \<in> set (itoa i) \<longleftrightarrow> i < 0"
  using minus_not_in_digits [of i] by (auto simp: itoa_def)

lemma itoa_inj: "itoa i = itoa j \<Longrightarrow> i = j"
proof -
  assume eq: "itoa i = itoa j"
  then have sg: "i < 0 \<longleftrightarrow> j < 0" by (metis itoa_minus)
  show "i = j"
  proof (cases "i < 0")
    case True
    then have "int_digits (- i) = int_digits (- j)" using eq sg by (simp add: itoa_def)
    then have "- i = - j" using True sg by (metis digits_val_int_digits le_minus_iff minus_zero less_imp_le)
    then show ?thesis by simp
  next
    case False
    then have "int_digits i = int_digits j" using eq sg by (simp add: itoa_def)
    then show ?thesis using False sg by (metis digits_val_int_digits not_less)
  qed
qed

end
