(* ===== verification/Go_Numbers.thy ===== *)
theory Go_Numbers
  imports Go_Strings Complex_Main
begin

text \<open>
  Go's \<^verbatim>\<open>float64\<close>: a finite value is the rational number it stands for (both zeros are
  \<open>Fin 0\<close>), and every operation rounds the exact result to the nearest representable number,
  ties to even, as IEEE 754 says. Also the conversions of \<^verbatim>\<open>strconv\<close>: reading a number
  from text and printing the shortest decimal that reads back.
\<close>

section \<open>Values and rounding\<close>

datatype f64 = Fin rat | PInf | NInf | NaN

definition pow_int :: "rat \<Rightarrow> int \<Rightarrow> rat" where
  "pow_int b e = (if 0 \<le> e then b ^ nat e else 1 / b ^ nat (- e))"

function bit_length :: "int \<Rightarrow> int" where
  "bit_length n = (if n \<le> 0 then 0 else 1 + bit_length (n div 2))"
  by pat_completeness auto
termination
  by (relation "measure nat") auto

declare bit_length.simps [simp del]

text \<open>The largest \<open>e\<close> with \<open>2 ^ e \<le> q\<close>, for a positive \<open>q\<close>.\<close>

definition ilog2 :: "rat \<Rightarrow> int" where
  "ilog2 q = (let (a, b) = quotient_of q; e = bit_length a - bit_length b
     in if pow_int 2 e \<le> q then e else e - 1)"

definition round_half_even :: "rat \<Rightarrow> int" where
  "round_half_even q = (let f = \<lfloor>q\<rfloor>; r = q - of_int f
     in if r < 1 / 2 then f else if 1 / 2 < r then f + 1 else if even f then f else f + 1)"

definition round_half_away :: "rat \<Rightarrow> int" where
  "round_half_away q = (if 0 \<le> q then \<lfloor>q + 1 / 2\<rfloor> else - \<lfloor>1 / 2 - q\<rfloor>)"

definition f_sign_inf :: "bool \<Rightarrow> f64" where
  "f_sign_inf neg = (if neg then NInf else PInf)"

definition rnd64 :: "rat \<Rightarrow> f64" where
  "rnd64 q =
     (if q = 0 then Fin 0
      else let u = pow_int 2 (max (ilog2 \<bar>q\<bar> - 52) (- 1074));
               v = of_int (round_half_even (q / u)) * u
           in if v \<noteq> 0 \<and> 1024 \<le> ilog2 \<bar>v\<bar> then f_sign_inf (v < 0) else Fin v)"

definition f_of_int :: "int \<Rightarrow> f64" where
  "f_of_int i = rnd64 (of_int i)"

fun f_neg :: "f64 \<Rightarrow> bool" where
  "f_neg (Fin q) = (q < 0)" | "f_neg PInf = False" | "f_neg NInf = True" | "f_neg NaN = False"

fun f_mul :: "f64 \<Rightarrow> f64 \<Rightarrow> f64" where
  "f_mul (Fin a) (Fin b) = rnd64 (a * b)"
| "f_mul a b = (if a = NaN \<or> b = NaN \<or> a = Fin 0 \<or> b = Fin 0 then NaN else f_sign_inf (f_neg a \<noteq> f_neg b))"

fun f_sub :: "f64 \<Rightarrow> f64 \<Rightarrow> f64" where
  "f_sub (Fin a) (Fin b) = rnd64 (a - b)"
| "f_sub NaN b = NaN"
| "f_sub a NaN = NaN"
| "f_sub PInf b = (if b = PInf then NaN else PInf)"
| "f_sub NInf b = (if b = NInf then NaN else NInf)"
| "f_sub (Fin a) PInf = NInf"
| "f_sub (Fin a) NInf = PInf"

fun f_lt :: "f64 \<Rightarrow> f64 \<Rightarrow> bool" where
  "f_lt (Fin a) (Fin b) = (a < b)"
| "f_lt NaN b = False"
| "f_lt a NaN = False"
| "f_lt PInf b = False"
| "f_lt NInf b = (b \<noteq> NInf)"
| "f_lt (Fin a) PInf = True"
| "f_lt (Fin a) NInf = False"

fun f_eq :: "f64 \<Rightarrow> f64 \<Rightarrow> bool" where
  "f_eq NaN b = False"
| "f_eq a b = (a = b)"

fun f_finite :: "f64 \<Rightarrow> bool" where
  "f_finite (Fin q) = True" | "f_finite _ = False"

text \<open>\<^verbatim>\<open>f != math.Trunc(f)\<close> fails: the value is whole.\<close>

fun f_whole :: "f64 \<Rightarrow> bool" where
  "f_whole (Fin q) = (of_int \<lfloor>q\<rfloor> = q)"
| "f_whole PInf = True" | "f_whole NInf = True" | "f_whole NaN = False"

text \<open>\<^verbatim>\<open>roundTo(n, 2)\<close>: \<^verbatim>\<open>math.Round(n*100) / 100\<close>.\<close>

definition round_to2 :: "f64 \<Rightarrow> f64" where
  "round_to2 n = (case f_mul n (Fin 100) of
     Fin q \<Rightarrow> rnd64 (of_int (round_half_away q) / 100) | v \<Rightarrow> v)"

section \<open>Reading a number\<close>

definition hex_val :: "char \<Rightarrow> int option" where
  "hex_val c = (if is_digit c then Some (int (byte c) - 48)
     else if byte_in 97 102 c then Some (int (byte c) - 87)
     else if byte_in 65 70 c then Some (int (byte c) - 55) else None)"

text \<open>
  \<open>scan_mant\<close> reads digits with at most one dot: the number without the dot, how many digits
  stood after it, how many digits there were, and the rest.
\<close>

fun scan_mant :: "int \<Rightarrow> bool \<Rightarrow> int \<Rightarrow> int \<Rightarrow> int \<Rightarrow> string \<Rightarrow> int \<times> int \<times> int \<times> string" where
  "scan_mant base dot m fr n [] = (m, fr, n, [])"
| "scan_mant base dot m fr n (c # s) =
     (if c = CHR ''.'' then (if dot then (m, fr, n, c # s) else scan_mant base True m fr n s)
      else case (if base = 16 then hex_val c else if is_digit c then Some (digit_val c) else None) of
        Some d \<Rightarrow> scan_mant base dot (base * m + d) (if dot then fr + 1 else fr) (n + 1) s
      | None \<Rightarrow> (m, fr, n, c # s))"

text \<open>The exponent after \<^verbatim>\<open>e\<close> or \<^verbatim>\<open>p\<close>: an optional sign and digits to the end of the text.\<close>

definition scan_exp :: "string \<Rightarrow> int option" where
  "scan_exp s = (let (neg, ds) = (case s of
         c # t \<Rightarrow> (if c = CHR ''+'' then (False, t) else if c = CHR ''-'' then (True, t) else (False, s))
       | [] \<Rightarrow> (False, s))
     in if ds \<noteq> [] \<and> list_all is_digit ds
        then Some (if neg then - digits_val ds else digits_val ds) else None)"

definition scan_number :: "string \<Rightarrow> rat option" where
  "scan_number s =
     (if has_prefix (to_lower s) ''0x'' \<and> 2 < length s then
        (case scan_mant 16 False 0 0 0 (drop 2 s) of
          (m, fr, n, c # t) \<Rightarrow>
             (if n = 0 \<or> lower_char c \<noteq> CHR ''p'' then None
              else map_option (\<lambda>e. of_int m * pow_int 2 (e - 4 * fr)) (scan_exp t))
        | _ \<Rightarrow> None)
      else
        (case scan_mant 10 False 0 0 0 s of
          (m, fr, n, []) \<Rightarrow> (if n = 0 then None else Some (of_int m * pow_int 10 (- fr)))
        | (m, fr, n, c # t) \<Rightarrow>
             (if n = 0 \<or> lower_char c \<noteq> CHR ''e'' then None
              else map_option (\<lambda>e. of_int m * pow_int 10 (e - fr)) (scan_exp t))))"

text \<open>\<^verbatim>\<open>underscoreOK\<close>: an underscore only between digits (a base prefix counts as one).\<close>

fun under_ok :: "bool \<Rightarrow> char \<Rightarrow> string \<Rightarrow> bool" where
  "under_ok hex prev [] = (prev \<noteq> CHR ''_'')"
| "under_ok hex prev (c # s) =
     (if is_digit c \<or> (hex \<and> hex_val c \<noteq> None) then under_ok hex (CHR ''0'') s
      else if c = CHR ''_'' then prev = CHR ''0'' \<and> under_ok hex (CHR ''_'') s
      else prev \<noteq> CHR ''_'' \<and> under_ok hex (CHR ''!'') s)"

definition split_sign :: "string \<Rightarrow> bool \<times> string" where
  "split_sign s = (case s of
      c # t \<Rightarrow> (if c = CHR ''-'' then (True, t) else if c = CHR ''+'' then (False, t) else (False, s))
    | [] \<Rightarrow> (False, s))"

definition underscore_ok :: "string \<Rightarrow> bool" where
  "underscore_ok s =
     (if has_prefix (to_lower s) ''0x'' \<or> has_prefix (to_lower s) ''0b'' \<or> has_prefix (to_lower s) ''0o''
      then under_ok (has_prefix (to_lower s) ''0x'') (CHR ''0'') (drop 2 s)
      else under_ok False (CHR ''^'') s)"

text \<open>\<^verbatim>\<open>strconv.ParseFloat(s, 64)\<close>; \<open>None\<close> is an error (syntax, or out of range).\<close>

definition parse_float :: "string \<Rightarrow> f64 option" where
  "parse_float s =
     (let (neg, t) = split_sign s in
      if to_lower t = ''inf'' \<or> to_lower t = ''infinity'' then Some (f_sign_inf neg)
      else if to_lower s = ''nan'' then Some NaN
      else if CHR ''_'' \<in> set t \<and> \<not> underscore_ok t then None
      else case scan_number (filter (\<lambda>c. c \<noteq> CHR ''_'') t) of
        None \<Rightarrow> None
      | Some q \<Rightarrow> (case rnd64 (if neg then - q else q) of Fin v \<Rightarrow> Some (Fin v) | _ \<Rightarrow> None))"

section \<open>Printing a number\<close>

fun ilog10_small :: "nat \<Rightarrow> rat \<Rightarrow> int" where
  "ilog10_small 0 q = 0"
| "ilog10_small (Suc k) q = (if 1 \<le> q then 0 else ilog10_small k (10 * q) - 1)"

definition ilog10 :: "rat \<Rightarrow> int" where
  "ilog10 q = (if 1 \<le> q then int (length (int_digits \<lfloor>q\<rfloor>)) - 1 else ilog10_small 400 q)"

text \<open>
  The shortest digits that read back to the same number: try one digit, two, and so on;
  seventeen always do. The result is the digits and the place of the decimal point before them.
\<close>

fun shortest_from :: "nat \<Rightarrow> nat \<Rightarrow> rat \<Rightarrow> int \<Rightarrow> string \<times> int" where
  "shortest_from 0 p q e = ([], 0)"
| "shortest_from (Suc k) p q e =
     (let sc = pow_int 10 (int p - 1 - e); m = round_half_even (q * sc)
      in if k = 0 \<or> rnd64 (of_int m / sc) = Fin q
         then (int_digits m, e + 1 + int (length (int_digits m)) - int p)
         else shortest_from k (Suc p) q e)"

fun strip_zeros :: "string \<Rightarrow> string" where
  "strip_zeros [] = []"
| "strip_zeros (c # s) = (let t = strip_zeros s in if t = [] \<and> c = CHR ''0'' then [] else c # t)"

definition shortest :: "rat \<Rightarrow> string \<times> int" where
  "shortest q = (let (ds, dp) = shortest_from 17 1 q (ilog10 q) in (strip_zeros ds, dp))"

text \<open>\<^verbatim>\<open>%f\<close>: no exponent.\<close>

definition digits_f :: "string \<times> int \<Rightarrow> string" where
  "digits_f d = (let (ds, dp) = d; n = int (length ds) in
     (if 0 < dp then take (nat dp) ds @ replicate (nat (dp - n)) (CHR ''0'') else ''0'') @
     (if dp < n then ''.'' @ replicate (nat (- dp)) (CHR ''0'') @ drop (nat dp) ds else []))"

text \<open>\<^verbatim>\<open>%e\<close>: one digit before the dot and an exponent of at least two digits.\<close>

definition digits_e :: "string \<times> int \<Rightarrow> string" where
  "digits_e d = (let (ds, dp) = d; x = dp - 1; xs = int_digits \<bar>x\<bar> in
     take 1 ds @ (if 1 < length ds then ''.'' @ drop 1 ds else []) @ ''e'' @
     (if x < 0 then ''-'' else ''+'') @ (if length xs < 2 then ''0'' @ xs else xs))"

definition with_sign :: "(rat \<Rightarrow> string) \<Rightarrow> rat \<Rightarrow> string" where
  "with_sign pr q = (if q = 0 then ''0'' else if q < 0 then ''-'' @ pr (- q) else pr q)"

text \<open>\<^verbatim>\<open>strconv.FormatFloat(n, 'f', -1, 64)\<close>, the \<^verbatim>\<open>formatNumber\<close> of the code.\<close>

fun format_number :: "f64 \<Rightarrow> string" where
  "format_number (Fin q) = with_sign (\<lambda>q. digits_f (shortest q)) q"
| "format_number PInf = ''+Inf''" | "format_number NInf = ''-Inf''" | "format_number NaN = ''NaN''"

text \<open>\<^verbatim>\<open>%v\<close>: with an exponent below 1e-4 and from a million up.\<close>

fun format_v :: "f64 \<Rightarrow> string" where
  "format_v (Fin q) = with_sign (\<lambda>q. let d = shortest q; x = snd d - 1 in
     if x < - 4 \<or> 6 \<le> x then digits_e d else digits_f d) q"
| "format_v PInf = ''+Inf''" | "format_v NInf = ''-Inf''" | "format_v NaN = ''NaN''"

text \<open>
  How \<^verbatim>\<open>encoding/json\<close> writes a number (it refuses what is not finite): an exponent below
  1e-6 and from 1e21, without a leading zero.
\<close>

definition json_exp :: "string \<Rightarrow> string" where
  "json_exp s = (let n = length s in
     if 4 \<le> n \<and> s ! (n - 4) = CHR ''e'' \<and> s ! (n - 2) = CHR ''0'' then take (n - 2) s @ drop (n - 1) s else s)"

fun json_number :: "f64 \<Rightarrow> string option" where
  "json_number (Fin q) = Some (with_sign (\<lambda>q. if q < 1 / 1000000 \<or> 10 ^ 21 \<le> q
     then json_exp (digits_e (shortest q)) else digits_f (shortest q)) q)"
| "json_number _ = None"

end
