(* ===== verification/Go_Values.thy ===== *)
theory Go_Values
  imports Go_Numbers "HOL-Library.Char_ord" "HOL-Library.List_Lexorder"
begin

text \<open>
  The values of Go's type \<^verbatim>\<open>any\<close> that reach the modelled code: what
  \<^verbatim>\<open>encoding/json\<close> decodes to, Go integers and \<^verbatim>\<open>json.Number\<close>. With them, the three
  ways the code turns a value into text: \<^verbatim>\<open>fmt.Sprint\<close>, \<^verbatim>\<open>json.Marshal\<close> and the
  code's own \<^verbatim>\<open>StringifyResult\<close>.
\<close>

datatype goval =
    GNil
  | GBool bool
  | GNum f64
  | GInt int
  | GJNum string
  | GStr string
  | GArr "goval list"
  | GObj "(string \<times> goval) list"

type_synonym args = "goval gomap"

section \<open>Type assertions\<close>

fun as_str :: "goval \<Rightarrow> string option" where
  "as_str (GStr s) = Some s" | "as_str _ = None"

fun as_bool_val :: "goval \<Rightarrow> bool option" where
  "as_bool_val (GBool b) = Some b" | "as_bool_val _ = None"

fun as_f64 :: "goval \<Rightarrow> f64 option" where
  "as_f64 (GNum f) = Some f" | "as_f64 _ = None"

fun as_list :: "goval \<Rightarrow> goval list option" where
  "as_list (GArr vs) = Some vs" | "as_list _ = None"

fun as_obj :: "goval \<Rightarrow> args option" where
  "as_obj (GObj m) = Some m" | "as_obj _ = None"

text \<open>\<open>m[k]\<close> of a \<^verbatim>\<open>map[string]any\<close>: \<^verbatim>\<open>nil\<close> when the key is missing.\<close>

definition get_any :: "args \<Rightarrow> string \<Rightarrow> goval" where
  "get_any m k = (case gm_get m k of None \<Rightarrow> GNil | Some v \<Rightarrow> v)"

text \<open>\<open>s, _ := m[k].(string)\<close>.\<close>

definition get_str :: "args \<Rightarrow> string \<Rightarrow> string" where
  "get_str m k = (case as_str (get_any m k) of None \<Rightarrow> [] | Some s \<Rightarrow> s)"

lemma get_any_Nil [simp]: "get_any [] k = GNil"
  by (simp add: get_any_def)

lemma get_any_Cons [simp]: "get_any ((k', v) # m) k = (if k = k' then v else get_any m k)"
  by (simp add: get_any_def)

lemma get_any_set [simp]: "get_any (gm_set k v m) k' = (if k' = k then v else get_any m k')"
  by (simp add: get_any_def)

section \<open>fmt.Sprint\<close>

fun sprint :: "goval \<Rightarrow> string" where
  "sprint GNil = ''<nil>''"
| "sprint (GBool b) = (if b then ''true'' else ''false'')"
| "sprint (GNum f) = format_v f"
| "sprint (GInt i) = itoa i"
| "sprint (GJNum s) = s"
| "sprint (GStr s) = s"
| "sprint (GArr vs) = ''['' @ join '' '' (map sprint vs) @ '']''"
| "sprint (GObj m) = ''map['' @
     join '' '' (map snd (sort_key fst (map (\<lambda>(k, v). (k, k @ '':'' @ sprint v)) m))) @ '']''"

section \<open>json.Marshal\<close>

definition hex_char :: "nat \<Rightarrow> char" where
  "hex_char d = (if d < 10 then char_of (48 + d) else char_of (87 + d))"

definition u_escape :: "char \<Rightarrow> string" where
  "u_escape c = [CHR 0x5C] @ ''u00'' @ [hex_char (byte c div 16), hex_char (byte c mod 16)]"

definition json_rune :: "string \<Rightarrow> string" where
  "json_rune r = (case r of
      [c] \<Rightarrow>
        (if c = CHR 0x22 \<or> c = CHR 0x5C then [CHR 0x5C, c]
         else if c = CHR 0x08 then [CHR 0x5C, CHR ''b'']
         else if c = CHR 0x0C then [CHR 0x5C, CHR ''f'']
         else if c = CHR 0x0A then [CHR 0x5C, CHR ''n'']
         else if c = CHR 0x0D then [CHR 0x5C, CHR ''r'']
         else if c = CHR 0x09 then [CHR 0x5C, CHR ''t'']
         else if byte c < 32 \<or> c \<in> set ''<>&'' then u_escape c
         else [c])
    | _ \<Rightarrow>
        (if r = [CHR 0xE2, CHR 0x80, CHR 0xA8] then [CHR 0x5C] @ ''u2028''
         else if r = [CHR 0xE2, CHR 0x80, CHR 0xA9] then [CHR 0x5C] @ ''u2029''
         else if r = rune_error then [CHR 0x5C] @ ''ufffd''
         else r))"

definition json_string :: "string \<Rightarrow> string" where
  "json_string s = [CHR 0x22] @ concat (map json_rune (runes s)) @ [CHR 0x22]"

fun all_some :: "'a option list \<Rightarrow> 'a list option" where
  "all_some [] = Some []"
| "all_some (None # xs) = None"
| "all_some (Some x # xs) = map_option (Cons x) (all_some xs)"

text \<open>\<open>None\<close> is an encoding error: a number that is not finite.\<close>

fun json_marshal :: "goval \<Rightarrow> string option" where
  "json_marshal GNil = Some ''null''"
| "json_marshal (GBool b) = Some (if b then ''true'' else ''false'')"
| "json_marshal (GNum f) = json_number f"
| "json_marshal (GInt i) = Some (itoa i)"
| "json_marshal (GJNum s) = Some (if s = [] then ''0'' else s)"
| "json_marshal (GStr s) = Some (json_string s)"
| "json_marshal (GArr vs) =
     map_option (\<lambda>ss. ''['' @ join '','' ss @ '']'') (all_some (map json_marshal vs))"
| "json_marshal (GObj m) =
     map_option (\<lambda>ss. ''{'' @ join '','' (map (\<lambda>(k, s). json_string k @ '':'' @ s) (sort_key fst ss)) @ ''}'')
       (all_some (map (\<lambda>(k, v). map_option (Pair k) (json_marshal v)) m))"

definition marshal_args :: "args \<Rightarrow> string option" where
  "marshal_args m = json_marshal (GObj m)"

text \<open>\<^verbatim>\<open>StringifyResult\<close>.\<close>

definition stringify_result :: "goval \<Rightarrow> string" where
  "stringify_result v = (case v of GStr s \<Rightarrow> s
     | _ \<Rightarrow> (case json_marshal v of Some b \<Rightarrow> b | None \<Rightarrow> sprint v))"

section \<open>Numbers in values\<close>

text \<open>
  \<^verbatim>\<open>toNumber\<close> of the rules: a number, or text that reads as one; never an infinity or
  \<^verbatim>\<open>NaN\<close>. \<open>number_of_value\<close> is the stricter \<^verbatim>\<open>numberOfValue\<close> of the prerequisites.
\<close>

definition finite_or_none :: "f64 option \<Rightarrow> f64 option" where
  "finite_or_none x = (case x of Some f \<Rightarrow> if f_finite f then Some f else None | None \<Rightarrow> None)"

fun to_number :: "goval \<Rightarrow> f64 option" where
  "to_number (GNum f) = finite_or_none (Some f)"
| "to_number (GInt i) = finite_or_none (Some (f_of_int i))"
| "to_number (GStr s) = finite_or_none (parse_float (trim_space s))"
| "to_number _ = None"

fun number_of_value :: "goval \<Rightarrow> f64 option" where
  "number_of_value (GNum f) = Some f"
| "number_of_value (GInt i) = Some (f_of_int i)"
| "number_of_value (GJNum s) = parse_float s"
| "number_of_value _ = None"

lemma to_number_finite: "to_number v = Some f \<Longrightarrow> f_finite f"
  by (cases v) (auto simp: finite_or_none_def split: option.splits if_splits)

end
