(* ===== verification/Outcome.thy ===== *)
theory Outcome
  imports Go_Values
begin

text \<open>
  What an agent may claim (\<^verbatim>\<open>domain/outcome.go\<close>) and how one use of an ability is shown
  (\<^verbatim>\<open>domain/steps.go\<close>): \<open>outcome_of\<close> decides from what an action returned whether it
  really did its job, \<open>finish_check\<close> holds the agent's claim to be done against the record
  of what ran, and \<open>step_state_of\<close> names how a step ended.
\<close>

section \<open>Records of what ran\<close>

record action_record =
  ar_name :: string
  ar_changes :: bool
  ar_done :: bool
  ar_message :: string
  ar_reason :: string

definition output_not_approved :: "string" where
  "output_not_approved = ''not approved''"

definition output_auth_pending_prefix :: "string" where
  "output_auth_pending_prefix = ''auth_pending''"

definition output_timezone_pending_prefix :: "string" where
  "output_timezone_pending_prefix = ''timezone_pending''"

definition is_timezone_pending :: "string \<Rightarrow> bool" where
  "is_timezone_pending v = has_prefix v output_timezone_pending_prefix"

text \<open>\<^verbatim>\<open>strings.TrimRight(s, ".")\<close>.\<close>

definition trim_dots :: "string \<Rightarrow> string" where
  "trim_dots s = rev (dropWhile (\<lambda>c. c = CHR ''.'') (rev s))"

text \<open>The result is (done, message, reason); the error is \<open>None\<close> when the action raised none.\<close>

definition outcome_of :: "goval \<Rightarrow> goerr option \<Rightarrow> bool \<times> string \<times> string" where
  "outcome_of output err =
     (case err of
        Some e \<Rightarrow> (False, [], ''it didn't go through'')
      | None \<Rightarrow>
        (case output of
           GStr v \<Rightarrow>
             (if v = output_not_approved then (False, [], ''it wasn't approved'')
              else if has_prefix v output_auth_pending_prefix then (False, [], ''you need to connect your account first'')
              else if is_timezone_pending v then (False, [], ''I need your time zone first'')
              else (True, [], []))
         | GObj m \<Rightarrow>
             (let message = get_str m ''message'' in
              if get_any m ''changed'' = GBool False then
                (let reason = trim_space message in
                 (False, message, trim_dots (if reason = [] then ''nothing was changed'' else reason)))
              else (True, message, []))
         | _ \<Rightarrow> (True, [], [])))"

definition really_done :: "goval \<Rightarrow> goerr option \<Rightarrow> bool" where
  "really_done output err = fst (outcome_of output err)"

section \<open>Requirements\<close>

record requirements =
  rq_tools :: "string list"
  rq_any_change :: bool

definition outcome_done :: "string" where "outcome_done = ''done''"
definition outcome_need_details :: "string" where "outcome_need_details = ''need_details''"
definition outcome_cannot :: "string" where "outcome_cannot = ''cannot''"

definition max_finish_bounces :: nat where "max_finish_bounces = 2"

text \<open>A \<^verbatim>\<open>nil\<close> requirements pointer is \<open>None\<close>.\<close>

definition rq_active :: "requirements option \<Rightarrow> bool" where
  "rq_active r = (case r of None \<Rightarrow> False | Some q \<Rightarrow> rq_tools q \<noteq> [] \<or> rq_any_change q)"

definition changed_anything :: "action_record list \<Rightarrow> bool" where
  "changed_anything records \<longleftrightarrow> (\<exists>r \<in> set records. ar_changes r \<and> ar_done r)"

definition satisfied :: "requirements \<Rightarrow> action_record list \<Rightarrow> bool" where
  "satisfied r records =
     (if rq_tools r = [] then (\<exists>rec \<in> set records. ar_changes rec \<and> ar_done rec)
      else (\<exists>name \<in> set (rq_tools r). \<exists>rec \<in> set records. ar_name rec = name \<and> ar_done rec))"

definition last_attempt :: "requirements \<Rightarrow> action_record list \<Rightarrow> action_record option" where
  "last_attempt r records =
     find (\<lambda>rec. if rq_tools r = [] then ar_changes rec else ar_name rec \<in> set (rq_tools r)) (rev records)"

definition check_mark :: "string" where
  "check_mark = [CHR 0xE2, CHR 0x9C, CHR 0x93] @ '' ''"

definition receipts :: "action_record list \<Rightarrow> string list" where
  "receipts records =
     map (\<lambda>rec. check_mark @ trim_space (ar_message rec))
       (dedupe_by ar_message []
         (filter (\<lambda>rec. ar_changes rec \<and> ar_done rec \<and> trim_space (ar_message rec) \<noteq> []) records))"

definition nl :: "string" where "nl = [CHR 0x0A]"

definition nothing_changed_message :: "requirements \<Rightarrow> action_record list \<Rightarrow> string" where
  "nothing_changed_message r records =
     (if changed_anything records then
        (if receipts records \<noteq> [] then
           ''This went through, but I couldn't confirm it was everything you asked for:'' @ nl @ join nl (receipts records)
         else ''Part of that went through, but I couldn't confirm all of it. Please check.'')
      else
        (let reason = (case last_attempt r records of
             Some att \<Rightarrow> if \<not> ar_done att \<and> ar_reason att \<noteq> [] then ar_reason att else ''I didn't carry that out''
           | None \<Rightarrow> ''I didn't carry that out'')
         in ''Nothing was changed: '' @ reason @ ''.''))"

definition quoted :: "string \<Rightarrow> string" where
  "quoted s = [CHR 0x22] @ s @ [CHR 0x22]"

definition finish_check :: "args \<Rightarrow> requirements \<Rightarrow> action_record list \<Rightarrow> bool \<times> string" where
  "finish_check a r records =
     (let outcome = get_str a ''outcome'' in
      if outcome = outcome_need_details \<or> outcome = outcome_cannot then (True, [])
      else if outcome = outcome_done then
        (if satisfied r records then (True, [])
         else
           (let clause = (if rq_tools r \<noteq> []
                  then ''none of '' @ join '', '' (rq_tools r) @ '' has succeeded this turn''
                  else ''the action you were asked to carry out has not succeeded this turn'');
                att = (case last_attempt r records of
                    Some att \<Rightarrow> if \<not> ar_done att then '' The last attempt did not go through: '' @ ar_reason att @ ''.'' else []
                  | None \<Rightarrow> '' You have not tried it.'')
            in (False, ''You finished with outcome '' @ quoted outcome_done @ '', but '' @ clause @ ''.'' @ att @
                  '' Call the action now. If you can't (for example you need a detail from the person, or their account isn't connected), finish with outcome '' @
                  quoted outcome_need_details @ '' or '' @ quoted outcome_cannot @
                  '' and say so. Do not tell the person it is done unless it is.'')))
      else (False, ''Say how this ended: set outcome to '' @ quoted outcome_done @ '', '' @
              quoted outcome_need_details @ '' or '' @ quoted outcome_cannot @ ''.''))"

definition change_failed :: "action_record list \<Rightarrow> bool" where
  "change_failed records \<longleftrightarrow>
     \<not> (\<exists>r \<in> set records. ar_changes r \<and> ar_done r) \<and> (\<exists>r \<in> set records. ar_changes r)"

section \<open>Steps\<close>

datatype step_state = StepRunning | StepWaiting | StepDone | StepFailed | StepDeclined | StepSignIn | StepStopped

definition step_ended :: "step_state \<Rightarrow> bool" where
  "step_ended s \<longleftrightarrow> s \<noteq> StepRunning \<and> s \<noteq> StepWaiting"

definition step_state_of :: "goval \<Rightarrow> goerr option \<Rightarrow> step_state" where
  "step_state_of output err =
     (case err of
        Some e \<Rightarrow> if errors_is e ErrSuperseded then StepStopped else StepFailed
      | None \<Rightarrow>
        (if as_str output = Some output_not_approved then StepDeclined
         else if (case as_str output of Some s \<Rightarrow> has_prefix s output_auth_pending_prefix | None \<Rightarrow> False) then StepSignIn
         else if \<not> really_done output None then StepFailed
         else StepDone))"

record activity_tool_use =
  tu_tool :: string
  tu_done :: int
  tu_failed :: int
  tu_declined :: int
  tu_signin :: int
  tu_stopped :: int

definition tool_use_total :: "activity_tool_use \<Rightarrow> int" where
  "tool_use_total u = tu_done u + tu_failed u + tu_declined u + tu_signin u + tu_stopped u"

section \<open>What holds of them\<close>

lemma satisfied_Nil [simp]: "\<not> satisfied r []"
  by (simp add: satisfied_def)

lemma satisfied_append: "satisfied r rs \<Longrightarrow> satisfied r (rs @ rs')"
  by (auto simp: satisfied_def split: if_splits)

lemma last_attempt_mem: "last_attempt r records = Some att \<Longrightarrow> att \<in> set records"
  by (auto simp: last_attempt_def dest!: find_Some_mem)

lemma finish_check_done: "get_str a ''outcome'' = outcome_done \<Longrightarrow> fst (finish_check a r records) = satisfied r records"
  by (simp add: finish_check_def outcome_done_def outcome_need_details_def outcome_cannot_def)

lemma finish_check_ok_cases:
  "fst (finish_check a r records) \<longleftrightarrow>
     get_str a ''outcome'' \<in> {outcome_need_details, outcome_cannot} \<or>
     (get_str a ''outcome'' = outcome_done \<and> satisfied r records)"
  by (auto simp: finish_check_def Let_def outcome_done_def outcome_need_details_def outcome_cannot_def)

lemma not_satisfied_unchanged:
  assumes "satisfied r records" and "rq_tools r = []"
  shows "changed_anything records"
  using assms by (auto simp: satisfied_def changed_anything_def)

lemma receipts_of_done: "line \<in> set (receipts records) \<Longrightarrow> \<exists>rec \<in> set records. ar_changes rec \<and> ar_done rec"
  using set_dedupe_by_subset by (fastforce simp: receipts_def)

lemma step_state_of_ended: "step_ended (step_state_of output err)"
  by (auto simp: step_state_of_def step_ended_def split: option.split)

end
