(* ===== verification/Agent_Types.thy ===== *)
theory Agent_Types
  imports Outcome
begin

text \<open>
  The data the components exchange: schemas (\<^verbatim>\<open>domain/schema.go\<close>), messages and tool
  calls (\<^verbatim>\<open>domain/message.go\<close>), what the model is told about an action and the action
  bound to what runs it (\<^verbatim>\<open>domain/action.go\<close>), and the window of a conversation a minion
  is given before a new message (\<^verbatim>\<open>domain/window.go\<close>).
\<close>

section \<open>Schemas\<close>

text \<open>\<open>TOther\<close> is any other string in a schema's type; \<open>TOther []\<close> is a type left out.\<close>

datatype schema_type = TString | TNumber | TInteger | TBoolean | TArray | TObject | TOther string

fun type_name :: "schema_type \<Rightarrow> string" where
  "type_name TString = ''string''"
| "type_name TNumber = ''number''"
| "type_name TInteger = ''integer''"
| "type_name TBoolean = ''boolean''"
| "type_name TArray = ''array''"
| "type_name TObject = ''object''"
| "type_name (TOther s) = s"

datatype schema = Schema
  (s_type: schema_type)
  (s_description: string)
  (s_properties: "(string \<times> schema) list")
  (s_items: "schema option")
  (s_required: "string list")
  (s_enum: "string list")

definition has_property :: "schema \<Rightarrow> string \<Rightarrow> bool" where
  "has_property s name \<longleftrightarrow> gm_get (s_properties s) name \<noteq> None"

section \<open>Messages\<close>

datatype role = RoleSystem | RoleUser | RoleAssistant | RoleTool

record tool_call =
  tc_id :: string
  tc_name :: string
  tc_args :: args

record message =
  m_role :: role
  m_content :: string
  m_tool_calls :: "tool_call list"
  m_tool_call_id :: string
  m_name :: string
  m_internal :: bool

definition plain_message :: "role \<Rightarrow> string \<Rightarrow> message" where
  "plain_message r c = \<lparr>m_role = r, m_content = c, m_tool_calls = [], m_tool_call_id = [], m_name = [], m_internal = False\<rparr>"

text \<open>The message that answers one tool call.\<close>

definition answer :: "tool_call \<Rightarrow> string \<Rightarrow> message" where
  "answer call c = \<lparr>m_role = RoleTool, m_content = c, m_tool_calls = [], m_tool_call_id = tc_id call,
     m_name = tc_name call, m_internal = False\<rparr>"

definition kept :: "message list \<Rightarrow> message list" where
  "kept msgs = filter (\<lambda>m. \<not> m_internal m) msgs"

section \<open>Actions\<close>

record action_spec =
  as_name :: string
  as_description :: string
  as_instructions :: string
  as_input :: schema
  as_output :: schema
  as_max_calls :: int
  as_hidden :: bool
  as_read_only :: bool
  as_changes :: bool

text \<open>
  What an action's \<^verbatim>\<open>Invoke\<close> returns, and the state \<open>'w\<close> of everything outside the agent
  that running it may read and change.
\<close>

type_synonym invoke_result = "goval \<times> goerr option"
type_synonym 'w invoke = "args \<Rightarrow> 'w \<Rightarrow> invoke_result \<times> 'w"

record 'w bound_action =
  ba_spec :: action_spec
  ba_invoke :: "'w invoke"
  ba_needs :: "string list"
  ba_app :: string
  ba_app_name :: string
  ba_with :: "string list"
  ba_declared :: bool
  ba_limited :: bool

definition finish_action_name :: "string" where
  "finish_action_name = ''finish''"

section \<open>The window of a conversation\<close>

definition is_words :: "message \<Rightarrow> bool" where
  "is_words m = (case m_role m of
      RoleUser \<Rightarrow> m_content m \<noteq> [] | RoleAssistant \<Rightarrow> m_content m \<noteq> [] | _ \<Rightarrow> False)"

text \<open>
  The index of the \<open>whole\<close>-th last message from the person: the loop goes down from \<open>n\<close>
  and remembers the last one it met; \<open>lo\<close> is where it stands before it met any.
\<close>

fun window_start :: "message list \<Rightarrow> nat \<Rightarrow> nat \<Rightarrow> nat \<Rightarrow> nat" where
  "window_start msgs whole 0 lo = lo"
| "window_start msgs whole (Suc i) lo =
     (if whole = 0 then lo
      else if m_role (msgs ! i) = RoleUser then window_start msgs (whole - 1) i i
      else window_start msgs whole i lo)"

text \<open>Words only, newest first, until there are \<open>said\<close>; the list is the part before the window, reversed.\<close>

fun earlier_words :: "message list \<Rightarrow> nat \<Rightarrow> nat \<Rightarrow> message list" where
  "earlier_words [] n said = []"
| "earlier_words (m # ms) n said =
     (if said \<le> n then []
      else if \<not> is_words m then earlier_words ms n said
      else plain_message (m_role m) (m_content m) # earlier_words ms (Suc n) said)"

definition recent_window :: "message list \<Rightarrow> nat \<Rightarrow> nat \<Rightarrow> message list" where
  "recent_window msgs whole said =
     (let start = window_start msgs whole (length msgs) (length msgs);
          latest = filter (\<lambda>m. m_role m \<noteq> RoleSystem) (drop start msgs);
          n = length (filter is_words latest)
      in rev (earlier_words (rev (take start msgs)) n said) @ latest)"

section \<open>What holds of the window\<close>

lemma window_start_le: "i \<le> lo \<Longrightarrow> window_start msgs whole i lo \<le> lo"
proof (induction msgs whole i lo rule: window_start.induct)
  case (1 msgs whole lo)
  then show ?case by simp
next
  case (2 msgs whole i lo)
  then show ?case
    by (cases "whole = 0"; cases "m_role (msgs ! i) = RoleUser") (auto intro: order_trans)
qed

lemma window_start_user:
  "window_start msgs whole i lo \<noteq> lo \<Longrightarrow>
     window_start msgs whole i lo < i \<and> m_role (msgs ! window_start msgs whole i lo) = RoleUser"
proof (induction msgs whole i lo rule: window_start.induct)
  case (1 msgs whole lo)
  then show ?case by simp
next
  case (2 msgs whole i lo)
  show ?case
  proof (cases "whole = 0")
    case True
    with "2.prems" show ?thesis by simp
  next
    case w: False
    show ?thesis
    proof (cases "m_role (msgs ! i) = RoleUser")
      case True
      then show ?thesis using w "2.IH"(1)
        by (cases "window_start msgs (whole - 1) i i = i") auto
    next
      case False
      then show ?thesis using w "2.IH"(2) "2.prems" by auto
    qed
  qed
qed

lemma earlier_words_words: "m \<in> set (earlier_words ms n said) \<Longrightarrow> is_words m \<and> m_tool_calls m = [] \<and> m_role m \<noteq> RoleSystem \<and> m_role m \<noteq> RoleTool"
  by (induction ms n said rule: earlier_words.induct)
    (auto simp: is_words_def plain_message_def split: if_splits role.splits)

lemma earlier_words_length: "n + length (earlier_words ms n said) \<le> max n said"
  by (induction ms n said rule: earlier_words.induct) auto

end
