(* ===== verification/LLM_Providers.thy ===== *)
theory LLM_Providers
  imports Agent_Types
begin

text \<open>
  The model providers of a loop (\<^verbatim>\<open>domain/llm.go\<close>, \<^verbatim>\<open>domain/llm_errors.go\<close> and the
  \<^verbatim>\<open>callLLM\<close> half of \<^verbatim>\<open>domain/loop.go\<close>): providers in priority order, retries with a
  growing pause, and a circuit breaker that rests a failing provider for a while. A provider
  is code outside the repository: any function of the messages and actions it is given and of
  the state of the world.
\<close>

record llm_response =
  lr_content :: string
  lr_tool_calls :: "tool_call list"
  lr_reasoning :: string

type_synonym 'w llm = "message list \<Rightarrow> action_spec list \<Rightarrow> 'w \<Rightarrow> (goerr + llm_response) \<times> 'w"

text \<open>
  The clock in nanoseconds, and waiting: true when the context ended first
  (\<^verbatim>\<open>ctx.Done()\<close>), with the error \<^verbatim>\<open>ctx.Err()\<close> then gives.
\<close>

record 'w llm_env =
  le_llms :: "'w llm list"
  le_now :: "'w \<Rightarrow> int"
  le_wait :: "int \<Rightarrow> 'w \<Rightarrow> bool \<times> 'w"
  le_ctx_err :: "'w \<Rightarrow> goerr"

definition second_ns :: "int" where "second_ns = 1000000000"
definition llm_max_retries :: nat where "llm_max_retries = 3"
definition llm_base_backoff :: "int" where "llm_base_backoff = second_ns"
definition llm_cooldown :: "int" where "llm_cooldown = 60 * second_ns"

text \<open>
  What the loop keeps of its providers: until when each is down, and, for the theorems, the
  providers asked so far, in order.
\<close>

record breaker =
  br_down :: "nat \<rightharpoonup> int"
  br_asked :: "nat list"

text \<open>A new loop has seen no provider fail.\<close>

definition fresh_breaker :: breaker where
  "fresh_breaker = \<lparr>br_down = Map.empty, br_asked = []\<rparr>"

definition llm_down :: "goerr \<Rightarrow> bool" where
  "llm_down e \<longleftrightarrow> errors_is e ErrLLMOutOfCredit \<or> errors_is e ErrLLMUnavailable"

definition is_down :: "'w llm_env \<Rightarrow> breaker \<Rightarrow> nat \<Rightarrow> 'w \<Rightarrow> bool" where
  "is_down env b i w = (case br_down b i of None \<Rightarrow> False | Some t \<Rightarrow> le_now env w < t)"

definition mark_down :: "'w llm_env \<Rightarrow> nat \<Rightarrow> 'w \<Rightarrow> breaker \<Rightarrow> breaker" where
  "mark_down env i w b = b\<lparr>br_down := (br_down b)(i \<mapsto> le_now env w + llm_cooldown)\<rparr>"

definition mark_up :: "nat \<Rightarrow> breaker \<Rightarrow> breaker" where
  "mark_up i b = b\<lparr>br_down := (br_down b)(i := None)\<rparr>"

definition note_asked :: "nat \<Rightarrow> breaker \<Rightarrow> breaker" where
  "note_asked i b = b\<lparr>br_asked := br_asked b @ [i]\<rparr>"

text \<open>\<open>left\<close> is how many attempts remain; no attempt left is never reached from \<open>call_llm\<close>.\<close>

fun call_with_retry ::
  "'w llm_env \<Rightarrow> message list \<Rightarrow> action_spec list \<Rightarrow> nat \<Rightarrow> 'w llm \<Rightarrow> nat \<Rightarrow> int \<Rightarrow> breaker \<Rightarrow> 'w
     \<Rightarrow> (goerr + llm_response) \<times> breaker \<times> 'w" where
  "call_with_retry env msgs specs i p 0 backoff b w = (Inl (errorf []), b, w)"
| "call_with_retry env msgs specs i p (Suc left) backoff b w =
     (let b1 = note_asked i b in
      case p msgs specs w of
        (Inr r, w1) \<Rightarrow> (Inr r, b1, w1)
      | (Inl e, w1) \<Rightarrow>
         (if errors_is e ErrLLMOutOfCredit \<or> left = 0 then (Inl e, b1, w1)
          else (case le_wait env backoff w1 of
              (True, w2) \<Rightarrow> (Inl (le_ctx_err env w2), b1, w2)
            | (False, w2) \<Rightarrow> call_with_retry env msgs specs i p left (2 * backoff) b1 w2)))"

fun call_providers ::
  "'w llm_env \<Rightarrow> message list \<Rightarrow> action_spec list \<Rightarrow> nat \<Rightarrow> 'w llm list \<Rightarrow> goerr \<Rightarrow> breaker \<Rightarrow> 'w
     \<Rightarrow> (goerr + llm_response) \<times> breaker \<times> 'w" where
  "call_providers env msgs specs i [] last_err b w =
     (Inl (wrapf ''all llm providers failed: '' last_err), b, w)"
| "call_providers env msgs specs i (p # ps) last_err b w =
     (if ps \<noteq> [] \<and> is_down env b i w then call_providers env msgs specs (Suc i) ps last_err b w
      else (case call_with_retry env msgs specs i p llm_max_retries llm_base_backoff b w of
          (Inr r, b1, w1) \<Rightarrow> (Inr r, mark_up i b1, w1)
        | (Inl e, b1, w1) \<Rightarrow>
            call_providers env msgs specs (Suc i) ps e (if ps \<noteq> [] then mark_down env i w1 b1 else b1) w1))"

definition call_llm ::
  "'w llm_env \<Rightarrow> message list \<Rightarrow> action_spec list \<Rightarrow> breaker \<Rightarrow> 'w \<Rightarrow> (goerr + llm_response) \<times> breaker \<times> 'w" where
  "call_llm env msgs specs b w =
     (if le_llms env = [] then (Inl (errorf ''no LLM configured''), b, w)
      else call_providers env msgs specs 0 (le_llms env) (errorf []) b w)"

section \<open>What holds of the providers\<close>

text \<open>One provider is asked at most as often as there are attempts, and only it.\<close>

lemma call_with_retry_asked:
  "call_with_retry env msgs specs i p left backoff b w = (r, b', w') \<Longrightarrow>
     \<exists>k \<le> left. br_asked b' = br_asked b @ replicate k i \<and> br_down b' = br_down b"
proof (induction left arbitrary: backoff b w r b' w')
  case 0
  then show ?case by (intro exI [of _ 0]) simp
next
  case (Suc left)
  obtain res w1 where p: "p msgs specs w = (res, w1)" by fastforce
  have one: "\<exists>k \<le> Suc left. br_asked (note_asked i b) = br_asked b @ replicate k i \<and> br_down (note_asked i b) = br_down b"
    by (intro exI [of _ 1]) (simp add: note_asked_def)
  show ?case
  proof (cases res)
    case (Inr x)
    with p Suc.prems one show ?thesis by (simp add: Let_def)
  next
    case (Inl e)
    obtain ended w2 where wait: "le_wait env backoff w1 = (ended, w2)" by fastforce
    show ?thesis
    proof (cases "errors_is e ErrLLMOutOfCredit \<or> left = 0 \<or> ended")
      case True
      with p Inl wait Suc.prems one show ?thesis
        by (auto simp: Let_def split: if_splits)
    next
      case False
      with p Inl wait Suc.prems
      have "call_with_retry env msgs specs i p left (2 * backoff) (note_asked i b) w2 = (r, b', w')"
        by (simp add: Let_def)
      from Suc.IH [OF this] obtain k where
        "k \<le> left" "br_asked b' = br_asked b @ [i] @ replicate k i" "br_down b' = br_down b"
        by (auto simp: note_asked_def)
      then show ?thesis by (intro exI [of _ "Suc k"]) simp
    qed
  qed
qed

lemma call_with_retry_first:
  "left > 0 \<Longrightarrow> call_with_retry env msgs specs i p left backoff b w = (r, b', w') \<Longrightarrow>
     \<exists>k. br_asked b' = br_asked b @ i # replicate k i"
proof (cases left)
  case (Suc l)
  assume c: "call_with_retry env msgs specs i p left backoff b w = (r, b', w')"
  show ?thesis
  proof -
    obtain res w1 where p: "p msgs specs w = (res, w1)" by fastforce
    have "br_asked b' = br_asked (note_asked i b) \<or>
        (\<exists>bo w2. call_with_retry env msgs specs i p l bo (note_asked i b) w2 = (r, b', w'))"
      using c p Suc by (auto simp: Let_def split: sum.splits if_splits prod.splits bool.splits)
    then show ?thesis
    proof
      assume "br_asked b' = br_asked (note_asked i b)"
      then show ?thesis by (intro exI [of _ 0]) (simp add: note_asked_def)
    next
      assume "\<exists>bo w2. call_with_retry env msgs specs i p l bo (note_asked i b) w2 = (r, b', w')"
      then obtain k where "br_asked b' = br_asked (note_asked i b) @ replicate k i"
        by (blast dest: call_with_retry_asked)
      then show ?thesis by (intro exI [of _ k]) (simp add: note_asked_def)
    qed
  qed
qed simp

text \<open>What every provider and every wait keep of the world, asking the model keeps.\<close>

lemma call_with_retry_keeps:
  assumes "\<And>msgs specs w. Q w \<Longrightarrow> Q (snd (p msgs specs w))" "\<And>d w. Q w \<Longrightarrow> Q (snd (le_wait env d w))"
  shows "Q w \<Longrightarrow> call_with_retry env msgs specs i p left backoff b w = (r, b', w') \<Longrightarrow> Q w'"
proof (induction left arbitrary: backoff b w)
  case 0
  then show ?case by simp
next
  case (Suc left)
  obtain res w1 where p: "p msgs specs w = (res, w1)" by fastforce
  have w1: "Q w1" using assms(1) [OF Suc.prems(1), of msgs specs] p by simp
  obtain ended w2 where wait: "le_wait env backoff w1 = (ended, w2)" by fastforce
  have "Q w2" using assms(2) [OF w1, of backoff] wait by simp
  then show ?case using Suc.prems(2) Suc.IH p w1 wait
    by (auto simp: Let_def split: sum.splits if_splits bool.splits)
qed

lemma call_providers_keeps:
  assumes "\<And>p msgs specs w. p \<in> set ps \<Longrightarrow> Q w \<Longrightarrow> Q (snd (p msgs specs w))" "\<And>d w. Q w \<Longrightarrow> Q (snd (le_wait env d w))"
  shows "Q w \<Longrightarrow> call_providers env msgs specs i ps e b w = (r, b', w') \<Longrightarrow> Q w'"
  using assms(1)
proof (induction ps arbitrary: i e b w)
  case Nil
  then show ?case by simp
next
  case (Cons p ps)
  show ?case
  proof (cases "ps \<noteq> [] \<and> is_down env b i w")
    case True
    then show ?thesis using Cons.prems Cons.IH by simp
  next
    case False
    obtain res b1 w1 where c: "call_with_retry env msgs specs i p llm_max_retries llm_base_backoff b w = (res, b1, w1)"
      by (metis surj_pair)
    have "Q w1" using Cons.prems(1,3) assms(2) call_with_retry_keeps [of Q p env, OF _ _ _ c] by simp
    then show ?thesis using Cons.prems(2,3) Cons.IH False c by (cases res) auto
  qed
qed

lemma call_llm_keeps:
  assumes "\<And>p msgs specs w. p \<in> set (le_llms env) \<Longrightarrow> Q w \<Longrightarrow> Q (snd (p msgs specs w))"
    and "\<And>d w. Q w \<Longrightarrow> Q (snd (le_wait env d w))"
    and "Q w" and "call_llm env msgs specs b w = (r, b', w')"
  shows "Q w'"
proof (cases "le_llms env = []")
  case True
  then show ?thesis using assms(3,4) by (simp add: call_llm_def)
next
  case False
  then have "call_providers env msgs specs 0 (le_llms env) (errorf []) b w = (r, b', w')" using assms(4) by (simp add: call_llm_def)
  then show ?thesis
    by (rule call_providers_keeps [where Q = Q and ps = "le_llms env" and env = env, rotated 3])
      (use assms(1,2,3) in blast)+
qed

end
