(* ===== verification/Agent_Loop.thy ===== *)
theory Agent_Loop
  imports LLM_Providers
begin

text \<open>
  \<^verbatim>\<open>NativeLoop.Run\<close> of \<^verbatim>\<open>domain/loop.go\<close>, step by step: one model call, the tool
  calls it asks for, the guards in front of each (finish, unknown action, repeated look-up,
  too many uses, \<^verbatim>\<open>MaxCalls\<close>, repeated change), the action itself and what is recorded of
  it, and the wrap-up of a reply that cannot usefully go on. The Go closures over local
  variables become fields of \<open>loop_state\<close>.
\<close>

section \<open>Limits\<close>

definition max_consecutive_failures :: nat where "max_consecutive_failures = 3"
definition max_same_action_calls :: nat where "max_same_action_calls = 15"
definition max_tool_calls_per_iter :: nat where "max_tool_calls_per_iter = 10"
definition max_stale_steps :: nat where "max_stale_steps = 2"

section \<open>Results, configuration, state\<close>

datatype loop_status = LoopComplete | LoopMaxIteration | LoopError

record loop_result =
  res_status :: loop_status
  res_content :: string
  res_output :: "args option"
  res_actions :: "action_record list"

record 'w loop_cfg =
  lc_env :: "'w llm_env"
  lc_max_iterations :: int
  lc_actions :: "'w bound_action list"
  lc_requirements :: "requirements option"

text \<open>\<^verbatim>\<open>NewNativeLoop\<close> takes a negative bound for none.\<close>

definition new_max_iterations :: "int \<Rightarrow> int" where
  "new_max_iterations n = (if n < 0 then 0 else n)"

text \<open>What the run's observer is told (\<^verbatim>\<open>noteStepInput\<close>, \<^verbatim>\<open>noteStep\<close>).\<close>

datatype step_note = NoteInput string args | NoteState string step_state

text \<open>
  The state of a run. \<open>ls_sent\<close> (every transcript given to the model, in order) and
  \<open>ls_ran\<close> (every action invoked: its name, its inputs, and whether it really did its job)
  are kept for the theorems; no step reads them.
\<close>

record 'w loop_state =
  ls_world :: 'w
  ls_breaker :: breaker
  ls_messages :: "message list"
  ls_counts :: "string \<Rightarrow> nat"
  ls_failures :: nat
  ls_records :: "action_record list"
  ls_done_changes :: "string \<rightharpoonup> string"
  ls_looked_up :: "string \<rightharpoonup> string"
  ls_stale :: nat
  ls_bounces :: nat
  ls_progressed :: bool
  ls_notes :: "step_note list"
  ls_sent :: "message list list"
  ls_ran :: "(string \<times> args \<times> bool) list"

definition init_state :: "'w \<Rightarrow> breaker \<Rightarrow> message list \<Rightarrow> 'w loop_state" where
  "init_state w b msgs = \<lparr>ls_world = w, ls_breaker = b, ls_messages = msgs, ls_counts = (\<lambda>_. 0),
     ls_failures = 0, ls_records = [], ls_done_changes = Map.empty, ls_looked_up = Map.empty,
     ls_stale = 0, ls_bounces = 0, ls_progressed = False, ls_notes = [], ls_sent = [], ls_ran = []\<rparr>"

text \<open>\<^verbatim>\<open>actionsByName\<close>: of two actions with one name the later one.\<close>

definition find_action :: "'w loop_cfg \<Rightarrow> string \<Rightarrow> 'w bound_action option" where
  "find_action cfg name = map_of (rev (map (\<lambda>a. (as_name (ba_spec a), a)) (lc_actions cfg))) name"

definition specs_of :: "'w loop_cfg \<Rightarrow> action_spec list" where
  "specs_of cfg = map ba_spec (lc_actions cfg)"

text \<open>Only a loop whose finish asks for an outcome is held to the requirements.\<close>

definition effective_reqs :: "'w loop_cfg \<Rightarrow> requirements option" where
  "effective_reqs cfg =
     (case find_action cfg finish_action_name of
        None \<Rightarrow> None
      | Some fin \<Rightarrow>
         (if rq_active (lc_requirements cfg) \<and> has_property (as_input (ba_spec fin)) ''outcome''
          then lc_requirements cfg else None))"

section \<open>Messages the loop writes\<close>

definition say :: "message list \<Rightarrow> 'w loop_state \<Rightarrow> 'w loop_state" where
  "say ms s = s\<lparr>ls_messages := ls_messages s @ ms\<rparr>"

definition count_failure :: "'w loop_state \<Rightarrow> 'w loop_state" where
  "count_failure s = s\<lparr>ls_failures := Suc (ls_failures s)\<rparr>"

definition too_many_failures :: "'w loop_state \<Rightarrow> bool" where
  "too_many_failures s \<longleftrightarrow> max_consecutive_failures \<le> ls_failures s"

definition nudge_text :: "string" where
  "nudge_text = ''You must respond by calling one of the available actions. Call '' @ quoted finish_action_name @
     '' to deliver your response to the user.''"

definition too_many_calls_text :: "nat \<Rightarrow> string" where
  "too_many_calls_text n = ''You requested '' @ itoa (int n) @ '' tool calls at once. Make at most '' @
     itoa (int max_tool_calls_per_iter) @ '' tool calls per response.''"

definition over_used :: "string \<Rightarrow> string" where
  "over_used name = ''not run: '' @ name @ '' has been used '' @ itoa (int max_same_action_calls) @
     '' times in this reply, as many as one reply may use. Answer now with what you already have, and say plainly what you did not get to (the person can ask for the rest).''"

definition wrap_up_note :: "string" where
  "wrap_up_note = ''Stop using abilities now. Answer the person with what you found so far, and say plainly what you couldn't finish (they can ask again). Don't say anything was done unless it really went through. Call finish.''"

definition assistant_message :: "string \<Rightarrow> tool_call list \<Rightarrow> bool \<Rightarrow> message" where
  "assistant_message c calls internal = \<lparr>m_role = RoleAssistant, m_content = c, m_tool_calls = calls,
     m_tool_call_id = [], m_name = [], m_internal = internal\<rparr>"

definition internal_user :: "string \<Rightarrow> message" where
  "internal_user c = (plain_message RoleUser c)\<lparr>m_internal := True\<rparr>"

definition answer_rest :: "string \<Rightarrow> tool_call list \<Rightarrow> message list" where
  "answer_rest c rest = map (\<lambda>call. answer call c) rest"

definition has_calls :: "message \<Rightarrow> bool" where
  "has_calls m \<longleftrightarrow> m_role m = RoleAssistant \<and> m_tool_calls m \<noteq> []"

text \<open>
  \<^verbatim>\<open>answerOpenCalls\<close>: the calls of the last assistant message that nothing after it answers
  get an answer.
\<close>

definition answer_open_calls :: "message list \<Rightarrow> message list" where
  "answer_open_calls msgs =
     (let after = takeWhile (\<lambda>m. \<not> has_calls m) (rev msgs) in
      case dropWhile (\<lambda>m. \<not> has_calls m) (rev msgs) of
        [] \<Rightarrow> msgs
      | m # _ \<Rightarrow>
         (let answered = map m_tool_call_id (filter (\<lambda>x. m_role x = RoleTool) after) in
          msgs @ map (\<lambda>call. answer call ''not run: the reply is wrapping up'')
                   (filter (\<lambda>call. tc_id call \<notin> set answered) (m_tool_calls m))))"

section \<open>Asking the model\<close>

definition ask_model ::
  "'w loop_cfg \<Rightarrow> message list \<Rightarrow> action_spec list \<Rightarrow> 'w loop_state \<Rightarrow> (goerr + llm_response) \<times> 'w loop_state" where
  "ask_model cfg msgs specs s =
     (case call_llm (lc_env cfg) msgs specs (ls_breaker s) (ls_world s) of
        (r, b, w) \<Rightarrow> (r, s\<lparr>ls_breaker := b, ls_world := w, ls_sent := ls_sent s @ [msgs]\<rparr>))"

text \<open>How a run ends: a result, or the error \<^verbatim>\<open>Run\<close> returns; with the messages in the state.\<close>

type_synonym 'w loop_end = "(goerr + loop_result) \<times> 'w loop_state"

definition give_up :: "string \<Rightarrow> 'w loop_state \<Rightarrow> 'w loop_end" where
  "give_up reason s =
     (Inr \<lparr>res_status = LoopError, res_content = reason, res_output = None, res_actions = ls_records s\<rparr>, s)"

definition wrap_up :: "'w loop_cfg \<Rightarrow> string \<Rightarrow> 'w loop_state \<Rightarrow> 'w loop_end" where
  "wrap_up cfg reason s =
     (case find_action cfg finish_action_name of
        None \<Rightarrow> give_up reason s
      | Some fin \<Rightarrow>
         (let msgs = answer_open_calls (ls_messages s) @ [internal_user wrap_up_note] in
          case ask_model cfg msgs [ba_spec fin] s of
            (Inl e, s1) \<Rightarrow> give_up reason s1
          | (Inr resp, s1) \<Rightarrow>
             (case lr_tool_calls resp of
                [] \<Rightarrow> give_up reason s1
              | call # _ \<Rightarrow>
                 (if tc_name call \<noteq> finish_action_name then give_up reason s1
                  else
                    (let content = get_str (tc_args call) ''content'' in
                     if trim_space content = [] then give_up reason s1
                     else
                       (let c = (case effective_reqs cfg of
                              Some q \<Rightarrow> if fst (finish_check (tc_args call) q (ls_records s1)) then content
                                        else nothing_changed_message q (ls_records s1)
                            | None \<Rightarrow> content)
                        in (Inr \<lparr>res_status = LoopComplete, res_content = c, res_output = Some (tc_args call),
                                 res_actions = ls_records s1\<rparr>,
                            s1\<lparr>ls_messages := msgs @ [assistant_message (lr_content resp) [call] False, answer call ''done'']\<rparr>)))))))"

section \<open>One tool call\<close>

text \<open>What a call does to the walk over the response's calls.\<close>

datatype 'w call_flow =
    NextCall "'w loop_state"
  | BreakCalls "'w loop_state"
  | WrapUpWith string "'w loop_state"
  | ReturnRun loop_result "'w loop_state"

definition fail_or :: "string \<Rightarrow> ('w loop_state \<Rightarrow> 'w call_flow) \<Rightarrow> 'w loop_state \<Rightarrow> 'w call_flow" where
  "fail_or reason k s =
     (let s1 = count_failure s in if too_many_failures s1 then WrapUpWith reason s1 else k s1)"

definition blank_line :: "string" where
  "blank_line = nl @ nl"

definition do_finish :: "'w loop_cfg \<Rightarrow> tool_call \<Rightarrow> tool_call list \<Rightarrow> 'w loop_state \<Rightarrow> 'w call_flow" where
  "do_finish cfg call rest s =
     (let content = get_str (tc_args call) ''content'';
          result = (\<lambda>c. \<lparr>res_status = LoopComplete, res_content = c, res_output = Some (tc_args call),
                         res_actions = ls_records s\<rparr>);
          sdone = say [answer call ''done''] s
      in case effective_reqs cfg of
           None \<Rightarrow> ReturnRun (result content) sdone
         | Some q \<Rightarrow>
            (case finish_check (tc_args call) q (ls_records s) of
               (True, _) \<Rightarrow>
                 ReturnRun (result (if get_str (tc_args call) ''outcome'' = outcome_done
                     then content @ concat (map (\<lambda>line. blank_line @ line) (receipts (ls_records s)))
                     else content)) sdone
             | (False, feedback) \<Rightarrow>
                 (let s1 = s\<lparr>ls_bounces := Suc (ls_bounces s)\<rparr> in
                  if max_finish_bounces < ls_bounces s1
                  then ReturnRun (result (nothing_changed_message q (ls_records s)))
                         (say [answer call ''done''] s1)
                  else BreakCalls (say (answer call feedback #
                         answer_rest ''not run: finish was refused first'' rest) s1))))"

definition key_of :: "tool_call \<Rightarrow> string option" where
  "key_of call = map_option (\<lambda>js. tc_name call @ ''|'' @ js) (marshal_args (tc_args call))"

definition lookup_key :: "action_spec \<Rightarrow> tool_call \<Rightarrow> string option" where
  "lookup_key spec call = (if as_read_only spec then key_of call else None)"

definition change_key :: "action_spec \<Rightarrow> tool_call \<Rightarrow> string option" where
  "change_key spec call = (if as_changes spec then key_of call else None)"

text \<open>A key that is already in a table, with what the table holds.\<close>

definition repeated :: "(string \<rightharpoonup> string) \<Rightarrow> string option \<Rightarrow> string option" where
  "repeated tab key = (case key of None \<Rightarrow> None | Some k \<Rightarrow> tab k)"

definition remember :: "string option \<Rightarrow> bool \<Rightarrow> string \<Rightarrow> (string \<rightharpoonup> string) \<Rightarrow> (string \<rightharpoonup> string)" where
  "remember key ok v tab = (case key of Some k \<Rightarrow> if ok then tab(k \<mapsto> v) else tab | None \<Rightarrow> tab)"

definition count_call :: "string \<Rightarrow> 'w loop_state \<Rightarrow> 'w loop_state" where
  "count_call name s = s\<lparr>ls_counts := (ls_counts s)(name := Suc (ls_counts s name))\<rparr>"

text \<open>The action runs: the observer is told, the result is judged and recorded.\<close>

definition invoke_action :: "'w bound_action \<Rightarrow> tool_call \<Rightarrow> 'w loop_state \<Rightarrow> invoke_result \<times> 'w loop_state" where
  "invoke_action action call s =
     (case ba_invoke action (tc_args call) (ls_world s) of
        ((out, err), w) \<Rightarrow>
          (let (ok, msg, why) = outcome_of out err in
           ((out, err),
            s\<lparr>ls_world := w,
              ls_progressed := True,
              ls_notes := ls_notes s @ [NoteInput (tc_name call) (tc_args call), NoteState (tc_name call) StepRunning,
                                        NoteState (tc_name call) (step_state_of out err)],
              ls_records := ls_records s @ [\<lparr>ar_name = tc_name call, ar_changes = as_changes (ba_spec action),
                                             ar_done = ok, ar_message = msg, ar_reason = why\<rparr>],
              ls_ran := ls_ran s @ [(tc_name call, tc_args call, ok)]\<rparr>)))"

definition after_invoke :: "'w bound_action \<Rightarrow> tool_call \<Rightarrow> tool_call list \<Rightarrow> goval \<Rightarrow> goerr option \<Rightarrow> 'w loop_state \<Rightarrow> 'w call_flow" where
  "after_invoke action call rest out err s =
     (case err of
        Some e \<Rightarrow>
          (if errors_is e ErrSuperseded \<and> \<not> changed_anything (ls_records s) then
             ReturnRun \<lparr>res_status = LoopComplete, res_content = [], res_output = None, res_actions = ls_records s\<rparr>
               (say (answer call ''not answered: the person wrote a new message instead'' #
                     answer_rest ''not run: the person wrote a new message first'' rest) s)
           else fail_or ''too many failed action calls'' NextCall (say [answer call (''error: '' @ err_text e)] s))
      | None \<Rightarrow>
          (let ok = really_done out None in
           NextCall (say [answer call (stringify_result out)]
             (s\<lparr>ls_failures := 0,
               ls_done_changes := remember (change_key (ba_spec action) call) ok
                 (truncate_runes (stringify_result out) 300) (ls_done_changes s),
               ls_looked_up := remember (lookup_key (ba_spec action) call) ok
                 (stringify_result out) (ls_looked_up s)\<rparr>))))"

definition run_action :: "'w bound_action \<Rightarrow> tool_call \<Rightarrow> tool_call list \<Rightarrow> 'w loop_state \<Rightarrow> 'w call_flow" where
  "run_action action call rest s =
     (case invoke_action action call s of ((out, err), s1) \<Rightarrow> after_invoke action call rest out err s1)"

definition max_calls_text :: "action_spec \<Rightarrow> string" where
  "max_calls_text spec = ''already called '' @ itoa (as_max_calls spec) @
     '' time(s) this turn '' @ em_dash @ '' the result is already in context, do not call again''"

definition over_max_calls :: "action_spec \<Rightarrow> nat \<Rightarrow> bool" where
  "over_max_calls spec n \<longleftrightarrow> \<not> as_read_only spec \<and> 0 < as_max_calls spec \<and> as_max_calls spec < int n"

definition do_known :: "'w bound_action \<Rightarrow> tool_call \<Rightarrow> tool_call list \<Rightarrow> 'w loop_state \<Rightarrow> 'w call_flow" where
  "do_known action call rest s =
     (case repeated (ls_looked_up s) (lookup_key (ba_spec action) call) of
        Some prev \<Rightarrow>
          NextCall (say [answer call (''Already looked up in this reply, with the same inputs; the same as before:'' @ nl @ prev)] s)
      | None \<Rightarrow>
          (let s1 = count_call (tc_name call) s; n = ls_counts s1 (tc_name call) in
           if max_same_action_calls < n then
             fail_or (''action '' @ go_quote (tc_name call) @ '' called too many times'') BreakCalls
               (say (answer call (over_used (tc_name call)) #
                     answer_rest (''not run: '' @ over_used (tc_name call)) rest) s1)
           else if over_max_calls (ba_spec action) n then
             fail_or ''too many failed action calls'' NextCall (say [answer call (max_calls_text (ba_spec action))] s1)
           else (case repeated (ls_done_changes s1) (change_key (ba_spec action) call) of
               Some prev \<Rightarrow>
                 NextCall (say [answer call (''already done this turn, so it was not repeated. Result: '' @ prev)] s1)
             | None \<Rightarrow> run_action action call rest s1)))"

definition do_call :: "'w loop_cfg \<Rightarrow> tool_call \<Rightarrow> tool_call list \<Rightarrow> 'w loop_state \<Rightarrow> 'w call_flow" where
  "do_call cfg call rest s =
     (if tc_name call = finish_action_name then do_finish cfg call rest s
      else (case find_action cfg (tc_name call) of
          None \<Rightarrow> fail_or ''too many failed action calls'' NextCall
                    (say [answer call (''unknown action '' @ go_quote (tc_name call))] s)
        | Some action \<Rightarrow> do_known action call rest s))"

fun do_calls :: "'w loop_cfg \<Rightarrow> tool_call list \<Rightarrow> 'w loop_state \<Rightarrow> 'w call_flow" where
  "do_calls cfg [] s = BreakCalls s"
| "do_calls cfg (call # rest) s =
     (case do_call cfg call rest s of NextCall s1 \<Rightarrow> do_calls cfg rest s1 | flow \<Rightarrow> flow)"

section \<open>One iteration, and the loop\<close>

datatype 'w iter_flow = Continue "'w loop_state" | Stop "'w loop_end"

definition settle_stale :: "'w loop_state \<Rightarrow> 'w loop_state" where
  "settle_stale s = s\<lparr>ls_stale := (if ls_progressed s then 0 else Suc (ls_stale s))\<rparr>"

definition fail_iter :: "'w loop_cfg \<Rightarrow> string \<Rightarrow> 'w loop_state \<Rightarrow> 'w iter_flow" where
  "fail_iter cfg reason s =
     (let s1 = count_failure s in if too_many_failures s1 then Stop (wrap_up cfg reason s1) else Continue s1)"

definition handle_response :: "'w loop_cfg \<Rightarrow> llm_response \<Rightarrow> 'w loop_state \<Rightarrow> 'w iter_flow" where
  "handle_response cfg resp s =
     (let calls = lr_tool_calls resp in
      if calls = [] then
        fail_iter cfg ''too many responses with no action call''
          (say [assistant_message (lr_content resp) [] True, internal_user nudge_text] s)
      else if max_tool_calls_per_iter < length calls then
        fail_iter cfg ''too many tool calls per response''
          (say [assistant_message (lr_content resp) [] True, internal_user (too_many_calls_text (length calls))] s)
      else
        (case do_calls cfg calls (say [assistant_message (lr_content resp) calls False] s) of
           ReturnRun r s1 \<Rightarrow> Stop (Inr r, s1)
         | WrapUpWith reason s1 \<Rightarrow> Stop (wrap_up cfg reason s1)
         | NextCall s1 \<Rightarrow> Continue (settle_stale s1)
         | BreakCalls s1 \<Rightarrow> Continue (settle_stale s1)))"

definition loop_iter :: "'w loop_cfg \<Rightarrow> 'w loop_state \<Rightarrow> 'w iter_flow" where
  "loop_iter cfg s =
     (if max_stale_steps \<le> ls_stale s
      then Stop (wrap_up cfg ''no progress: it only repeated what it had already done'' s)
      else (case ask_model cfg (ls_messages s) (specs_of cfg) (s\<lparr>ls_progressed := False\<rparr>) of
          (Inl e, s1) \<Rightarrow> Stop (Inl (wrapf ''native loop: call llm: '' e), s1)
        | (Inr resp, s1) \<Rightarrow> handle_response cfg resp s1))"

definition out_of_steps :: "'w loop_cfg \<Rightarrow> 'w loop_state \<Rightarrow> 'w loop_end" where
  "out_of_steps cfg s =
     (if find_action cfg finish_action_name \<noteq> None then wrap_up cfg ''used all its steps'' s
      else (Inr \<lparr>res_status = LoopMaxIteration, res_content = [], res_output = None, res_actions = []\<rparr>, s))"

end
