(* ===== verification/Loop_Run.thy ===== *)
theory Loop_Run
  imports Agent_Loop
begin

text \<open>
  The whole run of \<^verbatim>\<open>NativeLoop.Run\<close>. The loop has a bound on its iterations, or none
  (\<^verbatim>\<open>MaxIterations\<close> 0); it ends in both cases. What makes it end without a bound is
  the interplay of three guards: an action runs at most \<open>max_same_action_calls\<close> times, an
  iteration in which nothing new ran counts as stale or as a failure, and a run of
  \<open>max_stale_steps\<close> stale or \<open>max_consecutive_failures\<close> failed iterations stops the loop.
\<close>

section \<open>What the steps change\<close>

fun flow_state :: "'w call_flow \<Rightarrow> 'w loop_state" where
  "flow_state (NextCall s) = s"
| "flow_state (BreakCalls s) = s"
| "flow_state (WrapUpWith reason s) = s"
| "flow_state (ReturnRun r s) = s"

fun goes_on :: "'w call_flow \<Rightarrow> bool" where
  "goes_on (NextCall s) = True"
| "goes_on (BreakCalls s) = True"
| "goes_on _ = False"

lemma flow_state_fail_or: "flow_state (k (count_failure s)) = count_failure s \<Longrightarrow> flow_state (fail_or reason k s) = count_failure s"
  by (simp add: fail_or_def Let_def)

lemma goes_on_fail_or: "goes_on (fail_or reason k s) \<Longrightarrow> \<not> too_many_failures (count_failure s)"
  by (auto simp: fail_or_def Let_def split: if_splits)

lemma ls_simps [simp]:
  "ls_counts (say ms s) = ls_counts s" "ls_failures (say ms s) = ls_failures s"
  "ls_records (say ms s) = ls_records s" "ls_done_changes (say ms s) = ls_done_changes s"
  "ls_looked_up (say ms s) = ls_looked_up s" "ls_stale (say ms s) = ls_stale s"
  "ls_progressed (say ms s) = ls_progressed s" "ls_ran (say ms s) = ls_ran s"
  "ls_sent (say ms s) = ls_sent s" "ls_messages (say ms s) = ls_messages s @ ms"
  "ls_bounces (say ms s) = ls_bounces s" "ls_notes (say ms s) = ls_notes s"
  "ls_counts (count_failure s) = ls_counts s" "ls_failures (count_failure s) = Suc (ls_failures s)"
  "ls_records (count_failure s) = ls_records s" "ls_done_changes (count_failure s) = ls_done_changes s"
  "ls_looked_up (count_failure s) = ls_looked_up s" "ls_stale (count_failure s) = ls_stale s"
  "ls_progressed (count_failure s) = ls_progressed s" "ls_ran (count_failure s) = ls_ran s"
  "ls_sent (count_failure s) = ls_sent s" "ls_messages (count_failure s) = ls_messages s"
  "ls_counts (count_call n s) = (ls_counts s)(n := Suc (ls_counts s n))"
  "ls_failures (count_call n s) = ls_failures s"
  "ls_records (count_call n s) = ls_records s" "ls_done_changes (count_call n s) = ls_done_changes s"
  "ls_looked_up (count_call n s) = ls_looked_up s" "ls_stale (count_call n s) = ls_stale s"
  "ls_progressed (count_call n s) = ls_progressed s" "ls_ran (count_call n s) = ls_ran s"
  "ls_sent (count_call n s) = ls_sent s" "ls_messages (count_call n s) = ls_messages s"
  by (simp_all add: say_def count_failure_def count_call_def)

lemma invoke_action_fields:
  assumes "invoke_action action call s = ((out, err), s1)"
  shows "ls_counts s1 = ls_counts s" "ls_failures s1 = ls_failures s" "ls_stale s1 = ls_stale s"
    "ls_progressed s1" "ls_done_changes s1 = ls_done_changes s" "ls_looked_up s1 = ls_looked_up s"
    "ls_sent s1 = ls_sent s" "ls_messages s1 = ls_messages s"
    "ls_ran s1 = ls_ran s @ [(tc_name call, tc_args call, really_done out err)]"
    "\<exists>msg why. ls_records s1 = ls_records s @ [\<lparr>ar_name = tc_name call, ar_changes = as_changes (ba_spec action),
       ar_done = really_done out err, ar_message = msg, ar_reason = why\<rparr>]"
  using assms by (auto simp: invoke_action_def Let_def really_done_def split: prod.splits)

text \<open>
  Every flow of one call keeps the transcripts sent and the stale count, never lets a count of
  uses go down, and, unless something ran, never lets the failures go down.
\<close>

definition quiet :: "'w loop_state \<Rightarrow> 'w loop_state \<Rightarrow> bool" where
  "quiet s t \<longleftrightarrow> ls_sent t = ls_sent s \<and> ls_stale t = ls_stale s \<and>
     (\<forall>n. ls_counts s n \<le> ls_counts t n) \<and>
     (ls_progressed s \<longrightarrow> ls_progressed t) \<and>
     (\<not> ls_progressed t \<longrightarrow> ls_failures s \<le> ls_failures t)"

lemma quiet_refl [simp]: "quiet s s"
  by (simp add: quiet_def)

lemma quiet_trans: "quiet s t \<Longrightarrow> quiet t u \<Longrightarrow> quiet s u"
  unfolding quiet_def by (metis le_trans)

lemma quiet_say [simp]: "quiet s (say ms t) = quiet s t"
  by (simp add: quiet_def)

lemma quiet_count_failure: "quiet s t \<Longrightarrow> quiet s (count_failure t)"
  by (auto simp: quiet_def)

lemma quiet_count_call: "quiet s t \<Longrightarrow> quiet s (count_call n t)"
  by (auto simp: quiet_def le_Suc_eq)

lemma quiet_fail_or: "quiet s t \<Longrightarrow> flow_state (k (count_failure t)) = count_failure t \<Longrightarrow> quiet s (flow_state (fail_or reason k t))"
  by (simp add: flow_state_fail_or quiet_count_failure)

lemma quiet_do_finish: "quiet s (flow_state (do_finish cfg call rest s))"
proof (cases "effective_reqs cfg")
  case None
  then show ?thesis by (simp add: do_finish_def Let_def)
next
  case (Some q)
  have b: "quiet s (s\<lparr>ls_bounces := n\<rparr>)" for n by (simp add: quiet_def)
  show ?thesis using Some b
    by (cases "finish_check (tc_args call) q (ls_records s)")
      (auto simp: do_finish_def Let_def split: bool.split)
qed

lemma quiet_run_action: "quiet s (flow_state (run_action action call rest s))"
proof -
  obtain out err s1 where inv: "invoke_action action call s = ((out, err), s1)"
    by (metis surj_pair)
  have q1: "quiet s s1"
    using invoke_action_fields [OF inv] by (simp add: quiet_def)
  have "quiet s (flow_state (after_invoke action call rest out err s1))"
  proof (cases err)
    case None
    then show ?thesis using q1 invoke_action_fields [OF inv]
      by (simp add: after_invoke_def Let_def quiet_def)
  next
    case (Some e)
    then show ?thesis using q1
      by (auto simp: after_invoke_def intro!: quiet_fail_or)
  qed
  then show ?thesis by (simp add: run_action_def inv)
qed

lemma quiet_do_known: "quiet s (flow_state (do_known action call rest s))"
proof -
  have "quiet s (flow_state (run_action action call rest (count_call (tc_name call) s)))"
    by (rule quiet_trans [OF quiet_count_call [OF quiet_refl] quiet_run_action])
  then show ?thesis
    by (auto simp: do_known_def Let_def quiet_count_call quiet_fail_or split: option.split)
qed

lemma quiet_do_call: "quiet s (flow_state (do_call cfg call rest s))"
  by (auto simp: do_call_def quiet_do_finish quiet_do_known quiet_fail_or split: option.split)

lemma quiet_do_calls: "quiet s (flow_state (do_calls cfg calls s))"
proof (induction calls arbitrary: s)
  case Nil
  then show ?case by simp
next
  case (Cons call rest)
  have q: "quiet s (flow_state (do_call cfg call rest s))" by (rule quiet_do_call)
  show ?case
  proof (cases "do_call cfg call rest s")
    case (NextCall s1)
    then show ?thesis using q Cons.IH [of s1] by (auto intro: quiet_trans)
  qed (use q in auto)
qed

section \<open>Why it ends\<close>

definition action_names :: "'w loop_cfg \<Rightarrow> string list" where
  "action_names cfg = remdups (map (\<lambda>a. as_name (ba_spec a)) (lc_actions cfg))"

text \<open>Uses left, and how many more quiet iterations the loop bears.\<close>

definition budget :: "'w loop_cfg \<Rightarrow> 'w loop_state \<Rightarrow> nat" where
  "budget cfg s = (\<Sum>n\<in>set (action_names cfg). max_same_action_calls - ls_counts s n)"

definition slack :: "'w loop_state \<Rightarrow> nat" where
  "slack s = (max_stale_steps - ls_stale s) + (max_consecutive_failures - ls_failures s)"

definition fuel_left :: "'w loop_cfg \<Rightarrow> 'w loop_state \<Rightarrow> nat" where
  "fuel_left cfg s = 6 * budget cfg s + slack s"

lemma slack_le: "slack s \<le> 5"
  by (simp add: slack_def max_stale_steps_def max_consecutive_failures_def)

lemma find_action_mem: "find_action cfg name = Some a \<Longrightarrow> a \<in> set (lc_actions cfg) \<and> as_name (ba_spec a) = name"
  by (auto simp: find_action_def dest!: map_of_SomeD)

lemma find_action_name: "find_action cfg name = Some a \<Longrightarrow> name \<in> set (action_names cfg)"
  by (auto simp: action_names_def dest!: find_action_mem)

lemma budget_mono: "quiet s t \<Longrightarrow> budget cfg t \<le> budget cfg s"
  unfolding budget_def quiet_def by (intro sum_mono diff_le_mono2) blast

lemma budget_less:
  assumes "quiet s t" and "n \<in> set (action_names cfg)" and "ls_counts s n < max_same_action_calls"
    and "ls_counts s n < ls_counts t n"
  shows "budget cfg t < budget cfg s"
  unfolding budget_def using assms
  by (intro sum_strict_mono_ex1) (auto simp: quiet_def intro!: bexI [of _ n] diff_le_mono2)

lemma run_action_counts: "ls_counts (flow_state (run_action action call rest s)) = ls_counts s"
proof -
  obtain out err s1 where inv: "invoke_action action call s = ((out, err), s1)"
    by (metis surj_pair)
  then show ?thesis using invoke_action_fields(1) [OF inv]
    by (auto simp: run_action_def after_invoke_def Let_def fail_or_def split: option.split)
qed

lemma do_call_progress:
  fixes cfg :: "'w loop_cfg"
  assumes "\<not> ls_progressed s" and "ls_progressed (flow_state (do_call cfg call rest s))"
  shows "tc_name call \<in> set (action_names cfg) \<and> ls_counts s (tc_name call) < max_same_action_calls \<and>
    ls_counts (flow_state (do_call cfg call rest s)) (tc_name call) = Suc (ls_counts s (tc_name call))"
proof -
  have fin: "\<not> ls_progressed (flow_state (do_finish cfg call rest s))"
    using assms(1) by (auto simp: do_finish_def Let_def split: option.split prod.split bool.split)
  have fo: "ls_progressed (flow_state (fail_or reason NextCall t)) = ls_progressed t"
    "ls_progressed (flow_state (fail_or reason BreakCalls t)) = ls_progressed t" for reason and t :: "'w loop_state"
    by (simp_all add: fail_or_def Let_def)
  obtain a where a: "find_action cfg (tc_name call) = Some a"
    and kn: "do_call cfg call rest s = do_known a call rest s"
    using assms fin fo by (auto simp: do_call_def split: if_splits option.splits)
  let ?s1 = "count_call (tc_name call) s"
  have le: "Suc (ls_counts s (tc_name call)) \<le> max_same_action_calls"
    and run: "do_known a call rest s = run_action a call rest ?s1"
    using assms kn fo by (auto simp: do_known_def Let_def split: if_splits option.splits)
  show ?thesis using find_action_name [OF a] le kn run by (simp add: run_action_counts)
qed

lemma do_calls_progress:
  assumes "\<not> ls_progressed s" and "ls_progressed (flow_state (do_calls cfg calls s))"
  shows "budget cfg (flow_state (do_calls cfg calls s)) < budget cfg s"
  using assms
proof (induction calls arbitrary: s)
  case Nil
  then show ?case by simp
next
  case (Cons call rest)
  let ?t = "flow_state (do_call cfg call rest s)"
  have q: "quiet s ?t" by (rule quiet_do_call)
  have less: "budget cfg ?t < budget cfg s" if "ls_progressed ?t"
    using do_call_progress [OF Cons.prems(1) that] by (intro budget_less [OF q]) auto
  show ?case
  proof (cases "do_call cfg call rest s")
    case (NextCall s1)
    show ?thesis
    proof (cases "ls_progressed s1")
      case True
      then have "budget cfg s1 < budget cfg s" using less NextCall by simp
      then show ?thesis using budget_mono [OF quiet_do_calls, of cfg cfg rest s1] NextCall by simp
    next
      case False
      then have "budget cfg (flow_state (do_calls cfg rest s1)) < budget cfg s1"
        using Cons.IH [OF False] Cons.prems(2) NextCall by simp
      then show ?thesis using budget_mono [OF q, of cfg] NextCall by simp
    qed
  qed (use less Cons.prems in auto)
qed

lemma settle_stale_simps [simp]:
  "ls_counts (settle_stale s) = ls_counts s" "ls_failures (settle_stale s) = ls_failures s"
  "ls_sent (settle_stale s) = ls_sent s" "ls_messages (settle_stale s) = ls_messages s"
  "ls_records (settle_stale s) = ls_records s" "ls_ran (settle_stale s) = ls_ran s"
  "ls_done_changes (settle_stale s) = ls_done_changes s" "ls_looked_up (settle_stale s) = ls_looked_up s"
  "ls_stale (settle_stale s) = (if ls_progressed s then 0 else Suc (ls_stale s))"
  by (simp_all add: settle_stale_def)

lemma budget_cong: "ls_counts s = ls_counts t \<Longrightarrow> budget cfg s = budget cfg t"
  by (simp add: budget_def)

lemma fuel_settle:
  assumes q: "quiet s t" and "\<not> ls_progressed s" and "ls_stale s < max_stale_steps"
    and b: "ls_progressed t \<Longrightarrow> budget cfg t < budget cfg s"
  shows "fuel_left cfg (settle_stale t) < fuel_left cfg s"
proof (cases "ls_progressed t")
  case True
  have "budget cfg (settle_stale t) = budget cfg t" by (rule budget_cong) simp
  then have "6 * budget cfg (settle_stale t) + 6 \<le> 6 * budget cfg s" using b [OF True] by simp
  then show ?thesis using slack_le [of "settle_stale t"] by (simp add: fuel_left_def)
next
  case False
  have "budget cfg (settle_stale t) = budget cfg t" by (rule budget_cong) simp
  then have "budget cfg (settle_stale t) \<le> budget cfg s" using budget_mono [OF q, of cfg] by simp
  moreover have "slack (settle_stale t) < slack s"
    using False q assms(3) by (auto simp: slack_def quiet_def max_stale_steps_def max_consecutive_failures_def)
  ultimately show ?thesis by (simp add: fuel_left_def)
qed

lemma fuel_fail_iter:
  assumes "fail_iter cfg reason t = Continue u" and "ls_counts t = ls_counts s"
    and "ls_failures t = ls_failures s" and "ls_stale t = ls_stale s"
  shows "fuel_left cfg u < fuel_left cfg s"
proof -
  have u: "u = count_failure t" "Suc (ls_failures s) < max_consecutive_failures"
    using assms by (auto simp: fail_iter_def Let_def too_many_failures_def split: if_splits)
  have "budget cfg u = budget cfg s" using u assms by (intro budget_cong) simp
  then show ?thesis using u assms by (simp add: fuel_left_def slack_def)
qed

lemma ask_model_fields:
  assumes "ask_model cfg msgs specs s = (r, s1)"
  shows "ls_counts s1 = ls_counts s" "ls_failures s1 = ls_failures s" "ls_stale s1 = ls_stale s"
    "ls_progressed s1 = ls_progressed s" "ls_records s1 = ls_records s" "ls_messages s1 = ls_messages s"
    "ls_sent s1 = ls_sent s @ [msgs]" "ls_ran s1 = ls_ran s" "ls_done_changes s1 = ls_done_changes s"
    "ls_looked_up s1 = ls_looked_up s" "ls_bounces s1 = ls_bounces s"
  using assms by (auto simp: ask_model_def split: prod.splits)

lemma handle_response_fuel:
  assumes "handle_response cfg resp s = Continue u" and "\<not> ls_progressed s" and "ls_stale s < max_stale_steps"
  shows "fuel_left cfg u < fuel_left cfg s"
proof (cases "lr_tool_calls resp = [] \<or> max_tool_calls_per_iter < length (lr_tool_calls resp)")
  case True
  then show ?thesis using assms(1)
    by (auto simp: handle_response_def Let_def split: if_splits elim!: fuel_fail_iter)
next
  case False
  let ?s = "say [assistant_message (lr_content resp) (lr_tool_calls resp) False] s"
  let ?f = "do_calls cfg (lr_tool_calls resp) ?s"
  have u: "u = settle_stale (flow_state ?f)"
    using assms(1) False by (auto simp: handle_response_def Let_def split: call_flow.splits if_splits)
  have "fuel_left cfg u < fuel_left cfg ?s"
    unfolding u using assms(2,3) by (intro fuel_settle quiet_do_calls do_calls_progress) auto
  also have "fuel_left cfg ?s = fuel_left cfg s"
    by (simp add: fuel_left_def slack_def budget_def)
  finally show ?thesis .
qed

lemma loop_iter_fuel: "loop_iter cfg s = Continue u \<Longrightarrow> fuel_left cfg u < fuel_left cfg s"
proof -
  assume it: "loop_iter cfg s = Continue u"
  then have st: "ls_stale s < max_stale_steps" by (auto simp: loop_iter_def split: if_splits)
  obtain r s1 where ask: "ask_model cfg (ls_messages s) (specs_of cfg) (s\<lparr>ls_progressed := False\<rparr>) = (r, s1)"
    by fastforce
  then obtain resp where "handle_response cfg resp s1 = Continue u"
    using it st by (auto simp: loop_iter_def split: sum.splits)
  then have "fuel_left cfg u < fuel_left cfg s1"
    using ask_model_fields [OF ask] st by (intro handle_response_fuel) auto
  also have "fuel_left cfg s1 = fuel_left cfg s"
    using ask_model_fields [OF ask] by (simp add: fuel_left_def slack_def budget_def)
  finally show ?thesis .
qed

section \<open>The run\<close>

function run_from :: "'w loop_cfg \<Rightarrow> nat \<Rightarrow> 'w loop_state \<Rightarrow> 'w loop_end" where
  "run_from cfg i s =
     (if lc_max_iterations cfg = 0 \<or> int i < lc_max_iterations cfg
      then (case loop_iter cfg s of Stop e \<Rightarrow> e | Continue s1 \<Rightarrow> run_from cfg (Suc i) s1)
      else out_of_steps cfg s)"
  by pat_completeness auto
termination
  by (relation "measure (\<lambda>(cfg, i, s). fuel_left cfg s)") (auto dest: loop_iter_fuel)

declare run_from.simps [simp del]

definition loop_run :: "'w loop_cfg \<Rightarrow> breaker \<Rightarrow> message list \<Rightarrow> 'w \<Rightarrow> 'w loop_end" where
  "loop_run cfg b msgs w = run_from cfg 0 (init_state w b msgs)"

section \<open>How long it runs\<close>

lemma wrap_up_sent: "length (ls_sent (snd (wrap_up cfg reason s))) \<le> Suc (length (ls_sent s))"
proof (cases "find_action cfg finish_action_name")
  case None
  then show ?thesis by (simp add: wrap_up_def give_up_def)
next
  case (Some fin)
  let ?m = "answer_open_calls (ls_messages s) @ [internal_user wrap_up_note]"
  obtain r s1 where ask: "ask_model cfg ?m [ba_spec fin] s = (r, s1)" by fastforce
  show ?thesis using Some ask ask_model_fields(7) [OF ask]
    by (auto simp: wrap_up_def Let_def give_up_def split: sum.split list.split)
qed

lemma wrap_up_sent_le: "ls_sent t = ls_sent s \<Longrightarrow> length (ls_sent (snd (wrap_up cfg reason t))) \<le> Suc (length (ls_sent s))"
  by (metis wrap_up_sent)

lemma handle_response_sent:
  "handle_response cfg resp s = Continue u \<Longrightarrow> ls_sent u = ls_sent s"
  "handle_response cfg resp s = Stop e \<Longrightarrow> length (ls_sent (snd e)) \<le> Suc (length (ls_sent s))"
proof -
  let ?s = "say [assistant_message (lr_content resp) (lr_tool_calls resp) False] s"
  have "quiet ?s (flow_state (do_calls cfg (lr_tool_calls resp) ?s))" by (rule quiet_do_calls)
  then have sent: "ls_sent (flow_state (do_calls cfg (lr_tool_calls resp) ?s)) = ls_sent s"
    by (simp add: quiet_def)
  show "handle_response cfg resp s = Continue u \<Longrightarrow> ls_sent u = ls_sent s"
    using sent by (auto simp: handle_response_def Let_def fail_iter_def split: if_splits call_flow.splits)
  show "handle_response cfg resp s = Stop e \<Longrightarrow> length (ls_sent (snd e)) \<le> Suc (length (ls_sent s))"
    using sent
    by (auto simp: handle_response_def Let_def fail_iter_def split: if_splits call_flow.splits
        intro!: wrap_up_sent_le)
qed

lemma loop_iter_sent:
  "loop_iter cfg s = Continue u \<Longrightarrow> length (ls_sent u) = Suc (length (ls_sent s))"
  "loop_iter cfg s = Stop e \<Longrightarrow> length (ls_sent (snd e)) \<le> Suc (Suc (length (ls_sent s)))"
proof -
  obtain r s1 where ask: "ask_model cfg (ls_messages s) (specs_of cfg) (s\<lparr>ls_progressed := False\<rparr>) = (r, s1)"
    by fastforce
  have sent: "length (ls_sent s1) = Suc (length (ls_sent s))"
    using ask_model_fields(7) [OF ask] by simp
  show "loop_iter cfg s = Continue u \<Longrightarrow> length (ls_sent u) = Suc (length (ls_sent s))"
    using ask sent
    by (auto simp: loop_iter_def split: if_splits sum.splits dest!: handle_response_sent(1))
  show "loop_iter cfg s = Stop e \<Longrightarrow> length (ls_sent (snd e)) \<le> Suc (Suc (length (ls_sent s)))"
    using ask sent handle_response_sent(2) [of cfg _ s1 e] wrap_up_sent [of cfg _ s]
    by (auto simp: loop_iter_def le_Suc_eq split: if_splits sum.splits)
qed

lemma out_of_steps_sent: "length (ls_sent (snd (out_of_steps cfg s))) \<le> Suc (length (ls_sent s))"
  by (auto simp: out_of_steps_def intro: wrap_up_sent)

lemma run_from_sent: "length (ls_sent (snd (run_from cfg i s))) \<le> length (ls_sent s) + fuel_left cfg s + 2"
proof (induction cfg i s rule: run_from.induct)
  case (1 cfg i s)
  show ?case
  proof (cases "lc_max_iterations cfg = 0 \<or> int i < lc_max_iterations cfg")
    case True
    show ?thesis
    proof (cases "loop_iter cfg s")
      case (Continue u)
      have "length (ls_sent (snd (run_from cfg (Suc i) u))) \<le> length (ls_sent u) + fuel_left cfg u + 2"
        using "1.IH" [OF True Continue] .
      then show ?thesis
        using True Continue loop_iter_sent(1) [OF Continue] loop_iter_fuel [OF Continue]
        by (simp add: run_from.simps [of cfg i s])
    next
      case (Stop e)
      then show ?thesis using True loop_iter_sent(2) [OF Stop] by (simp add: run_from.simps [of cfg i s])
    qed
  next
    case False
    then show ?thesis using out_of_steps_sent [of cfg s] by (simp add: run_from.simps [of cfg i s])
  qed
qed

lemma run_from_sent_bounded:
  "int i \<le> lc_max_iterations cfg \<Longrightarrow> 0 < lc_max_iterations cfg \<Longrightarrow>
     int (length (ls_sent (snd (run_from cfg i s)))) \<le> int (length (ls_sent s)) + (lc_max_iterations cfg - int i) + 1"
proof (induction cfg i s rule: run_from.induct)
  case (1 cfg i s)
  show ?case
  proof (cases "int i < lc_max_iterations cfg")
    case True
    then have go: "lc_max_iterations cfg = 0 \<or> int i < lc_max_iterations cfg" by simp
    show ?thesis
    proof (cases "loop_iter cfg s")
      case (Continue u)
      then show ?thesis
        using "1.IH" [OF go Continue] True loop_iter_sent(1) [OF Continue]
        by (simp add: run_from.simps [of cfg i s])
    next
      case (Stop e)
      then show ?thesis using go True loop_iter_sent(2) [OF Stop] by (simp add: run_from.simps [of cfg i s])
    qed
  next
    case False
    then show ?thesis using "1.prems" out_of_steps_sent [of cfg s] by (simp add: run_from.simps [of cfg i s])
  qed
qed

lemma fuel_init: "fuel_left cfg (init_state w b msgs) \<le> 90 * length (action_names cfg) + 5"
proof -
  have "budget cfg (init_state w b msgs) = 15 * card (set (action_names cfg))"
    by (simp add: budget_def init_state_def max_same_action_calls_def)
  then show ?thesis using slack_le [of "init_state w b msgs"] card_length [of "action_names cfg"]
    by (simp add: fuel_left_def)
qed

end
