(* ===== verification/Loop_Safety.thy ===== *)
theory Loop_Safety
  imports Loop_Run
begin

text \<open>
  What a run of the agent loop may and may not do. The locale \<open>run_invariant\<close> is the
  contract an invariant of the run has to keep: it must not depend on the bookkeeping of the
  loop, and must survive asking the model, counting a call and running an action that passed
  every guard. Inside
  it, the invariant is carried through calls, iterations and whole runs once; each
  interpretation below instantiates it with one property of the run.
\<close>

section \<open>The guards in front of an action\<close>

definition core_of :: "'w loop_state \<Rightarrow> (string \<Rightarrow> nat) \<times> action_record list \<times> (string \<rightharpoonup> string) \<times> (string \<rightharpoonup> string) \<times> (string \<times> args \<times> bool) list \<times> 'w" where
  "core_of s = (ls_counts s, ls_records s, ls_done_changes s, ls_looked_up s, ls_ran s, ls_world s)"

text \<open>The state is the one after the call has been counted.\<close>

definition may_run :: "'w loop_cfg \<Rightarrow> 'w bound_action \<Rightarrow> tool_call \<Rightarrow> 'w loop_state \<Rightarrow> bool" where
  "may_run cfg action call s \<longleftrightarrow>
     tc_name call \<noteq> finish_action_name \<and>
     find_action cfg (tc_name call) = Some action \<and>
     repeated (ls_looked_up s) (lookup_key (ba_spec action) call) = None \<and>
     repeated (ls_done_changes s) (change_key (ba_spec action) call) = None \<and>
     ls_counts s (tc_name call) \<le> max_same_action_calls \<and>
     \<not> over_max_calls (ba_spec action) (ls_counts s (tc_name call))"

lemma core_of_simps [simp]:
  "core_of (say ms s) = core_of s" "core_of (count_failure s) = core_of s"
  "core_of (settle_stale s) = core_of s" "core_of (s\<lparr>ls_bounces := n\<rparr>) = core_of s"
  "core_of (s\<lparr>ls_progressed := b\<rparr>) = core_of s" "core_of (s\<lparr>ls_messages := ms\<rparr>) = core_of s"
  by (simp_all add: core_of_def say_def count_failure_def settle_stale_def)

lemma core_of_do_finish: "core_of (flow_state (do_finish cfg call rest s)) = core_of s"
  by (auto simp: do_finish_def Let_def split: option.split prod.split bool.split)

text \<open>One call either leaves the core as it was, or counts the call, or counts it and runs the action.\<close>

lemma do_call_core:
  "core_of (flow_state (do_call cfg call rest s)) = core_of s \<or>
   core_of (flow_state (do_call cfg call rest s)) = core_of (count_call (tc_name call) s) \<or>
   (\<exists>action. may_run cfg action call (count_call (tc_name call) s) \<and>
      do_call cfg call rest s = run_action action call rest (count_call (tc_name call) s))"
proof -
  have fo: "core_of (flow_state (fail_or reason NextCall t)) = core_of t"
    "core_of (flow_state (fail_or reason BreakCalls t)) = core_of t" for reason and t :: "'a loop_state"
    by (simp_all add: fail_or_def Let_def)
  show ?thesis
    by (auto simp: do_call_def do_known_def core_of_do_finish fo Let_def may_run_def split: option.split)
qed

locale run_invariant =
  fixes cfg :: "'w loop_cfg" and P :: "'w loop_state \<Rightarrow> bool"
  assumes frame: "P s \<Longrightarrow> core_of t = core_of s \<Longrightarrow> P t"
    and asked: "P s \<Longrightarrow> ask_model cfg msgs specs s = (r, s1) \<Longrightarrow> P s1"
    and count: "P s \<Longrightarrow> P (count_call n s)"
    and ran: "P s \<Longrightarrow> may_run cfg action call (count_call (tc_name call) s) \<Longrightarrow>
      P (flow_state (run_action action call rest (count_call (tc_name call) s)))"
begin

lemma inv_do_call: "P s \<Longrightarrow> P (flow_state (do_call cfg call rest s))"
  using do_call_core [of cfg call rest s] frame count ran by metis

lemma inv_do_calls: "P s \<Longrightarrow> P (flow_state (do_calls cfg calls s))"
proof (induction calls arbitrary: s)
  case Nil
  then show ?case by simp
next
  case (Cons call rest)
  have q: "P (flow_state (do_call cfg call rest s))" using Cons.prems by (rule inv_do_call)
  show ?case
  proof (cases "do_call cfg call rest s")
    case (NextCall s1)
    then show ?thesis using q Cons.IH [of s1] by auto
  qed (use q in auto)
qed

lemma inv_wrap_up:
  assumes "P s"
  shows "P (snd (wrap_up cfg reason s))"
proof (cases "find_action cfg finish_action_name")
  case None
  then show ?thesis using assms by (simp add: wrap_up_def give_up_def)
next
  case (Some fin)
  obtain r s1 where ask: "ask_model cfg (answer_open_calls (ls_messages s) @ [internal_user wrap_up_note]) [ba_spec fin] s = (r, s1)"
    by fastforce
  have "P s1" using assms ask by (rule asked)
  moreover have "P (s1\<lparr>ls_messages := ms\<rparr>)" for ms using \<open>P s1\<close> by (rule frame) simp
  ultimately show ?thesis using Some ask
    by (auto simp: wrap_up_def Let_def give_up_def split: sum.split list.split)
qed

lemma inv_handle_response:
  assumes "P s"
  shows "handle_response cfg resp s = Continue u \<Longrightarrow> P u"
    and "handle_response cfg resp s = Stop e \<Longrightarrow> P (snd e)"
proof -
  let ?s = "say [assistant_message (lr_content resp) (lr_tool_calls resp) False] s"
  have said: "P (say ms s)" for ms using assms by (rule frame) simp
  have failed: "P (count_failure (say ms s))" for ms using assms by (rule frame) simp
  have flow: "P (flow_state (do_calls cfg (lr_tool_calls resp) ?s))"
    using said by (rule inv_do_calls)
  have settled: "P (settle_stale t)" if "P t" for t using that by (rule frame) simp
  show "handle_response cfg resp s = Continue u \<Longrightarrow> P u"
    using flow failed settled
    by (auto simp: handle_response_def Let_def fail_iter_def split: if_splits call_flow.splits)
  show "handle_response cfg resp s = Stop e \<Longrightarrow> P (snd e)"
    using flow failed
    by (auto simp: handle_response_def Let_def fail_iter_def intro: inv_wrap_up split: if_splits call_flow.splits)
qed

lemma inv_loop_iter:
  assumes "P s"
  shows "loop_iter cfg s = Continue u \<Longrightarrow> P u"
    and "loop_iter cfg s = Stop e \<Longrightarrow> P (snd e)"
proof -
  obtain r s1 where ask: "ask_model cfg (ls_messages s) (specs_of cfg) (s\<lparr>ls_progressed := False\<rparr>) = (r, s1)"
    by fastforce
  have "P (s\<lparr>ls_progressed := False\<rparr>)" using assms by (rule frame) simp
  then have s1: "P s1" using ask by (rule asked)
  show "loop_iter cfg s = Continue u \<Longrightarrow> P u"
    using ask s1 by (auto simp: loop_iter_def split: if_splits sum.splits dest: inv_handle_response(1))
  show "loop_iter cfg s = Stop e \<Longrightarrow> P (snd e)"
  proof (cases "max_stale_steps \<le> ls_stale s")
    case True
    moreover assume "loop_iter cfg s = Stop e"
    ultimately show ?thesis using inv_wrap_up [OF assms] by (auto simp: loop_iter_def)
  next
    case False
    moreover assume "loop_iter cfg s = Stop e"
    ultimately show ?thesis using ask s1 inv_handle_response(2) [OF s1]
      by (cases r) (auto simp: loop_iter_def)
  qed
qed

lemma inv_out_of_steps: "P s \<Longrightarrow> P (snd (out_of_steps cfg s))"
  by (simp add: out_of_steps_def inv_wrap_up)

lemma inv_run_from: "P s \<Longrightarrow> P (snd (run_from cfg i s))"
proof (induction "fuel_left cfg s" arbitrary: i s rule: less_induct)
  case less
  show ?case
  proof (cases "lc_max_iterations cfg = 0 \<or> int i < lc_max_iterations cfg")
    case True
    show ?thesis
    proof (cases "loop_iter cfg s")
      case (Continue u)
      have "P (snd (run_from cfg (Suc i) u))"
        using loop_iter_fuel [OF Continue] inv_loop_iter(1) [OF less.prems Continue] by (rule less.hyps)
      then show ?thesis using True Continue by (simp add: run_from.simps [of cfg i s])
    next
      case (Stop e)
      then show ?thesis using True inv_loop_iter(2) [OF less.prems Stop] by (simp add: run_from.simps [of cfg i s])
    qed
  next
    case False
    then show ?thesis using inv_out_of_steps [OF less.prems] by (simp add: run_from.simps [of cfg i s])
  qed
qed

lemma inv_loop_run: "P (init_state w b msgs) \<Longrightarrow> P (snd (loop_run cfg b msgs w))"
  by (simp add: loop_run_def inv_run_from)

end

section \<open>The action that ran\<close>

lemma run_action_core:
  "\<exists>out err.
     let t = flow_state (run_action action call rest s); ok = really_done out err in
     ls_ran t = ls_ran s @ [(tc_name call, tc_args call, ok)] \<and>
     (\<exists>msg why. ls_records t = ls_records s @ [\<lparr>ar_name = tc_name call, ar_changes = as_changes (ba_spec action),
        ar_done = ok, ar_message = msg, ar_reason = why\<rparr>]) \<and>
     ls_counts t = ls_counts s \<and>
     (if err = None
      then (\<exists>v v'. ls_done_changes t = remember (change_key (ba_spec action) call) ok v (ls_done_changes s) \<and>
             ls_looked_up t = remember (lookup_key (ba_spec action) call) ok v' (ls_looked_up s))
      else ls_done_changes t = ls_done_changes s \<and> ls_looked_up t = ls_looked_up s \<and> \<not> ok)"
proof -
  obtain out err s1 where inv: "invoke_action action call s = ((out, err), s1)"
    by (metis surj_pair)
  have fo: "core_of (flow_state (fail_or reason NextCall t)) = core_of t" for reason and t :: "'a loop_state"
    by (simp add: fail_or_def Let_def)
  show ?thesis
  proof (cases err)
    case None
    then show ?thesis using invoke_action_fields [OF inv]
      by (intro exI [of _ out] exI [of _ None]) (auto simp: run_action_def inv after_invoke_def Let_def)
  next
    case (Some e)
    have "core_of (flow_state (run_action action call rest s)) = core_of s1"
      by (simp add: run_action_def inv Some after_invoke_def fo)
    moreover have "\<not> really_done out err"
      by (simp add: Some really_done_def outcome_of_def)
    ultimately show ?thesis using invoke_action_fields [OF inv] Some
      by (intro exI [of _ out] exI [of _ err]) (auto simp: core_of_def Let_def)
  qed
qed

section \<open>How often an action runs\<close>

definition uses :: "string \<Rightarrow> (string \<times> args \<times> bool) list \<Rightarrow> nat" where
  "uses n xs = length (filter (\<lambda>r. fst r = n) xs)"

lemma uses_snoc [simp]: "uses n (xs @ [r]) = uses n xs + (if fst r = n then 1 else 0)"
  by (simp add: uses_def)

definition uses_bounded :: "'w loop_cfg \<Rightarrow> 'w loop_state \<Rightarrow> bool" where
  "uses_bounded cfg s \<longleftrightarrow>
     (\<forall>n. uses n (ls_ran s) \<le> ls_counts s n \<and> uses n (ls_ran s) \<le> max_same_action_calls \<and>
       (\<forall>a. find_action cfg n = Some a \<longrightarrow> \<not> over_max_calls (ba_spec a) (uses n (ls_ran s))))"

lemma over_max_calls_mono: "over_max_calls spec m \<Longrightarrow> m \<le> n \<Longrightarrow> over_max_calls spec n"
  by (auto simp: over_max_calls_def)

lemma uses_bounded_run:
  assumes "uses_bounded cfg s" and may: "may_run cfg action call (count_call (tc_name call) s)"
  shows "uses_bounded cfg (flow_state (run_action action call rest (count_call (tc_name call) s)))"
proof -
  let ?s = "count_call (tc_name call) s"
  obtain ok where t: "ls_ran (flow_state (run_action action call rest ?s)) = ls_ran s @ [(tc_name call, tc_args call, ok)]"
    "ls_counts (flow_state (run_action action call rest ?s)) = (ls_counts s)(tc_name call := Suc (ls_counts s (tc_name call)))"
    using run_action_core [of action call rest ?s] by (auto simp: Let_def)
  have le: "uses n (ls_ran s) \<le> ls_counts s n" for n using assms(1) by (simp add: uses_bounded_def)
  have own: "\<not> over_max_calls (ba_spec action) (Suc (uses (tc_name call) (ls_ran s)))"
    using may le [of "tc_name call"] by (auto simp: may_run_def dest: over_max_calls_mono)
  have cap: "Suc (uses (tc_name call) (ls_ran s)) \<le> max_same_action_calls"
    using may le [of "tc_name call"] by (simp add: may_run_def)
  have fa: "find_action cfg (tc_name call) = Some action" using may by (simp add: may_run_def)
  show ?thesis using assms(1) cap fa own le [of "tc_name call"]
    unfolding uses_bounded_def t by auto
qed

lemma uses_bounded_invariant: "run_invariant cfg (uses_bounded cfg)"
proof
  fix s t s1 :: "'a loop_state" and n action call rest msgs specs r
  show "uses_bounded cfg s \<Longrightarrow> ask_model cfg msgs specs s = (r, s1) \<Longrightarrow> uses_bounded cfg s1"
    by (simp add: uses_bounded_def ask_model_fields)
  show "uses_bounded cfg s \<Longrightarrow> core_of t = core_of s \<Longrightarrow> uses_bounded cfg t"
    by (simp add: uses_bounded_def core_of_def)
  show "uses_bounded cfg s \<Longrightarrow> uses_bounded cfg (count_call n s)"
    by (auto simp: uses_bounded_def le_SucI)
  show "uses_bounded cfg s \<Longrightarrow> may_run cfg action call (count_call (tc_name call) s) \<Longrightarrow>
      uses_bounded cfg (flow_state (run_action action call rest (count_call (tc_name call) s)))"
    by (rule uses_bounded_run)
qed

interpretation uses: run_invariant cfg "uses_bounded cfg" for cfg :: "'w loop_cfg"
  by (rule uses_bounded_invariant)

section \<open>Nothing is done twice\<close>

text \<open>Two invocations of the same action with the same inputs.\<close>

definition same_call :: "string \<times> args \<times> bool \<Rightarrow> string \<times> args \<times> bool \<Rightarrow> bool" where
  "same_call x y \<longleftrightarrow> fst x = fst y \<and> fst (snd x) = fst (snd y)"

text \<open>
  An invocation that must not be made again: it went through, its action changes something or
  only looks things up, and its inputs can be written as JSON (as decoded inputs always can).
\<close>

definition settled_call :: "'w loop_cfg \<Rightarrow> string \<times> args \<times> bool \<Rightarrow> bool" where
  "settled_call cfg x \<longleftrightarrow> snd (snd x) \<and> marshal_args (fst (snd x)) \<noteq> None \<and>
     (\<exists>a. find_action cfg (fst x) = Some a \<and> (as_changes (ba_spec a) \<or> as_read_only (ba_spec a)))"

definition no_repeats :: "'w loop_cfg \<Rightarrow> 'w loop_state \<Rightarrow> bool" where
  "no_repeats cfg s \<longleftrightarrow>
     sorted_wrt (\<lambda>x y. settled_call cfg x \<longrightarrow> \<not> same_call x y) (ls_ran s) \<and>
     (\<forall>x \<in> set (ls_ran s). \<forall>a js. snd (snd x) \<longrightarrow> find_action cfg (fst x) = Some a \<longrightarrow>
        marshal_args (fst (snd x)) = Some js \<longrightarrow>
        (as_changes (ba_spec a) \<longrightarrow> ls_done_changes s (fst x @ ''|'' @ js) \<noteq> None) \<and>
        (as_read_only (ba_spec a) \<longrightarrow> ls_looked_up s (fst x @ ''|'' @ js) \<noteq> None))"

lemma remember_keeps: "tab k = Some y \<Longrightarrow> \<exists>z. remember key ok v tab k = Some z"
  by (auto simp: remember_def split: option.splits if_splits)

lemma remember_new: "remember (Some k) True v tab k = Some v"
  by (simp add: remember_def)

lemma keys_of_call:
  "tc_name call = n \<Longrightarrow> marshal_args (tc_args call) = Some js \<Longrightarrow>
     (as_changes spec \<longrightarrow> change_key spec call = Some (n @ ''|'' @ js)) \<and>
     (as_read_only spec \<longrightarrow> lookup_key spec call = Some (n @ ''|'' @ js))"
  by (simp add: change_key_def lookup_key_def key_of_def)

lemma run_action_tables:
  "\<exists>ok. let t = flow_state (run_action action call rest s) in
     ls_ran t = ls_ran s @ [(tc_name call, tc_args call, ok)] \<and>
     (ok \<longrightarrow> (\<exists>v v'. ls_done_changes t = remember (change_key (ba_spec action) call) True v (ls_done_changes s) \<and>
        ls_looked_up t = remember (lookup_key (ba_spec action) call) True v' (ls_looked_up s))) \<and>
     (\<forall>k. ls_done_changes s k \<noteq> None \<longrightarrow> ls_done_changes t k \<noteq> None) \<and>
     (\<forall>k. ls_looked_up s k \<noteq> None \<longrightarrow> ls_looked_up t k \<noteq> None)"
proof -
  obtain out err where c: "let t = flow_state (run_action action call rest s); ok = really_done out err in
     ls_ran t = ls_ran s @ [(tc_name call, tc_args call, ok)] \<and>
     (if err = None
      then (\<exists>v v'. ls_done_changes t = remember (change_key (ba_spec action) call) ok v (ls_done_changes s) \<and>
             ls_looked_up t = remember (lookup_key (ba_spec action) call) ok v' (ls_looked_up s))
      else ls_done_changes t = ls_done_changes s \<and> ls_looked_up t = ls_looked_up s \<and> \<not> ok)"
    using run_action_core [of action call rest s] by (auto simp: Let_def)
  show ?thesis
  proof (cases err)
    case None
    with c show ?thesis
      by (intro exI [of _ "really_done out None"]) (auto simp: Let_def intro: remember_keeps)
  next
    case (Some e)
    with c show ?thesis by (intro exI [of _ False]) (auto simp: Let_def)
  qed
qed

lemma no_repeats_run:
  assumes inv: "no_repeats cfg s" and may: "may_run cfg action call (count_call (tc_name call) s)"
  shows "no_repeats cfg (flow_state (run_action action call rest (count_call (tc_name call) s)))"
proof -
  let ?s = "count_call (tc_name call) s" and ?n = "tc_name call" and ?a = "tc_args call"
  let ?t = "flow_state (run_action action call rest ?s)"
  obtain ok where ran: "ls_ran ?t = ls_ran s @ [(?n, ?a, ok)]"
    and tab: "ok \<Longrightarrow> \<exists>v v'. ls_done_changes ?t = remember (change_key (ba_spec action) call) True v (ls_done_changes s) \<and>
        ls_looked_up ?t = remember (lookup_key (ba_spec action) call) True v' (ls_looked_up s)"
    and kd: "\<And>k. ls_done_changes s k \<noteq> None \<Longrightarrow> ls_done_changes ?t k \<noteq> None"
    and kl: "\<And>k. ls_looked_up s k \<noteq> None \<Longrightarrow> ls_looked_up ?t k \<noteq> None"
    using run_action_tables [of action call rest ?s] by (auto simp: Let_def)
  have fa: "find_action cfg ?n = Some action" using may by (simp add: may_run_def)
  have fresh: "\<not> same_call x (?n, ?a, ok)" if x: "x \<in> set (ls_ran s)" and st: "settled_call cfg x" for x
  proof
    assume "same_call x (?n, ?a, ok)"
    then have e: "fst x = ?n" "fst (snd x) = ?a" by (simp_all add: same_call_def)
    obtain js where js: "marshal_args ?a = Some js" using st e by (auto simp: settled_call_def)
    have "(as_changes (ba_spec action) \<longrightarrow> ls_done_changes s (?n @ ''|'' @ js) \<noteq> None) \<and>
        (as_read_only (ba_spec action) \<longrightarrow> ls_looked_up s (?n @ ''|'' @ js) \<noteq> None)"
      using inv x st e js fa by (auto simp: no_repeats_def settled_call_def)
    moreover have "as_changes (ba_spec action) \<or> as_read_only (ba_spec action)"
      using st e fa by (auto simp: settled_call_def)
    ultimately show False using may keys_of_call [OF refl js, of "ba_spec action"]
      by (auto simp: may_run_def repeated_def)
  qed
  have "sorted_wrt (\<lambda>x y. settled_call cfg x \<longrightarrow> \<not> same_call x y) (ls_ran ?t)"
    using inv fresh by (auto simp: ran no_repeats_def sorted_wrt_append)
  moreover have "(as_changes (ba_spec action) \<longrightarrow> ls_done_changes ?t (?n @ ''|'' @ js) \<noteq> None) \<and>
      (as_read_only (ba_spec action) \<longrightarrow> ls_looked_up ?t (?n @ ''|'' @ js) \<noteq> None)"
    if "ok" "marshal_args ?a = Some js" for js
    using tab [OF that(1)] keys_of_call [OF refl that(2), of "ba_spec action"] by (auto simp: remember_new)
  ultimately show ?thesis
    using inv kd kl fa by (auto simp: no_repeats_def ran)
qed

lemma no_repeats_invariant: "run_invariant cfg (no_repeats cfg)"
proof
  fix s t s1 :: "'a loop_state" and n action call rest msgs specs r
  show "no_repeats cfg s \<Longrightarrow> ask_model cfg msgs specs s = (r, s1) \<Longrightarrow> no_repeats cfg s1"
    by (simp add: no_repeats_def ask_model_fields)
  show "no_repeats cfg s \<Longrightarrow> core_of t = core_of s \<Longrightarrow> no_repeats cfg t"
    by (simp add: no_repeats_def core_of_def)
  show "no_repeats cfg s \<Longrightarrow> no_repeats cfg (count_call n s)"
    by (simp add: no_repeats_def)
  show "no_repeats cfg s \<Longrightarrow> may_run cfg action call (count_call (tc_name call) s) \<Longrightarrow>
      no_repeats cfg (flow_state (run_action action call rest (count_call (tc_name call) s)))"
    by (rule no_repeats_run)
qed

interpretation repeats: run_invariant cfg "no_repeats cfg" for cfg :: "'w loop_cfg"
  by (rule no_repeats_invariant)

section \<open>The record is what ran\<close>

definition records_match :: "'w loop_cfg \<Rightarrow> 'w loop_state \<Rightarrow> bool" where
  "records_match cfg s \<longleftrightarrow>
     list_all2 (\<lambda>rec x. ar_name rec = fst x \<and> ar_done rec = snd (snd x) \<and> fst x \<noteq> finish_action_name \<and>
       (\<exists>a. find_action cfg (fst x) = Some a \<and> ar_changes rec = as_changes (ba_spec a)))
       (ls_records s) (ls_ran s)"

lemma records_match_run:
  assumes "records_match cfg s" and may: "may_run cfg action call (count_call (tc_name call) s)"
  shows "records_match cfg (flow_state (run_action action call rest (count_call (tc_name call) s)))"
proof -
  let ?s = "count_call (tc_name call) s"
  obtain ok msg why where
    t: "ls_ran (flow_state (run_action action call rest ?s)) = ls_ran s @ [(tc_name call, tc_args call, ok)]"
      "ls_records (flow_state (run_action action call rest ?s)) = ls_records s @ [\<lparr>ar_name = tc_name call,
         ar_changes = as_changes (ba_spec action), ar_done = ok, ar_message = msg, ar_reason = why\<rparr>]"
    using run_action_core [of action call rest ?s] by (auto simp: Let_def)
  have "find_action cfg (tc_name call) = Some action" "tc_name call \<noteq> finish_action_name"
    using may by (simp_all add: may_run_def)
  then show ?thesis using assms(1) unfolding records_match_def t
    by (intro list_all2_appendI) auto
qed

lemma records_match_invariant: "run_invariant cfg (records_match cfg)"
proof
  fix s t s1 :: "'a loop_state" and n action call rest msgs specs r
  show "records_match cfg s \<Longrightarrow> ask_model cfg msgs specs s = (r, s1) \<Longrightarrow> records_match cfg s1"
    by (simp add: records_match_def ask_model_fields)
  show "records_match cfg s \<Longrightarrow> core_of t = core_of s \<Longrightarrow> records_match cfg t"
    by (simp add: records_match_def core_of_def)
  show "records_match cfg s \<Longrightarrow> records_match cfg (count_call n s)"
    by (simp add: records_match_def)
  show "records_match cfg s \<Longrightarrow> may_run cfg action call (count_call (tc_name call) s) \<Longrightarrow>
      records_match cfg (flow_state (run_action action call rest (count_call (tc_name call) s)))"
    by (rule records_match_run)
qed

interpretation matching: run_invariant cfg "records_match cfg" for cfg :: "'w loop_cfg"
  by (rule records_match_invariant)

end
