(* ===== verification/Loop_Answers.thy ===== *)
theory Loop_Answers
  imports Loop_Safety
begin

text \<open>
  How a run of the agent loop ends, and what it says to the model on the way: an ending that
  claims a request was done is backed by the record or replaced by the facts, and every
  transcript given to the model answers every tool call in it exactly once.
\<close>

section \<open>Honest endings\<close>

text \<open>
  A finished run under requirements \<open>q\<close>: ended quietly for a newer message, or with an honest
  outcome, or with an outcome \<^verbatim>\<open>done\<close> that the record backs, or with the facts in place of
  the agent's words.
\<close>

definition honest :: "requirements \<Rightarrow> loop_result \<Rightarrow> bool" where
  "honest q r \<longleftrightarrow> res_status r = LoopComplete \<longrightarrow>
     (case res_output r of
        None \<Rightarrow> res_content r = [] \<and> \<not> changed_anything (res_actions r)
      | Some a \<Rightarrow> get_str a ''outcome'' \<in> {outcome_need_details, outcome_cannot} \<or>
          (get_str a ''outcome'' = outcome_done \<and> satisfied q (res_actions r)) \<or>
          res_content r = nothing_changed_message q (res_actions r))"

lemma honest_finish_ok:
  "fst (finish_check a q records) \<Longrightarrow>
     honest q \<lparr>res_status = st, res_content = c, res_output = Some a, res_actions = records\<rparr>"
  by (auto simp: honest_def finish_check_ok_cases)

lemma honest_facts:
  "honest q \<lparr>res_status = st, res_content = nothing_changed_message q records, res_output = Some a, res_actions = records\<rparr>"
  by (simp add: honest_def)

lemma honest_do_finish:
  "effective_reqs cfg = Some q \<Longrightarrow> do_finish cfg call rest s = ReturnRun r t \<Longrightarrow> honest q r"
  by (cases "finish_check (tc_args call) q (ls_records s)")
    (auto simp: do_finish_def Let_def intro!: honest_finish_ok honest_facts split: bool.splits if_splits)

lemma honest_run_action: "run_action action call rest s = ReturnRun r t \<Longrightarrow> honest q r"
  by (auto simp: run_action_def after_invoke_def fail_or_def Let_def honest_def
      split: prod.splits option.splits if_splits)

lemma honest_do_call:
  assumes "effective_reqs cfg = Some q" and "do_call cfg call rest s = ReturnRun r t"
  shows "honest q r"
proof -
  have no: "fail_or reason NextCall u \<noteq> ReturnRun r t" "fail_or reason BreakCalls u \<noteq> ReturnRun r t"
    for reason and u :: "'a loop_state"
    by (simp_all add: fail_or_def Let_def)
  show ?thesis using assms honest_do_finish honest_run_action no
    by (auto simp: do_call_def do_known_def Let_def split: if_splits option.splits)
qed

lemma honest_do_calls:
  "effective_reqs cfg = Some q \<Longrightarrow> do_calls cfg calls s = ReturnRun r t \<Longrightarrow> honest q r"
proof (induction calls arbitrary: s)
  case (Cons call rest)
  then show ?case using honest_do_call [OF Cons.prems(1)]
    by (auto split: call_flow.splits)
qed simp

lemma honest_wrap_up:
  assumes "effective_reqs cfg = Some q" and "wrap_up cfg reason s = (Inr r, t)"
  shows "honest q r"
proof -
  have give: "honest q r" if "give_up reason u = (Inr r, t)" for u :: "'a loop_state"
    using that by (auto simp: give_up_def honest_def)
  show ?thesis using assms
    by (auto simp: wrap_up_def Let_def intro!: honest_finish_ok honest_facts dest!: give
        split: option.splits prod.splits sum.splits list.splits if_splits)
qed

lemma honest_loop_iter:
  assumes q: "effective_reqs cfg = Some q" and "loop_iter cfg s = Stop (Inr r, t)"
  shows "honest q r"
  using assms(2) honest_wrap_up [OF q] honest_do_calls [OF q]
  by (auto simp: loop_iter_def handle_response_def fail_iter_def Let_def
      split: if_splits prod.splits sum.splits call_flow.splits)

lemma honest_run_from:
  "effective_reqs cfg = Some q \<Longrightarrow> run_from cfg i s = (Inr r, t) \<Longrightarrow> honest q r"
proof (induction cfg i s rule: run_from.induct)
  case (1 cfg i s)
  show ?case
  proof (cases "lc_max_iterations cfg = 0 \<or> int i < lc_max_iterations cfg")
    case True
    then show ?thesis using "1.IH" [OF True] "1.prems" honest_loop_iter [OF "1.prems"(1)]
      by (auto simp: run_from.simps [of cfg i s] split: iter_flow.splits)
  next
    case False
    then have "out_of_steps cfg s = (Inr r, t)" using "1.prems"(2) by (simp add: run_from.simps [of cfg i s])
    then show ?thesis using honest_wrap_up [OF "1.prems"(1)]
      by (auto simp: out_of_steps_def honest_def split: if_splits)
  qed
qed

section \<open>Every call is answered\<close>

definition answers_call :: "tool_call \<Rightarrow> message \<Rightarrow> bool" where
  "answers_call c m \<longleftrightarrow> m_role m = RoleTool \<and> m_tool_call_id m = tc_id c"

abbreviation answers_for :: "tool_call list \<Rightarrow> message list \<Rightarrow> bool" where
  "answers_for calls ms \<equiv> list_all2 answers_call calls ms"

text \<open>Each assistant message that calls tools is followed by the answers, in order, and there are no others.\<close>

fun wf_transcript :: "message list \<Rightarrow> bool" where
  "wf_transcript [] = True"
| "wf_transcript (m # ms) =
     (if has_calls m
      then answers_for (m_tool_calls m) (take (length (m_tool_calls m)) ms) \<and>
           wf_transcript (drop (length (m_tool_calls m)) ms)
      else m_role m \<noteq> RoleTool \<and> wf_transcript ms)"

lemma answers_for_length: "answers_for calls ms \<Longrightarrow> length ms = length calls"
  by (simp add: list_all2_lengthD)

lemma wf_transcript_answered:
  "has_calls m \<Longrightarrow> answers_for (m_tool_calls m) ms \<Longrightarrow> wf_transcript rest \<Longrightarrow> wf_transcript (m # ms @ rest)"
  by (simp add: answers_for_length)

lemma wf_transcript_append: "wf_transcript xs \<Longrightarrow> wf_transcript ys \<Longrightarrow> wf_transcript (xs @ ys)"
proof (induction xs rule: wf_transcript.induct)
  case (2 m ms)
  show ?case
  proof (cases "has_calls m")
    case True
    let ?n = "length (m_tool_calls m)"
    have a: "answers_for (m_tool_calls m) (take ?n ms)" "wf_transcript (drop ?n ms)"
      using "2.prems" True by simp_all
    have "wf_transcript (m # take ?n ms @ (drop ?n ms @ ys))"
      using True a "2.IH"(1) [OF True a(2)] "2.prems"(2) by (intro wf_transcript_answered) auto
    then show ?thesis by (metis append.assoc append_Cons append_take_drop_id)
  qed (use 2 in auto)
qed simp

lemma answers_for_answer_rest: "answers_for calls (answer_rest c calls)"
  by (auto simp: answer_rest_def answers_call_def answer_def list_all2_conv_all_nth)

lemma answers_call_answer [simp]: "answers_call call (answer call c)"
  by (simp add: answers_call_def answer_def)

text \<open>What one call adds to the transcript.\<close>

definition adds :: "'w loop_state \<Rightarrow> 'w loop_state \<Rightarrow> tool_call list \<Rightarrow> bool" where
  "adds s t calls \<longleftrightarrow> (\<exists>ms. ls_messages t = ls_messages s @ ms \<and> answers_for calls ms)"

fun flow_adds :: "tool_call \<Rightarrow> tool_call list \<Rightarrow> 'w loop_state \<Rightarrow> 'w call_flow \<Rightarrow> bool" where
  "flow_adds call rest s (NextCall t) = adds s t [call]"
| "flow_adds call rest s (BreakCalls t) = adds s t (call # rest)"
| "flow_adds call rest s (WrapUpWith reason t) = (adds s t [call] \<or> adds s t (call # rest))"
| "flow_adds call rest s (ReturnRun r t) = True"

lemma adds_say_one: "ls_messages t = ls_messages s \<Longrightarrow> adds s (say [answer call c] t) [call]"
  by (simp add: adds_def)

lemma adds_say_all: "ls_messages t = ls_messages s \<Longrightarrow> adds s (say (answer call c # answer_rest d rest) t) (call # rest)"
  by (simp add: adds_def answers_for_answer_rest)

lemma adds_cong: "ls_messages u = ls_messages t \<Longrightarrow> adds s u calls = adds s t calls"
  by (simp add: adds_def)

lemma flow_adds_fail_next: "adds s t [call] \<Longrightarrow> flow_adds call rest s (fail_or reason NextCall t)"
  by (simp add: fail_or_def Let_def adds_cong [of "count_failure t" t])

lemma flow_adds_fail_break: "adds s t (call # rest) \<Longrightarrow> flow_adds call rest s (fail_or reason BreakCalls t)"
  by (simp add: fail_or_def Let_def adds_cong [of "count_failure t" t])

lemma flow_adds_do_finish: "flow_adds call rest s (do_finish cfg call rest s)"
proof (cases "effective_reqs cfg")
  case None
  then show ?thesis by (simp add: do_finish_def Let_def)
next
  case (Some q)
  then show ?thesis
    by (cases "finish_check (tc_args call) q (ls_records s)")
      (auto simp: do_finish_def Let_def intro!: adds_say_all split: bool.split)
qed

lemma flow_adds_run_action:
  assumes "ls_messages s = ls_messages s0"
  shows "flow_adds call rest s0 (run_action action call rest s)"
proof -
  obtain out err s1 where inv: "invoke_action action call s = ((out, err), s1)"
    by (metis surj_pair)
  have m: "ls_messages s1 = ls_messages s0" using invoke_action_fields(8) [OF inv] assms by simp
  then show ?thesis
    by (auto simp: run_action_def inv after_invoke_def Let_def intro!: adds_say_one flow_adds_fail_next
        split: option.split)
qed

lemma flow_adds_do_call: "flow_adds call rest s (do_call cfg call rest s)"
  by (auto simp: do_call_def do_known_def Let_def flow_adds_do_finish
      intro!: adds_say_one adds_say_all flow_adds_fail_next flow_adds_fail_break flow_adds_run_action
      split: option.split)

text \<open>The whole walk: all calls answered, or, on the way to a wrap-up, the first few.\<close>

lemma do_calls_adds:
  "case do_calls cfg calls s of
     NextCall t \<Rightarrow> False
   | BreakCalls t \<Rightarrow> adds s t calls
   | WrapUpWith reason t \<Rightarrow> \<exists>k. adds s t (take k calls)
   | ReturnRun r t \<Rightarrow> True"
proof (induction calls arbitrary: s)
  case Nil
  then show ?case by (simp add: adds_def)
next
  case (Cons call rest)
  have f: "flow_adds call rest s (do_call cfg call rest s)" by (rule flow_adds_do_call)
  show ?case
  proof (cases "do_call cfg call rest s")
    case (NextCall s1)
    then obtain m where m: "ls_messages s1 = ls_messages s @ [m]" "answers_call call m"
      using f by (auto simp: adds_def list_all2_Cons1)
    have grow: "adds s t (call # cs)" if "adds s1 t cs" for t cs
      using that m by (auto simp: adds_def)
    show ?thesis using Cons.IH [of s1] NextCall grow
      by (auto split: call_flow.splits) (metis take_Suc_Cons)
  next
    case (WrapUpWith reason t)
    then have "adds s t [call] \<or> adds s t (call # rest)" using f by simp
    then have "\<exists>k. adds s t (take k (call # rest))"
    proof
      assume "adds s t [call]"
      then show ?thesis by (intro exI [of _ 1]) simp
    next
      assume "adds s t (call # rest)"
      then show ?thesis by (intro exI [of _ "Suc (length rest)"]) simp
    qed
    then show ?thesis using WrapUpWith by simp
  qed (use f in auto)
qed

section \<open>Answering what is left open\<close>

lemma no_calls_of_answers: "answers_for calls ms \<Longrightarrow> m \<in> set ms \<Longrightarrow> \<not> has_calls m \<and> m_role m = RoleTool"
  by (auto simp: list_all2_conv_all_nth in_set_conv_nth answers_call_def has_calls_def)

lemma takeWhile_no_calls: "\<forall>m \<in> set ms. \<not> has_calls m \<Longrightarrow> has_calls a \<Longrightarrow>
    takeWhile (\<lambda>m. \<not> has_calls m) (rev (pre @ a # ms)) = rev ms \<and>
    dropWhile (\<lambda>m. \<not> has_calls m) (rev (pre @ a # ms)) = a # rev pre"
  by (simp add: takeWhile_append dropWhile_append)

lemma answers_ids: "answers_for calls ms \<Longrightarrow> map m_tool_call_id ms = map tc_id calls"
  by (induction calls ms rule: list_all2_induct) (auto simp: answers_call_def)

lemma answer_open_calls_at:
  assumes a: "has_calls a" "m_tool_calls a = calls" and ms: "answers_for done ms"
    and tail: "\<forall>m \<in> set tail. \<not> has_calls m \<and> m_role m \<noteq> RoleTool"
  shows "answer_open_calls (pre @ a # ms @ tail) =
    (pre @ a # ms @ tail) @ map (\<lambda>call. answer call ''not run: the reply is wrapping up'')
      (filter (\<lambda>call. tc_id call \<notin> tc_id ` set done) calls)"
proof -
  have no: "\<forall>m \<in> set (ms @ tail). \<not> has_calls m" using no_calls_of_answers [OF ms] tail by auto
  have "{x. (x \<in> set ms \<or> x \<in> set tail) \<and> m_role x = RoleTool} = set ms"
    using no_calls_of_answers [OF ms] tail by auto
  moreover have "m_tool_call_id ` set ms = tc_id ` set done"
    using answers_ids [OF ms] by (metis list.set_map)
  ultimately have ids: "m_tool_call_id ` {x. (x \<in> set ms \<or> x \<in> set tail) \<and> m_role x = RoleTool} = tc_id ` set done"
    by simp
  show ?thesis using takeWhile_no_calls [OF no a(1), of pre] a(2)
    by (simp add: answer_open_calls_def Let_def ids del: rev_append)
qed

text \<open>With no call left open there is nothing to add.\<close>

lemma wf_transcript_cases:
  assumes "wf_transcript msgs"
  shows "(\<forall>m \<in> set msgs. \<not> has_calls m) \<or>
    (\<exists>pre a ms tail. msgs = pre @ a # ms @ tail \<and> has_calls a \<and> answers_for (m_tool_calls a) ms \<and>
       (\<forall>m \<in> set tail. \<not> has_calls m \<and> m_role m \<noteq> RoleTool))"
  using assms
proof (induction msgs rule: wf_transcript.induct)
  case (2 m ms)
  show ?case
  proof (cases "has_calls m")
    case False
    then have "wf_transcript ms" using "2.prems" by simp
    from "2.IH"(2) [OF False this] show ?thesis
    proof
      assume "\<exists>pre a as tail. ms = pre @ a # as @ tail \<and> has_calls a \<and> answers_for (m_tool_calls a) as \<and>
         (\<forall>m \<in> set tail. \<not> has_calls m \<and> m_role m \<noteq> RoleTool)"
      then show ?thesis by (metis append_Cons)
    qed (use False in simp)
  next
    case True
    let ?n = "length (m_tool_calls m)"
    have a: "answers_for (m_tool_calls m) (take ?n ms)" "wf_transcript (drop ?n ms)"
      using "2.prems" True by simp_all
    from "2.IH"(1) [OF True a(2)] show ?thesis
    proof
      assume "\<exists>pre b as tail. drop ?n ms = pre @ b # as @ tail \<and> has_calls b \<and> answers_for (m_tool_calls b) as \<and>
         (\<forall>m \<in> set tail. \<not> has_calls m \<and> m_role m \<noteq> RoleTool)"
      then obtain pre b as tail where d: "drop ?n ms = pre @ b # as @ tail" "has_calls b"
        "answers_for (m_tool_calls b) as" "\<forall>m \<in> set tail. \<not> has_calls m \<and> m_role m \<noteq> RoleTool"
        by blast
      then have "m # ms = (m # take ?n ms @ pre) @ b # as @ tail"
        by (metis append.assoc append_Cons append_take_drop_id)
      then show ?thesis using d by blast
    next
      assume none: "\<forall>x \<in> set (drop ?n ms). \<not> has_calls x"
      have "wf_transcript ys \<Longrightarrow> \<forall>x \<in> set ys. \<not> has_calls x \<Longrightarrow> \<forall>x \<in> set ys. m_role x \<noteq> RoleTool" for ys
        by (induction ys) auto
      then have "\<forall>x \<in> set (drop ?n ms). \<not> has_calls x \<and> m_role x \<noteq> RoleTool" using a(2) none by blast
      then show ?thesis using True a(1)
        by (intro disjI2 exI [of _ "[]"] exI [of _ m] exI [of _ "take ?n ms"] exI [of _ "drop ?n ms"]) auto
    qed
  qed
qed simp

lemma answer_open_calls_wf: "wf_transcript msgs \<Longrightarrow> answer_open_calls msgs = msgs"
proof -
  assume "wf_transcript msgs"
  from wf_transcript_cases [OF this] show ?thesis
  proof
    assume "\<forall>m \<in> set msgs. \<not> has_calls m"
    then have none: "dropWhile (\<lambda>m. \<not> has_calls m) (rev msgs) = []" by simp
    show ?thesis by (simp only: answer_open_calls_def Let_def none list.case)
  next
    assume "\<exists>pre a ms tail. msgs = pre @ a # ms @ tail \<and> has_calls a \<and> answers_for (m_tool_calls a) ms \<and>
       (\<forall>m \<in> set tail. \<not> has_calls m \<and> m_role m \<noteq> RoleTool)"
    then obtain pre a ms tail where d: "msgs = pre @ a # ms @ tail" "has_calls a"
      "answers_for (m_tool_calls a) ms" "\<forall>m \<in> set tail. \<not> has_calls m \<and> m_role m \<noteq> RoleTool"
      by blast
    show ?thesis unfolding d(1) answer_open_calls_at [OF d(2) refl d(3) d(4)]
      by (simp add: filter_False)
  qed
qed

text \<open>A response cut short after its first \<open>k\<close> calls is completed.\<close>

lemma answer_open_calls_partial:
  assumes pre: "wf_transcript pre" and a: "has_calls a" "m_tool_calls a = calls"
    and d: "distinct (map tc_id calls)" and ms: "answers_for (take k calls) ms"
  shows "wf_transcript (answer_open_calls (pre @ a # ms))"
proof -
  have disj: "tc_id ` set (take k calls) \<inter> tc_id ` set (drop k calls) = {}"
    using d by (metis append_take_drop_id distinct_append list.set_map map_append)
  have "filter (\<lambda>call. tc_id call \<notin> tc_id ` set (take k calls)) (take k calls @ drop k calls) = drop k calls"
    using disj by (simp only: filter_append) (auto simp: filter_id_conv filter_False)
  then have "answer_open_calls (pre @ a # ms) =
      pre @ a # (ms @ answer_rest ''not run: the reply is wrapping up'' (drop k calls)) @ []"
    using answer_open_calls_at [OF a ms, of "[]" pre] by (simp add: answer_rest_def)
  moreover have "answers_for calls (ms @ answer_rest ''not run: the reply is wrapping up'' (drop k calls))"
    using list_all2_appendI [OF ms answers_for_answer_rest [of "drop k calls"]] by simp
  ultimately show ?thesis using a
    by (metis pre wf_transcript.simps(1) wf_transcript_answered wf_transcript_append)
qed

section \<open>Every transcript sent is well formed\<close>

text \<open>The documented behaviour of a provider the wrap-up relies on: the calls of one response have ids of their own.\<close>

definition distinct_call_ids :: "'w llm_env \<Rightarrow> bool" where
  "distinct_call_ids env \<longleftrightarrow>
     (\<forall>p \<in> set (le_llms env). \<forall>msgs specs w resp w'. p msgs specs w = (Inr resp, w') \<longrightarrow> distinct (map tc_id (lr_tool_calls resp)))"

definition sent_ok :: "'w loop_state \<Rightarrow> bool" where
  "sent_ok s \<longleftrightarrow> (\<forall>ms \<in> set (ls_sent s). wf_transcript ms)"

lemma call_with_retry_from:
  "call_with_retry env msgs specs i p left bo b w = (Inr resp, b', w') \<Longrightarrow> \<exists>v v'. p msgs specs v = (Inr resp, v')"
  by (induction env msgs specs i p left bo b w rule: call_with_retry.induct)
    (auto simp: Let_def split: prod.splits sum.splits if_splits bool.splits)

lemma call_providers_from:
  "call_providers env msgs specs i ps e b w = (Inr resp, b', w') \<Longrightarrow> \<exists>p \<in> set ps. \<exists>v v'. p msgs specs v = (Inr resp, v')"
  by (induction env msgs specs i ps e b w rule: call_providers.induct)
    (auto split: prod.splits sum.splits if_splits dest: call_with_retry_from)

lemma ask_model_ids:
  "distinct_call_ids (lc_env cfg) \<Longrightarrow> ask_model cfg msgs specs s = (Inr resp, s1) \<Longrightarrow> distinct (map tc_id (lr_tool_calls resp))"
  by (auto simp: ask_model_def call_llm_def distinct_call_ids_def split: prod.splits if_splits dest!: call_providers_from) blast

lemma wf_transcript_plain: "\<forall>m \<in> set ms. \<not> has_calls m \<and> m_role m \<noteq> RoleTool \<Longrightarrow> wf_transcript ms"
  by (induction ms) auto

lemma has_calls_made [simp]:
  "\<not> has_calls (internal_user c)" "m_role (internal_user c) = RoleUser"
  "has_calls (assistant_message c calls i) = (calls \<noteq> [])" "m_role (assistant_message c calls i) = RoleAssistant"
  "m_tool_calls (assistant_message c calls i) = calls"
  by (simp_all add: has_calls_def internal_user_def plain_message_def assistant_message_def)

lemma sent_ok_wrap_up:
  assumes "sent_ok s" and "wf_transcript (answer_open_calls (ls_messages s))"
  shows "sent_ok (snd (wrap_up cfg reason s))"
proof (cases "find_action cfg finish_action_name")
  case None
  then show ?thesis using assms by (simp add: wrap_up_def give_up_def)
next
  case (Some fin)
  let ?m = "answer_open_calls (ls_messages s) @ [internal_user wrap_up_note]"
  obtain r s1 where ask: "ask_model cfg ?m [ba_spec fin] s = (r, s1)" by fastforce
  have "wf_transcript ?m" using assms(2) by (rule wf_transcript_append) simp
  then have "sent_ok s1" using assms(1) ask_model_fields(7) [OF ask] by (auto simp: sent_ok_def)
  moreover have "sent_ok (s1\<lparr>ls_messages := ms\<rparr>) = sent_ok s1" for ms by (simp add: sent_ok_def)
  ultimately show ?thesis using Some ask
    by (auto simp: wrap_up_def Let_def give_up_def split: sum.split list.split)
qed

lemma sent_ok_wrap_up_wf: "sent_ok s \<Longrightarrow> wf_transcript (ls_messages s) \<Longrightarrow> sent_ok (snd (wrap_up cfg reason s))"
  by (rule sent_ok_wrap_up) (auto simp: answer_open_calls_wf)

lemma do_calls_transcript:
  assumes wf: "wf_transcript (ls_messages s)" and calls: "calls \<noteq> []" "distinct (map tc_id calls)"
    and s1: "s1 = say [assistant_message c calls False] s"
  shows "case do_calls cfg calls s1 of
      NextCall t \<Rightarrow> False
    | BreakCalls t \<Rightarrow> wf_transcript (ls_messages t)
    | WrapUpWith reason t \<Rightarrow> wf_transcript (answer_open_calls (ls_messages t))
    | ReturnRun r t \<Rightarrow> True"
proof -
  let ?a = "assistant_message c calls False"
  have all: "wf_transcript (ls_messages t)" if "adds s1 t calls" for t
    using that wf calls wf_transcript_append [OF wf wf_transcript_answered [of ?a _ "[]"]]
    by (auto simp: adds_def s1)
  have some: "wf_transcript (answer_open_calls (ls_messages t))" if "adds s1 t (take k calls)" for t k
    using that answer_open_calls_partial [OF wf, of ?a calls k] calls by (auto simp: adds_def s1)
  show ?thesis using do_calls_adds [where cfg = cfg and calls = calls and s = s1] all some by (auto split: call_flow.splits)
qed

lemma handle_response_transcript:
  assumes wf: "wf_transcript (ls_messages s)" and ok: "sent_ok s" and d: "distinct (map tc_id (lr_tool_calls resp))"
  shows "handle_response cfg resp s = Continue u \<Longrightarrow> wf_transcript (ls_messages u)"
    and "handle_response cfg resp s = Stop e \<Longrightarrow> sent_ok (snd e)"
proof -
  let ?c = "lr_tool_calls resp"
  let ?s1 = "say [assistant_message (lr_content resp) ?c False] s"
  have said: "wf_transcript (ls_messages s @ [assistant_message x [] True, internal_user y])" for x y
    using wf by (rule wf_transcript_append) simp
  have okt: "sent_ok (flow_state (do_calls cfg ?c ?s1))"
    using ok quiet_do_calls [where s = ?s1 and cfg = cfg and calls = ?c] by (simp add: sent_ok_def quiet_def)
  have okf: "sent_ok (count_failure (say ms s))" for ms using ok by (simp add: sent_ok_def)
  note t = do_calls_transcript [OF wf _ d refl, where c = "lr_content resp" and cfg = cfg]
  show "handle_response cfg resp s = Continue u \<Longrightarrow> wf_transcript (ls_messages u)"
    using said t by (auto simp: handle_response_def Let_def fail_iter_def split: if_splits call_flow.splits)
  show "handle_response cfg resp s = Stop e \<Longrightarrow> sent_ok (snd e)"
    using said t okt okf
    by (auto simp: handle_response_def Let_def fail_iter_def answer_open_calls_wf intro!: sent_ok_wrap_up
        split: if_splits call_flow.splits)
qed

lemma loop_iter_transcript:
  assumes ids: "distinct_call_ids (lc_env cfg)" and wf: "wf_transcript (ls_messages s)" and ok: "sent_ok s"
  shows "loop_iter cfg s = Continue u \<Longrightarrow> wf_transcript (ls_messages u) \<and> sent_ok u"
    and "loop_iter cfg s = Stop e \<Longrightarrow> sent_ok (snd e)"
proof -
  obtain r s1 where ask: "ask_model cfg (ls_messages s) (specs_of cfg) (s\<lparr>ls_progressed := False\<rparr>) = (r, s1)"
    by fastforce
  have ok1: "sent_ok s1" and wf1: "wf_transcript (ls_messages s1)"
    using ok wf ask_model_fields(6,7) [OF ask] by (auto simp: sent_ok_def)
  have sent: "ls_sent v = ls_sent t \<Longrightarrow> sent_ok t \<Longrightarrow> sent_ok v" for v t :: "'a loop_state"
    by (simp add: sent_ok_def)
  show "loop_iter cfg s = Continue u \<Longrightarrow> wf_transcript (ls_messages u) \<and> sent_ok u"
    using ask ok1 wf1 ids
    by (auto simp: loop_iter_def split: if_splits sum.splits
        dest: handle_response_transcript(1) handle_response_sent(1) ask_model_ids intro: sent)
  show "loop_iter cfg s = Stop e \<Longrightarrow> sent_ok (snd e)"
    using ask ok1 wf1 ids sent_ok_wrap_up_wf [OF ok wf]
    by (auto simp: loop_iter_def split: if_splits sum.splits
        dest: handle_response_transcript(2) ask_model_ids)
qed

lemma run_from_transcript:
  "distinct_call_ids (lc_env cfg) \<Longrightarrow> wf_transcript (ls_messages s) \<Longrightarrow> sent_ok s \<Longrightarrow> sent_ok (snd (run_from cfg i s))"
proof (induction cfg i s rule: run_from.induct)
  case (1 cfg i s)
  show ?case
  proof (cases "lc_max_iterations cfg = 0 \<or> int i < lc_max_iterations cfg")
    case True
    then show ?thesis using "1.IH" [OF True] "1.prems" loop_iter_transcript [OF "1.prems"]
      by (cases "loop_iter cfg s") (auto simp: run_from.simps [of cfg i s])
  next
    case False
    then show ?thesis using "1.prems" sent_ok_wrap_up_wf
      by (auto simp: run_from.simps [of cfg i s] out_of_steps_def)
  qed
qed

section \<open>The result's record\<close>

text \<open>A result carries the record of the run, except the one for running out of steps without a finish action.\<close>

definition carries_record :: "'w loop_end \<Rightarrow> bool" where
  "carries_record e \<longleftrightarrow> (\<forall>r. fst e = Inr r \<longrightarrow> res_status r = LoopMaxIteration \<or> res_actions r = ls_records (snd e))"

lemma carries_record_simps [simp]:
  "carries_record (give_up reason s)" "carries_record (Inl e, s)"
  by (simp_all add: carries_record_def give_up_def)

lemma carries_record_wrap_up: "carries_record (wrap_up cfg reason s)"
  by (auto simp: wrap_up_def Let_def carries_record_def give_up_def split: option.split prod.split sum.split list.split)

lemma carries_record_do_call: "do_call cfg call rest s = ReturnRun r t \<Longrightarrow> res_actions r = ls_records t"
proof -
  assume d: "do_call cfg call rest s = ReturnRun r t"
  have no: "fail_or reason NextCall u \<noteq> ReturnRun r t" "fail_or reason BreakCalls u \<noteq> ReturnRun r t"
    for reason and u :: "'a loop_state"
    by (simp_all add: fail_or_def Let_def)
  have fin: "res_actions r = ls_records t" if "do_finish cfg call rest s = ReturnRun r t"
    using that by (auto simp: do_finish_def Let_def split: option.splits prod.splits bool.splits if_splits)
  have run: "res_actions r = ls_records t" if "run_action action call rest u = ReturnRun r t" for action u
    using that by (auto simp: run_action_def after_invoke_def fail_or_def Let_def split: prod.splits option.splits if_splits)
  show ?thesis using d no fin run
    by (auto simp: do_call_def do_known_def Let_def split: if_splits option.splits)
qed

lemma carries_record_do_calls: "do_calls cfg calls s = ReturnRun r t \<Longrightarrow> res_actions r = ls_records t"
  by (induction calls arbitrary: s) (auto split: call_flow.splits dest: carries_record_do_call)

lemma carries_record_iter: "loop_iter cfg s = Stop e \<Longrightarrow> carries_record e"
  by (auto simp: loop_iter_def handle_response_def fail_iter_def Let_def carries_record_wrap_up
      carries_record_def [of "(Inr _, _)"] dest: carries_record_do_calls
      split: if_splits prod.splits sum.splits call_flow.splits)

lemma carries_record_run: "carries_record (run_from cfg i s)"
proof (induction cfg i s rule: run_from.induct)
  case (1 cfg i s)
  show ?case
  proof (cases "lc_max_iterations cfg = 0 \<or> int i < lc_max_iterations cfg")
    case True
    then show ?thesis using "1.IH" [OF True] carries_record_iter
      by (auto simp: run_from.simps [of cfg i s] split: iter_flow.splits)
  next
    case False
    then show ?thesis
      by (auto simp: run_from.simps [of cfg i s] out_of_steps_def carries_record_wrap_up carries_record_def [of "(Inr _, _)"])
  qed
qed

lemma honest_no_max:
  "effective_reqs cfg = Some q \<Longrightarrow> find_action cfg finish_action_name \<noteq> None"
  by (auto simp: effective_reqs_def split: option.splits)

text \<open>Only the endings by a finish call carry an output, and they carry the record.\<close>

lemma output_do_call: "do_call cfg call rest s = ReturnRun r t \<Longrightarrow> res_status r = LoopComplete"
  by (auto simp: do_call_def do_known_def do_finish_def run_action_def after_invoke_def fail_or_def Let_def
      split: if_splits option.splits prod.splits bool.splits)

lemma output_do_calls: "do_calls cfg calls s = ReturnRun r t \<Longrightarrow> res_status r = LoopComplete"
  by (induction calls arbitrary: s) (auto split: call_flow.splits dest: output_do_call)

lemma output_wrap_up: "wrap_up cfg reason s = (Inr r, t) \<Longrightarrow> res_output r = None \<or> res_status r = LoopComplete"
  by (auto simp: wrap_up_def Let_def give_up_def split: option.splits prod.splits sum.splits list.splits if_splits)

lemma output_run_from:
  "run_from cfg i s = (Inr r, t) \<Longrightarrow> res_output r = None \<or> res_status r = LoopComplete"
proof (induction cfg i s rule: run_from.induct)
  case (1 cfg i s)
  have it: "loop_iter cfg s = Stop (Inr r, t) \<Longrightarrow> res_output r = None \<or> res_status r = LoopComplete"
    by (auto simp: loop_iter_def handle_response_def fail_iter_def Let_def dest: output_wrap_up output_do_calls
        split: if_splits prod.splits sum.splits call_flow.splits)
  show ?case
  proof (cases "lc_max_iterations cfg = 0 \<or> int i < lc_max_iterations cfg")
    case True
    then show ?thesis using "1.IH" [OF True] "1.prems" it
      by (auto simp: run_from.simps [of cfg i s] split: iter_flow.splits)
  next
    case False
    then have "out_of_steps cfg s = (Inr r, t)" using "1.prems" by (simp add: run_from.simps [of cfg i s])
    then show ?thesis by (auto simp: out_of_steps_def dest: output_wrap_up split: if_splits)
  qed
qed

lemma complete_of_output:
  assumes "run_from cfg i s = (Inr r, t)" and "res_output r = Some a"
  shows "res_status r = LoopComplete \<and> res_actions r = ls_records t"
  using output_run_from [OF assms(1)] assms carries_record_run [of cfg i s] by (auto simp: carries_record_def)

lemma list_all2_mem_left: "list_all2 R xs ys \<Longrightarrow> x \<in> set xs \<Longrightarrow> \<exists>y \<in> set ys. R x y"
  by (induction xs ys rule: list_all2_induct) auto

lemma list_all2_mem_right: "list_all2 R xs ys \<Longrightarrow> y \<in> set ys \<Longrightarrow> \<exists>x \<in> set xs. R x y"
  by (induction xs ys rule: list_all2_induct) auto

text \<open>A transcript that ends with too few answers.\<close>

lemma not_wf_short:
  "wf_transcript pre \<Longrightarrow> has_calls a \<Longrightarrow> length ms < length (m_tool_calls a) \<Longrightarrow> \<not> wf_transcript (pre @ a # ms)"
proof (induction pre rule: wf_transcript.induct)
  case 1
  then show ?case by (auto dest!: answers_for_length)
next
  case (2 m xs)
  show ?case
  proof (cases "has_calls m")
    case True
    let ?n = "length (m_tool_calls m)"
    have le: "?n \<le> length xs" "wf_transcript (drop ?n xs)"
      using "2.prems"(1) True by (auto dest!: answers_for_length)
    then show ?thesis using "2.IH"(1) [OF True le(2) "2.prems"(2,3)] True by simp
  qed (use 2 in auto)
qed

end
