(* ===== verification/Loop_Claims.thy ===== *)
theory Loop_Claims
  imports Loop_Answers
begin

text \<open>
  The properties of the agent loop and its providers, each with a run it applies to. The small
  configurations below are agents with one model that answers from a script: the state of the
  world is the list of responses still to come.
\<close>

section \<open>Scripted agents\<close>

definition scripted :: "llm_response list llm" where
  "scripted msgs specs w = (case w of [] \<Rightarrow> (Inl (errorf ''silent''), []) | r # rs \<Rightarrow> (Inr r, rs))"

definition scripted_env :: "llm_response list llm_env" where
  "scripted_env = \<lparr>le_llms = [scripted], le_now = (\<lambda>w. 0), le_wait = (\<lambda>d w. (False, w)), le_ctx_err = (\<lambda>w. errorf [])\<rparr>"

definition empty_schema :: schema where
  "empty_schema = Schema TObject [] [] None [] []"

definition text_schema :: schema where
  "text_schema = Schema TString [] [] None [] []"

definition spec_named :: "string \<Rightarrow> bool \<Rightarrow> bool \<Rightarrow> schema \<Rightarrow> action_spec" where
  "spec_named n ro ch inp = \<lparr>as_name = n, as_description = [], as_instructions = [], as_input = inp,
     as_output = empty_schema, as_max_calls = 0, as_hidden = False, as_read_only = ro, as_changes = ch\<rparr>"

definition action_of :: "action_spec \<Rightarrow> 'w invoke \<Rightarrow> 'w bound_action" where
  "action_of sp f = \<lparr>ba_spec = sp, ba_invoke = f, ba_needs = [], ba_app = [], ba_app_name = [], ba_with = [],
     ba_declared = False, ba_limited = False\<rparr>"

definition finish_schema :: schema where
  "finish_schema = Schema TObject [] [(''outcome'', text_schema), (''content'', text_schema)] None [''content''] []"

definition send_agent :: "llm_response list loop_cfg" where
  "send_agent = \<lparr>lc_env = scripted_env, lc_max_iterations = 5,
     lc_actions = [action_of (spec_named ''send'' False True empty_schema) (\<lambda>a w. ((GStr ''sent'', None), w)),
                   action_of (spec_named ''finish'' False False finish_schema) (\<lambda>a w. ((GNil, None), w))],
     lc_requirements = Some \<lparr>rq_tools = [''send''], rq_any_change = False\<rparr>\<rparr>"

definition call_of :: "string \<Rightarrow> string \<Rightarrow> args \<Rightarrow> tool_call" where
  "call_of i n a = \<lparr>tc_id = i, tc_name = n, tc_args = a\<rparr>"

definition asks :: "tool_call list \<Rightarrow> llm_response" where
  "asks calls = \<lparr>lr_content = [], lr_tool_calls = calls, lr_reasoning = []\<rparr>"

definition done_args :: args where
  "done_args = [(''outcome'', GStr ''done''), (''content'', GStr ''ok'')]"

definition send_then_finish :: "llm_response list" where
  "send_then_finish = [asks [call_of ''a'' ''send'' []], asks [call_of ''b'' ''finish'' done_args]]"

text \<open>What evaluates a scripted run.\<close>

lemmas scripted_eval =
  send_agent_def scripted_env_def scripted_def fresh_breaker_def spec_named_def action_of_def finish_schema_def
  text_schema_def empty_schema_def call_of_def asks_def done_args_def send_then_finish_def
  loop_run_def run_from.simps init_state_def loop_iter_def ask_model_def call_llm_def llm_max_retries_def
  note_asked_def mark_up_def specs_of_def handle_response_def do_call_def do_known_def do_finish_def find_action_def
  effective_reqs_def rq_active_def has_property_def finish_action_name_def Let_def max_stale_steps_def
  max_tool_calls_per_iter_def max_same_action_calls_def repeated_def remember_def lookup_key_def change_key_def
  count_call_def over_max_calls_def run_action_def invoke_action_def after_invoke_def outcome_of_def really_done_def
  output_not_approved_def output_auth_pending_prefix_def output_timezone_pending_prefix_def is_timezone_pending_def
  has_prefix_def settle_stale_def say_def key_of_def marshal_args_def finish_check_def satisfied_def get_str_def
  outcome_done_def outcome_cannot_def outcome_need_details_def numeral_eq_Suc

lemma send_run_eval:
  "fst (loop_run send_agent fresh_breaker [] send_then_finish) =
     Inr \<lparr>res_status = LoopComplete, res_content = ''ok'', res_output = Some done_args,
          res_actions = [\<lparr>ar_name = ''send'', ar_changes = True, ar_done = True, ar_message = [], ar_reason = []\<rparr>]\<rparr>"
  by (simp add: scripted_eval receipts_def)

section \<open>The properties\<close>

text \<open>What a finish as done rests on.\<close>

lemma claimed_done_facts:
  assumes held: "effective_reqs cfg = Some q"
    and run: "fst (loop_run cfg b msgs w) = Inr r"
    and claim: "res_output r = Some a" "get_str a ''outcome'' = outcome_done"
    and words: "res_content r \<noteq> nothing_changed_message q (res_actions r)"
  shows "\<exists>n inp. (n, inp, True) \<in> set (ls_ran (snd (loop_run cfg b msgs w))) \<and>
    (if rq_tools q = [] then \<exists>act. find_action cfg n = Some act \<and> as_changes (ba_spec act) else n \<in> set (rq_tools q))"
proof -
  let ?t = "snd (loop_run cfg b msgs w)"
  have e: "run_from cfg 0 (init_state w b msgs) = (Inr r, ?t)"
    using run by (simp add: loop_run_def prod_eq_iff)
  have hon: "honest q r" using held e by (rule honest_run_from)
  have st: "res_status r = LoopComplete \<and> res_actions r = ls_records ?t"
    using complete_of_output [OF e claim(1)] .
  have "satisfied q (ls_records ?t)"
    using hon st claim words by (auto simp: honest_def outcome_done_def outcome_need_details_def outcome_cannot_def)
  then obtain rec where rec: "rec \<in> set (ls_records ?t)" "ar_done rec"
    "if rq_tools q = [] then ar_changes rec else ar_name rec \<in> set (rq_tools q)"
    by (auto simp: satisfied_def split: if_splits)
  have "records_match cfg ?t"
    by (rule matching.inv_loop_run) (simp add: records_match_def init_state_def)
  then obtain x where "x \<in> set (ls_ran ?t)" "ar_name rec = fst x" "snd (snd x)"
    "\<exists>act. find_action cfg (fst x) = Some act \<and> ar_changes rec = as_changes (ba_spec act)"
    using rec by (auto simp: records_match_def dest!: list_all2_mem_left)
  then show ?thesis using rec
    by (intro exI [of _ "fst x"] exI [of _ "fst (snd x)"]) (cases x, auto split: if_splits)
qed

text \<open>
  (C2) A turn that ends claiming the request was done really did it: when the loop is held to
  requirements and finishes with outcome \<^verbatim>\<open>done\<close>, then either the reply is the statement of
  facts, or some action that the requirements ask for (any action that changes something, when
  they name none) was invoked in this very run and went through.
\<close>

theorem claimed_done_really_happened:
  assumes held: "effective_reqs cfg = Some q"
    and run: "fst (loop_run cfg b msgs w) = Inr r"
    and claim: "res_output r = Some a" "get_str a ''outcome'' = outcome_done"
    and words: "res_content r \<noteq> nothing_changed_message q (res_actions r)"
  shows "\<exists>n inp. (n, inp, True) \<in> set (ls_ran (snd (loop_run cfg b msgs w))) \<and>
    (if rq_tools q = [] then \<exists>act. find_action cfg n = Some act \<and> as_changes (ba_spec act) else n \<in> set (rq_tools q))"
  using claimed_done_facts [OF assms] .

theorem claimed_done_really_happened_witness:
  "\<exists>n inp. (n, inp, True) \<in> set (ls_ran (snd (loop_run send_agent fresh_breaker [] send_then_finish))) \<and> n = ''send''"
proof -
  let ?q = "\<lparr>rq_tools = [''send''], rq_any_change = False\<rparr>"
  have q: "effective_reqs send_agent = Some ?q" by (simp add: scripted_eval)
  show ?thesis
    using claimed_done_really_happened [OF q send_run_eval]
    by (simp add: done_args_def get_str_def outcome_done_def nothing_changed_message_def changed_anything_def
        receipts_def)
qed

text \<open>
  (C9) A run ends, whatever the model does, and asks the model a bounded number of times: at
  most one time more than its bound on iterations, and with no bound at most 90 times for each
  action the agent has, and seven.
\<close>

theorem loop_run_model_calls:
  "int (length (ls_sent (snd (loop_run cfg b msgs w)))) \<le>
     (if 0 < lc_max_iterations cfg then lc_max_iterations cfg + 1 else 90 * int (length (action_names cfg)) + 7)"
proof (cases "0 < lc_max_iterations cfg")
  case True
  then show ?thesis using run_from_sent_bounded [of 0 cfg "init_state w b msgs"]
    by (simp add: loop_run_def init_state_def)
next
  case False
  have "length (ls_sent (snd (run_from cfg 0 (init_state w b msgs)))) \<le> fuel_left cfg (init_state w b msgs) + 2"
    using run_from_sent [of cfg 0 "init_state w b msgs"] by (simp add: init_state_def)
  then show ?thesis using False fuel_init [of cfg w b msgs] by (simp add: loop_run_def)
qed

text \<open>
  (C5) Nothing is done twice in one turn: once an action that changes something (or a look-up)
  has gone through, the run never invokes it again with the same inputs, whatever the model
  asks for. The invocations are listed in order.
\<close>

theorem nothing_done_twice:
  "sorted_wrt (\<lambda>x y. settled_call cfg x \<longrightarrow> \<not> same_call x y) (ls_ran (snd (loop_run cfg b msgs w)))"
proof -
  have "no_repeats cfg (snd (loop_run cfg b msgs w))"
    by (rule repeats.inv_loop_run) (simp add: no_repeats_def init_state_def)
  then show ?thesis by (simp add: no_repeats_def)
qed

definition send_twice :: "llm_response list" where
  "send_twice = [asks [call_of ''a'' ''send'' []], asks [call_of ''b'' ''send'' []], asks [call_of ''c'' ''finish'' done_args]]"

theorem nothing_done_twice_witness:
  "settled_call send_agent (''send'', [], True) \<and>
   sorted_wrt (\<lambda>x y. settled_call send_agent x \<longrightarrow> \<not> same_call x y)
     (ls_ran (snd (loop_run send_agent fresh_breaker [] send_twice))) \<and>
   ls_ran (snd (loop_run send_agent fresh_breaker [] send_twice)) = [(''send'', [], True)]"
proof -
  have "settled_call send_agent (''send'', [], True)"
    by (simp add: settled_call_def scripted_eval)
  moreover have "ls_ran (snd (loop_run send_agent fresh_breaker [] send_twice)) = [(''send'', [], True)]"
    by (simp add: send_twice_def scripted_eval receipts_def)
  ultimately show ?thesis using nothing_done_twice [of send_agent fresh_breaker "[]" send_twice] by simp
qed

text \<open>
  No action is used without limit: in one run each action is invoked at most fifteen times,
  and a change with a \<^verbatim>\<open>MaxCalls\<close> of its own at most that often.
\<close>

theorem uses_within_limits:
  "uses n (ls_ran (snd (loop_run cfg b msgs w))) \<le> max_same_action_calls \<and>
   (case find_action cfg n of
      None \<Rightarrow> uses n (ls_ran (snd (loop_run cfg b msgs w))) = 0
    | Some a \<Rightarrow> \<not> over_max_calls (ba_spec a) (uses n (ls_ran (snd (loop_run cfg b msgs w)))))"
proof -
  let ?t = "snd (loop_run cfg b msgs w)"
  have u: "uses_bounded cfg ?t"
    by (rule uses.inv_loop_run) (simp add: uses_bounded_def init_state_def uses_def over_max_calls_def)
  have m: "records_match cfg ?t"
    by (rule matching.inv_loop_run) (simp add: records_match_def init_state_def)
  have "uses n (ls_ran ?t) = 0" if "find_action cfg n = None"
  proof -
    have "fst x \<noteq> n" if "x \<in> set (ls_ran ?t)" for x
      using m that \<open>find_action cfg n = None\<close> by (auto simp: records_match_def dest!: list_all2_mem_right)
    then show ?thesis by (simp add: uses_def filter_empty_conv)
  qed
  then show ?thesis using u by (auto simp: uses_bounded_def split: option.split)
qed


text \<open>An agent whose model always asks for two calls at once, with ids of their own.\<close>

definition two_calls :: "unit llm" where
  "two_calls msgs specs w = (Inr (asks [call_of ''a'' ''look'' [], call_of ''b'' ''gone'' []]), ())"

definition two_calls_agent :: "unit loop_cfg" where
  "two_calls_agent = \<lparr>lc_env = \<lparr>le_llms = [two_calls], le_now = (\<lambda>w. 0), le_wait = (\<lambda>d w. (False, w)), le_ctx_err = (\<lambda>w. errorf [])\<rparr>,
     lc_max_iterations = 1,
     lc_actions = [action_of (spec_named ''look'' True False empty_schema) (\<lambda>a w. ((GNil, None), w)),
                   action_of (spec_named ''finish'' False False finish_schema) (\<lambda>a w. ((GNil, None), w))],
     lc_requirements = None\<rparr>"

lemma two_calls_ids: "distinct_call_ids (lc_env two_calls_agent)"
  by (auto simp: distinct_call_ids_def two_calls_agent_def two_calls_def asks_def call_of_def)

lemma two_calls_sent:
  "[plain_message RoleUser ''hi'', assistant_message [] [call_of ''a'' ''look'' [], call_of ''b'' ''gone'' []] False,
    answer (call_of ''a'' ''look'' []) ''null'', answer (call_of ''b'' ''gone'' []) (''unknown action '' @ go_quote ''gone''),
    internal_user wrap_up_note]
   \<in> set (ls_sent (snd (loop_run two_calls_agent fresh_breaker [plain_message RoleUser ''hi''] ())))"
  by (simp add: two_calls_agent_def two_calls_def scripted_eval wrap_up_def out_of_steps_def give_up_def fail_or_def
      count_failure_def too_many_failures_def max_consecutive_failures_def answer_open_calls_def has_calls_def
      assistant_message_def plain_message_def answer_def stringify_result_def)
    (rule rev_image_eqI [where x = "answer (call_of ''a'' ''look'' []) ''null''"], simp_all add: answer_def call_of_def)


text \<open>
  An accepted finish that is not the last call of its response leaves the calls after it
  without an answer in the messages the run returns (which the host stores as the conversation).
\<close>

theorem accepted_finish_leaves_calls_open:
  assumes "effective_reqs cfg = None" and "wf_transcript (ls_messages s)"
    and "lr_tool_calls resp = call # other # rest" and "tc_name call = finish_action_name"
    and "length (lr_tool_calls resp) \<le> max_tool_calls_per_iter"
  shows "\<exists>r t. handle_response cfg resp s = Stop (Inr r, t) \<and> res_status r = LoopComplete \<and>
     \<not> wf_transcript (ls_messages t)"
proof -
  let ?a = "assistant_message (lr_content resp) (call # other # rest) False"
  let ?t = "say [answer call ''done''] (say [?a] s)"
  have "\<exists>r. handle_response cfg resp s = Stop (Inr r, ?t) \<and> res_status r = LoopComplete"
    using assms(1,3,4,5) by (simp add: handle_response_def do_call_def do_finish_def Let_def)
  moreover have "\<not> wf_transcript (ls_messages ?t)"
    using not_wf_short [OF assms(2), of ?a "[answer call ''done'']"] by simp
  ultimately show ?thesis by blast
qed

theorem accepted_finish_leaves_calls_open_witness:
  "\<exists>r t. handle_response two_calls_agent (asks [call_of ''a'' ''finish'' done_args, call_of ''b'' ''look'' []])
      (init_state () fresh_breaker []) = Stop (Inr r, t) \<and> res_status r = LoopComplete \<and> \<not> wf_transcript (ls_messages t)"
  by (rule accepted_finish_leaves_calls_open [where call = "call_of ''a'' ''finish'' done_args" and other = "call_of ''b'' ''look'' []" and rest = "[]"])
    (simp_all add: two_calls_agent_def scripted_eval)

end
