(* ===== verification/Tool_Types.thy ===== *)
theory Tool_Types
  imports Agent_Types
begin

text \<open>
  Tools as stored and as seen by the model: \<^verbatim>\<open>domain/tool.go\<close> (the definition, the text a
  person is asked to approve), \<^verbatim>\<open>domain/tool_interface.go\<close> (the contract view and the action
  an agent's loop is given), the effect and model name of \<^verbatim>\<open>domain/tool_contract.go\<close>, and the
  rule type of \<^verbatim>\<open>domain/tool_rule.go\<close>.
\<close>

section \<open>Definitions of tools\<close>

record tool_def =
  td_id :: string
  td_name :: string
  td_function_name :: string
  td_description :: string
  td_instructions :: string
  td_integration_id :: string
  td_input :: schema
  td_output :: schema
  td_action :: string
  td_max_calls :: int
  td_requires_approval :: bool
  td_prompt_template :: string
  td_prepared :: "string list"
  td_prepared_inputs :: "(string \<times> schema) list"
  td_first :: "string list"
  td_first_any :: "string list"
  td_with :: "string list"
  td_once_for :: "string list"
  td_approval_timeout :: int
  td_read_only :: bool
  td_disabled :: bool
  td_needs_local_time :: bool

datatype effect = EffectReads | EffectChanges

definition effect_of :: "tool_def \<Rightarrow> effect" where
  "effect_of t = (if td_read_only t then EffectReads else EffectChanges)"

definition model_name :: "tool_def \<Rightarrow> string" where
  "model_name t = (if td_function_name t \<noteq> [] then td_function_name t else td_name t)"

text \<open>An input a limit may be set on (\<^verbatim>\<open>detail\<close>), and a value the prepare step adds.\<close>

definition detail :: "tool_def \<Rightarrow> string \<Rightarrow> schema option" where
  "detail t name = (case gm_get (s_properties (td_input t)) name of
     Some p \<Rightarrow> Some p | None \<Rightarrow> gm_get (td_prepared_inputs t) name)"

definition prepares :: "tool_def \<Rightarrow> string \<Rightarrow> bool" where
  "prepares t name \<longleftrightarrow> name \<in> set (td_prepared t)"

section \<open>The approval prompt\<close>

definition braced :: "string \<Rightarrow> string" where
  "braced key = ''{{'' @ key @ ''}}''"

definition fill_prompt :: "args \<Rightarrow> string \<Rightarrow> string" where
  "fill_prompt input prompt = fold (\<lambda>(k, v) p. replace_all (braced k) (sprint v) p) input prompt"

definition line_break :: char where "line_break = CHR 0x0A"

definition drop_unfilled :: "string \<Rightarrow> string" where
  "drop_unfilled prompt =
     (if contains_str prompt ''{{''
      then join [line_break] (filter (\<lambda>l. \<not> contains_str l ''{{'') (split_char line_break prompt))
      else prompt)"

definition render_approval_prompt :: "tool_def \<Rightarrow> args \<Rightarrow> string" where
  "render_approval_prompt t input =
     drop_unfilled (fill_prompt input (if td_prompt_template t = [] then td_description t else td_prompt_template t))"

section \<open>The contract view of a tool\<close>

record approval =
  ap_required :: bool
  ap_prompt_template :: string
  ap_timeout :: int

record tool_spec =
  ts_id :: string
  ts_source_id :: string
  ts_name :: string
  ts_title :: string
  ts_description :: string
  ts_instructions :: string
  ts_input :: schema
  ts_output :: schema
  ts_effect :: effect
  ts_approval :: approval
  ts_max_calls :: int

definition spec_of_tool :: "tool_def \<Rightarrow> tool_spec" where
  "spec_of_tool t = \<lparr>ts_id = td_id t, ts_source_id = td_integration_id t, ts_name = model_name t, ts_title = td_name t,
     ts_description = td_description t, ts_instructions = td_instructions t, ts_input = td_input t, ts_output = td_output t,
     ts_effect = effect_of t,
     ts_approval = \<lparr>ap_required = td_requires_approval t, ap_prompt_template = td_prompt_template t, ap_timeout = td_approval_timeout t\<rparr>,
     ts_max_calls = td_max_calls t\<rparr>"

text \<open>A bound tool: its contract view and what runs it; and the action the loop is given.\<close>

record 'w bound_tool =
  bt_spec :: tool_spec
  bt_invoke :: "'w invoke"

definition action_of_tool :: "'w bound_tool \<Rightarrow> 'w bound_action" where
  "action_of_tool t = (let s = bt_spec t in
     \<lparr>ba_spec = \<lparr>as_name = ts_name s, as_description = ts_description s, as_instructions = ts_instructions s,
        as_input = ts_input s, as_output = ts_output s, as_max_calls = ts_max_calls s, as_hidden = False,
        as_read_only = (ts_effect s = EffectReads), as_changes = (ts_effect s = EffectChanges)\<rparr>,
      ba_invoke = bt_invoke t, ba_needs = [], ba_app = [], ba_app_name = [], ba_with = [], ba_declared = False, ba_limited = False\<rparr>)"

section \<open>Rules\<close>

text \<open>\<open>RuleOther\<close> is any other string in a stored rule's kind.\<close>

datatype rule_kind = RuleMax | RuleMaxProduct | RuleMin | RuleOneOf | RuleNoneOf | RuleFixed | RuleDefault | RuleOther string

record tool_rule =
  tr_id :: string
  tr_tool_id :: string
  tr_input :: string
  tr_with :: string
  tr_kind :: rule_kind
  tr_value :: goval
  tr_message :: string

section \<open>Connections and the identities they run with\<close>

text \<open>
  \<^verbatim>\<open>domain/identity.go\<close> and \<^verbatim>\<open>domain/integration.go\<close>; \<open>in_own\<close> says that the integration has
  a \<^verbatim>\<open>Source\<close> (a creator built it).
\<close>

record identity =
  id_id :: string
  id_integration :: string
  id_name :: string
  id_kind :: string
  id_app_id :: string
  id_credential_ref :: string
  id_webhook_secret_ref :: string
  id_created_by :: string

definition identity_kind_token :: "string" where
  "identity_kind_token = ''token''"

record integration =
  in_id :: string
  in_name :: string
  in_service :: string
  in_description :: string
  in_kind :: string
  in_created_by :: string
  in_own :: bool

section \<open>What holds of the approval prompt\<close>

lemma has_prefix_two: "has_prefix s [a, b] \<longleftrightarrow> (\<exists>t. s = a # b # t)"
  by (cases s; cases "tl s") (auto simp: has_prefix_def)

lemma contains_brace_append:
  assumes "contains_str (a @ line_break # b) ''{{''"
  shows "contains_str a ''{{'' \<or> contains_str b ''{{''"
  using assms
proof (induction a)
  case Nil
  then show ?case by (auto simp: has_prefix_two line_break_def)
next
  case (Cons c a)
  then show ?case
    by (cases a) (auto simp: has_prefix_two line_break_def)
qed

lemma contains_brace_join:
  "contains_str (join [line_break] ls) ''{{'' \<Longrightarrow> \<exists>l \<in> set ls. contains_str l ''{{''"
proof (induction "[line_break]" ls rule: join.induct)
  case (3 x y xs)
  then have "contains_str (x @ line_break # join [line_break] (y # xs)) ''{{''" by simp
  from contains_brace_append [OF this] show ?case using 3(1) by auto
qed auto

lemma drop_unfilled_clean: "\<not> contains_str (drop_unfilled p) ''{{''"
  by (auto simp: drop_unfilled_def dest!: contains_brace_join)

end
