(* ===== verification/Tool_Contract.thy ===== *)
theory Tool_Contract
  imports Tool_Types
begin

text \<open>
  What every tool has to be when it is registered (\<^verbatim>\<open>domain/tool_contract.go\<close>): the checks of
  \<^verbatim>\<open>ValidateTool\<close>, the ones over the tools of a source, and what the two regular expressions
  accept. A list of problems is the error \<^verbatim>\<open>errors.Join\<close> makes of them; none is \<^verbatim>\<open>nil\<close>.
\<close>

section \<open>Names the model may call\<close>

definition is_letter :: "char \<Rightarrow> bool" where
  "is_letter c \<longleftrightarrow> (65 \<le> byte c \<and> byte c \<le> 90) \<or> (97 \<le> byte c \<and> byte c \<le> 122)"

definition is_name_char :: "char \<Rightarrow> bool" where
  "is_name_char c \<longleftrightarrow> is_letter c \<or> is_digit c \<or> c = CHR ''_'' \<or> c = CHR ''-''"

definition max_tool_name_len :: nat where "max_tool_name_len = 64"
definition max_tool_description_len :: nat where "max_tool_description_len = 1024"

text \<open>\<^verbatim>\<open>^[A-Za-z][A-Za-z0-9_-]{0,63}$\<close>\<close>

definition tool_name_ok :: "string \<Rightarrow> bool" where
  "tool_name_ok s = (case s of [] \<Rightarrow> False
     | c # cs \<Rightarrow> is_letter c \<and> length cs \<le> 63 \<and> (\<forall>d \<in> set cs. is_name_char d))"

section \<open>Fields of an approval prompt\<close>

text \<open>
  \<^verbatim>\<open>\{\{\s*([^{}\s]+)\s*\}\}\<close> at the start of the text: the field's name and what follows.
  \<^verbatim>\<open>\s\<close> is a space, tab, line feed, form feed or carriage return.
\<close>

definition re_space :: "char \<Rightarrow> bool" where
  "re_space c \<longleftrightarrow> c \<in> {CHR '' '', CHR 0x09, CHR 0x0A, CHR 0x0C, CHR 0x0D}"

definition field_char :: "char \<Rightarrow> bool" where
  "field_char c \<longleftrightarrow> c \<noteq> CHR ''{'' \<and> c \<noteq> CHR ''}'' \<and> \<not> re_space c"

definition prompt_field :: "string \<Rightarrow> (string \<times> string) option" where
  "prompt_field s =
     (if \<not> has_prefix s ''{{'' then None
      else let body = dropWhile re_space (drop 2 s);
               name = takeWhile field_char body;
               rest = dropWhile re_space (dropWhile field_char body)
           in if name = [] \<or> \<not> has_prefix rest ''}}'' then None else Some (name, drop 2 rest))"

lemma length_dropWhile: "length (dropWhile P xs) \<le> length xs"
  by (induction xs) auto

lemma prompt_field_shorter: "prompt_field s = Some (n, rest) \<Longrightarrow> length rest < length s"
proof -
  assume a: "prompt_field s = Some (n, rest)"
  let ?body = "dropWhile re_space (drop 2 s)"
  let ?rest = "dropWhile re_space (dropWhile field_char ?body)"
  have "has_prefix s ''{{''" "rest = drop 2 ?rest"
    using a by (auto simp: prompt_field_def Let_def split: if_splits)
  moreover have "length ?rest \<le> length (drop 2 s)"
    by (meson length_dropWhile order_trans)
  ultimately show ?thesis by (auto simp: has_prefix_two)
qed

text \<open>\<^verbatim>\<open>FindAllStringSubmatch\<close>: the first match from the left, and then on from behind it.\<close>

function prompt_fields :: "string \<Rightarrow> string list" where
  "prompt_fields [] = []"
| "prompt_fields (c # s) =
     (case prompt_field (c # s) of
        Some (n, rest) \<Rightarrow> n # prompt_fields rest
      | None \<Rightarrow> prompt_fields s)"
  by pat_completeness auto
termination
  by (relation "measure length") (auto dest: prompt_field_shorter)

section \<open>The checks\<close>

definition tool_problem :: "string \<Rightarrow> string \<Rightarrow> string" where
  "tool_problem tool msg = ''tool '' @ go_quote tool @ '': '' @ msg"

definition unless :: "bool \<Rightarrow> string \<Rightarrow> string list" where
  "unless ok msg = (if ok then [] else [msg])"

lemma unless_Nil [simp]: "unless ok msg = [] \<longleftrightarrow> ok"
  by (simp add: unless_def)

definition description_problem :: "string \<Rightarrow> string list" where
  "description_problem description =
     (let d = trim_space description in
      if d = [] then [''has no description, so the model can't tell when to use it'']
      else if max_tool_description_len < length d
      then [''description is '' @ itoa (int (length d)) @ '' characters; the most allowed is '' @ itoa (int max_tool_description_len)]
      else [])"

definition name_problem :: "string \<Rightarrow> string list" where
  "name_problem name = unless (tool_name_ok name)
     (''the name the model sees, '' @ go_quote name @
      '', must start with a letter and use only letters, digits, _ and - (at most '' @ itoa (int max_tool_name_len) @ '' characters)'')"

definition undeclared_required :: "schema \<Rightarrow> string list" where
  "undeclared_required s = concat (map (\<lambda>r. unless (gm_get (s_properties s) r \<noteq> None)
     (''requires input '' @ go_quote r @ '', which it doesn't declare'')) (s_required s))"

definition untyped_inputs :: "schema \<Rightarrow> string list" where
  "untyped_inputs s = concat (map (\<lambda>n. unless (map_option s_type (gm_get (s_properties s) n) \<noteq> Some (TOther []))
     (''input '' @ go_quote n @ '' has no type'')) (sort (gm_keys (s_properties s))))"

definition unknown_fields :: "tool_def \<Rightarrow> string list" where
  "unknown_fields t = concat (map (\<lambda>n. unless (gm_get (s_properties (td_input t)) n \<noteq> None \<or> prepares t n)
     (''approval prompt mentions '' @ braced n @ '', which the tool doesn't take'')) (prompt_fields (td_prompt_template t)))"

definition tool_problems :: "tool_def \<Rightarrow> string list" where
  "tool_problems t =
     unless (trim_space (td_id t) \<noteq> []) ''has no ID'' @
     unless (trim_space (td_integration_id t) \<noteq> []) ''belongs to no integration'' @
     name_problem (model_name t) @
     description_problem (td_description t) @
     unless (trim_space (td_action t) \<noteq> []) ''has no action for its executor'' @
     unless (s_type (td_input t) = TObject) (''input schema must be an object, not '' @ go_quote (type_name (s_type (td_input t)))) @
     undeclared_required (td_input t) @
     untyped_inputs (td_input t) @
     unless (0 \<le> td_approval_timeout t) ''approval timeout can't be negative'' @
     unless (0 \<le> td_max_calls t) ''max calls can't be negative'' @
     (if td_requires_approval t then unknown_fields t else [])"

definition validate_tool :: "tool_def \<Rightarrow> string list" where
  "validate_tool t = map (tool_problem (td_id t)) (tool_problems t)"

text \<open>
  \<^verbatim>\<open>ValidateTools\<close>: the ids seen, and for each name (with its integration) the tool that had it
  last.
\<close>

definition scoped_name :: "tool_def \<Rightarrow> string" where
  "scoped_name t = td_integration_id t @ ''/'' @ model_name t"

fun validate_from :: "string list \<Rightarrow> string gomap \<Rightarrow> tool_def list \<Rightarrow> string list" where
  "validate_from ids names [] = []"
| "validate_from ids names (t # ts) =
     validate_tool t @
     (if td_id t \<in> set ids then [tool_problem (td_id t) ''ID is used by more than one tool''] else []) @
     (case gm_get names (scoped_name t) of
        None \<Rightarrow> []
      | Some other \<Rightarrow> [tool_problem (td_id t) (''has the same name as '' @ go_quote other @ '' within its integration'')]) @
     validate_from (td_id t # ids) (gm_set (scoped_name t) (td_id t) names) ts"

definition validate_tools :: "tool_def list \<Rightarrow> string list" where
  "validate_tools ts = validate_from [] [] ts"

section \<open>What a valid tool is\<close>

definition valid_tool :: "tool_def \<Rightarrow> bool" where
  "valid_tool t \<longleftrightarrow>
     trim_space (td_id t) \<noteq> [] \<and> trim_space (td_integration_id t) \<noteq> [] \<and> tool_name_ok (model_name t) \<and>
     trim_space (td_description t) \<noteq> [] \<and> length (trim_space (td_description t)) \<le> max_tool_description_len \<and>
     trim_space (td_action t) \<noteq> [] \<and> s_type (td_input t) = TObject \<and>
     (\<forall>r \<in> set (s_required (td_input t)). has_property (td_input t) r) \<and>
     (\<forall>n p. gm_get (s_properties (td_input t)) n = Some p \<longrightarrow> s_type p \<noteq> TOther []) \<and>
     0 \<le> td_approval_timeout t \<and> 0 \<le> td_max_calls t \<and>
     (td_requires_approval t \<longrightarrow>
        (\<forall>n \<in> set (prompt_fields (td_prompt_template t)). has_property (td_input t) n \<or> prepares t n))"

lemma description_ok:
  "description_problem d = [] \<longleftrightarrow> trim_space d \<noteq> [] \<and> length (trim_space d) \<le> max_tool_description_len"
  by (auto simp: description_problem_def Let_def)

lemma untyped_ok: "untyped_inputs s = [] \<longleftrightarrow> (\<forall>n p. gm_get (s_properties s) n = Some p \<longrightarrow> s_type p \<noteq> TOther [])"
proof -
  have "untyped_inputs s = [] \<longleftrightarrow> (\<forall>n \<in> set (gm_keys (s_properties s)). map_option s_type (gm_get (s_properties s) n) \<noteq> Some (TOther []))"
    by (auto simp: untyped_inputs_def)
  then show ?thesis by (auto dest: gm_get_in_keys)
qed

lemma validate_tool_iff: "validate_tool t = [] \<longleftrightarrow> valid_tool t"
  unfolding validate_tool_def tool_problems_def valid_tool_def name_problem_def undeclared_required_def unknown_fields_def
    has_property_def map_is_Nil_conv append_is_Nil_conv unless_Nil description_ok untyped_ok
  by auto

lemma validate_from_iff:
  "validate_from ids names ts = [] \<longleftrightarrow>
     (\<forall>t \<in> set ts. valid_tool t) \<and> distinct (map td_id ts) \<and> td_id ` set ts \<inter> set ids = {} \<and>
     distinct (map scoped_name ts) \<and> (\<forall>t \<in> set ts. gm_get names (scoped_name t) = None)"
proof (induction ts arbitrary: ids names)
  case Nil
  then show ?case by simp
next
  case (Cons t ts)
  show ?case
    by (simp add: Cons.IH validate_tool_iff split: option.split) (auto simp: image_iff)
qed

lemma validate_tools_iff:
  "validate_tools ts = [] \<longleftrightarrow> (\<forall>t \<in> set ts. valid_tool t) \<and> distinct (map td_id ts) \<and> distinct (map scoped_name ts)"
  by (simp add: validate_tools_def validate_from_iff)

end
