(* ===== verification/Catalog.thy ===== *)
theory Catalog
  imports Tool_Contract
begin

text \<open>
  The catalog of what agents can use (\<^verbatim>\<open>domain/catalog.go\<close>): integrations, the identities they
  run with and their tools, each keyed by id. A source is added as one step: what the catalog held
  for its integration goes, what keeps the tool contract comes in.
\<close>

section \<open>The catalog and its sources\<close>

record catalog =
  cg_tools :: "tool_def gomap"
  cg_integrations :: "integration gomap"
  cg_identities :: "identity gomap"

record tool_source =
  src_integration :: "integration option"
  src_identities :: "identity list"
  src_tools :: "tool_def list"

definition new_catalog :: catalog where
  "new_catalog = \<lparr>cg_tools = [], cg_integrations = [], cg_identities = []\<rparr>"

section \<open>What a source may register\<close>

text \<open>The loop over the tools of the source: the ones kept, and the problems of the others.\<close>

definition adopt :: "string \<Rightarrow> tool_def \<Rightarrow> tool_def" where
  "adopt i t = (if td_integration_id t = [] then t\<lparr>td_integration_id := i\<rparr> else t)"

fun sift :: "string \<Rightarrow> tool_def list \<Rightarrow> tool_def list \<times> string list" where
  "sift i [] = ([], [])"
| "sift i (t # ts) =
     (let cp = adopt i t; (keep, errs) = sift i ts in
      if td_integration_id cp \<noteq> i
      then (keep, tool_problem (td_id cp) (''belongs to integration '' @ go_quote (td_integration_id cp) @ '', not '' @ go_quote i) # errs)
      else if validate_tool cp \<noteq> [] then (keep, validate_tool cp @ errs)
      else (cp # keep, errs))"

text \<open>\<^verbatim>\<open>dropDuplicates\<close>: the first tool for each id and each name.\<close>

fun drop_duplicates :: "string list \<Rightarrow> string list \<Rightarrow> tool_def list \<Rightarrow> tool_def list" where
  "drop_duplicates ids names [] = []"
| "drop_duplicates ids names (t # ts) =
     (if td_id t \<in> set ids \<or> model_name t \<in> set names then drop_duplicates ids names ts
      else t # drop_duplicates (td_id t # ids) (model_name t # names) ts)"

definition kept_tools :: "string \<Rightarrow> tool_def list \<Rightarrow> tool_def list \<times> string list" where
  "kept_tools i ts =
     (let (keep, errs) = sift i ts; clash = validate_tools keep in
      if clash \<noteq> [] then (drop_duplicates [] [] keep, errs @ clash) else (keep, errs))"

section \<open>The operations\<close>

definition without :: "('v \<Rightarrow> bool) \<Rightarrow> 'v gomap \<Rightarrow> 'v gomap" where
  "without P m = filter (\<lambda>(k, v). \<not> P v) m"

definition put_all :: "('v \<Rightarrow> string) \<Rightarrow> 'v list \<Rightarrow> 'v gomap \<Rightarrow> 'v gomap" where
  "put_all key vs m = fold (\<lambda>v. gm_set (key v) v) vs m"

definition add_source :: "tool_source \<Rightarrow> catalog \<Rightarrow> string list \<times> catalog" where
  "add_source src c =
     (case src_integration src of
        None \<Rightarrow> ([''catalog: a source must have an integration with an ID''], c)
      | Some integ \<Rightarrow>
         (if in_id integ = [] then ([''catalog: a source must have an integration with an ID''], c)
          else let (keep, errs) = kept_tools (in_id integ) (src_tools src) in
            (errs,
             \<lparr>cg_tools = put_all td_id keep (without (\<lambda>t. td_integration_id t = in_id integ) (cg_tools c)),
              cg_integrations = gm_set (in_id integ) integ (cg_integrations c),
              cg_identities = put_all id_id (src_identities src) (without (\<lambda>x. id_integration x = in_id integ) (cg_identities c))\<rparr>)))"

definition remove_source :: "string \<Rightarrow> catalog \<Rightarrow> catalog" where
  "remove_source i c =
     \<lparr>cg_tools = without (\<lambda>t. td_integration_id t = i) (cg_tools c),
      cg_integrations = gm_del i (cg_integrations c),
      cg_identities = without (\<lambda>x. id_integration x = i) (cg_identities c)\<rparr>"

definition put_integration :: "integration \<Rightarrow> catalog \<Rightarrow> catalog" where
  "put_integration i c = c\<lparr>cg_integrations := gm_set (in_id i) i (cg_integrations c)\<rparr>"

definition put_identity :: "identity \<Rightarrow> catalog \<Rightarrow> catalog" where
  "put_identity i c = c\<lparr>cg_identities := gm_set (id_id i) i (cg_identities c)\<rparr>"

definition put_tool :: "tool_def \<Rightarrow> catalog \<Rightarrow> catalog" where
  "put_tool t c = c\<lparr>cg_tools := gm_set (td_id t) t (cg_tools c)\<rparr>"

definition catalog_tool :: "catalog \<Rightarrow> string \<Rightarrow> tool_def option" where
  "catalog_tool c i = gm_get (cg_tools c) i"

definition catalog_integration :: "catalog \<Rightarrow> string \<Rightarrow> integration option" where
  "catalog_integration c i = gm_get (cg_integrations c) i"

definition tools_of :: "string \<Rightarrow> catalog \<Rightarrow> tool_def list" where
  "tools_of i c = filter (\<lambda>t. td_integration_id t = i) (map snd (cg_tools c))"

definition visible_to :: "integration \<Rightarrow> string \<Rightarrow> bool" where
  "visible_to i owner \<longleftrightarrow> in_created_by i = [] \<or> in_created_by i = owner"

section \<open>What holds of it\<close>

text \<open>Each entry is under its own id, once.\<close>

definition keyed :: "('v \<Rightarrow> string) \<Rightarrow> 'v gomap \<Rightarrow> bool" where
  "keyed key m \<longleftrightarrow> wf_gomap m \<and> (\<forall>(k, v) \<in> set m. key v = k)"

definition wf_catalog :: "catalog \<Rightarrow> bool" where
  "wf_catalog c \<longleftrightarrow> keyed td_id (cg_tools c) \<and> keyed in_id (cg_integrations c) \<and> keyed id_id (cg_identities c)"

lemma set_gm_set: "set (gm_set k v m) \<subseteq> insert (k, v) (set m)"
  by (induction m) (auto simp: gm_set_def)

lemma keyed_set [simp]: "keyed key m \<Longrightarrow> keyed key (gm_set (key v) v m)"
  using set_gm_set [of "key v" v m] by (auto simp: keyed_def)

lemma keyed_del [simp]: "keyed key m \<Longrightarrow> keyed key (gm_del k m)"
  using wf_gomap_del [of m k] by (auto simp: keyed_def gm_del_def AList.delete_eq)

lemma keyed_without [simp]: "keyed key m \<Longrightarrow> keyed key (without P m)"
  by (auto simp: keyed_def without_def wf_gomap_def distinct_map_filter)

lemma keyed_put_all [simp]: "keyed key m \<Longrightarrow> keyed key (put_all key vs m)"
  unfolding put_all_def by (induction vs arbitrary: m) simp_all

lemma keyed_Nil [simp]: "keyed key []"
  by (simp add: keyed_def)

lemma keyed_get: "keyed key m \<Longrightarrow> gm_get m k = Some v \<Longrightarrow> key v = k"
  by (auto simp: keyed_def dest!: gm_get_in_set)

lemma keyed_mem: "keyed key m \<Longrightarrow> v \<in> snd ` set m \<longleftrightarrow> gm_get m (key v) = Some v"
proof
  assume k: "keyed key m"
  then show "v \<in> snd ` set m \<Longrightarrow> gm_get m (key v) = Some v"
    by (force simp: keyed_def intro: gm_get_of_set)
  show "gm_get m (key v) = Some v \<Longrightarrow> v \<in> snd ` set m"
    by (force dest: gm_get_in_set)
qed

lemma get_without: "wf_gomap m \<Longrightarrow> gm_get (without P m) k = (case gm_get m k of Some v \<Rightarrow> if P v then None else Some v | None \<Rightarrow> None)"
  unfolding without_def by (rule gm_get_filter)

lemma get_put_all:
  "gm_get (put_all key vs m) k = (case find (\<lambda>v. key v = k) (rev vs) of Some v \<Rightarrow> Some v | None \<Rightarrow> gm_get m k)"
proof (induction vs arbitrary: m)
  case (Cons v vs)
  show ?case unfolding put_all_def
    by (simp add: Cons [unfolded put_all_def] find_append split: option.split)
qed (simp add: put_all_def)

lemma get_put_all_distinct:
  assumes "distinct (map key vs)"
  shows "gm_get (put_all key vs m) k = Some v \<longleftrightarrow> (v \<in> set vs \<and> key v = k) \<or> (k \<notin> key ` set vs \<and> gm_get m k = Some v)"
proof (cases "find (\<lambda>v. key v = k) (rev vs)")
  case None
  then have "k \<notin> key ` set vs" by (auto simp: find_None_iff)
  then show ?thesis using None by (auto simp: get_put_all)
next
  case (Some u)
  then have u: "u \<in> set vs" "key u = k" by (auto dest: find_Some_mem)
  have g: "gm_get (put_all key vs m) k = Some u" by (simp only: get_put_all Some option.case)
  have "w = u" if "w \<in> set vs" "key w = k" for w
    using that u assms unfolding distinct_map inj_on_def by blast
  then show ?thesis unfolding g option.inject using u by blast
qed

section \<open>What a source leaves in the catalog\<close>

lemma sift_kept:
  "sift i ts = (keep, errs) \<Longrightarrow> t \<in> set keep \<Longrightarrow> valid_tool t \<and> td_integration_id t = i \<and> t \<in> adopt i ` set ts"
  by (induction ts arbitrary: keep errs) (auto simp: Let_def validate_tool_iff split: prod.splits if_splits)

lemma sift_complete:
  "sift i ts = (keep, errs) \<Longrightarrow> t \<in> adopt i ` set ts \<Longrightarrow> valid_tool t \<Longrightarrow> td_integration_id t = i \<Longrightarrow> t \<in> set keep"
proof (induction ts arbitrary: keep errs)
  case (Cons x ts)
  obtain k e where k: "sift i ts = (k, e)" by fastforce
  show ?case
  proof (cases "t = adopt i x")
    case True
    then show ?thesis using Cons.prems k by (auto simp: Let_def validate_tool_iff)
  next
    case False
    then have "t \<in> set k" using Cons.IH [OF k] Cons.prems by simp
    then show ?thesis using Cons.prems(1) k by (auto simp: Let_def split: if_splits)
  qed
qed simp

lemma sift_errs: "sift i ts = (keep, []) \<longleftrightarrow> keep = map (adopt i) ts \<and> (\<forall>t \<in> adopt i ` set ts. valid_tool t \<and> td_integration_id t = i)"
proof (induction ts arbitrary: keep)
  case Nil
  then show ?case by auto
next
  case (Cons x ts)
  obtain k e where k: "sift i ts = (k, e)" by fastforce
  have "sift i (x # ts) = (keep, []) \<longleftrightarrow> valid_tool (adopt i x) \<and> td_integration_id (adopt i x) = i \<and> keep = adopt i x # k \<and> e = []"
    using k by (simp add: Let_def validate_tool_iff) auto
  moreover have "e = [] \<longleftrightarrow> k = map (adopt i) ts \<and> (\<forall>t \<in> adopt i ` set ts. valid_tool t \<and> td_integration_id t = i)"
    using Cons.IH [of k] k by simp
  moreover have "(\<forall>t \<in> adopt i ` set ts. valid_tool t \<and> td_integration_id t = i) \<Longrightarrow> k = map (adopt i) ts"
    using Cons.IH [of "map (adopt i) ts"] k by simp
  ultimately show ?case unfolding list.map list.set image_insert by (auto simp del: sift.simps)
qed

lemma drop_duplicates_props:
  "set (drop_duplicates ids names ts) \<subseteq> set ts \<and>
   distinct (map td_id (drop_duplicates ids names ts)) \<and> td_id ` set (drop_duplicates ids names ts) \<inter> set ids = {} \<and>
   distinct (map model_name (drop_duplicates ids names ts)) \<and> model_name ` set (drop_duplicates ids names ts) \<inter> set names = {}"
proof (induction ts arbitrary: ids names)
  case Nil
  then show ?case by simp
next
  case (Cons t ts)
  show ?case
    using Cons.IH [of ids names] Cons.IH [of "td_id t # ids" "model_name t # names"] by auto
qed

lemma scoped_names:
  "\<forall>t \<in> set ts. td_integration_id t = i \<Longrightarrow> distinct (map scoped_name ts) = distinct (map model_name ts)"
  by (induction ts) (auto simp: scoped_name_def image_iff)

text \<open>Whatever the source offers, what is kept is fit to register.\<close>

lemma kept_tools_ok:
  assumes "kept_tools i ts = (keep, errs)"
  shows "(\<forall>t \<in> set keep. valid_tool t \<and> td_integration_id t = i \<and> t \<in> adopt i ` set ts) \<and>
    distinct (map td_id keep) \<and> distinct (map model_name keep)"
proof -
  obtain k0 e0 where s: "sift i ts = (k0, e0)" by fastforce
  show ?thesis
  proof (cases "validate_tools k0 = []")
    case True
    then have "keep = k0" using assms s by (simp add: kept_tools_def)
    then show ?thesis using True sift_kept [OF s] scoped_names [of k0 i] by (auto simp: validate_tools_iff)
  next
    case False
    then have "keep = drop_duplicates [] [] k0" using assms s by (simp add: kept_tools_def)
    then show ?thesis using sift_kept [OF s] drop_duplicates_props [of "[]" "[]" k0] by auto
  qed
qed

text \<open>A source without a problem is kept whole.\<close>

lemma kept_tools_all:
  "kept_tools i ts = (keep, []) \<longleftrightarrow>
     keep = map (adopt i) ts \<and> (\<forall>t \<in> set keep. valid_tool t \<and> td_integration_id t = i) \<and>
     distinct (map td_id keep) \<and> distinct (map model_name keep)"
proof -
  obtain k0 e0 where s: "sift i ts = (k0, e0)" by fastforce
  have v: "validate_tools k0 = [] \<longleftrightarrow> distinct (map td_id k0) \<and> distinct (map model_name k0)"
    using sift_kept [OF s] scoped_names [of k0 i] by (auto simp: validate_tools_iff)
  let ?fine = "\<forall>t \<in> adopt i ` set ts. valid_tool t \<and> td_integration_id t = i"
  have k: "kept_tools i ts = (keep, []) \<longleftrightarrow> keep = k0 \<and> e0 = [] \<and> validate_tools k0 = []"
    using s by (auto simp: kept_tools_def Let_def split: if_splits)
  have e: "e0 = [] \<longleftrightarrow> k0 = map (adopt i) ts \<and> ?fine"
    using sift_errs [of i ts k0] s by simp
  have m: "?fine \<Longrightarrow> k0 = map (adopt i) ts"
    using sift_errs [of i ts "map (adopt i) ts"] s by simp
  show ?thesis
  proof (cases ?fine)
    case True
    then have "e0 = []" "k0 = map (adopt i) ts" "\<forall>t \<in> set k0. valid_tool t \<and> td_integration_id t = i"
      using e m by simp_all
    then show ?thesis unfolding k v by blast
  next
    case False
    then have "e0 \<noteq> []" using e by blast
    moreover have "\<not> (keep = map (adopt i) ts \<and> (\<forall>t \<in> set keep. valid_tool t \<and> td_integration_id t = i))"
      using False by (metis list.set_map)
    ultimately show ?thesis unfolding k by blast
  qed
qed

lemma wf_add_source: "wf_catalog c \<Longrightarrow> wf_catalog (snd (add_source src c))"
  by (auto simp: add_source_def wf_catalog_def Let_def split: option.split prod.split)

lemma wf_operations:
  "wf_catalog new_catalog" "wf_catalog c \<Longrightarrow> wf_catalog (remove_source i c)"
  "wf_catalog c \<Longrightarrow> wf_catalog (put_tool t c)" "wf_catalog c \<Longrightarrow> wf_catalog (put_identity x c)"
  "wf_catalog c \<Longrightarrow> wf_catalog (put_integration y c)"
  by (simp_all add: wf_catalog_def new_catalog_def remove_source_def put_tool_def put_identity_def put_integration_def)

lemma tools_of_mem: "wf_catalog c \<Longrightarrow> t \<in> set (tools_of i c) \<longleftrightarrow> catalog_tool c (td_id t) = Some t \<and> td_integration_id t = i"
  using keyed_mem [of td_id "cg_tools c" t] by (auto simp: tools_of_def catalog_tool_def wf_catalog_def)

lemma add_source_tool:
  assumes "wf_catalog c" and "src_integration src = Some integ" "in_id integ \<noteq> []"
    and "kept_tools (in_id integ) (src_tools src) = (keep, errs)"
  shows "catalog_tool (snd (add_source src c)) k = Some t \<longleftrightarrow>
    (t \<in> set keep \<and> td_id t = k) \<or>
    (k \<notin> td_id ` set keep \<and> catalog_tool c k = Some t \<and> td_integration_id t \<noteq> in_id integ)"
proof -
  have d: "distinct (map td_id keep)" using kept_tools_ok [OF assms(4)] by simp
  have w: "wf_gomap (cg_tools c)" using assms(1) by (simp add: wf_catalog_def keyed_def)
  show ?thesis using assms
    by (auto simp: add_source_def catalog_tool_def get_put_all_distinct [OF d] get_without [OF w] split: option.splits if_splits)
qed

end
