(* ===== verification/Input_Contract.thy ===== *)
theory Input_Contract
  imports Tool_Types
begin

text \<open>
  The input half of the tool contract (\<^verbatim>\<open>domain/input_contract.go\<close>): what a model sends
  is checked against the tool's schema, harmless differences are converted, and everything else
  is refused with words for the model. A problem is its text (\<open>Inl\<close>).
\<close>

section \<open>Conversions\<close>

fun kind_of :: "goval \<Rightarrow> string" where
  "kind_of GNil = ''nothing''"
| "kind_of (GStr _) = ''text''"
| "kind_of (GBool _) = ''true/false''"
| "kind_of (GNum _) = ''a number''"
| "kind_of (GInt _) = ''a number''"
| "kind_of (GJNum _) = ''a number''"
| "kind_of (GObj _) = ''an object''"
| "kind_of (GArr _) = ''a list''"

fun as_string :: "goval \<Rightarrow> string + string" where
  "as_string (GStr s) = Inr s"
| "as_string (GBool b) = Inr (if b then ''true'' else ''false'')"
| "as_string (GNum f) = Inr (format_number f)"
| "as_string (GInt i) = Inr (itoa i)"
| "as_string (GJNum s) = Inr s"
| "as_string v = Inl (''must be text, got '' @ kind_of v)"

definition number_in :: "goval \<Rightarrow> string + f64" where
  "number_in v = (case v of
      GNum f \<Rightarrow> Inr f
    | GInt i \<Rightarrow> Inr (f_of_int i)
    | GJNum s \<Rightarrow> (case parse_float s of Some f \<Rightarrow> Inr f | None \<Rightarrow> Inl (''must be a number, got '' @ quoted s))
    | GStr s \<Rightarrow> (case parse_float (trim_space s) of Some f \<Rightarrow> Inr f | None \<Rightarrow> Inl (''must be a number, got '' @ quoted s))
    | _ \<Rightarrow> Inl (''must be a number, got '' @ kind_of v))"

definition as_number :: "goval \<Rightarrow> bool \<Rightarrow> string + goval" where
  "as_number v whole =
     (case number_in v of
        Inl e \<Rightarrow> Inl e
      | Inr f \<Rightarrow>
         (if \<not> f_finite f then Inl ''must be a number''
          else if whole \<and> \<not> f_whole f then Inl (''must be a whole number, got '' @ format_number f)
          else Inr (GNum f)))"

definition as_bool :: "goval \<Rightarrow> string + goval" where
  "as_bool v = (case v of
      GBool b \<Rightarrow> Inr (GBool b)
    | GStr s \<Rightarrow>
        (let t = to_lower (trim_space s) in
         if t = ''true'' then Inr (GBool True)
         else if t = ''false'' then Inr (GBool False)
         else Inl (''must be true or false, got '' @ quoted s))
    | _ \<Rightarrow> Inl (''must be true or false, got '' @ kind_of v))"

text \<open>Whether a problem is already noted for an input.\<close>

definition has_problem_for :: "string list \<Rightarrow> string \<Rightarrow> bool" where
  "has_problem_for problems q \<longleftrightarrow> (\<exists>p \<in> set problems. has_prefix p (q @ '' ''))"

text \<open>A required input that is missing, null or empty text.\<close>

definition missing :: "args \<Rightarrow> string \<Rightarrow> bool" where
  "missing out r \<longleftrightarrow> get_any out r = GNil \<or> get_any out r = GStr []"

definition note_missing :: "args \<Rightarrow> string \<Rightarrow> string list \<Rightarrow> string list" where
  "note_missing out r problems =
     (if missing out r \<and> \<not> has_problem_for problems (quoted r) then problems @ [quoted r @ '' is required''] else problems)"

section \<open>The check\<close>

text \<open>
  \<open>check\<close> is one value against its schema; \<open>check_items\<close> the values of a list, from
  item number \<open>n\<close> on; \<open>check_props\<close> the declared inputs of an object, one after the
  other, keeping the object so far and the problems so far; \<open>check_object\<close> then adds what is
  missing.
\<close>

definition finish_object :: "string list \<Rightarrow> args \<times> string list \<Rightarrow> args \<times> string list" where
  "finish_object req st = (fst st, fold (note_missing (fst st)) req (snd st))"

function (sequential) check :: "schema \<Rightarrow> goval \<Rightarrow> string + goval"
  and check_items :: "schema \<Rightarrow> nat \<Rightarrow> goval list \<Rightarrow> string + goval list"
  and check_props :: "(string \<times> schema) list \<Rightarrow> args \<Rightarrow> args \<times> string list \<Rightarrow> args \<times> string list" where
  "check (Schema ty d props items req enum) v =
     (case ty of
        TString \<Rightarrow>
          (case as_string v of
             Inl e \<Rightarrow> Inl e
           | Inr s \<Rightarrow> (if enum \<noteq> [] \<and> s \<notin> set enum
                       then Inl (''must be one of '' @ join '', '' enum @ '', got '' @ quoted s)
                       else Inr (GStr s)))
      | TNumber \<Rightarrow> as_number v False
      | TInteger \<Rightarrow> as_number v True
      | TBoolean \<Rightarrow> as_bool v
      | TArray \<Rightarrow>
          (case v of
             GArr vs \<Rightarrow>
               (case items of
                  None \<Rightarrow> Inr v
                | Some it \<Rightarrow> (case check_items it 1 vs of Inl e \<Rightarrow> Inl e | Inr ws \<Rightarrow> Inr (GArr ws)))
           | _ \<Rightarrow> Inl (''must be a list, got '' @ kind_of v))
      | TObject \<Rightarrow>
          (case v of
             GObj m \<Rightarrow>
               (if props = [] \<and> req = [] then Inr v
                else (case finish_object req (check_props props m (m, [])) of
                        (out, nested) \<Rightarrow> (if nested \<noteq> [] then Inl (''has a problem: '' @ join ''; '' nested) else Inr (GObj out))))
           | _ \<Rightarrow> Inl (''must be an object, got '' @ kind_of v))
      | TOther _ \<Rightarrow> Inr v)"
| "check_items it n [] = Inr []"
| "check_items it n (v # vs) =
     (case check it v of
        Inl e \<Rightarrow> Inl (''item '' @ itoa (int n) @ '' '' @ e)
      | Inr w \<Rightarrow> (case check_items it (Suc n) vs of Inl e \<Rightarrow> Inl e | Inr ws \<Rightarrow> Inr (w # ws)))"
| "check_props [] m st = st"
| "check_props ((name, p) # ps) m (out, problems) =
     check_props ps m
       (if get_any m name = GNil then (gm_del name out, problems)
        else (case check p (get_any m name) of
                Inl e \<Rightarrow> (out, problems @ [quoted name @ '' '' @ e])
              | Inr w \<Rightarrow> (gm_set name w out, problems)))"
  by pat_completeness auto
termination
  by (relation "measures [\<lambda>x. case x of Inl (s, v) \<Rightarrow> size s
        | Inr (Inl (it, n, vs)) \<Rightarrow> size it
        | Inr (Inr (ps, m, st)) \<Rightarrow> size_list (size_prod (\<lambda>_. 0) size) ps,
      \<lambda>x. case x of Inl (s, v) \<Rightarrow> 0 | Inr (Inl (it, n, vs)) \<Rightarrow> Suc (length vs) | Inr (Inr (ps, m, st)) \<Rightarrow> 0]") auto

definition check_object :: "schema \<Rightarrow> args \<Rightarrow> args \<times> string list" where
  "check_object s m = finish_object (s_required s) (check_props (s_properties s) m (m, []))"

definition check_input :: "schema \<Rightarrow> args \<Rightarrow> string + args" where
  "check_input s m =
     (case check_object s m of
        (out, problems) \<Rightarrow>
          (if problems \<noteq> [] then Inl (''invalid input: '' @ join ''; '' (sort problems)) else Inr out))"

section \<open>What a checked value is\<close>

text \<open>No schema declares one property twice (they are the keys of a map).\<close>

fun wf_schema :: "schema \<Rightarrow> bool" where
  "wf_schema (Schema ty d props items req enum) \<longleftrightarrow>
     distinct (map fst props) \<and> (\<forall>x \<in> set props. wf_schema (snd x)) \<and>
     (case items of None \<Rightarrow> True | Some it \<Rightarrow> wf_schema it)"

definition all_given :: "string list \<Rightarrow> args \<Rightarrow> bool" where
  "all_given req m \<longleftrightarrow> (\<forall>r \<in> set req. \<not> missing m r)"

text \<open>The declared inputs that are there are not null and of the declared type; the required ones are there.\<close>

fun conforms :: "schema \<Rightarrow> goval \<Rightarrow> bool" where
  "conforms (Schema ty d props items req enum) v =
     (case ty of
        TString \<Rightarrow> (\<exists>s. v = GStr s \<and> (enum = [] \<or> s \<in> set enum))
      | TNumber \<Rightarrow> (\<exists>f. v = GNum f \<and> f_finite f)
      | TInteger \<Rightarrow> (\<exists>f. v = GNum f \<and> f_finite f \<and> f_whole f)
      | TBoolean \<Rightarrow> (\<exists>b. v = GBool b)
      | TArray \<Rightarrow> (\<exists>vs. v = GArr vs \<and> (case items of None \<Rightarrow> True | Some it \<Rightarrow> (\<forall>x \<in> set vs. conforms it x)))
      | TObject \<Rightarrow> (\<exists>m. v = GObj m \<and> ((props = [] \<and> req = []) \<or>
            ((\<forall>x \<in> set props. case gm_get m (fst x) of None \<Rightarrow> True | Some w \<Rightarrow> w \<noteq> GNil \<and> conforms (snd x) w) \<and>
             all_given req m)))
      | TOther _ \<Rightarrow> True)"

definition props_conform :: "(string \<times> schema) list \<Rightarrow> args \<Rightarrow> bool" where
  "props_conform props m \<longleftrightarrow>
     (\<forall>x \<in> set props. case gm_get m (fst x) of None \<Rightarrow> True | Some w \<Rightarrow> w \<noteq> GNil \<and> conforms (snd x) w)"

definition input_conforms :: "schema \<Rightarrow> args \<Rightarrow> bool" where
  "input_conforms s m \<longleftrightarrow> props_conform (s_properties s) m \<and> all_given (s_required s) m"

lemma fold_note_missing: "fold (note_missing out) req ps = [] \<longleftrightarrow> ps = [] \<and> all_given req out"
proof (induction req arbitrary: ps)
  case Nil
  then show ?case by (simp add: all_given_def)
next
  case (Cons r req)
  have "note_missing out r ps = [] \<longleftrightarrow> ps = [] \<and> \<not> missing out r"
    by (auto simp: note_missing_def has_problem_for_def)
  with Cons show ?case by (auto simp: all_given_def)
qed

lemma finish_object_ok: "finish_object req st = (out, []) \<longleftrightarrow> st = (out, []) \<and> all_given req out"
  by (cases st) (auto simp: finish_object_def fold_note_missing)

lemma conforms_object:
  "conforms (Schema TObject d props items req enum) (GObj m) \<longleftrightarrow>
     (props = [] \<and> req = []) \<or> (props_conform props m \<and> all_given req m)"
  by (simp add: props_conform_def)

lemma as_number_ok: "as_number v whole = Inr w \<Longrightarrow> \<exists>f. w = GNum f \<and> f_finite f \<and> (whole \<longrightarrow> f_whole f)"
  by (auto simp: as_number_def split: sum.splits if_splits)

lemma as_bool_ok: "as_bool v = Inr w \<Longrightarrow> \<exists>b. w = GBool b"
  by (auto simp: as_bool_def Let_def split: goval.splits if_splits)

text \<open>One declared input, and then the others.\<close>

lemma props_conform_Cons:
  "props_conform ((name, p) # ps) m \<longleftrightarrow>
     (case gm_get m name of None \<Rightarrow> True | Some w \<Rightarrow> w \<noteq> GNil \<and> conforms p w) \<and> props_conform ps m"
  by (simp add: props_conform_def split: option.split)

lemma props_conform_Nil [simp]: "props_conform [] m"
  by (simp add: props_conform_def)

lemma check_ok:
  "wf_schema s \<Longrightarrow> check s v = Inr w \<Longrightarrow> conforms s w \<and> (v \<noteq> GNil \<longrightarrow> w \<noteq> GNil)"
  "wf_schema it \<Longrightarrow> check_items it n vs = Inr ws \<Longrightarrow> \<forall>x \<in> set ws. conforms it x"
  "distinct (map fst ps) \<Longrightarrow> \<forall>x \<in> set ps. wf_schema (snd x) \<Longrightarrow> check_props ps m st = (out, []) \<Longrightarrow>
     snd st = [] \<and> props_conform ps out \<and> (\<forall>k. k \<notin> fst ` set ps \<longrightarrow> gm_get out k = gm_get (fst st) k)"
proof (induction s v and it n vs and ps m st arbitrary: w and ws and out rule: check_check_items_check_props.induct)
  case (1 ty d props items req enum v)
  show ?case
  proof (cases ty)
    case TString
    with "1.prems" show ?thesis by (auto split: sum.splits if_splits)
  next
    case TNumber
    with "1.prems" show ?thesis by (auto dest!: as_number_ok)
  next
    case TInteger
    with "1.prems" show ?thesis by (auto dest!: as_number_ok)
  next
    case TBoolean
    with "1.prems" show ?thesis by (auto dest!: as_bool_ok)
  next
    case TArray
    with "1.prems" "1.IH"(1) show ?thesis
      by (auto split: goval.splits option.splits sum.splits)
  next
    case TObject
    obtain m where v: "v = GObj m" using "1.prems"(2) TObject by (auto split: goval.splits)
    show ?thesis
    proof (cases "props = [] \<and> req = []")
      case True
      with TObject v "1.prems" show ?thesis by auto
    next
      case False
      with TObject v "1.prems" obtain out where out: "finish_object req (check_props props m (m, [])) = (out, [])" "w = GObj out"
        by (auto split: prod.splits if_splits)
      then have "check_props props m (m, []) = (out, [])" "all_given req out"
        by (auto simp: finish_object_ok)
      then have "props_conform props out"
        using "1.IH"(2) [OF TObject v False] "1.prems"(1) by auto
      then show ?thesis using TObject out \<open>all_given req out\<close> by (simp add: conforms_object del: conforms.simps)
    qed
  next
    case (TOther x)
    with "1.prems" show ?thesis by simp
  qed
next
  case (2 it n)
  then show ?case by simp
next
  case (3 it n v vs)
  then show ?case by (auto split: sum.splits)
next
  case (4 m st)
  then show ?case by simp
next
  case (5 name p ps m out0 problems)
  let ?st = "if get_any m name = GNil then (gm_del name out0, problems)
        else (case check p (get_any m name) of
                Inl e \<Rightarrow> (out0, problems @ [quoted name @ '' '' @ e])
              | Inr w \<Rightarrow> (gm_set name w out0, problems))"
  have rest: "snd ?st = [] \<and> props_conform ps out \<and> (\<forall>k. k \<notin> fst ` set ps \<longrightarrow> gm_get out k = gm_get (fst ?st) k)"
    using "5.IH"(2) "5.prems" by simp
  then have here: "gm_get out name = gm_get (fst ?st) name" using "5.prems"(1) by auto
  show ?case
  proof (cases "get_any m name = GNil")
    case True
    with rest here show ?thesis by (auto simp: props_conform_Cons)
  next
    case False
    with rest obtain w where w: "check p (get_any m name) = Inr w" by (auto split: sum.splits)
    then have "conforms p w \<and> w \<noteq> GNil" using "5.IH"(1) [OF False] "5.prems"(2) False by simp
    with False w rest here show ?thesis by (auto simp: props_conform_Cons)
  qed
qed

lemma check_fixed:
  "conforms s v \<Longrightarrow> check s v = Inr v"
  "\<forall>x \<in> set vs. conforms it x \<Longrightarrow> check_items it n vs = Inr vs"
  "props_conform ps m \<Longrightarrow> st = (m, []) \<Longrightarrow> check_props ps m st = (m, [])"
proof (induction s v and it n vs and ps m st rule: check_check_items_check_props.induct)
  case (1 ty d props items req enum v)
  show ?case
  proof (cases ty)
    case TArray
    with "1.prems" "1.IH"(1) show ?thesis by (auto split: option.splits)
  next
    case TObject
    then obtain m where v: "v = GObj m" using "1.prems" by auto
    show ?thesis
    proof (cases "props = [] \<and> req = []")
      case True
      with TObject v show ?thesis by auto
    next
      case False
      with "1.prems" TObject v have c: "props_conform props m" "all_given req m"
        by (auto simp: conforms_object simp del: conforms.simps)
      have "check_props props m (m, []) = (m, [])" using "1.IH"(2) [OF TObject v False c(1)] by simp
      then have "finish_object req (check_props props m (m, [])) = (m, [])" using c(2) by (simp add: finish_object_ok)
      with TObject v False show ?thesis by auto
    qed
  qed (use "1.prems" in \<open>auto simp: as_number_def number_in_def as_bool_def\<close>)
next
  case (5 name p ps m out0 problems)
  show ?case
  proof (cases "gm_get m name")
    case None
    with 5 show ?thesis by (simp add: get_any_def props_conform_Cons gm_del_absent)
  next
    case (Some w)
    with 5 have "w \<noteq> GNil" "conforms p w" by (auto simp: props_conform_Cons)
    with 5 Some show ?thesis by (simp add: get_any_def props_conform_Cons gm_set_same)
  qed
qed simp_all

lemma check_input_ok:
  assumes "wf_schema s" and "check_input s m = Inr out"
  shows "input_conforms s out" and "k \<notin> fst ` set (s_properties s) \<Longrightarrow> gm_get out k = gm_get m k"
proof -
  have d: "distinct (map fst (s_properties s))" "\<forall>x \<in> set (s_properties s). wf_schema (snd x)"
    using assms(1) by (cases s; auto)+
  have c: "check_props (s_properties s) m (m, []) = (out, [])" "all_given (s_required s) out"
    using assms(2) by (auto simp: check_input_def check_object_def finish_object_ok split: prod.splits if_splits)
  from check_ok(3) [OF d c(1)] c(2) show "input_conforms s out"
    "k \<notin> fst ` set (s_properties s) \<Longrightarrow> gm_get out k = gm_get m k"
    by (auto simp: input_conforms_def)
qed

lemma check_input_fixed: "input_conforms s m \<Longrightarrow> check_input s m = Inr m"
  by (simp add: check_input_def check_object_def input_conforms_def check_fixed(3) finish_object_def fold_note_missing)

end
