(* ===== verification/Tool_Rules.thy ===== *)
theory Tool_Rules
  imports Input_Contract
begin

text \<open>
  The rules a creator sets on how an agent may use a tool (\<^verbatim>\<open>domain/tool_rule.go\<close>): how a
  rule is checked and brought to its canonical form, how fixed and default values are filled in,
  when a call breaks a rule, and what the model is told of the rules. A type assertion the code
  makes without checking it (\<^verbatim>\<open>r.Value.(float64)\<close>) is \<open>None\<close> where it would panic.
\<close>

definition max_rule_values :: nat where "max_rule_values = 50"
definition max_rule_message :: nat where "max_rule_message = 200"
definition max_rules_per_tool :: nat where "max_rules_per_tool = 20"

definition rules_for :: "tool_rule list \<Rightarrow> string \<Rightarrow> tool_rule list" where
  "rules_for rules tool_id = filter (\<lambda>r. tr_tool_id r = tool_id) rules"

section \<open>Values\<close>

definition same_value :: "goval \<Rightarrow> goval \<Rightarrow> bool" where
  "same_value a b =
     (case (to_number a, to_number b) of
        (Some x, Some y) \<Rightarrow> f_eq x y
      | _ \<Rightarrow> (case as_bool_val a of
                Some x \<Rightarrow> as_bool_val b = Some x
              | None \<Rightarrow> equal_fold (trim_space (sprint a)) (trim_space (sprint b))))"

text \<open>The items of a list value; none when it is no list.\<close>

definition items_of :: "goval \<Rightarrow> goval list" where
  "items_of v = (case v of GArr vs \<Rightarrow> vs | _ \<Rightarrow> [])"

definition value_in :: "goval \<Rightarrow> goval \<Rightarrow> bool" where
  "value_in l v \<longleftrightarrow> (\<exists>it \<in> set (items_of l). same_value it v)"

definition enum_has :: "string list \<Rightarrow> goval \<Rightarrow> bool" where
  "enum_has enum v \<longleftrightarrow> (\<exists>e \<in> set enum. same_value (GStr e) v)"

definition list_of :: "goval \<Rightarrow> string" where
  "list_of l = join '', '' (sort (map (\<lambda>it. case it of GNum n \<Rightarrow> format_number n | _ \<Rightarrow> sprint it) (items_of l)))"

definition capital_first :: "string \<Rightarrow> string" where
  "capital_first s = (case runes s of [] \<Rightarrow> []
     | r # _ \<Rightarrow> to_upper r @ drop (case valid_rune_size s of Some n \<Rightarrow> n | None \<Rightarrow> 1) s)"

definition times_sign :: "string" where
  "times_sign = '' '' @ [CHR 0xC3, CHR 0x97] @ '' ''"

section \<open>The canonical form of a rule\<close>

definition is_number_type :: "schema_type \<Rightarrow> bool" where
  "is_number_type t \<longleftrightarrow> t = TNumber \<or> t = TInteger"

definition check_rule_value :: "schema \<Rightarrow> goval \<Rightarrow> string + goval" where
  "check_rule_value prop v =
     (if s_type prop \<in> {TString, TNumber, TInteger, TBoolean} then check prop v
      else Inl ''rules can only be set on text, number, yes/no details'')"

fun kind_name :: "rule_kind \<Rightarrow> string" where
  "kind_name RuleMax = ''max''"
| "kind_name RuleMaxProduct = ''max_product''"
| "kind_name RuleMin = ''min''"
| "kind_name RuleOneOf = ''one_of''"
| "kind_name RuleNoneOf = ''none_of''"
| "kind_name RuleFixed = ''fixed''"
| "kind_name RuleDefault = ''default''"
| "kind_name (RuleOther s) = s"

definition not_a_detail :: "string \<Rightarrow> tool_def \<Rightarrow> string" where
  "not_a_detail name def = go_quote name @ '' isn't a detail of '' @ td_name def"

definition normalize_product :: "tool_rule \<Rightarrow> tool_def \<Rightarrow> schema \<Rightarrow> string + tool_rule" where
  "normalize_product r0 def prop =
     (let r = r0\<lparr>tr_with := trim_space (tr_with r0)\<rparr> in
      case detail def (tr_with r) of
        None \<Rightarrow> Inl (not_a_detail (tr_with r) def)
      | Some other \<Rightarrow>
         (if tr_with r = tr_input r then Inl ''pick two different details to multiply''
          else if \<not> is_number_type (s_type prop) then Inl (humanize (tr_input r) @ '' isn't a number, so it can't be multiplied'')
          else if \<not> is_number_type (s_type other) then Inl (humanize (tr_with r) @ '' isn't a number, so it can't be multiplied'')
          else case to_number (tr_value r) of
              Some n \<Rightarrow> (if f_lt (Fin 0) n then Inr (r\<lparr>tr_value := GNum n\<rparr>)
                 else Inl (''the limit for '' @ humanize (tr_input r) @ times_sign @ humanize (tr_with r) @ '' must be a number above zero''))
            | None \<Rightarrow> Inl (''the limit for '' @ humanize (tr_input r) @ times_sign @ humanize (tr_with r) @ '' must be a number above zero'')))"

definition normalize_limit :: "tool_rule \<Rightarrow> schema \<Rightarrow> string + tool_rule" where
  "normalize_limit r prop =
     (if \<not> is_number_type (s_type prop)
      then Inl (humanize (tr_input r) @ '' isn't a number, so it can't have a largest or smallest allowed'')
      else case to_number (tr_value r) of
          Some n \<Rightarrow> Inr (r\<lparr>tr_value := GNum n\<rparr>)
        | None \<Rightarrow> Inl (''the limit for '' @ humanize (tr_input r) @ '' must be a number''))"

text \<open>The values of a \<^verbatim>\<open>one_of\<close> or \<^verbatim>\<open>none_of\<close> rule, one after the other.\<close>

fun normalize_values :: "rule_kind \<Rightarrow> string \<Rightarrow> schema \<Rightarrow> goval list \<Rightarrow> string + goval list" where
  "normalize_values k label prop [] = Inr []"
| "normalize_values k label prop (v # vs) =
     (case check_rule_value prop v of
        Inl e \<Rightarrow> Inl (sprint v @ '' isn't a valid value for '' @ label @ '': '' @ e)
      | Inr cv \<Rightarrow>
         (if k = RuleOneOf \<and> s_enum prop \<noteq> [] \<and> \<not> enum_has (s_enum prop) cv
          then Inl (sprint v @ '' isn't one of the values '' @ label @ '' can take'')
          else case normalize_values k label prop vs of Inl e \<Rightarrow> Inl e | Inr cvs \<Rightarrow> Inr (cv # cvs)))"

definition normalize_list :: "tool_rule \<Rightarrow> schema \<Rightarrow> string + tool_rule" where
  "normalize_list r prop =
     (case tr_value r of
        GArr vs \<Rightarrow>
         (if vs = [] \<or> max_rule_values < length vs
          then Inl (''give between 1 and '' @ itoa (int max_rule_values) @ '' values for '' @ humanize (tr_input r))
          else case normalize_values (tr_kind r) (humanize (tr_input r)) prop vs of
              Inl e \<Rightarrow> Inl e | Inr cvs \<Rightarrow> Inr (r\<lparr>tr_value := GArr cvs\<rparr>))
      | _ \<Rightarrow> Inl (''give between 1 and '' @ itoa (int max_rule_values) @ '' values for '' @ humanize (tr_input r)))"

definition normalize_pin :: "tool_rule \<Rightarrow> schema \<Rightarrow> string + tool_rule" where
  "normalize_pin r prop =
     (case check_rule_value prop (tr_value r) of
        Inl e \<Rightarrow> Inl (''that isn't a valid value for '' @ humanize (tr_input r) @ '': '' @ e)
      | Inr cv \<Rightarrow>
         (if s_enum prop \<noteq> [] \<and> \<not> enum_has (s_enum prop) cv
          then Inl (''that isn't one of the values '' @ humanize (tr_input r) @ '' can take'')
          else Inr (r\<lparr>tr_value := cv\<rparr>)))"

definition normalize_rule :: "tool_rule \<Rightarrow> tool_def option \<Rightarrow> string + tool_rule" where
  "normalize_rule r0 d =
     (case d of
        None \<Rightarrow> Inl ''that isn't something it can do''
      | Some def \<Rightarrow>
         (let r = r0\<lparr>tr_input := trim_space (tr_input r0), tr_message := trim_space (tr_message r0)\<rparr> in
          if max_rule_message < rune_count (tr_message r)
          then Inl (''the message is too long (up to '' @ itoa (int max_rule_message) @ '' characters)'')
          else case detail def (tr_input r) of
              None \<Rightarrow> Inl (not_a_detail (tr_input r) def)
            | Some prop \<Rightarrow>
               (let r1 = (if tr_kind r = RuleMaxProduct then r else r\<lparr>tr_with := []\<rparr>) in
                case tr_kind r of
                  RuleMaxProduct \<Rightarrow> normalize_product r1 def prop
                | RuleMax \<Rightarrow> normalize_limit r1 prop
                | RuleMin \<Rightarrow> normalize_limit r1 prop
                | RuleOneOf \<Rightarrow> normalize_list r1 prop
                | RuleNoneOf \<Rightarrow> normalize_list r1 prop
                | RuleFixed \<Rightarrow> normalize_pin r1 prop
                | RuleDefault \<Rightarrow> normalize_pin r1 prop
                | RuleOther k \<Rightarrow> Inl (''unknown kind of rule '' @ go_quote k))))"

section \<open>A set of rules\<close>

text \<open>What \<^verbatim>\<open>NormalizeRules\<close> keeps as it goes; a slot is a tool and one of its inputs.\<close>

record rules_state =
  rs_out :: "tool_rule list"
  rs_per_tool :: "string \<Rightarrow> nat"
  rs_pinned :: "string \<times> string \<rightharpoonup> rule_kind"
  rs_products :: "(string \<times> string \<times> string) list"
  rs_maxes :: "((string \<times> string) \<times> f64) list"
  rs_mins :: "((string \<times> string) \<times> f64) list"

definition num_value :: "tool_rule \<Rightarrow> f64 option" where
  "num_value r = as_f64 (tr_value r)"

text \<open>The number of a limit in canonical form (never anything else, so the default is not reached).\<close>

definition limit_of :: "tool_rule \<Rightarrow> f64" where
  "limit_of r = (case num_value r of Some n \<Rightarrow> n | None \<Rightarrow> NaN)"

definition slot_of :: "tool_rule \<Rightarrow> string \<times> string" where
  "slot_of r = (tr_tool_id r, tr_input r)"

definition take_slot :: "tool_rule \<Rightarrow> rules_state \<Rightarrow> string + rules_state" where
  "take_slot n st =
     (let s = slot_of n in
      case tr_kind n of
        RuleMaxProduct \<Rightarrow>
          (let key = (tr_tool_id n, tr_input n, tr_with n); rv = (tr_tool_id n, tr_with n, tr_input n) in
           if key \<in> set (rs_products st) \<or> rv \<in> set (rs_products st)
           then Inl (humanize (tr_input n) @ times_sign @ humanize (tr_with n) @ '' already has a limit'')
           else Inr (st\<lparr>rs_products := key # rs_products st\<rparr>))
      | RuleMax \<Rightarrow>
          (if map_of (rs_maxes st) s \<noteq> None then Inl (humanize (tr_input n) @ '' already has a largest allowed'')
           else Inr (st\<lparr>rs_maxes := (s, limit_of n) # rs_maxes st\<rparr>))
      | RuleMin \<Rightarrow>
          (if map_of (rs_mins st) s \<noteq> None then Inl (humanize (tr_input n) @ '' already has a smallest allowed'')
           else Inr (st\<lparr>rs_mins := (s, limit_of n) # rs_mins st\<rparr>))
      | k \<Rightarrow>
          (if k = RuleFixed \<or> k = RuleDefault then
             (case rs_pinned st s of
                Some prev \<Rightarrow> Inl (humanize (tr_input n) @ '' already has a '' @ replace_all ''_'' '' '' (kind_name prev) @
                   '' value; a detail can have only one'')
              | None \<Rightarrow> Inr (st\<lparr>rs_pinned := (rs_pinned st)(s \<mapsto> k)\<rparr>))
           else Inr st))"

definition add_rule :: "tool_rule \<Rightarrow> tool_def gomap \<Rightarrow> rules_state \<Rightarrow> string + rules_state" where
  "add_rule r tools st =
     (case normalize_rule r (gm_get tools (tr_tool_id r)) of
        Inl e \<Rightarrow> Inl e
      | Inr n \<Rightarrow>
         (let c = Suc (rs_per_tool st (tr_tool_id n)); st1 = st\<lparr>rs_per_tool := (rs_per_tool st)(tr_tool_id n := c)\<rparr> in
          if max_rules_per_tool < c
          then Inl (''too many rules on one thing it does (up to '' @ itoa (int max_rules_per_tool) @ '')'')
          else case take_slot n st1 of
              Inl e \<Rightarrow> Inl e | Inr st2 \<Rightarrow> Inr (st2\<lparr>rs_out := rs_out st2 @ [n]\<rparr>)))"

fun add_rules :: "tool_rule list \<Rightarrow> tool_def gomap \<Rightarrow> rules_state \<Rightarrow> string + rules_state" where
  "add_rules [] tools st = Inr st"
| "add_rules (r # rs) tools st = (case add_rule r tools st of Inl e \<Rightarrow> Inl e | Inr st1 \<Rightarrow> add_rules rs tools st1)"

text \<open>A slot whose smallest allowed is above its largest.\<close>

definition crossed :: "rules_state \<Rightarrow> ((string \<times> string) \<times> f64) option" where
  "crossed st = find (\<lambda>(s, hi). case map_of (rs_mins st) s of Some lo \<Rightarrow> f_lt hi lo | None \<Rightarrow> False) (rs_maxes st)"

definition no_rules :: rules_state where
  "no_rules = \<lparr>rs_out = [], rs_per_tool = (\<lambda>_. 0), rs_pinned = Map.empty, rs_products = [], rs_maxes = [], rs_mins = []\<rparr>"

definition normalize_rules :: "tool_rule list \<Rightarrow> tool_def gomap \<Rightarrow> string + tool_rule list" where
  "normalize_rules rules tools =
     (case add_rules rules tools no_rules of
        Inl e \<Rightarrow> Inl e
      | Inr st \<Rightarrow>
         (case crossed st of
            Some (s, hi) \<Rightarrow> Inl (''the smallest allowed for '' @ humanize (snd s) @ '' is bigger than the largest allowed'')
          | None \<Rightarrow> Inr (rs_out st)))"

section \<open>Filling in fixed and default values\<close>

definition blank :: "args \<Rightarrow> string \<Rightarrow> bool" where
  "blank out k \<longleftrightarrow> get_any out k = GNil \<or> get_any out k = GStr []"

definition apply_pin :: "tool_rule \<Rightarrow> args \<Rightarrow> args" where
  "apply_pin r out =
     (if tr_kind r = RuleFixed then gm_set (tr_input r) (tr_value r) out
      else if tr_kind r = RuleDefault \<and> blank out (tr_input r) then gm_set (tr_input r) (tr_value r) out
      else out)"

definition apply_pins :: "tool_rule list \<Rightarrow> args \<Rightarrow> args" where
  "apply_pins rules input = fold apply_pin rules input"

section \<open>Whether a call breaks a rule\<close>

definition refusal_text :: "tool_rule \<Rightarrow> string \<Rightarrow> string" where
  "refusal_text r standard = (if tr_message r \<noteq> [] then tr_message r else standard)"

definition f_abs :: "f64 \<Rightarrow> f64" where
  "f_abs x = (case x of Fin q \<Rightarrow> Fin \<bar>q\<bar> | NInf \<Rightarrow> PInf | y \<Rightarrow> y)"

text \<open>The slack of a limit: \<^verbatim>\<open>1e-9*math.Max(1, math.Abs(limit))\<close>.\<close>

definition limit_slack :: "f64 \<Rightarrow> f64" where
  "limit_slack l = f_mul (rnd64 (1 / 1000000000)) (if f_lt (f_abs l) (Fin 1) then Fin 1 else f_abs l)"

definition breaks_product :: "tool_rule \<Rightarrow> args \<Rightarrow> string option" where
  "breaks_product r input =
     (let what = humanize (tr_input r) @ times_sign @ humanize (tr_with r) in
      case (to_number (get_any input (tr_input r)), to_number (get_any input (tr_with r))) of
        (Some a, Some b) \<Rightarrow>
          (case num_value r of
             None \<Rightarrow> None
           | Some limit \<Rightarrow>
              (let total = f_mul a b in
               if f_lt (limit_slack limit) (f_sub total limit)
               then Some (refusal_text r (''That comes to '' @ format_number (round_to2 total) @ '' for '' @ what @
                  '', which is more than the most allowed ('' @ format_number limit @ ''), so nothing was done.''))
               else Some []))
      | _ \<Rightarrow> Some (refusal_text r (''I can't check the limit on '' @ what @ '' without both numbers, so nothing was done.'')))"

text \<open>A limit on one number: \<open>over\<close> says that the number is on the wrong side of it.\<close>

definition breaks_limit :: "tool_rule \<Rightarrow> (f64 \<Rightarrow> f64 \<Rightarrow> bool) \<Rightarrow> string \<Rightarrow> goval \<Rightarrow> string option" where
  "breaks_limit r over words v =
     (case to_number v of
        None \<Rightarrow> Some []
      | Some n \<Rightarrow>
         (case num_value r of
            None \<Rightarrow> None
          | Some limit \<Rightarrow>
             (if over n limit then Some (refusal_text r (words @ '' allowed for '' @ humanize (tr_input r) @ '' ('' @
                format_number limit @ ''), so nothing was done.'')) else Some [])))"

definition breaks_one :: "tool_rule \<Rightarrow> args \<Rightarrow> string option" where
  "breaks_one r input =
     (let v = get_any input (tr_input r) in
      if tr_kind r = RuleMaxProduct then breaks_product r input
      else if v = GNil then Some []
      else case tr_kind r of
        RuleMax \<Rightarrow> breaks_limit r (\<lambda>n l. f_lt l n) ''That's more than the most'' v
      | RuleMin \<Rightarrow> breaks_limit r (\<lambda>n l. f_lt n l) ''That's less than the least'' v
      | RuleOneOf \<Rightarrow>
          (if value_in (tr_value r) v then Some []
           else Some (refusal_text r (''Only these are allowed for '' @ humanize (tr_input r) @ '': '' @ list_of (tr_value r) @ ''. So nothing was done.'')))
      | RuleNoneOf \<Rightarrow>
          (if value_in (tr_value r) v
           then Some (refusal_text r (capital_first (sprint v) @ '' isn't allowed for '' @ humanize (tr_input r) @ '', so nothing was done.''))
           else Some [])
      | _ \<Rightarrow> Some [])"

text \<open>\<open>None\<close>: a panic; \<open>Some []\<close>: every rule is kept; else the reason the call is refused.\<close>

fun breaks :: "tool_rule list \<Rightarrow> args \<Rightarrow> string option" where
  "breaks [] input = Some []"
| "breaks (r # rs) input =
     (case breaks_one r input of
        None \<Rightarrow> None
      | Some why \<Rightarrow> (if why \<noteq> [] then Some why else breaks rs input))"

section \<open>What the model is told\<close>

record told =
  tl_props :: "(string \<times> schema) list"
  tl_required :: "string list"

definition describe_more :: "schema \<Rightarrow> string \<Rightarrow> schema" where
  "describe_more p t = Schema (s_type p) (trim_space (s_description p @ '' '' @ t)) (s_properties p) (s_items p) (s_required p) (s_enum p)"

definition note_on :: "string \<Rightarrow> string \<Rightarrow> told \<Rightarrow> told" where
  "note_on name t st = (case gm_get (tl_props st) name of
     None \<Rightarrow> st | Some p \<Rightarrow> st\<lparr>tl_props := gm_set name (describe_more p t) (tl_props st)\<rparr>)"

definition drop_required :: "string \<Rightarrow> told \<Rightarrow> told" where
  "drop_required name st = st\<lparr>tl_required := filter (\<lambda>n. n \<noteq> name) (tl_required st)\<rparr>"

definition with_limit_note :: "(f64 \<Rightarrow> told \<Rightarrow> told) \<Rightarrow> tool_rule \<Rightarrow> told option \<Rightarrow> told option" where
  "with_limit_note f r st = (case (num_value r, st) of (Some l, Some s) \<Rightarrow> Some (f l s) | _ \<Rightarrow> None)"

definition product_note :: "string \<Rightarrow> tool_rule \<Rightarrow> f64 \<Rightarrow> string" where
  "product_note other r l = ''Together with '' @ humanize other @ '', '' @ humanize (tr_input r) @ times_sign @ humanize (tr_with r) @
     '' may not come to more than '' @ format_number l @ ''.''"

definition tell_rule :: "tool_rule \<Rightarrow> told option \<Rightarrow> told option" where
  "tell_rule r st =
     (case tr_kind r of
        RuleFixed \<Rightarrow> map_option (\<lambda>s. drop_required (tr_input r) (s\<lparr>tl_props := gm_del (tr_input r) (tl_props s)\<rparr>)) st
      | RuleDefault \<Rightarrow> map_option (\<lambda>s. note_on (tr_input r) (''If you leave it out, '' @ sprint (tr_value r) @ '' is used.'')
                          (drop_required (tr_input r) s)) st
      | RuleMaxProduct \<Rightarrow> with_limit_note (\<lambda>l s. note_on (tr_with r) (product_note (tr_input r) r l)
                          (note_on (tr_input r) (product_note (tr_with r) r l) s)) r st
      | RuleMax \<Rightarrow> with_limit_note (\<lambda>l s. note_on (tr_input r) (''Allowed: at most '' @ format_number l @ ''.'') s) r st
      | RuleMin \<Rightarrow> with_limit_note (\<lambda>l s. note_on (tr_input r) (''Allowed: at least '' @ format_number l @ ''.'') s) r st
      | RuleOneOf \<Rightarrow> map_option (note_on (tr_input r) (''Allowed: only '' @ list_of (tr_value r) @ ''.'')) st
      | RuleNoneOf \<Rightarrow> map_option (note_on (tr_input r) (''Not allowed: '' @ list_of (tr_value r) @ ''.'')) st
      | RuleOther k \<Rightarrow> st)"

definition told_input :: "schema \<Rightarrow> told \<Rightarrow> schema" where
  "told_input s t = Schema (s_type s) (s_description s) (tl_props t) (s_items s) (tl_required t) (s_enum s)"

text \<open>\<open>None\<close>: a panic, for a limit that is not a number.\<close>

definition spec_with_rules :: "tool_spec \<Rightarrow> tool_rule list \<Rightarrow> tool_spec option" where
  "spec_with_rules spec rules =
     (if rules = [] then Some spec
      else map_option (\<lambda>t. spec\<lparr>ts_input := told_input (ts_input spec) t\<rparr>)
        (fold tell_rule rules (Some \<lparr>tl_props = s_properties (ts_input spec), tl_required = s_required (ts_input spec)\<rparr>)))"

end
