(* ===== verification/Prerequisites.thy ===== *)
theory Prerequisites
  imports Tool_Types
begin

text \<open>
  What must run first (\<^verbatim>\<open>domain/prerequisite.go\<close>): the rules a creator gives, how they are
  checked, and the journal of what ran successfully in one run, which they are checked against.
  The journal is used through an interface (\<open>run_journal\<close>): what is noted is found, and what
  was found stays found.
\<close>

section \<open>The rules\<close>

record prerequisite =
  pq_id :: string
  pq_before :: string
  pq_first :: string
  pq_same :: "string list"
  pq_text :: string
  pq_one_of :: "string list"

definition max_prerequisites :: nat where "max_prerequisites = 10"

definition nobody_can :: "string \<Rightarrow> string" where
  "nobody_can name = go_quote name @ '' isn't something this capability can do''"

text \<open>The inputs named in \<^verbatim>\<open>Same\<close>: trimmed, blanks left out, each declared on both abilities.\<close>

fun clean_same :: "tool_def \<Rightarrow> tool_def \<Rightarrow> string list \<Rightarrow> string + string list" where
  "clean_same before first [] = Inr []"
| "clean_same before first (s0 # ss) =
     (let s = trim_space s0 in
      if s = [] then clean_same before first ss
      else if \<not> has_property (td_input before) s \<or> \<not> has_property (td_input first) s
      then Inl (model_name before @ '' and '' @ model_name first @ '' don't both have '' @ go_quote s)
      else case clean_same before first ss of Inl e \<Rightarrow> Inl e | Inr out \<Rightarrow> Inr (s # out))"

definition normalize_one :: "tool_def gomap \<Rightarrow> prerequisite \<Rightarrow> string + prerequisite" where
  "normalize_one granted p =
     (case gm_get granted (pq_before p) of
        None \<Rightarrow> Inl (nobody_can (pq_before p))
      | Some before \<Rightarrow>
         (case gm_get granted (pq_first p) of
            None \<Rightarrow> Inl (nobody_can (pq_first p))
          | Some first \<Rightarrow>
             (if pq_before p = pq_first p then Inl ''something can't have to happen before itself''
              else if \<not> td_read_only first
              then Inl (''only something that looks things up can be made to happen first ('' @ model_name first @ '' changes things)'')
              else case clean_same before first (pq_same p) of
                  Inl e \<Rightarrow> Inl e
                | Inr same \<Rightarrow> Inr (p\<lparr>pq_same := same, pq_text := concat (take 200 (runes (trim_space (pq_text p))))\<rparr>))))"

definition pq_key :: "prerequisite \<Rightarrow> string" where
  "pq_key p = pq_before p @ ''|'' @ pq_first p @ ''|'' @ join '','' (pq_same p)"

fun normalize_each :: "tool_def gomap \<Rightarrow> string list \<Rightarrow> prerequisite list \<Rightarrow> string + prerequisite list" where
  "normalize_each granted seen [] = Inr []"
| "normalize_each granted seen (p # ps) =
     (case normalize_one granted p of
        Inl e \<Rightarrow> Inl e
      | Inr q \<Rightarrow>
         (if pq_key q \<in> set seen then normalize_each granted seen ps
          else case normalize_each granted (pq_key q # seen) ps of Inl e \<Rightarrow> Inl e | Inr qs \<Rightarrow> Inr (q # qs)))"

definition normalize_prerequisites :: "prerequisite list \<Rightarrow> tool_def gomap \<Rightarrow> string + prerequisite list" where
  "normalize_prerequisites ps granted =
     (if max_prerequisites < length ps
      then Inl (''a capability can keep at most '' @ itoa (int max_prerequisites) @ '' of these'')
      else normalize_each granted [] ps)"

section \<open>Comparing inputs\<close>

definition json_or_empty :: "goval \<Rightarrow> string" where
  "json_or_empty v = (case json_marshal v of Some s \<Rightarrow> s | None \<Rightarrow> [])"

definition same_input :: "goval \<Rightarrow> goval \<Rightarrow> bool" where
  "same_input a b =
     (if a = GNil \<or> b = GNil then a = GNil \<and> b = GNil
      else case (as_str a, as_str b) of
        (Some s, Some t) \<Rightarrow> equal_fold (trim_space s) (trim_space t)
      | _ \<Rightarrow>
         (case (number_of_value a, number_of_value b) of
            (Some x, Some y) \<Rightarrow> f_eq x y
          | _ \<Rightarrow> json_or_empty a = json_or_empty b))"

text \<open>A result without an error that still says it didn't work.\<close>

definition says_it_failed :: "goval \<Rightarrow> bool" where
  "says_it_failed out =
     (case out of
        GObj m \<Rightarrow>
          to_lower (sprint (get_any m ''status'')) \<in> {''error'', ''failed'', ''failure'', ''refused'', ''denied''} \<or>
          get_any m ''ok'' = GBool False \<or>
          (case get_any m ''error'' of GStr e \<Rightarrow> trim_space e \<noteq> [] | _ \<Rightarrow> False)
      | _ \<Rightarrow> False)"

section \<open>The journal of a run\<close>

record journal_entry =
  je_tool :: string
  je_input :: args

type_synonym journal = "journal_entry list"

text \<open>A run without a journal (\<^verbatim>\<open>nil\<close>) notes nothing and has nothing.\<close>

definition journal_note :: "string \<Rightarrow> args \<Rightarrow> journal option \<Rightarrow> journal option" where
  "journal_note tool input j = map_option (\<lambda>es. es @ [\<lparr>je_tool = tool, je_input = input\<rparr>]) j"

definition entry_matches :: "string \<Rightarrow> string list \<Rightarrow> args \<Rightarrow> journal_entry \<Rightarrow> bool" where
  "entry_matches tool same input e \<longleftrightarrow>
     je_tool e = tool \<and> (\<forall>s \<in> set same. same_input (get_any (je_input e) s) (get_any input s))"

definition journal_has :: "journal option \<Rightarrow> string \<Rightarrow> string list \<Rightarrow> args \<Rightarrow> bool" where
  "journal_has j tool same input = (case j of None \<Rightarrow> False | Some es \<Rightarrow> (\<exists>e \<in> set es. entry_matches tool same input e))"

definition journal_has_any :: "journal option \<Rightarrow> string list \<Rightarrow> bool" where
  "journal_has_any j tools \<longleftrightarrow> (\<exists>t \<in> set tools. journal_has j t [] [])"

text \<open>
  The interface: noting, asking, and which runs have a journal. A client relies on the three laws
  only.
\<close>

locale run_journal =
  fixes jot :: "string \<Rightarrow> args \<Rightarrow> 'j \<Rightarrow> 'j"
    and found :: "'j \<Rightarrow> string \<Rightarrow> string list \<Rightarrow> args \<Rightarrow> bool"
    and kept :: "'j \<Rightarrow> bool"
  assumes noted: "kept j \<Longrightarrow> found (jot t inp j) t' same inp' \<longleftrightarrow>
      found j t' same inp' \<or> (t' = t \<and> (\<forall>s \<in> set same. same_input (get_any inp s) (get_any inp' s)))"
    and stays: "kept (jot t inp j) = kept j"
    and none: "\<not> kept j \<Longrightarrow> \<not> found j t same inp"
begin

fun jot_all :: "(string \<times> args) list \<Rightarrow> 'j \<Rightarrow> 'j" where
  "jot_all [] j = j"
| "jot_all ((t, inp) # xs) j = jot_all xs (jot t inp j)"

lemma kept_jot_all [simp]: "kept (jot_all xs j) = kept j"
  by (induction xs j rule: jot_all.induct) (simp_all add: stays)

lemma found_mono: "found j t' same inp' \<Longrightarrow> found (jot t inp j) t' same inp'"
  using noted none by blast

lemma found_jot_all_mono: "found j t' same inp' \<Longrightarrow> found (jot_all xs j) t' same inp'"
  by (induction xs j rule: jot_all.induct) (auto intro: found_mono)

text \<open>After a run of entries exactly what was found before or noted since is found.\<close>

lemma found_jot_all:
  "kept j \<Longrightarrow> found (jot_all xs j) t' same inp' \<longleftrightarrow>
     found j t' same inp' \<or> (\<exists>inp. (t', inp) \<in> set xs \<and> (\<forall>s \<in> set same. same_input (get_any inp s) (get_any inp' s)))"
  by (induction xs j rule: jot_all.induct) (auto simp: stays noted)

lemma found_new: "found (jot_all xs j) t' same inp' \<Longrightarrow> kept j \<Longrightarrow> \<not> found j t' same inp' \<Longrightarrow>
    \<exists>inp. (t', inp) \<in> set xs"
  using found_jot_all by blast

end

interpretation journal: run_journal journal_note journal_has "\<lambda>j. j \<noteq> None"
  by unfold_locales (auto simp: journal_note_def journal_has_def entry_matches_def split: option.splits)

section \<open>What holds of the rules\<close>

definition prerequisite_ok :: "tool_def gomap \<Rightarrow> prerequisite \<Rightarrow> bool" where
  "prerequisite_ok granted p \<longleftrightarrow>
     pq_before p \<noteq> pq_first p \<and>
     (\<exists>before first. gm_get granted (pq_before p) = Some before \<and> gm_get granted (pq_first p) = Some first \<and>
        td_read_only first \<and>
        (\<forall>s \<in> set (pq_same p). s \<noteq> [] \<and> trim_space s = s \<and> has_property (td_input before) s \<and> has_property (td_input first) s))"

lemma clean_same_ok:
  "clean_same before first ss = Inr out \<Longrightarrow> s \<in> set out \<Longrightarrow>
     s \<noteq> [] \<and> trim_space s = s \<and> has_property (td_input before) s \<and> has_property (td_input first) s"
  by (induction ss arbitrary: out) (auto simp: Let_def split: if_splits sum.splits)

lemma normalize_one_ok: "normalize_one granted p = Inr q \<Longrightarrow> prerequisite_ok granted q"
  by (auto simp: normalize_one_def prerequisite_ok_def split: option.splits if_splits sum.splits dest: clean_same_ok)

lemma normalize_each_ok:
  "normalize_each granted seen ps = Inr qs \<Longrightarrow>
     length qs \<le> length ps \<and> (\<forall>q \<in> set qs. prerequisite_ok granted q) \<and>
     distinct (map pq_key qs) \<and> set (map pq_key qs) \<inter> set seen = {}"
proof (induction ps arbitrary: seen qs)
  case Nil
  then show ?case by simp
next
  case (Cons p ps)
  then obtain q where q: "normalize_one granted p = Inr q" by (auto split: sum.splits)
  note ok = normalize_one_ok [OF q]
  show ?case
  proof (cases "pq_key q \<in> set seen")
    case True
    with Cons q have "normalize_each granted seen ps = Inr qs" by simp
    from Cons.IH [OF this] show ?thesis by auto
  next
    case False
    with Cons q obtain rest where "normalize_each granted (pq_key q # seen) ps = Inr rest" "qs = q # rest"
      by (auto split: sum.splits)
    with Cons.IH [of "pq_key q # seen" rest] ok False show ?thesis by auto
  qed
qed

end
