(* ===== verification/Tool_Gates.thy ===== *)
theory Tool_Gates
  imports Tool_Rules Prerequisites
begin

text \<open>
  A stored tool becomes something an agent can run (\<^verbatim>\<open>domain/hydrate.go\<close> \<^verbatim>\<open>BindTool\<close>,
  \<^verbatim>\<open>domain/prepare.go\<close>, \<^verbatim>\<open>domain/timezone.go\<close>, \<^verbatim>\<open>domain/executor.go\<close>): the executor's
  call behind the gates the platform requires. A Go closure over an inner closure is a function
  from handlers to handlers; the request context is the record \<open>ctx\<close>; what the gates and the
  executor change is the record \<open>world\<close>.
\<close>

section \<open>The context of a call\<close>

record conv =
  cv_provider :: string
  cv_chat :: string
  cv_thread :: string
  cv_identity :: string
  cv_user :: string
  cv_message :: string
  cv_sender :: string
  cv_shared :: bool

text \<open>
  What the runtime attaches to a turn. The requesters are interfaces the host implements: they
  may do anything to the environment \<open>'e\<close> and answer anything. A missing value and an absent
  key read as the zero value, as in Go.
\<close>

record 'e ctx =
  cx_unattended :: bool
  cx_allowed :: "string list"
  cx_conv :: "conv option"
  cx_approver :: "(conv \<Rightarrow> string \<Rightarrow> int \<Rightarrow> 'e \<Rightarrow> (goerr + bool) \<times> 'e) option"
  cx_connecter :: "(conv \<Rightarrow> identity \<Rightarrow> string \<Rightarrow> string \<Rightarrow> 'e \<Rightarrow> (goerr + string) \<times> 'e) option"
  cx_tz_asker :: "(conv \<Rightarrow> string \<Rightarrow> 'e \<Rightarrow> goerr option \<times> 'e) option"
  cx_timezone :: string
  cx_user :: string
  cx_refs :: "string gomap"
  cx_approvals :: "string \<Rightarrow> bool"
  cx_connect_tool :: string
  cx_caller :: string

text \<open>
  What happened, in order: the executor ran (which tool, with which identity, connection, action
  and inputs, and what it gave back), a person was asked to approve (what they were shown, and
  whether they agreed), where a step is, the person was asked for a time zone, or to connect an
  account. The list is kept for the theorems; no gate reads it.
\<close>

datatype event =
    EvRan string "identity option" string string args goval "goerr option"
  | EvAsked string string bool
  | EvStep string step_state
  | EvTimezone
  | EvConnect string

record 'e world =
  w_env :: 'e
  w_journal :: "journal option"
  w_once :: "(nat \<times> string) list"
  w_events :: "event list"

definition emit :: "event \<Rightarrow> 'e world \<Rightarrow> 'e world" where
  "emit ev w = w\<lparr>w_events := w_events w @ [ev]\<rparr>"

type_synonym 'e handler = "'e ctx \<Rightarrow> args \<Rightarrow> 'e world \<Rightarrow> invoke_result \<times> 'e world"

definition fails :: "goerr \<Rightarrow> invoke_result" where
  "fails e = (GNil, Some e)"

definition says :: "string \<Rightarrow> invoke_result" where
  "says s = (GStr s, None)"

text \<open>The shape every refusal has.\<close>

definition refused :: "string \<Rightarrow> invoke_result" where
  "refused why = (GObj [(''status'', GStr ''refused''), (''changed'', GBool False), (''message'', GStr why)], None)"

section \<open>Executors\<close>

text \<open>A service's own code: \<^verbatim>\<open>Execute\<close>, and \<^verbatim>\<open>Prepare\<close> when it is a \<^verbatim>\<open>Preparer\<close>.\<close>

record 'e executor =
  ex_execute :: "'e ctx \<Rightarrow> identity option \<Rightarrow> string \<Rightarrow> string \<Rightarrow> args \<Rightarrow> 'e \<Rightarrow> invoke_result \<times> 'e"
  ex_prepare :: "('e ctx \<Rightarrow> identity option \<Rightarrow> string \<Rightarrow> string \<Rightarrow> args \<Rightarrow> 'e \<Rightarrow> (goerr + args option) \<times> 'e) option"

record 'e executor_registry =
  er_executors :: "'e executor gomap"
  er_fallback :: "(string \<Rightarrow> 'e executor option) option"

definition new_executor_registry :: "'e executor_registry" where
  "new_executor_registry = \<lparr>er_executors = [], er_fallback = None\<rparr>"

definition register_executor :: "string \<Rightarrow> 'e executor \<Rightarrow> 'e executor_registry \<Rightarrow> 'e executor_registry" where
  "register_executor service e r = r\<lparr>er_executors := gm_set service e (er_executors r)\<rparr>"

definition set_fallback :: "(string \<Rightarrow> 'e executor option) option \<Rightarrow> 'e executor_registry \<Rightarrow> 'e executor_registry" where
  "set_fallback f r = r\<lparr>er_fallback := f\<rparr>"

definition executor_for :: "'e executor_registry \<Rightarrow> string \<Rightarrow> 'e executor option" where
  "executor_for r service = (case gm_get (er_executors r) service of
     Some e \<Rightarrow> Some e
   | None \<Rightarrow> (case er_fallback r of Some f \<Rightarrow> f service | None \<Rightarrow> None))"

definition connection_ref :: "'e ctx \<Rightarrow> string \<Rightarrow> string" where
  "connection_ref cx identity_id = (case gm_get (cx_refs cx) identity_id of Some r \<Rightarrow> r | None \<Rightarrow> [])"

definition ref_of :: "'e ctx \<Rightarrow> identity option \<Rightarrow> string" where
  "ref_of cx i = (case i of None \<Rightarrow> [] | Some x \<Rightarrow> connection_ref cx (id_id x))"

definition with_caller :: "identity option \<Rightarrow> 'e ctx \<Rightarrow> 'e ctx" where
  "with_caller i cx = (case i of None \<Rightarrow> cx | Some x \<Rightarrow> cx\<lparr>cx_caller := id_id x\<rparr>)"

text \<open>The innermost closure of \<^verbatim>\<open>BindTool\<close>.\<close>

definition execute_tool :: "tool_def \<Rightarrow> identity option \<Rightarrow> 'e executor \<Rightarrow> 'e handler" where
  "execute_tool def i ex cx input w =
     (case ex_execute ex (with_caller i cx) i (ref_of cx i) (td_action def) input (w_env w) of
        ((out, err), e) \<Rightarrow>
          ((out, err), emit (EvRan (td_id def) i (ref_of cx i) (td_action def) input out err) (w\<lparr>w_env := e\<rparr>)))"

section \<open>The gates\<close>

definition with_journal :: "string \<Rightarrow> 'e handler \<Rightarrow> 'e handler" where
  "with_journal tool_id inner cx input w =
     (case inner cx input w of
        ((out, err), w1) \<Rightarrow>
          ((out, err),
           if really_done out err \<and> \<not> says_it_failed out
           then w1\<lparr>w_journal := journal_note tool_id input (w_journal w1)\<rparr> else w1))"

definition auth_pending_note :: "string" where
  "auth_pending_note = output_auth_pending_prefix @ '': the connect prompt has been sent to the user directly '' @ em_dash @
     '' do NOT write anything additional to the user. Call finish now with content set to exactly empty string '' @ quoted [] @ ''.''"

definition sign_in_unavailable :: "string \<Rightarrow> goerr \<Rightarrow> goerr" where
  "sign_in_unavailable tool_name e = \<lparr>err_text = tool_name @ '' can't be used right now ('' @ err_text e @
     ''). Don't call it again in this reply: answer with what you can, and tell the person plainly what you couldn't do'',
     err_wraps = err_wraps e\<rparr>"

definition with_auth_gate :: "identity \<Rightarrow> string \<Rightarrow> 'e handler \<Rightarrow> 'e handler" where
  "with_auth_gate i tool_name inner cx input w =
     (if connection_ref cx (id_id i) \<noteq> [] then inner cx input w
      else case cx_connecter cx of
        None \<Rightarrow> inner cx input w
      | Some connect \<Rightarrow>
         (case cx_conv cx of
            None \<Rightarrow> inner cx input w
          | Some cv \<Rightarrow>
             (let cx1 = (if tool_name \<noteq> [] then cx\<lparr>cx_connect_tool := tool_name\<rparr> else cx) in
              case connect cv i (cx_user cx) (cx_connect_tool cx1) (w_env w) of
                (res, e) \<Rightarrow>
                  (let w1 = emit (EvConnect (id_id i)) (w\<lparr>w_env := e\<rparr>) in
                   case res of
                     Inl err \<Rightarrow>
                       (if errors_is err ErrSignInUnavailable then (fails (sign_in_unavailable tool_name err), w1)
                        else (fails (wrapf (''tool requires authentication '' @ em_dash @ '' '') err), w1))
                   | Inr new_ref \<Rightarrow>
                       (if new_ref = [] then (says auth_pending_note, w1)
                        else inner (cx1\<lparr>cx_refs := gm_set (id_id i) new_ref (cx_refs cx1)\<rparr>) input w1)))))"

text \<open>
  An unattended run that was set up knowing it may use this ability on its own.
\<close>

definition agreed_in_advance :: "'e ctx \<Rightarrow> tool_def \<Rightarrow> bool" where
  "agreed_in_advance cx def \<longleftrightarrow> cx_unattended cx \<and> model_name def \<in> set (cx_allowed cx)"

text \<open>Asking a person; what the two approval gates share.\<close>

definition ask_first :: "tool_def \<Rightarrow> string \<Rightarrow> string \<Rightarrow> string \<Rightarrow> 'e handler \<Rightarrow> 'e handler" where
  "ask_first def no_requester no_conv asking inner cx input w =
     (case cx_approver cx of
        None \<Rightarrow> (fails (errorf no_requester), w)
      | Some ask \<Rightarrow>
         (case cx_conv cx of
            None \<Rightarrow> (fails (errorf no_conv), w)
          | Some cv \<Rightarrow>
             (let w1 = emit (EvStep (model_name def) StepWaiting) w;
                  prompt = render_approval_prompt def input
              in case ask cv prompt (td_approval_timeout def) (w_env w1) of
                   (res, e) \<Rightarrow>
                     (let w2 = (\<lambda>ok. emit (EvAsked (td_id def) prompt ok) (w1\<lparr>w_env := e\<rparr>)) in
                      case res of
                        Inl err \<Rightarrow> (fails (wrapf asking err), w2 False)
                      | Inr approved \<Rightarrow>
                          (if \<not> approved then (says output_not_approved, w2 False)
                           else inner cx input (emit (EvStep (model_name def) StepRunning) (w2 True)))))))"

definition with_approval_gate :: "tool_def \<Rightarrow> 'e handler \<Rightarrow> 'e handler" where
  "with_approval_gate def inner cx input w =
     (if agreed_in_advance cx def then inner cx input w
      else ask_first def
        (''tool '' @ go_quote (td_id def) @ '' requires approval, but this run has no ApprovalRequester attached '' @ em_dash @ '' refusing to run rather than executing unapproved'')
        (''tool '' @ go_quote (td_id def) @ '' requires approval, but this run has no active conversation to ask in'')
        (''tool '' @ go_quote (td_id def) @ '': requesting approval: '') inner cx input w)"

definition with_user_approval_gate :: "tool_def \<Rightarrow> 'e handler \<Rightarrow> 'e handler" where
  "with_user_approval_gate def inner cx input w =
     (if td_read_only def \<or> \<not> cx_approvals cx (td_id def) \<or> agreed_in_advance cx def then inner cx input w
      else ask_first def
        (''tool '' @ go_quote (td_id def) @ '': user requires approval, but this run has no ApprovalRequester attached'')
        (''tool '' @ go_quote (td_id def) @ '': user requires approval, but this run has no active conversation'')
        (''tool '' @ go_quote (td_id def) @ '': requesting user approval: '') inner cx input w)"

definition once_key :: "string list \<Rightarrow> args \<Rightarrow> string" where
  "once_key once_for input =
     (if once_for = [] then []
      else join [CHR 0x1F] (map (\<lambda>k. to_upper (trim_space (sprint (get_any input k)))) once_for))"

definition already_completed :: "string" where
  "already_completed = ''already completed: this exact change went through earlier in this reply, so it was not made again '' @
     em_dash @ '' call finish to tell the person what was done''"

text \<open>\<open>g\<close> names the guard: each \<^verbatim>\<open>withOneShotGuard\<close> closure has a table of its own.\<close>

definition with_one_shot_guard :: "nat \<Rightarrow> string list \<Rightarrow> 'e handler \<Rightarrow> 'e handler" where
  "with_one_shot_guard g once_for inner cx input w =
     (let key = once_key once_for input in
      if (g, key) \<in> set (w_once w) then (says already_completed, w)
      else case inner cx input w of
          ((out, err), w1) \<Rightarrow>
            ((out, err), if really_done out err then w1\<lparr>w_once := (g, key) # w_once w1\<rparr> else w1))"

text \<open>\<^verbatim>\<open>AskForTimezone\<close>: true when the prompt was sent.\<close>

definition ask_for_timezone :: "'e ctx \<Rightarrow> 'e world \<Rightarrow> bool \<times> 'e world" where
  "ask_for_timezone cx w =
     (if cx_timezone cx \<noteq> [] then (False, w)
      else case cx_tz_asker cx of
        None \<Rightarrow> (False, w)
      | Some ask \<Rightarrow>
         (case cx_conv cx of
            None \<Rightarrow> (False, w)
          | Some cv \<Rightarrow>
             (let user = (if cv_user cv \<noteq> [] then cv_user cv else cx_user cx) in
              if user = [] then (False, w)
              else case ask cv user (w_env w) of
                (err, e) \<Rightarrow> (err = None, emit EvTimezone (w\<lparr>w_env := e\<rparr>)))))"

definition timezone_pending_note :: "string" where
  "timezone_pending_note = output_timezone_pending_prefix @ '': the person has been asked for their time zone, directly '' @ em_dash @
     '' do NOT write anything additional to them. Call finish now with content set to exactly empty string '' @ quoted [] @ ''.''"

definition with_timezone_gate :: "tool_def \<Rightarrow> 'e handler \<Rightarrow> 'e handler" where
  "with_timezone_gate def inner cx input w =
     (if \<not> td_needs_local_time def then inner cx input w
      else case ask_for_timezone cx w of
          (True, w1) \<Rightarrow> (says timezone_pending_note, w1)
        | (False, w1) \<Rightarrow> inner cx input w1)"

definition panics :: goerr where
  "panics = \<lparr>err_text = ''panic'', err_wraps = [GoPanic]\<rparr>"

definition with_rules :: "tool_rule list \<Rightarrow> 'e handler \<Rightarrow> 'e handler" where
  "with_rules rules inner cx input w =
     (case breaks rules input of
        None \<Rightarrow> (fails panics, w)
      | Some why \<Rightarrow> (if why \<noteq> [] then (refused why, w) else inner cx input w))"

definition with_prepare ::
  "('e ctx \<Rightarrow> identity option \<Rightarrow> string \<Rightarrow> string \<Rightarrow> args \<Rightarrow> 'e \<Rightarrow> (goerr + args option) \<times> 'e) \<Rightarrow>
     tool_def \<Rightarrow> identity option \<Rightarrow> 'e handler \<Rightarrow> 'e handler" where
  "with_prepare prepare def i inner cx input w =
     (case prepare cx i (ref_of cx i) (td_action def) input (w_env w) of
        (Inl err, e) \<Rightarrow> (fails (wrapf (model_name def @ '': '') err), w\<lparr>w_env := e\<rparr>)
      | (Inr p, e) \<Rightarrow> inner cx (case p of None \<Rightarrow> input | Some x \<Rightarrow> x) (w\<lparr>w_env := e\<rparr>))"

definition with_input_contract :: "tool_def \<Rightarrow> 'e handler \<Rightarrow> 'e handler" where
  "with_input_contract def inner cx input w =
     (case check_input (td_input def) input of
        Inl e \<Rightarrow> (fails (errorf (model_name def @ '': '' @ e)), w)
      | Inr clean \<Rightarrow> inner cx clean w)"

definition with_pins :: "tool_rule list \<Rightarrow> 'e handler \<Rightarrow> 'e handler" where
  "with_pins rules inner cx input w = inner cx (apply_pins rules input) w"

section \<open>A bound tool\<close>

text \<open>
  The closures of \<^verbatim>\<open>BindTool\<close>, innermost first, as the code builds them. \<open>g\<close> is the name of
  the one-shot table of this binding.
\<close>

definition gated :: "tool_def \<Rightarrow> identity option \<Rightarrow> 'e executor \<Rightarrow> nat \<Rightarrow> tool_rule list \<Rightarrow> 'e handler" where
  "gated def i ex g rules =
     (let h0 = execute_tool def i ex;
          h1 = with_journal (td_id def) h0;
          h2 = (case i of None \<Rightarrow> h1
                | Some x \<Rightarrow> if id_kind x \<noteq> identity_kind_token then with_auth_gate x (td_name def) h1 else h1);
          h3 = with_user_approval_gate def h2;
          h4 = (if td_requires_approval def
                then with_one_shot_guard g (td_once_for def) (with_approval_gate def h3) else h3);
          h5 = with_timezone_gate def h4;
          h6 = (if rules \<noteq> [] then with_rules rules h5 else h5);
          h7 = (case ex_prepare ex of None \<Rightarrow> h6 | Some p \<Rightarrow> with_prepare p def i h6);
          h8 = with_input_contract def h7
      in if rules \<noteq> [] then with_pins rules h8 else h8)"

record 'e gated_tool =
  gt_spec :: tool_spec
  gt_invoke :: "'e handler"

definition bind_tool ::
  "tool_def \<Rightarrow> identity option \<Rightarrow> integration \<Rightarrow> 'e executor_registry \<Rightarrow> nat \<Rightarrow> tool_rule list \<Rightarrow> goerr + 'e gated_tool" where
  "bind_tool def i integ registry g rules =
     (if td_integration_id def \<noteq> in_id integ
      then Inl (errorf (''hydrate tool '' @ go_quote (td_id def) @ '': belongs to integration '' @ go_quote (td_integration_id def) @
             '', got '' @ go_quote (in_id integ)))
      else case executor_for registry (in_service integ) of
        None \<Rightarrow> Inl (errorf (''hydrate tool '' @ go_quote (td_id def) @ '': no executor registered for service '' @ go_quote (in_service integ)))
      | Some ex \<Rightarrow>
         (case spec_with_rules (spec_of_tool def) rules of
            None \<Rightarrow> Inl panics
          | Some sp \<Rightarrow> Inr \<lparr>gt_spec = sp, gt_invoke = gated def i ex g rules\<rparr>))"

text \<open>The action a loop is given runs the tool itself, in the turn's context.\<close>

definition action_in :: "'e ctx \<Rightarrow> 'e gated_tool \<Rightarrow> 'e world bound_action" where
  "action_in cx t = action_of_tool \<lparr>bt_spec = gt_spec t, bt_invoke = gt_invoke t cx\<rparr>"

section \<open>What must run first\<close>

text \<open>\<^verbatim>\<open>WrapPrerequisites\<close>; \<open>names\<close> maps a tool id to the name the model calls it by.\<close>

definition name_in :: "string gomap \<Rightarrow> string \<Rightarrow> string" where
  "name_in names i = (case gm_get names i of Some n \<Rightarrow> n | None \<Rightarrow> [])"

definition one_of_refusal :: "string \<Rightarrow> string gomap \<Rightarrow> prerequisite \<Rightarrow> string" where
  "one_of_refusal name names r =
     ''Not done: '' @ name @ '' acts on something you haven't looked up in this reply. Look it up again now ('' @
     join '' or '' (map (name_in names) (pq_one_of r)) @
     '') and use what that gives back, never an id you remember from earlier, then call '' @ name @ '' again if it still makes sense.''"

definition first_refusal :: "string \<Rightarrow> string gomap \<Rightarrow> prerequisite \<Rightarrow> args \<Rightarrow> string" where
  "first_refusal name names r input =
     ''Not done: before '' @ name @ '', run '' @ name_in names (pq_first r) @ '' first'' @
     (if pq_same r = [] then []
      else '' for the same '' @ join '', '' (map (\<lambda>s. s @ '' '' @ sprint (get_any input s)) (pq_same r))) @
     '', as required. Do that now, then call '' @ name @ '' again if it still makes sense.''"

definition unmet :: "'e ctx \<Rightarrow> journal option \<Rightarrow> args \<Rightarrow> prerequisite \<Rightarrow> bool" where
  "unmet cx j input r \<longleftrightarrow>
     (if pq_one_of r \<noteq> [] then \<not> cx_unattended cx \<and> \<not> journal_has_any j (pq_one_of r)
      else \<not> journal_has j (pq_first r) (pq_same r) input)"

definition with_prerequisites :: "string \<Rightarrow> prerequisite list \<Rightarrow> string gomap \<Rightarrow> 'e handler \<Rightarrow> 'e handler" where
  "with_prerequisites name rules names inner cx input w =
     (case find (unmet cx (w_journal w) input) rules of
        Some r \<Rightarrow> (refused (if pq_one_of r \<noteq> [] then one_of_refusal name names r else first_refusal name names r input), w)
      | None \<Rightarrow> inner cx input w)"

definition needs_of :: "prerequisite list \<Rightarrow> string gomap \<Rightarrow> string list" where
  "needs_of rules names =
     concat (map (\<lambda>r. if pq_one_of r \<noteq> [] then map (name_in names) (pq_one_of r) else [name_in names (pq_first r)]) rules)"

section \<open>What an agent holds of a tool\<close>

text \<open>
  What the closures of one bound ability were built from, and the closure itself: the gates of
  \<^verbatim>\<open>BindTool\<close> behind what must run first (with no such rules, \<^verbatim>\<open>WrapPrerequisites\<close> adds nothing).
\<close>

record 'e binding =
  bd_def :: tool_def
  bd_identity :: "identity option"
  bd_executor :: "'e executor"
  bd_guard :: nat
  bd_rules :: "tool_rule list"
  bd_needs :: "prerequisite list"
  bd_names :: "string gomap"

definition gates_of :: "'e binding \<Rightarrow> 'e handler" where
  "gates_of b = gated (bd_def b) (bd_identity b) (bd_executor b) (bd_guard b) (bd_rules b)"

definition handler_of :: "'e binding \<Rightarrow> 'e handler" where
  "handler_of b = with_prerequisites (model_name (bd_def b)) (bd_needs b) (bd_names b) (gates_of b)"

end
