(* ===== verification/Hydration.thy ===== *)
theory Hydration
  imports Catalog Tool_Gates
begin

text \<open>
  Which abilities a capability gives an agent, and how each is bound (\<^verbatim>\<open>domain/hydrate.go\<close>
  \<^verbatim>\<open>HydrateSkillTools\<close>, \<^verbatim>\<open>domain/granted.go\<close>, the types of \<^verbatim>\<open>domain/skill.go\<close> and
  \<^verbatim>\<open>domain/agent.go\<close>). A Go map is walked in the order of its association list: any order the
  runtime may take is the order of some list.
\<close>

section \<open>Capabilities and agents\<close>

record skill =
  sk_id :: string
  sk_name :: string
  sk_title :: string
  sk_description :: string
  sk_agent_id :: string
  sk_instructions :: string
  sk_input :: schema
  sk_output :: schema
  sk_tools :: "string list"
  sk_integrations :: "string list"
  sk_prerequisites :: "prerequisite list"
  sk_limited :: "string list"
  sk_rules :: "tool_rule list"
  sk_all_look_ups :: bool
  sk_public :: bool

record agent =
  ag_id :: string
  ag_skills :: "skill list"
  ag_rules :: "tool_rule list"
  ag_identities :: "string list"
  ag_max_iterations :: int
  ag_created_by :: string

definition agent_rules_for :: "agent option \<Rightarrow> string \<Rightarrow> tool_rule list" where
  "agent_rules_for a tool_id = (case a of None \<Rightarrow> [] | Some x \<Rightarrow> rules_for (ag_rules x) tool_id)"

definition skill_rules_for :: "skill \<Rightarrow> string \<Rightarrow> tool_rule list" where
  "skill_rules_for s tool_id = rules_for (sk_rules s) tool_id"

text \<open>\<^verbatim>\<open>rulesFor\<close>: the agent's rules, and then the capability's own.\<close>

definition rules_through :: "agent option \<Rightarrow> skill \<Rightarrow> string \<Rightarrow> tool_rule list" where
  "rules_through a s tool_id =
     (let own = skill_rules_for s tool_id in
      if own = [] then agent_rules_for a tool_id else agent_rules_for a tool_id @ own)"

section \<open>Binding one tool\<close>

text \<open>What binding reads: the capability, its agent, the maps of the catalog and the executors.\<close>

record 'e supplies =
  sp_skill :: skill
  sp_agent :: "agent option"
  sp_tools :: "tool_def gomap"
  sp_identities :: "identity gomap"
  sp_integrations :: "integration gomap"
  sp_registry :: "'e executor_registry option"

text \<open>A \<^verbatim>\<open>BoundAction\<close> made of a tool.\<close>

record 'e ability =
  ab_binding :: "'e binding"
  ab_spec :: tool_spec
  ab_needs :: "string list"
  ab_app :: string
  ab_app_name :: string
  ab_with :: "string list"
  ab_declared :: bool
  ab_limited :: bool

definition runs_here :: "'e executor_registry option \<Rightarrow> integration \<Rightarrow> bool" where
  "runs_here registry i = (case registry of None \<Rightarrow> False | Some r \<Rightarrow> executor_for r (in_service i) \<noteq> None)"

definition resolve_identity :: "agent option \<Rightarrow> integration \<Rightarrow> identity gomap \<Rightarrow> identity option" where
  "resolve_identity a integ ids =
     (let chosen = (case a of None \<Rightarrow> None
        | Some x \<Rightarrow> find (\<lambda>i. case gm_get ids i of None \<Rightarrow> False | Some y \<Rightarrow> id_integration y = in_id integ) (ag_identities x))
      in case chosen of
           Some i \<Rightarrow> gm_get ids i
         | None \<Rightarrow> find (\<lambda>y. id_integration y = in_id integ) (map snd ids))"

text \<open>\<^verbatim>\<open>HydrateTool\<close>; \<open>g\<close> names the one-shot table of the new closure.\<close>

definition hydrate_tool ::
  "tool_def \<Rightarrow> identity option \<Rightarrow> integration \<Rightarrow> 'e executor_registry \<Rightarrow> nat \<Rightarrow> tool_rule list \<Rightarrow> goerr + 'e ability" where
  "hydrate_tool def i integ registry g rules =
     (case bind_tool def i integ registry g rules of
        Inl e \<Rightarrow> Inl e
      | Inr t \<Rightarrow>
         (case executor_for registry (in_service integ) of
            None \<Rightarrow> Inl panics
          | Some ex \<Rightarrow>
              Inr \<lparr>ab_binding = \<lparr>bd_def = def, bd_identity = i, bd_executor = ex, bd_guard = g, bd_rules = rules,
                                bd_needs = [], bd_names = []\<rparr>,
                   ab_spec = gt_spec t, ab_needs = [], ab_app = [], ab_app_name = [], ab_with = [],
                   ab_declared = False, ab_limited = False\<rparr>))"

definition describe :: "tool_def \<Rightarrow> integration \<Rightarrow> tool_def gomap \<Rightarrow> 'e ability \<Rightarrow> 'e ability" where
  "describe def integ tools a =
     a\<lparr>ab_app := in_id integ, ab_app_name := in_name integ, ab_declared := \<not> in_own integ,
       ab_with := ab_with a @ map model_name (List.map_filter (gm_get tools) (td_with def))\<rparr>"

definition skill_error :: "skill \<Rightarrow> string \<Rightarrow> string" where
  "skill_error s msg = ''skill '' @ go_quote (sk_id s) @ '': '' @ msg"

text \<open>What both ways of granting do with one tool of an integration that runs here.\<close>

definition bind_one :: "'e supplies \<Rightarrow> 'e executor_registry \<Rightarrow> integration \<Rightarrow> nat \<Rightarrow> tool_def \<Rightarrow> goerr + 'e ability" where
  "bind_one sp registry integ g def =
     (case hydrate_tool def (resolve_identity (sp_agent sp) integ (sp_identities sp)) integ registry g
         (rules_through (sp_agent sp) (sp_skill sp) (td_id def)) of
        Inl e \<Rightarrow> Inl (wrapf (skill_error (sp_skill sp) []) e)
      | Inr a \<Rightarrow> Inr (describe def integ (sp_tools sp)
                    (a\<lparr>ab_limited := skill_rules_for (sp_skill sp) (td_id def) \<noteq> []\<rparr>)))"

section \<open>The abilities named by the creator\<close>

fun bind_named :: "'e supplies \<Rightarrow> nat \<Rightarrow> string list \<Rightarrow> goerr + 'e ability list" where
  "bind_named sp g [] = Inr []"
| "bind_named sp g (tool_id # ts) =
     (case gm_get (sp_tools sp) tool_id of
        None \<Rightarrow> Inl (errorf (skill_error (sp_skill sp) (''unknown tool '' @ go_quote tool_id)))
      | Some def \<Rightarrow>
         (if td_disabled def then bind_named sp g ts
          else case gm_get (sp_integrations sp) (td_integration_id def) of
            None \<Rightarrow> Inl (errorf (skill_error (sp_skill sp) (''tool '' @ go_quote (td_id def) @
                '' references unknown integration '' @ go_quote (td_integration_id def))))
          | Some integ \<Rightarrow>
             (case sp_registry sp of
                None \<Rightarrow> bind_named sp g ts
              | Some registry \<Rightarrow>
                 (if \<not> runs_here (Some registry) integ then bind_named sp g ts
                  else case bind_one sp registry integ g def of
                    Inl e \<Rightarrow> Inl e
                  | Inr a \<Rightarrow> (case bind_named sp (Suc g) ts of Inl e \<Rightarrow> Inl e | Inr as \<Rightarrow> Inr (a # as))))))"

section \<open>The abilities of granted connections\<close>

definition narrowed :: "skill \<Rightarrow> string \<Rightarrow> bool" where
  "narrowed s integration_id \<longleftrightarrow> integration_id \<in> set (sk_limited s)"

text \<open>The inner loop, over every tool there is: what was bound so far is given in and out.\<close>

fun bind_tools_of :: "'e supplies \<Rightarrow> 'e executor_registry \<Rightarrow> integration \<Rightarrow> string \<Rightarrow> tool_def list \<Rightarrow> 'e ability list \<Rightarrow> goerr + 'e ability list" where
  "bind_tools_of sp registry integ integration_id [] bound = Inr bound"
| "bind_tools_of sp registry integ integration_id (def # defs) bound =
     (if td_integration_id def \<noteq> integration_id \<or> td_disabled def then bind_tools_of sp registry integ integration_id defs bound
      else if narrowed (sp_skill sp) integration_id \<and> \<not> td_read_only def then bind_tools_of sp registry integ integration_id defs bound
      else if model_name def \<in> set (map (\<lambda>a. ts_name (ab_spec a)) bound) then bind_tools_of sp registry integ integration_id defs bound
      else case bind_one sp registry integ (length bound) def of
          Inl e \<Rightarrow> Inl e
        | Inr a \<Rightarrow> bind_tools_of sp registry integ integration_id defs (bound @ [a]))"

fun bind_granted :: "'e supplies \<Rightarrow> string list \<Rightarrow> 'e ability list \<Rightarrow> goerr + 'e ability list" where
  "bind_granted sp [] bound = Inr bound"
| "bind_granted sp (integration_id # is) bound =
     (if narrowed (sp_skill sp) integration_id \<and> \<not> sk_all_look_ups (sp_skill sp) then bind_granted sp is bound
      else case gm_get (sp_integrations sp) integration_id of
        None \<Rightarrow> Inl (errorf (skill_error (sp_skill sp) (''unknown integration '' @ go_quote integration_id)))
      | Some integ \<Rightarrow>
         (case sp_registry sp of
            None \<Rightarrow> bind_granted sp is bound
          | Some registry \<Rightarrow>
             (if \<not> runs_here (Some registry) integ then bind_granted sp is bound
              else case bind_tools_of sp registry integ integration_id (map snd (sp_tools sp)) bound of
                Inl e \<Rightarrow> Inl e
              | Inr bound1 \<Rightarrow> bind_granted sp is bound1)))"

text \<open>The lower-case \<^verbatim>\<open>hydrateSkillTools\<close>.\<close>

definition bind_abilities :: "'e supplies \<Rightarrow> goerr + 'e ability list" where
  "bind_abilities sp =
     (case bind_named sp 0 (sk_tools (sp_skill sp)) of
        Inl e \<Rightarrow> Inl e
      | Inr bound \<Rightarrow> bind_granted sp (sk_integrations (sp_skill sp)) bound)"

section \<open>What must run first\<close>

definition names_of :: "tool_def gomap \<Rightarrow> string gomap" where
  "names_of tools = fold (\<lambda>(i, d). gm_set i (model_name d)) tools []"

text \<open>\<^verbatim>\<open>byName\<close>: for each name the tool of that name met last.\<close>

definition by_name :: "tool_def gomap \<Rightarrow> string gomap" where
  "by_name tools = fold (\<lambda>(i, d). gm_set (model_name d) i) tools []"

definition id_named :: "string gomap \<Rightarrow> string \<Rightarrow> string" where
  "id_named names n = (case gm_get names n of Some i \<Rightarrow> i | None \<Rightarrow> [])"

definition ability_name :: "'e ability \<Rightarrow> string" where
  "ability_name a = ts_name (ab_spec a)"

text \<open>What the ability itself needs (\<^verbatim>\<open>ToolDefinition.First\<close>), unless the creator said the same.\<close>

fun own_first :: "(string \<Rightarrow> bool) \<Rightarrow> string \<Rightarrow> string list \<Rightarrow> prerequisite list \<Rightarrow> prerequisite list" where
  "own_first has i [] rules = rules"
| "own_first has i (f # fs) rules =
     (if \<not> has f \<or> f = i \<or> (\<exists>r \<in> set rules. pq_first r = f \<and> pq_same r = []) then own_first has i fs rules
      else own_first has i fs (rules @ [\<lparr>pq_id = [], pq_before = i, pq_first = f, pq_same = [], pq_text = [], pq_one_of = []\<rparr>]))"

definition first_rules :: "skill \<Rightarrow> tool_def gomap \<Rightarrow> (string \<Rightarrow> bool) \<Rightarrow> string \<Rightarrow> prerequisite list" where
  "first_rules s tools has i =
     (let rules = filter (\<lambda>p. pq_before p = i) (sk_prerequisites s) in
      case gm_get tools i of
        None \<Rightarrow> rules
      | Some def \<Rightarrow>
         (let rules1 = own_first has i (td_first def) rules;
              any_of = filter (\<lambda>f. has f \<and> f \<noteq> i) (td_first_any def)
          in if any_of = [] then rules1
             else rules1 @ [\<lparr>pq_id = [], pq_before = i, pq_first = [], pq_same = [], pq_text = [], pq_one_of = any_of\<rparr>]))"

definition wrap_prerequisites :: "prerequisite list \<Rightarrow> string gomap \<Rightarrow> 'e ability \<Rightarrow> 'e ability" where
  "wrap_prerequisites rules names a =
     (if rules = [] then a
      else a\<lparr>ab_needs := ab_needs a @ needs_of rules names,
             ab_binding := (ab_binding a)\<lparr>bd_needs := rules, bd_names := names\<rparr>\<rparr>)"

definition hydrate_skill_tools :: "'e supplies \<Rightarrow> goerr + 'e ability list" where
  "hydrate_skill_tools sp =
     (case bind_abilities sp of
        Inl e \<Rightarrow> Inl e
      | Inr bound \<Rightarrow>
         (let names = names_of (sp_tools sp); byname = by_name (sp_tools sp);
              had = map (\<lambda>a. id_named byname (ability_name a)) bound
          in Inr (map (\<lambda>a. wrap_prerequisites
               (first_rules (sp_skill sp) (sp_tools sp) (\<lambda>f. f \<in> set had) (id_named byname (ability_name a))) names a) bound)))"

text \<open>The ability as the loop is given it, in the context of a turn.\<close>

definition action_of_ability :: "'e ctx \<Rightarrow> 'e ability \<Rightarrow> 'e world bound_action" where
  "action_of_ability cx a =
     (action_of_tool \<lparr>bt_spec = ab_spec a, bt_invoke = handler_of (ab_binding a) cx\<rparr>)
       \<lparr>ba_needs := ab_needs a, ba_app := ab_app a, ba_app_name := ab_app_name a, ba_with := ab_with a,
        ba_declared := ab_declared a, ba_limited := ab_limited a\<rparr>"

section \<open>What a capability grants\<close>

text \<open>The tools \<^verbatim>\<open>GrantedTools\<close> adds, in order; \<^verbatim>\<open>add\<close> leaves out disabled ones and repeats.\<close>

definition granted_by_integration :: "skill \<Rightarrow> tool_def gomap \<Rightarrow> string \<Rightarrow> tool_def list" where
  "granted_by_integration s tools i =
     (if narrowed s i
      then (if sk_all_look_ups s then filter (\<lambda>d. td_integration_id d = i \<and> td_read_only d) (map snd tools) else [])
      else filter (\<lambda>d. td_integration_id d = i) (map snd tools))"

definition granted_candidates :: "skill \<Rightarrow> tool_def gomap \<Rightarrow> tool_def list" where
  "granted_candidates s tools =
     filter (\<lambda>d. \<not> td_disabled d)
       (List.map_filter (gm_get tools) (sk_tools s) @ concat (map (granted_by_integration s tools) (sk_integrations s)))"

definition granted_tools :: "skill \<Rightarrow> tool_def gomap \<Rightarrow> tool_def list" where
  "granted_tools s tools = sort_key td_id (dedupe_by td_id [] (granted_candidates s tools))"

definition agent_granted_tools :: "agent \<Rightarrow> tool_def gomap \<Rightarrow> tool_def list" where
  "agent_granted_tools a tools =
     sort_key td_id (dedupe_by td_id [] (concat (map (\<lambda>s. granted_tools s tools) (ag_skills a))))"

end
