(* ===== verification/Rule_Facts.thy ===== *)
theory Rule_Facts
  imports Tool_Rules
begin

text \<open>
  What holds of the rules: the canonical form is a fixed point, a set of rules that was accepted
  is consistent, filling in values, and the check of a call against its rules.
\<close>

section \<open>The canonical form\<close>

lemma check_rule_value_fixed: "check_rule_value p v = Inr w \<Longrightarrow> check_rule_value p w = Inr w"
proof -
  assume a: "check_rule_value p v = Inr w"
  obtain ty d ps it rq en where p: "p = Schema ty d ps it rq en" by (cases p)
  have "check p v = Inr w" "s_type p \<in> {TString, TNumber, TInteger, TBoolean}"
    using a by (auto simp: check_rule_value_def split: if_splits)
  then have "conforms p w" using p
    by (auto split: sum.splits if_splits dest!: as_number_ok as_bool_ok)
  then show ?thesis using \<open>s_type p \<in> _\<close> by (simp add: check_rule_value_def check_fixed(1))
qed

lemma check_rule_value_conforms: "check_rule_value p v = Inr w \<Longrightarrow> conforms p w \<and> w \<noteq> GNil"
proof -
  assume a: "check_rule_value p v = Inr w"
  obtain ty d ps it rq en where p: "p = Schema ty d ps it rq en" by (cases p)
  have "check p v = Inr w" "s_type p \<in> {TString, TNumber, TInteger, TBoolean}"
    using a by (auto simp: check_rule_value_def split: if_splits)
  then show ?thesis using p
    by (auto split: sum.splits if_splits dest!: as_number_ok as_bool_ok)
qed

lemma normalize_values_fixed:
  "normalize_values k label p vs = Inr ws \<Longrightarrow> normalize_values k label p ws = Inr ws \<and> length ws = length vs"
proof (induction vs arbitrary: ws)
  case Nil
  then show ?case by simp
next
  case (Cons v vs)
  obtain cv cvs where c: "check_rule_value p v = Inr cv" "normalize_values k label p vs = Inr cvs" "ws = cv # cvs"
    "\<not> (k = RuleOneOf \<and> s_enum p \<noteq> [] \<and> \<not> enum_has (s_enum p) cv)"
    using Cons.prems by (auto split: sum.splits if_splits)
  then show ?case using Cons.IH [of cvs] check_rule_value_fixed [OF c(1)] by simp
qed

lemma to_number_GNum: "to_number v = Some n \<Longrightarrow> to_number (GNum n) = Some n"
  by (drule to_number_finite) (simp add: finite_or_none_def)

lemma normalize_limit_fixed: "normalize_limit r p = Inr n \<Longrightarrow> normalize_limit n p = Inr n"
  by (auto simp: normalize_limit_def to_number_GNum simp del: to_number.simps split: if_splits option.splits)

lemma normalize_list_fixed: "normalize_list r p = Inr n \<Longrightarrow> normalize_list n p = Inr n"
proof -
  assume "normalize_list r p = Inr n"
  then obtain vs ws where w: "tr_value r = GArr vs" "\<not> (vs = [] \<or> max_rule_values < length vs)"
    "normalize_values (tr_kind r) (humanize (tr_input r)) p vs = Inr ws" "n = r\<lparr>tr_value := GArr ws\<rparr>"
    by (auto simp: normalize_list_def split: goval.splits if_splits sum.splits)
  from normalize_values_fixed [OF w(3)] w show ?thesis by (auto simp: normalize_list_def)
qed

lemma normalize_pin_fixed: "normalize_pin r p = Inr n \<Longrightarrow> normalize_pin n p = Inr n"
proof -
  assume a: "normalize_pin r p = Inr n"
  then obtain cv where c: "check_rule_value p (tr_value r) = Inr cv" "n = r\<lparr>tr_value := cv\<rparr>"
    by (auto simp: normalize_pin_def split: sum.splits if_splits)
  from check_rule_value_fixed [OF c(1)] a c show ?thesis
    by (auto simp: normalize_pin_def split: if_splits)
qed

lemma normalize_product_fixed: "normalize_product r d p = Inr n \<Longrightarrow> normalize_product n d p = Inr n"
  by (auto simp: normalize_product_def Let_def to_number_GNum simp del: to_number.simps split: option.splits if_splits)

text \<open>What canonicalisation leaves as it is.\<close>

lemma normalize_parts:
  "normalize_limit r p = Inr n \<Longrightarrow> tr_kind n = tr_kind r \<and> tr_input n = tr_input r \<and> tr_message n = tr_message r \<and> tr_with n = tr_with r \<and> tr_tool_id n = tr_tool_id r"
  "normalize_list r p = Inr n \<Longrightarrow> tr_kind n = tr_kind r \<and> tr_input n = tr_input r \<and> tr_message n = tr_message r \<and> tr_with n = tr_with r \<and> tr_tool_id n = tr_tool_id r"
  "normalize_pin r p = Inr n \<Longrightarrow> tr_kind n = tr_kind r \<and> tr_input n = tr_input r \<and> tr_message n = tr_message r \<and> tr_with n = tr_with r \<and> tr_tool_id n = tr_tool_id r"
  "normalize_product r d p = Inr n \<Longrightarrow> tr_kind n = tr_kind r \<and> tr_input n = tr_input r \<and> tr_message n = tr_message r \<and> tr_tool_id n = tr_tool_id r"
  by (auto simp: normalize_limit_def normalize_list_def normalize_pin_def normalize_product_def Let_def
      split: if_splits option.splits goval.splits sum.splits)

text \<open>The part of \<open>normalize_rule\<close> that depends on the kind.\<close>

definition normalize_kind :: "tool_rule \<Rightarrow> tool_def \<Rightarrow> schema \<Rightarrow> string + tool_rule" where
  "normalize_kind r def pr =
     (case tr_kind r of
        RuleMaxProduct \<Rightarrow> normalize_product r def pr
      | RuleMax \<Rightarrow> normalize_limit r pr
      | RuleMin \<Rightarrow> normalize_limit r pr
      | RuleOneOf \<Rightarrow> normalize_list r pr
      | RuleNoneOf \<Rightarrow> normalize_list r pr
      | RuleFixed \<Rightarrow> normalize_pin r pr
      | RuleDefault \<Rightarrow> normalize_pin r pr
      | RuleOther k \<Rightarrow> Inl (''unknown kind of rule '' @ go_quote k))"

definition tidied :: "tool_rule \<Rightarrow> tool_rule" where
  "tidied r0 = (let r = r0\<lparr>tr_input := trim_space (tr_input r0), tr_message := trim_space (tr_message r0)\<rparr>
     in if tr_kind r = RuleMaxProduct then r else r\<lparr>tr_with := []\<rparr>)"

lemma normalize_rule_ok_iff:
  "normalize_rule r (Some def) = Inr n \<longleftrightarrow>
     rune_count (trim_space (tr_message r)) \<le> max_rule_message \<and>
     (\<exists>pr. detail def (trim_space (tr_input r)) = Some pr \<and> normalize_kind (tidied r) def pr = Inr n)"
  by (auto simp: normalize_rule_def normalize_kind_def tidied_def Let_def split: option.splits if_splits rule_kind.splits)

lemma normalize_kind_parts:
  "normalize_kind r def pr = Inr n \<Longrightarrow>
     tr_kind n = tr_kind r \<and> tr_input n = tr_input r \<and> tr_message n = tr_message r \<and> tr_tool_id n = tr_tool_id r \<and>
     (tr_kind r \<noteq> RuleMaxProduct \<longrightarrow> tr_with n = tr_with r)"
  by (auto simp: normalize_kind_def split: rule_kind.splits dest: normalize_parts)

lemma normalize_kind_fixed: "normalize_kind r def pr = Inr n \<Longrightarrow> normalize_kind n def pr = Inr n"
  using normalize_kind_parts [of r def pr n]
  by (auto simp: normalize_kind_def split: rule_kind.splits
      intro: normalize_limit_fixed normalize_list_fixed normalize_pin_fixed normalize_product_fixed)

lemma tidied_parts [simp]:
  "tr_kind (tidied r) = tr_kind r" "tr_input (tidied r) = trim_space (tr_input r)"
  "tr_message (tidied r) = trim_space (tr_message r)" "tr_tool_id (tidied r) = tr_tool_id r"
  "tr_kind r \<noteq> RuleMaxProduct \<Longrightarrow> tr_with (tidied r) = []"
  by (auto simp: tidied_def Let_def)

lemma tidied_fixed:
  "tr_input n = trim_space (tr_input n) \<Longrightarrow> tr_message n = trim_space (tr_message n) \<Longrightarrow>
     (tr_kind n \<noteq> RuleMaxProduct \<Longrightarrow> tr_with n = []) \<Longrightarrow> tidied n = n"
  by (cases n) (auto simp: tidied_def Let_def)

lemma normalize_rule_tool: "normalize_rule r d = Inr n \<Longrightarrow> tr_tool_id n = tr_tool_id r"
  by (cases d) (auto simp: normalize_rule_ok_iff normalize_rule_def [of _ None] dest!: normalize_kind_parts)

lemma normalize_rule_fixed: "normalize_rule r (Some def) = Inr n \<Longrightarrow> normalize_rule n (Some def) = Inr n"
proof -
  assume "normalize_rule r (Some def) = Inr n"
  then obtain pr where c: "rune_count (trim_space (tr_message r)) \<le> max_rule_message"
    "detail def (trim_space (tr_input r)) = Some pr" "normalize_kind (tidied r) def pr = Inr n"
    by (auto simp: normalize_rule_ok_iff)
  note parts = normalize_kind_parts [OF c(3)]
  have "tidied n = n" using parts by (intro tidied_fixed) auto
  then show ?thesis using c parts normalize_kind_fixed [OF c(3)] by (simp add: normalize_rule_ok_iff)
qed

text \<open>A rule in canonical form has a value of the kind the gate reads without looking.\<close>

definition canonical :: "tool_rule \<Rightarrow> bool" where
  "canonical r \<longleftrightarrow>
     (tr_kind r \<in> {RuleMax, RuleMin, RuleMaxProduct} \<longrightarrow> (\<exists>n. tr_value r = GNum n \<and> f_finite n)) \<and>
     (tr_kind r \<in> {RuleOneOf, RuleNoneOf} \<longrightarrow> (\<exists>vs. tr_value r = GArr vs \<and> vs \<noteq> [] \<and> length vs \<le> max_rule_values)) \<and>
     (\<forall>k. tr_kind r \<noteq> RuleOther k)"

lemma normalize_kind_canonical: "normalize_kind r def pr = Inr n \<Longrightarrow> canonical n"
proof -
  assume a: "normalize_kind r def pr = Inr n"
  have l: "normalize_limit r pr = Inr n \<Longrightarrow> \<exists>m. tr_value n = GNum m \<and> f_finite m"
    by (auto simp: normalize_limit_def split: if_splits option.splits dest: to_number_finite)
  have p: "normalize_product r def pr = Inr n \<Longrightarrow> \<exists>m. tr_value n = GNum m \<and> f_finite m"
    by (auto simp: normalize_product_def Let_def split: if_splits option.splits dest: to_number_finite)
  have v: "normalize_list r pr = Inr n \<Longrightarrow> \<exists>vs. tr_value n = GArr vs \<and> vs \<noteq> [] \<and> length vs \<le> max_rule_values"
  proof -
    assume "normalize_list r pr = Inr n"
    then obtain vs ws where w: "\<not> (vs = [] \<or> max_rule_values < length vs)"
      "normalize_values (tr_kind r) (humanize (tr_input r)) pr vs = Inr ws" "n = r\<lparr>tr_value := GArr ws\<rparr>"
      by (auto simp: normalize_list_def split: goval.splits if_splits sum.splits)
    from normalize_values_fixed [OF w(2)] w show "\<exists>vs. tr_value n = GArr vs \<and> vs \<noteq> [] \<and> length vs \<le> max_rule_values"
      by auto
  qed
  show ?thesis using a normalize_kind_parts [OF a] l p v
    by (auto simp: canonical_def normalize_kind_def split: rule_kind.splits)
qed

lemma normalize_rule_canonical: "normalize_rule r d = Inr n \<Longrightarrow> canonical n"
  by (cases d) (auto simp: normalize_rule_ok_iff normalize_rule_def [of _ None] dest: normalize_kind_canonical)

section \<open>The gate\<close>

lemma refusal_text_not_Nil: "s \<noteq> [] \<Longrightarrow> refusal_text r s \<noteq> []"
  by (simp add: refusal_text_def)

lemma breaks_kept_iff: "breaks rules input = Some [] \<longleftrightarrow> (\<forall>r \<in> set rules. breaks_one r input = Some [])"
  by (induction rules) (auto split: option.splits)

lemma breaks_one_canonical: "canonical r \<Longrightarrow> breaks_one r input \<noteq> None"
  by (auto simp: breaks_one_def canonical_def breaks_product_def breaks_limit_def num_value_def Let_def
      simp del: to_number.simps split: option.splits rule_kind.splits)

lemma breaks_canonical: "\<forall>r \<in> set rules. canonical r \<Longrightarrow> breaks rules input \<noteq> None"
  by (induction rules) (auto split: option.splits dest: breaks_one_canonical)

text \<open>What a kept rule means.\<close>

definition obeys :: "tool_rule \<Rightarrow> args \<Rightarrow> bool" where
  "obeys r input \<longleftrightarrow>
     (let v = get_any input (tr_input r) in
      case tr_kind r of
        RuleMax \<Rightarrow> v = GNil \<or> (\<forall>n. to_number v = Some n \<longrightarrow> \<not> f_lt (limit_of r) n)
      | RuleMin \<Rightarrow> v = GNil \<or> (\<forall>n. to_number v = Some n \<longrightarrow> \<not> f_lt n (limit_of r))
      | RuleOneOf \<Rightarrow> v = GNil \<or> value_in (tr_value r) v
      | RuleNoneOf \<Rightarrow> v = GNil \<or> \<not> value_in (tr_value r) v
      | RuleMaxProduct \<Rightarrow> (\<exists>a b. to_number v = Some a \<and> to_number (get_any input (tr_with r)) = Some b \<and>
            \<not> f_lt (limit_slack (limit_of r)) (f_sub (f_mul a b) (limit_of r)))
      | _ \<Rightarrow> True)"

lemma kept_obeys: "canonical r \<Longrightarrow> breaks_one r input = Some [] \<longleftrightarrow> obeys r input"
  by (cases "tr_kind r")
    (auto simp: breaks_one_def obeys_def canonical_def breaks_product_def breaks_limit_def num_value_def limit_of_def Let_def
      refusal_text_def simp del: to_number.simps split: option.splits if_splits)

lemma breaks_obeys: "\<forall>r \<in> set rules. canonical r \<Longrightarrow> breaks rules input = Some [] \<longleftrightarrow> (\<forall>r \<in> set rules. obeys r input)"
  by (simp add: breaks_kept_iff kept_obeys)

section \<open>Filling in\<close>

definition is_pin :: "tool_rule \<Rightarrow> bool" where
  "is_pin r \<longleftrightarrow> tr_kind r = RuleFixed \<or> tr_kind r = RuleDefault"

lemma apply_pin_other: "k \<noteq> tr_input r \<or> \<not> is_pin r \<Longrightarrow> gm_get (apply_pin r input) k = gm_get input k"
  by (auto simp: apply_pin_def is_pin_def)

lemma apply_pins_other:
  "k \<notin> tr_input ` {r \<in> set rules. is_pin r} \<Longrightarrow> gm_get (apply_pins rules input) k = gm_get input k"
proof (induction rules arbitrary: input)
  case Nil
  then show ?case by (simp add: apply_pins_def)
next
  case (Cons r rules)
  have "gm_get (apply_pins (r # rules) input) k = gm_get (apply_pins rules (apply_pin r input)) k"
    by (simp add: apply_pins_def)
  also have "\<dots> = gm_get (apply_pin r input) k" using Cons by auto
  also have "\<dots> = gm_get input k" using Cons.prems by (intro apply_pin_other) auto
  finally show ?case .
qed

lemma apply_pins_one:
  assumes "distinct (map tr_input (filter is_pin rules))" and "r \<in> set rules" and "is_pin r"
  shows "gm_get (apply_pins rules input) (tr_input r) = gm_get (apply_pin r input) (tr_input r)"
  using assms
proof (induction rules arbitrary: input)
  case Nil
  then show ?case by simp
next
  case (Cons x rules)
  show ?case
  proof (cases "r = x")
    case True
    then have "tr_input r \<notin> tr_input ` {r \<in> set rules. is_pin r}" using Cons.prems by auto
    then show ?thesis using True apply_pins_other [of "tr_input r" rules "apply_pin x input"]
      by (simp add: apply_pins_def)
  next
    case False
    then have r: "r \<in> set rules" using Cons.prems by simp
    have ne: "\<not> is_pin x \<or> tr_input x \<noteq> tr_input r" using Cons.prems r False by (auto split: if_splits)
    then have same: "gm_get (apply_pin x input) (tr_input r) = gm_get input (tr_input r)"
      by (intro apply_pin_other) auto
    have "gm_get (apply_pins rules (apply_pin x input)) (tr_input r) = gm_get (apply_pin r (apply_pin x input)) (tr_input r)"
      using Cons r by (auto split: if_splits)
    also have "\<dots> = gm_get (apply_pin r input) (tr_input r)"
      using same by (auto simp: apply_pin_def [of r] blank_def get_any_def)
    finally show ?thesis by (simp add: apply_pins_def)
  qed
qed

section \<open>A set of rules that was accepted\<close>

definition slots :: "(tool_rule \<Rightarrow> bool) \<Rightarrow> tool_rule list \<Rightarrow> (string \<times> string) list" where
  "slots P rs = map slot_of (filter P rs)"

definition rules_ok :: "tool_def gomap \<Rightarrow> rules_state \<Rightarrow> bool" where
  "rules_ok tools st \<longleftrightarrow>
     (\<forall>r \<in> set (rs_out st). canonical r \<and> normalize_rule r (gm_get tools (tr_tool_id r)) = Inr r) \<and>
     distinct (slots is_pin (rs_out st)) \<and> set (slots is_pin (rs_out st)) \<subseteq> dom (rs_pinned st) \<and>
     distinct (slots (\<lambda>r. tr_kind r = RuleMax) (rs_out st)) \<and>
     (\<forall>r \<in> set (rs_out st). tr_kind r = RuleMax \<longrightarrow> map_of (rs_maxes st) (slot_of r) = Some (limit_of r)) \<and>
     distinct (slots (\<lambda>r. tr_kind r = RuleMin) (rs_out st)) \<and>
     (\<forall>r \<in> set (rs_out st). tr_kind r = RuleMin \<longrightarrow> map_of (rs_mins st) (slot_of r) = Some (limit_of r)) \<and>
     (\<forall>t. length (rules_for (rs_out st) t) = rs_per_tool st t \<and> rs_per_tool st t \<le> max_rules_per_tool)"

lemma slots_snoc: "slots P (rs @ [n]) = slots P rs @ (if P n then [slot_of n] else [])"
  by (simp add: slots_def)

lemma in_slots: "s \<in> set (slots P rs) \<longleftrightarrow> (\<exists>r \<in> set rs. P r \<and> slot_of r = s)"
  by (auto simp: slots_def)

lemma rules_ok_add: "rules_ok tools st \<Longrightarrow> add_rule r tools st = Inr st' \<Longrightarrow> rules_ok tools st'"
proof -
  assume ok: "rules_ok tools st" and add: "add_rule r tools st = Inr st'"
  obtain n st1 where n: "normalize_rule r (gm_get tools (tr_tool_id r)) = Inr n"
    and c: "Suc (rs_per_tool st (tr_tool_id n)) \<le> max_rules_per_tool"
    and t: "take_slot n (st\<lparr>rs_per_tool := (rs_per_tool st)(tr_tool_id n := Suc (rs_per_tool st (tr_tool_id n)))\<rparr>) = Inr st1"
    and st': "st' = st1\<lparr>rs_out := rs_out st1 @ [n]\<rparr>"
    using add by (auto simp: add_rule_def Let_def split: sum.splits if_splits)
  have tool: "tr_tool_id n = tr_tool_id r" using n by (rule normalize_rule_tool)
  obtain def where "gm_get tools (tr_tool_id r) = Some def"
    using n by (cases "gm_get tools (tr_tool_id r)") (auto simp: normalize_rule_def)
  then have fx: "normalize_rule n (gm_get tools (tr_tool_id n)) = Inr n"
    using n tool normalize_rule_fixed by simp
  have can: "canonical n" using n by (rule normalize_rule_canonical)
  show ?thesis
  proof (cases "tr_kind n")
    case RuleMax
    then have st1: "map_of (rs_maxes st) (slot_of n) = None"
      "st1 = st\<lparr>rs_per_tool := (rs_per_tool st)(tr_tool_id n := Suc (rs_per_tool st (tr_tool_id n))),
          rs_maxes := (slot_of n, limit_of n) # rs_maxes st\<rparr>"
      using t by (auto simp: take_slot_def Let_def split: if_splits)
    then show ?thesis using ok fx can c RuleMax st'
      by (auto simp: rules_ok_def slots_snoc is_pin_def in_slots rules_for_def)
  next
    case RuleMin
    then have st1: "map_of (rs_mins st) (slot_of n) = None"
      "st1 = st\<lparr>rs_per_tool := (rs_per_tool st)(tr_tool_id n := Suc (rs_per_tool st (tr_tool_id n))),
          rs_mins := (slot_of n, limit_of n) # rs_mins st\<rparr>"
      using t by (auto simp: take_slot_def Let_def split: if_splits)
    then show ?thesis using ok fx can c RuleMin st'
      by (auto simp: rules_ok_def slots_snoc is_pin_def in_slots rules_for_def)
  next
    case RuleFixed
    then have "slot_of n \<notin> dom (rs_pinned st)"
      "st1 = st\<lparr>rs_per_tool := (rs_per_tool st)(tr_tool_id n := Suc (rs_per_tool st (tr_tool_id n))),
          rs_pinned := (rs_pinned st)(slot_of n \<mapsto> RuleFixed)\<rparr>"
      using t by (auto simp: take_slot_def Let_def split: option.splits)
    then show ?thesis using ok fx can c RuleFixed st'
      by (auto simp: rules_ok_def slots_snoc is_pin_def rules_for_def)
  next
    case RuleDefault
    then have "slot_of n \<notin> dom (rs_pinned st)"
      "st1 = st\<lparr>rs_per_tool := (rs_per_tool st)(tr_tool_id n := Suc (rs_per_tool st (tr_tool_id n))),
          rs_pinned := (rs_pinned st)(slot_of n \<mapsto> RuleDefault)\<rparr>"
      using t by (auto simp: take_slot_def Let_def split: option.splits)
    then show ?thesis using ok fx can c RuleDefault st'
      by (auto simp: rules_ok_def slots_snoc is_pin_def rules_for_def)
  qed (use ok fx can c st' t in \<open>auto simp: take_slot_def Let_def rules_ok_def slots_snoc is_pin_def rules_for_def split: if_splits\<close>)
qed

lemma rules_ok_adds: "rules_ok tools st \<Longrightarrow> add_rules rules tools st = Inr st' \<Longrightarrow> rules_ok tools st'"
  by (induction rules tools st rule: add_rules.induct) (auto split: sum.splits dest: rules_ok_add)

lemma rules_ok_none: "rules_ok tools no_rules"
  by (simp add: rules_ok_def no_rules_def slots_def rules_for_def max_rules_per_tool_def)

lemma normalize_rules_state:
  assumes "normalize_rules rules tools = Inr out"
  obtains st where "rules_ok tools st" "rs_out st = out" "crossed st = None"
  using assms rules_ok_adds [OF rules_ok_none]
  by (auto simp: normalize_rules_def split: sum.splits option.splits)

text \<open>The rules of one tool keep their inputs apart.\<close>

lemma distinct_pins_of:
  "distinct (slots P rs) \<Longrightarrow> distinct (map tr_input (filter P (rules_for rs t)))"
proof (induction rs)
  case Nil
  then show ?case by (simp add: rules_for_def)
next
  case (Cons r rs)
  then show ?case
    by (auto simp: rules_for_def slots_def slot_of_def image_iff split: if_splits)
qed

section \<open>What the model is told\<close>

lemma conforms_describe_more [simp]: "conforms (describe_more p t) v = conforms p v"
  by (cases p) (simp add: describe_more_def)

lemma tell_rule_None [simp]: "tell_rule r None = None"
  by (cases "tr_kind r") (auto simp: tell_rule_def with_limit_note_def split: option.splits)

lemma fold_tell_None [simp]: "fold tell_rule rules None = None"
  by (induction rules) auto

definition same_shape :: "schema \<Rightarrow> schema \<Rightarrow> bool" where
  "same_shape p q \<longleftrightarrow> (\<exists>d. q = Schema (s_type p) d (s_properties p) (s_items p) (s_required p) (s_enum p))"

lemma same_shape_refl [simp]: "same_shape p p"
  by (cases p) (simp add: same_shape_def)

lemma same_shape_more: "same_shape p q \<Longrightarrow> same_shape p (describe_more q t)"
  by (auto simp: same_shape_def describe_more_def)

lemma same_shape_conforms: "same_shape p q \<Longrightarrow> conforms q v = conforms p v"
  by (cases p) (auto simp: same_shape_def)

text \<open>
  The told inputs are the declared ones without the fixed ones, each with its shape; the required
  ones are those without a fixed or default value.
\<close>

definition fixed_names :: "tool_rule list \<Rightarrow> string set" where
  "fixed_names rules = tr_input ` {r \<in> set rules. tr_kind r = RuleFixed}"

definition pin_names :: "tool_rule list \<Rightarrow> string set" where
  "pin_names rules = tr_input ` {r \<in> set rules. is_pin r}"

lemma fixed_names_snoc [simp]:
  "fixed_names (rules @ [r]) = (if tr_kind r = RuleFixed then insert (tr_input r) (fixed_names rules) else fixed_names rules)"
  by (auto simp: fixed_names_def)

lemma pin_names_snoc [simp]:
  "pin_names (rules @ [r]) = (if is_pin r then insert (tr_input r) (pin_names rules) else pin_names rules)"
  by (auto simp: pin_names_def)

definition told_prop :: "schema \<Rightarrow> tool_rule list \<Rightarrow> told \<Rightarrow> string \<Rightarrow> bool" where
  "told_prop s rules t k \<longleftrightarrow>
     (case gm_get (tl_props t) k of
        None \<Rightarrow> gm_get (s_properties s) k = None \<or> k \<in> fixed_names rules
      | Some q \<Rightarrow> k \<notin> fixed_names rules \<and> (\<exists>p. gm_get (s_properties s) k = Some p \<and> same_shape p q))"

definition told_so_far :: "schema \<Rightarrow> tool_rule list \<Rightarrow> told \<Rightarrow> bool" where
  "told_so_far s rules t \<longleftrightarrow>
     (\<forall>k. told_prop s rules t k) \<and> set (tl_required t) = set (s_required s) - pin_names rules"

lemma note_on_props:
  "gm_get (tl_props (note_on name t st)) k =
     (if k = name then map_option (\<lambda>p. describe_more p t) (gm_get (tl_props st) k) else gm_get (tl_props st) k)"
  by (auto simp: note_on_def split: option.split)

lemma note_on_required [simp]: "tl_required (note_on name t st) = tl_required st"
  by (simp add: note_on_def split: option.split)

text \<open>Only descriptions of inputs have changed.\<close>

definition described_at :: "told \<Rightarrow> told \<Rightarrow> string \<Rightarrow> bool" where
  "described_at st st' k \<longleftrightarrow> (case gm_get (tl_props st') k of None \<Rightarrow> gm_get (tl_props st) k = None
        | Some q \<Rightarrow> (\<exists>p. gm_get (tl_props st) k = Some p \<and> same_shape p q))"

definition only_described :: "told \<Rightarrow> told \<Rightarrow> bool" where
  "only_described st st' \<longleftrightarrow> tl_required st' = tl_required st \<and> (\<forall>k. described_at st st' k)"

lemma same_shape_trans: "same_shape p q \<Longrightarrow> same_shape q r \<Longrightarrow> same_shape p r"
  by (auto simp: same_shape_def)

lemma described_at_note: "described_at st st1 k \<Longrightarrow> described_at st (note_on name t st1) k"
  by (cases "gm_get (tl_props st1) k") (auto simp: described_at_def note_on_props intro: same_shape_more)

lemma only_described_note: "only_described st st1 \<Longrightarrow> only_described st (note_on name t st1)"
  by (simp add: only_described_def described_at_note)

lemma only_described_refl [simp]: "only_described st st"
  by (auto simp: only_described_def described_at_def split: option.split)

lemma told_prop_described: "told_prop s rules t k \<Longrightarrow> described_at t t' k \<Longrightarrow> told_prop s rules t' k"
  by (auto simp: told_prop_def described_at_def split: option.splits intro: same_shape_trans)

lemma told_described: "told_so_far s rules t \<Longrightarrow> only_described t t' \<Longrightarrow> told_so_far s rules t'"
  by (auto simp: told_so_far_def only_described_def intro: told_prop_described)

lemma told_prop_snoc: "tr_kind r \<noteq> RuleFixed \<Longrightarrow> told_prop s (rules @ [r]) t k = told_prop s rules t k"
  by (simp add: told_prop_def cong: option.case_cong)

lemma told_other: "told_so_far s rules t \<Longrightarrow> \<not> is_pin r \<Longrightarrow> told_so_far s (rules @ [r]) t"
  by (auto simp: told_so_far_def told_prop_snoc is_pin_def)

lemma told_so_far_tell:
  assumes "told_so_far s rules t" and "tell_rule r (Some t) = Some t'"
  shows "told_so_far s (rules @ [r]) t'"
proof (cases "tr_kind r")
  case RuleFixed
  then have t': "t' = drop_required (tr_input r) (t\<lparr>tl_props := gm_del (tr_input r) (tl_props t)\<rparr>)"
    using assms(2) by (simp add: tell_rule_def)
  have "told_prop s (rules @ [r]) t' k" for k
  proof -
    have "told_prop s rules t k" using assms(1) by (simp add: told_so_far_def)
    then show ?thesis using RuleFixed
      by (cases "gm_get (tl_props t) k") (auto simp: told_prop_def t' drop_required_def)
  qed
  then show ?thesis using assms(1) RuleFixed
    by (auto simp: told_so_far_def t' drop_required_def is_pin_def)
next
  case RuleDefault
  then have t': "t' = note_on (tr_input r) (''If you leave it out, '' @ sprint (tr_value r) @ '' is used.'') (drop_required (tr_input r) t)"
    using assms(2) by (simp add: tell_rule_def)
  have d: "only_described (drop_required (tr_input r) t) t'"
    unfolding t' by (intro only_described_note only_described_refl)
  have "told_so_far s (rules @ [r]) (drop_required (tr_input r) t)" using assms(1) RuleDefault
    by (auto simp: told_so_far_def told_prop_snoc is_pin_def) (auto simp: told_prop_def drop_required_def)
  then show ?thesis using d by (rule told_described)
qed (use assms in \<open>auto simp: tell_rule_def with_limit_note_def is_pin_def split: option.splits
    intro!: told_described [OF told_other] only_described_note\<close>)

lemma told_fold:
  "told_so_far s rules t \<Longrightarrow> fold tell_rule rs (Some t) = Some t' \<Longrightarrow> told_so_far s (rules @ rs) t'"
proof (induction rs arbitrary: rules t)
  case Nil
  then show ?case by simp
next
  case (Cons r rs)
  then obtain t1 where t1: "tell_rule r (Some t) = Some t1" by (cases "tell_rule r (Some t)") auto
  have "told_so_far s (rules @ [r]) t1" using Cons.prems(1) t1 by (rule told_so_far_tell)
  from Cons.IH [OF this] Cons.prems(2) t1 show ?case by simp
qed

lemma told_start: "told_so_far s [] \<lparr>tl_props = s_properties s, tl_required = s_required s\<rparr>"
  by (auto simp: told_so_far_def told_prop_def fixed_names_def pin_names_def split: option.split)

lemma tell_rule_canonical: "canonical r \<Longrightarrow> tell_rule r (Some t) \<noteq> None"
  by (cases "tr_kind r") (auto simp: tell_rule_def with_limit_note_def canonical_def num_value_def)

lemma fold_tell_canonical: "\<forall>r \<in> set rules. canonical r \<Longrightarrow> fold tell_rule rules (Some t) \<noteq> None"
proof (induction rules arbitrary: t)
  case (Cons r rules)
  then obtain t1 where "tell_rule r (Some t) = Some t1" using tell_rule_canonical by fastforce
  then show ?case using Cons by simp
qed simp

end
