(* ===== verification/Hydration_Facts.thy ===== *)
theory Hydration_Facts
  imports Hydration Rule_Facts
begin

text \<open>
  What holds of the abilities a capability gives: how each was bound, which tools they are, and
  that the list of granted tools says the same without binding anything.
\<close>

section \<open>How an ability was bound\<close>

abbreviation tool_of :: "'e ability \<Rightarrow> tool_def" where
  "tool_of a \<equiv> bd_def (ab_binding a)"

abbreviation guard_of :: "'e ability \<Rightarrow> nat" where
  "guard_of a \<equiv> bd_guard (ab_binding a)"

definition usable :: "'e supplies \<Rightarrow> string \<Rightarrow> bool" where
  "usable sp integration_id \<longleftrightarrow>
     (\<exists>integ. gm_get (sp_integrations sp) integration_id = Some integ \<and> runs_here (sp_registry sp) integ)"

text \<open>Held to all of its rules, run by its own service's executor with an identity of its integration.\<close>

definition well_bound :: "'e supplies \<Rightarrow> 'e ability \<Rightarrow> bool" where
  "well_bound sp a \<longleftrightarrow>
     (\<exists>integ registry. sp_registry sp = Some registry \<and>
        gm_get (sp_integrations sp) (td_integration_id (tool_of a)) = Some integ \<and>
        in_id integ = td_integration_id (tool_of a) \<and>
        executor_for registry (in_service integ) = Some (bd_executor (ab_binding a)) \<and>
        bd_identity (ab_binding a) = resolve_identity (sp_agent sp) integ (sp_identities sp)) \<and>
     bd_rules (ab_binding a) = rules_through (sp_agent sp) (sp_skill sp) (td_id (tool_of a)) \<and>
     ability_name a = model_name (tool_of a) \<and> \<not> td_disabled (tool_of a)"

lemma spec_with_rules_name: "spec_with_rules s rules = Some s' \<Longrightarrow> ts_name s' = ts_name s"
  by (auto simp: spec_with_rules_def Let_def split: if_splits option.splits)

lemma bind_one_facts:
  assumes "bind_one sp registry integ g def = Inr a"
  shows "tool_of a = def \<and> guard_of a = g \<and> bd_needs (ab_binding a) = [] \<and> ability_name a = model_name def \<and>
    in_id integ = td_integration_id def \<and> executor_for registry (in_service integ) = Some (bd_executor (ab_binding a)) \<and>
    bd_identity (ab_binding a) = resolve_identity (sp_agent sp) integ (sp_identities sp) \<and>
    bd_rules (ab_binding a) = rules_through (sp_agent sp) (sp_skill sp) (td_id def)"
  using assms
  by (auto simp: bind_one_def hydrate_tool_def bind_tool_def describe_def ability_name_def spec_of_tool_def
      dest: spec_with_rules_name split: sum.splits option.splits if_splits)

text \<open>One more ability, whichever way it came.\<close>

lemma bind_one_well_bound:
  assumes "bind_one sp registry integ g def = Inr a" and "sp_registry sp = Some registry"
    and "gm_get (sp_integrations sp) i = Some integ" "td_integration_id def = i" "\<not> td_disabled def"
  shows "well_bound sp a"
  using bind_one_facts [OF assms(1)] assms(2-) unfolding well_bound_def by auto

definition fresh_bound :: "'e supplies \<Rightarrow> nat \<Rightarrow> 'e ability list \<Rightarrow> bool" where
  "fresh_bound sp g as \<longleftrightarrow> map guard_of as = [g..<g + length as] \<and> (\<forall>a \<in> set as. well_bound sp a \<and> bd_needs (ab_binding a) = [])"

lemma fresh_bound_Nil [simp]: "fresh_bound sp g []"
  by (simp add: fresh_bound_def)

lemma fresh_bound_Cons:
  "fresh_bound sp (Suc g) as \<Longrightarrow> guard_of a = g \<Longrightarrow> well_bound sp a \<Longrightarrow> bd_needs (ab_binding a) = [] \<Longrightarrow> fresh_bound sp g (a # as)"
  using upt_conv_Cons [of g "g + length (a # as)"] by (simp add: fresh_bound_def del: upt_Suc)

lemma fresh_bound_snoc:
  "fresh_bound sp 0 as \<Longrightarrow> guard_of a = length as \<Longrightarrow> well_bound sp a \<Longrightarrow> bd_needs (ab_binding a) = [] \<Longrightarrow> fresh_bound sp 0 (as @ [a])"
  by (simp add: fresh_bound_def)

section \<open>The abilities named\<close>

text \<open>A named tool that is bound, and one that is left out.\<close>

definition binds :: "'e supplies \<Rightarrow> tool_def \<Rightarrow> bool" where
  "binds sp d \<longleftrightarrow> \<not> td_disabled d \<and> usable sp (td_integration_id d)"

lemma bind_named_facts:
  assumes "bind_named sp g ts = Inr as"
  shows "fresh_bound sp g as \<and> map tool_of as = filter (binds sp) (List.map_filter (gm_get (sp_tools sp)) ts)"
  using assms
proof (induction sp g ts arbitrary: as rule: bind_named.induct)
  case (1 sp g)
  then show ?case by (simp add: List.map_filter_simps)
next
  case (2 sp g t ts)
  obtain def where d: "gm_get (sp_tools sp) t = Some def"
    using "2.prems" by (auto split: option.splits)
  show ?case
  proof (cases "td_disabled def")
    case True
    then show ?thesis using "2.prems" "2.IH"(1) [OF d True] d by (simp add: List.map_filter_simps binds_def)
  next
    case en: False
    obtain integ where i: "gm_get (sp_integrations sp) (td_integration_id def) = Some integ"
      using "2.prems" d en by (auto split: option.splits)
    show ?thesis
    proof (cases "sp_registry sp")
      case None
      then show ?thesis using "2.prems" "2.IH"(2) [OF d en i None] d en i
        by (simp add: List.map_filter_simps binds_def usable_def runs_here_def)
    next
      case (Some registry)
      show ?thesis
      proof (cases "runs_here (Some registry) integ")
        case False
        then show ?thesis using "2.prems" "2.IH"(3) [OF d en i Some False] d en i Some
          by (simp add: List.map_filter_simps binds_def usable_def)
      next
        case True
        obtain a as1 where a: "bind_one sp registry integ g def = Inr a" "bind_named sp (Suc g) ts = Inr as1" "as = a # as1"
          using "2.prems" d en i Some True by (auto split: sum.splits)
        have r: "fresh_bound sp (Suc g) as1 \<and> map tool_of as1 = filter (binds sp) (List.map_filter (gm_get (sp_tools sp)) ts)"
          using "2.IH"(4) [OF d en i Some _ a(1,2)] True by simp
        have "well_bound sp a" using bind_one_well_bound [OF a(1) Some i refl en] .
        moreover have "binds sp def" using en i True Some by (simp add: binds_def usable_def)
        ultimately show ?thesis using r bind_one_facts [OF a(1)] d a(3)
          by (auto simp: List.map_filter_simps intro: fresh_bound_Cons)
      qed
    qed
  qed
qed

section \<open>The abilities of granted connections\<close>

text \<open>What the inner loop adds: tools of that integration, names not bound yet.\<close>

definition offered :: "skill \<Rightarrow> string \<Rightarrow> tool_def \<Rightarrow> bool" where
  "offered s i d \<longleftrightarrow> td_integration_id d = i \<and> \<not> td_disabled d \<and> (narrowed s i \<longrightarrow> td_read_only d)"

lemma bind_tools_of_facts:
  assumes "bind_tools_of sp registry integ i defs bound = Inr as" and "sp_registry sp = Some registry"
    and "gm_get (sp_integrations sp) i = Some integ" and "fresh_bound sp 0 bound"
  shows "fresh_bound sp 0 as \<and>
    (\<exists>new. as = bound @ new \<and> set (map tool_of new) \<subseteq> {d \<in> set defs. offered (sp_skill sp) i d}) \<and>
    ability_name ` set as = ability_name ` set bound \<union> model_name ` {d \<in> set defs. offered (sp_skill sp) i d}"
  using assms
proof (induction defs arbitrary: bound)
  case Nil
  then show ?case by simp
next
  case (Cons d defs)
  consider (out) "\<not> offered (sp_skill sp) i d" | (seen) "offered (sp_skill sp) i d" "model_name d \<in> ability_name ` set bound"
    | (new) "offered (sp_skill sp) i d" "model_name d \<notin> ability_name ` set bound" by blast
  then show ?case
  proof cases
    case out
    then have "bind_tools_of sp registry integ i defs bound = Inr as" using Cons.prems(1)
      by (auto simp: offered_def split: if_splits)
    from Cons.IH [OF this Cons.prems(2-)] out show ?thesis by (auto 4 3)
  next
    case seen
    then have "bind_tools_of sp registry integ i defs bound = Inr as" using Cons.prems(1)
      by (auto simp: offered_def ability_name_def image_iff split: if_splits)
    from Cons.IH [OF this Cons.prems(2-)] seen show ?thesis by (auto 4 4)
  next
    case new
    then have "\<not> (td_integration_id d \<noteq> i \<or> td_disabled d)" "\<not> (narrowed (sp_skill sp) i \<and> \<not> td_read_only d)"
      "model_name d \<notin> set (map (\<lambda>a. ts_name (ab_spec a)) bound)"
      by (auto simp: offered_def ability_name_def)
    with Cons.prems(1) obtain a where a: "bind_one sp registry integ (length bound) d = Inr a"
      "bind_tools_of sp registry integ i defs (bound @ [a]) = Inr as"
      by (auto split: sum.splits)
    note f = bind_one_facts [OF a(1)]
    have "well_bound sp a" using new bind_one_well_bound [OF a(1) Cons.prems(2,3)] by (simp add: offered_def)
    then have "fresh_bound sp 0 (bound @ [a])" using Cons.prems(4) f by (intro fresh_bound_snoc) auto
    from Cons.IH [OF a(2) Cons.prems(2,3) this] obtain more where
      m: "fresh_bound sp 0 as" "as = (bound @ [a]) @ more" "set (map tool_of more) \<subseteq> {d \<in> set defs. offered (sp_skill sp) i d}"
        "ability_name ` set as = ability_name ` set (bound @ [a]) \<union> model_name ` {d \<in> set defs. offered (sp_skill sp) i d}"
      by blast
    show ?thesis
    proof (intro conjI exI [of _ "a # more"])
      show "fresh_bound sp 0 as" "as = bound @ a # more" using m by simp_all
      show "set (map tool_of (a # more)) \<subseteq> {x \<in> set (d # defs). offered (sp_skill sp) i x}" using m(3) f new by auto
      show "ability_name ` set as = ability_name ` set bound \<union> model_name ` {x \<in> set (d # defs). offered (sp_skill sp) i x}"
        unfolding m(4) using f new by auto
    qed
  qed
qed

text \<open>A connection of the capability whose tools are looked at, and what it grants.\<close>

definition looked_at :: "skill \<Rightarrow> string \<Rightarrow> bool" where
  "looked_at s i \<longleftrightarrow> (narrowed s i \<longrightarrow> sk_all_look_ups s)"

definition grants :: "'e supplies \<Rightarrow> string list \<Rightarrow> tool_def \<Rightarrow> bool" where
  "grants sp is d \<longleftrightarrow> (\<exists>i \<in> set is. looked_at (sp_skill sp) i \<and> usable sp i \<and> offered (sp_skill sp) i d)"

lemma grants_Cons: "grants sp (i # is) d \<longleftrightarrow> (looked_at (sp_skill sp) i \<and> usable sp i \<and> offered (sp_skill sp) i d) \<or> grants sp is d"
  by (auto simp: grants_def)

lemma bind_granted_facts:
  assumes "bind_granted sp is bound = Inr as" and "fresh_bound sp 0 bound"
  shows "fresh_bound sp 0 as \<and>
    (\<exists>new. as = bound @ new \<and> set (map tool_of new) \<subseteq> {d \<in> snd ` set (sp_tools sp). grants sp is d}) \<and>
    ability_name ` set as = ability_name ` set bound \<union> model_name ` {d \<in> snd ` set (sp_tools sp). grants sp is d}"
  using assms
proof (induction "is" arbitrary: bound)
  case Nil
  then show ?case by (simp add: grants_def)
next
  case (Cons i "is")
  show ?case
  proof (cases "looked_at (sp_skill sp) i \<and> usable sp i")
    case False
    then have "bind_granted sp is bound = Inr as" using Cons.prems(1)
      by (auto simp: looked_at_def usable_def runs_here_def split: if_splits option.splits)
    moreover have "grants sp (i # is) d = grants sp is d" for d using False by (auto simp: grants_Cons)
    ultimately show ?thesis using Cons.IH Cons.prems(2) by simp
  next
    case True
    then obtain integ registry where i: "gm_get (sp_integrations sp) i = Some integ" "sp_registry sp = Some registry"
      "runs_here (Some registry) integ" "\<not> (narrowed (sp_skill sp) i \<and> \<not> sk_all_look_ups (sp_skill sp))"
      by (auto simp: looked_at_def usable_def runs_here_def split: option.splits)
    then obtain b1 where b: "bind_tools_of sp registry integ i (map snd (sp_tools sp)) bound = Inr b1" "bind_granted sp is b1 = Inr as"
      using Cons.prems(1) by (auto split: sum.splits)
    from bind_tools_of_facts [OF b(1) i(2,1) Cons.prems(2)] obtain n1 where
      n1: "fresh_bound sp 0 b1" "b1 = bound @ n1" "set (map tool_of n1) \<subseteq> {d \<in> snd ` set (sp_tools sp). offered (sp_skill sp) i d}"
        "ability_name ` set b1 = ability_name ` set bound \<union> model_name ` {d \<in> snd ` set (sp_tools sp). offered (sp_skill sp) i d}"
      by auto
    have "fresh_bound sp 0 as \<and>
      (\<exists>new. as = b1 @ new \<and> set (map tool_of new) \<subseteq> {d \<in> snd ` set (sp_tools sp). grants sp is d}) \<and>
      ability_name ` set as = ability_name ` set b1 \<union> model_name ` {d \<in> snd ` set (sp_tools sp). grants sp is d}"
      using Cons.IH [OF b(2) n1(1)] .
    then obtain n2 where n2: "fresh_bound sp 0 as" "as = b1 @ n2" "set (map tool_of n2) \<subseteq> {d \<in> snd ` set (sp_tools sp). grants sp is d}"
      "ability_name ` set as = ability_name ` set b1 \<union> model_name ` {d \<in> snd ` set (sp_tools sp). grants sp is d}" by blast
    show ?thesis
    proof (intro conjI exI [of _ "n1 @ n2"])
      show "fresh_bound sp 0 as" "as = bound @ n1 @ n2" using n1(2) n2 by simp_all
      show "set (map tool_of (n1 @ n2)) \<subseteq> {d \<in> snd ` set (sp_tools sp). grants sp (i # is) d}"
        using n1(3) n2(3) True by (auto simp: grants_Cons)
      show "ability_name ` set as = ability_name ` set bound \<union> model_name ` {d \<in> snd ` set (sp_tools sp). grants sp (i # is) d}"
        unfolding n2(4) n1(4) grants_Cons using True by auto
    qed
  qed
qed

section \<open>The abilities of a capability\<close>

text \<open>A tool the capability names, or offers through a connection.\<close>

definition named_by :: "skill \<Rightarrow> tool_def gomap \<Rightarrow> tool_def \<Rightarrow> bool" where
  "named_by s tools d \<longleftrightarrow> (\<exists>t \<in> set (sk_tools s). gm_get tools t = Some d)"

definition offered_by :: "skill \<Rightarrow> tool_def \<Rightarrow> bool" where
  "offered_by s d \<longleftrightarrow> (\<exists>i \<in> set (sk_integrations s). looked_at s i \<and> offered s i d)"

lemma map_filter_mem: "d \<in> set (List.map_filter f ts) \<longleftrightarrow> (\<exists>t \<in> set ts. f t = Some d)"
  by (induction ts) (auto simp: List.map_filter_simps split: option.split)

lemma grants_offered: "grants sp is d \<longleftrightarrow> (\<exists>i \<in> set is. looked_at (sp_skill sp) i \<and> offered (sp_skill sp) i d) \<and> usable sp (td_integration_id d)"
  by (auto simp: grants_def offered_def)

lemma bind_named_known: "bind_named sp g ts = Inr as \<Longrightarrow> t \<in> set ts \<Longrightarrow> gm_get (sp_tools sp) t \<noteq> None"
  by (induction ts arbitrary: g as) (auto split: option.splits if_splits sum.splits)

lemma bind_abilities_facts:
  assumes "bind_abilities sp = Inr as"
  shows "fresh_bound sp 0 as"
    and "\<exists>named new. as = named @ new \<and>
      map tool_of named = filter (binds sp) (List.map_filter (gm_get (sp_tools sp)) (sk_tools (sp_skill sp))) \<and>
      set (map tool_of new) \<subseteq> {d \<in> snd ` set (sp_tools sp). grants sp (sk_integrations (sp_skill sp)) d} \<and>
      ability_name ` set as = ability_name ` set named \<union>
        model_name ` {d \<in> snd ` set (sp_tools sp). grants sp (sk_integrations (sp_skill sp)) d}"
    and "t \<in> set (sk_tools (sp_skill sp)) \<Longrightarrow> gm_get (sp_tools sp) t \<noteq> None"
proof -
  obtain named where n: "bind_named sp 0 (sk_tools (sp_skill sp)) = Inr named"
    "bind_granted sp (sk_integrations (sp_skill sp)) named = Inr as"
    using assms by (auto simp: bind_abilities_def split: sum.splits)
  from bind_named_facts [OF n(1)] have f: "fresh_bound sp 0 named"
    "map tool_of named = filter (binds sp) (List.map_filter (gm_get (sp_tools sp)) (sk_tools (sp_skill sp)))" by auto
  from bind_granted_facts [OF n(2) f(1)] f(2) show "fresh_bound sp 0 as"
    and "\<exists>named new. as = named @ new \<and>
      map tool_of named = filter (binds sp) (List.map_filter (gm_get (sp_tools sp)) (sk_tools (sp_skill sp))) \<and>
      set (map tool_of new) \<subseteq> {d \<in> snd ` set (sp_tools sp). grants sp (sk_integrations (sp_skill sp)) d} \<and>
      ability_name ` set as = ability_name ` set named \<union>
        model_name ` {d \<in> snd ` set (sp_tools sp). grants sp (sk_integrations (sp_skill sp)) d}" by blast+
  show "t \<in> set (sk_tools (sp_skill sp)) \<Longrightarrow> gm_get (sp_tools sp) t \<noteq> None" using bind_named_known [OF n(1)] .
qed

text \<open>Waiting for others leaves an ability what it is.\<close>

lemma wrap_parts [simp]:
  "tool_of (wrap_prerequisites rules names a) = tool_of a" "guard_of (wrap_prerequisites rules names a) = guard_of a"
  "ability_name (wrap_prerequisites rules names a) = ability_name a"
  "ab_spec (wrap_prerequisites rules names a) = ab_spec a"
  "well_bound sp (wrap_prerequisites rules names a) = well_bound sp a"
  by (simp_all add: wrap_prerequisites_def ability_name_def well_bound_def)

lemma wrap_needs: "bd_needs (ab_binding a) = [] \<Longrightarrow> bd_needs (ab_binding (wrap_prerequisites rules names a)) = rules"
  by (simp add: wrap_prerequisites_def)

text \<open>The tools a capability gives, as a set.\<close>

definition gives :: "'e supplies \<Rightarrow> tool_def \<Rightarrow> bool" where
  "gives sp d \<longleftrightarrow> \<not> td_disabled d \<and> usable sp (td_integration_id d) \<and>
     (named_by (sp_skill sp) (sp_tools sp) d \<or> (d \<in> snd ` set (sp_tools sp) \<and> offered_by (sp_skill sp) d))"

lemma hydrate_facts:
  assumes "hydrate_skill_tools sp = Inr as"
  shows "map guard_of as = [0..<length as]" and "\<forall>a \<in> set as. well_bound sp a \<and> gives sp (tool_of a)"
    and "ability_name ` set as = model_name ` {d. gives sp d}"
    and "t \<in> set (sk_tools (sp_skill sp)) \<Longrightarrow> gm_get (sp_tools sp) t \<noteq> None"
proof -
  obtain bound where b: "bind_abilities sp = Inr bound"
    using assms by (auto simp: hydrate_skill_tools_def split: sum.splits)
  define wrap where "wrap a = wrap_prerequisites (first_rules (sp_skill sp) (sp_tools sp)
      (\<lambda>f. f \<in> set (map (\<lambda>a. id_named (by_name (sp_tools sp)) (ability_name a)) bound))
      (id_named (by_name (sp_tools sp)) (ability_name a))) (names_of (sp_tools sp)) a" for a :: "'a ability"
  have as: "as = map wrap bound" using assms b unfolding wrap_def [abs_def] by (simp add: hydrate_skill_tools_def Let_def)
  have w: "tool_of (wrap a) = tool_of a" "guard_of (wrap a) = guard_of a" "ability_name (wrap a) = ability_name a"
    "well_bound sp (wrap a) = well_bound sp a" for a by (simp_all add: wrap_def)
  note f = bind_abilities_facts [OF b]
  show "map guard_of as = [0..<length as]" using f(1) by (simp add: as w fresh_bound_def comp_def)
  obtain named new where p: "bound = named @ new"
    "map tool_of named = filter (binds sp) (List.map_filter (gm_get (sp_tools sp)) (sk_tools (sp_skill sp)))"
    "set (map tool_of new) \<subseteq> {d \<in> snd ` set (sp_tools sp). grants sp (sk_integrations (sp_skill sp)) d}"
    "ability_name ` set bound = ability_name ` set named \<union>
        model_name ` {d \<in> snd ` set (sp_tools sp). grants sp (sk_integrations (sp_skill sp)) d}"
    using f(2) by blast
  have wb: "\<forall>a \<in> set bound. well_bound sp a" using f(1) by (simp add: fresh_bound_def)
  have named: "tool_of ` set named = {d. binds sp d \<and> named_by (sp_skill sp) (sp_tools sp) d}"
    using arg_cong [OF p(2), of set] by (auto simp: map_filter_mem named_by_def)
  have new: "{d \<in> snd ` set (sp_tools sp). grants sp (sk_integrations (sp_skill sp)) d} =
      {d \<in> snd ` set (sp_tools sp). offered_by (sp_skill sp) d \<and> usable sp (td_integration_id d)}"
    by (auto simp: grants_offered offered_by_def)
  have off: "offered_by (sp_skill sp) d \<Longrightarrow> \<not> td_disabled d" for d by (auto simp: offered_by_def offered_def)
  have nn: "ability_name ` set named = model_name ` tool_of ` set named"
    using wb p(1) by (auto simp: well_bound_def image_iff)
  have g: "{d. gives sp d} = {d. binds sp d \<and> named_by (sp_skill sp) (sp_tools sp) d} \<union>
      {d \<in> snd ` set (sp_tools sp). offered_by (sp_skill sp) d \<and> usable sp (td_integration_id d)}"
    using off by (auto simp: gives_def binds_def)
  show "\<forall>a \<in> set as. well_bound sp a \<and> gives sp (tool_of a)"
  proof
    fix a assume "a \<in> set as"
    then obtain a0 where a0: "a0 \<in> set bound" "a = wrap a0" by (auto simp: as)
    have "tool_of a0 \<in> tool_of ` set named \<union> tool_of ` set new" using a0(1) p(1) by auto
    then have "tool_of a0 \<in> {d. gives sp d}" unfolding g named using p(3) new by auto
    then show "well_bound sp a \<and> gives sp (tool_of a)" using wb a0 w by simp
  qed
  have "ability_name ` set as = ability_name ` set bound" by (simp add: as w image_image)
  then show "ability_name ` set as = model_name ` {d. gives sp d}"
    unfolding p(4) nn named new g by (simp add: image_Un)
  show "t \<in> set (sk_tools (sp_skill sp)) \<Longrightarrow> gm_get (sp_tools sp) t \<noteq> None" by (rule f(3))
qed

section \<open>The list of granted tools\<close>

lemma granted_by_mem: "d \<in> set (granted_by_integration s tools i) \<and> \<not> td_disabled d \<longleftrightarrow>
    d \<in> snd ` set tools \<and> looked_at s i \<and> offered s i d"
  by (auto simp: granted_by_integration_def looked_at_def offered_def)

lemma granted_candidates_mem:
  "d \<in> set (granted_candidates s tools) \<longleftrightarrow>
     \<not> td_disabled d \<and> (named_by s tools d \<or> (d \<in> snd ` set tools \<and> offered_by s d))"
proof -
  have "d \<in> set (granted_candidates s tools) \<longleftrightarrow> \<not> td_disabled d \<and>
      (named_by s tools d \<or> (\<exists>i \<in> set (sk_integrations s). d \<in> set (granted_by_integration s tools i)))"
    by (auto simp: granted_candidates_def map_filter_mem named_by_def)
  then show ?thesis using granted_by_mem [of d s tools] by (auto simp: offered_by_def)
qed

lemma dedupe_all: "inj_on f (set xs) \<Longrightarrow> set (dedupe_by f [] xs) = set xs"
proof -
  assume i: "inj_on f (set xs)"
  have "f ` set (dedupe_by f [] xs) = f ` set xs" by (simp add: dedupe_by_keys)
  then show ?thesis using i set_dedupe_by_subset [of f "[]" xs] by (meson inj_on_image_eq_iff order_refl)
qed

lemma granted_tools_mem:
  assumes "keyed td_id tools"
  shows "d \<in> set (granted_tools s tools) \<longleftrightarrow>
    \<not> td_disabled d \<and> (named_by s tools d \<or> (d \<in> snd ` set tools \<and> offered_by s d))"
proof -
  have "set (granted_candidates s tools) \<subseteq> snd ` set tools"
    by (force simp: granted_candidates_mem named_by_def dest: gm_get_in_set)
  moreover have "inj_on td_id (snd ` set tools)"
    using keyed_mem [OF assms] by (intro inj_onI) (metis option.inject)
  ultimately have "inj_on td_id (set (granted_candidates s tools))" by (rule inj_on_subset [rotated])
  then show ?thesis by (simp add: granted_tools_def dedupe_all granted_candidates_mem)
qed

section \<open>What each ability waits for\<close>

text \<open>\<^verbatim>\<open>byName\<close> finds a tool by its name when no other tool has that name.\<close>

lemma get_fold_names:
  assumes "inj_on (\<lambda>(i, d). model_name d) (set tools)" and "(i, d) \<in> set tools"
  shows "gm_get (fold (\<lambda>(i, d). gm_set (model_name d) i) tools m) (model_name d) = Some i"
  using assms
proof (induction tools arbitrary: m rule: rev_induct)
  case (snoc x xs)
  obtain j e where x: "x = (j, e)" by fastforce
  show ?case
  proof (cases "(i, d) = x")
    case True
    then show ?thesis using x by simp
  next
    case False
    then have "model_name e \<noteq> model_name d" using snoc.prems x by (fastforce simp: inj_on_def)
    moreover have "inj_on (\<lambda>(i, d). model_name d) (set xs)" using snoc.prems(1) by (simp add: inj_on_def)
    moreover have "(i, d) \<in> set xs" using snoc.prems(2) False by auto
    ultimately show ?thesis using snoc.IH x by simp
  qed
qed simp

definition distinct_names :: "tool_def gomap \<Rightarrow> bool" where
  "distinct_names tools \<longleftrightarrow> inj_on (\<lambda>(i, d). model_name d) (set tools)"

lemma id_of_name:
  assumes "keyed td_id tools" "distinct_names tools" "gm_get tools i = Some d"
  shows "id_named (by_name tools) (model_name d) = i"
  using get_fold_names [of tools i d "[]"] assms(2) gm_get_in_set [OF assms(3)]
  by (simp add: distinct_names_def by_name_def id_named_def)

lemma own_first_keeps: "set rules \<subseteq> set (own_first has i fs rules)"
proof (induction fs arbitrary: rules)
  case (Cons f fs)
  show ?case using Cons.IH [of rules] Cons.IH [of "rules @ [x]" for x] by auto
qed simp

lemma own_first_adds:
  assumes "f \<in> set fs" "has f" "f \<noteq> i"
  shows "\<exists>r \<in> set (own_first has i fs rules). pq_first r = f \<and> pq_same r = []"
  using assms(1)
proof (induction fs arbitrary: rules)
  case (Cons g fs)
  show ?case
  proof (cases "f \<in> set fs")
    case True
    then show ?thesis using Cons.IH by auto
  next
    case False
    then have f: "f = g" using Cons.prems by simp
    let ?new = "\<lparr>pq_id = [], pq_before = i, pq_first = f, pq_same = [], pq_text = [], pq_one_of = []\<rparr>"
    show ?thesis
    proof (cases "\<exists>r \<in> set rules. pq_first r = f \<and> pq_same r = []")
      case True
      then show ?thesis using own_first_keeps [of rules has i fs] f by auto
    next
      case False
      then have "?new \<in> set (own_first has i (g # fs) rules)"
        using own_first_keeps [of "rules @ [?new]" has i fs] f assms(2,3) by auto
      then show ?thesis by (intro bexI [of _ ?new]) simp_all
    qed
  qed
qed simp

lemma hydrate_needs:
  assumes "hydrate_skill_tools sp = Inr as" and "a \<in> set as"
  shows "bd_needs (ab_binding a) = first_rules (sp_skill sp) (sp_tools sp)
     (\<lambda>f. f \<in> (\<lambda>a. id_named (by_name (sp_tools sp)) (ability_name a)) ` set as)
     (id_named (by_name (sp_tools sp)) (ability_name a))"
proof -
  obtain bound where b: "bind_abilities sp = Inr bound"
    using assms by (auto simp: hydrate_skill_tools_def split: sum.splits)
  have n: "\<forall>x \<in> set bound. bd_needs (ab_binding x) = []" using bind_abilities_facts(1) [OF b] by (simp add: fresh_bound_def)
  let ?id = "\<lambda>a :: 'a ability. id_named (by_name (sp_tools sp)) (ability_name a)"
  let ?wrap = "\<lambda>a. wrap_prerequisites (first_rules (sp_skill sp) (sp_tools sp) (\<lambda>f. f \<in> ?id ` set bound) (?id a)) (names_of (sp_tools sp)) a"
  have as: "as = map ?wrap bound" using assms(1) b by (simp add: hydrate_skill_tools_def Let_def)
  have "?id ` set as = ?id ` set bound" by (simp add: as image_image)
  moreover obtain a0 where "a0 \<in> set bound" "a = ?wrap a0" using assms(2) by (auto simp: as)
  ultimately show ?thesis using n by (simp add: wrap_needs)
qed

end
