(* ===== verification/Gate_Facts.thy ===== *)
theory Gate_Facts
  imports Tool_Gates Rule_Facts
begin

text \<open>
  The contract of a gate, as a locale: it stops a call, or lets exactly one call through to what
  is behind it. From it: behind any stack of gates the executor runs at most once per call, last,
  and only under what every gate asked for. Each gate of \<open>gated\<close> is an interpretation.
\<close>

section \<open>Runs in a list of events\<close>

fun is_run :: "event \<Rightarrow> bool" where
  "is_run (EvRan t i ref a inp out err) = True"
| "is_run _ = False"

definition no_run :: "event list \<Rightarrow> bool" where
  "no_run es \<longleftrightarrow> (\<forall>e \<in> set es. \<not> is_run e)"

lemma no_run_simps [simp]:
  "no_run []" "no_run (e # es) \<longleftrightarrow> \<not> is_run e \<and> no_run es" "no_run (es @ fs) \<longleftrightarrow> no_run es \<and> no_run fs"
  by (auto simp: no_run_def)

text \<open>What a gate may do to the state before it passes a call on: the journal and the one-shot tables stay.\<close>

definition grows :: "'e world \<Rightarrow> 'e world \<Rightarrow> event list \<Rightarrow> bool" where
  "grows w w1 es \<longleftrightarrow> no_run es \<and> w_events w1 = w_events w @ es \<and> w_journal w1 = w_journal w \<and> w_once w1 = w_once w"

lemma grows_refl [simp]: "grows w w []"
  by (simp add: grows_def)

lemma grows_env [simp]: "grows w (w1\<lparr>w_env := e\<rparr>) es = grows w w1 es"
  by (simp add: grows_def)

lemma grows_emit: "grows w w1 es \<Longrightarrow> \<not> is_run ev \<Longrightarrow> grows w (emit ev w1) (es @ [ev])"
  by (simp add: grows_def emit_def)

lemma grows_trans: "grows w w1 es \<Longrightarrow> grows w1 w2 fs \<Longrightarrow> grows w w2 (es @ fs)"
  by (simp add: grows_def)

lemma emit_parts [simp]:
  "w_events (emit ev w) = w_events w @ [ev]" "w_journal (emit ev w) = w_journal w"
  "w_once (emit ev w) = w_once w" "w_env (emit ev w) = w_env w"
  by (simp_all add: emit_def)

section \<open>The contract\<close>

text \<open>
  A handler whose calls either do not run the executor and satisfy \<open>S\<close>, or run it once, as the
  last event, and satisfy \<open>Q\<close>: relations of the call, the state before, the result and the state
  after (and the run).
\<close>

type_synonym 'e on_run = "'e ctx \<Rightarrow> args \<Rightarrow> 'e world \<Rightarrow> event \<Rightarrow> invoke_result \<Rightarrow> 'e world \<Rightarrow> bool"
type_synonym 'e on_stop = "'e ctx \<Rightarrow> args \<Rightarrow> 'e world \<Rightarrow> invoke_result \<Rightarrow> 'e world \<Rightarrow> bool"

definition outcome_ok :: "'e on_run \<Rightarrow> 'e on_stop \<Rightarrow> 'e ctx \<Rightarrow> args \<Rightarrow> 'e world \<Rightarrow> invoke_result \<Rightarrow> 'e world \<Rightarrow> bool" where
  "outcome_ok Q S cx inp w r w' \<longleftrightarrow>
     (\<exists>es. no_run es \<and>
        ((w_events w' = w_events w @ es \<and> S cx inp w r w') \<or>
         (\<exists>ev. is_run ev \<and> w_events w' = w_events w @ es @ [ev] \<and> Q cx inp w ev r w')))"

definition tame :: "'e on_run \<Rightarrow> 'e on_stop \<Rightarrow> 'e handler \<Rightarrow> bool" where
  "tame Q S h \<longleftrightarrow> (\<forall>cx inp w r w'. h cx inp w = (r, w') \<longrightarrow> outcome_ok Q S cx inp w r w')"

lemma tameI: "(\<And>cx inp w r w'. h cx inp w = (r, w') \<Longrightarrow> outcome_ok Q S cx inp w r w') \<Longrightarrow> tame Q S h"
  by (simp add: tame_def)

lemma tameD: "tame Q S h \<Longrightarrow> h cx inp w = (r, w') \<Longrightarrow> outcome_ok Q S cx inp w r w'"
  unfolding tame_def by blast

lemma tame_mono:
  "tame Q S h \<Longrightarrow> (\<And>cx inp w ev r w'. Q cx inp w ev r w' \<Longrightarrow> Q' cx inp w ev r w') \<Longrightarrow>
     (\<And>cx inp w r w'. S cx inp w r w' \<Longrightarrow> S' cx inp w r w') \<Longrightarrow> tame Q' S' h"
  unfolding tame_def outcome_ok_def by blast

text \<open>
  A gate: \<open>stops\<close> relates a call it stops to its result, \<open>lets\<close> a call it lets through to the
  call behind it, \<open>ends\<close> the state the inner call left to the state it leaves.
\<close>

definition passes_on where
  "passes_on stops lets ends (inner :: 'e handler) cx inp w r w' \<longleftrightarrow>
      (\<exists>es. grows w w' es \<and> stops cx inp w r) \<or>
      (\<exists>cx1 inp1 w1 w2 es. grows w w1 es \<and> lets cx inp w cx1 inp1 w1 \<and> inner cx1 inp1 w1 = (r, w2) \<and> ends inp1 r w2 w')"

lemma passes_stop: "grows w w' es \<Longrightarrow> stops cx inp w r \<Longrightarrow> passes_on stops lets ends inner cx inp w r w'"
  unfolding passes_on_def by blast

lemma passes_through:
  "grows w w1 es \<Longrightarrow> lets cx inp w cx1 inp1 w1 \<Longrightarrow> inner cx1 inp1 w1 = (r, w2) \<Longrightarrow> ends inp1 r w2 w' \<Longrightarrow>
     passes_on stops lets ends inner cx inp w r w'"
  unfolding passes_on_def by blast

lemma stop_here: "stops cx inp w r \<Longrightarrow> passes_on stops lets ends inner cx inp w r w"
  by (rule passes_stop [OF grows_refl])

lemma through_here:
  "inner cx1 inp1 w = (r, w2) \<Longrightarrow> lets cx inp w cx1 inp1 w \<Longrightarrow> ends inp1 r w2 w' \<Longrightarrow> passes_on stops lets ends inner cx inp w r w'"
  by (rule passes_through [OF grows_refl])

locale gate =
  fixes wrap :: "'e handler \<Rightarrow> 'e handler"
    and stops :: "'e ctx \<Rightarrow> args \<Rightarrow> 'e world \<Rightarrow> invoke_result \<Rightarrow> bool"
    and lets :: "'e ctx \<Rightarrow> args \<Rightarrow> 'e world \<Rightarrow> 'e ctx \<Rightarrow> args \<Rightarrow> 'e world \<Rightarrow> bool"
    and ends :: "args \<Rightarrow> invoke_result \<Rightarrow> 'e world \<Rightarrow> 'e world \<Rightarrow> bool"
  assumes passes: "wrap inner cx inp w = (r, w') \<Longrightarrow> passes_on stops lets ends inner cx inp w r w'"
    and ends_events: "ends inp1 r w2 w' \<Longrightarrow> w_events w' = w_events w2"
begin

definition run_behind :: "'e on_run \<Rightarrow> 'e on_run" where
  "run_behind Q cx inp w ev r w' \<longleftrightarrow>
     (\<exists>cx1 inp1 w1 w2 es. grows w w1 es \<and> lets cx inp w cx1 inp1 w1 \<and> Q cx1 inp1 w1 ev r w2 \<and> ends inp1 r w2 w')"

definition stop_behind :: "'e on_stop \<Rightarrow> 'e on_stop" where
  "stop_behind S cx inp w r w' \<longleftrightarrow>
     (stops cx inp w r \<and> (\<exists>es. grows w w' es)) \<or>
     (\<exists>cx1 inp1 w1 w2 es. grows w w1 es \<and> lets cx inp w cx1 inp1 w1 \<and> S cx1 inp1 w1 r w2 \<and> ends inp1 r w2 w')"

text \<open>What is known of the handler behind a gate is known through the gate.\<close>

lemma tame_wrap:
  assumes "tame Q S inner"
  shows "tame (run_behind Q) (stop_behind S) (wrap inner)"
proof (rule tameI)
  fix cx inp w r w'
  assume "wrap inner cx inp w = (r, w')"
  from passes [OF this, unfolded passes_on_def] show "outcome_ok (run_behind Q) (stop_behind S) cx inp w r w'"
  proof
    assume "\<exists>es. grows w w' es \<and> stops cx inp w r"
    then show ?thesis unfolding outcome_ok_def stop_behind_def grows_def by blast
  next
    assume "\<exists>cx1 inp1 w1 w2 es. grows w w1 es \<and> lets cx inp w cx1 inp1 w1 \<and> inner cx1 inp1 w1 = (r, w2) \<and> ends inp1 r w2 w'"
    then obtain cx1 inp1 w1 w2 es where g: "grows w w1 es" and l: "lets cx inp w cx1 inp1 w1"
      and i: "inner cx1 inp1 w1 = (r, w2)" and e: "ends inp1 r w2 w'" by blast
    have ev: "w_events w' = w_events w2" using e by (rule ends_events)
    have w1: "no_run es" "w_events w1 = w_events w @ es" using g by (simp_all add: grows_def)
    from tameD [OF assms i] obtain fs where fs: "no_run fs"
      "(w_events w2 = w_events w1 @ fs \<and> S cx1 inp1 w1 r w2) \<or>
       (\<exists>ev. is_run ev \<and> w_events w2 = w_events w1 @ fs @ [ev] \<and> Q cx1 inp1 w1 ev r w2)"
      unfolding outcome_ok_def by blast
    from fs(2) show ?thesis
    proof (elim disjE exE conjE)
      assume s: "w_events w2 = w_events w1 @ fs" "S cx1 inp1 w1 r w2"
      then have "stop_behind S cx inp w r w'" unfolding stop_behind_def using g l e by blast
      then show ?thesis unfolding outcome_ok_def using s w1 fs(1) ev by (intro exI [of _ "es @ fs"]) simp
    next
      fix x
      assume s: "is_run x" "w_events w2 = w_events w1 @ fs @ [x]" "Q cx1 inp1 w1 x r w2"
      then have "run_behind Q cx inp w x r w'" unfolding run_behind_def using g l e by blast
      then show ?thesis unfolding outcome_ok_def using s w1 fs(1) ev by (intro exI [of _ "es @ fs"]) simp
    qed
  qed
qed

end

section \<open>The gates\<close>

abbreviation done_result :: "invoke_result \<Rightarrow> bool" where
  "done_result r \<equiv> really_done (fst r) (snd r)"

abbreviation same_call_on :: "'e ctx \<Rightarrow> args \<Rightarrow> 'e world \<Rightarrow> 'e ctx \<Rightarrow> args \<Rightarrow> 'e world \<Rightarrow> bool" where
  "same_call_on cx inp w cx1 inp1 w1 \<equiv> cx1 = cx \<and> inp1 = inp \<and> w1 = w"

abbreviation ends_there :: "args \<Rightarrow> invoke_result \<Rightarrow> 'e world \<Rightarrow> 'e world \<Rightarrow> bool" where
  "ends_there inp r w2 w' \<equiv> w' = w2"

abbreviation not_done :: "'e ctx \<Rightarrow> args \<Rightarrow> 'e world \<Rightarrow> invoke_result \<Rightarrow> bool" where
  "not_done cx inp w r \<equiv> \<not> done_result r"

lemma not_done_fails [gate_simps]: "\<not> done_result (fails e)"
  by (simp add: fails_def really_done_def outcome_of_def)

lemma not_done_refused [gate_simps]: "\<not> done_result (refused why)"
  by (simp add: refused_def really_done_def outcome_of_def Let_def get_any_def)

lemma not_done_declined [gate_simps]: "\<not> done_result (says output_not_approved)"
  by (simp add: says_def really_done_def outcome_of_def)

lemma not_done_auth [gate_simps]: "\<not> done_result (says auth_pending_note)"
  by (simp add: says_def really_done_def outcome_of_def auth_pending_note_def)

lemma not_done_timezone [gate_simps]: "\<not> done_result (says timezone_pending_note)"
  by (simp add: says_def really_done_def outcome_of_def timezone_pending_note_def is_timezone_pending_def)

interpretation pins_gate: gate "with_pins rules" "\<lambda>_ _ _ _. False"
    "\<lambda>cx inp w cx1 inp1 w1. cx1 = cx \<and> inp1 = apply_pins rules inp \<and> w1 = w" ends_there for rules
  by unfold_locales (auto simp: with_pins_def intro: through_here)

interpretation contract_gate: gate "with_input_contract def" not_done
    "\<lambda>cx inp w cx1 inp1 w1. cx1 = cx \<and> check_input (td_input def) inp = Inr inp1 \<and> w1 = w" ends_there for def
proof unfold_locales
  fix inner :: "'a handler" and cx inp w r w'
  assume a: "with_input_contract def inner cx inp w = (r, w')"
  show "passes_on not_done (\<lambda>cx inp w cx1 inp1 w1. cx1 = cx \<and> check_input (td_input def) inp = Inr inp1 \<and> w1 = w)
      ends_there inner cx inp w r w'"
  proof (cases "check_input (td_input def) inp")
    case (Inl e)
    with a have "\<not> done_result r" "w' = w" by (auto simp: with_input_contract_def gate_simps)
    then show ?thesis by (simp add: stop_here)
  next
    case (Inr clean)
    with a have "inner cx clean w = (r, w')" by (simp add: with_input_contract_def)
    then show ?thesis using Inr by (auto intro: through_here)
  qed
qed simp

interpretation rules_gate: gate "with_rules rules" not_done
    "\<lambda>cx inp w cx1 inp1 w1. same_call_on cx inp w cx1 inp1 w1 \<and> breaks rules inp = Some []" ends_there for rules
proof unfold_locales
  fix inner :: "'a handler" and cx inp w r w'
  assume a: "with_rules rules inner cx inp w = (r, w')"
  show "passes_on not_done (\<lambda>cx inp w cx1 inp1 w1. same_call_on cx inp w cx1 inp1 w1 \<and> breaks rules inp = Some [])
      ends_there inner cx inp w r w'"
  proof (cases "breaks rules inp = Some []")
    case True
    with a have "inner cx inp w = (r, w')" by (simp add: with_rules_def)
    then show ?thesis using True by (auto intro: through_here)
  next
    case False
    with a have "\<not> done_result r" "w' = w" by (auto simp: with_rules_def gate_simps split: option.splits if_splits)
    then show ?thesis by (simp add: stop_here)
  qed
qed simp

text \<open>What the prepare step did to the call.\<close>

definition prepared_call where
  "prepared_call p def i cx inp w cx1 inp1 w1 \<longleftrightarrow> cx1 = cx \<and>
     (\<exists>res e. p cx i (ref_of cx i) (td_action def) inp (w_env w) = (Inr res, e) \<and>
        inp1 = (case res of None \<Rightarrow> inp | Some x \<Rightarrow> x) \<and> w1 = w\<lparr>w_env := e\<rparr>)"

interpretation prepare_gate: gate "with_prepare p def i" not_done "prepared_call p def i" ends_there for p def i
proof unfold_locales
  fix inner :: "'a handler" and cx inp w r w'
  assume a: "with_prepare p def i inner cx inp w = (r, w')"
  obtain res e where c: "p cx i (ref_of cx i) (td_action def) inp (w_env w) = (res, e)" by fastforce
  have g: "grows w (w\<lparr>w_env := e\<rparr>) []" by simp
  show "passes_on not_done (prepared_call p def i) ends_there inner cx inp w r w'"
  proof (cases res)
    case (Inl err)
    with a c have "\<not> done_result r" "w' = w\<lparr>w_env := e\<rparr>" by (auto simp: with_prepare_def gate_simps)
    then show ?thesis using passes_stop [OF g] by simp
  next
    case (Inr x)
    let ?inp1 = "case x of None \<Rightarrow> inp | Some y \<Rightarrow> y"
    from Inr a c have "inner cx ?inp1 (w\<lparr>w_env := e\<rparr>) = (r, w')" by (simp add: with_prepare_def)
    moreover have "prepared_call p def i cx inp w cx ?inp1 (w\<lparr>w_env := e\<rparr>)"
      using c Inr by (simp add: prepared_call_def)
    ultimately show ?thesis by (intro passes_through [OF g]) auto
  qed
qed simp

text \<open>The person was asked for a time zone, in vain, before the call went on (or was not asked).\<close>

definition timezone_seen where
  "timezone_seen def cx inp w cx1 inp1 w1 \<longleftrightarrow> cx1 = cx \<and> inp1 = inp \<and>
     (if td_needs_local_time def then ask_for_timezone cx w = (False, w1) else w1 = w)"

lemma ask_for_timezone_grows: "ask_for_timezone cx w = (sent, w1) \<Longrightarrow> \<exists>es. grows w w1 es"
  by (auto simp: ask_for_timezone_def Let_def grows_def split: if_splits option.splits prod.splits)

interpretation timezone_gate: gate "with_timezone_gate def" not_done "timezone_seen def" ends_there for def
proof unfold_locales
  fix inner :: "'a handler" and cx inp w r w'
  assume a: "with_timezone_gate def inner cx inp w = (r, w')"
  obtain sent w1 where z: "ask_for_timezone cx w = (sent, w1)" by fastforce
  obtain es where g: "grows w w1 es" using ask_for_timezone_grows [OF z] by blast
  show "passes_on not_done (timezone_seen def) ends_there inner cx inp w r w'"
  proof (cases "td_needs_local_time def")
    case True
    show ?thesis
    proof (cases sent)
      case True
      with \<open>td_needs_local_time def\<close> a z have "\<not> done_result r" "w' = w1"
        by (auto simp: with_timezone_gate_def gate_simps)
      then show ?thesis using passes_stop [OF g] by simp
    next
      case False
      with \<open>td_needs_local_time def\<close> a z have "inner cx inp w1 = (r, w')" "timezone_seen def cx inp w cx inp w1"
        by (auto simp: with_timezone_gate_def timezone_seen_def)
      then show ?thesis by (intro passes_through [OF g]) auto
    qed
  next
    case False
    then show ?thesis using a by (auto simp: with_timezone_gate_def timezone_seen_def intro: through_here)
  qed
qed simp

text \<open>Asked and agreed: the prompt shows the very inputs that go on.\<close>

definition asked_ok :: "tool_def \<Rightarrow> args \<Rightarrow> 'e world \<Rightarrow> 'e world \<Rightarrow> bool" where
  "asked_ok def inp w w1 \<longleftrightarrow> EvAsked (td_id def) (render_approval_prompt def inp) True \<in> set (drop (length (w_events w)) (w_events w1))"

lemma ask_first_passes:
  assumes "ask_first def a b c inner cx inp w = (r, w')"
  shows "passes_on not_done (\<lambda>cx inp w cx1 inp1 w1. cx1 = cx \<and> inp1 = inp \<and> asked_ok def inp w w1) ends_there inner cx inp w r w'"
proof (cases "cx_approver cx")
  case None
  then show ?thesis using assms by (auto simp: ask_first_def gate_simps intro: stop_here)
next
  case (Some ask)
  show ?thesis
  proof (cases "cx_conv cx")
    case None
    then show ?thesis using assms Some by (auto simp: ask_first_def gate_simps intro: stop_here)
  next
    case cv: (Some cv)
    let ?w1 = "emit (EvStep (model_name def) StepWaiting) w" and ?p = "render_approval_prompt def inp"
    obtain res e where c: "ask cv ?p (td_approval_timeout def) (w_env ?w1) = (res, e)" by fastforce
    let ?w2 = "\<lambda>ok. emit (EvAsked (td_id def) ?p ok) (?w1\<lparr>w_env := e\<rparr>)"
    have g2: "grows w (?w2 ok) [EvStep (model_name def) StepWaiting, EvAsked (td_id def) ?p ok]" for ok
      by (simp add: grows_def)
    show ?thesis
    proof (cases "res = Inr True")
      case True
      have g3: "grows w (emit (EvStep (model_name def) StepRunning) (?w2 True))
          [EvStep (model_name def) StepWaiting, EvAsked (td_id def) ?p True, EvStep (model_name def) StepRunning]"
        by (simp add: grows_def)
      have "inner cx inp (emit (EvStep (model_name def) StepRunning) (?w2 True)) = (r, w')"
        using assms Some cv c True by (simp add: ask_first_def Let_def)
      moreover have "asked_ok def inp w (emit (EvStep (model_name def) StepRunning) (?w2 True))"
        by (simp add: asked_ok_def)
      ultimately show ?thesis by (intro passes_through [OF g3]) auto
    next
      case False
      have w: "ask_first def a b c inner cx inp w =
         (case res of Inl err \<Rightarrow> (fails (wrapf c err), ?w2 False)
          | Inr ok \<Rightarrow> (if \<not> ok then (says output_not_approved, ?w2 False)
                      else inner cx inp (emit (EvStep (model_name def) StepRunning) (?w2 True))))"
        unfolding ask_first_def Let_def Some cv option.case c prod.case ..
      have d: "w' = ?w2 False" "\<not> done_result r"
        using assms False unfolding w by (cases res; auto simp: gate_simps simp del: split_paired_All)+
      show ?thesis unfolding d(1) using d(2) by (intro passes_stop [OF g2]) simp
    qed
  qed
qed

definition approved_call where
  "approved_call def cx inp w cx1 inp1 w1 \<longleftrightarrow> cx1 = cx \<and> inp1 = inp \<and>
     ((agreed_in_advance cx def \<and> w1 = w) \<or> (\<not> agreed_in_advance cx def \<and> asked_ok def inp w w1))"

lemma passes_mono:
  "passes_on stops lets ends inner cx inp w r w' \<Longrightarrow>
     (\<And>cx1 inp1 w1. lets cx inp w cx1 inp1 w1 \<Longrightarrow> lets' cx inp w cx1 inp1 w1) \<Longrightarrow> passes_on stops lets' ends inner cx inp w r w'"
  unfolding passes_on_def by blast

interpretation approval_gate: gate "with_approval_gate def" not_done "approved_call def" ends_there for def
proof unfold_locales
  fix inner :: "'a handler" and cx inp w r w'
  assume a: "with_approval_gate def inner cx inp w = (r, w')"
  show "passes_on not_done (approved_call def) ends_there inner cx inp w r w'"
  proof (cases "agreed_in_advance cx def")
    case True
    then show ?thesis using a by (auto simp: with_approval_gate_def approved_call_def intro: through_here)
  next
    case False
    then show ?thesis using a
      by (auto simp: with_approval_gate_def approved_call_def dest!: ask_first_passes elim!: passes_mono)
  qed
qed simp

definition user_asked :: "'e ctx \<Rightarrow> tool_def \<Rightarrow> bool" where
  "user_asked cx def \<longleftrightarrow> \<not> td_read_only def \<and> cx_approvals cx (td_id def) \<and> \<not> agreed_in_advance cx def"

definition user_approved_call where
  "user_approved_call def cx inp w cx1 inp1 w1 \<longleftrightarrow> cx1 = cx \<and> inp1 = inp \<and>
     ((\<not> user_asked cx def \<and> w1 = w) \<or> (user_asked cx def \<and> asked_ok def inp w w1))"

interpretation user_approval_gate: gate "with_user_approval_gate def" not_done "user_approved_call def" ends_there for def
proof unfold_locales
  fix inner :: "'a handler" and cx inp w r w'
  assume a: "with_user_approval_gate def inner cx inp w = (r, w')"
  show "passes_on not_done (user_approved_call def) ends_there inner cx inp w r w'"
  proof (cases "user_asked cx def")
    case False
    then have "td_read_only def \<or> \<not> cx_approvals cx (td_id def) \<or> agreed_in_advance cx def" by (simp add: user_asked_def)
    then show ?thesis using a False
      by (auto simp: with_user_approval_gate_def user_approved_call_def intro: through_here)
  next
    case True
    then have "\<not> (td_read_only def \<or> \<not> cx_approvals cx (td_id def) \<or> agreed_in_advance cx def)" by (simp add: user_asked_def)
    then show ?thesis using a True
      by (auto simp: with_user_approval_gate_def user_approved_call_def dest!: ask_first_passes elim!: passes_mono)
  qed
qed simp

text \<open>The person is connected, or was just now, or there is nobody to ask.\<close>

definition signed_in where
  "signed_in i cx inp w cx1 inp1 w1 \<longleftrightarrow> inp1 = inp \<and> cx_unattended cx1 = cx_unattended cx \<and>
     (connection_ref cx1 (id_id i) \<noteq> [] \<or> cx_connecter cx = None \<or> cx_conv cx = None)"

interpretation auth_gate: gate "with_auth_gate i name" not_done "signed_in i" ends_there for i name
proof unfold_locales
  fix inner :: "'a handler" and cx inp w r w'
  assume a: "with_auth_gate i name inner cx inp w = (r, w')"
  show "passes_on not_done (signed_in i) ends_there inner cx inp w r w'"
  proof (cases "connection_ref cx (id_id i) \<noteq> [] \<or> cx_connecter cx = None \<or> cx_conv cx = None")
    case True
    then have "inner cx inp w = (r, w')" using a unfolding with_auth_gate_def
      by (cases "connection_ref cx (id_id i) \<noteq> []"; cases "cx_connecter cx"; cases "cx_conv cx") simp_all
    then show ?thesis using True by (auto simp: signed_in_def intro: through_here)
  next
    case False
    then obtain connect cv where x: "cx_connecter cx = Some connect" "cx_conv cx = Some cv" by auto
    let ?cx1 = "if name \<noteq> [] then cx\<lparr>cx_connect_tool := name\<rparr> else cx"
    obtain res e where c: "connect cv i (cx_user cx) (cx_connect_tool ?cx1) (w_env w) = (res, e)" by fastforce
    let ?w1 = "emit (EvConnect (id_id i)) (w\<lparr>w_env := e\<rparr>)"
    have g: "grows w ?w1 [EvConnect (id_id i)]" by (simp add: grows_def)
    have w: "with_auth_gate i name inner cx inp w =
       (case res of
          Inl err \<Rightarrow> (if errors_is err ErrSignInUnavailable then (fails (sign_in_unavailable name err), ?w1)
                      else (fails (wrapf (''tool requires authentication '' @ em_dash @ '' '') err), ?w1))
        | Inr ref \<Rightarrow> (if ref = [] then (says auth_pending_note, ?w1)
                     else inner (?cx1\<lparr>cx_refs := gm_set (id_id i) ref (cx_refs ?cx1)\<rparr>) inp ?w1))"
      unfolding with_auth_gate_def Let_def using False x c by simp
    show ?thesis
    proof (cases "\<exists>ref. res = Inr ref \<and> ref \<noteq> []")
      case True
      then obtain ref where r: "res = Inr ref" "ref \<noteq> []" by blast
      let ?cx2 = "?cx1\<lparr>cx_refs := gm_set (id_id i) ref (cx_refs ?cx1)\<rparr>"
      have "inner ?cx2 inp ?w1 = (r, w')" using a w r by simp
      moreover have "signed_in i cx inp w ?cx2 inp ?w1" using r by (simp add: signed_in_def connection_ref_def)
      ultimately show ?thesis by (intro passes_through [OF g]) auto
    next
      case f: False
      then have d: "w' = ?w1" "\<not> done_result r"
        using a w by (cases res; auto simp: gate_simps split: if_splits)+
      show ?thesis unfolding d(1) using d(2) by (intro passes_stop [OF g]) simp
    qed
  qed
qed simp

text \<open>The two gates that write down what happened behind them.\<close>

definition journaled :: "string \<Rightarrow> args \<Rightarrow> invoke_result \<Rightarrow> 'e world \<Rightarrow> 'e world \<Rightarrow> bool" where
  "journaled tool_id inp r w2 w' \<longleftrightarrow>
     w' = (if done_result r \<and> \<not> says_it_failed (fst r)
           then w2\<lparr>w_journal := journal_note tool_id inp (w_journal w2)\<rparr> else w2)"

interpretation journal_gate: gate "with_journal tool_id" "\<lambda>_ _ _ _. False" same_call_on "journaled tool_id" for tool_id
proof unfold_locales
  fix inner :: "'a handler" and cx inp w r w'
  assume a: "with_journal tool_id inner cx inp w = (r, w')"
  obtain r1 w1 where i: "inner cx inp w = (r1, w1)" by fastforce
  with a have "r = r1" "journaled tool_id inp r1 w1 w'"
    by (auto simp: with_journal_def journaled_def split: prod.splits)
  with i show "passes_on (\<lambda>_ _ _ _. False) same_call_on (journaled tool_id) inner cx inp w r w'"
    by (intro through_here) auto
qed (auto simp: journaled_def)

definition guarded :: "nat \<Rightarrow> string list \<Rightarrow> args \<Rightarrow> invoke_result \<Rightarrow> 'e world \<Rightarrow> 'e world \<Rightarrow> bool" where
  "guarded g once_for inp r w2 w' \<longleftrightarrow>
     w' = (if done_result r then w2\<lparr>w_once := (g, once_key once_for inp) # w_once w2\<rparr> else w2)"

interpretation once_gate: gate "with_one_shot_guard g once_for"
    "\<lambda>cx inp w r. r = says already_completed \<and> (g, once_key once_for inp) \<in> set (w_once w)"
    "\<lambda>cx inp w cx1 inp1 w1. same_call_on cx inp w cx1 inp1 w1 \<and> (g, once_key once_for inp) \<notin> set (w_once w)"
    "guarded g once_for" for g once_for
proof unfold_locales
  fix inner :: "'a handler" and cx inp w r w'
  assume a: "with_one_shot_guard g once_for inner cx inp w = (r, w')"
  obtain r1 w1 where i: "inner cx inp w = (r1, w1)" by fastforce
  show "passes_on (\<lambda>cx inp w r. r = says already_completed \<and> (g, once_key once_for inp) \<in> set (w_once w))
    (\<lambda>cx inp w cx1 inp1 w1. same_call_on cx inp w cx1 inp1 w1 \<and> (g, once_key once_for inp) \<notin> set (w_once w))
    (guarded g once_for) inner cx inp w r w'"
  proof (cases "(g, once_key once_for inp) \<in> set (w_once w)")
    case True
    with a have "r = says already_completed" "w' = w" by (auto simp: with_one_shot_guard_def Let_def)
    then show ?thesis using True by (simp add: stop_here)
  next
    case False
    with a i have "r = r1" "guarded g once_for inp r1 w1 w'"
      by (auto simp: with_one_shot_guard_def guarded_def Let_def split: prod.splits)
    with i False show ?thesis by (intro through_here) auto
  qed
qed (auto simp: guarded_def)

text \<open>Nothing the capability says must run first is missing.\<close>

interpretation prerequisite_gate: gate "with_prerequisites name rules names" not_done
    "\<lambda>cx inp w cx1 inp1 w1. same_call_on cx inp w cx1 inp1 w1 \<and> (\<forall>r \<in> set rules. \<not> unmet cx (w_journal w) inp r)"
    ends_there for name rules names
proof unfold_locales
  fix inner :: "'a handler" and cx inp w r w'
  assume a: "with_prerequisites name rules names inner cx inp w = (r, w')"
  show "passes_on not_done (\<lambda>cx inp w cx1 inp1 w1. same_call_on cx inp w cx1 inp1 w1 \<and> (\<forall>r \<in> set rules. \<not> unmet cx (w_journal w) inp r))
    ends_there inner cx inp w r w'"
  proof (cases "find (unmet cx (w_journal w) inp) rules")
    case None
    with a have "inner cx inp w = (r, w')" by (simp add: with_prerequisites_def)
    then show ?thesis using None by (intro through_here) (auto simp: find_None_iff)
  next
    case (Some q)
    with a have "\<not> done_result r" "w' = w" by (auto simp: with_prerequisites_def gate_simps)
    then show ?thesis by (simp add: stop_here)
  qed
qed simp

end
