(* ===== verification/Gate_Stack.thy ===== *)
theory Gate_Stack
  imports Gate_Facts
begin

text \<open>
  What every call of a bound tool satisfies, from the contracts of its gates, one gate after the
  other from the executor outwards (the order in which \<open>gated\<close> builds them).
\<close>

section \<open>What is said of a run\<close>

text \<open>A person was shown this very call, during it, and agreed.\<close>

definition asked :: "tool_def \<Rightarrow> args \<Rightarrow> 'e world \<Rightarrow> 'e world \<Rightarrow> bool" where
  "asked def sent w w' \<longleftrightarrow>
     EvAsked (td_id def) (render_approval_prompt def sent) True \<in> set (drop (length (w_events w)) (w_events w'))"

definition extends :: "'e world \<Rightarrow> 'e world \<Rightarrow> bool" where
  "extends w w' \<longleftrightarrow> prefix (w_events w) (w_events w')"

definition needs_sign_in :: "identity option \<Rightarrow> bool" where
  "needs_sign_in i \<longleftrightarrow> (case i of None \<Rightarrow> False | Some x \<Rightarrow> id_kind x \<noteq> identity_kind_token)"

text \<open>The run itself: the connection it used, and what the journal holds afterwards.\<close>

definition ran_as :: "tool_def \<Rightarrow> identity option \<Rightarrow> 'e on_run" where
  "ran_as def i cx sent w ev r w' \<longleftrightarrow> extends w w' \<and>
     (\<exists>ref. ev = EvRan (td_id def) i ref (td_action def) sent (fst r) (snd r) \<and>
        (needs_sign_in i \<longrightarrow> ref \<noteq> [] \<or> cx_connecter cx = None \<or> cx_conv cx = None)) \<and>
     w_journal w' = (if done_result r \<and> \<not> says_it_failed (fst r) then journal_note (td_id def) sent (w_journal w) else w_journal w)"

definition once_after :: "tool_def \<Rightarrow> nat \<Rightarrow> args \<Rightarrow> invoke_result \<Rightarrow> 'e world \<Rightarrow> 'e world \<Rightarrow> bool" where
  "once_after def g sent r w w' \<longleftrightarrow>
     w_once w' = (if td_requires_approval def \<and> done_result r then (g, once_key (td_once_for def) sent) # w_once w else w_once w)"

text \<open>What the approval half of the stack adds.\<close>

definition agreed :: "tool_def \<Rightarrow> nat \<Rightarrow> 'e on_run" where
  "agreed def g cx sent w ev r w' \<longleftrightarrow>
     (td_requires_approval def \<longrightarrow> (agreed_in_advance cx def \<or> asked def sent w w') \<and>
        (g, once_key (td_once_for def) sent) \<notin> set (w_once w)) \<and>
     (user_asked cx def \<longrightarrow> asked def sent w w') \<and> once_after def g sent r w w'"

definition unchanged :: "'e world \<Rightarrow> 'e world \<Rightarrow> bool" where
  "unchanged w w' \<longleftrightarrow> w_once w' = w_once w \<and> w_journal w' = w_journal w"

definition nothing_done :: "'e on_stop" where
  "nothing_done cx inp w r w' \<longleftrightarrow> \<not> done_result r \<and> unchanged w w'"

definition repeat_stop :: "tool_def \<Rightarrow> nat \<Rightarrow> 'e on_stop" where
  "repeat_stop def g cx inp w r w' \<longleftrightarrow> unchanged w w' \<and>
     (\<not> done_result r \<or>
      (r = says already_completed \<and> td_requires_approval def \<and> (g, once_key (td_once_for def) inp) \<in> set (w_once w)))"

lemma grows_once: "grows w w1 es \<Longrightarrow> w_once w1 = w_once w"
  by (simp add: grows_def)

lemma grows_journal: "grows w w1 es \<Longrightarrow> w_journal w1 = w_journal w"
  by (simp add: grows_def)

lemma extends_refl [simp]: "extends w w"
  by (simp add: extends_def)

lemma extends_grows: "grows w w1 es \<Longrightarrow> extends w1 w' \<Longrightarrow> extends w w'"
  by (auto simp: extends_def grows_def prefix_def)

lemma asked_grows: "grows w w1 es \<Longrightarrow> asked def sent w1 w' \<Longrightarrow> asked def sent w w'"
proof -
  assume g: "grows w w1 es" and a: "asked def sent w1 w'"
  have "length (w_events w) \<le> length (w_events w1)" using g by (simp add: grows_def)
  then show ?thesis using a set_drop_subset_set_drop [of "length (w_events w)" "length (w_events w1)" "w_events w'"]
    by (auto simp: asked_def)
qed

lemma asked_ok_extends: "asked_ok def sent w w1 \<Longrightarrow> extends w1 w' \<Longrightarrow> asked def sent w w'"
  by (auto simp: asked_ok_def asked_def extends_def prefix_def)

lemma unchanged_grows: "grows w w1 es \<Longrightarrow> unchanged w1 w' \<Longrightarrow> unchanged w w'"
  by (simp add: unchanged_def grows_def)

lemma ran_as_grows: "grows w w1 es \<Longrightarrow> ran_as def i cx sent w1 ev r w' \<Longrightarrow> ran_as def i cx sent w ev r w'"
  by (frule grows_journal) (auto simp: ran_as_def intro: extends_grows)

lemma agreed_grows: "grows w w1 es \<Longrightarrow> agreed def g cx sent w1 ev r w' \<Longrightarrow> agreed def g cx sent w ev r w'"
  by (frule grows_once) (auto simp: agreed_def once_after_def dest: asked_grows)

lemma nothing_done_grows: "grows w w1 es \<Longrightarrow> nothing_done cx1 inp1 w1 r w' \<Longrightarrow> nothing_done cx inp w r w'"
  by (auto simp: nothing_done_def dest: unchanged_grows)

lemma nothing_done_stop: "grows w w' es \<Longrightarrow> \<not> done_result r \<Longrightarrow> nothing_done cx inp w r w'"
  by (simp add: nothing_done_def unchanged_def grows_def)

lemma repeat_stop_grows: "grows w w1 es \<Longrightarrow> repeat_stop def g cx1 inp w1 r w' \<Longrightarrow> repeat_stop def g cx inp w r w'"
  by (frule grows_once, frule grows_journal) (auto simp: repeat_stop_def unchanged_def)

lemma repeat_stop_not_done: "grows w w' es \<Longrightarrow> \<not> done_result r \<Longrightarrow> repeat_stop def g cx inp w r w'"
  by (simp add: repeat_stop_def unchanged_def grows_def)

section \<open>From the executor to the person's own approval setting\<close>

abbreviation never_stops :: "'e on_stop" where
  "never_stops cx inp w r w' \<equiv> False"

definition plain_run :: "tool_def \<Rightarrow> identity option \<Rightarrow> 'e on_run" where
  "plain_run def i cx inp w ev r w' \<longleftrightarrow> extends w w' \<and> unchanged w w' \<and>
     ev = EvRan (td_id def) i (ref_of cx i) (td_action def) inp (fst r) (snd r)"

lemma tame_execute: "tame (plain_run def i) never_stops (execute_tool def i ex)"
proof (rule tameI)
  fix cx inp w r w'
  assume a: "execute_tool def i ex cx inp w = (r, w')"
  obtain out err e where x: "ex_execute ex (with_caller i cx) i (ref_of cx i) (td_action def) inp (w_env w) = ((out, err), e)"
    by (metis surj_pair)
  let ?ev = "EvRan (td_id def) i (ref_of cx i) (td_action def) inp out err"
  have "r = (out, err)" "w' = emit ?ev (w\<lparr>w_env := e\<rparr>)"
    using a x by (auto simp: execute_tool_def)
  then show "outcome_ok (plain_run def i) never_stops cx inp w r w'"
    unfolding outcome_ok_def
    by (intro exI [of _ "[]"] conjI disjI2 exI [of _ ?ev])
      (simp_all add: plain_run_def extends_def unchanged_def)
qed

definition journaled_run :: "tool_def \<Rightarrow> identity option \<Rightarrow> 'e on_run" where
  "journaled_run def i cx inp w ev r w' \<longleftrightarrow> extends w w' \<and> w_once w' = w_once w \<and>
     ev = EvRan (td_id def) i (ref_of cx i) (td_action def) inp (fst r) (snd r) \<and>
     w_journal w' = (if done_result r \<and> \<not> says_it_failed (fst r) then journal_note (td_id def) inp (w_journal w) else w_journal w)"

lemma tame_journal: "tame (journaled_run def i) never_stops (with_journal (td_id def) (execute_tool def i ex))"
proof (rule tame_mono [OF journal_gate.tame_wrap [OF tame_execute]])
  fix cx inp w ev r w'
  assume "journal_gate.run_behind (td_id def) (plain_run def i) cx inp w ev r w'"
  then obtain w1 w2 es where "grows w w1 es" "w1 = w" "plain_run def i cx inp w1 ev r w2" "journaled (td_id def) inp r w2 w'"
    unfolding journal_gate.run_behind_def by blast
  then show "journaled_run def i cx inp w ev r w'"
    by (auto simp: journaled_run_def plain_run_def journaled_def extends_def unchanged_def)
qed (auto simp: journal_gate.stop_behind_def)

lemma journaled_ran_as:
  "journaled_run def i cx inp w ev r w' \<Longrightarrow>
     (needs_sign_in i \<Longrightarrow> ref_of cx i \<noteq> [] \<or> cx_connecter cx0 = None \<or> cx_conv cx0 = None) \<Longrightarrow>
     ran_as def i cx0 inp w ev r w' \<and> w_once w' = w_once w"
  by (auto simp: journaled_run_def ran_as_def)

definition signed_handler :: "tool_def \<Rightarrow> identity option \<Rightarrow> 'e executor \<Rightarrow> 'e handler" where
  "signed_handler def i ex =
     (let h1 = with_journal (td_id def) (execute_tool def i ex) in
      case i of None \<Rightarrow> h1
      | Some x \<Rightarrow> if id_kind x \<noteq> identity_kind_token then with_auth_gate x (td_name def) h1 else h1)"

definition signed_run :: "tool_def \<Rightarrow> identity option \<Rightarrow> 'e on_run" where
  "signed_run def i cx inp w ev r w' \<longleftrightarrow> ran_as def i cx inp w ev r w' \<and> w_once w' = w_once w"

lemma tame_signed: "tame (signed_run def i) nothing_done (signed_handler def i ex)"
proof (cases "needs_sign_in i")
  case False
  then have "signed_handler def i ex = with_journal (td_id def) (execute_tool def i ex)"
    by (auto simp: signed_handler_def needs_sign_in_def split: option.splits)
  then show ?thesis using False
    by (auto intro!: tame_mono [OF tame_journal] simp: signed_run_def journaled_run_def ran_as_def)
next
  case True
  then obtain x where x: "i = Some x" "id_kind x \<noteq> identity_kind_token"
    by (auto simp: needs_sign_in_def split: option.splits)
  then have h: "signed_handler def i ex = with_auth_gate x (td_name def) (with_journal (td_id def) (execute_tool def i ex))"
    by (simp add: signed_handler_def)
  show ?thesis unfolding h
  proof (rule tame_mono [OF auth_gate.tame_wrap [OF tame_journal]])
    fix cx inp w ev r w'
    assume "auth_gate.run_behind x (journaled_run def i) cx inp w ev r w'"
    then obtain cx1 w1 es where g: "grows w w1 es" "signed_in x cx inp w cx1 inp w1" "journaled_run def i cx1 inp w1 ev r w'"
      unfolding auth_gate.run_behind_def signed_in_def by blast
    then have "ran_as def i cx inp w1 ev r w' \<and> w_once w' = w_once w1"
      using x by (intro journaled_ran_as) (auto simp: signed_in_def ref_of_def)
    then show "signed_run def i cx inp w ev r w'"
      using g(1) grows_once [OF g(1)] by (auto simp: signed_run_def intro: ran_as_grows)
  qed (auto simp: auth_gate.stop_behind_def intro: nothing_done_stop)
qed

definition user_run :: "tool_def \<Rightarrow> identity option \<Rightarrow> 'e on_run" where
  "user_run def i cx inp w ev r w' \<longleftrightarrow> signed_run def i cx inp w ev r w' \<and> (user_asked cx def \<longrightarrow> asked def inp w w')"

lemma signed_run_grows: "grows w w1 es \<Longrightarrow> signed_run def i cx inp w1 ev r w' \<Longrightarrow> signed_run def i cx inp w ev r w'"
  by (frule grows_once) (auto simp: signed_run_def intro: ran_as_grows)

lemma tame_user: "tame (user_run def i) nothing_done (with_user_approval_gate def (signed_handler def i ex))"
proof (rule tame_mono [OF user_approval_gate.tame_wrap [OF tame_signed]])
  fix cx inp w ev r w'
  assume "user_approval_gate.run_behind def (signed_run def i) cx inp w ev r w'"
  then obtain w1 es where g: "grows w w1 es" "signed_run def i cx inp w1 ev r w'"
    "user_asked cx def \<longrightarrow> asked_ok def inp w w1"
    unfolding user_approval_gate.run_behind_def user_approved_call_def by blast
  then have "extends w1 w'" by (simp add: signed_run_def ran_as_def)
  with g show "user_run def i cx inp w ev r w'"
    by (auto simp: user_run_def intro: signed_run_grows asked_ok_extends)
next
  fix cx inp w r w'
  assume "user_approval_gate.stop_behind def nothing_done cx inp w r w'"
  then show "nothing_done cx inp w r w'"
    unfolding user_approval_gate.stop_behind_def by (auto intro: nothing_done_stop nothing_done_grows)
qed

section \<open>The approval half\<close>

definition asking_handler :: "tool_def \<Rightarrow> identity option \<Rightarrow> 'e executor \<Rightarrow> nat \<Rightarrow> 'e handler" where
  "asking_handler def i ex g =
     (let h3 = with_user_approval_gate def (signed_handler def i ex) in
      if td_requires_approval def then with_one_shot_guard g (td_once_for def) (with_approval_gate def h3) else h3)"

definition asking_run :: "tool_def \<Rightarrow> identity option \<Rightarrow> nat \<Rightarrow> 'e on_run" where
  "asking_run def i g cx inp w ev r w' \<longleftrightarrow> ran_as def i cx inp w ev r w' \<and> agreed def g cx inp w ev r w'"

lemma asking_run_grows: "grows w w1 es \<Longrightarrow> asking_run def i g cx inp w1 ev r w' \<Longrightarrow> asking_run def i g cx inp w ev r w'"
  by (auto simp: asking_run_def intro: ran_as_grows agreed_grows)

lemma user_run_grows: "grows w w1 es \<Longrightarrow> user_run def i cx inp w1 ev r w' \<Longrightarrow> user_run def i cx inp w ev r w'"
  by (auto simp: user_run_def intro: signed_run_grows asked_grows)

text \<open>The run behind the approval gate.\<close>

definition approved_run :: "tool_def \<Rightarrow> identity option \<Rightarrow> 'e on_run" where
  "approved_run def i cx inp w ev r w' \<longleftrightarrow>
     user_run def i cx inp w ev r w' \<and> (agreed_in_advance cx def \<or> asked def inp w w')"

lemma tame_approved:
  "tame (approved_run def i) nothing_done (with_approval_gate def (with_user_approval_gate def (signed_handler def i ex)))"
proof (rule tame_mono [OF approval_gate.tame_wrap [OF tame_user]])
  fix cx inp w ev r w'
  assume "approval_gate.run_behind def (user_run def i) cx inp w ev r w'"
  then obtain w1 es where g: "grows w w1 es" "user_run def i cx inp w1 ev r w'"
    "agreed_in_advance cx def \<or> asked_ok def inp w w1"
    unfolding approval_gate.run_behind_def approved_call_def by blast
  then have "extends w1 w'" by (simp add: user_run_def signed_run_def ran_as_def)
  with g show "approved_run def i cx inp w ev r w'"
    by (auto simp: approved_run_def intro: user_run_grows asked_ok_extends)
next
  fix cx inp w r w'
  assume "approval_gate.stop_behind def nothing_done cx inp w r w'"
  then show "nothing_done cx inp w r w'"
    unfolding approval_gate.stop_behind_def by (auto intro: nothing_done_stop nothing_done_grows)
qed

lemma tame_asking: "tame (asking_run def i g) (repeat_stop def g) (asking_handler def i ex g)"
proof (cases "td_requires_approval def")
  case False
  then show ?thesis
    by (auto intro!: tame_mono [OF tame_user] simp: asking_handler_def asking_run_def user_run_def signed_run_def agreed_def
        once_after_def nothing_done_def repeat_stop_def)
next
  case True
  have h: "asking_handler def i ex g =
      with_one_shot_guard g (td_once_for def) (with_approval_gate def (with_user_approval_gate def (signed_handler def i ex)))"
    using True by (simp add: asking_handler_def)
  show ?thesis unfolding h
  proof (rule tame_mono [OF once_gate.tame_wrap [OF tame_approved]])
    fix cx inp w ev r w'
    assume "once_gate.run_behind g (td_once_for def) (approved_run def i) cx inp w ev r w'"
    then obtain w2 where a: "approved_run def i cx inp w ev r w2" "guarded g (td_once_for def) inp r w2 w'"
      "(g, once_key (td_once_for def) inp) \<notin> set (w_once w)"
      unfolding once_gate.run_behind_def by blast
    then show "asking_run def i g cx inp w ev r w'" using True
      by (auto simp: asking_run_def approved_run_def agreed_def once_after_def guarded_def user_run_def signed_run_def
          ran_as_def extends_def asked_def)
  next
    fix cx inp w r w'
    assume "once_gate.stop_behind g (td_once_for def) nothing_done cx inp w r w'"
    then consider es where "r = says already_completed" "(g, once_key (td_once_for def) inp) \<in> set (w_once w)" "grows w w' es"
      | w2 where "nothing_done cx inp w r w2" "guarded g (td_once_for def) inp r w2 w'"
      unfolding once_gate.stop_behind_def by blast
    then show "repeat_stop def g cx inp w r w'"
    proof cases
      case 1
      then have "unchanged w w'" by (simp add: unchanged_def grows_def)
      with 1 True show ?thesis unfolding repeat_stop_def by blast
    next
      case 2
      then show ?thesis by (auto simp: repeat_stop_def nothing_done_def guarded_def)
    qed
  qed
qed

section \<open>The whole stack\<close>

lemma tame_timezone:
  "tame (asking_run def i g) (repeat_stop def g) (with_timezone_gate def (asking_handler def i ex g))"
proof (rule tame_mono [OF timezone_gate.tame_wrap [OF tame_asking]])
  fix cx inp w ev r w'
  assume "timezone_gate.run_behind def (asking_run def i g) cx inp w ev r w'"
  then show "asking_run def i g cx inp w ev r w'"
    unfolding timezone_gate.run_behind_def timezone_seen_def by (auto intro: asking_run_grows)
next
  fix cx inp w r w'
  assume "timezone_gate.stop_behind def (repeat_stop def g) cx inp w r w'"
  then show "repeat_stop def g cx inp w r w'"
    unfolding timezone_gate.stop_behind_def timezone_seen_def by (auto intro: repeat_stop_grows repeat_stop_not_done)
qed

text \<open>The rules are kept by the inputs that are sent.\<close>

definition ruled_run :: "tool_def \<Rightarrow> identity option \<Rightarrow> nat \<Rightarrow> tool_rule list \<Rightarrow> 'e on_run" where
  "ruled_run def i g rules cx inp w ev r w' \<longleftrightarrow> breaks rules inp = Some [] \<and> asking_run def i g cx inp w ev r w'"

definition ruled_handler :: "tool_def \<Rightarrow> identity option \<Rightarrow> 'e executor \<Rightarrow> nat \<Rightarrow> tool_rule list \<Rightarrow> 'e handler" where
  "ruled_handler def i ex g rules =
     (let h5 = with_timezone_gate def (asking_handler def i ex g) in if rules \<noteq> [] then with_rules rules h5 else h5)"

lemma tame_ruled: "tame (ruled_run def i g rules) (repeat_stop def g) (ruled_handler def i ex g rules)"
proof (cases "rules = []")
  case True
  then have h: "ruled_handler def i ex g rules = with_timezone_gate def (asking_handler def i ex g)"
    by (simp add: ruled_handler_def)
  show ?thesis unfolding h using True by (intro tame_mono [OF tame_timezone]) (simp_all add: ruled_run_def)
next
  case False
  then have h: "ruled_handler def i ex g rules = with_rules rules (with_timezone_gate def (asking_handler def i ex g))"
    by (simp add: ruled_handler_def)
  show ?thesis unfolding h
  proof (rule tame_mono [OF rules_gate.tame_wrap [OF tame_timezone]])
    fix cx inp w ev r w'
    assume "rules_gate.run_behind rules (asking_run def i g) cx inp w ev r w'"
    then show "ruled_run def i g rules cx inp w ev r w'"
      unfolding rules_gate.run_behind_def ruled_run_def by auto
  next
    fix cx inp w r w'
    assume "rules_gate.stop_behind rules (repeat_stop def g) cx inp w r w'"
    then show "repeat_stop def g cx inp w r w'"
      unfolding rules_gate.stop_behind_def by (auto intro: repeat_stop_grows repeat_stop_not_done)
  qed
qed

text \<open>What is sent is what the input check let through, or what the executor's prepare step made of it.\<close>

definition sent_run :: "tool_def \<Rightarrow> identity option \<Rightarrow> 'e executor \<Rightarrow> nat \<Rightarrow> tool_rule list \<Rightarrow> 'e on_run" where
  "sent_run def i ex g rules cx inp w ev r w' \<longleftrightarrow>
     (\<exists>sent. (ex_prepare ex = None \<longrightarrow> sent = inp) \<and> ruled_run def i g rules cx sent w ev r w')"

definition sent_stop :: "tool_def \<Rightarrow> 'e executor \<Rightarrow> nat \<Rightarrow> 'e on_stop" where
  "sent_stop def ex g cx inp w r w' \<longleftrightarrow>
     (\<exists>sent. (ex_prepare ex = None \<longrightarrow> sent = inp) \<and> repeat_stop def g cx sent w r w')"

definition prepared_handler :: "tool_def \<Rightarrow> identity option \<Rightarrow> 'e executor \<Rightarrow> nat \<Rightarrow> tool_rule list \<Rightarrow> 'e handler" where
  "prepared_handler def i ex g rules =
     (case ex_prepare ex of None \<Rightarrow> ruled_handler def i ex g rules
      | Some p \<Rightarrow> with_prepare p def i (ruled_handler def i ex g rules))"

lemma ruled_run_grows: "grows w w1 es \<Longrightarrow> ruled_run def i g rules cx inp w1 ev r w' \<Longrightarrow> ruled_run def i g rules cx inp w ev r w'"
  by (auto simp: ruled_run_def intro: asking_run_grows)

lemma tame_sent: "tame (sent_run def i ex g rules) (sent_stop def ex g) (prepared_handler def i ex g rules)"
proof (cases "ex_prepare ex")
  case None
  then have h: "prepared_handler def i ex g rules = ruled_handler def i ex g rules"
    by (simp add: prepared_handler_def)
  show ?thesis unfolding h by (rule tame_mono [OF tame_ruled]) (auto simp: sent_run_def sent_stop_def)
next
  case (Some p)
  then have h: "prepared_handler def i ex g rules = with_prepare p def i (ruled_handler def i ex g rules)"
    by (simp add: prepared_handler_def)
  show ?thesis unfolding h
  proof (rule tame_mono [OF prepare_gate.tame_wrap [OF tame_ruled]])
    fix cx inp w ev r w'
    assume "prepare_gate.run_behind p def i (ruled_run def i g rules) cx inp w ev r w'"
    then obtain inp1 w1 es where "grows w w1 es" "ruled_run def i g rules cx inp1 w1 ev r w'"
      unfolding prepare_gate.run_behind_def prepared_call_def by blast
    then show "sent_run def i ex g rules cx inp w ev r w'"
      using Some unfolding sent_run_def by (auto intro: ruled_run_grows)
  next
    fix cx inp w r w'
    assume "prepare_gate.stop_behind p def i (repeat_stop def g) cx inp w r w'"
    then show "sent_stop def ex g cx inp w r w'"
      unfolding prepare_gate.stop_behind_def prepared_call_def sent_stop_def using Some
      by (auto intro: repeat_stop_grows repeat_stop_not_done)
  qed
qed

definition gated_run :: "tool_def \<Rightarrow> identity option \<Rightarrow> 'e executor \<Rightarrow> nat \<Rightarrow> tool_rule list \<Rightarrow> 'e on_run" where
  "gated_run def i ex g rules cx inp w ev r w' \<longleftrightarrow>
     (\<exists>clean. check_input (td_input def) (apply_pins rules inp) = Inr clean \<and> sent_run def i ex g rules cx clean w ev r w')"

text \<open>A call that did not run: nothing was done, or the very inputs it would send were sent before.\<close>

definition checked_stop :: "tool_def \<Rightarrow> 'e executor \<Rightarrow> nat \<Rightarrow> 'e on_stop" where
  "checked_stop def ex g cx inp w r w' \<longleftrightarrow>
     nothing_done cx inp w r w' \<or> (\<exists>clean. check_input (td_input def) inp = Inr clean \<and> sent_stop def ex g cx clean w r w')"

definition gated_stop :: "tool_def \<Rightarrow> 'e executor \<Rightarrow> nat \<Rightarrow> tool_rule list \<Rightarrow> 'e on_stop" where
  "gated_stop def ex g rules cx inp w r w' \<longleftrightarrow> checked_stop def ex g cx (apply_pins rules inp) w r w'"

lemma apply_pins_Nil [simp]: "apply_pins [] inp = inp"
  by (simp add: apply_pins_def)

lemma tame_checked:
  "tame (\<lambda>cx inp w ev r w'. \<exists>clean. check_input (td_input def) inp = Inr clean \<and> sent_run def i ex g rules cx clean w ev r w')
     (checked_stop def ex g) (with_input_contract def (prepared_handler def i ex g rules))"
proof (rule tame_mono [OF contract_gate.tame_wrap [OF tame_sent]])
  fix cx inp w ev r w'
  assume "contract_gate.run_behind def (sent_run def i ex g rules) cx inp w ev r w'"
  then show "\<exists>clean. check_input (td_input def) inp = Inr clean \<and> sent_run def i ex g rules cx clean w ev r w'"
    unfolding contract_gate.run_behind_def by auto
next
  fix cx inp w r w'
  assume "contract_gate.stop_behind def (sent_stop def ex g) cx inp w r w'"
  then show "checked_stop def ex g cx inp w r w'"
    unfolding contract_gate.stop_behind_def checked_stop_def by (auto intro: nothing_done_stop)
qed

lemma gated_layers:
  "gated def i ex g rules =
     (let h8 = with_input_contract def (prepared_handler def i ex g rules) in if rules \<noteq> [] then with_pins rules h8 else h8)"
  unfolding gated_def prepared_handler_def ruled_handler_def asking_handler_def signed_handler_def Let_def ..

theorem tame_gated: "tame (gated_run def i ex g rules) (gated_stop def ex g rules) (gated def i ex g rules)"
proof (cases "rules = []")
  case True
  then show ?thesis using tame_checked [of def i ex g rules]
    by (simp add: gated_layers gated_run_def [abs_def] gated_stop_def [abs_def])
next
  case False
  then have h: "gated def i ex g rules = with_pins rules (with_input_contract def (prepared_handler def i ex g rules))"
    by (simp add: gated_layers)
  show ?thesis unfolding h
  proof (rule tame_mono [OF pins_gate.tame_wrap [OF tame_checked]])
    fix cx inp w ev r w'
    assume "pins_gate.run_behind rules (\<lambda>cx inp w ev r w'. \<exists>clean. check_input (td_input def) inp = Inr clean \<and>
       sent_run def i ex g rules cx clean w ev r w') cx inp w ev r w'"
    then show "gated_run def i ex g rules cx inp w ev r w'"
      unfolding pins_gate.run_behind_def gated_run_def by auto
  next
    fix cx inp w r w'
    assume "pins_gate.stop_behind rules (checked_stop def ex g) cx inp w r w'"
    then show "gated_stop def ex g rules cx inp w r w'"
      unfolding pins_gate.stop_behind_def gated_stop_def by auto
  qed
qed

section \<open>Calls in a row\<close>

text \<open>
  What stays true of a tool's one-shot table whatever calls are made of the tool: each key in it
  is that of a run that went through.
\<close>

definition went_through :: "tool_def \<Rightarrow> string \<Rightarrow> event \<Rightarrow> bool" where
  "went_through def key ev \<longleftrightarrow>
     (\<exists>i ref a sent out err. ev = EvRan (td_id def) i ref a sent out err \<and> really_done out err \<and> once_key (td_once_for def) sent = key)"

definition once_backed :: "tool_def \<Rightarrow> nat \<Rightarrow> 'e world \<Rightarrow> bool" where
  "once_backed def g w \<longleftrightarrow> (\<forall>key. (g, key) \<in> set (w_once w) \<longrightarrow> (\<exists>ev \<in> set (w_events w). went_through def key ev))"

lemma gated_outcome:
  assumes "gated def i ex g rules cx inp w = (r, w')"
  obtains (stopped) es where "no_run es" "w_events w' = w_events w @ es" "gated_stop def ex g rules cx inp w r w'"
  | (ran) es ev where "no_run es" "is_run ev" "w_events w' = w_events w @ es @ [ev]" "gated_run def i ex g rules cx inp w ev r w'"
  using tameD [OF tame_gated assms] unfolding outcome_ok_def by blast

lemma once_backed_gated:
  assumes "once_backed def g w" and "gated def i ex g rules cx inp w = (r, w')"
  shows "once_backed def g w'"
  using assms(2)
proof (cases rule: gated_outcome)
  case (stopped es)
  then have "w_once w' = w_once w" by (auto simp: gated_stop_def checked_stop_def nothing_done_def sent_stop_def repeat_stop_def unchanged_def)
  then show ?thesis using assms(1) stopped(2) by (auto simp: once_backed_def)
next
  case (ran es ev)
  then obtain sent where s: "asking_run def i g cx sent w ev r w'"
    by (auto simp: gated_run_def sent_run_def ruled_run_def)
  then obtain ref where ev: "ev = EvRan (td_id def) i ref (td_action def) sent (fst r) (snd r)"
    by (auto simp: asking_run_def ran_as_def)
  show ?thesis unfolding once_backed_def
  proof (intro allI impI)
    fix key assume k: "(g, key) \<in> set (w_once w')"
    show "\<exists>ev \<in> set (w_events w'). went_through def key ev"
    proof (cases "(g, key) \<in> set (w_once w)")
      case True
      then show ?thesis using assms(1) ran(3) by (auto simp: once_backed_def)
    next
      case False
      then have "key = once_key (td_once_for def) sent" "done_result r"
        using k s by (auto simp: asking_run_def agreed_def once_after_def split: if_splits)
      then have "went_through def key ev" unfolding went_through_def ev by blast
      then show ?thesis using ran(3) by auto
    qed
  qed
qed

text \<open>A call whose result counts as done did run, now or earlier with the same key.\<close>

definition sends :: "tool_def \<Rightarrow> 'e executor \<Rightarrow> tool_rule list \<Rightarrow> args \<Rightarrow> args \<Rightarrow> bool" where
  "sends def ex rules inp sent \<longleftrightarrow>
     (\<exists>clean. check_input (td_input def) (apply_pins rules inp) = Inr clean \<and> (ex_prepare ex = None \<longrightarrow> sent = clean))"

lemma gated_run_sends:
  "gated_run def i ex g rules cx inp w ev r w' \<longleftrightarrow> (\<exists>sent. sends def ex rules inp sent \<and> ruled_run def i g rules cx sent w ev r w')"
  by (auto simp: gated_run_def sent_run_def sends_def)

lemma gated_done:
  assumes "once_backed def g w" and "gated def i ex g rules cx inp w = (r, w')" and "done_result r"
  shows "\<exists>sent. sends def ex rules inp sent \<and> (\<exists>ev \<in> set (w_events w'). went_through def (once_key (td_once_for def) sent) ev)"
  using assms(2)
proof (cases rule: gated_outcome)
  case (stopped es)
  then obtain sent where s: "sends def ex rules inp sent" "(g, once_key (td_once_for def) sent) \<in> set (w_once w)"
    using assms(3) by (auto simp: gated_stop_def checked_stop_def nothing_done_def sent_stop_def repeat_stop_def sends_def)
  then obtain ev where "ev \<in> set (w_events w)" "went_through def (once_key (td_once_for def) sent) ev"
    using assms(1) unfolding once_backed_def by blast
  with s(1) stopped(2) show ?thesis by (intro exI [of _ sent] conjI bexI [of _ ev]) auto
next
  case (ran es ev)
  then obtain sent ref where s: "sends def ex rules inp sent" "ev = EvRan (td_id def) i ref (td_action def) sent (fst r) (snd r)"
    by (auto simp: gated_run_sends ruled_run_def asking_run_def ran_as_def)
  then have "went_through def (once_key (td_once_for def) sent) ev" using assms(3) unfolding went_through_def by blast
  with s(1) ran(3) show ?thesis by (intro exI [of _ sent] conjI bexI [of _ ev]) auto
qed

text \<open>Whatever a call of another tool does, this tool's table stays as it is.\<close>

lemma once_of_gated:
  assumes "gated def i ex g rules cx inp w = (r, w')"
  shows "w_once w' = w_once w \<or> (\<exists>key. w_once w' = (g, key) # w_once w)"
  using assms
proof (cases rule: gated_outcome)
  case (stopped es)
  then show ?thesis by (auto simp: gated_stop_def checked_stop_def nothing_done_def sent_stop_def repeat_stop_def unchanged_def)
next
  case (ran es ev)
  then show ?thesis
    by (auto simp: gated_run_sends ruled_run_def asking_run_def agreed_def once_after_def split: if_splits)
qed

section \<open>What must run first\<close>

text \<open>Called too early, nothing happens; else the call goes on to the gates.\<close>

lemma handler_cases:
  assumes "handler_of b cx inp w = (r, w')"
  obtains (early) "w' = w" "\<not> done_result r"
  | (ready) "gates_of b cx inp w = (r, w')" "\<And>q. q \<in> set (bd_needs b) \<Longrightarrow> \<not> unmet cx (w_journal w) inp q"
proof -
  from prerequisite_gate.passes [OF assms [unfolded handler_of_def]]
  have "(w' = w \<and> \<not> done_result r) \<or>
     (gates_of b cx inp w = (r, w') \<and> (\<forall>q \<in> set (bd_needs b). \<not> unmet cx (w_journal w) inp q))"
    using assms unfolding handler_of_def with_prerequisites_def
    by (cases "find (unmet cx (w_journal w) inp) (bd_needs b)")
      (auto simp: find_None_iff gate_simps split: if_splits)
  then show ?thesis using early ready by blast
qed

section \<open>Calls in a row\<close>

text \<open>Calls of any abilities, one after the other, each in a context of its own.\<close>

fun calls :: "('e binding \<times> 'e ctx \<times> args) list \<Rightarrow> 'e world \<Rightarrow> invoke_result list \<times> 'e world" where
  "calls [] w = ([], w)"
| "calls ((b, cx, inp) # cs) w =
     (let (r, w1) = handler_of b cx inp w; (rs, w2) = calls cs w1 in (r # rs, w2))"

lemma calls_invariant:
  assumes "\<And>b cx inp w r w'. b \<in> fst ` set cs \<Longrightarrow> P w \<Longrightarrow> handler_of b cx inp w = (r, w') \<Longrightarrow> P w'"
    and "P w" and "calls cs w = (rs, w')"
  shows "P w'"
  using assms
proof (induction cs w arbitrary: rs rule: calls.induct)
  case (1 w)
  then show ?case by simp
next
  case (2 b cx inp cs w)
  obtain r w1 where c: "handler_of b cx inp w = (r, w1)" by fastforce
  obtain rs1 w2 where d: "calls cs w1 = (rs1, w2)" by fastforce
  have "P w1" using "2.prems"(1) [OF _ "2.prems"(2) c] by simp
  moreover have "w2 = w'" using "2.prems"(3) c d by simp
  ultimately show ?case
    using "2.IH" [of "(r, w1)" r w1 rs1] "2.prems"(1) c d by (metis (no_types) image_insert insert_iff list.simps(15))
qed

text \<open>The abilities of a turn: \<open>b\<close>, and others with tables and ids of their own.\<close>

definition apart :: "'e binding \<Rightarrow> 'e binding \<Rightarrow> bool" where
  "apart b c \<longleftrightarrow> bd_guard c \<noteq> bd_guard b \<and> td_id (bd_def c) \<noteq> td_id (bd_def b)"

section \<open>Each thing is done once\<close>

text \<open>What the runs of a tool that went through acted on, in order.\<close>

definition done_run_of :: "tool_def \<Rightarrow> event \<Rightarrow> bool" where
  "done_run_of def ev \<longleftrightarrow> (case ev of EvRan t i ref a sent out err \<Rightarrow> t = td_id def \<and> really_done out err | _ \<Rightarrow> False)"

definition run_key :: "tool_def \<Rightarrow> event \<Rightarrow> string" where
  "run_key def ev = (case ev of EvRan t i ref a sent out err \<Rightarrow> once_key (td_once_for def) sent | _ \<Rightarrow> [])"

definition done_keys :: "tool_def \<Rightarrow> event list \<Rightarrow> string list" where
  "done_keys def es = map (run_key def) (filter (done_run_of def) es)"

lemma done_keys_append [simp]: "done_keys def (es @ fs) = done_keys def es @ done_keys def fs"
  by (simp add: done_keys_def)

lemma done_run_of_no_run: "\<not> is_run ev \<Longrightarrow> \<not> done_run_of def ev"
  by (cases ev) (simp_all add: done_run_of_def)

lemma done_keys_no_run: "no_run es \<Longrightarrow> done_keys def es = []"
  by (auto simp: done_keys_def no_run_def filter_empty_conv done_run_of_no_run)

text \<open>The table of the tool holds exactly what was done since it was empty, each thing once.\<close>

definition once_exact :: "tool_def \<Rightarrow> nat \<Rightarrow> nat \<Rightarrow> 'e world \<Rightarrow> bool" where
  "once_exact def g n w \<longleftrightarrow> n \<le> length (w_events w) \<and> distinct (done_keys def (drop n (w_events w))) \<and>
     (\<forall>key. (g, key) \<in> set (w_once w) \<longleftrightarrow> key \<in> set (done_keys def (drop n (w_events w))))"

lemma once_exact_this:
  assumes "td_requires_approval def" and "once_exact def g n w" and "gated def i ex g rules cx inp w = (r, w')"
  shows "once_exact def g n w'"
  using assms(3)
proof (cases rule: gated_outcome)
  case (stopped es)
  then have "w_once w' = w_once w" by (auto simp: gated_stop_def checked_stop_def nothing_done_def sent_stop_def repeat_stop_def unchanged_def)
  then show ?thesis using assms(2) stopped by (simp add: once_exact_def done_keys_no_run)
next
  case (ran es ev)
  then obtain sent ref where s: "asking_run def i g cx sent w ev r w'" "ev = EvRan (td_id def) i ref (td_action def) sent (fst r) (snd r)"
    by (auto simp: gated_run_sends ruled_run_def asking_run_def ran_as_def)
  have f: "(g, once_key (td_once_for def) sent) \<notin> set (w_once w)"
    "w_once w' = (if done_result r then (g, once_key (td_once_for def) sent) # w_once w else w_once w)"
    using s(1) assms(1) by (auto simp: asking_run_def agreed_def once_after_def)
  have k: "done_keys def (es @ [ev]) = (if done_result r then [once_key (td_once_for def) sent] else [])"
    using ran(1) by (simp add: done_keys_no_run) (simp add: done_keys_def done_run_of_def run_key_def s(2))
  have "drop n (w_events w') = drop n (w_events w) @ es @ [ev]" using assms(2) ran(3) by (simp add: once_exact_def)
  then have "done_keys def (drop n (w_events w')) = done_keys def (drop n (w_events w)) @ done_keys def (es @ [ev])"
    by (simp only: done_keys_append)
  then show ?thesis unfolding once_exact_def using assms(2) f k ran(3)
    by (auto simp: once_exact_def)
qed

lemma once_exact_other:
  assumes "once_exact def g n w" and "g' \<noteq> g" "td_id def' \<noteq> td_id def" and "gated def' i ex g' rules cx inp w = (r, w')"
  shows "once_exact def g n w'"
proof -
  have o: "(g, key) \<in> set (w_once w') \<longleftrightarrow> (g, key) \<in> set (w_once w)" for key
    using once_of_gated [OF assms(4)] assms(2) by auto
  obtain es where es: "w_events w' = w_events w @ es" "done_keys def es = []"
    using assms(4)
  proof (cases rule: gated_outcome)
    case (stopped es)
    then show ?thesis using that done_keys_no_run by blast
  next
    case (ran es ev)
    then have "\<not> done_run_of def ev" using assms(3)
      by (auto simp: gated_run_sends ruled_run_def asking_run_def ran_as_def done_run_of_def)
    then have "done_keys def (es @ [ev]) = []" using ran(1) by (simp add: done_keys_no_run) (simp add: done_keys_def)
    then show ?thesis using that ran(3) by blast
  qed
  then show ?thesis using assms(1) o by (simp add: once_exact_def)
qed

lemma once_exact_calls:
  assumes "td_requires_approval (bd_def b)" and "\<forall>x \<in> set cs. fst x = b \<or> apart b (fst x)"
    and "once_exact (bd_def b) (bd_guard b) n w" and "calls cs w = (rs, w')"
  shows "once_exact (bd_def b) (bd_guard b) n w'"
  using _ assms(3,4)
proof (rule calls_invariant)
  fix c cx inp w and r :: invoke_result and w'
  assume c: "c \<in> fst ` set cs" and e: "once_exact (bd_def b) (bd_guard b) n w" and h: "handler_of c cx inp w = (r, w')"
  from h show "once_exact (bd_def b) (bd_guard b) n w'"
  proof (cases rule: handler_cases)
    case early
    then show ?thesis using e by simp
  next
    case ready
    have "c = b \<or> apart b c" using c assms(2) by auto
    then show ?thesis
    proof
      assume "c = b"
      then show ?thesis using ready(1) once_exact_this [OF assms(1) e] by (simp add: gates_of_def)
    next
      assume "apart b c"
      then show ?thesis using ready(1) unfolding apart_def gates_of_def by (blast intro: once_exact_other [OF e])
    qed
  qed
qed

section \<open>The journal holds what ran\<close>

text \<open>A run that went through, and did not say that it failed.\<close>

definition good_run :: "string \<Rightarrow> args \<Rightarrow> event \<Rightarrow> bool" where
  "good_run tool input ev \<longleftrightarrow>
     (\<exists>i ref a out err. ev = EvRan tool i ref a input out err \<and> really_done out err \<and> \<not> says_it_failed out)"

definition journal_backed :: "'e world \<Rightarrow> bool" where
  "journal_backed w \<longleftrightarrow> (case w_journal w of None \<Rightarrow> True
     | Some es \<Rightarrow> \<forall>e \<in> set es. \<exists>ev \<in> set (w_events w). good_run (je_tool e) (je_input e) ev)"

lemma journal_backed_mono:
  "journal_backed w \<Longrightarrow> w_journal w' = w_journal w \<Longrightarrow> set (w_events w) \<subseteq> set (w_events w') \<Longrightarrow> journal_backed w'"
  by (fastforce simp: journal_backed_def split: option.splits)

lemma journal_backed_note:
  assumes "journal_backed w" and "w_journal w' = journal_note t inp (w_journal w)"
    and "set (w_events w) \<subseteq> set (w_events w')" and "ev \<in> set (w_events w')" "good_run t inp ev"
  shows "journal_backed w'"
proof (cases "w_journal w")
  case None
  then show ?thesis using assms(2) by (simp add: journal_backed_def journal_note_def)
next
  case (Some es)
  then have "w_journal w' = Some (es @ [\<lparr>je_tool = t, je_input = inp\<rparr>])" using assms(2) by (simp add: journal_note_def)
  moreover have "\<forall>e \<in> set es. \<exists>ev \<in> set (w_events w'). good_run (je_tool e) (je_input e) ev"
    using assms(1,3) Some unfolding journal_backed_def by fastforce
  ultimately show ?thesis using assms(4,5) by (auto simp: journal_backed_def)
qed

lemma journal_backed_gated:
  assumes "journal_backed w" and "gated def i ex g rules cx inp w = (r, w')"
  shows "journal_backed w'"
  using assms(2)
proof (cases rule: gated_outcome)
  case (stopped es)
  then have "w_journal w' = w_journal w" by (auto simp: gated_stop_def checked_stop_def nothing_done_def sent_stop_def repeat_stop_def unchanged_def)
  then show ?thesis using stopped(2) by (intro journal_backed_mono [OF assms(1)]) auto
next
  case (ran es ev)
  then obtain sent ref where s: "ev = EvRan (td_id def) i ref (td_action def) sent (fst r) (snd r)"
    "w_journal w' = (if done_result r \<and> \<not> says_it_failed (fst r) then journal_note (td_id def) sent (w_journal w) else w_journal w)"
    by (auto simp: gated_run_sends ruled_run_def asking_run_def ran_as_def)
  show ?thesis
  proof (cases "done_result r \<and> \<not> says_it_failed (fst r)")
    case True
    then have "good_run (td_id def) sent ev" using s(1) by (auto simp: good_run_def)
    then show ?thesis using s(2) True ran(3) by (intro journal_backed_note [OF assms(1), where ev = ev]) auto
  next
    case False
    then show ?thesis using s(2) ran(3) by (intro journal_backed_mono [OF assms(1)]) auto
  qed
qed

lemma journal_backed_handler:
  assumes "journal_backed w" and "handler_of b cx inp w = (r, w')"
  shows "journal_backed w'"
  using assms(2)
proof (cases rule: handler_cases)
  case early
  then show ?thesis using assms(1) by simp
next
  case ready
  then show ?thesis unfolding gates_of_def by (intro journal_backed_gated [OF assms(1)])
qed

lemma journal_backed_calls: "journal_backed w \<Longrightarrow> calls cs w = (rs, w') \<Longrightarrow> journal_backed w'"
  by (rule calls_invariant [where P = journal_backed]) (auto intro: journal_backed_handler)

text \<open>What the journal has been asked for did run.\<close>

lemma journal_has_backed:
  assumes "journal_backed w" and "journal_has (w_journal w) t same inp"
  shows "\<exists>ev \<in> set (w_events w). \<exists>inp0. good_run t inp0 ev \<and> (\<forall>s \<in> set same. same_input (get_any inp0 s) (get_any inp s))"
  using assms by (fastforce simp: journal_backed_def journal_has_def entry_matches_def split: option.splits)

end
