(* ===== verification/Gate_Claims.thy ===== *)
theory Gate_Claims
  imports Gate_Stack
begin

text \<open>
  The properties of a bound tool: what has to have happened before the service is called, with
  which inputs it is called, and what the tool says about it afterwards. The small tools below
  are the ones the properties are applied to.
\<close>

section \<open>A tool, an executor and a person\<close>

definition text_input :: schema where
  "text_input = Schema TString [] [] None [] []"

definition mail_tool :: tool_def where
  "mail_tool = \<lparr>td_id = ''t1'', td_name = ''Send'', td_function_name = ''send'', td_description = ''Sends'', td_instructions = [],
     td_integration_id = ''mail'', td_input = Schema TObject [] [(''to'', text_input)] None [''to''] [], td_output = text_input,
     td_action = ''send'', td_max_calls = 0, td_requires_approval = True, td_prompt_template = ''To {{to}}?'',
     td_prepared = [], td_prepared_inputs = [], td_first = [], td_first_any = [], td_with = [], td_once_for = [''to''],
     td_approval_timeout = 60, td_read_only = False, td_disabled = False, td_needs_local_time = False\<rparr>"

definition mail_executor :: "unit executor" where
  "mail_executor = \<lparr>ex_execute = (\<lambda>cx i ref a inp e. ((GStr ''sent'', None), e)), ex_prepare = None\<rparr>"

definition chat_here :: conv where
  "chat_here = \<lparr>cv_provider = ''web'', cv_chat = ''c'', cv_thread = [], cv_identity = [], cv_user = ''u'', cv_message = [],
     cv_sender = [], cv_shared = False\<rparr>"

text \<open>A person who agrees to whatever they are shown.\<close>

definition agreeing_ctx :: "unit ctx" where
  "agreeing_ctx = \<lparr>cx_unattended = False, cx_allowed = [], cx_conv = Some chat_here,
     cx_approver = Some (\<lambda>cv p t e. (Inr True, e)), cx_connecter = None, cx_tz_asker = None, cx_timezone = [], cx_user = ''u'',
     cx_refs = [], cx_approvals = (\<lambda>_. False), cx_connect_tool = [], cx_caller = []\<rparr>"

definition new_world :: "unit world" where
  "new_world = \<lparr>w_env = (), w_journal = Some [], w_once = [], w_events = []\<rparr>"

definition to_ann :: args where "to_ann = [(''to'', GStr ''ann'')]"

definition mail_world :: "unit world" where
  "mail_world = \<lparr>w_env = (), w_journal = Some [\<lparr>je_tool = ''t1'', je_input = to_ann\<rparr>], w_once = [(0, ''ANN'')],
     w_events = [EvStep ''send'' StepWaiting, EvAsked ''t1'' ''To ann?'' True, EvStep ''send'' StepRunning,
                 EvRan ''t1'' None [] ''send'' to_ann (GStr ''sent'') None]\<rparr>"

text \<open>What evaluates a call: the gates, and what they ask of this tool.\<close>

lemmas gate_eval =
  gated_def execute_tool_def with_journal_def with_user_approval_gate_def with_approval_gate_def ask_first_def
  with_one_shot_guard_def with_timezone_gate_def with_rules_def with_input_contract_def with_pins_def with_auth_gate_def
  emit_def ref_of_def with_caller_def agreed_in_advance_def connection_ref_def journal_note_def identity_kind_token_def

lemma mail_parts:
  "td_id mail_tool = ''t1''" "model_name mail_tool = ''send''" "td_name mail_tool = ''Send''" "td_action mail_tool = ''send''"
  "td_requires_approval mail_tool" "\<not> td_read_only mail_tool" "\<not> td_needs_local_time mail_tool"
  "td_approval_timeout mail_tool = 60" "ex_prepare mail_executor = None"
  "ex_execute mail_executor cx i ref a inp e = ((GStr ''sent'', None), e)"
  by (simp_all add: mail_tool_def mail_executor_def model_name_def)

lemma mail_input: "check_input (td_input mail_tool) to_ann = Inr to_ann"
  by code_simp

lemma mail_prompt: "render_approval_prompt mail_tool to_ann = ''To ann?''"
  by code_simp

lemma mail_key: "once_key (td_once_for mail_tool) to_ann = ''ANN''"
  by code_simp

lemma mail_sent: "really_done (GStr ''sent'') None" "\<not> says_it_failed (GStr ''sent'')"
  by code_simp+

lemmas mail_eval = gate_eval mail_parts mail_input mail_prompt mail_key mail_sent agreeing_ctx_def new_world_def mail_world_def

lemma mail_call:
  "gated mail_tool None mail_executor 0 [] agreeing_ctx to_ann new_world = ((GStr ''sent'', None), mail_world)"
  by (simp add: mail_eval)

section \<open>What comes before a run\<close>

text \<open>What is known of every run of a bound tool.\<close>

lemma run_facts:
  assumes call: "gated def i ex g rules cx inp w = (r, w')"
    and ev: "EvRan t i' ref a sent out err \<in> set (drop (length (w_events w)) (w_events w'))"
  obtains es where "no_run es" "w_events w' = w_events w @ es @ [EvRan t i' ref a sent out err]"
    "sends def ex rules inp sent" "breaks rules sent = Some []"
    "asking_run def i g cx sent w (EvRan t i' ref a sent out err) r w'"
    "t = td_id def" "i' = i" "a = td_action def" "r = (out, err)"
  using call
proof (cases rule: gated_outcome)
  case (stopped es)
  with ev show ?thesis by (auto simp: no_run_def)
next
  case (ran es x)
  have m: "EvRan t i' ref a sent out err = x" using ev ran(1,3) by (auto simp: no_run_def)
  obtain sent1 where s: "sends def ex rules inp sent1" "breaks rules sent1 = Some []" "asking_run def i g cx sent1 w x r w'"
    using ran(4) by (auto simp: gated_run_sends ruled_run_def)
  obtain ref1 where "x = EvRan (td_id def) i ref1 (td_action def) sent1 (fst r) (snd r)"
    using s(3) unfolding asking_run_def ran_as_def by blast
  then have "sent1 = sent" "t = td_id def" "i' = i" "a = td_action def" "r = (out, err)"
    using m by (auto simp: prod_eq_iff)
  with that [OF ran(1)] ran(3) s m show ?thesis by blast
qed

text \<open>
  (C3) No tool acts without consent: the service is called at most once for one call of a bound
  tool, as the last thing the call does. If the tool requires approval, a person was shown the
  prompt written from the very inputs that were sent and agreed to it during this call, or the
  run is unattended and was set up knowing it may use this tool. A tool the person wants to be
  asked about runs only after they agreed, too.
\<close>

theorem approved_before_run:
  assumes call: "gated def i ex g rules cx inp w = (r, w')"
    and ran: "EvRan t i' ref a sent out err \<in> set (drop (length (w_events w)) (w_events w'))"
  shows "\<exists>es. no_run es \<and> w_events w' = w_events w @ es @ [EvRan (td_id def) i ref (td_action def) sent (fst r) (snd r)] \<and>
    (td_requires_approval def \<longrightarrow> agreed_in_advance cx def \<or> EvAsked (td_id def) (render_approval_prompt def sent) True \<in> set es) \<and>
    (user_asked cx def \<longrightarrow> EvAsked (td_id def) (render_approval_prompt def sent) True \<in> set es)"
proof -
  obtain es where es: "no_run es" "w_events w' = w_events w @ es @ [EvRan t i' ref a sent out err]"
    "asking_run def i g cx sent w (EvRan t i' ref a sent out err) r w'" "t = td_id def" "i' = i" "a = td_action def" "r = (out, err)"
    using run_facts [OF call ran] by metis
  then have "asked def sent w w' \<longrightarrow> EvAsked (td_id def) (render_approval_prompt def sent) True \<in> set es"
    by (auto simp: asked_def)
  with es show ?thesis by (intro exI [of _ es]) (auto simp: asking_run_def agreed_def)
qed

theorem approved_before_run_witness:
  "EvAsked ''t1'' ''To ann?'' True \<in> set (w_events mail_world) \<and>
   (\<exists>es. no_run es \<and> w_events mail_world = es @ [EvRan ''t1'' None [] ''send'' to_ann (GStr ''sent'') None])"
proof -
  have r: "EvRan ''t1'' None [] ''send'' to_ann (GStr ''sent'') None \<in> set (drop (length (w_events new_world)) (w_events mail_world))"
    by (simp add: new_world_def mail_world_def)
  show ?thesis using approved_before_run [OF mail_call r]
    by (auto simp: mail_world_def mail_tool_def new_world_def)
qed


definition only_ann :: tool_rule where
  "only_ann = \<lparr>tr_id = [], tr_tool_id = ''t1'', tr_input = ''to'', tr_with = [], tr_kind = RuleOneOf,
     tr_value = GArr [GStr ''ann''], tr_message = []\<rparr>"

lemma only_ann_rules: "normalize_rules [only_ann] [(''t1'', mail_tool)] = Inr [only_ann]"
  by code_simp

lemma only_ann_kept: "breaks [only_ann] to_ann = Some []" "apply_pins [only_ann] to_ann = to_ann"
  by code_simp+

lemma mail_call_ruled:
  "gated mail_tool None mail_executor 0 [only_ann] agreeing_ctx to_ann new_world = ((GStr ''sent'', None), mail_world)"
  by (simp add: mail_eval only_ann_kept del: breaks.simps)


text \<open>
  Nobody's account is used without them: a tool that needs its user's own sign-in calls the
  service without a connection only when nobody can be asked to connect (no one to ask, or no
  conversation to ask in).
\<close>

theorem runs_signed_in:
  assumes call: "gated def (Some x) ex g rules cx inp w = (r, w')"
    and ran: "EvRan t i' ref a sent out err \<in> set (drop (length (w_events w)) (w_events w'))"
    and own: "id_kind x \<noteq> identity_kind_token" and someone: "cx_connecter cx \<noteq> None" "cx_conv cx \<noteq> None"
  shows "ref \<noteq> []"
proof -
  obtain es where "asking_run def (Some x) g cx sent w (EvRan t i' ref a sent out err) r w'"
    using run_facts [OF call ran] by metis
  then show ?thesis using own someone by (auto simp: asking_run_def ran_as_def needs_sign_in_def)
qed

definition own_identity :: identity where
  "own_identity = \<lparr>id_id = ''i'', id_integration = ''mail'', id_name = [], id_kind = ''oauth'', id_app_id = [], id_credential_ref = [],
     id_webhook_secret_ref = [], id_created_by = []\<rparr>"

definition connecting_ctx :: "unit ctx" where
  "connecting_ctx = agreeing_ctx\<lparr>cx_connecter := Some (\<lambda>cv i u t e. (Inr ''ref'', e))\<rparr>"

lemma connected_call:
  "EvRan ''t1'' (Some own_identity) ''ref'' ''send'' to_ann (GStr ''sent'') None \<in>
     set (drop (length (w_events new_world)) (w_events (snd (gated mail_tool (Some own_identity) mail_executor 0 [] connecting_ctx to_ann new_world))))"
  by (simp add: mail_eval connecting_ctx_def own_identity_def)

theorem runs_signed_in_witness: "''ref'' \<noteq> ([] :: string) \<and> cx_refs connecting_ctx = []"
proof -
  have "id_kind own_identity \<noteq> identity_kind_token" by (simp add: own_identity_def identity_kind_token_def)
  then show ?thesis using runs_signed_in [OF prod.collapse [symmetric] connected_call]
    by (simp add: connecting_ctx_def agreeing_ctx_def)
qed

section \<open>Calls in a row\<close>

text \<open>
  (C6) An approved change is made once: whatever a model calls in a turn, in any order and with
  any inputs, the runs of a tool that requires approval that went through all acted on different
  things (the values of \<^verbatim>\<open>OnceFor\<close>, ignoring case and spaces), as long as the other abilities
  have one-shot tables and ids of their own.
\<close>

theorem approved_change_made_once:
  assumes "td_requires_approval (bd_def b)" and "\<forall>x \<in> set cs. fst x = b \<or> apart b (fst x)"
    and "\<forall>key. (bd_guard b, key) \<notin> set (w_once w)" and "calls cs w = (rs, w')"
  shows "distinct (done_keys (bd_def b) (drop (length (w_events w)) (w_events w')))"
proof -
  have "once_exact (bd_def b) (bd_guard b) (length (w_events w)) w"
    using assms(3) by (simp add: once_exact_def done_keys_def)
  from once_exact_calls [OF assms(1,2) this assms(4)] show ?thesis by (simp add: once_exact_def)
qed

definition mail_binding :: "unit binding" where
  "mail_binding = \<lparr>bd_def = mail_tool, bd_identity = None, bd_executor = mail_executor, bd_guard = 0, bd_rules = [],
     bd_needs = [], bd_names = []\<rparr>"

lemma mail_again:
  "gated mail_tool None mail_executor 0 [] agreeing_ctx to_ann mail_world = (says already_completed, mail_world)"
  by (simp add: mail_eval)

lemma mail_twice:
  "calls [(mail_binding, agreeing_ctx, to_ann), (mail_binding, agreeing_ctx, to_ann)] new_world =
     ([(GStr ''sent'', None), says already_completed], mail_world)"
  by (simp add: handler_of_def gates_of_def mail_binding_def with_prerequisites_def mail_call mail_again)

theorem approved_change_made_once_witness:
  "distinct (done_keys mail_tool (w_events mail_world)) \<and> done_keys mail_tool (w_events mail_world) = [''ANN'']"
proof -
  have "done_keys mail_tool (w_events mail_world) = [''ANN'']"
    by (simp add: done_keys_def mail_world_def done_run_of_def mail_parts mail_sent run_key_def mail_key)
  moreover have "distinct (done_keys (bd_def mail_binding) (drop (length (w_events new_world)) (w_events mail_world)))"
    by (rule approved_change_made_once [OF _ _ _ mail_twice]) (simp_all add: mail_binding_def mail_parts new_world_def)
  ultimately show ?thesis by (simp add: mail_binding_def new_world_def)
qed

text \<open>
  Nothing is reported as done that was not: a call of a bound tool whose result counts as
  done either ran the service, which said so, or (\<^verbatim>\<open>already completed\<close>) the service ran earlier and
  went through for the very thing this call acts on. That holds for every call of a turn: what the
  one-shot table says is kept by all calls.
\<close>

theorem done_means_it_ran:
  assumes "once_backed def g w" and "gated def i ex g rules cx inp w = (r, w')"
  shows "once_backed def g w' \<and> (done_result r \<longrightarrow>
    (\<exists>sent. sends def ex rules inp sent \<and> (\<exists>ev \<in> set (w_events w'). went_through def (once_key (td_once_for def) sent) ev)))"
  using once_backed_gated [OF assms] gated_done [OF assms] by blast

theorem done_means_it_ran_witness:
  "\<exists>ev \<in> set (w_events mail_world). went_through mail_tool ''ANN'' ev"
proof -
  have start: "once_backed mail_tool 0 new_world" by (simp add: once_backed_def new_world_def)
  have kept: "once_backed mail_tool 0 mail_world" using done_means_it_ran [OF start mail_call] by blast
  have "done_result (says already_completed)" by code_simp
  then obtain sent where "sends mail_tool mail_executor [] to_ann sent"
    "\<exists>ev \<in> set (w_events mail_world). went_through mail_tool (once_key (td_once_for mail_tool) sent) ev"
    using done_means_it_ran [OF kept mail_again] by blast
  then show ?thesis by (simp add: sends_def mail_parts mail_input mail_key)
qed

text \<open>
  (C8) What has to come first has come first: in any sequence of calls of a turn, an ability with
  the rule that another one must run first (for the same values) is called through to its gates
  only after that other one ran in this very turn, with the same values, went through and did not
  say that it failed. Called earlier it is refused, and nothing changes.
\<close>

theorem first_things_first:
  assumes start: "w_journal w = Some []" and before: "calls cs w = (rs, w1)"
    and call: "handler_of b cx inp w1 = (r, w')" and rule: "q \<in> set (bd_needs b)" "pq_one_of q = []"
  shows "(w' = w1 \<and> \<not> done_result r) \<or>
    (\<exists>ev \<in> set (w_events w1). \<exists>inp0. good_run (pq_first q) inp0 ev \<and>
       (\<forall>s \<in> set (pq_same q). same_input (get_any inp0 s) (get_any inp s)))"
proof -
  have j: "journal_backed w1"
    by (rule journal_backed_calls [OF _ before]) (simp add: journal_backed_def start)
  from call show ?thesis
  proof (cases rule: handler_cases)
    case early
    then show ?thesis by simp
  next
    case ready
    from ready(2) [OF rule(1)] rule(2) have "journal_has (w_journal w1) (pq_first q) (pq_same q) inp"
      by (simp add: unmet_def)
    from journal_has_backed [OF j this] show ?thesis by blast
  qed
qed

text \<open>Telling Ann a second time needs telling her a first time.\<close>

definition remind_tool :: tool_def where
  "remind_tool = mail_tool\<lparr>td_id := ''t2'', td_function_name := ''remind'', td_requires_approval := False\<rparr>"

definition after_mail :: prerequisite where
  "after_mail = \<lparr>pq_id = [], pq_before = ''t2'', pq_first = ''t1'', pq_same = [''to''], pq_text = [], pq_one_of = []\<rparr>"

definition remind_binding :: "unit binding" where
  "remind_binding = \<lparr>bd_def = remind_tool, bd_identity = None, bd_executor = mail_executor, bd_guard = 1, bd_rules = [],
     bd_needs = [after_mail], bd_names = [(''t1'', ''send'')]\<rparr>"

lemma remind_parts:
  "td_id remind_tool = ''t2''" "model_name remind_tool = ''remind''" "td_action remind_tool = ''send''"
  "\<not> td_requires_approval remind_tool" "\<not> td_read_only remind_tool" "\<not> td_needs_local_time remind_tool"
  "td_input remind_tool = td_input mail_tool"
  by (simp_all add: remind_tool_def mail_tool_def model_name_def)

lemma reminded: "done_result (fst (handler_of remind_binding agreeing_ctx to_ann mail_world))"
proof -
  have "\<not> unmet agreeing_ctx (w_journal mail_world) to_ann after_mail" by code_simp
  then show ?thesis
    by (simp add: handler_of_def gates_of_def remind_binding_def with_prerequisites_def mail_eval remind_parts mail_sent)
qed

theorem first_things_first_witness:
  "\<exists>ev \<in> set (w_events mail_world). \<exists>inp0. good_run ''t1'' inp0 ev \<and> same_input (get_any inp0 ''to'') (GStr ''ann'')"
proof -
  have j: "w_journal new_world = Some []" by (simp add: new_world_def)
  have q: "after_mail \<in> set (bd_needs remind_binding)" "pq_one_of after_mail = []"
    by (simp_all add: remind_binding_def after_mail_def)
  show ?thesis
    using first_things_first [OF j mail_twice prod.collapse [symmetric] q] reminded
    by (fastforce simp: after_mail_def to_ann_def get_any_def)
qed

end
