(* ===== verification/Catalog_Claims.thy ===== *)
theory Catalog_Claims
  imports Catalog Gate_Claims
begin

text \<open>
  The properties of the tool contract and of the catalog, with the sources they are applied to.
\<close>

section \<open>A source\<close>

definition mail_app :: integration where
  "mail_app = \<lparr>in_id = ''mail'', in_name = ''Mail'', in_service = ''mail'', in_description = [], in_kind = ''system'',
     in_created_by = [], in_own = False\<rparr>"

definition mail_source :: tool_source where
  "mail_source = \<lparr>src_integration = Some mail_app, src_identities = [own_identity], src_tools = [mail_tool]\<rparr>"

lemma mail_tool_valid: "validate_tool mail_tool = []"
  by code_simp

lemma mail_kept: "kept_tools ''mail'' [mail_tool] = (([mail_tool], []) :: tool_def list \<times> string list)"
proof -
  have "valid_tool mail_tool" using mail_tool_valid by (simp add: validate_tool_iff)
  then show ?thesis by (simp add: kept_tools_all) (simp add: adopt_def mail_tool_def)
qed

section \<open>Adding and removing\<close>

lemma put_all_fresh:
  "distinct (map key vs) \<Longrightarrow> key ` set vs \<inter> fst ` set m = {} \<Longrightarrow> put_all key vs m = m @ map (\<lambda>v. (key v, v)) vs"
proof (induction vs arbitrary: m)
  case (Cons v vs)
  have "gm_set (key v) v m = m @ [(key v, v)]" using Cons.prems(2)
    by (induction m) (auto simp: gm_set_def)
  then show ?case using Cons.IH [of "m @ [(key v, v)]"] Cons.prems by (auto simp: put_all_def)
qed (simp add: put_all_def)

lemma without_none: "\<forall>x \<in> set m. \<not> P (snd x) \<Longrightarrow> without P m = m"
  unfolding without_def by (rule filter_True) auto

lemma without_append [simp]: "without P (m @ n) = without P m @ without P n"
  by (simp add: without_def)

lemma without_all: "\<forall>x \<in> set m. P (snd x) \<Longrightarrow> without P m = []"
  by (auto simp: without_def filter_empty_conv)

lemma without_put_all:
  assumes "distinct (map key vs)" "key ` set vs \<inter> fst ` set m = {}" "\<forall>v \<in> set vs. P v" "\<forall>x \<in> set m. \<not> P (snd x)"
  shows "without P (put_all key vs (without P m)) = m"
  using assms by (simp add: without_none put_all_fresh without_all)

lemma del_set_fresh: "gm_get m k = None \<Longrightarrow> gm_del k (gm_set k v m) = m"
  by (induction m) (auto simp: gm_set_def gm_del_def gm_get_def split: if_splits)



text \<open>
  Adding a source and removing it again leaves the catalog as it was, whatever the source
  offers, when the catalog held nothing for the integration and the source uses no id of another.
\<close>

theorem add_then_remove:
  assumes src: "src_integration src = Some integ" "in_id integ \<noteq> []"
    and absent: "catalog_integration c (in_id integ) = None" "\<forall>x \<in> set (cg_tools c). td_integration_id (snd x) \<noteq> in_id integ"
      "\<forall>x \<in> set (cg_identities c). id_integration (snd x) \<noteq> in_id integ"
    and own: "td_id ` set (src_tools src) \<inter> fst ` set (cg_tools c) = {}"
      "id_id ` set (src_identities src) \<inter> fst ` set (cg_identities c) = {}"
      "distinct (map id_id (src_identities src))" "\<forall>x \<in> set (src_identities src). id_integration x = in_id integ"
  shows "remove_source (in_id integ) (snd (add_source src c)) = c"
proof -
  obtain keep e where k: "kept_tools (in_id integ) (src_tools src) = (keep, e)" by fastforce
  note ok = kept_tools_ok [OF k]
  have "td_id ` set keep \<subseteq> td_id ` set (src_tools src)"
  proof (rule image_subsetI)
    fix t assume "t \<in> set keep"
    then obtain t0 where "t0 \<in> set (src_tools src)" "t = adopt (in_id integ) t0" using ok by blast
    then show "td_id t \<in> td_id ` set (src_tools src)" by (auto simp: adopt_def)
  qed
  then have ids: "td_id ` set keep \<inter> fst ` set (cg_tools c) = {}" using own(1) by blast
  have "without (\<lambda>t. td_integration_id t = in_id integ)
      (put_all td_id keep (without (\<lambda>t. td_integration_id t = in_id integ) (cg_tools c))) = cg_tools c"
    using ok ids absent(2) by (intro without_put_all) auto
  moreover have "without (\<lambda>x. id_integration x = in_id integ)
      (put_all id_id (src_identities src) (without (\<lambda>x. id_integration x = in_id integ) (cg_identities c))) = cg_identities c"
    using own(2-) absent(3) by (intro without_put_all) auto
  moreover have "gm_del (in_id integ) (gm_set (in_id integ) integ (cg_integrations c)) = cg_integrations c"
    using absent(1) by (simp add: catalog_integration_def del_set_fresh)
  ultimately show ?thesis using src k by (simp add: remove_source_def add_source_def)
qed

theorem add_then_remove_witness:
  "remove_source ''mail'' (snd (add_source mail_source new_catalog)) = new_catalog \<and>
   snd (add_source mail_source new_catalog) \<noteq> new_catalog"
proof -
  have "remove_source (in_id mail_app) (snd (add_source mail_source new_catalog)) = new_catalog"
    by (rule add_then_remove)
      (simp_all add: mail_source_def mail_app_def new_catalog_def catalog_integration_def own_identity_def)
  moreover have "catalog_integration (snd (add_source mail_source new_catalog)) ''mail'' \<noteq> None"
    using mail_kept by (simp add: add_source_def mail_source_def mail_app_def catalog_integration_def)
  ultimately show ?thesis by (auto simp: mail_app_def new_catalog_def catalog_integration_def)
qed

text \<open>
  Ids are not kept apart between integrations: a source with a valid tool that has the id of
  another integration's tool takes that tool's place in the catalog, and the other integration
  loses it, without any problem being reported.
\<close>

theorem tool_taken_over:
  assumes wf: "wf_catalog c" and src: "src_integration src = Some integ" "in_id integ \<noteq> []"
    and fine: "add_source src c = ([], c')"
    and clash: "t \<in> set (src_tools src)" "catalog_tool c (td_id t) = Some other" "td_integration_id other \<noteq> in_id integ"
  shows "other \<notin> set (tools_of (td_integration_id other) c') \<and>
    catalog_tool c' (td_id t) = Some (adopt (in_id integ) t)"
proof -
  obtain keep e where k: "kept_tools (in_id integ) (src_tools src) = (keep, e)" by fastforce
  have "e = []" using fine src k by (simp add: add_source_def)
  then have "keep = map (adopt (in_id integ)) (src_tools src)"
    using k kept_tools_all [of "in_id integ" "src_tools src" keep] by simp
  then have m: "adopt (in_id integ) t \<in> set keep" using clash(1) by simp
  have i: "td_id (adopt (in_id integ) t) = td_id t" by (simp add: adopt_def)
  have c': "c' = snd (add_source src c)" using fine by simp
  have wf': "wf_catalog c'" unfolding c' using wf by (rule wf_add_source)
  have new: "catalog_tool c' (td_id t) = Some (adopt (in_id integ) t)"
    unfolding c' add_source_tool [OF wf src k] using m i by blast
  have "td_id other = td_id t"
    using clash(2) wf keyed_get [of td_id "cg_tools c"] by (simp add: catalog_tool_def wf_catalog_def)
  moreover have "td_integration_id (adopt (in_id integ) t) = in_id integ" using m kept_tools_ok [OF k] by blast
  ultimately have "other \<notin> set (tools_of (td_integration_id other) c')"
    unfolding tools_of_mem [OF wf'] using new clash(3) by auto
  then show ?thesis using new by simp
qed

text \<open>An app of somebody's own, with a tool that has the id of the platform's mail tool.\<close>

definition their_app :: integration where
  "their_app = mail_app\<lparr>in_id := ''own'', in_service := ''own'', in_created_by := ''eve'', in_own := True\<rparr>"

definition their_tool :: tool_def where
  "their_tool = mail_tool\<lparr>td_integration_id := ''own''\<rparr>"

definition their_source :: tool_source where
  "their_source = \<lparr>src_integration = Some their_app, src_identities = [], src_tools = [their_tool]\<rparr>"

lemma their_kept: "kept_tools ''own'' [their_tool] = ([their_tool], [])"
proof -
  have "validate_tool their_tool = []" by code_simp
  then have "valid_tool their_tool" by (simp add: validate_tool_iff)
  then show ?thesis by (simp add: kept_tools_all) (simp add: adopt_def their_tool_def)
qed

lemma mail_catalog_tools: "cg_tools (snd (add_source mail_source new_catalog)) = [(''t1'', mail_tool)]"
  using mail_kept by (simp add: add_source_def mail_source_def mail_app_def new_catalog_def put_all_def without_def mail_parts gm_set_def)

lemma their_add:
  "add_source their_source (snd (add_source mail_source new_catalog)) = ([], snd (add_source their_source (snd (add_source mail_source new_catalog))))"
  "cg_tools (snd (add_source their_source (snd (add_source mail_source new_catalog)))) = [(''t1'', their_tool)]"
  using their_kept mail_catalog_tools
  by (simp_all add: add_source_def their_source_def their_app_def mail_app_def put_all_def without_def mail_tool_def their_tool_def gm_set_def)

theorem tool_taken_over_witness:
  "tools_of ''mail'' (snd (add_source their_source (snd (add_source mail_source new_catalog)))) = []"
proof -
  let ?c = "snd (add_source mail_source new_catalog)"
  have wf: "wf_catalog ?c" by (rule wf_add_source) (rule wf_operations(1))
  have m: "catalog_tool ?c (td_id their_tool) = Some mail_tool"
    by (simp add: catalog_tool_def mail_catalog_tools) (simp add: their_tool_def mail_tool_def)
  have s: "src_integration their_source = Some their_app" "in_id their_app \<noteq> []"
    by (simp_all add: their_source_def their_app_def)
  have "mail_tool \<notin> set (tools_of (td_integration_id mail_tool) (snd (add_source their_source ?c)))"
    using tool_taken_over [OF wf s their_add(1) _ m] by (simp add: their_source_def their_app_def) (simp add: mail_tool_def)
  then show ?thesis by (auto simp: tools_of_def their_add(2) mail_tool_def their_tool_def split: if_splits)
qed

end
