(* ===== verification/Hydration_Claims.thy ===== *)
theory Hydration_Claims
  imports Hydration_Facts Catalog_Claims
begin

text \<open>
  The properties of what a capability gives an agent, with the capabilities they are applied to.
\<close>

section \<open>A capability\<close>

definition mail_registry :: "unit executor_registry" where
  "mail_registry = register_executor ''mail'' mail_executor new_executor_registry"

definition mail_skill :: skill where
  "mail_skill = \<lparr>sk_id = ''s'', sk_name = ''mailing'', sk_title = [], sk_description = [], sk_agent_id = ''a'', sk_instructions = [],
     sk_input = text_input, sk_output = text_input, sk_tools = [''t2''], sk_integrations = [''mail''],
     sk_prerequisites = [after_mail], sk_limited = [], sk_rules = [], sk_all_look_ups = False, sk_public = False\<rparr>"

definition mail_supplies :: "unit supplies" where
  "mail_supplies = \<lparr>sp_skill = mail_skill, sp_agent = None, sp_tools = [(''t1'', mail_tool), (''t2'', remind_tool)],
     sp_identities = [], sp_integrations = [(''mail'', mail_app)], sp_registry = Some mail_registry\<rparr>"

definition ability_bound :: "tool_def \<Rightarrow> nat \<Rightarrow> prerequisite list \<Rightarrow> string list \<Rightarrow> unit ability" where
  "ability_bound def g pre needs = \<lparr>ab_binding = \<lparr>bd_def = def, bd_identity = None, bd_executor = mail_executor, bd_guard = g,
     bd_rules = [], bd_needs = pre, bd_names = (if pre = [] then [] else [(''t1'', ''send''), (''t2'', ''remind'')])\<rparr>,
     ab_spec = spec_of_tool def, ab_needs = needs, ab_app = ''mail'', ab_app_name = ''Mail'', ab_with = [],
     ab_declared = True, ab_limited = False\<rparr>"

text \<open>What evaluates the binding of the tools, and what they wait for.\<close>

lemmas bind_eval =
  mail_supplies_def mail_skill_def mail_registry_def mail_app_def register_executor_def new_executor_registry_def
  bind_abilities_def bind_one_def hydrate_tool_def bind_tool_def describe_def executor_for_def
  runs_here_def resolve_identity_def rules_through_def skill_rules_for_def agent_rules_for_def rules_for_def
  spec_with_rules_def narrowed_def List.map_filter_def gm_set_def spec_of_tool_def ability_bound_def mail_parts remind_parts

lemma tool_fields:
  "td_integration_id mail_tool = ''mail''" "\<not> td_disabled mail_tool" "td_with mail_tool = []"
  "td_integration_id remind_tool = ''mail''" "\<not> td_disabled remind_tool" "td_with remind_tool = []"
  by (simp_all add: mail_tool_def remind_tool_def)

lemma mail_bound:
  "bind_abilities mail_supplies = Inr [ability_bound remind_tool 0 [] [], ability_bound mail_tool 1 [] []]"
  by (simp add: bind_eval tool_fields)

lemma bound_names [simp]: "ability_name (ability_bound def g pre needs) = model_name def"
  by (simp add: ability_name_def ability_bound_def spec_of_tool_def)

lemma mail_names:
  "names_of (sp_tools mail_supplies) = [(''t1'', ''send''), (''t2'', ''remind'')]"
  "by_name (sp_tools mail_supplies) = [(''send'', ''t1''), (''remind'', ''t2'')]"
  by (simp_all add: names_of_def by_name_def mail_supplies_def gm_set_def mail_parts remind_parts)

lemma mail_first:
  "first_rules mail_skill [(''t1'', mail_tool), (''t2'', remind_tool)] has ''t2'' = [after_mail]"
  "first_rules mail_skill [(''t1'', mail_tool), (''t2'', remind_tool)] has ''t1'' = []"
  by (simp_all add: first_rules_def mail_skill_def after_mail_def remind_tool_def mail_tool_def)

lemma wrap_none [simp]: "wrap_prerequisites [] names a = a"
  by (simp add: wrap_prerequisites_def)

lemma wrap_remind:
  "wrap_prerequisites [after_mail] [(''t1'', ''send''), (''t2'', ''remind'')] (ability_bound remind_tool 0 [] []) =
     ability_bound remind_tool 0 [after_mail] [''send'']"
  by (simp add: wrap_prerequisites_def ability_bound_def needs_of_def name_in_def after_mail_def)

lemma mail_abilities:
  "hydrate_skill_tools mail_supplies = Inr [ability_bound remind_tool 0 [after_mail] [''send''], ability_bound mail_tool 1 [] []]"
proof -
  have "sp_tools mail_supplies = [(''t1'', mail_tool), (''t2'', remind_tool)]" "sp_skill mail_supplies = mail_skill"
    by (simp_all add: mail_supplies_def)
  then show ?thesis using mail_names
    by (simp add: hydrate_skill_tools_def mail_bound id_named_def mail_parts remind_parts mail_first wrap_remind)
qed

section \<open>What an agent is given\<close>

text \<open>
  (C37) An agent is given exactly what the capability grants: the names of the abilities
  \<^verbatim>\<open>HydrateSkillTools\<close> binds are the names of the tools \<^verbatim>\<open>GrantedTools\<close> lists whose service runs on
  this server, and every tool bound is one of them.
\<close>

theorem abilities_are_the_granted:
  assumes keys: "keyed td_id (sp_tools sp)" and abilities: "hydrate_skill_tools sp = Inr as"
  shows "tool_of ` set as \<subseteq> {d \<in> set (granted_tools (sp_skill sp) (sp_tools sp)). usable sp (td_integration_id d)} \<and>
    ability_name ` set as = model_name ` {d \<in> set (granted_tools (sp_skill sp) (sp_tools sp)). usable sp (td_integration_id d)}"
proof -
  have "{d. gives sp d} = {d \<in> set (granted_tools (sp_skill sp) (sp_tools sp)). usable sp (td_integration_id d)}"
    by (auto simp: gives_def granted_tools_mem [OF keys])
  then show ?thesis using hydrate_facts(2,3) [OF abilities] by auto
qed

theorem abilities_are_the_granted_witness:
  "{''send'', ''remind''} = model_name ` {d \<in> set (granted_tools mail_skill (sp_tools mail_supplies)). usable mail_supplies (td_integration_id d)}"
proof -
  have k: "keyed td_id (sp_tools mail_supplies)"
    by (simp add: mail_supplies_def keyed_def wf_gomap_def mail_parts remind_parts)
  show ?thesis using abilities_are_the_granted [OF k mail_abilities]
    by (simp add: mail_supplies_def mail_parts remind_parts insert_commute)
qed

text \<open>
  (C7) A capability never widens: every ability it gives is one the creator named or one of a
  connection granted whole, or (on a connection it is limited on, when it grants all look-ups) one
  that only looks things up; it is not switched off, is held to all rules of the agent and of the
  capability for it, runs with the executor of its own service and with an identity of its own
  integration. An ability named that no longer exists is an error, never left out.
\<close>

theorem capability_never_widens:
  assumes "hydrate_skill_tools sp = Inr as"
  shows "(\<forall>a \<in> set as. well_bound sp a \<and>
      (named_by (sp_skill sp) (sp_tools sp) (tool_of a) \<or>
       (td_integration_id (tool_of a) \<in> set (sk_integrations (sp_skill sp)) \<and>
        (td_integration_id (tool_of a) \<in> set (sk_limited (sp_skill sp)) \<longrightarrow>
           sk_all_look_ups (sp_skill sp) \<and> td_read_only (tool_of a))))) \<and>
    (\<forall>t \<in> set (sk_tools (sp_skill sp)). gm_get (sp_tools sp) t \<noteq> None)"
  using hydrate_facts(2,4) [OF assms]
  by (fastforce simp: gives_def offered_by_def offered_def looked_at_def narrowed_def)

definition limited_supplies :: "unit supplies" where
  "limited_supplies = mail_supplies\<lparr>sp_skill := mail_skill\<lparr>sk_limited := [''mail''], sk_prerequisites := []\<rparr>\<rparr>"

lemma limited_abilities: "hydrate_skill_tools limited_supplies = Inr [ability_bound remind_tool 0 [] []]"
proof -
  have "bind_abilities limited_supplies = Inr [ability_bound remind_tool 0 [] []]"
    by (simp add: limited_supplies_def bind_eval tool_fields)
  moreover have "first_rules (sp_skill limited_supplies) (sp_tools limited_supplies) has i = []" if "i = ''t2''" for has i
    using that by (simp add: first_rules_def limited_supplies_def mail_supplies_def remind_tool_def mail_tool_def)
  moreover have "id_named (by_name (sp_tools limited_supplies)) ''remind'' = ''t2''"
    using mail_names by (simp add: limited_supplies_def id_named_def)
  ultimately show ?thesis by (simp add: hydrate_skill_tools_def remind_parts)
qed

theorem capability_never_widens_witness:
  "well_bound limited_supplies (ability_bound remind_tool 0 [] []) \<and> named_by mail_skill (sp_tools mail_supplies) remind_tool"
  using capability_never_widens [OF limited_abilities]
  by (simp add: limited_supplies_def mail_supplies_def mail_skill_def ability_bound_def named_by_def)

section \<open>What must run first\<close>

text \<open>
  The creator's order is kept for every ability bound, when the names of the tools are apart:
  each prerequisite the capability states for a tool, and each one the tool states itself and the
  agent has, is among what the ability waits for.
\<close>

theorem prerequisites_kept:
  assumes keys: "keyed td_id (sp_tools sp)" "distinct_names (sp_tools sp)"
    and abilities: "hydrate_skill_tools sp = Inr as" and a: "a \<in> set as"
  shows "(\<forall>p \<in> set (sk_prerequisites (sp_skill sp)). pq_before p = td_id (tool_of a) \<longrightarrow> p \<in> set (bd_needs (ab_binding a))) \<and>
    (\<forall>b \<in> set as. td_id (tool_of b) \<in> set (td_first (tool_of a)) \<longrightarrow> td_id (tool_of b) \<noteq> td_id (tool_of a) \<longrightarrow>
       (\<exists>p \<in> set (bd_needs (ab_binding a)). pq_first p = td_id (tool_of b) \<and> pq_same p = []))"
proof -
  let ?id = "\<lambda>a :: 'a ability. id_named (by_name (sp_tools sp)) (ability_name a)"
  have known: "gm_get (sp_tools sp) (td_id (tool_of b)) = Some (tool_of b)" if "b \<in> set as" for b
  proof -
    have "gives sp (tool_of b)" using hydrate_facts(2) [OF abilities] that by blast
    then have "tool_of b \<in> snd ` set (sp_tools sp)" by (force simp: gives_def named_by_def dest: gm_get_in_set)
    then show ?thesis using keyed_mem [OF keys(1)] by blast
  qed
  have id: "?id b = td_id (tool_of b)" if "b \<in> set as" for b
    using id_of_name [OF keys known [OF that]] hydrate_facts(2) [OF abilities] that by (simp add: well_bound_def)
  let ?own = "filter (\<lambda>p. pq_before p = td_id (tool_of a)) (sk_prerequisites (sp_skill sp))"
  let ?has = "\<lambda>f. f \<in> ?id ` set as"
  have n: "set (own_first ?has (td_id (tool_of a)) (td_first (tool_of a)) ?own) \<subseteq> set (bd_needs (ab_binding a))"
    unfolding hydrate_needs [OF abilities a] id [OF a] by (auto simp: first_rules_def known [OF a] Let_def)
  have "p \<in> set (bd_needs (ab_binding a))" if "p \<in> set (sk_prerequisites (sp_skill sp))" "pq_before p = td_id (tool_of a)" for p
    using that n own_first_keeps [of ?own] by force
  moreover have "\<exists>p \<in> set (bd_needs (ab_binding a)). pq_first p = td_id (tool_of b) \<and> pq_same p = []"
    if "b \<in> set as" "td_id (tool_of b) \<in> set (td_first (tool_of a))" "td_id (tool_of b) \<noteq> td_id (tool_of a)" for b
  proof -
    have "?has (td_id (tool_of b))" using that(1) id [OF that(1)] by (metis imageI)
    from own_first_adds [of _ _ ?has, OF that(2) this that(3)] n show ?thesis by blast
  qed
  ultimately show ?thesis by blast
qed

theorem prerequisites_kept_witness:
  "after_mail \<in> set (bd_needs (ab_binding (ability_bound remind_tool 0 [after_mail] [''send''])))"
proof -
  have k: "keyed td_id (sp_tools mail_supplies)" "distinct_names (sp_tools mail_supplies)"
    by (simp_all add: mail_supplies_def keyed_def wf_gomap_def distinct_names_def mail_parts remind_parts)
  show ?thesis
    using prerequisites_kept [OF k mail_abilities, of "ability_bound remind_tool 0 [after_mail] [''send'']"]
    by (simp add: ability_bound_def mail_supplies_def mail_skill_def after_mail_def remind_parts)
qed

definition other_remind :: tool_def where
  "other_remind = remind_tool\<lparr>td_id := ''x9'', td_integration_id := ''own''\<rparr>"

definition crowded_supplies :: "unit supplies" where
  "crowded_supplies = mail_supplies\<lparr>sp_tools := [(''t1'', mail_tool), (''t2'', remind_tool), (''x9'', other_remind)],
     sp_integrations := [(''mail'', mail_app), (''own'', their_app)]\<rparr>"

lemma other_parts: "model_name other_remind = ''remind''" "td_integration_id other_remind = ''own''" "td_id other_remind = ''x9''"
  by (simp_all add: other_remind_def remind_tool_def model_name_def)

lemma crowded_first: "first_rules (sp_skill crowded_supplies) (sp_tools crowded_supplies) has ''x9'' = []"
  "first_rules (sp_skill crowded_supplies) (sp_tools crowded_supplies) has ''t1'' = []"
  by (simp_all add: first_rules_def crowded_supplies_def mail_supplies_def mail_skill_def after_mail_def other_remind_def
      remind_tool_def mail_tool_def)

lemma crowded_bound:
  "bind_abilities crowded_supplies = Inr [ability_bound remind_tool 0 [] [], ability_bound mail_tool 1 [] []]"
  by (simp add: crowded_supplies_def bind_eval tool_fields other_parts)

lemma crowded_names: "by_name (sp_tools crowded_supplies) = [(''send'', ''t1''), (''remind'', ''x9'')]"
  by (simp add: by_name_def crowded_supplies_def gm_set_def mail_parts remind_parts other_parts)

text \<open>
  With a second tool of the same name anywhere in the catalog, also one of somebody else's app
  that the capability does not grant, the order is not kept: tools are looked up by name, the other
  tool is found, and an ability the creator made wait for another is bound with nothing to wait for.
\<close>

theorem prerequisite_lost:
  "hydrate_skill_tools crowded_supplies = Inr [ability_bound remind_tool 0 [] [], ability_bound mail_tool 1 [] []] \<and>
   after_mail \<in> set (sk_prerequisites (sp_skill crowded_supplies)) \<and> pq_before after_mail = td_id remind_tool"
  by (simp add: hydrate_skill_tools_def crowded_bound crowded_names id_named_def mail_parts remind_parts crowded_first)
    (simp add: crowded_supplies_def mail_supplies_def mail_skill_def after_mail_def)

end
