(* ===== verification/Turn.thy ===== *)
theory Turn
  imports Loop_Claims Hydration_Claims
begin

text \<open>
  A whole turn: the agent loop running on abilities as a capability gives them, each behind its
  gates. The locale \<open>world_invariant\<close> is the contract of a fact about the world and the actions run
  so far: asking the model keeps it and every action that is run keeps it; then a whole run does.
\<close>

section \<open>Facts about the world\<close>

lemma run_action_world:
  "\<exists>out err. ba_invoke action (tc_args call) (ls_world s) = ((out, err), ls_world (flow_state (run_action action call rest s))) \<and>
     ls_ran (flow_state (run_action action call rest s)) = ls_ran s @ [(tc_name call, tc_args call, really_done out err)]"
proof -
  obtain out err w where b: "ba_invoke action (tc_args call) (ls_world s) = ((out, err), w)" by (metis surj_pair)
  obtain ok msg why where o: "outcome_of out err = (ok, msg, why)" by (metis surj_pair)
  obtain s1 where i: "invoke_action action call s = ((out, err), s1)" "ls_world s1 = w"
    by (simp add: invoke_action_def b o)
  have "ls_world (flow_state (fail_or reason NextCall t)) = ls_world t" "ls_ran (flow_state (fail_or reason NextCall t)) = ls_ran t"
    for reason and t :: "'a loop_state" by (simp_all add: fail_or_def Let_def count_failure_def)
  then have "ls_world (flow_state (after_invoke action call rest out err s1)) = w"
    "ls_ran (flow_state (after_invoke action call rest out err s1)) = ls_ran s1"
    using i(2) by (auto simp: after_invoke_def Let_def say_def split: option.split)
  then show ?thesis using b i(1) invoke_action_fields(9) [OF i(1)] by (simp add: run_action_def)
qed

locale world_invariant =
  fixes cfg :: "'w loop_cfg" and Q :: "'w \<Rightarrow> (string \<times> args \<times> bool) list \<Rightarrow> bool"
  assumes model_keeps: "Q w runs \<Longrightarrow> call_llm (lc_env cfg) msgs specs b w = (r, b', w') \<Longrightarrow> Q w' runs"
    and action_keeps: "Q w runs \<Longrightarrow> find_action cfg n = Some act \<Longrightarrow> n \<noteq> finish_action_name \<Longrightarrow>
      ba_invoke act inp w = ((out, err), w') \<Longrightarrow> Q w' (runs @ [(n, inp, really_done out err)])"
begin

lemma holds_in_run: "run_invariant cfg (\<lambda>s. Q (ls_world s) (ls_ran s))"
proof
  fix s t s1 :: "'w loop_state" and n action call rest msgs specs r
  show "Q (ls_world s) (ls_ran s) \<Longrightarrow> core_of t = core_of s \<Longrightarrow> Q (ls_world t) (ls_ran t)"
    by (simp add: core_of_def)
  show "Q (ls_world s) (ls_ran s) \<Longrightarrow> ask_model cfg msgs specs s = (r, s1) \<Longrightarrow> Q (ls_world s1) (ls_ran s1)"
    by (auto simp: ask_model_def intro: model_keeps split: prod.splits)
  show "Q (ls_world s) (ls_ran s) \<Longrightarrow> Q (ls_world (count_call n s)) (ls_ran (count_call n s))"
    by (simp add: count_call_def)
  assume q: "Q (ls_world s) (ls_ran s)" and may: "may_run cfg action call (count_call (tc_name call) s)"
  obtain out err where
    "ba_invoke action (tc_args call) (ls_world s) = ((out, err), ls_world (flow_state (run_action action call rest (count_call (tc_name call) s))))"
    "ls_ran (flow_state (run_action action call rest (count_call (tc_name call) s))) = ls_ran s @ [(tc_name call, tc_args call, really_done out err)]"
    using run_action_world [of action call "count_call (tc_name call) s" rest] by (auto simp: count_call_def)
  then show "Q (ls_world (flow_state (run_action action call rest (count_call (tc_name call) s))))
      (ls_ran (flow_state (run_action action call rest (count_call (tc_name call) s))))"
    using action_keeps [OF q] may by (simp add: may_run_def)
qed

sublocale run: run_invariant cfg "\<lambda>s. Q (ls_world s) (ls_ran s)"
  by (rule holds_in_run)

lemma holds_after: "Q w [] \<Longrightarrow> Q (ls_world (snd (loop_run cfg b msgs w))) (ls_ran (snd (loop_run cfg b msgs w)))"
  by (rule run.inv_loop_run) (simp add: init_state_def)

end

section \<open>The agent's abilities in a turn\<close>

text \<open>Models and waiting change nothing that the tools write down.\<close>

definition same_books :: "'e world \<Rightarrow> 'e world \<Rightarrow> bool" where
  "same_books w w' \<longleftrightarrow> w_events w' = w_events w \<and> w_once w' = w_once w \<and> w_journal w' = w_journal w"

definition quiet_env :: "'e world llm_env \<Rightarrow> bool" where
  "quiet_env env \<longleftrightarrow> (\<forall>p \<in> set (le_llms env). \<forall>msgs specs w. same_books w (snd (p msgs specs w))) \<and>
     (\<forall>d w. same_books w (snd (le_wait env d w)))"

lemma call_llm_quiet:
  assumes "quiet_env env" and "call_llm env msgs specs b w = (r, b', w')"
  shows "same_books w w'"
proof (rule call_llm_keeps [OF _ _ _ assms(2), where Q = "same_books w"])
  show "same_books w w" by (simp add: same_books_def)
qed (use assms(1) in \<open>auto simp: quiet_env_def same_books_def\<close>)

text \<open>The actions of the loop: the abilities of the capability, and finish.\<close>

definition turn_of :: "'e world loop_cfg \<Rightarrow> 'e ctx \<Rightarrow> 'e ability list \<Rightarrow> 'e world bound_action \<Rightarrow> bool" where
  "turn_of cfg cx as fin \<longleftrightarrow> lc_actions cfg = map (action_of_ability cx) as @ [fin] \<and> as_name (ba_spec fin) = finish_action_name"

lemma action_of_ability_parts [simp]:
  "as_name (ba_spec (action_of_ability cx a)) = ability_name a"
  "ba_invoke (action_of_ability cx a) = handler_of (ab_binding a) cx"
  by (simp_all add: action_of_ability_def action_of_tool_def Let_def ability_name_def)

lemma turn_action:
  assumes "turn_of cfg cx as fin" and "find_action cfg n = Some act" "n \<noteq> finish_action_name"
  obtains a where "a \<in> set as" "ability_name a = n" "act = action_of_ability cx a"
proof -
  have "(n, act) \<in> set (map (\<lambda>a. (as_name (ba_spec a), a)) (lc_actions cfg))"
    using assms(2) map_of_SomeD unfolding find_action_def by fastforce
  then show ?thesis using that assms(1,3) by (auto simp: turn_of_def)
qed

text \<open>What the tools say they did, they did.\<close>

definition tool_ran :: "'e ability list \<Rightarrow> 'e world \<Rightarrow> string \<Rightarrow> bool" where
  "tool_ran as w n \<longleftrightarrow> (\<exists>a \<in> set as. ability_name a = n \<and> (\<exists>key. \<exists>ev \<in> set (w_events w). went_through (tool_of a) key ev))"

definition books_true :: "'e ability list \<Rightarrow> 'e world \<Rightarrow> (string \<times> args \<times> bool) list \<Rightarrow> bool" where
  "books_true as w runs \<longleftrightarrow> (\<forall>a \<in> set as. once_backed (tool_of a) (guard_of a) w) \<and>
     (\<forall>x \<in> set runs. snd (snd x) \<longrightarrow> tool_ran as w (fst x))"

lemma tool_ran_mono: "tool_ran as w n \<Longrightarrow> set (w_events w) \<subseteq> set (w_events w') \<Longrightarrow> tool_ran as w' n"
  by (fastforce simp: tool_ran_def)

lemma gated_events: "gated def i ex g rules cx inp w = (r, w') \<Longrightarrow> set (w_events w) \<subseteq> set (w_events w')"
  by (erule gated_outcome) auto

lemma once_backed_other:
  assumes "once_backed def g w" and "g' \<noteq> g" and "gated def' i ex g' rules cx inp w = (r, w')"
  shows "once_backed def g w'"
  using assms(1,2) once_of_gated [OF assms(3)] gated_events [OF assms(3)] by (fastforce simp: once_backed_def)

lemma books_true_handler:
  assumes books: "books_true as w runs" and guards: "distinct (map guard_of as)" and a: "a \<in> set as"
    and call: "handler_of (ab_binding a) cx inp w = ((out, err), w')"
  shows "books_true as w' (runs @ [(ability_name a, inp, really_done out err)])"
  using call
proof (cases rule: handler_cases)
  case early
  then show ?thesis using books by (simp add: books_true_def)
next
  case ready
  then have g: "gated (tool_of a) (bd_identity (ab_binding a)) (bd_executor (ab_binding a)) (guard_of a) (bd_rules (ab_binding a)) cx inp w =
      ((out, err), w')" by (simp add: gates_of_def)
  have ob: "once_backed (tool_of c) (guard_of c) w" if "c \<in> set as" for c using books that by (simp add: books_true_def)
  have "once_backed (tool_of c) (guard_of c) w'" if c: "c \<in> set as" for c
  proof (cases "guard_of c = guard_of a")
    case True
    then have "c = a" using guards a c by (auto simp: distinct_map dest: inj_onD)
    then show ?thesis using once_backed_gated [OF ob [OF a] g] by simp
  next
    case False
    then show ?thesis using once_backed_other [OF ob [OF c] _ g] by simp
  qed
  moreover have "tool_ran as w' (ability_name a)" if "really_done out err"
    using gated_done [OF ob [OF a] g] that a by (fastforce simp: tool_ran_def)
  moreover have "tool_ran as w' (fst x)" if "x \<in> set runs" "snd (snd x)" for x
    using books that tool_ran_mono [OF _ gated_events [OF g]] by (simp add: books_true_def)
  ultimately show ?thesis by (auto simp: books_true_def)
qed

text \<open>The invariant of a turn whose actions are those of the capability, and whose models keep out of the books.\<close>

definition turn_books :: "'e world loop_cfg \<Rightarrow> 'e ctx \<Rightarrow> 'e ability list \<Rightarrow> 'e world bound_action \<Rightarrow> 'e world \<Rightarrow> (string \<times> args \<times> bool) list \<Rightarrow> bool" where
  "turn_books cfg cx as fin w runs \<longleftrightarrow>
     (turn_of cfg cx as fin \<longrightarrow> quiet_env (lc_env cfg) \<longrightarrow> distinct (map guard_of as) \<longrightarrow> books_true as w runs)"

lemma turn_books_invariant: "world_invariant cfg (turn_books cfg cx as fin)"
proof
  fix w w' :: "'a world" and runs msgs specs b b' and r :: "goerr + llm_response"
  assume q: "turn_books cfg cx as fin w runs" and c: "call_llm (lc_env cfg) msgs specs b w = (r, b', w')"
  have "quiet_env (lc_env cfg) \<Longrightarrow> same_books w w'" using call_llm_quiet c by blast
  then show "turn_books cfg cx as fin w' runs" using q
    by (auto simp: turn_books_def books_true_def once_backed_def tool_ran_def same_books_def)
next
  fix w w' :: "'a world" and runs n act inp out err
  assume q: "turn_books cfg cx as fin w runs" and f: "find_action cfg n = Some act" "n \<noteq> finish_action_name"
    and i: "ba_invoke act inp w = ((out, err), w')"
  show "turn_books cfg cx as fin w' (runs @ [(n, inp, really_done out err)])" unfolding turn_books_def
  proof (intro impI)
    assume t: "turn_of cfg cx as fin" "quiet_env (lc_env cfg)" "distinct (map guard_of as)"
    obtain a where a: "a \<in> set as" "ability_name a = n" "act = action_of_ability cx a"
      using turn_action [OF t(1) f] .
    have "books_true as w runs" using q t by (simp add: turn_books_def)
    from books_true_handler [OF this t(3) a(1)] i a(2,3)
    show "books_true as w' (runs @ [(n, inp, really_done out err)])" by simp
  qed
qed

interpretation turn_world: world_invariant cfg "turn_books cfg cx as fin"
  for cfg :: "'e world loop_cfg" and cx :: "'e ctx" and as :: "'e ability list" and fin :: "'e world bound_action"
  by (rule turn_books_invariant)

section \<open>The property\<close>

text \<open>
  (C1) An agent does what it says. When a turn that is held to requirements finishes with outcome
  \<^verbatim>\<open>done\<close> (and is not the statement of facts), an ability that the requirements name was bound
  through the capability, and its service was really called by that tool and went through: the call
  is among the events of the world. The loop, the binding, the gates and the journal of the tools
  together give this for any model and any service; the model itself only must not write the
  tools' books.
\<close>

theorem agent_does_what_it_says:
  assumes abilities: "hydrate_skill_tools sp = Inr as" and turn: "turn_of cfg cx as fin" "quiet_env (lc_env cfg)"
    and fresh: "w_once w = []"
    and held: "effective_reqs cfg = Some q" "rq_tools q \<noteq> []"
    and run: "fst (loop_run cfg b msgs w) = Inr r"
    and claim: "res_output r = Some a" "get_str a ''outcome'' = outcome_done"
    and words: "res_content r \<noteq> nothing_changed_message q (res_actions r)"
  shows "\<exists>x \<in> set as. ability_name x \<in> set (rq_tools q) \<and> gives sp (tool_of x) \<and>
    (\<exists>key. \<exists>ev \<in> set (w_events (ls_world (snd (loop_run cfg b msgs w)))). went_through (tool_of x) key ev)"
proof -
  let ?t = "snd (loop_run cfg b msgs w)"
  have g: "distinct (map guard_of as)" using hydrate_facts(1) [OF abilities] by simp
  have "turn_books cfg cx as fin w []" using fresh by (simp add: turn_books_def books_true_def once_backed_def)
  then have "turn_books cfg cx as fin (ls_world ?t) (ls_ran ?t)" by (rule turn_world.holds_after)
  then have books: "books_true as (ls_world ?t) (ls_ran ?t)" using turn g by (simp add: turn_books_def)
  obtain n inp where n: "(n, inp, True) \<in> set (ls_ran ?t)" "n \<in> set (rq_tools q)"
    using claimed_done_facts [OF held(1) run claim words] held(2) by auto
  then have "tool_ran as (ls_world ?t) n" using books by (fastforce simp: books_true_def)
  then obtain x where "x \<in> set as" "ability_name x = n"
    "\<exists>key. \<exists>ev \<in> set (w_events (ls_world ?t)). went_through (tool_of x) key ev" by (auto simp: tool_ran_def)
  then show ?thesis using n(2) hydrate_facts(2) [OF abilities] by blast
qed

text \<open>A model that mails Ann and says so, and its agent.\<close>

definition mail_model :: "unit world llm" where
  "mail_model msgs specs w =
     (Inr (if msgs = [] then asks [call_of ''a'' ''send'' to_ann] else asks [call_of ''b'' ''finish'' done_args]), w)"

definition finish_action :: "unit world bound_action" where
  "finish_action = action_of (spec_named ''finish'' False False finish_schema) (\<lambda>a w. ((GNil, None), w))"

definition mail_ability :: "unit ability" where
  "mail_ability = ability_bound mail_tool 1 [] []"

definition mail_abilities_list :: "unit ability list" where
  "mail_abilities_list = [ability_bound remind_tool 0 [after_mail] [''send''], mail_ability]"

definition mail_agent :: "unit world loop_cfg" where
  "mail_agent = \<lparr>lc_env = \<lparr>le_llms = [mail_model], le_now = (\<lambda>w. 0), le_wait = (\<lambda>d w. (False, w)), le_ctx_err = (\<lambda>w. errorf [])\<rparr>,
     lc_max_iterations = 5, lc_actions = map (action_of_ability agreeing_ctx) mail_abilities_list @ [finish_action],
     lc_requirements = Some \<lparr>rq_tools = [''send''], rq_any_change = False\<rparr>\<rparr>"

lemma mail_agent_actions:
  "find_action mail_agent ''send'' = Some (action_of_ability agreeing_ctx mail_ability)"
  "find_action mail_agent ''finish'' = Some finish_action"
  by (simp_all add: find_action_def mail_agent_def mail_abilities_list_def mail_ability_def mail_parts remind_parts finish_action_def action_of_def
      spec_named_def)

lemma mail_ability_call:
  "ba_invoke (action_of_ability agreeing_ctx mail_ability) to_ann new_world =
     ((GStr ''sent'', None), mail_world\<lparr>w_once := [(1, ''ANN'')]\<rparr>)"
  by (simp add: mail_ability_def ability_bound_def handler_of_def gates_of_def with_prerequisites_def mail_eval)

lemma mail_ability_spec:
  "as_read_only (ba_spec (action_of_ability agreeing_ctx mail_ability)) = False"
  "as_changes (ba_spec (action_of_ability agreeing_ctx mail_ability)) = True"
  "as_max_calls (ba_spec (action_of_ability agreeing_ctx mail_ability)) = 0"
  by (simp_all add: action_of_ability_def action_of_tool_def mail_ability_def ability_bound_def spec_of_tool_def effect_of_def mail_parts)
    (simp add: mail_tool_def)

lemma mail_key_text: "marshal_args to_ann = Some (''{'' @ [CHR 0x22] @ ''to'' @ [CHR 0x22] @ '':'' @ [CHR 0x22] @ ''ann'' @ [CHR 0x22] @ ''}'')"
  by code_simp

definition mail_reqs :: requirements where
  "mail_reqs = \<lparr>rq_tools = [''send''], rq_any_change = False\<rparr>"

lemma mail_agent_reqs: "effective_reqs mail_agent = Some mail_reqs"
  by (simp add: effective_reqs_def mail_agent_actions finish_action_name_def finish_action_def action_of_def spec_named_def
      finish_schema_def has_property_def rq_active_def mail_reqs_def) (simp add: mail_agent_def)

lemma mail_agent_asks:
  "ask_model mail_agent msgs specs s =
     (fst (mail_model msgs specs (ls_world s)), s\<lparr>ls_breaker := mark_up 0 (note_asked 0 (ls_breaker s)), ls_sent := ls_sent s @ [msgs]\<rparr>)"
  by (simp add: ask_model_def call_llm_def mail_agent_def mail_model_def llm_max_retries_def numeral_eq_Suc Let_def)

lemma mail_agent_steps: "lc_max_iterations mail_agent = 5"
  by (simp add: mail_agent_def)

lemmas turn_eval =
  loop_run_def run_from.simps init_state_def loop_iter_def mail_agent_asks mail_agent_steps max_stale_steps_def mail_model_def
  asks_def call_of_def done_args_def handle_response_def do_call_def do_known_def do_finish_def mail_agent_actions mail_agent_reqs
  mail_ability_call mail_ability_spec mail_key_text finish_action_name_def max_tool_calls_per_iter_def max_same_action_calls_def
  repeated_def remember_def lookup_key_def change_key_def key_of_def count_call_def over_max_calls_def run_action_def
  invoke_action_def after_invoke_def outcome_of_def really_done_def output_not_approved_def output_auth_pending_prefix_def
  output_timezone_pending_prefix_def is_timezone_pending_def has_prefix_def settle_stale_def say_def finish_check_def
  satisfied_def get_str_def outcome_done_def outcome_cannot_def outcome_need_details_def receipts_def mail_reqs_def
  Let_def numeral_eq_Suc

lemma mail_agent_run:
  "fst (loop_run mail_agent fresh_breaker [] new_world) =
     Inr \<lparr>res_status = LoopComplete, res_content = ''ok'', res_output = Some done_args,
       res_actions = [\<lparr>ar_name = ''send'', ar_changes = True, ar_done = True, ar_message = [], ar_reason = []\<rparr>]\<rparr>"
  by (simp add: turn_eval del: action_of_ability_parts)

theorem agent_does_what_it_says_witness:
  "\<exists>key. \<exists>ev \<in> set (w_events (ls_world (snd (loop_run mail_agent fresh_breaker [] new_world)))). went_through mail_tool key ev"
proof -
  have t: "turn_of mail_agent agreeing_ctx mail_abilities_list finish_action" "quiet_env (lc_env mail_agent)" "w_once new_world = []"
    by (simp_all add: turn_of_def mail_agent_def finish_action_def action_of_def spec_named_def finish_action_name_def quiet_env_def
        mail_model_def same_books_def new_world_def)
  have h: "hydrate_skill_tools mail_supplies = Inr mail_abilities_list" by (simp add: mail_abilities mail_abilities_list_def mail_ability_def)
  have "rq_tools mail_reqs \<noteq> []" by (simp add: mail_reqs_def)
  from agent_does_what_it_says [OF h t mail_agent_reqs this mail_agent_run] show ?thesis
    by (simp add: done_args_def get_str_def outcome_done_def nothing_changed_message_def changed_anything_def receipts_def
        mail_abilities_list_def mail_ability_def mail_reqs_def mail_parts remind_parts) (auto simp: mail_ability_def ability_bound_def)
qed

end
