(* ===== verification/Provider_Claims.thy ===== *)
theory Provider_Claims
  imports LLM_Providers
begin

text \<open>
  What one model call does to the providers (\<^verbatim>\<open>callLLM\<close>, \<^verbatim>\<open>callWithRetry\<close>): which
  are asked, in which order and how often, which rest afterwards, and that a resting one is
  passed over.
\<close>

text \<open>Provider \<open>i\<close> asked \<open>k\<close> times, then the next one.\<close>

fun tries :: "nat \<Rightarrow> nat list \<Rightarrow> nat list" where
  "tries i [] = []"
| "tries i (k # ks) = replicate k i @ tries (Suc i) ks"

lemma tries_zero [simp]: "tries i (replicate n 0) = []"
  by (induction n arbitrary: i) auto

lemma in_tries: "j \<in> set (tries i ks) \<longleftrightarrow> (\<exists>m < length ks. j = i + m \<and> 0 < ks ! m)"
proof (induction i ks rule: tries.induct)
  case (2 i k ks)
  show ?case by (auto simp: 2 Ex_less_Suc2)
qed simp

lemma call_with_retry_tries:
  assumes "call_with_retry env msgs specs i p llm_max_retries llm_base_backoff b w = (r, b', w')"
  shows "\<exists>k. 0 < k \<and> k \<le> llm_max_retries \<and> br_asked b' = br_asked b @ replicate k i \<and> br_down b' = br_down b"
proof -
  obtain k where k: "k \<le> llm_max_retries" "br_asked b' = br_asked b @ replicate k i" "br_down b' = br_down b"
    using call_with_retry_asked [OF assms] by blast
  have "k \<noteq> 0"
    using call_with_retry_first [OF _ assms] k(2) by (cases k) (auto simp: llm_max_retries_def)
  with k show ?thesis by blast
qed

definition ended_well :: "nat \<Rightarrow> nat list \<Rightarrow> breaker \<Rightarrow> bool" where
  "ended_well i ks b \<longleftrightarrow> (\<exists>m < length ks. 0 < ks ! m \<and> (\<forall>j < length ks. m < j \<longrightarrow> ks ! j = 0) \<and> br_down b (i + m) = None)"

definition ended_badly :: "nat \<Rightarrow> nat list \<Rightarrow> breaker \<Rightarrow> bool" where
  "ended_badly i ks b \<longleftrightarrow> (ks = [] \<or> 0 < last ks) \<and> (\<forall>m. Suc m < length ks \<longrightarrow> br_down b (i + m) \<noteq> None)"

lemma ended_well_here: "0 < k \<Longrightarrow> br_down b i = None \<Longrightarrow> ended_well i (k # replicate n 0) b"
  unfolding ended_well_def by (intro exI [of _ 0]) (auto simp: nth_Cons split: nat.split)

lemma ended_well_later: "ended_well (Suc i) ks b \<Longrightarrow> ended_well i (k # ks) b"
  unfolding ended_well_def
proof (elim exE conjE)
  fix m assume m: "m < length ks" "0 < ks ! m" "\<forall>j<length ks. m < j \<longrightarrow> ks ! j = 0" "br_down b (Suc i + m) = None"
  show "\<exists>m<length (k # ks). 0 < (k # ks) ! m \<and> (\<forall>j<length (k # ks). m < j \<longrightarrow> (k # ks) ! j = 0) \<and> br_down b (i + m) = None"
    using m by (intro exI [of _ "Suc m"]) (auto simp: nth_Cons split: nat.split)
qed

lemma ended_badly_later:
  assumes "ended_badly (Suc i) ks b" and "ks = [] \<longrightarrow> 0 < k" and "ks \<noteq> [] \<longrightarrow> br_down b i \<noteq> None"
  shows "ended_badly i (k # ks) b"
  unfolding ended_badly_def
proof (intro conjI allI impI)
  show "k # ks = [] \<or> 0 < last (k # ks)" using assms(1,2) by (auto simp: ended_badly_def)
  fix m assume m: "Suc m < length (k # ks)"
  show "br_down b (i + m) \<noteq> None"
  proof (cases m)
    case 0
    then show ?thesis using m assms(3) by auto
  next
    case (Suc j)
    then have "br_down b (Suc i + j) \<noteq> None" using m assms(1) unfolding ended_badly_def by simp
    then show ?thesis using Suc by simp
  qed
qed

definition call_shape :: "nat \<Rightarrow> nat \<Rightarrow> breaker \<Rightarrow> goerr + llm_response \<Rightarrow> breaker \<Rightarrow> nat list \<Rightarrow> bool" where
  "call_shape i n b r b' ks \<longleftrightarrow>
     length ks = n \<and> (\<forall>k \<in> set ks. k \<le> llm_max_retries) \<and> br_asked b' = br_asked b @ tries i ks \<and>
     (case r of Inr _ \<Rightarrow> ended_well i ks b' | Inl _ \<Rightarrow> ended_badly i ks b')"

lemma call_providers_down:
  "call_providers env msgs specs i ps e b w = (r, b', w') \<Longrightarrow> j < i \<Longrightarrow> br_down b' j = br_down b j"
proof (induction ps arbitrary: i e b w)
  case Nil
  then show ?case by simp
next
  case (Cons p ps)
  obtain res b1 w1 where c: "call_with_retry env msgs specs i p llm_max_retries llm_base_backoff b w = (res, b1, w1)"
    by (metis prod_cases3)
  have d: "br_down b1 = br_down b" using call_with_retry_tries [OF c] by blast
  show ?case
    using Cons.prems Cons.IH [of "Suc i"] c d
    by (auto simp: mark_up_def mark_down_def split: if_splits sum.splits)
qed

lemma call_providers_shape:
  "call_providers env msgs specs i ps e b w = (r, b', w') \<Longrightarrow> \<exists>ks. call_shape i (length ps) b r b' ks"
proof (induction ps arbitrary: i e b w)
  case Nil
  then show ?case by (auto simp: call_shape_def ended_badly_def)
next
  case (Cons p ps)
  show ?case
  proof (cases "ps \<noteq> [] \<and> is_down env b i w")
    case True
    then have c: "call_providers env msgs specs (Suc i) ps e b w = (r, b', w')" using Cons.prems by simp
    then obtain ks where ks: "call_shape (Suc i) (length ps) b r b' ks" using Cons.IH by blast
    have "br_down b' i \<noteq> None"
      using True call_providers_down [OF c, of i] by (auto simp: is_down_def split: option.splits)
    with ks True show ?thesis
      by (intro exI [of _ "0 # ks"])
        (auto simp: call_shape_def split: sum.splits intro: ended_well_later intro!: ended_badly_later)
  next
    case False
    obtain res b1 w1 where c: "call_with_retry env msgs specs i p llm_max_retries llm_base_backoff b w = (res, b1, w1)"
      by (metis prod_cases3)
    obtain k where k: "0 < k" "k \<le> llm_max_retries" "br_asked b1 = br_asked b @ replicate k i"
      using call_with_retry_tries [OF c] by blast
    show ?thesis
    proof (cases res)
      case (Inr x)
      with False c Cons.prems have "r = Inr x" "b' = mark_up i b1" by auto
      with k show ?thesis
        by (intro exI [of _ "k # replicate (length ps) 0"])
          (auto simp: call_shape_def mark_up_def llm_max_retries_def intro: ended_well_here)
    next
      case (Inl err)
      let ?b2 = "if ps \<noteq> [] then mark_down env i w1 b1 else b1"
      have c2: "call_providers env msgs specs (Suc i) ps err ?b2 w1 = (r, b', w')"
        using Cons.prems unfolding call_providers.simps if_not_P [OF False] c Inl by simp
      then obtain ks where ks: "call_shape (Suc i) (length ps) ?b2 r b' ks" using Cons.IH by blast
      have "ps \<noteq> [] \<Longrightarrow> br_down b' i \<noteq> None"
        using call_providers_down [OF c2, of i] by (simp add: mark_down_def)
      with ks k show ?thesis
        by (intro exI [of _ "k # ks"])
          (auto simp: call_shape_def mark_down_def split: sum.splits if_splits
            intro: ended_well_later intro!: ended_badly_later)
    qed
  qed
qed

lemma call_providers_rest:
  "call_providers env msgs specs i ps e b w = (r, b', w') \<Longrightarrow> br_down b j = Some t \<Longrightarrow> \<forall>w. le_now env w < t \<Longrightarrow>
     Suc j < i + length ps \<Longrightarrow> i \<le> j \<Longrightarrow> \<exists>new. br_asked b' = br_asked b @ new \<and> j \<notin> set new"
proof (induction ps arbitrary: i e b w)
  case Nil
  then show ?case by simp
next
  case (Cons p ps)
  show ?case
  proof (cases "i = j")
    case True
    then have "ps \<noteq> [] \<and> is_down env b i w" using Cons.prems by (auto simp: is_down_def)
    then have c: "call_providers env msgs specs (Suc i) ps e b w = (r, b', w')" using Cons.prems(1) by simp
    then obtain ks where "br_asked b' = br_asked b @ tries (Suc i) ks"
      using call_providers_shape by (metis call_shape_def)
    then show ?thesis using True by (auto simp: in_tries)
  next
    case ij: False
    show ?thesis
    proof (cases "ps \<noteq> [] \<and> is_down env b i w")
      case True
      then show ?thesis using Cons.prems ij by (intro Cons.IH [of "Suc i" e b w]) auto
    next
      case False
      obtain res b1 w1 where c: "call_with_retry env msgs specs i p llm_max_retries llm_base_backoff b w = (res, b1, w1)"
        by (metis prod_cases3)
      obtain k where k: "br_asked b1 = br_asked b @ replicate k i" "br_down b1 = br_down b"
        using call_with_retry_tries [OF c] by blast
      show ?thesis
      proof (cases res)
        case (Inr x)
        with False c Cons.prems(1) k ij show ?thesis by (auto simp: mark_up_def)
      next
        case (Inl err)
        let ?b2 = "if ps \<noteq> [] then mark_down env i w1 b1 else b1"
        have "br_down ?b2 j = Some t" using k(2) Cons.prems(2) ij by (simp add: mark_down_def)
        then obtain new where "br_asked b' = br_asked ?b2 @ new" "j \<notin> set new"
          using Cons.IH [of "Suc i" err ?b2 w1] False c Inl Cons.prems ij by auto
        then show ?thesis using k(1) ij by (intro exI [of _ "replicate k i @ new"]) (auto simp: mark_down_def)
      qed
    qed
  qed
qed

section \<open>The properties\<close>

text \<open>Two providers, of which the first is always out of credit.\<close>

definition broke_then_fine :: "unit llm_env" where
  "broke_then_fine = \<lparr>le_llms = [\<lambda>msgs specs w. (Inl \<lparr>err_text = [], err_wraps = [ErrLLMOutOfCredit]\<rparr>, w),
       \<lambda>msgs specs w. (Inr \<lparr>lr_content = ''hi'', lr_tool_calls = [], lr_reasoning = []\<rparr>, w)],
     le_now = (\<lambda>w. 5), le_wait = (\<lambda>d w. (False, w)), le_ctx_err = (\<lambda>w. errorf [])\<rparr>"

definition no_breaker :: breaker where
  "no_breaker = \<lparr>br_down = Map.empty, br_asked = []\<rparr>"

text \<open>
  (C40) One model call asks the providers in their order of priority, each at most three times.
  When it succeeds, the provider that answered is the last one asked and no longer rests; when
  it fails, the last provider was asked, however it fared before, and every other one rests now.
\<close>

theorem providers_asked_in_order:
  assumes "call_llm env msgs specs b w = (r, b', w')" and "le_llms env \<noteq> []"
  shows "\<exists>ks. length ks = length (le_llms env) \<and> (\<forall>k \<in> set ks. k \<le> llm_max_retries) \<and>
     br_asked b' = br_asked b @ tries 0 ks \<and>
     (case r of
        Inr _ \<Rightarrow> \<exists>i < length ks. 0 < ks ! i \<and> (\<forall>j < length ks. i < j \<longrightarrow> ks ! j = 0) \<and> br_down b' i = None
      | Inl _ \<Rightarrow> 0 < last ks \<and> (\<forall>i. Suc i < length ks \<longrightarrow> br_down b' i \<noteq> None))"
proof -
  obtain ks where ks: "call_shape 0 (length (le_llms env)) b r b' ks"
    using assms call_providers_shape by (force simp: call_llm_def)
  then have "ks \<noteq> []" using assms(2) by (auto simp: call_shape_def)
  with ks show ?thesis
    by (intro exI [of _ ks]) (auto simp: call_shape_def ended_well_def ended_badly_def split: sum.splits)
qed

theorem providers_asked_in_order_witness:
  "\<exists>b'. call_llm broke_then_fine [] [] no_breaker () = (Inr \<lparr>lr_content = ''hi'', lr_tool_calls = [], lr_reasoning = []\<rparr>, b', ()) \<and>
     (\<exists>ks. length ks = 2 \<and> br_asked b' = tries 0 ks \<and> (\<exists>i < length ks. br_down b' i = None))"
proof -
  obtain b' where e: "call_llm broke_then_fine [] [] no_breaker () = (Inr \<lparr>lr_content = ''hi'', lr_tool_calls = [], lr_reasoning = []\<rparr>, b', ())"
    by (simp add: call_llm_def broke_then_fine_def numeral_eq_Suc llm_max_retries_def errors_is_def Let_def is_down_def no_breaker_def)
  have "le_llms broke_then_fine \<noteq> []" "length (le_llms broke_then_fine) = 2" "br_asked no_breaker = []"
    by (simp_all add: broke_then_fine_def no_breaker_def)
  then show ?thesis using providers_asked_in_order [OF e] e by auto
qed

text \<open>
  A provider that rests is left alone: as long as the clock has not reached the end of its
  rest, no call asks it, unless it is the last one there is.
\<close>

theorem resting_provider_left_alone:
  assumes "call_llm env msgs specs b w = (r, b', w')"
    and "br_down b i = Some t" and "\<forall>w. le_now env w < t" and "Suc i < length (le_llms env)"
  shows "\<exists>new. br_asked b' = br_asked b @ new \<and> i \<notin> set new"
  using assms call_providers_rest [of env msgs specs 0 "le_llms env" "errorf []" b w r b' w' i t]
  by (auto simp: call_llm_def split: if_splits)

theorem resting_provider_left_alone_witness:
  "\<exists>b' new. snd (call_llm broke_then_fine [] [] \<lparr>br_down = [0 \<mapsto> 9], br_asked = []\<rparr> ()) = (b', ()) \<and>
     br_asked b' = new \<and> 0 \<notin> set new"
proof -
  obtain r b' where e: "call_llm broke_then_fine [] [] \<lparr>br_down = [0 \<mapsto> 9], br_asked = []\<rparr> () = (r, b', ())"
    by (metis old.unit.exhaust prod_cases3)
  show ?thesis
    using resting_provider_left_alone [OF e, of 0 9] e by (auto simp: broke_then_fine_def)
qed

end
