(* ===== verification/Gate_Gaps.thy ===== *)
theory Gate_Gaps
  imports Catalog_Claims
begin

text \<open>
  Where the gates do not keep what their comments say: the text a person is asked to approve can
  leave out what will be sent, and a rule of the creator can make another one impossible to meet.
\<close>

section \<open>What a person is shown\<close>

lemma contains_str_left: "contains_str t sub \<Longrightarrow> contains_str (s @ t) sub"
  by (induction s) auto

lemma has_prefix_longer: "has_prefix s p \<Longrightarrow> has_prefix (s @ t) p"
proof -
  assume "has_prefix s p"
  then have "take (length p) s = p" by (simp add: has_prefix_def)
  then have "length p \<le> length s" by (metis length_take min.cobounded1)
  with \<open>take (length p) s = p\<close> show ?thesis by (simp add: has_prefix_def)
qed

lemma contains_str_right: "contains_str s sub \<Longrightarrow> contains_str (s @ t) sub"
proof (induction s)
  case Nil
  then show ?case by (cases t) (auto simp: has_prefix_def)
next
  case (Cons c s)
  then show ?case using has_prefix_longer [of "c # s" sub t] by auto
qed

lemma split_char_none: "c \<notin> set s \<Longrightarrow> split_char c s = [s]"
  by (induction s) auto

text \<open>
  An input can hide itself from the person who approves it: whatever text with \<^verbatim>\<open>{{\<close> in it the
  model gives for an input, the line of the approval prompt that should show it is left out, and the
  person is asked to approve the rest (here: nothing).
\<close>

theorem input_hides_itself:
  assumes "contains_str v ''{{''" and "line_break \<notin> set v"
  shows "render_approval_prompt mail_tool [(''to'', GStr v)] = []"
proof -
  have f: "fill_prompt [(''to'', GStr v)] ''To {{to}}?'' = ''To '' @ v @ ''?''"
    by (simp add: fill_prompt_def braced_def has_prefix_def)
  have c: "contains_str (''To '' @ v @ ''?'') ''{{''"
    using assms(1) by (intro contains_str_left contains_str_right)
  have "line_break \<notin> set (''To '' @ v @ ''?'')" using assms(2) by (simp add: line_break_def)
  then have s: "split_char line_break (''To '' @ v @ ''?'') = [''To '' @ v @ ''?'']" by (rule split_char_none)
  have "drop_unfilled (''To '' @ v @ ''?'') = []"
    unfolding drop_unfilled_def s using c by (simp del: append_Cons contains_str.simps)
  then show ?thesis unfolding render_approval_prompt_def using f by (simp add: mail_tool_def)
qed

theorem input_hides_itself_witness: "render_approval_prompt mail_tool [(''to'', GStr ''bob{{'')] = []"
  by (rule input_hides_itself) (simp_all add: line_break_def has_prefix_def)

text \<open>A prompt the contract accepts, its field written with spaces.\<close>

definition spaced_tool :: tool_def where
  "spaced_tool = mail_tool\<lparr>td_prompt_template := ''Send to {{ to }}''\<rparr>"

lemma spaced_prompt: "render_approval_prompt spaced_tool to_ann = []"
  by code_simp

lemma spaced_parts:
  "td_id spaced_tool = td_id mail_tool" "model_name spaced_tool = model_name mail_tool" "td_action spaced_tool = td_action mail_tool"
  "td_requires_approval spaced_tool = td_requires_approval mail_tool" "td_read_only spaced_tool = td_read_only mail_tool"
  "td_needs_local_time spaced_tool = td_needs_local_time mail_tool" "td_input spaced_tool = td_input mail_tool"
  "td_approval_timeout spaced_tool = td_approval_timeout mail_tool" "td_once_for spaced_tool = td_once_for mail_tool"
  by (simp_all add: spaced_tool_def model_name_def)

text \<open>
  The contract and the prompt disagree on what a field is: \<^verbatim>\<open>ValidateTool\<close> accepts
  \<^verbatim>\<open>{{ to }}\<close> (with spaces) as a mention of the input \<^verbatim>\<open>to\<close>, but \<^verbatim>\<open>RenderApprovalPrompt\<close> fills in
  only \<^verbatim>\<open>{{to}}\<close> and then drops the line: a valid tool runs after a person agreed to an empty text.
\<close>

theorem approved_unseen:
  "validate_tool spaced_tool = [] \<and> prompt_fields (td_prompt_template spaced_tool) = [''to''] \<and>
   (let w = snd (gated spaced_tool None mail_executor 0 [] agreeing_ctx to_ann new_world) in
    EvAsked ''t1'' [] True \<in> set (w_events w) \<and> EvRan ''t1'' None [] ''send'' to_ann (GStr ''sent'') None \<in> set (w_events w))"
proof -
  have "validate_tool spaced_tool = []" by code_simp
  moreover have "prompt_fields (td_prompt_template spaced_tool) = [''to'']" by code_simp
  ultimately show ?thesis by (simp add: mail_eval spaced_parts spaced_prompt)
qed

section \<open>What can never be met\<close>

text \<open>
  Two rules of a creator can block an ability for good: the values a prerequisite compares are
  those of the call as the model made it, before fixed and default values are filled in. If an input
  named in \<^verbatim>\<open>Same\<close> is fixed (the model is not told of it and leaves it out), then after any runs
  of the first ability that had a value for it, the second one is still refused.
\<close>

theorem fixed_same_input_blocks:
  assumes rule: "q \<in> set (bd_needs b)" "pq_one_of q = []" "s \<in> set (pq_same q)"
    and fixed: "get_any inp s = GNil"
    and journal: "w_journal w = Some es" "\<forall>e \<in> set es. je_tool e = pq_first q \<longrightarrow> get_any (je_input e) s \<noteq> GNil"
  shows "\<not> done_result (fst (handler_of b cx inp w)) \<and> snd (handler_of b cx inp w) = w"
proof -
  have "\<not> journal_has (w_journal w) (pq_first q) (pq_same q) inp"
    using rule(3) fixed journal by (fastforce simp: journal_has_def entry_matches_def same_input_def)
  then have u: "unmet cx (w_journal w) inp q" using rule(2) by (simp add: unmet_def)
  obtain r w' where h: "handler_of b cx inp w = (r, w')" by fastforce
  then show ?thesis
  proof (cases rule: handler_cases)
    case early
    then show ?thesis using h by simp
  next
    case ready
    then show ?thesis using u rule(1) by blast
  qed
qed

definition fixed_to :: tool_rule where
  "fixed_to = \<lparr>tr_id = [], tr_tool_id = ''t2'', tr_input = ''to'', tr_with = [], tr_kind = RuleFixed,
     tr_value = GStr ''ann'', tr_message = []\<rparr>"

text \<open>Ann was written to; with \<^verbatim>\<open>to\<close> fixed to Ann, reminding her is still refused.\<close>

theorem fixed_same_input_blocks_witness:
  "normalize_rules [fixed_to] [(''t2'', remind_tool)] = Inr [fixed_to] \<and>
   get_any (apply_pins [fixed_to] []) ''to'' = GStr ''ann'' \<and>
   snd (handler_of (remind_binding\<lparr>bd_rules := [fixed_to]\<rparr>) agreeing_ctx [] mail_world) = mail_world \<and>
   \<not> done_result (fst (handler_of (remind_binding\<lparr>bd_rules := [fixed_to]\<rparr>) agreeing_ctx [] mail_world))"
proof -
  have "normalize_rules [fixed_to] [(''t2'', remind_tool)] = Inr [fixed_to]" by code_simp
  moreover have "get_any (apply_pins [fixed_to] []) ''to'' = GStr ''ann''" by code_simp
  moreover have "\<not> done_result (fst (handler_of (remind_binding\<lparr>bd_rules := [fixed_to]\<rparr>) agreeing_ctx [] mail_world)) \<and>
      snd (handler_of (remind_binding\<lparr>bd_rules := [fixed_to]\<rparr>) agreeing_ctx [] mail_world) = mail_world"
    by (rule fixed_same_input_blocks [where q = after_mail and s = "''to''" and es = "[\<lparr>je_tool = ''t1'', je_input = to_ann\<rparr>]"])
      (simp_all add: remind_binding_def after_mail_def mail_world_def to_ann_def)
  ultimately show ?thesis by blast
qed

end
