(* ===== verification/Rule_Claims.thy ===== *)
theory Rule_Claims
  imports Gate_Claims
begin

text \<open>
  The properties of the input check and of the creator's rules, with the tools and rules they are
  applied to.
\<close>

section \<open>The input check\<close>

text \<open>
  The input check decides exactly whether inputs keep the schema: what it lets through
  satisfies the declared schema (types, allowed values, nothing required missing or empty) and
  leaves every undeclared input as it was; checking again changes nothing; and inputs that already
  satisfy the schema pass unchanged, no others do.
\<close>

theorem input_check_exact:
  assumes "wf_schema s"
  shows "(\<forall>out. check_input s m = Inr out \<longrightarrow>
      input_conforms s out \<and> check_input s out = Inr out \<and>
      (\<forall>k. k \<notin> fst ` set (s_properties s) \<longrightarrow> gm_get out k = gm_get m k)) \<and>
    (check_input s m = Inr m \<longleftrightarrow> input_conforms s m)"
  using check_input_ok [OF assms] check_input_fixed by blast

definition count_schema :: schema where
  "count_schema = Schema TObject [] [(''n'', Schema TInteger [] [] None [] [])] None [''n''] []"

theorem input_check_exact_witness:
  "check_input count_schema [(''n'', GStr ''7''), (''x'', GNil)] = Inr [(''n'', GNum (Fin 7)), (''x'', GNil)] \<and>
   input_conforms count_schema [(''n'', GNum (Fin 7)), (''x'', GNil)]"
proof -
  have w: "wf_schema count_schema" by (simp add: count_schema_def)
  have c: "check_input count_schema [(''n'', GStr ''7''), (''x'', GNil)] = Inr [(''n'', GNum (Fin 7)), (''x'', GNil)]"
    by code_simp
  show ?thesis using input_check_exact [OF w, of "[(''n'', GStr ''7''), (''x'', GNil)]"] c by blast
qed

section \<open>The creator's rules\<close>

lemma accepted:
  assumes "normalize_rules given tools = Inr stored"
  shows "\<forall>r \<in> set stored. canonical r \<and> normalize_rule r (gm_get tools (tr_tool_id r)) = Inr r"
    and "distinct (slots is_pin stored)"
    and "length (rules_for stored t) \<le> max_rules_per_tool"
proof -
  obtain st where st: "rules_ok tools st" "rs_out st = stored" using normalize_rules_state [OF assms] by blast
  then show "\<forall>r \<in> set stored. canonical r \<and> normalize_rule r (gm_get tools (tr_tool_id r)) = Inr r"
    and "distinct (slots is_pin stored)" and "length (rules_for stored t) \<le> max_rules_per_tool"
    unfolding rules_ok_def by metis+
qed

text \<open>
  (C39) Rules are stored in one form, which enforcing them never fails on: whatever rules
  \<^verbatim>\<open>NormalizeRules\<close> accepts, each is its own canonical form, no input of a tool has two fixed or
  default values, a tool has at most twenty, and neither checking a call against them nor telling
  the model about them can panic, for any inputs.
\<close>

theorem accepted_rules_enforceable:
  assumes "normalize_rules given tools = Inr stored"
  shows "(\<forall>r \<in> set stored. normalize_rule r (gm_get tools (tr_tool_id r)) = Inr r) \<and>
    (\<forall>t. length (rules_for stored t) \<le> max_rules_per_tool \<and> distinct (map tr_input (filter is_pin (rules_for stored t))) \<and>
       (\<forall>inp. breaks (rules_for stored t) inp \<noteq> None) \<and> (\<forall>sp. spec_with_rules sp (rules_for stored t) \<noteq> None))"
proof -
  have c: "\<forall>r \<in> set (rules_for stored t). canonical r" for t using accepted(1) [OF assms] by (auto simp: rules_for_def)
  have "spec_with_rules sp (rules_for stored t) \<noteq> None" for sp t
    using fold_tell_canonical [OF c] by (simp add: spec_with_rules_def)
  then show ?thesis using accepted [OF assms] breaks_canonical [OF c] distinct_pins_of by blast
qed

theorem accepted_rules_enforceable_witness: "breaks [only_ann] [(''to'', GNil)] \<noteq> None"
proof -
  have "rules_for [only_ann] ''t1'' = [only_ann]" by (simp add: rules_for_def only_ann_def)
  then show ?thesis using accepted_rules_enforceable [OF only_ann_rules] by metis
qed

text \<open>
  The gate of the rules implements what the rules mean: for accepted rules, a call passes it
  exactly when every rule holds of its inputs (numbers within their limits, products too and with
  both numbers given, values in or not in their lists).
\<close>

theorem rules_gate_implements_rules:
  assumes "normalize_rules given tools = Inr stored" and "set rules \<subseteq> set stored"
  shows "breaks rules inp = Some [] \<longleftrightarrow> (\<forall>r \<in> set rules. obeys r inp)"
  using accepted(1) [OF assms(1)] assms(2) by (intro breaks_obeys) auto

theorem rules_gate_implements_rules_witness: "obeys only_ann to_ann \<and> \<not> obeys only_ann [(''to'', GStr ''bob'')]"
proof -
  have "breaks [only_ann] to_ann = Some []" "breaks [only_ann] [(''to'', GStr ''bob'')] \<noteq> Some []" by code_simp+
  then show ?thesis using rules_gate_implements_rules [OF only_ann_rules order_refl] by simp
qed

section \<open>Fixed and default values\<close>

lemma normalize_rule_value:
  assumes "normalize_rule r (Some def) = Inr r" and "is_pin r"
  obtains p where "detail def (tr_input r) = Some p" "conforms p (tr_value r)" "tr_value r \<noteq> GNil"
proof -
  obtain pr where pr: "detail def (trim_space (tr_input r)) = Some pr" "normalize_kind (tidied r) def pr = Inr r"
    using assms(1) by (auto simp: normalize_rule_ok_iff)
  have "tr_input r = trim_space (tr_input r)" "tr_kind r = tr_kind (tidied r)"
    using normalize_kind_parts [OF pr(2)] by simp_all
  moreover have "normalize_pin (tidied r) pr = Inr r" using pr(2) assms(2) by (auto simp: normalize_kind_def is_pin_def)
  then obtain cv where cv: "check_rule_value pr (tr_value (tidied r)) = Inr cv" "tidied r\<lparr>tr_value := cv\<rparr> = r"
    by (auto simp: normalize_pin_def split: sum.splits if_splits)
  have "tr_value (tidied r\<lparr>tr_value := cv\<rparr>) = tr_value r" by (simp only: cv(2))
  then have "tr_value r = cv" by simp
  then have "conforms pr (tr_value r) \<and> tr_value r \<noteq> GNil" using check_rule_value_conforms cv(1) by blast
  ultimately show ?thesis using that pr(1) by metis
qed

text \<open>What an input is after the fixed and default values are filled in.\<close>

lemma filled_in:
  assumes "distinct (map tr_input (filter is_pin rules))"
  shows "r \<in> set rules \<Longrightarrow> tr_kind r = RuleFixed \<Longrightarrow> gm_get (apply_pins rules m) (tr_input r) = Some (tr_value r)"
    and "r \<in> set rules \<Longrightarrow> tr_kind r = RuleDefault \<Longrightarrow> gm_get (apply_pins rules m) (tr_input r) =
        (if blank m (tr_input r) then Some (tr_value r) else gm_get m (tr_input r))"
    and "k \<notin> pin_names rules \<Longrightarrow> gm_get (apply_pins rules m) k = gm_get m k"
  using apply_pins_one [OF assms] apply_pins_other [of k rules m]
  by (simp_all add: is_pin_def apply_pin_def pin_names_def)

text \<open>
  Fixed and default values are filled in as the creator set them: an input with a fixed value
  has that value, whatever the call gave; one with a default has it when the call left it out, null
  or empty, and else what the call gave; every other input is as the call gave it.
\<close>

theorem pins_fill_in:
  assumes "normalize_rules given tools = Inr stored" and "rules = rules_for stored t"
  shows "(\<forall>r \<in> set rules. tr_kind r = RuleFixed \<longrightarrow> gm_get (apply_pins rules m) (tr_input r) = Some (tr_value r)) \<and>
    (\<forall>r \<in> set rules. tr_kind r = RuleDefault \<longrightarrow> gm_get (apply_pins rules m) (tr_input r) =
        (if blank m (tr_input r) then Some (tr_value r) else gm_get m (tr_input r))) \<and>
    (\<forall>k. k \<notin> pin_names rules \<longrightarrow> gm_get (apply_pins rules m) k = gm_get m k)"
  using filled_in distinct_pins_of [OF accepted(2) [OF assms(1)], of t] assms(2) by blast

definition fixed_ann :: tool_rule where
  "fixed_ann = \<lparr>tr_id = [], tr_tool_id = ''t1'', tr_input = ''to'', tr_with = [], tr_kind = RuleFixed,
     tr_value = GStr ''ann'', tr_message = []\<rparr>"

lemma fixed_ann_rules: "normalize_rules [fixed_ann] [(''t1'', mail_tool)] = Inr [fixed_ann]"
  by code_simp

lemma fixed_ann_for: "[fixed_ann] = rules_for [fixed_ann] ''t1''"
  by (simp add: rules_for_def fixed_ann_def)

theorem pins_fill_in_witness: "gm_get (apply_pins [fixed_ann] [(''to'', GStr ''bob'')]) ''to'' = Some (GStr ''ann'')"
  using pins_fill_in [OF fixed_ann_rules fixed_ann_for, of "[(''to'', GStr ''bob'')]"] by (simp add: fixed_ann_def)

text \<open>What the model is told of a tool's inputs.\<close>

lemma told_facts:
  assumes "spec_with_rules sp rules = Some sp'"
  shows "(\<forall>k. case gm_get (s_properties (ts_input sp')) k of
        None \<Rightarrow> gm_get (s_properties (ts_input sp)) k = None \<or> k \<in> fixed_names rules
      | Some q \<Rightarrow> k \<notin> fixed_names rules \<and> (\<exists>p. gm_get (s_properties (ts_input sp)) k = Some p \<and> same_shape p q)) \<and>
    set (s_required (ts_input sp')) = set (s_required (ts_input sp)) - pin_names rules"
proof (cases "rules = []")
  case True
  then show ?thesis using assms by (auto simp: spec_with_rules_def fixed_names_def pin_names_def split: option.split)
next
  case False
  then obtain t where t: "fold tell_rule rules (Some \<lparr>tl_props = s_properties (ts_input sp), tl_required = s_required (ts_input sp)\<rparr>) = Some t"
    "ts_input sp' = told_input (ts_input sp) t"
    using assms by (auto simp: spec_with_rules_def)
  have "told_so_far (ts_input sp) ([] @ rules) t" using told_start t(1) by (rule told_fold)
  then show ?thesis unfolding t(2) by (simp add: told_input_def told_so_far_def told_prop_def)
qed

lemma told_conforms:
  assumes told: "spec_with_rules (spec_of_tool def) rules = Some sp" and call: "input_conforms (ts_input sp) m"
    and k: "gm_get m k = Some w" "k \<notin> fixed_names rules" "gm_get (s_properties (td_input def)) k = Some p"
  shows "w \<noteq> GNil \<and> conforms p w"
proof -
  have "ts_input (spec_of_tool def) = td_input def" by (simp add: spec_of_tool_def)
  then have "case gm_get (s_properties (ts_input sp)) k of
        None \<Rightarrow> gm_get (s_properties (td_input def)) k = None \<or> k \<in> fixed_names rules
      | Some q \<Rightarrow> k \<notin> fixed_names rules \<and> (\<exists>p. gm_get (s_properties (td_input def)) k = Some p \<and> same_shape p q)"
    using told_facts [OF told] by metis
  then obtain q where q: "gm_get (s_properties (ts_input sp)) k = Some q" "same_shape p q"
    using k by (auto split: option.splits)
  have "(k, q) \<in> set (s_properties (ts_input sp))" using q(1) by (rule gm_get_in_set)
  then have "w \<noteq> GNil \<and> conforms q w" using call k(1) by (fastforce simp: input_conforms_def props_conform_def split: option.splits)
  then show ?thesis using same_shape_conforms [OF q(2)] by simp
qed

lemma default_not_fixed:
  assumes "distinct (map tr_input (filter is_pin rules))" "tr_kind r = RuleDefault" "r \<in> set rules"
  shows "tr_input r \<notin> fixed_names rules"
proof
  assume "tr_input r \<in> fixed_names rules"
  then obtain f where f: "f \<in> set rules" "tr_kind f = RuleFixed" "tr_input f = tr_input r" by (auto simp: fixed_names_def)
  then have "f = r" using assms by (auto simp: distinct_map is_pin_def dest: inj_onD)
  then show False using assms(2) f(2) by simp
qed

text \<open>Filled-in inputs satisfy the schema when the values of the rules do, and the call's own do.\<close>

lemma filled_props_conform:
  assumes d: "distinct (map tr_input (filter is_pin rules))" and wf: "wf_schema s"
    and val: "\<And>r p. r \<in> set rules \<Longrightarrow> is_pin r \<Longrightarrow> gm_get (s_properties s) (tr_input r) = Some p \<Longrightarrow>
      conforms p (tr_value r) \<and> tr_value r \<noteq> GNil"
    and given: "\<And>k p w. gm_get m k = Some w \<Longrightarrow> k \<notin> fixed_names rules \<Longrightarrow> gm_get (s_properties s) k = Some p \<Longrightarrow>
      w \<noteq> GNil \<and> conforms p w"
  shows "props_conform (s_properties s) (apply_pins rules m)"
  unfolding props_conform_def
proof
  note filled = filled_in [OF d]
  fix x assume "x \<in> set (s_properties s)"
  moreover obtain k p where x: "x = (k, p)" by fastforce
  moreover have "distinct (map fst (s_properties s))" using wf by (cases s) simp
  ultimately have p: "gm_get (s_properties s) k = Some p" by (simp add: gm_get_def)
  consider (fixed) r where "r \<in> set rules" "tr_kind r = RuleFixed" "tr_input r = k"
    | (default) r where "r \<in> set rules" "tr_kind r = RuleDefault" "tr_input r = k"
    | (free) "k \<notin> pin_names rules" by (auto simp: pin_names_def is_pin_def)
  then show "case gm_get (apply_pins rules m) (fst x) of None \<Rightarrow> True | Some w \<Rightarrow> w \<noteq> GNil \<and> conforms (snd x) w"
  proof cases
    case fixed
    then show ?thesis using filled(1) [of r m] val [of r p] p x by (auto simp: is_pin_def)
  next
    case default
    then show ?thesis using filled(2) [of r m] val [of r p] given [of k _ p] default_not_fixed [OF d, of r] p x
      by (auto simp: is_pin_def split: option.split)
  next
    case free
    moreover have "k \<notin> fixed_names rules" using free by (auto simp: pin_names_def fixed_names_def is_pin_def)
    ultimately show ?thesis using filled(3) [of k m] given [of k _ p] p x by (auto split: option.split)
  qed
qed

lemma filled_all_given:
  assumes d: "distinct (map tr_input (filter is_pin rules))"
    and val: "\<And>r. r \<in> set rules \<Longrightarrow> is_pin r \<Longrightarrow> tr_value r \<noteq> GNil \<and> tr_value r \<noteq> GStr []"
    and rest: "all_given req' m" "set req' = set req - pin_names rules"
  shows "all_given req (apply_pins rules m)"
  unfolding all_given_def
proof
  note filled = filled_in [OF d]
  fix k assume k: "k \<in> set req"
  show "\<not> missing (apply_pins rules m) k"
  proof (cases "k \<in> pin_names rules")
    case True
    then obtain r where r: "r \<in> set rules" "is_pin r" "tr_input r = k" by (auto simp: pin_names_def)
    then show ?thesis using filled(1,2) [of r m] val [of r]
      by (auto simp: is_pin_def missing_def get_any_def blank_def split: if_splits)
  next
    case False
    then have "\<not> missing m k" using rest k by (auto simp: all_given_def)
    then show ?thesis using filled(3) [of k m] False by (simp add: missing_def get_any_def)
  qed
qed

text \<open>
  What the model is told is enough: inputs that satisfy the schema the model sees (without the
  fixed inputs, with the ones that have a fixed or default value not required) pass the input check
  of the tool itself unchanged, once those values are filled in; no fixed or default value being the
  empty text.
\<close>

theorem told_inputs_pass:
  assumes stored: "normalize_rules given tools = Inr stored" and tool: "gm_get tools (td_id def) = Some def"
    and rules: "rules = rules_for stored (td_id def)" and told: "spec_with_rules (spec_of_tool def) rules = Some sp"
    and wf: "wf_schema (td_input def)" and some: "\<forall>r \<in> set rules. tr_value r \<noteq> GStr []"
    and call: "input_conforms (ts_input sp) m"
  shows "check_input (td_input def) (apply_pins rules m) = Inr (apply_pins rules m)"
proof (rule check_input_fixed)
  have d: "distinct (map tr_input (filter is_pin rules))"
    using distinct_pins_of [OF accepted(2) [OF stored]] by (simp add: rules)
  have own: "normalize_rule r (Some def) = Inr r" if "r \<in> set rules" for r
    using accepted(1) [OF stored] that tool by (auto simp: rules rules_for_def)
  have set_value: "tr_value r \<noteq> GNil \<and> tr_value r \<noteq> GStr []" if r: "r \<in> set rules" "is_pin r" for r
    using normalize_rule_value [OF own [OF r(1)] r(2)] some r(1) by metis
  have fits: "conforms p (tr_value r) \<and> tr_value r \<noteq> GNil"
    if r: "r \<in> set rules" "is_pin r" "gm_get (s_properties (td_input def)) (tr_input r) = Some p" for r p
  proof -
    obtain p' where "detail def (tr_input r) = Some p'" "conforms p' (tr_value r)" "tr_value r \<noteq> GNil"
      using normalize_rule_value [OF own [OF r(1)] r(2)] .
    then show ?thesis using r by (simp add: detail_def)
  qed
  have "props_conform (s_properties (td_input def)) (apply_pins rules m)"
    by (rule filled_props_conform [OF d wf]) (use fits told_conforms [OF told call] in blast)+
  moreover have "set (s_required (ts_input sp)) = set (s_required (td_input def)) - pin_names rules"
    using told_facts [OF told] by (simp add: spec_of_tool_def)
  then have "all_given (s_required (td_input def)) (apply_pins rules m)"
    using filled_all_given [OF d set_value, of "s_required (ts_input sp)" m] call by (simp add: input_conforms_def)
  ultimately show "input_conforms (td_input def) (apply_pins rules m)" by (simp add: input_conforms_def)
qed

theorem told_inputs_pass_witness:
  "\<exists>sp. spec_with_rules (spec_of_tool mail_tool) [fixed_ann] = Some sp \<and> gm_get (s_properties (ts_input sp)) ''to'' = None \<and>
     check_input (td_input mail_tool) (apply_pins [fixed_ann] []) = Inr [(''to'', GStr ''ann'')]"
proof -
  obtain sp where sp: "spec_with_rules (spec_of_tool mail_tool) [fixed_ann] = Some sp" "s_properties (ts_input sp) = []" "s_required (ts_input sp) = []"
    by (simp add: spec_with_rules_def fixed_ann_def tell_rule_def drop_required_def told_input_def spec_of_tool_def mail_tool_def gm_del_def
        AList.delete_eq)
  have "check_input (td_input mail_tool) (apply_pins [fixed_ann] []) = Inr (apply_pins [fixed_ann] [])"
    by (rule told_inputs_pass [OF fixed_ann_rules _ _ sp(1)])
      (simp_all add: mail_parts fixed_ann_for [symmetric] sp input_conforms_def props_conform_def all_given_def,
        simp_all add: mail_tool_def text_input_def fixed_ann_def)
  moreover have "apply_pins [fixed_ann] [] = [(''to'', GStr ''ann'')]" by (simp add: apply_pins_def apply_pin_def fixed_ann_def gm_set_def)
  ultimately show ?thesis using sp by simp
qed

definition fixed_empty :: tool_rule where
  "fixed_empty = fixed_ann\<lparr>tr_value := GStr []\<rparr>"

text \<open>
  An empty fixed value makes an ability useless: \<^verbatim>\<open>NormalizeRules\<close> accepts the empty text as
  the fixed value of a required input, and from then on the input check turns back every call.
\<close>

theorem empty_fixed_value_blocks:
  "normalize_rules [fixed_empty] [(''t1'', mail_tool)] = Inr [fixed_empty] \<and>
   (\<exists>e. check_input (td_input mail_tool) (apply_pins [fixed_empty] m) = Inl e)"
proof -
  have n: "normalize_rules [fixed_empty] [(''t1'', mail_tool)] = Inr [fixed_empty]" by code_simp
  have "get_any (apply_pins [fixed_empty] m) ''to'' = GStr []"
    by (simp add: apply_pins_def apply_pin_def fixed_empty_def fixed_ann_def)
  then have "\<exists>e. check_input (td_input mail_tool) (apply_pins [fixed_empty] m) = Inl e"
    by (simp add: check_input_def check_object_def finish_object_def mail_tool_def text_input_def note_missing_def missing_def
        has_problem_for_def)
  with n show ?thesis by blast
qed

end
