(* ===== verification/Leases.thy ===== *)
theory Leases
  imports Kael_Prelude "HOL-Library.Product_Lexorder"
begin

text \<open>
  What the inbox and the job queue promise their workers (the contract written on
  \<^verbatim>\<open>InboxQueue\<close> and \<^verbatim>\<open>JobStore\<close> in \<^verbatim>\<open>domain/pipeline.go\<close>), as an abstract machine: a row waits, is
  held by one worker until some time, or is over. The locale \<open>lease_table\<close> is the interface of a
  table of such rows; what is proved in it once holds of both tables. The theory also has the SQL
  both are written in: \<^verbatim>\<open>UPDATE ... WHERE\<close> and \<^verbatim>\<open>ORDER BY ... LIMIT\<close> on a list of rows.
\<close>

section \<open>Statements on a table\<close>

definition update_where :: "('r \<Rightarrow> bool) \<Rightarrow> ('r \<Rightarrow> 'r) \<Rightarrow> 'r list \<Rightarrow> 'r list" where
  "update_where P f rows = map (\<lambda>r. if P r then f r else r) rows"

definition first_by :: "('r \<Rightarrow> 'k::linorder) \<Rightarrow> int \<Rightarrow> ('r \<Rightarrow> bool) \<Rightarrow> 'r list \<Rightarrow> 'r list" where
  "first_by key limit P rows = take (nat limit) (sort_key key (filter P rows))"

definition row_at :: "('r \<Rightarrow> int) \<Rightarrow> 'r list \<Rightarrow> int \<Rightarrow> 'r option" where
  "row_at key rows i = find (\<lambda>r. key r = i) rows"

lemma set_first_by: "r \<in> set (first_by key limit P rows) \<Longrightarrow> r \<in> set rows \<and> P r"
  by (auto simp: first_by_def dest: in_set_takeD)

lemma distinct_first_by: "distinct (map g rows) \<Longrightarrow> distinct (map g (first_by key limit P rows))"
proof -
  assume "distinct (map g rows)"
  then have "distinct (map g (sort_key key (filter P rows)))" by (auto simp: distinct_map intro: inj_on_subset)
  then show ?thesis by (simp add: first_by_def take_map [symmetric] distinct_take)
qed

lemma row_at_update [queue_simps]:
  assumes "\<And>r. key (f r) = key r"
  shows "row_at key (update_where P f rows) i = map_option (\<lambda>r. if P r then f r else r) (row_at key rows i)"
  using assms by (induction rows) (auto simp: row_at_def update_where_def)

lemma map_update_where [queue_simps]: "(\<And>r. g (f r) = g r) \<Longrightarrow> map g (update_where P f rows) = map g rows"
  by (induction rows) (auto simp: update_where_def)

lemma set_update_where: "r \<in> set (update_where P f rows) \<Longrightarrow> \<exists>r0 \<in> set rows. r = (if P r0 then f r0 else r0)"
  by (auto simp: update_where_def)

lemma row_at_map: "(\<And>r. key (g r) = key r) \<Longrightarrow> row_at key (map g rows) i = map_option g (row_at key rows i)"
  by (induction rows) (auto simp: row_at_def)

lemma update_after_update:
  "update_where Q g (update_where P f rows) = map (\<lambda>r. let r1 = if P r then f r else r in if Q r1 then g r1 else r1) rows"
  by (simp add: update_where_def Let_def)

text \<open>A row whose key was chosen is one the statement's condition holds of.\<close>

lemma chosen:
  assumes "distinct (map key rows)" "r \<in> set rows" "key r \<in> key ` set (first_by k limit P rows)"
  shows "P r"
proof -
  obtain r' where r': "r' \<in> set rows" "P r'" "key r' = key r" using assms(3) by (auto dest: set_first_by)
  then have "r' = r" using assms(1,2) by (auto simp: distinct_map dest: inj_onD)
  then show ?thesis using r' by simp
qed

lemma row_at_mem: "row_at key rows i = Some r \<Longrightarrow> r \<in> set rows \<and> key r = i"
  by (auto simp: row_at_def find_Some_iff)

lemma row_at_None: "row_at key rows i = None \<longleftrightarrow> i \<notin> key ` set rows"
  by (auto simp: row_at_def find_None_iff)

lemma row_at_of_mem: "distinct (map key rows) \<Longrightarrow> r \<in> set rows \<Longrightarrow> row_at key rows (key r) = Some r"
  by (induction rows) (auto simp: row_at_def)

lemma row_at_append: "row_at key (xs @ ys) i = (case row_at key xs i of Some r \<Rightarrow> Some r | None \<Rightarrow> row_at key ys i)"
  by (induction xs) (auto simp: row_at_def)

lemma row_at_single: "row_at key [r] i = (if key r = i then Some r else None)"
  by (simp add: row_at_def)

lemma row_at_filter:
  "distinct (map key rows) \<Longrightarrow> row_at key (filter P rows) i = (case row_at key rows i of Some r \<Rightarrow> if P r then Some r else None | None \<Rightarrow> None)"
proof (induction rows)
  case (Cons x rows)
  then have "key x \<notin> key ` set rows" by auto
  then have "row_at key rows (key x) = None" by (simp add: row_at_None)
  with Cons show ?case by (auto simp: row_at_def split: option.split)
qed (simp add: row_at_def)

section \<open>The contract\<close>

datatype lease = Waiting | Held string int | Over

text \<open>Who acts: a worker, the operator who switches the pipeline off, or whoever adds and clears rows.\<close>

datatype actor = Worker string | Operator | Caretaker

inductive lease_step :: "int \<Rightarrow> actor \<Rightarrow> lease option \<Rightarrow> lease option \<Rightarrow> bool" for now who where
  stays: "lease_step now who l l"
| take_waiting: "who = Worker w \<Longrightarrow> lease_step now who (Some Waiting) (Some (Held w u))"
| take_over: "who = Worker w \<Longrightarrow> u0 < now \<Longrightarrow> lease_step now who (Some (Held w0 u0)) (Some (Held w u))"
| renew: "who = Worker w \<Longrightarrow> lease_step now who (Some (Held w u0)) (Some (Held w u))"
| give_back: "who = Worker w \<Longrightarrow> lease_step now who (Some (Held w u)) (Some Waiting)"
| finish: "who = Worker w \<Longrightarrow> lease_step now who (Some (Held w u)) (Some Over)"
| give_up: "u < now \<Longrightarrow> lease_step now who (Some (Held w u)) (Some Over)"
| clear: "lease_step now who (Some Over) None"
| switch_off: "who = Operator \<Longrightarrow> lease_step now who (Some l) (Some Over)"

inductive_cases lease_from_held: "lease_step now who (Some (Held w u)) l'"
inductive_cases lease_from_over: "lease_step now who (Some Over) l'"
inductive_cases lease_from_none: "lease_step now who None l'"

lemmas lease_intros = stays take_waiting take_over renew give_back finish give_up clear switch_off

text \<open>A statement that changes rows in place keeps to the contract when each row does.\<close>

lemma step_map:
  assumes "\<And>r. key (g r) = key r"
    and "\<And>r. r \<in> set rows \<Longrightarrow> lease_step now who (Some (l r)) (Some (l (g r)))"
  shows "lease_step now who (map_option l (row_at key rows i)) (map_option l (row_at key (map g rows) i))"
  using assms by (cases "row_at key rows i") (auto simp: row_at_map stays dest: row_at_mem)

lemma step_update:
  assumes "\<And>r. key (f r) = key r"
    and "\<And>r. r \<in> set rows \<Longrightarrow> P r \<Longrightarrow> lease_step now who (Some (l r)) (Some (l (f r)))"
  shows "lease_step now who (map_option l (row_at key rows i)) (map_option l (row_at key (update_where P f rows) i))"
  unfolding update_where_def by (rule step_map) (auto simp: assms stays)

lemma step_filter:
  assumes "distinct (map key rows)" and "\<And>r. r \<in> set rows \<Longrightarrow> \<not> P r \<Longrightarrow> l r = Over"
  shows "lease_step now who (map_option l (row_at key rows i)) (map_option l (row_at key (filter P rows) i))"
  using assms by (cases "row_at key rows i") (auto simp: row_at_filter stays clear dest: row_at_mem)

lemma step_append:
  assumes "i < n" "key r = n"
  shows "lease_step now who (map_option l (row_at key rows i)) (map_option l (row_at key (rows @ [r]) i))"
  using assms by (auto simp: row_at_append row_at_single stays split: option.split)

locale lease_table =
  fixes leases :: "'s \<Rightarrow> int \<Rightarrow> lease option"
    and fresh :: "'s \<Rightarrow> int"
    and exec :: "'op \<Rightarrow> int \<Rightarrow> 's \<Rightarrow> 's"
    and actor_of :: "'op \<Rightarrow> actor"
    and good :: "'s \<Rightarrow> bool"
  assumes refines: "good s \<Longrightarrow> i < fresh s \<Longrightarrow> lease_step now (actor_of op) (leases s i) (leases (exec op now s) i)"
    and absent: "good s \<Longrightarrow> fresh s \<le> i \<Longrightarrow> leases s i = None"
    and fresh_grows: "good s \<Longrightarrow> fresh s \<le> fresh (exec op now s)"
    and good_kept: "good s \<Longrightarrow> good (exec op now s)"
begin

definition run_ops :: "(int \<times> 'op) list \<Rightarrow> 's \<Rightarrow> 's" where
  "run_ops ops s = fold (\<lambda>(t, op). exec op t) ops s"

lemma run_ops_Nil [simp]: "run_ops [] s = s"
  by (simp add: run_ops_def)

lemma run_ops_Cons [simp]: "run_ops ((t, op) # ops) s = run_ops ops (exec op t s)"
  by (simp add: run_ops_def)

lemma run_ops_append: "run_ops (xs @ ys) s = run_ops ys (run_ops xs s)"
  by (simp add: run_ops_def)

lemma good_run: "good s \<Longrightarrow> good (run_ops ops s)"
  by (induction ops arbitrary: s) (auto simp: good_kept)

text \<open>A lease lasts until its end, or until its holder gives it up: nobody else can take the row.\<close>

lemma lease_lasts:
  assumes "good s" "leases s i = Some (Held w u)"
    and "\<forall>(t, op) \<in> set ops. t \<le> u \<and> actor_of op \<noteq> Worker w \<and> actor_of op \<noteq> Operator"
  shows "leases (run_ops ops s) i = Some (Held w u)"
  using assms
proof (induction ops arbitrary: s)
  case (Cons x ops)
  obtain t op where x: "x = (t, op)" by fastforce
  have "i < fresh s" using absent [OF Cons.prems(1), of i] Cons.prems(2) by (cases "i < fresh s") auto
  from refines [OF Cons.prems(1) this, of t op] have "leases (exec op t s) i = Some (Held w u)"
    unfolding Cons.prems(2) by (rule lease_from_held) (use Cons.prems(3) x in auto)
  then show ?case using Cons good_kept x by auto
qed simp

lemma handed_over:
  assumes "good s" "leases s i = Some (Held w u)" "leases (run_ops ops s) i = Some (Held w' u')" "w' \<noteq> w"
  shows "\<exists>(t, op) \<in> set ops. u < t \<or> actor_of op = Worker w \<or> actor_of op = Operator"
  using lease_lasts [OF assms(1,2), of ops] assms(3,4) by fastforce

text \<open>What is over stays over: it is never held again, and its id is never given out again.\<close>

lemma over_stays:
  assumes "good s" "i < fresh s" "leases s i \<in> {None, Some Over}"
  shows "leases (run_ops ops s) i \<in> {None, Some Over}"
  using assms
proof (induction ops arbitrary: s)
  case (Cons x ops)
  obtain t op where x: "x = (t, op)" by fastforce
  have "leases (exec op t s) i \<in> {None, Some Over}"
    using refines [OF Cons.prems(1,2), of t op] Cons.prems(3) by (auto elim: lease_from_over lease_from_none)
  moreover have "i < fresh (exec op t s)" using fresh_grows [OF Cons.prems(1), of op t] Cons.prems(2) by simp
  ultimately show ?case using Cons.IH [OF good_kept [OF Cons.prems(1)]] x by simp
qed simp

end

end
