(* ===== verification/Pipeline.thy ===== *)
theory Pipeline
  imports Go_Values
begin

text \<open>
  The terms of the events pipeline (\<^verbatim>\<open>domain/pipeline.go\<close>): occurrences, connections, jobs and the
  caps on them, how identifiers are compared and how long a failed try waits. Instants and
  durations are integers, in nanoseconds (\<^verbatim>\<open>time.Duration\<close>); an absent time is \<open>None\<close>.
\<close>

section \<open>What happened, and where it came from\<close>

record occurrence =
  oc_source :: string
  oc_connection :: string
  oc_delivery :: string
  oc_event :: string
  oc_facts :: args
  oc_subject_kind :: string
  oc_subject_value :: string
  oc_repeat_key :: string
  oc_received :: "int option"

record connection =
  cn_id :: string
  cn_route_key :: string
  cn_secret :: string
  cn_creator :: string

definition normalize_identifier :: "string \<Rightarrow> string \<Rightarrow> string" where
  "normalize_identifier kind value =
     (let v = trim_space value in if kind = ''github_account'' \<or> kind = ''email'' then to_lower v else v)"

section \<open>Trying again\<close>

definition second :: int where "second = 1000000000"

definition max_attempts :: int where "max_attempts = 6"

definition backoff_first :: int where "backoff_first = 30 * second"

definition backoff_limit :: int where "backoff_limit = 3600 * second"

text \<open>The loop, from \<open>n\<close> rounds left.\<close>

fun backoff_from :: "nat \<Rightarrow> int \<Rightarrow> int" where
  "backoff_from 0 d = d"
| "backoff_from (Suc n) d = (if d < backoff_limit then backoff_from n (d * 2) else d)"

definition backoff :: "int \<Rightarrow> int" where
  "backoff attempts = min backoff_limit (backoff_from (nat (attempts - 1)) backoff_first)"

section \<open>Jobs\<close>

definition level_notify :: "string" where "level_notify = ''notify''"
definition level_filter :: "string" where "level_filter = ''filter''"
definition level_agent :: "string" where "level_agent = ''agent''"

text \<open>\<open>jb_run_at\<close> is \<open>None\<close> for the zero time, \<open>jb_inbox\<close> and \<open>jb_max_attempts\<close> are 0 when not set.\<close>

record job =
  jb_id :: int
  jb_inbox :: int
  jb_alert :: string
  jb_person :: string
  jb_agent :: string
  jb_event :: string
  jb_repeat_key :: string
  jb_facts :: args
  jb_level :: string
  jb_run_at :: "int option"
  jb_attempts :: int
  jb_max_attempts :: int
  jb_shadow :: bool

text \<open>\<open>CapOther\<close> is any other string in a scope.\<close>

datatype cap_scope = CapAlert | CapPersonAgent | CapOther string

record job_cap =
  cap_scope :: cap_scope
  cap_window :: int
  cap_max :: int

datatype enqueue_result = JobQueued | JobDuplicate | JobOverCap job_cap

section \<open>What holds of them\<close>

lemma backoff_from_doubles: "min backoff_limit (backoff_from n d) = min backoff_limit (d * 2 ^ n)" if "0 < d"
  using that
proof (induction n arbitrary: d)
  case (Suc n)
  have pow: "d \<le> d * 2 ^ Suc n" using Suc.prems mult_left_mono [of 1 "2 ^ Suc n" d] by (simp add: one_le_power del: power_Suc)
  show ?case
  proof (cases "d < backoff_limit")
    case True
    then show ?thesis using Suc by (simp add: mult.assoc)
  next
    case False
    then show ?thesis using pow by (simp add: min_def)
  qed
qed simp

text \<open>30 seconds, doubling, never more than an hour.\<close>

lemma backoff_closed: "backoff a = min backoff_limit (backoff_first * 2 ^ nat (a - 1))"
  by (simp add: backoff_def backoff_from_doubles backoff_first_def second_def)

lemma backoff_bounds: "backoff_first \<le> backoff a" "backoff a \<le> backoff_limit"
  by (simp_all add: backoff_closed backoff_first_def backoff_limit_def second_def)

lemma backoff_mono: "a \<le> b \<Longrightarrow> backoff a \<le> backoff b"
proof -
  assume "a \<le> b"
  then have "(2::int) ^ nat (a - 1) \<le> 2 ^ nat (b - 1)" by (simp add: nat_mono)
  then show ?thesis by (simp add: backoff_closed backoff_first_def second_def min.coboundedI2 del: power_increasing_iff)
qed

end
