(* ===== verification/Job_Queue.thy ===== *)
theory Job_Queue
  imports Leases Pipeline
begin

text \<open>
  The jobs of the events pipeline (\<^verbatim>\<open>postgres/jobs.go\<close>): the table \<^verbatim>\<open>pipeline_jobs\<close> as a list of
  rows and each SQL statement as one step at the time \<^verbatim>\<open>NOW()\<close> gives it; an operation made of two
  statements outside a transaction has two times. What the database itself may fail at, and the
  reference of a job to its inbox row being cleared when that row is purged, are not modelled;
  durations become intervals exactly.
\<close>

section \<open>The table\<close>

datatype job_status = JNew | JRunning | JDone | JDropped | JFailed | JInterrupted | JShadow

record job_row =
  jr_id :: int
  jr_inbox :: "int option"
  jr_alert :: string
  jr_person :: string
  jr_agent :: string
  jr_event :: string
  jr_repeat_key :: string
  jr_facts :: args
  jr_level :: string
  jr_run_at :: int
  jr_status :: job_status
  jr_attempts :: int
  jr_max_attempts :: int
  jr_locked_by :: string
  jr_locked_until :: "int option"
  jr_note :: string
  jr_created :: int
  jr_finished :: "int option"
  jr_told :: "int option"

record job_table =
  jt_rows :: "job_row list"
  jt_next :: int

definition no_jobs :: job_table where
  "no_jobs = \<lparr>jt_rows = [], jt_next = 1\<rparr>"

section \<open>Storing a job\<close>

definition valid_level :: "string \<Rightarrow> bool" where
  "valid_level l \<longleftrightarrow> l = level_notify \<or> l = level_filter \<or> l = level_agent"

definition names_all :: "job \<Rightarrow> bool" where
  "names_all j \<longleftrightarrow> jb_alert j \<noteq> [] \<and> jb_person j \<noteq> [] \<and> jb_agent j \<noteq> [] \<and> jb_event j \<noteq> [] \<and> jb_repeat_key j \<noteq> []"

definition attempts_of :: "job \<Rightarrow> goerr + int" where
  "attempts_of j =
     (if jb_max_attempts j = 0 then Inr max_attempts
      else if jb_max_attempts j < 0 \<or> max_attempts < jb_max_attempts j
      then Inl (errorf (''postgres: enqueue job: '' @ itoa (jb_max_attempts j) @ '' attempts is not between 1 and '' @ itoa max_attempts))
      else Inr (jb_max_attempts j))"

definition start_status :: "job \<Rightarrow> job_status" where
  "start_status j = (if jb_shadow j then JShadow else JNew)"

definition row_of_job :: "int \<Rightarrow> int \<Rightarrow> int \<Rightarrow> job \<Rightarrow> job_row" where
  "row_of_job now i attempts j =
     \<lparr>jr_id = i, jr_inbox = (if jb_inbox j \<noteq> 0 then Some (jb_inbox j) else None), jr_alert = jb_alert j, jr_person = jb_person j,
      jr_agent = jb_agent j, jr_event = jb_event j, jr_repeat_key = jb_repeat_key j, jr_facts = jb_facts j, jr_level = jb_level j,
      jr_run_at = (case jb_run_at j of Some t \<Rightarrow> t | None \<Rightarrow> now), jr_status = start_status j, jr_attempts = 0, jr_max_attempts = attempts,
      jr_locked_by = [], jr_locked_until = None, jr_note = [], jr_created = now, jr_finished = None, jr_told = None\<rparr>"

definition add_job :: "int \<Rightarrow> int \<Rightarrow> job \<Rightarrow> job_table \<Rightarrow> job_table" where
  "add_job now attempts j tb =
     tb\<lparr>jt_rows := jt_rows tb @ [row_of_job now (jt_next tb) attempts j], jt_next := jt_next tb + 1\<rparr>"

definition has_job :: "string \<Rightarrow> string \<Rightarrow> job_table \<Rightarrow> bool" where
  "has_job alert repeat_key tb \<longleftrightarrow> (\<exists>r \<in> set (jt_rows tb). jr_alert r = alert \<and> jr_repeat_key r = repeat_key)"

text \<open>\<^verbatim>\<open>Enqueue\<close>: whether it was stored. A conflict takes an id from the sequence all the same.\<close>

definition enqueue :: "int \<Rightarrow> job \<Rightarrow> job_table \<Rightarrow> (goerr + bool) \<times> job_table" where
  "enqueue now j tb =
     (if \<not> names_all j then (Inl (errorf ''postgres: enqueue job: need an alert, person, agent, event and repeat key''), tb)
      else if \<not> valid_level (jb_level j) then (Inl (errorf (''postgres: enqueue job: '' @ go_quote (jb_level j) @ '' is not a level'')), tb)
      else case marshal_args (jb_facts j) of
        None \<Rightarrow> (Inl (errorf ''postgres: encode job facts: ''), tb)
      | Some _ \<Rightarrow>
         (case attempts_of j of
            Inl e \<Rightarrow> (Inl e, tb)
          | Inr attempts \<Rightarrow>
             (if has_job (jb_alert j) (jb_repeat_key j) tb then (Inr False, tb\<lparr>jt_next := jt_next tb + 1\<rparr>)
              else (Inr True, add_job now attempts j tb))))"

definition is_cap :: "job_cap \<Rightarrow> bool" where
  "is_cap c \<longleftrightarrow> (cap_scope c = CapAlert \<or> cap_scope c = CapPersonAgent) \<and> 0 < cap_window c \<and> 0 \<le> cap_max c"

text \<open>A shadow job is counted only against other shadow jobs, and a real one only against real ones.\<close>

definition counting_statuses :: "job \<Rightarrow> job_status list" where
  "counting_statuses j = (if jb_shadow j then [JShadow] else [JNew, JRunning, JDone, JInterrupted])"

definition in_scope :: "cap_scope \<Rightarrow> job \<Rightarrow> job_row \<Rightarrow> bool" where
  "in_scope sc j r \<longleftrightarrow> (if sc = CapAlert then jr_alert r = jb_alert j else jr_person r = jb_person j \<and> jr_agent r = jb_agent j)"

definition cap_count :: "int \<Rightarrow> job \<Rightarrow> job_cap \<Rightarrow> job_table \<Rightarrow> int" where
  "cap_count now j c tb =
     int (length (filter (\<lambda>r. in_scope (cap_scope c) j r \<and> jr_status r \<in> set (counting_statuses j) \<and> now - cap_window c < jr_created r) (jt_rows tb)))"

definition enqueue_capped :: "int \<Rightarrow> job \<Rightarrow> job_cap list \<Rightarrow> job_table \<Rightarrow> (goerr + enqueue_result) \<times> job_table" where
  "enqueue_capped now j caps tb =
     (if \<not> names_all j \<or> \<not> valid_level (jb_level j)
      then (Inl (errorf ''postgres: enqueue job: need an alert, person, agent, event, repeat key and a level''), tb)
      else if \<exists>c \<in> set caps. \<not> is_cap c then (Inl (errorf ''postgres: enqueue job: not a cap: ''), tb)
      else case marshal_args (jb_facts j) of
        None \<Rightarrow> (Inl (errorf ''postgres: encode job facts: ''), tb)
      | Some _ \<Rightarrow>
         (case attempts_of j of
            Inl e \<Rightarrow> (Inl e, tb)
          | Inr attempts \<Rightarrow>
             (if has_job (jb_alert j) (jb_repeat_key j) tb then (Inr JobDuplicate, tb)
              else case find (\<lambda>c. cap_max c \<le> cap_count now j c tb) caps of
                Some c \<Rightarrow> (Inr (JobOverCap c), tb)
              | None \<Rightarrow> (Inr JobQueued, add_job now attempts j tb))))"

section \<open>Handing jobs to workers\<close>

definition job_of_row :: "job_row \<Rightarrow> job" where
  "job_of_row r =
     \<lparr>jb_id = jr_id r, jb_inbox = (case jr_inbox r of Some i \<Rightarrow> i | None \<Rightarrow> 0), jb_alert = jr_alert r, jb_person = jr_person r,
      jb_agent = jr_agent r, jb_event = jr_event r, jb_repeat_key = jr_repeat_key r, jb_facts = jr_facts r, jb_level = jr_level r,
      jb_run_at = Some (jr_run_at r), jb_attempts = jr_attempts r, jb_max_attempts = jr_max_attempts r, jb_shadow = False\<rparr>"

text \<open>\<^verbatim>\<open>locked_until < NOW()\<close> and \<^verbatim>\<open>locked_until >= NOW()\<close>; neither holds of a null.\<close>

definition lock_ended :: "int \<Rightarrow> job_row \<Rightarrow> bool" where
  "lock_ended now r \<longleftrightarrow> (case jr_locked_until r of Some u \<Rightarrow> u < now | None \<Rightarrow> False)"

definition running_now :: "int \<Rightarrow> job_row \<Rightarrow> bool" where
  "running_now now r \<longleftrightarrow> jr_status r = JRunning \<and> (case jr_locked_until r of Some u \<Rightarrow> now \<le> u | None \<Rightarrow> False)"

definition cut_off :: "int \<Rightarrow> job_row \<Rightarrow> bool" where
  "cut_off now r \<longleftrightarrow> jr_status r = JRunning \<and> lock_ended now r \<and> jr_max_attempts r \<le> jr_attempts r"

definition interrupt :: "int \<Rightarrow> job_row \<Rightarrow> job_row" where
  "interrupt now r = r\<lparr>jr_status := JInterrupted, jr_locked_by := [], jr_locked_until := None, jr_finished := Some now,
     jr_note := ''interrupted: the worker stopped before it finished (start '' @ itoa (jr_attempts r) @ '' of '' @ itoa (jr_max_attempts r) @ '')''\<rparr>"

definition mark_interrupted :: "int \<Rightarrow> job_table \<Rightarrow> job_table" where
  "mark_interrupted now tb = tb\<lparr>jt_rows := update_where (cut_off now) (interrupt now) (jt_rows tb)\<rparr>"

definition job_due :: "int \<Rightarrow> job_row \<Rightarrow> bool" where
  "job_due now r \<longleftrightarrow> (jr_status r = JNew \<and> jr_run_at r \<le> now) \<or> (jr_status r = JRunning \<and> lock_ended now r)"

definition due_order :: "job_row \<Rightarrow> int \<times> int" where
  "due_order r = (jr_run_at r, jr_id r)"

definition hold_job :: "string \<Rightarrow> int \<Rightarrow> job_row \<Rightarrow> job_row" where
  "hold_job worker end r =
     r\<lparr>jr_status := JRunning, jr_attempts := jr_attempts r + 1, jr_locked_by := worker, jr_locked_until := Some end\<rparr>"

definition hand_out :: "string \<Rightarrow> int \<Rightarrow> job_row list \<Rightarrow> job_table \<Rightarrow> job list \<times> job_table" where
  "hand_out worker end picked tb =
     (map (job_of_row \<circ> hold_job worker end) picked,
      tb\<lparr>jt_rows := update_where (\<lambda>r. jr_id r \<in> jr_id ` set picked) (hold_job worker end) (jt_rows tb)\<rparr>)"

definition lease_jobs :: "int \<Rightarrow> int \<Rightarrow> string \<Rightarrow> int \<Rightarrow> int \<Rightarrow> job_table \<Rightarrow> job list \<times> job_table" where
  "lease_jobs first now worker limit hold tb =
     (if limit \<le> 0 then ([], tb)
      else let tb1 = mark_interrupted first tb
           in hand_out worker (now + hold) (first_by due_order limit (job_due now) (jt_rows tb1)) tb1)"

text \<open>\<^verbatim>\<open>ROW_NUMBER() OVER (PARTITION BY ... ORDER BY run_at, id)\<close> over the rows that are due.\<close>

definition row_number :: "int \<Rightarrow> (job_row \<Rightarrow> string) \<Rightarrow> job_row list \<Rightarrow> job_row \<Rightarrow> int" where
  "row_number now part rows r =
     int (length (filter (\<lambda>x. job_due now x \<and> part x = part r \<and> due_order x < due_order r) rows)) + 1"

definition busy :: "int \<Rightarrow> (job_row \<Rightarrow> string) \<Rightarrow> job_row list \<Rightarrow> string \<Rightarrow> int" where
  "busy now part rows p = int (length (filter (\<lambda>r. part r = p \<and> running_now now r) rows))"

definition has_room :: "int \<Rightarrow> int \<Rightarrow> int \<Rightarrow> job_row list \<Rightarrow> job_row \<Rightarrow> bool" where
  "has_room now per_person per_agent rows r \<longleftrightarrow>
     row_number now jr_person rows r + busy now jr_person rows (jr_person r) \<le> per_person \<and>
     (per_agent \<le> 0 \<or> row_number now jr_agent rows r + busy now jr_agent rows (jr_agent r) \<le> per_agent)"

definition lease_fair :: "int \<Rightarrow> int \<Rightarrow> string \<Rightarrow> int \<Rightarrow> int \<Rightarrow> int \<Rightarrow> int \<Rightarrow> job_table \<Rightarrow> job list \<times> job_table" where
  "lease_fair first now worker limit hold per_person per_agent tb =
     (if limit \<le> 0 \<or> per_person \<le> 0 then ([], tb)
      else let tb1 = mark_interrupted first tb; rows = jt_rows tb1
           in hand_out worker (now + hold)
                (first_by due_order limit (\<lambda>r. job_due now r \<and> has_room now per_person per_agent rows r) rows) tb1)"

section \<open>What the holder of a job does\<close>

definition held_by :: "int \<Rightarrow> string \<Rightarrow> job_row \<Rightarrow> bool" where
  "held_by i worker r \<longleftrightarrow> jr_id r = i \<and> jr_locked_by r = worker \<and> jr_status r = JRunning"

definition update_held :: "int \<Rightarrow> string \<Rightarrow> (job_row \<Rightarrow> job_row) \<Rightarrow> job_table \<Rightarrow> bool \<times> job_table" where
  "update_held i worker f tb =
     (length (filter (held_by i worker) (jt_rows tb)) = 1, tb\<lparr>jt_rows := update_where (held_by i worker) f (jt_rows tb)\<rparr>)"

definition extend_job :: "int \<Rightarrow> int \<Rightarrow> string \<Rightarrow> int \<Rightarrow> job_table \<Rightarrow> bool \<times> job_table" where
  "extend_job now i worker hold = update_held i worker (\<lambda>r. r\<lparr>jr_locked_until := Some (now + hold)\<rparr>)"

definition defer_job :: "int \<Rightarrow> string \<Rightarrow> int \<Rightarrow> job_table \<Rightarrow> bool \<times> job_table" where
  "defer_job i worker end = update_held i worker
     (\<lambda>r. r\<lparr>jr_status := JNew, jr_run_at := end, jr_attempts := max (jr_attempts r - 1) 0, jr_locked_by := [], jr_locked_until := None\<rparr>)"

definition release_job :: "int \<Rightarrow> string \<Rightarrow> job_table \<Rightarrow> bool \<times> job_table" where
  "release_job i worker = update_held i worker
     (\<lambda>r. r\<lparr>jr_status := JNew, jr_attempts := max (jr_attempts r - 1) 0, jr_locked_by := [], jr_locked_until := None\<rparr>)"

definition finish_job :: "int \<Rightarrow> int \<Rightarrow> string \<Rightarrow> job_status \<Rightarrow> string \<Rightarrow> job_table \<Rightarrow> bool \<times> job_table" where
  "finish_job now i worker st n = update_held i worker
     (\<lambda>r. r\<lparr>jr_status := st, jr_note := n, jr_locked_by := [], jr_locked_until := None, jr_finished := Some now\<rparr>)"

definition job_done :: "int \<Rightarrow> int \<Rightarrow> string \<Rightarrow> job_table \<Rightarrow> bool \<times> job_table" where
  "job_done now i worker = finish_job now i worker JDone []"

definition drop_job :: "int \<Rightarrow> int \<Rightarrow> string \<Rightarrow> string \<Rightarrow> job_table \<Rightarrow> bool \<times> job_table" where
  "drop_job now i worker n = finish_job now i worker JDropped n"

definition fail_final :: "int \<Rightarrow> int \<Rightarrow> string \<Rightarrow> string \<Rightarrow> job_table \<Rightarrow> bool \<times> job_table" where
  "fail_final now i worker n = finish_job now i worker JFailed n"

definition fail_job :: "int \<Rightarrow> int \<Rightarrow> string \<Rightarrow> string \<Rightarrow> int \<Rightarrow> job_table \<Rightarrow> bool \<times> job_table" where
  "fail_job now i worker n retry_after = update_held i worker
     (\<lambda>r. let out = jr_max_attempts r \<le> jr_attempts r in
        r\<lparr>jr_status := (if out then JFailed else JNew), jr_run_at := (if out then jr_run_at r else now + retry_after),
          jr_finished := (if out then Some now else None), jr_note := n, jr_locked_by := [], jr_locked_until := None\<rparr>)"

section \<open>Telling, clearing away, switching off\<close>

definition untold :: "job_row \<Rightarrow> bool" where
  "untold r \<longleftrightarrow> jr_status r = JInterrupted \<and> jr_told r = None"

definition take_interrupted :: "int \<Rightarrow> int \<Rightarrow> int \<Rightarrow> job_table \<Rightarrow> job list \<times> job_table" where
  "take_interrupted first now limit tb =
     (if limit \<le> 0 then ([], tb)
      else let tb1 = mark_interrupted first tb; picked = first_by jr_id limit untold (jt_rows tb1)
           in (map job_of_row picked,
               tb1\<lparr>jt_rows := update_where (\<lambda>r. jr_id r \<in> jr_id ` set picked) (\<lambda>r. r\<lparr>jr_told := Some now\<rparr>) (jt_rows tb1)\<rparr>))"

definition job_old :: "int \<Rightarrow> int \<Rightarrow> int \<Rightarrow> job_row \<Rightarrow> bool" where
  "job_old now keep keep_problems r \<longleftrightarrow>
     (let since = (case jr_finished r of Some t \<Rightarrow> t | None \<Rightarrow> jr_created r) in
      (jr_status r \<in> {JDone, JDropped, JShadow} \<and> since < now - keep) \<or>
      (jr_status r \<in> {JFailed, JInterrupted} \<and> since < now - keep_problems))"

definition purge_jobs :: "int \<Rightarrow> int \<Rightarrow> int \<Rightarrow> job_table \<Rightarrow> nat \<times> job_table" where
  "purge_jobs now keep keep_problems tb =
     (length (filter (job_old now keep keep_problems) (jt_rows tb)),
      tb\<lparr>jt_rows := filter (\<lambda>r. \<not> job_old now keep keep_problems r) (jt_rows tb)\<rparr>)"

definition live :: "job_row \<Rightarrow> bool" where
  "live r \<longleftrightarrow> jr_status r = JNew \<or> jr_status r = JRunning"

definition drop_live_jobs :: "int \<Rightarrow> string \<Rightarrow> job_table \<Rightarrow> nat \<times> job_table" where
  "drop_live_jobs now n tb =
     (length (filter live (jt_rows tb)),
      tb\<lparr>jt_rows := update_where live
        (\<lambda>r. r\<lparr>jr_status := JDropped, jr_note := n, jr_locked_by := [], jr_locked_until := None, jr_finished := Some now\<rparr>) (jt_rows tb)\<rparr>)"

definition job_status_text :: "job_status \<Rightarrow> string" where
  "job_status_text st = (case st of JNew \<Rightarrow> ''new'' | JRunning \<Rightarrow> ''running'' | JDone \<Rightarrow> ''done'' | JDropped \<Rightarrow> ''dropped''
     | JFailed \<Rightarrow> ''failed'' | JInterrupted \<Rightarrow> ''interrupted'' | JShadow \<Rightarrow> ''shadow'')"

definition job_counts :: "job_table \<Rightarrow> nat gomap" where
  "job_counts tb = fold (\<lambda>r m. let k = job_status_text (jr_status r) in
     gm_set k (Suc (case gm_get m k of Some n \<Rightarrow> n | None \<Rightarrow> 0)) m) (jt_rows tb) []"

section \<open>Every step on the table\<close>

text \<open>The last number of an operation in two statements is how long after the first the second runs.\<close>

datatype job_op =
    JbEnqueue job
  | JbEnqueueCapped job "job_cap list"
  | JbLease string int int nat
  | JbLeaseFair string int int int int nat
  | JbExtend int string int
  | JbDefer int string int
  | JbRelease int string
  | JbDone int string
  | JbDrop int string string
  | JbFailFinal int string string
  | JbFail int string string int
  | JbTakeInterrupted int nat
  | JbPurge int int
  | JbDropLive string

fun job_exec :: "job_op \<Rightarrow> int \<Rightarrow> job_table \<Rightarrow> job_table" where
  "job_exec (JbEnqueue j) now tb = snd (enqueue now j tb)"
| "job_exec (JbEnqueueCapped j caps) now tb = snd (enqueue_capped now j caps tb)"
| "job_exec (JbLease worker limit hold gap) now tb = snd (lease_jobs (now - int gap) now worker limit hold tb)"
| "job_exec (JbLeaseFair worker limit hold per_person per_agent gap) now tb =
     snd (lease_fair (now - int gap) now worker limit hold per_person per_agent tb)"
| "job_exec (JbExtend i worker hold) now tb = snd (extend_job now i worker hold tb)"
| "job_exec (JbDefer i worker end) now tb = snd (defer_job i worker end tb)"
| "job_exec (JbRelease i worker) now tb = snd (release_job i worker tb)"
| "job_exec (JbDone i worker) now tb = snd (job_done now i worker tb)"
| "job_exec (JbDrop i worker n) now tb = snd (drop_job now i worker n tb)"
| "job_exec (JbFailFinal i worker n) now tb = snd (fail_final now i worker n tb)"
| "job_exec (JbFail i worker n retry_after) now tb = snd (fail_job now i worker n retry_after tb)"
| "job_exec (JbTakeInterrupted limit gap) now tb = snd (take_interrupted (now - int gap) now limit tb)"
| "job_exec (JbPurge keep keep_problems) now tb = snd (purge_jobs now keep keep_problems tb)"
| "job_exec (JbDropLive n) now tb = snd (drop_live_jobs now n tb)"

fun job_actor :: "job_op \<Rightarrow> actor" where
  "job_actor (JbLease worker _ _ _) = Worker worker"
| "job_actor (JbLeaseFair worker _ _ _ _ _) = Worker worker"
| "job_actor (JbExtend _ worker _) = Worker worker"
| "job_actor (JbDefer _ worker _) = Worker worker"
| "job_actor (JbRelease _ worker) = Worker worker"
| "job_actor (JbDone _ worker) = Worker worker"
| "job_actor (JbDrop _ worker _) = Worker worker"
| "job_actor (JbFailFinal _ worker _) = Worker worker"
| "job_actor (JbFail _ worker _ _) = Worker worker"
| "job_actor (JbDropLive _) = Operator"
| "job_actor _ = Caretaker"

end
