(* ===== verification/Job_Facts.thy ===== *)
theory Job_Facts
  imports Job_Queue
begin

text \<open>
  The job queue keeps the contract of \<open>Leases\<close>: what every row satisfies, that every operation
  keeps it and is a step of the abstract machine, and the interpretation of the locale.
\<close>

section \<open>Well-formed tables\<close>

definition ended_status :: "job_status \<Rightarrow> bool" where
  "ended_status st \<longleftrightarrow> st \<in> {JDone, JDropped, JFailed, JInterrupted}"

definition job_row_ok :: "job_row \<Rightarrow> bool" where
  "job_row_ok r \<longleftrightarrow> (jr_status r = JRunning \<longleftrightarrow> jr_locked_until r \<noteq> None) \<and> (jr_status r \<noteq> JRunning \<longrightarrow> jr_locked_by r = []) \<and>
     0 \<le> jr_attempts r \<and> (jr_status r = JRunning \<longrightarrow> 1 \<le> jr_attempts r) \<and> 1 \<le> jr_max_attempts r \<and> jr_max_attempts r \<le> max_attempts \<and>
     (ended_status (jr_status r) \<longleftrightarrow> jr_finished r \<noteq> None) \<and> (jr_told r \<noteq> None \<longrightarrow> jr_status r = JInterrupted)"

definition occasion :: "job_row \<Rightarrow> string \<times> string" where
  "occasion r = (jr_alert r, jr_repeat_key r)"

definition job_good :: "job_table \<Rightarrow> bool" where
  "job_good tb \<longleftrightarrow> distinct (map jr_id (jt_rows tb)) \<and> distinct (map occasion (jt_rows tb)) \<and>
     (\<forall>r \<in> set (jt_rows tb). jr_id r < jt_next tb \<and> job_row_ok r)"

definition job_lease_of :: "job_row \<Rightarrow> lease" where
  "job_lease_of r = (case jr_status r of JNew \<Rightarrow> Waiting | JRunning \<Rightarrow> Held (jr_locked_by r) (the (jr_locked_until r)) | _ \<Rightarrow> Over)"

definition job_leases :: "job_table \<Rightarrow> int \<Rightarrow> lease option" where
  "job_leases tb i = map_option job_lease_of (row_at jr_id (jt_rows tb) i)"

text \<open>What no operation changes: which job it is, for whom, when it was made, how often it may start.\<close>

definition same_job :: "job_row \<Rightarrow> job_row \<Rightarrow> bool" where
  "same_job r r' \<longleftrightarrow> jr_id r' = jr_id r \<and> occasion r' = occasion r \<and> jr_person r' = jr_person r \<and> jr_agent r' = jr_agent r \<and>
     jr_created r' = jr_created r \<and> jr_max_attempts r' = jr_max_attempts r"

lemma job_good_map:
  assumes "job_good tb" and "\<And>r. same_job r (g r)" and "\<And>r. r \<in> set (jt_rows tb) \<Longrightarrow> job_row_ok r \<Longrightarrow> job_row_ok (g r)"
  shows "job_good (tb\<lparr>jt_rows := map g (jt_rows tb)\<rparr>)"
proof -
  have "map jr_id (map g rs) = map jr_id rs" "map occasion (map g rs) = map occasion rs" for rs
    using assms(2) by (simp_all add: same_job_def)
  then show ?thesis using assms by (auto simp: job_good_def same_job_def simp del: map_map)
qed

lemma job_good_update:
  assumes "job_good tb" and "\<And>r. same_job r (f r)" and "\<And>r. r \<in> set (jt_rows tb) \<Longrightarrow> P r \<Longrightarrow> job_row_ok r \<Longrightarrow> job_row_ok (f r)"
  shows "job_good (tb\<lparr>jt_rows := update_where P f (jt_rows tb)\<rparr>)"
  unfolding update_where_def by (rule job_good_map) (use assms in \<open>auto simp: same_job_def\<close>)

lemma row_unique: "job_good tb \<Longrightarrow> r \<in> set (jt_rows tb) \<Longrightarrow> r' \<in> set (jt_rows tb) \<Longrightarrow> jr_id r = jr_id r' \<Longrightarrow> r = r'"
  by (auto simp: job_good_def distinct_map dest: inj_onD)

section \<open>Handing out as one change of rows\<close>

definition picked_as :: "int \<Rightarrow> int \<Rightarrow> string \<Rightarrow> int \<Rightarrow> job_row \<Rightarrow> job_row \<Rightarrow> bool" where
  "picked_as before now worker end r r' \<longleftrightarrow> r' = r \<or> (cut_off before r \<and> r' = interrupt before r) \<or>
     (\<not> cut_off before r \<and> job_due now r \<and> r' = hold_job worker end r)"

lemma interrupt_parts [simp]: "jr_id (interrupt now r) = jr_id r" "occasion (interrupt now r) = occasion r"
  "jr_status (interrupt now r) = JInterrupted" "jr_locked_by (interrupt now r) = []" "jr_locked_until (interrupt now r) = None"
  "jr_finished (interrupt now r) = Some now" "jr_told (interrupt now r) = jr_told r" "jr_attempts (interrupt now r) = jr_attempts r"
  "jr_max_attempts (interrupt now r) = jr_max_attempts r" "jr_person (interrupt now r) = jr_person r" "jr_agent (interrupt now r) = jr_agent r"
  "jr_created (interrupt now r) = jr_created r" "same_job r (interrupt now r)"
  by (simp_all add: interrupt_def occasion_def same_job_def)

lemma hold_parts [simp]: "jr_id (hold_job w e r) = jr_id r" "occasion (hold_job w e r) = occasion r"
  "jr_status (hold_job w e r) = JRunning" "jr_locked_by (hold_job w e r) = w" "jr_locked_until (hold_job w e r) = Some e"
  "jr_finished (hold_job w e r) = jr_finished r" "jr_told (hold_job w e r) = jr_told r" "jr_attempts (hold_job w e r) = jr_attempts r + 1"
  "jr_max_attempts (hold_job w e r) = jr_max_attempts r" "jr_person (hold_job w e r) = jr_person r" "jr_agent (hold_job w e r) = jr_agent r"
  "jr_created (hold_job w e r) = jr_created r" "same_job r (hold_job w e r)"
  by (simp_all add: hold_job_def occasion_def same_job_def)

lemma mark_good: "job_good tb \<Longrightarrow> job_good (mark_interrupted now tb)"
  unfolding mark_interrupted_def
  by (rule job_good_update) (auto simp: cut_off_def job_row_ok_def ended_status_def)

lemma mark_parts [simp]: "jt_next (mark_interrupted now tb) = jt_next tb"
  "jt_rows (mark_interrupted now tb) = update_where (cut_off now) (interrupt now) (jt_rows tb)"
  by (simp_all add: mark_interrupted_def)

lemma hand_out_next [simp]: "jt_next (snd (hand_out worker end picked tb)) = jt_next tb"
  by (simp add: hand_out_def)

lemma hand_out_rows:
  assumes good: "job_good tb" and due: "\<And>r. P r \<Longrightarrow> job_due now r"
    and picked: "picked = first_by k limit P (jt_rows (mark_interrupted before tb))"
  obtains g where "jt_rows (snd (hand_out worker end picked (mark_interrupted before tb))) = map g (jt_rows tb)"
    "\<And>r. same_job r (g r)" "\<And>r. r \<in> set (jt_rows tb) \<Longrightarrow> picked_as before now worker end r (g r)"
proof -
  let ?Q = "\<lambda>r. jr_id r \<in> jr_id ` set picked"
  define g where "g r = (let r1 = if cut_off before r then interrupt before r else r in if ?Q r1 then hold_job worker end r1 else r1)" for r
  have rows: "jt_rows (snd (hand_out worker end picked (mark_interrupted before tb))) = map g (jt_rows tb)"
    unfolding g_def update_after_update [symmetric] by (simp add: hand_out_def)
  have kept: "same_job r (g r)" for r
    by (auto simp: g_def Let_def same_job_def)
  have d: "distinct (map jr_id (jt_rows (mark_interrupted before tb)))"
    using mark_good [OF good] by (simp add: job_good_def)
  have now: "job_due now r1" if "r1 \<in> set (jt_rows (mark_interrupted before tb))" "?Q r1" for r1
    using due [OF chosen [OF d that(1)]] that(2) picked by simp
  have "picked_as before now worker end r (g r)" if r: "r \<in> set (jt_rows tb)" for r
  proof (cases "cut_off before r")
    case True
    have "interrupt before r \<in> set (jt_rows (mark_interrupted before tb))" using r True by (force simp: update_where_def)
    then have "\<not> ?Q (interrupt before r)" using now [of "interrupt before r"] by (auto simp: job_due_def)
    then show ?thesis using True by (simp add: g_def picked_as_def)
  next
    case False
    have "r \<in> set (jt_rows (mark_interrupted before tb))" using r False by (force simp: update_where_def)
    then show ?thesis using False now [of r] by (simp add: g_def picked_as_def)
  qed
  with rows kept show ?thesis by (rule that)
qed

text \<open>Both ways of leasing hand out rows that are due.\<close>

lemma lease_rows:
  assumes "job_good tb"
  obtains g where "jt_rows (snd (lease_jobs before now worker limit hold tb)) = map g (jt_rows tb)"
    "\<And>r. same_job r (g r)" "\<And>r. r \<in> set (jt_rows tb) \<Longrightarrow> picked_as before now worker (now + hold) r (g r)"
proof (cases "limit \<le> 0")
  case True
  show ?thesis by (rule that [of "\<lambda>r. r"]) (simp_all add: True lease_jobs_def same_job_def picked_as_def)
next
  case False
  have "lease_jobs before now worker limit hold tb =
      hand_out worker (now + hold) (first_by due_order limit (job_due now) (jt_rows (mark_interrupted before tb))) (mark_interrupted before tb)"
    using False by (simp add: lease_jobs_def Let_def)
  then show ?thesis
    using hand_out_rows [OF assms, of "job_due now" now _ due_order limit before worker "now + hold"] that by metis
qed

lemma lease_fair_rows:
  assumes "job_good tb"
  obtains g where "jt_rows (snd (lease_fair before now worker limit hold per_person per_agent tb)) = map g (jt_rows tb)"
    "\<And>r. same_job r (g r)" "\<And>r. r \<in> set (jt_rows tb) \<Longrightarrow> picked_as before now worker (now + hold) r (g r)"
proof (cases "limit \<le> 0 \<or> per_person \<le> 0")
  case True
  show ?thesis by (rule that [of "\<lambda>r. r"]) (use True in \<open>simp_all add: lease_fair_def same_job_def picked_as_def\<close>)
next
  case False
  let ?P = "\<lambda>r. job_due now r \<and> has_room now per_person per_agent (jt_rows (mark_interrupted before tb)) r"
  have "lease_fair before now worker limit hold per_person per_agent tb =
      hand_out worker (now + hold) (first_by due_order limit ?P (jt_rows (mark_interrupted before tb))) (mark_interrupted before tb)"
    using False by (simp add: lease_fair_def Let_def)
  then show ?thesis
    using hand_out_rows [OF assms, of ?P now _ due_order limit before worker "now + hold"] that by metis
qed

lemma picked_cases:
  assumes "picked_as before now worker end r r'"
  obtains (kept) "r' = r" | (ended) "cut_off before r" "r' = interrupt before r"
    | (handed) "\<not> cut_off before r" "job_due now r" "r' = hold_job worker end r"
  using assms by (auto simp: picked_as_def)

lemma picked_ok: "picked_as before now worker end r r' \<Longrightarrow> job_row_ok r \<Longrightarrow> job_row_ok r'"
  by (erule picked_cases) (auto simp: job_row_ok_def ended_status_def job_due_def cut_off_def)

lemma picked_step:
  assumes "picked_as (now - int gap) now worker end r r'" "job_row_ok r"
  shows "lease_step now (Worker worker) (Some (job_lease_of r)) (Some (job_lease_of r'))"
  using assms(1)
proof (cases rule: picked_cases)
  case ended
  then show ?thesis by (auto simp: cut_off_def lock_ended_def job_lease_of_def split: option.splits intro!: give_up)
next
  case handed
  then show ?thesis by (auto simp: job_due_def lock_ended_def job_lease_of_def split: option.splits intro!: take_waiting take_over)
qed (simp add: stays)

section \<open>Every operation keeps the tables well formed\<close>

lemma add_job_good:
  assumes "job_good tb" "\<not> has_job (jb_alert j) (jb_repeat_key j) tb" "attempts_of j = Inr n"
  shows "job_good (add_job now n j tb)"
proof -
  have "1 \<le> n \<and> n \<le> max_attempts" using assms(3) by (auto simp: attempts_of_def max_attempts_def split: if_splits)
  then have "job_row_ok (row_of_job now (jt_next tb) n j)"
    by (simp add: job_row_ok_def row_of_job_def start_status_def ended_status_def)
  then show ?thesis using assms(1,2)
    by (fastforce simp: job_good_def add_job_def row_of_job_def has_job_def occasion_def)
qed

lemma job_good_next: "job_good tb \<Longrightarrow> jt_next tb \<le> n \<Longrightarrow> job_good (tb\<lparr>jt_next := n\<rparr>)"
  by (fastforce simp: job_good_def)

lemma enqueue_good: "job_good tb \<Longrightarrow> job_good (snd (enqueue now j tb))"
  by (auto simp: enqueue_def intro!: add_job_good job_good_next split: option.split sum.split)

lemma enqueue_capped_good: "job_good tb \<Longrightarrow> job_good (snd (enqueue_capped now j caps tb))"
  by (auto simp: enqueue_capped_def intro!: add_job_good split: option.split sum.split)

lemma picked_good:
  assumes "job_good tb" "jt_rows tb' = map g (jt_rows tb)" "jt_next tb' = jt_next tb" "\<And>r. same_job r (g r)"
    "\<And>r. r \<in> set (jt_rows tb) \<Longrightarrow> picked_as before now worker end r (g r)"
  shows "job_good tb'"
proof -
  have "job_good (tb\<lparr>jt_rows := map g (jt_rows tb)\<rparr>)"
    by (rule job_good_map [OF assms(1,4)]) (use picked_ok assms(5) in blast)
  then show ?thesis using assms(2,3) by (simp add: job_good_def)
qed

lemma lease_next [simp]: "jt_next (snd (lease_jobs before now worker limit hold tb)) = jt_next tb"
  "jt_next (snd (lease_fair before now worker limit hold per_person per_agent tb)) = jt_next tb"
  by (simp_all add: lease_jobs_def lease_fair_def Let_def)

lemma update_held_good:
  assumes "job_good tb" "\<And>r. same_job r (f r)" "\<And>r. job_row_ok r \<Longrightarrow> jr_status r = JRunning \<Longrightarrow> job_row_ok (f r)"
  shows "job_good (snd (update_held i worker f tb))"
  unfolding update_held_def snd_conv by (rule job_good_update) (use assms in \<open>auto simp: held_by_def\<close>)

lemma take_interrupted_good:
  assumes "job_good tb"
  shows "job_good (snd (take_interrupted before now limit tb))"
proof (cases "limit \<le> 0")
  case False
  let ?picked = "first_by jr_id limit untold (jt_rows (mark_interrupted before tb))"
  have good: "job_good (mark_interrupted before tb)" by (rule mark_good [OF assms])
  have d: "distinct (map jr_id (jt_rows (mark_interrupted before tb)))" using good unfolding job_good_def by blast
  have "job_good (mark_interrupted before tb\<lparr>jt_rows := update_where (\<lambda>r. jr_id r \<in> jr_id ` set ?picked) (\<lambda>r. r\<lparr>jr_told := Some now\<rparr>)
      (jt_rows (mark_interrupted before tb))\<rparr>)"
  proof (rule job_good_update [OF good])
    fix r assume r: "r \<in> set (jt_rows (mark_interrupted before tb))" "jr_id r \<in> jr_id ` set ?picked" "job_row_ok r"
    have "untold r" by (rule chosen [OF d r(1,2)])
    then show "job_row_ok (r\<lparr>jr_told := Some now\<rparr>)" using r(3) by (simp add: job_row_ok_def untold_def)
  qed (simp add: same_job_def occasion_def)
  then show ?thesis using False by (simp add: take_interrupted_def Let_def)
qed (simp add: take_interrupted_def assms)

lemmas held_ops = extend_job_def defer_job_def release_job_def job_done_def drop_job_def fail_final_def finish_job_def fail_job_def

lemma job_exec_good: "job_good tb \<Longrightarrow> job_good (job_exec op now tb)"
proof (cases op)
  case (JbLease worker limit hold gap)
  assume good: "job_good tb"
  show ?thesis unfolding JbLease job_exec.simps
    by (rule lease_rows [OF good]) (rule picked_good [OF good _ lease_next(1)])
next
  case (JbLeaseFair worker limit hold per_person per_agent gap)
  assume good: "job_good tb"
  show ?thesis unfolding JbLeaseFair job_exec.simps
    by (rule lease_fair_rows [OF good]) (rule picked_good [OF good _ lease_next(2)])
next
  case (JbPurge keep keep_problems)
  assume "job_good tb"
  then show ?thesis by (auto simp: JbPurge purge_jobs_def job_good_def distinct_map_filter)
next
  case (JbDropLive n)
  assume "job_good tb"
  then show ?thesis unfolding JbDropLive job_exec.simps drop_live_jobs_def snd_conv
    by (rule job_good_update) (auto simp: same_job_def occasion_def live_def job_row_ok_def ended_status_def)
qed (auto simp: enqueue_good enqueue_capped_good take_interrupted_good held_ops job_row_ok_def ended_status_def same_job_def occasion_def Let_def
    intro!: update_held_good)

section \<open>Every operation is a step of the abstract machine\<close>

lemma lease_of_add:
  "i < jt_next tb \<Longrightarrow> job_leases (add_job now n j tb) i = job_leases tb i"
  by (simp add: job_leases_def add_job_def row_at_append row_at_single row_of_job_def split: option.split)

lemma update_held_step:
  assumes "\<And>r. jr_id (f r) = jr_id r"
    and "\<And>r. jr_status r = JRunning \<Longrightarrow> jr_locked_by r = worker \<Longrightarrow>
      lease_step now (Worker worker) (Some (job_lease_of r)) (Some (job_lease_of (f r)))"
  shows "lease_step now (Worker worker) (job_leases tb i) (job_leases (snd (update_held k worker f tb)) i)"
proof -
  have "jt_rows (snd (update_held k worker f tb)) = update_where (held_by k worker) f (jt_rows tb)"
    by (simp add: update_held_def)
  then show ?thesis unfolding job_leases_def
    by (simp only:, intro step_update) (use assms in \<open>auto simp: held_by_def\<close>)
qed

lemma picked_table_step:
  assumes "job_good tb" "jt_rows tb' = map g (jt_rows tb)" "\<And>r. same_job r (g r)"
    "\<And>r. r \<in> set (jt_rows tb) \<Longrightarrow> picked_as (now - int gap) now worker end r (g r)"
  shows "lease_step now (Worker worker) (job_leases tb i) (job_leases tb' i)"
  unfolding job_leases_def assms(2)
  by (rule step_map) (use assms in \<open>auto simp: same_job_def job_good_def intro!: picked_step\<close>)

lemma take_interrupted_step:
  assumes "job_good tb"
  shows "lease_step now who (job_leases tb i) (job_leases (snd (take_interrupted (now - int gap) now limit tb)) i)"
proof (cases "limit \<le> 0")
  case False
  have same: "map_option job_lease_of (row_at jr_id (update_where Q (\<lambda>r. r\<lparr>jr_told := Some now\<rparr>) rows) i) =
      map_option job_lease_of (row_at jr_id rows i)" for Q rows
    by (cases "row_at jr_id rows i") (auto simp: row_at_update job_lease_of_def split: job_status.split)
  have "lease_step now who (job_leases tb i) (map_option job_lease_of (row_at jr_id (update_where (cut_off (now - int gap)) (interrupt (now - int gap)) (jt_rows tb)) i))"
    unfolding job_leases_def
    by (rule step_update) (auto simp: cut_off_def lock_ended_def job_lease_of_def split: option.splits intro!: give_up)
  then show ?thesis using False by (simp add: job_leases_def take_interrupted_def Let_def same)
qed (simp add: take_interrupted_def stays)

lemma job_exec_step:
  assumes good: "job_good tb" and i: "i < jt_next tb"
  shows "lease_step now (job_actor op) (job_leases tb i) (job_leases (job_exec op now tb) i)"
proof (cases op)
  case (JbEnqueue j)
  then show ?thesis using i
    by (auto simp: enqueue_def lease_of_add stays split: option.split sum.split) (simp add: job_leases_def stays)
next
  case (JbEnqueueCapped j caps)
  then show ?thesis using i by (auto simp: enqueue_capped_def lease_of_add stays split: option.split sum.split)
next
  case (JbLease worker limit hold gap)
  show ?thesis unfolding JbLease job_exec.simps job_actor.simps
    by (rule lease_rows [OF good]) (rule picked_table_step [OF good])
next
  case (JbLeaseFair worker limit hold per_person per_agent gap)
  show ?thesis unfolding JbLeaseFair job_exec.simps job_actor.simps
    by (rule lease_fair_rows [OF good]) (rule picked_table_step [OF good])
next
  case (JbTakeInterrupted limit gap)
  then show ?thesis using take_interrupted_step [OF good] by simp
next
  case (JbPurge keep keep_problems)
  then show ?thesis using good unfolding job_leases_def
    by (auto simp: purge_jobs_def job_good_def job_old_def job_lease_of_def Let_def intro!: step_filter)
next
  case (JbDropLive n)
  have "jt_rows (snd (drop_live_jobs now n tb)) = update_where live
      (\<lambda>r. r\<lparr>jr_status := JDropped, jr_note := n, jr_locked_by := [], jr_locked_until := None, jr_finished := Some now\<rparr>) (jt_rows tb)"
    by (simp add: drop_live_jobs_def)
  then show ?thesis unfolding JbDropLive job_exec.simps job_actor.simps job_leases_def
    by (simp only:, intro step_update) (auto simp: job_lease_of_def intro: switch_off)
qed (auto simp: held_ops job_lease_of_def Let_def intro!: update_held_step intro: give_back finish renew)

lemma next_grows: "jt_next tb \<le> jt_next (job_exec op now tb)"
  by (cases op) (auto simp: enqueue_def enqueue_capped_def add_job_def held_ops update_held_def take_interrupted_def purge_jobs_def
      drop_live_jobs_def Let_def split: option.split sum.split)

interpretation job_queue: lease_table job_leases jt_next job_exec job_actor job_good
proof
  fix s :: job_table and op now i
  assume good: "job_good s"
  show "i < jt_next s \<Longrightarrow> lease_step now (job_actor op) (job_leases s i) (job_leases (job_exec op now s) i)"
    by (rule job_exec_step [OF good])
  show "jt_next s \<le> i \<Longrightarrow> job_leases s i = None"
    using good by (fastforce simp: job_leases_def row_at_None job_good_def)
  show "jt_next s \<le> jt_next (job_exec op now s)" by (rule next_grows)
  show "job_good (job_exec op now s)" using good by (rule job_exec_good)
qed

end
