(* ===== verification/Job_Runs.thy ===== *)
theory Job_Runs
  imports Job_Facts
begin

text \<open>
  Runs of the job queue: the tables that can be reached, and the facts about them the claims rest
  on (attempts, caps, fair shares, leases that come to an end).
\<close>

section \<open>Reachable tables\<close>

text \<open>\<open>job_reach P tb t\<close>: the table at time \<open>t\<close>, after operations that all satisfy \<open>P\<close>.\<close>

inductive job_reach :: "(job_op \<Rightarrow> bool) \<Rightarrow> job_table \<Rightarrow> int \<Rightarrow> bool" for P where
  empty: "job_reach P no_jobs t"
| step: "job_reach P tb t \<Longrightarrow> t \<le> t' \<Longrightarrow> P op \<Longrightarrow> job_reach P (job_exec op t' tb) t'"

definition run_jobs :: "(int \<times> job_op) list \<Rightarrow> job_table \<Rightarrow> job_table" where
  "run_jobs ops tb = fold (\<lambda>(t, op). job_exec op t) ops tb"

lemma run_jobs_simps [simp]: "run_jobs [] tb = tb" "run_jobs ((t, op) # ops) tb = run_jobs ops (job_exec op t tb)"
  by (simp_all add: run_jobs_def)

lemma run_jobs_queue: "run_jobs = job_queue.run_ops"
  by (intro ext) (simp add: run_jobs_def job_queue.run_ops_def)

lemma no_jobs_good: "job_good no_jobs"
  by (simp add: job_good_def no_jobs_def)

lemma reach_good: "job_reach P tb t \<Longrightarrow> job_good tb"
  by (induction rule: job_reach.induct) (auto intro: job_exec_good no_jobs_good)

section \<open>What an operation does to the rows there were\<close>

fun stores :: "job_op \<Rightarrow> bool" where
  "stores (JbEnqueue j) = True"
| "stores (JbEnqueueCapped j caps) = True"
| "stores op = False"

definition counted :: "job_status \<Rightarrow> bool" where
  "counted st \<longleftrightarrow> st \<in> {JNew, JRunning, JDone, JInterrupted}"

text \<open>A row keeps being the job it is; what was not counted is not counted later; shadows stay shadows.\<close>

definition onward :: "job_row \<Rightarrow> job_row \<Rightarrow> bool" where
  "onward r r' \<longleftrightarrow> same_job r r' \<and> (counted (jr_status r') \<longrightarrow> counted (jr_status r)) \<and> (jr_status r' = JShadow \<longrightarrow> jr_status r = JShadow)"

lemma onward_refl [simp]: "onward r r"
  by (simp add: onward_def same_job_def)

lemma onward_trans: "onward r r1 \<Longrightarrow> onward r1 r2 \<Longrightarrow> onward r r2"
  by (simp add: onward_def same_job_def)

lemma onward_picked: "picked_as before now worker end r r' \<Longrightarrow> onward r r'"
  by (erule picked_cases) (auto simp: onward_def counted_def cut_off_def job_due_def)

definition rows_onward :: "job_row list \<Rightarrow> job_row list \<Rightarrow> bool" where
  "rows_onward ys xs \<longleftrightarrow> (\<exists>g Q. xs = map g (filter Q ys) \<and> (\<forall>r \<in> set ys. onward r (g r)))"

lemma rows_map: "xs = map g ys \<Longrightarrow> (\<And>r. r \<in> set ys \<Longrightarrow> onward r (g r)) \<Longrightarrow> rows_onward ys xs"
  unfolding rows_onward_def by (rule exI [of _ g], rule exI [of _ "\<lambda>_. True"]) simp

lemma rows_same [simp]: "rows_onward ys ys"
  by (rule rows_map [of _ "\<lambda>r. r"]) simp_all

lemma rows_filter: "rows_onward ys (filter Q ys)"
  unfolding rows_onward_def by (rule exI [of _ "\<lambda>r. r"], rule exI [of _ Q]) simp

lemma rows_update: "(\<And>r. r \<in> set ys \<Longrightarrow> P r \<Longrightarrow> onward r (f r)) \<Longrightarrow> rows_onward ys (update_where P f ys)"
  unfolding update_where_def by (rule rows_map [OF refl]) auto

lemma rows_update_twice: "(\<And>r. r \<in> set ys \<Longrightarrow> P r \<Longrightarrow> onward r (f r)) \<Longrightarrow> (\<And>r. onward r (h r)) \<Longrightarrow>
    rows_onward ys (update_where R h (update_where P f ys))"
  unfolding update_after_update Let_def
  by (rule rows_map [OF refl]) (auto intro: onward_trans)

lemma rows_onward_held:
  assumes "\<And>r. jr_status r = JRunning \<Longrightarrow> onward r (f r)"
  shows "rows_onward (jt_rows tb) (jt_rows (snd (update_held i worker f tb)))"
  by (auto simp: update_held_def held_by_def intro!: rows_update assms)

lemma rows_onward_interrupted: "rows_onward (jt_rows tb) (jt_rows (snd (take_interrupted before now limit tb)))"
proof (cases "limit \<le> 0")
  case True
  then show ?thesis by (simp add: take_interrupted_def)
next
  case False
  have "onward r (r\<lparr>jr_told := Some now\<rparr>)" for r
    by (simp add: onward_def same_job_def occasion_def)
  moreover have "cut_off before r \<Longrightarrow> onward r (interrupt before r)" for r
    by (simp add: onward_def counted_def cut_off_def)
  ultimately show ?thesis using False by (simp add: take_interrupted_def Let_def rows_update_twice)
qed

lemma rows_onward_exec:
  assumes good: "job_good tb" and op: "\<not> stores op"
  shows "rows_onward (jt_rows tb) (jt_rows (job_exec op now tb))"
  using op
proof (cases op)
  case (JbLease worker limit hold gap)
  show ?thesis unfolding JbLease job_exec.simps
    by (rule lease_rows [OF good]) (rule rows_map, assumption, rule onward_picked, blast)
next
  case (JbLeaseFair worker limit hold per_person per_agent gap)
  show ?thesis unfolding JbLeaseFair job_exec.simps
    by (rule lease_fair_rows [OF good]) (rule rows_map, assumption, rule onward_picked, blast)
next
  case (JbTakeInterrupted limit gap)
  then show ?thesis using rows_onward_interrupted by simp
next
  case (JbPurge keep keep_problems)
  show ?thesis by (simp add: JbPurge purge_jobs_def rows_filter)
next
  case (JbDropLive n)
  have "live r \<Longrightarrow> onward r (r\<lparr>jr_status := JDropped, jr_note := n, jr_locked_by := [], jr_locked_until := None, jr_finished := Some now\<rparr>)" for r
    by (simp add: onward_def same_job_def occasion_def counted_def)
  then show ?thesis unfolding JbDropLive by (simp add: drop_live_jobs_def rows_update)
qed (auto simp: held_ops onward_def same_job_def occasion_def counted_def Let_def intro!: rows_onward_held)

section \<open>Attempts\<close>

text \<open>An operation whose two statements see the same time.\<close>

fun prompt :: "job_op \<Rightarrow> bool" where
  "prompt (JbLease _ _ _ gap) = (gap = 0)"
| "prompt (JbLeaseFair _ _ _ _ _ gap) = (gap = 0)"
| "prompt op = True"

definition starts_ok :: "job_row \<Rightarrow> bool" where
  "starts_ok r \<longleftrightarrow> jr_attempts r \<le> jr_max_attempts r \<and> (jr_status r = JNew \<longrightarrow> jr_attempts r < jr_max_attempts r)"

lemma starts_ok_picked: "picked_as now now worker end r r' \<Longrightarrow> starts_ok r \<Longrightarrow> starts_ok r'"
  by (erule picked_cases) (auto simp: starts_ok_def cut_off_def job_due_def)

definition all_startable :: "job_row list \<Rightarrow> bool" where
  "all_startable rows \<longleftrightarrow> (\<forall>r \<in> set rows. starts_ok r)"

lemma starts_ok_map: "xs = map g ys \<Longrightarrow> (\<And>r. r \<in> set ys \<Longrightarrow> picked_as now now worker end r (g r)) \<Longrightarrow>
    all_startable ys \<Longrightarrow> all_startable xs"
  using starts_ok_picked by (fastforce simp: all_startable_def)

lemma starts_ok_update: "(\<And>r. r \<in> set rows \<Longrightarrow> P r \<Longrightarrow> starts_ok r \<Longrightarrow> starts_ok (f r)) \<Longrightarrow> all_startable rows \<Longrightarrow>
    all_startable (update_where P f rows)"
  by (auto simp: all_startable_def dest!: set_update_where)

lemma starts_ok_held:
  assumes "job_good tb" "all_startable (jt_rows tb)"
    and "\<And>r. jr_status r = JRunning \<Longrightarrow> starts_ok r \<Longrightarrow> 1 \<le> jr_max_attempts r \<Longrightarrow> starts_ok (f r)"
  shows "all_startable (jt_rows (snd (update_held i worker f tb)))"
proof -
  have "all_startable (update_where (held_by i worker) f (jt_rows tb))"
    by (rule starts_ok_update [OF _ assms(2)]) (use assms(1,3) in \<open>auto simp: held_by_def job_good_def job_row_ok_def\<close>)
  then show ?thesis by (simp add: update_held_def)
qed

lemma starts_ok_added: "attempts_of j = Inr n \<Longrightarrow> all_startable (jt_rows tb) \<Longrightarrow> all_startable (jt_rows (add_job now n j tb))"
  by (auto simp: all_startable_def add_job_def row_of_job_def starts_ok_def attempts_of_def max_attempts_def split: if_splits)

lemma starts_ok_exec:
  assumes good: "job_good tb" and ok: "all_startable (jt_rows tb)" and p: "prompt op"
  shows "all_startable (jt_rows (job_exec op now tb))"
proof (cases op)
  case (JbEnqueue j)
  then show ?thesis using ok starts_ok_added by (auto simp: enqueue_def split: option.split sum.split)
next
  case (JbEnqueueCapped j caps)
  then show ?thesis using ok starts_ok_added by (auto simp: enqueue_capped_def split: option.split sum.split)
next
  case (JbLease worker limit hold gap)
  then have "job_exec op now tb = snd (lease_jobs now now worker limit hold tb)" using p by simp
  then show ?thesis
    by (simp only:) (rule lease_rows [OF good, of now now worker limit hold], erule starts_ok_map, blast, rule ok)
next
  case (JbLeaseFair worker limit hold per_person per_agent gap)
  then have "job_exec op now tb = snd (lease_fair now now worker limit hold per_person per_agent tb)" using p by simp
  then show ?thesis
    by (simp only:) (rule lease_fair_rows [OF good, of now now worker limit hold per_person per_agent], erule starts_ok_map, blast, rule ok)
next
  case (JbTakeInterrupted limit gap)
  have "all_startable (update_where (cut_off (now - int gap)) (interrupt (now - int gap)) (jt_rows tb))"
    by (rule starts_ok_update [OF _ ok]) (simp add: starts_ok_def)
  then have "all_startable (update_where Q (\<lambda>r. r\<lparr>jr_told := Some now\<rparr>)
      (update_where (cut_off (now - int gap)) (interrupt (now - int gap)) (jt_rows tb)))" for Q
    by (rule starts_ok_update [rotated]) (simp add: starts_ok_def)
  then show ?thesis using ok by (simp add: JbTakeInterrupted take_interrupted_def Let_def)
next
  case (JbPurge keep keep_problems)
  then show ?thesis using ok by (auto simp: all_startable_def purge_jobs_def)
next
  case (JbDropLive n)
  have "all_startable (update_where live (\<lambda>r. r\<lparr>jr_status := JDropped, jr_note := n, jr_locked_by := [], jr_locked_until := None,
      jr_finished := Some now\<rparr>) (jt_rows tb))"
    by (rule starts_ok_update [OF _ ok]) (simp add: starts_ok_def)
  then show ?thesis by (simp add: JbDropLive drop_live_jobs_def)
qed (auto simp: held_ops starts_ok_def Let_def intro!: starts_ok_held [OF good ok])

end
