(* ===== verification/Job_Shares.thy ===== *)
theory Job_Shares
  imports Job_Runs
begin

text \<open>
  Counting jobs: that a cap holds in every reachable table, that \<^verbatim>\<open>LeaseFair\<close> keeps to the shares,
  and which job a lease takes.
\<close>

section \<open>Counting rows\<close>

lemma length_filter_strict:
  assumes "\<And>x. x \<in> set xs \<Longrightarrow> P x \<Longrightarrow> Q x" "x \<in> set xs" "Q x" "\<not> P x"
  shows "length (filter P xs) < length (filter Q xs)"
  using assms
proof (induction xs)
  case (Cons y ys)
  have le: "length (filter P ys) \<le> length (filter Q ys)"
  proof -
    have "filter P ys = filter P (filter Q ys)" using Cons.prems(1) by (auto simp: filter_id_conv intro!: filter_cong)
    then show ?thesis by (metis length_filter_le)
  qed
  show ?case
  proof (cases "y = x")
    case True
    then show ?thesis using Cons.prems(3,4) le by simp
  next
    case False
    then have "length (filter P ys) < length (filter Q ys)" using Cons by auto
    then show ?thesis using Cons.prems(1) by auto
  qed
qed simp

lemma length_filter_implies: "(\<And>x. x \<in> set xs \<Longrightarrow> P x \<Longrightarrow> Q x) \<Longrightarrow> length (filter P xs) \<le> length (filter Q xs)"
  by (induction xs) auto

lemma length_filter_or:
  "length (filter (\<lambda>x. A x \<and> (P x \<or> Q x)) xs) \<le> length (filter (\<lambda>x. A x \<and> P x) xs) + length (filter (\<lambda>x. A x \<and> Q x) xs)"
  by (induction xs) auto

lemma update_where_mem: "r \<in> set rows \<Longrightarrow> (if P r then f r else r) \<in> set (update_where P f rows)"
  by (simp add: update_where_def)

lemma length_filter_onward:
  assumes "rows_onward ys xs" and "\<And>r r'. r \<in> set ys \<Longrightarrow> onward r r' \<Longrightarrow> P r' \<Longrightarrow> P r"
  shows "length (filter P xs) \<le> length (filter P ys)"
proof -
  obtain g Q where gQ: "xs = map g (filter Q ys)" "\<forall>r \<in> set ys. onward r (g r)" using assms(1) by (auto simp: rows_onward_def)
  have "length (filter P xs) = length (filter (\<lambda>r. P (g r) \<and> Q r) ys)"
    by (simp add: gQ(1) filter_map o_def conj_commute)
  also have "\<dots> \<le> length (filter P ys)" by (rule length_filter_implies) (use assms(2) gQ(2) in blast)
  finally show ?thesis .
qed

section \<open>Caps\<close>

text \<open>Whether a cap on one job counts another, and that every such job is stored under the cap.\<close>

definition concerns :: "job_cap \<Rightarrow> job \<Rightarrow> job \<Rightarrow> bool" where
  "concerns c j j' \<longleftrightarrow> jb_shadow j' = jb_shadow j \<and>
     (if cap_scope c = CapAlert then jb_alert j' = jb_alert j else jb_person j' = jb_person j \<and> jb_agent j' = jb_agent j)"

fun always_capped :: "job_cap \<Rightarrow> job \<Rightarrow> job_op \<Rightarrow> bool" where
  "always_capped c j (JbEnqueue j') = (\<not> concerns c j j')"
| "always_capped c j (JbEnqueueCapped j' caps) = (concerns c j j' \<longrightarrow> c \<in> set caps)"
| "always_capped c j op = True"

lemma cap_count_same: "concerns c j j' \<Longrightarrow> cap_count now j' c tb = cap_count now j c tb"
  by (simp add: concerns_def cap_count_def in_scope_def counting_statuses_def)

lemma cap_count_later: "now \<le> now' \<Longrightarrow> cap_count now' j c tb \<le> cap_count now j c tb"
  by (simp add: cap_count_def) (rule length_filter_implies, auto)

lemma cap_count_onward: "rows_onward (jt_rows tb) (jt_rows tb') \<Longrightarrow> cap_count now j c tb' \<le> cap_count now j c tb"
  unfolding cap_count_def of_nat_le_iff
  by (rule length_filter_onward)
    (auto simp: onward_def same_job_def occasion_def in_scope_def counting_statuses_def counted_def split: if_splits)

lemma cap_count_add: "cap_count now j c (add_job now n j' tb) \<le> cap_count now j c tb + (if concerns c j j' then 1 else 0)"
  by (auto simp: cap_count_def add_job_def row_of_job_def concerns_def in_scope_def counting_statuses_def start_status_def split: if_splits)

lemma cap_count_next [simp]: "cap_count now j c (tb\<lparr>jt_next := n\<rparr>) = cap_count now j c tb"
  by (simp add: cap_count_def)

lemma cap_kept:
  assumes good: "job_good tb" and op: "always_capped c j op" and before: "cap_count now j c tb \<le> cap_max c"
  shows "cap_count now j c (job_exec op now tb) \<le> cap_max c"
proof (cases "stores op")
  case False
  then show ?thesis using cap_count_onward [OF rows_onward_exec [OF good False]] before by (rule_tac order_trans)
next
  case True
  then show ?thesis
  proof (cases op)
    case (JbEnqueue j')
    then have "\<not> concerns c j j'" using op by simp
    then have "cap_count now j c (add_job now n j' tb) \<le> cap_max c" for n
      using cap_count_add [of now j c n j' tb] before by simp
    then show ?thesis using before by (auto simp: JbEnqueue enqueue_def split: option.split sum.split)
  next
    case (JbEnqueueCapped j' caps)
    have "cap_count now j c (add_job now n j' tb) \<le> cap_max c" if "find (\<lambda>c. cap_max c \<le> cap_count now j' c tb) caps = None" for n
    proof (cases "concerns c j j'")
      case True
      then have "cap_count now j c tb < cap_max c" using that op by (auto simp: JbEnqueueCapped find_None_iff cap_count_same [OF True, symmetric])
      then show ?thesis using cap_count_add [of now j c n j' tb] True by simp
    next
      case False
      then show ?thesis using cap_count_add [of now j c n j' tb] before by simp
    qed
    then show ?thesis using before by (auto simp: JbEnqueueCapped enqueue_capped_def split: option.split sum.split)
  qed auto
qed

section \<open>Fair shares\<close>

lemma due_order_inj: "job_good tb \<Longrightarrow> r \<in> set (jt_rows tb) \<Longrightarrow> r' \<in> set (jt_rows tb) \<Longrightarrow> due_order r = due_order r' \<Longrightarrow> r = r'"
  by (rule row_unique) (auto simp: due_order_def)

lemma row_number_less:
  assumes "r \<in> set rows" "job_due now r" "part r = part r'" "due_order r < due_order r'"
  shows "row_number now part rows r < row_number now part rows r'"
proof -
  have "length (filter (\<lambda>x. job_due now x \<and> part x = part r \<and> due_order x < due_order r) rows) <
      length (filter (\<lambda>x. job_due now x \<and> part x = part r' \<and> due_order x < due_order r') rows)"
    by (rule length_filter_strict [where x = r]) (use assms in auto)
  then show ?thesis by (simp add: row_number_def)
qed

lemma row_number_inj:
  assumes "job_good tb" "r \<in> set (jt_rows tb)" "r' \<in> set (jt_rows tb)" "job_due now r" "job_due now r'" "part r = part r'"
    and "row_number now part (jt_rows tb) r = row_number now part (jt_rows tb) r'"
  shows "r = r'"
proof (rule ccontr)
  assume "r \<noteq> r'"
  then have "due_order r < due_order r' \<or> due_order r' < due_order r" using due_order_inj [OF assms(1-3)] by (meson linorder_neqE)
  then show False using row_number_less [of r "jt_rows tb" now part r'] row_number_less [of r' "jt_rows tb" now part r] assms by auto
qed

text \<open>As many rows as there is room for: they all have different numbers.\<close>

lemma picked_in_room:
  assumes good: "job_good tb" and sub: "set picked \<subseteq> set (jt_rows tb)" and d: "distinct picked"
    and room: "\<And>r. r \<in> set picked \<Longrightarrow> job_due now r \<and> row_number now part (jt_rows tb) r + b (part r) \<le> n"
  shows "int (length (filter (\<lambda>r. part r = p) picked)) \<le> max 0 (n - b p)"
proof -
  let ?S = "set (filter (\<lambda>r. part r = p) picked)"
  have "inj_on (row_number now part (jt_rows tb)) ?S"
  proof (rule inj_onI)
    fix x y assume "x \<in> ?S" "y \<in> ?S" and eq: "row_number now part (jt_rows tb) x = row_number now part (jt_rows tb) y"
    then have "x \<in> set (jt_rows tb)" "y \<in> set (jt_rows tb)" "job_due now x" "job_due now y" "part x = part y"
      using sub room by auto
    then show "x = y" using eq by (rule row_number_inj [OF good])
  qed
  moreover have "row_number now part (jt_rows tb) ` ?S \<subseteq> {1..n - b p}"
    using room by (fastforce simp: row_number_def)
  ultimately have "card ?S \<le> card {1..n - b p}" by (metis card_image card_mono finite_atLeastAtMost_int)
  moreover have "card ?S = length (filter (\<lambda>r. part r = p) picked)" using d by (simp add: distinct_card del: set_filter)
  ultimately show ?thesis by simp
qed

text \<open>Handing rows out that were due adds just them to those running.\<close>

lemma busy_hand_out:
  assumes good: "job_good tb" and sub: "set picked \<subseteq> set (jt_rows tb)" and d: "distinct picked"
    and due: "\<And>r. r \<in> set picked \<Longrightarrow> job_due now r" and part: "\<And>r. part (hold_job worker end r) = part r"
  shows "busy now part (jt_rows (snd (hand_out worker end picked tb))) p \<le>
    busy now part (jt_rows tb) p + int (length (filter (\<lambda>r. part r = p) picked))"
proof -
  let ?Q = "\<lambda>r. jr_id r \<in> jr_id ` set picked" and ?rows = "jt_rows tb"
  have in_picked: "r \<in> set picked" if "r \<in> set ?rows" "?Q r" for r
    using that sub row_unique [OF good] by (metis imageE subsetD)
  have dr: "distinct ?rows" using good by (simp add: job_good_def distinct_map)
  have "length (filter (\<lambda>r. part r = p \<and> running_now now r) (update_where ?Q (hold_job worker end) ?rows)) \<le>
      length (filter (\<lambda>r. part r = p \<and> (running_now now r \<or> r \<in> set picked)) ?rows)"
    unfolding update_where_def filter_map length_map
  proof (rule length_filter_implies)
    fix r assume r: "r \<in> set ?rows"
      and now: "((\<lambda>r. part r = p \<and> running_now now r) \<circ> (\<lambda>r. if ?Q r then hold_job worker end r else r)) r"
    show "part r = p \<and> (running_now now r \<or> r \<in> set picked)"
    proof (cases "?Q r")
      case True
      then show ?thesis using now in_picked [OF r True] by (simp only: comp_apply if_True part simp_thms)
    next
      case False
      then show ?thesis using now by (simp only: comp_apply if_False simp_thms)
    qed
  qed
  also have "\<dots> \<le> length (filter (\<lambda>r. part r = p \<and> running_now now r) ?rows) + length (filter (\<lambda>r. part r = p \<and> r \<in> set picked) ?rows)"
    by (rule length_filter_or)
  also have "length (filter (\<lambda>r. part r = p \<and> r \<in> set picked) ?rows) = length (filter (\<lambda>r. part r = p) picked)"
  proof -
    have "set (filter (\<lambda>r. part r = p \<and> r \<in> set picked) ?rows) = set (filter (\<lambda>r. part r = p) picked)" using sub by auto
    moreover have "distinct (filter (\<lambda>r. part r = p \<and> r \<in> set picked) ?rows)" "distinct (filter (\<lambda>r. part r = p) picked)"
      using dr d by simp_all
    ultimately show ?thesis using distinct_card by metis
  qed
  finally show ?thesis by (simp add: busy_def hand_out_def)
qed

lemma busy_mark: "before \<le> now \<Longrightarrow> busy now part (jt_rows (mark_interrupted before tb)) p = busy now part (jt_rows tb) p"
  if "\<And>r. part (interrupt before r) = part r" for part
proof -
  assume "before \<le> now"
  then have same: "(part (if cut_off before r then interrupt before r else r) = p \<and> running_now now (if cut_off before r then interrupt before r else r)) =
      (part r = p \<and> running_now now r)" for r
    using that by (auto simp: running_now_def cut_off_def lock_ended_def split: option.splits)
  then show ?thesis by (simp add: busy_def update_where_def filter_map o_def)
qed

section \<open>What a lease takes\<close>

lemma first_by_all: "length rows \<le> nat limit \<Longrightarrow> set (first_by k limit P rows) = {r \<in> set rows. P r}"
proof -
  assume "length rows \<le> nat limit"
  then have "length (sort_key k (filter P rows)) \<le> nat limit" using order_trans [OF length_filter_le] by simp
  then show ?thesis by (simp add: first_by_def)
qed

lemma length_first_by: "0 \<le> limit \<Longrightarrow> int (length (first_by k limit P rows)) \<le> limit"
  using min.cobounded2 [of "length (filter P rows)" "nat limit"] by (simp add: first_by_def le_nat_iff del: min.cobounded2)

lemma lease_takes:
  assumes good: "job_good tb" and r: "r \<in> set (jt_rows tb)" and due: "job_due now r" "\<not> cut_off before r"
    and room: "int (length (jt_rows tb)) \<le> limit" "0 < limit"
  shows "hold_job worker (now + hold) r \<in> set (jt_rows (snd (lease_jobs before now worker limit hold tb)))"
    and "job_of_row (hold_job worker (now + hold) r) \<in> set (fst (lease_jobs before now worker limit hold tb))"
proof -
  let ?rows = "update_where (cut_off before) (interrupt before) (jt_rows tb)"
  let ?picked = "first_by due_order limit (job_due now) ?rows"
  have here: "r \<in> set ?rows" using update_where_mem [OF r, of "cut_off before" "interrupt before"] due(2) by simp
  have "length ?rows \<le> nat limit" using room by (simp add: update_where_def)
  then have picked: "r \<in> set ?picked" using first_by_all [of ?rows limit due_order "job_due now"] here due(1) by simp
  show "hold_job worker (now + hold) r \<in> set (jt_rows (snd (lease_jobs before now worker limit hold tb)))"
    using update_where_mem [OF here, of "\<lambda>x. jr_id x \<in> jr_id ` set ?picked" "hold_job worker (now + hold)"] picked room(2)
    by (simp add: lease_jobs_def Let_def hand_out_def)
  show "job_of_row (hold_job worker (now + hold) r) \<in> set (fst (lease_jobs before now worker limit hold tb))"
    using picked room(2) by (auto simp: lease_jobs_def Let_def hand_out_def)
qed

lemma lease_interrupts:
  assumes "r \<in> set (jt_rows tb)" "cut_off before r" "0 < limit" and good: "job_good tb"
  shows "interrupt before r \<in> set (jt_rows (snd (lease_jobs before now worker limit hold tb)))"
proof -
  let ?rows = "update_where (cut_off before) (interrupt before) (jt_rows tb)"
  let ?picked = "first_by due_order limit (job_due now) ?rows"
  have here: "interrupt before r \<in> set ?rows"
    using update_where_mem [OF assms(1), of "cut_off before" "interrupt before"] assms(2) by simp
  have d: "distinct (map jr_id ?rows)" using mark_good [OF good, of before] by (simp add: job_good_def)
  have "jr_id (interrupt before r) \<notin> jr_id ` set ?picked"
  proof
    assume "jr_id (interrupt before r) \<in> jr_id ` set ?picked"
    then have "job_due now (interrupt before r)" by (rule chosen [OF d here])
    then show False by (simp add: job_due_def)
  qed
  then show ?thesis
    using update_where_mem [OF here, of "\<lambda>x. jr_id x \<in> jr_id ` set ?picked" "hold_job worker (now + hold)"] assms(3)
    by (simp add: lease_jobs_def Let_def hand_out_def)
qed

end
