(* ===== verification/Job_Claims.thy ===== *)
theory Job_Claims
  imports Job_Shares
begin

text \<open>
  What the job queue promises of its table: one job an occasion, a consistent row for each job, and
  one holder a job. What it promises in numbers is in \<open>Job_Limits\<close>.
\<close>

section \<open>A job to try it on\<close>

definition alarm :: job where
  "alarm = \<lparr>jb_id = 0, jb_inbox = 0, jb_alert = ''a1'', jb_person = ''ann'', jb_agent = ''kai'', jb_event = ''mail.came'', jb_repeat_key = ''m1'',
     jb_facts = [], jb_level = ''agent'', jb_run_at = None, jb_attempts = 0, jb_max_attempts = 1, jb_shadow = False\<rparr>"

text \<open>Stored at time 0, and taken by a worker at time 1 for 10.\<close>

definition alarm_stored :: job_table where
  "alarm_stored = job_exec (JbEnqueue alarm) 0 no_jobs"

definition alarm_held :: job_table where
  "alarm_held = job_exec (JbLease ''w1'' 5 10 0) 1 alarm_stored"

definition alarm_row :: job_row where
  "alarm_row = row_of_job 0 1 1 alarm"

lemma alarm_fine: "names_all alarm" "valid_level (jb_level alarm)" "marshal_args (jb_facts alarm) = Some ''{}''" "attempts_of alarm = Inr 1"
  by (simp_all add: alarm_def names_all_def valid_level_def level_agent_def marshal_args_def attempts_of_def max_attempts_def)

lemma alarm_stored_rows: "jt_rows alarm_stored = [alarm_row]" "jt_next alarm_stored = 2"
  by (simp_all add: alarm_stored_def enqueue_def alarm_fine has_job_def add_job_def no_jobs_def alarm_row_def)

lemma alarm_row_parts: "jr_id alarm_row = 1" "jr_status alarm_row = JNew" "jr_attempts alarm_row = 0" "jr_max_attempts alarm_row = 1"
  "jr_run_at alarm_row = 0" "jr_locked_until alarm_row = None" "jr_person alarm_row = ''ann''" "jr_agent alarm_row = ''kai''"
  by (simp_all add: alarm_row_def row_of_job_def alarm_def start_status_def)

lemma alarm_reach: "P (JbEnqueue alarm) \<Longrightarrow> P (JbLease ''w1'' 5 10 0) \<Longrightarrow> job_reach P alarm_stored 0 \<and> job_reach P alarm_held 1"
  unfolding alarm_held_def alarm_stored_def by (intro conjI job_reach.step [where t = 0] job_reach.empty) auto

lemma alarm_due: "job_due 1 alarm_row" "\<not> cut_off 1 alarm_row"
  by (simp_all add: job_due_def cut_off_def alarm_row_parts)

lemma alarm_held_rows: "jt_rows alarm_held = [hold_job ''w1'' 11 alarm_row]"
  by (simp add: alarm_held_def lease_jobs_def Let_def hand_out_def alarm_stored_rows update_where_def alarm_due first_by_def)

section \<open>The table\<close>

text \<open>
  Jobs are kept in order, whatever the workers do: no two have the same id or come from the
  same occurrence for the same alert, a job has a lease exactly while it runs, an end exactly when it
  is over, and only an interrupted one has been told of.
\<close>

theorem job_table_sound:
  assumes "job_reach P tb t"
  shows "distinct (map jr_id (jt_rows tb)) \<and> distinct (map (\<lambda>r. (jr_alert r, jr_repeat_key r)) (jt_rows tb)) \<and>
    (\<forall>r \<in> set (jt_rows tb). (jr_status r = JRunning \<longleftrightarrow> jr_locked_until r \<noteq> None) \<and> (jr_status r = JRunning \<longrightarrow> 1 \<le> jr_attempts r) \<and>
       (jr_status r \<in> {JDone, JDropped, JFailed, JInterrupted} \<longleftrightarrow> jr_finished r \<noteq> None) \<and>
       (jr_told r \<noteq> None \<longrightarrow> jr_status r = JInterrupted))"
  using reach_good [OF assms] by (auto simp: job_good_def job_row_ok_def ended_status_def occasion_def [abs_def])

theorem job_table_sound_witness:
  "jr_locked_until (hold_job ''w1'' 11 alarm_row) \<noteq> None \<and> jr_finished (hold_job ''w1'' 11 alarm_row) = None"
  using job_table_sound [of "\<lambda>_. True" alarm_held 1] alarm_reach [of "\<lambda>_. True"] by (simp add: alarm_held_rows)

section \<open>One holder\<close>

lemma not_mine:
  assumes good: "job_good tb" and r: "r \<in> set (jt_rows tb)" "jr_locked_by r \<noteq> w"
  shows "update_held (jr_id r) w f tb = (False, tb)"
proof -
  have none: "\<not> held_by (jr_id r) w x" if "x \<in> set (jt_rows tb)" for x
    using row_unique [OF good that r(1)] r(2) by (auto simp: held_by_def)
  then have "filter (held_by (jr_id r) w) (jt_rows tb) = []" by (simp add: filter_empty_conv)
  moreover have "update_where (held_by (jr_id r) w) f (jt_rows tb) = jt_rows tb"
    using none by (simp add: update_where_def map_idI)
  ultimately show ?thesis by (simp add: update_held_def)
qed

lemma not_handed_out:
  assumes good: "job_good tb" and r: "r \<in> set (jt_rows tb)" "jr_status r = JRunning" "jr_locked_until r = Some u"
    and time: "before \<le> now" "now \<le> u" and P: "\<And>x. P x \<Longrightarrow> job_due now x"
  shows "jr_id r \<notin> jr_id ` set (first_by k limit P (jt_rows (mark_interrupted before tb)))"
proof
  assume taken: "jr_id r \<in> jr_id ` set (first_by k limit P (jt_rows (mark_interrupted before tb)))"
  have "\<not> cut_off before r" using r time by (simp add: cut_off_def lock_ended_def)
  then have here: "r \<in> set (jt_rows (mark_interrupted before tb))"
    using update_where_mem [OF r(1), of "cut_off before" "interrupt before"] by simp
  have d: "distinct (map jr_id (jt_rows (mark_interrupted before tb)))"
    using mark_good [OF good, of before] unfolding job_good_def by blast
  have "job_due now r" by (rule P [OF chosen [OF d here taken]])
  then show False using r time by (simp add: job_due_def lock_ended_def)
qed

lemma handed_ids: "jb_id ` set (fst (hand_out w end picked tb)) = jr_id ` set picked"
  by (simp add: hand_out_def job_of_row_def image_image)

text \<open>
  (C30) A job has one holder: while a worker's lease lasts and it has not given the job up, no other
  worker can take it, end it or put it off, in any order of operations (the operator dropping
  everything apart); a report on it by anyone else is refused and changes nothing.
\<close>

theorem job_held_by_one:
  assumes reach: "job_reach P tb t"
    and r: "r \<in> set (jt_rows tb)" "jr_status r = JRunning" "jr_locked_by r = w" "jr_locked_until r = Some u"
    and others: "\<forall>(t, op) \<in> set ops. t \<le> u \<and> job_actor op \<noteq> Worker w \<and> job_actor op \<noteq> Operator"
    and later: "tb' = run_jobs ops tb"
  shows "(\<exists>r' \<in> set (jt_rows tb'). jr_id r' = jr_id r \<and> jr_status r' = JRunning \<and> jr_locked_by r' = w \<and> jr_locked_until r' = Some u) \<and>
    (\<forall>w' f. w' \<noteq> w \<longrightarrow> update_held (jr_id r) w' f tb' = (False, tb')) \<and>
    (\<forall>before now w' limit hold pp pa. before \<le> now \<longrightarrow> now \<le> u \<longrightarrow>
       jr_id r \<notin> jb_id ` set (fst (lease_jobs before now w' limit hold tb')) \<and>
       jr_id r \<notin> jb_id ` set (fst (lease_fair before now w' limit hold pp pa tb')))"
proof -
  have good: "job_good tb" using reach by (rule reach_good)
  have good': "job_good tb'" unfolding later run_jobs_queue by (rule job_queue.good_run [OF good])
  have "row_at jr_id (jt_rows tb) (jr_id r) = Some r" using good r(1) by (simp add: job_good_def row_at_of_mem)
  then have "job_leases tb (jr_id r) = Some (Held w u)" using r by (simp add: job_leases_def job_lease_of_def)
  from job_queue.lease_lasts [OF good this others] have "job_leases tb' (jr_id r) = Some (Held w u)"
    by (simp add: later run_jobs_queue)
  then obtain r' where r': "r' \<in> set (jt_rows tb')" "jr_id r' = jr_id r" "job_lease_of r' = Held w u"
    by (auto simp: job_leases_def dest: row_at_mem)
  then have held: "jr_status r' = JRunning" "jr_locked_by r' = w" "jr_locked_until r' = Some u"
    using good' by (auto simp: job_lease_of_def job_good_def job_row_ok_def split: job_status.splits)
  have "jr_id r \<notin> jb_id ` set (fst (lease_jobs before now w' limit hold tb'))"
    "jr_id r \<notin> jb_id ` set (fst (lease_fair before now w' limit hold pp pa tb'))"
    if "before \<le> now" "now \<le> u" for before now w' limit hold pp pa
  proof -
    note free = not_handed_out [OF good' r'(1) held(1,3) that, unfolded r'(2)]
    show "jr_id r \<notin> jb_id ` set (fst (lease_jobs before now w' limit hold tb'))"
      using free [where P = "job_due now" and k = due_order and limit = limit] unfolding lease_jobs_def Let_def
      by (cases "limit \<le> 0") (simp_all only: if_True if_False fst_conv handed_ids list.set image_empty empty_iff not_False_eq_True)
    show "jr_id r \<notin> jb_id ` set (fst (lease_fair before now w' limit hold pp pa tb'))"
      using free [where P = "\<lambda>x. job_due now x \<and> has_room now pp pa (jt_rows (mark_interrupted before tb')) x" and k = due_order and limit = limit]
      unfolding lease_fair_def Let_def
      by (cases "limit \<le> 0 \<or> pp \<le> 0")
        (simp_all only: if_True if_False fst_conv handed_ids list.set image_empty empty_iff not_False_eq_True)
  qed
  then show ?thesis using r' held not_mine [OF good' r'(1)] by auto
qed

theorem job_held_by_one_witness:
  "fst (job_done 5 1 ''w2'' alarm_held) = False \<and>
   1 \<notin> jb_id ` set (fst (lease_jobs 11 11 ''w2'' 5 10 (run_jobs [(3, JbTakeInterrupted 5 0)] alarm_held)))"
proof -
  have reach: "job_reach (\<lambda>_. True) alarm_held 1" using alarm_reach [of "\<lambda>_. True"] by simp
  have row: "hold_job ''w1'' 11 alarm_row \<in> set (jt_rows alarm_held)" by (simp add: alarm_held_rows)
  show ?thesis
    using job_held_by_one [OF reach row, where w = "''w1''" and u = 11 and ops = "[(3, JbTakeInterrupted 5 0)]", OF _ _ _ _ refl]
      job_held_by_one [OF reach row, where w = "''w1''" and u = 11 and ops = "[]", OF _ _ _ _ refl]
    by (simp add: alarm_row_parts job_done_def finish_job_def)
qed

end
