(* ===== verification/Job_Limits.thy ===== *)
theory Job_Limits
  imports Job_Claims
begin

text \<open>
  The limits of the job queue: how often a job is started, how many jobs a cap lets through, how
  many one person has running, when a job whose workers die is given up; and where the first of
  these fails.
\<close>

section \<open>Starts\<close>

lemma reach_startable: "job_reach P tb t \<Longrightarrow> (\<And>op. P op \<Longrightarrow> prompt op) \<Longrightarrow> all_startable (jt_rows tb)"
  by (induction rule: job_reach.induct) (auto simp: no_jobs_def all_startable_def [of "[]"] intro: starts_ok_exec reach_good)

text \<open>
  A job is started no more often than it may be (once, when it may change something), as long
  as the two statements of each lease see the same time: the starts that were not given back never
  exceed its limit, and a job that waits has one left.
\<close>

theorem starts_within_limit:
  assumes "job_reach prompt tb t" and "r \<in> set (jt_rows tb)"
  shows "jr_attempts r \<le> jr_max_attempts r \<and> (jr_status r = JNew \<longrightarrow> jr_attempts r < jr_max_attempts r) \<and> jr_max_attempts r \<le> max_attempts"
  using reach_startable [OF assms(1)] reach_good [OF assms(1)] assms(2)
  by (auto simp: all_startable_def starts_ok_def job_good_def job_row_ok_def)

theorem starts_within_limit_witness: "jr_attempts (hold_job ''w1'' 11 alarm_row) \<le> 1"
proof -
  have "job_reach prompt alarm_held 1" using alarm_reach [of prompt] by simp
  from starts_within_limit [OF this, of "hold_job ''w1'' 11 alarm_row"] show ?thesis
    by (simp add: alarm_held_rows alarm_row_parts)
qed

text \<open>
  Between the two statements of a lease a job can start once too often: if the lease of a job
  that has used all its starts runs out after the statement that gives such jobs up and before the
  one that takes what is due, the job is handed out again, with more starts than it may have.
\<close>

theorem lease_gap_starts_again:
  assumes reach: "job_reach P tb t" and r: "r \<in> set (jt_rows tb)" "jr_status r = JRunning" "jr_locked_until r = Some u"
    and spent: "jr_attempts r = jr_max_attempts r" and gap: "before \<le> u" "u < now"
    and room: "int (length (jt_rows tb)) \<le> limit"
  shows "\<exists>j \<in> set (fst (lease_jobs before now worker limit hold tb)). jb_id j = jr_id r \<and> jb_attempts j = jb_max_attempts j + 1"
proof -
  have "job_due now r" "\<not> cut_off before r" using r gap by (simp_all add: job_due_def lock_ended_def cut_off_def)
  moreover have "0 < limit" using r(1) room length_pos_if_in_set [OF r(1)] by linarith
  ultimately have "job_of_row (hold_job worker (now + hold) r) \<in> set (fst (lease_jobs before now worker limit hold tb))"
    by (intro lease_takes [OF reach_good [OF reach] r(1)] room)
  then show ?thesis by (rule rev_bexI) (simp add: job_of_row_def spent)
qed

theorem lease_gap_starts_again_witness:
  "jb_max_attempts alarm = 1 \<and> (\<exists>j \<in> set (fst (lease_jobs 11 12 ''w2'' 5 10 alarm_held)). jb_id j = 1 \<and> jb_attempts j = jb_max_attempts j + 1)"
proof -
  have reach: "job_reach (\<lambda>_. True) alarm_held 1" using alarm_reach [of "\<lambda>_. True"] by simp
  have row: "hold_job ''w1'' 11 alarm_row \<in> set (jt_rows alarm_held)" by (simp add: alarm_held_rows)
  have "jb_max_attempts alarm = 1" by (simp add: alarm_def)
  then show ?thesis using lease_gap_starts_again [OF reach row, of 11 11 12 5 "''w2''" 10]
    by (simp add: alarm_row_parts alarm_held_rows)
qed

section \<open>Caps\<close>

text \<open>
  (C29) A cap holds at every moment: when the jobs a cap is about are all stored under it, then in
  every table that can be reached, however workers interleave, no more of them than its maximum
  were made within its window (jobs that failed or were dropped do not count; shadow jobs count
  among themselves).
\<close>

theorem cap_holds:
  assumes "job_reach (always_capped c j) tb t" and "0 \<le> cap_max c" and "t \<le> now"
  shows "cap_count now j c tb \<le> cap_max c"
  using assms
proof (induction arbitrary: now rule: job_reach.induct)
  case (empty t)
  then show ?case by (simp add: cap_count_def no_jobs_def)
next
  case (step tb t t' op)
  have "cap_count t' j c (job_exec op t' tb) \<le> cap_max c"
    by (rule cap_kept [OF reach_good [OF step.hyps(1)] step.hyps(3)]) (use step in auto)
  then show ?case using cap_count_later [OF step.prems(2), of j c] by (rule order_trans [rotated])
qed

definition one_a_minute :: job_cap where
  "one_a_minute = \<lparr>cap_scope = CapAlert, cap_window = 60, cap_max = 1\<rparr>"

definition next_alarm :: job where
  "next_alarm = alarm\<lparr>jb_repeat_key := ''m2''\<rparr>"

definition alarm_capped :: job_table where
  "alarm_capped = job_exec (JbEnqueueCapped next_alarm [one_a_minute]) 9 (job_exec (JbEnqueueCapped alarm [one_a_minute]) 0 no_jobs)"

theorem cap_holds_witness: "cap_count 9 alarm one_a_minute alarm_capped \<le> 1 \<and> map jr_repeat_key (jt_rows alarm_capped) = [''m1'']"
proof -
  have "job_reach (always_capped one_a_minute alarm) alarm_capped 9"
    unfolding alarm_capped_def by (rule job_reach.step [where t = 0], rule job_reach.step [where t = 0], rule job_reach.empty) simp_all
  from cap_holds [OF this, of 9] have "cap_count 9 alarm one_a_minute alarm_capped \<le> 1" by (simp add: one_a_minute_def)
  moreover have "map jr_repeat_key (jt_rows alarm_capped) = [''m1'']" by code_simp
  ultimately show ?thesis by blast
qed

section \<open>Fair shares\<close>

definition fair_picked :: "int \<Rightarrow> int \<Rightarrow> int \<Rightarrow> int \<Rightarrow> int \<Rightarrow> job_table \<Rightarrow> job_row list" where
  "fair_picked before now limit per_person per_agent tb =
     (let tb1 = mark_interrupted before tb in first_by due_order limit
        (\<lambda>r. job_due now r \<and> has_room now per_person per_agent (jt_rows tb1) r) (jt_rows tb1))"

text \<open>What is picked fits in every share, and handing it out adds no more than that.\<close>

lemma fair_picked_facts:
  assumes "job_good tb"
  shows "job_good (mark_interrupted before tb)"
    and "set (fair_picked before now limit per_person per_agent tb) \<subseteq> set (jt_rows (mark_interrupted before tb))"
    and "distinct (fair_picked before now limit per_person per_agent tb)"
    and "r \<in> set (fair_picked before now limit per_person per_agent tb) \<Longrightarrow>
      job_due now r \<and> has_room now per_person per_agent (jt_rows (mark_interrupted before tb)) r"
proof -
  show good: "job_good (mark_interrupted before tb)" by (rule mark_good [OF assms])
  show "set (fair_picked before now limit per_person per_agent tb) \<subseteq> set (jt_rows (mark_interrupted before tb))"
    unfolding fair_picked_def Let_def by (rule subsetI) (rule set_first_by [THEN conjunct1])
  have "distinct (map jr_id (jt_rows (mark_interrupted before tb)))" using good unfolding job_good_def by blast
  from distinct_first_by [OF this] show "distinct (fair_picked before now limit per_person per_agent tb)"
    unfolding fair_picked_def Let_def by (rule distinct_map [THEN iffD1, THEN conjunct1])
  show "r \<in> set (fair_picked before now limit per_person per_agent tb) \<Longrightarrow>
      job_due now r \<and> has_room now per_person per_agent (jt_rows (mark_interrupted before tb)) r"
    unfolding fair_picked_def Let_def by (rule set_first_by [THEN conjunct2])
qed

lemma fair_picked_room:
  assumes good: "job_good tb" and time: "before \<le> now"
    and part: "part = jr_person \<and> n = per_person \<or> part = jr_agent \<and> n = per_agent \<and> 0 < per_agent"
  shows "int (length (filter (\<lambda>r. part r = q) (fair_picked before now limit per_person per_agent tb))) \<le> max 0 (n - busy now part (jt_rows tb) q)"
proof (rule picked_in_room [OF fair_picked_facts(1-3) [OF good]])
  fix r assume r: "r \<in> set (fair_picked before now limit per_person per_agent tb)"
  have same: "busy now part (jt_rows (mark_interrupted before tb)) (part r) = busy now part (jt_rows tb) (part r)"
    by (rule busy_mark [OF _ time]) (use part in auto)
  have due: "job_due now r" by (rule fair_picked_facts(4) [OF good r, THEN conjunct1])
  have person: "row_number now jr_person (jt_rows (mark_interrupted before tb)) r + busy now jr_person (jt_rows (mark_interrupted before tb)) (jr_person r) \<le> per_person"
    and agent: "per_agent \<le> 0 \<or> row_number now jr_agent (jt_rows (mark_interrupted before tb)) r + busy now jr_agent (jt_rows (mark_interrupted before tb)) (jr_agent r) \<le> per_agent"
    using fair_picked_facts(4) [OF good r, THEN conjunct2] unfolding has_room_def by (rule conjunct1, rule conjunct2)
  have "row_number now part (jt_rows (mark_interrupted before tb)) r + busy now part (jt_rows (mark_interrupted before tb)) (part r) \<le> n"
    using part
  proof (elim disjE conjE)
    assume "part = jr_person" "n = per_person"
    then show ?thesis using person by (simp only:)
  next
    assume "part = jr_agent" "n = per_agent" "0 < per_agent"
    then show ?thesis using agent by (simp only: not_le [symmetric] simp_thms)
  qed
  then show "job_due now r \<and> row_number now part (jt_rows (mark_interrupted before tb)) r + busy now part (jt_rows tb) (part r) \<le> n"
    using due unfolding same by (intro conjI)
qed

lemma fair_picked_busy:
  assumes good: "job_good tb" and time: "before \<le> now" and part: "part = jr_person \<or> part = jr_agent"
  shows "busy now part (jt_rows (snd (hand_out worker (now + hold) (fair_picked before now limit per_person per_agent tb) (mark_interrupted before tb)))) q
    \<le> busy now part (jt_rows tb) q + int (length (filter (\<lambda>r. part r = q) (fair_picked before now limit per_person per_agent tb)))"
proof -
  have "busy now part (jt_rows (mark_interrupted before tb)) q = busy now part (jt_rows tb) q"
    by (rule busy_mark [OF _ time]) (use part in auto)
  moreover have "busy now part (jt_rows (snd (hand_out worker (now + hold) (fair_picked before now limit per_person per_agent tb) (mark_interrupted before tb)))) q
    \<le> busy now part (jt_rows (mark_interrupted before tb)) q + int (length (filter (\<lambda>r. part r = q) (fair_picked before now limit per_person per_agent tb)))"
    by (rule busy_hand_out [OF fair_picked_facts(1-3) [OF good] fair_picked_facts(4) [OF good, THEN conjunct1]]) (use part in auto)
  ultimately show ?thesis by (simp only:)
qed

text \<open>
  (C31) No one takes every worker: \<^verbatim>\<open>LeaseFair\<close> hands out at most as many jobs as asked for, and after
  it no person has more jobs running than their share, nor any agent more than its (when it has one),
  counting what other workers hold; whoever had more before gets none.
\<close>

theorem fair_shares:
  assumes reach: "job_reach P tb t" and time: "before \<le> now"
    and fair: "lease_fair before now worker limit hold per_person per_agent tb = (js, tb')"
  shows "int (length js) \<le> max 0 limit \<and>
    busy now jr_person (jt_rows tb') p \<le> max (busy now jr_person (jt_rows tb) p) per_person \<and>
    (0 < per_agent \<longrightarrow> busy now jr_agent (jt_rows tb') a \<le> max (busy now jr_agent (jt_rows tb) a) per_agent)"
proof (cases "limit \<le> 0 \<or> per_person \<le> 0")
  case True
  then show ?thesis using fair by (auto simp: lease_fair_def)
next
  case False
  let ?picked = "fair_picked before now limit per_person per_agent tb"
  have good: "job_good tb" by (rule reach_good [OF reach])
  have out: "(js, tb') = hand_out worker (now + hold) ?picked (mark_interrupted before tb)"
    using False fair by (simp add: lease_fair_def fair_picked_def Let_def del: mark_parts)
  then have js: "js = fst (hand_out worker (now + hold) ?picked (mark_interrupted before tb))"
    and tb': "tb' = snd (hand_out worker (now + hold) ?picked (mark_interrupted before tb))"
    by (simp_all only: out [symmetric] fst_conv snd_conv)
  note more = fair_picked_busy [OF good time, of _ worker hold limit per_person per_agent, folded tb']
    and room = fair_picked_room [OF good time, where limit = limit and per_person = per_person and per_agent = per_agent]
  have "int (length js) \<le> limit" unfolding js using length_first_by [of limit due_order] False
    by (simp add: hand_out_def fair_picked_def Let_def del: mark_parts)
  moreover have "busy now jr_person (jt_rows tb') p \<le> max (busy now jr_person (jt_rows tb) p) per_person"
    using more [OF disjI1 [OF refl], of p] room [OF disjI1, OF conjI, OF refl refl, of p] by linarith
  moreover have "0 < per_agent \<longrightarrow> busy now jr_agent (jt_rows tb') a \<le> max (busy now jr_agent (jt_rows tb) a) per_agent"
  proof
    assume "0 < per_agent"
    then show "busy now jr_agent (jt_rows tb') a \<le> max (busy now jr_agent (jt_rows tb) a) per_agent"
      using more [OF disjI2 [OF refl], of a] room [OF disjI2, OF conjI [OF refl], OF conjI [OF refl], of a] by linarith
  qed
  ultimately show ?thesis by linarith
qed

definition two_alarms :: job_table where
  "two_alarms = job_exec (JbEnqueue next_alarm) 0 alarm_stored"

theorem fair_shares_witness:
  "length (fst (lease_fair 1 1 ''w1'' 5 10 1 0 two_alarms)) = 1 \<and>
   busy 1 jr_person (jt_rows (snd (lease_fair 1 1 ''w1'' 5 10 1 0 two_alarms))) ''ann'' \<le> 1"
proof -
  have "job_reach (\<lambda>_. True) two_alarms 0" unfolding two_alarms_def
    by (rule job_reach.step [where t = 0]) (use alarm_reach [of "\<lambda>_. True"] in auto)
  from fair_shares [OF this order_refl prod.collapse [symmetric], where p = "''ann''"]
  have "busy 1 jr_person (jt_rows (snd (lease_fair 1 1 ''w1'' 5 10 1 0 two_alarms))) ''ann'' \<le> max (busy 1 jr_person (jt_rows two_alarms) ''ann'') 1"
    by blast
  moreover have "busy 1 jr_person (jt_rows two_alarms) ''ann'' = 0" by code_simp
  moreover have "length (fst (lease_fair 1 1 ''w1'' 5 10 1 0 two_alarms)) = 1" by code_simp
  ultimately show ?thesis by simp
qed

section \<open>Coming to an end\<close>

fun spaced :: "int \<Rightarrow> int list \<Rightarrow> bool" where
  "spaced hold (a # b # ts) \<longleftrightarrow> a + hold < b \<and> spaced hold (b # ts)"
| "spaced hold ts \<longleftrightarrow> True"

definition leases_by :: "int \<Rightarrow> int \<Rightarrow> (int \<times> string) list \<Rightarrow> (int \<times> job_op) list" where
  "leases_by limit hold tws = map (\<lambda>(t, w). (t, JbLease w limit hold 0)) tws"

definition interrupted_in :: "int \<Rightarrow> job_table \<Rightarrow> bool" where
  "interrupted_in i tb \<longleftrightarrow> (\<exists>r \<in> set (jt_rows tb). jr_id r = i \<and> jr_status r = JInterrupted)"

lemma lease_length: "job_good tb \<Longrightarrow> length (jt_rows (snd (lease_jobs before now w limit hold tb))) = length (jt_rows tb)"
  by (rule lease_rows [of tb before now w limit hold]) (simp_all only: length_map)

lemma interrupted_stays: "job_good tb \<Longrightarrow> interrupted_in i tb \<Longrightarrow> interrupted_in i (run_jobs (leases_by limit hold tws) tb)"
proof (induction tws arbitrary: tb)
  case (Cons x tws)
  obtain t w where x: "x = (t, w)" by fastforce
  have "interrupted_in i (snd (lease_jobs t t w limit hold tb))"
  proof (rule lease_rows [OF Cons.prems(1), of t t w limit hold])
    fix g assume g: "jt_rows (snd (lease_jobs t t w limit hold tb)) = map g (jt_rows tb)"
      "\<And>r. r \<in> set (jt_rows tb) \<Longrightarrow> picked_as t t w (t + hold) r (g r)"
    obtain r where r: "r \<in> set (jt_rows tb)" "jr_id r = i" "jr_status r = JInterrupted" using Cons.prems(2) by (auto simp: interrupted_in_def)
    then have "g r = r" using g(2) [OF r(1)] by (auto simp: picked_as_def cut_off_def job_due_def)
    then have "r \<in> set (jt_rows (snd (lease_jobs t t w limit hold tb)))" unfolding g(1) using r(1) by (metis image_eqI list.set_map)
    then show ?thesis using r(2,3) by (auto simp: interrupted_in_def)
  qed
  moreover have "job_good (snd (lease_jobs t t w limit hold tb))"
    using job_exec_good [OF Cons.prems(1), of "JbLease w limit hold 0" t] by simp
  ultimately show ?case using Cons.IH by (simp add: x leases_by_def)
qed (simp add: leases_by_def)

lemma abandoned:
  assumes "job_good tb" "all_startable (jt_rows tb)" "r \<in> set (jt_rows tb)" "tws \<noteq> [] \<Longrightarrow> job_due (fst (hd tws)) r"
    "spaced hold (map fst tws)" "int (length (jt_rows tb)) \<le> limit" "jr_max_attempts r < jr_attempts r + int (length tws)"
  shows "interrupted_in (jr_id r) (run_jobs (leases_by limit hold tws) tb)"
  using assms
proof (induction tws arbitrary: tb r)
  case Nil
  then show ?case by (auto simp: all_startable_def starts_ok_def)
next
  case (Cons x tws)
  obtain t w where x: "x = (t, w)" by fastforce
  let ?tb' = "snd (lease_jobs t t w limit hold tb)"
  have good': "job_good ?tb'" using job_exec_good [OF Cons.prems(1), of "JbLease w limit hold 0" t] by simp
  have ok': "all_startable (jt_rows ?tb')" using starts_ok_exec [OF Cons.prems(1,2), of "JbLease w limit hold 0" t] by simp
  have run: "run_jobs (leases_by limit hold (x # tws)) tb = run_jobs (leases_by limit hold tws) ?tb'"
    by (simp add: x leases_by_def)
  have pos: "0 < limit" using Cons.prems(3,6) length_pos_if_in_set [OF Cons.prems(3)] by linarith
  have due: "job_due t r" using Cons.prems(4) x by simp
  show ?case
  proof (cases "cut_off t r")
    case True
    have "interrupt t r \<in> set (jt_rows ?tb')" by (rule lease_interrupts [OF Cons.prems(3) True pos Cons.prems(1)])
    then have "interrupted_in (jr_id r) ?tb'" unfolding interrupted_in_def by (rule rev_bexI) simp
    then show ?thesis unfolding run by (rule interrupted_stays [OF good'])
  next
    case False
    let ?r' = "hold_job w (t + hold) r"
    have here: "?r' \<in> set (jt_rows ?tb')" by (rule lease_takes(1) [OF Cons.prems(1,3) due False Cons.prems(6) pos])
    have "interrupted_in (jr_id ?r') (run_jobs (leases_by limit hold tws) ?tb')"
    proof (rule Cons.IH [OF good' ok' here])
      show "job_due (fst (hd tws)) ?r'" if "tws \<noteq> []"
        using that Cons.prems(5) by (cases tws) (auto simp: x job_due_def lock_ended_def)
      show "spaced hold (map fst tws)" using Cons.prems(5) by (cases tws) (auto simp: x)
      show "int (length (jt_rows ?tb')) \<le> limit" using Cons.prems(6) by (simp add: lease_length [OF Cons.prems(1)])
      show "jr_max_attempts ?r' < jr_attempts ?r' + int (length tws)" using Cons.prems(7) by simp
    qed
    then show ?thesis by (simp add: run)
  qed
qed



end
