(* ===== verification/Inbox.thy ===== *)
theory Inbox
  imports Leases Pipeline
begin

text \<open>
  The events inbox (\<^verbatim>\<open>postgres/inbox.go\<close>, \<^verbatim>\<open>postgres/inbox_queue.go\<close>, \<^verbatim>\<open>PurgeInbox\<close> of
  \<^verbatim>\<open>postgres/jobs.go\<close>): the table \<^verbatim>\<open>events_inbox\<close> as a list of rows, each SQL statement as one
  step at the time \<^verbatim>\<open>NOW()\<close> gives it. \<^verbatim>\<open>Lease\<close> is two statements, so it has two times. What the
  database itself may fail at is not modelled; text that \<^verbatim>\<open>encoding/json\<close> adds to an error is left out.
\<close>

section \<open>The table\<close>

datatype inbox_status = INew | IRouting | IDone | IDropped | IFailed

record inbox_row =
  ir_id :: int
  ir_occ :: occurrence
  ir_status :: inbox_status
  ir_attempts :: int
  ir_next_attempt :: int
  ir_locked_by :: string
  ir_locked_until :: "int option"
  ir_note :: string
  ir_received :: int

record inbox =
  ib_rows :: "inbox_row list"
  ib_next :: int

definition new_inbox :: inbox where
  "new_inbox = \<lparr>ib_rows = [], ib_next = 1\<rparr>"

text \<open>\<^verbatim>\<open>locked_until < NOW()\<close>: a null is not before anything.\<close>

definition ended_before :: "int \<Rightarrow> int option \<Rightarrow> bool" where
  "ended_before now l = (case l of Some u \<Rightarrow> u < now | None \<Rightarrow> False)"

section \<open>What arrives\<close>

text \<open>Storing takes an id from the sequence also when the delivery is a repeat.\<close>

definition inbox_insert :: "int \<Rightarrow> occurrence \<Rightarrow> inbox \<Rightarrow> (goerr + int \<times> bool) \<times> inbox" where
  "inbox_insert now oc ib =
     (case marshal_args (oc_facts oc) of
        None \<Rightarrow> (Inl (errorf ''postgres: encode facts: ''), ib)
      | Some _ \<Rightarrow>
         (let i = ib_next ib; ib1 = ib\<lparr>ib_next := i + 1\<rparr> in
          if \<exists>r \<in> set (ib_rows ib). oc_source (ir_occ r) = oc_source oc \<and> oc_delivery (ir_occ r) = oc_delivery oc
          then (Inr (0, False), ib1)
          else (Inr (i, True), ib1\<lparr>ib_rows := ib_rows ib @
            [\<lparr>ir_id = i, ir_occ = oc\<lparr>oc_received := Some now\<rparr>, ir_status = INew, ir_attempts = 0, ir_next_attempt = now,
              ir_locked_by = [], ir_locked_until = None, ir_note = [], ir_received = now\<rparr>]\<rparr>)))"

section \<open>How workers take it\<close>

text \<open>What a worker is handed.\<close>

record leased_row =
  lr_id :: int
  lr_attempts :: int
  lr_occ :: occurrence

definition leased_of :: "inbox_row \<Rightarrow> leased_row" where
  "leased_of r = \<lparr>lr_id = ir_id r, lr_attempts = ir_attempts r, lr_occ = ir_occ r\<rparr>"

definition inbox_give_up :: "int \<Rightarrow> inbox \<Rightarrow> inbox" where
  "inbox_give_up now ib = ib\<lparr>ib_rows :=
     update_where (\<lambda>r. ir_status r = IRouting \<and> ended_before now (ir_locked_until r) \<and> max_attempts \<le> ir_attempts r)
       (\<lambda>r. r\<lparr>ir_status := IFailed, ir_locked_by := [], ir_locked_until := None,
          ir_note := ''gave up: the worker stopped '' @ itoa (ir_attempts r) @ '' times before finishing it''\<rparr>) (ib_rows ib)\<rparr>"

definition inbox_due :: "int \<Rightarrow> inbox_row \<Rightarrow> bool" where
  "inbox_due now r \<longleftrightarrow>
     (ir_status r = INew \<and> ir_next_attempt r \<le> now) \<or> (ir_status r = IRouting \<and> ended_before now (ir_locked_until r))"

definition inbox_hold :: "string \<Rightarrow> int \<Rightarrow> inbox_row \<Rightarrow> inbox_row" where
  "inbox_hold worker end r =
     r\<lparr>ir_status := IRouting, ir_attempts := ir_attempts r + 1, ir_locked_by := worker, ir_locked_until := Some end\<rparr>"

definition inbox_lease :: "int \<Rightarrow> int \<Rightarrow> string \<Rightarrow> int \<Rightarrow> int \<Rightarrow> inbox \<Rightarrow> leased_row list \<times> inbox" where
  "inbox_lease first now worker limit hold ib =
     (if limit \<le> 0 then ([], ib)
      else let ib1 = inbox_give_up first ib;
               due = first_by (\<lambda>r. (ir_next_attempt r, ir_id r)) limit (inbox_due now) (ib_rows ib1)
           in (map (leased_of \<circ> inbox_hold worker (now + hold)) due,
               ib1\<lparr>ib_rows := update_where (\<lambda>r. ir_id r \<in> ir_id ` set due) (inbox_hold worker (now + hold)) (ib_rows ib1)\<rparr>))"

text \<open>What only the holder of a row can do: whether the statement found the row, and the table after it.\<close>

definition inbox_mine :: "int \<Rightarrow> string \<Rightarrow> inbox_row \<Rightarrow> bool" where
  "inbox_mine i worker r \<longleftrightarrow> ir_id r = i \<and> ir_locked_by r = worker \<and> ir_status r = IRouting"

definition inbox_update :: "int \<Rightarrow> string \<Rightarrow> (inbox_row \<Rightarrow> inbox_row) \<Rightarrow> inbox \<Rightarrow> bool \<times> inbox" where
  "inbox_update i worker f ib =
     (length (filter (inbox_mine i worker) (ib_rows ib)) = 1, ib\<lparr>ib_rows := update_where (inbox_mine i worker) f (ib_rows ib)\<rparr>)"

definition inbox_finish :: "int \<Rightarrow> string \<Rightarrow> inbox_status \<Rightarrow> string \<Rightarrow> inbox \<Rightarrow> bool \<times> inbox" where
  "inbox_finish i worker st n = inbox_update i worker
     (\<lambda>r. r\<lparr>ir_status := st, ir_note := n, ir_locked_by := [], ir_locked_until := None\<rparr>)"

definition inbox_done :: "int \<Rightarrow> string \<Rightarrow> inbox \<Rightarrow> bool \<times> inbox" where
  "inbox_done i worker = inbox_finish i worker IDone []"

definition inbox_drop :: "int \<Rightarrow> string \<Rightarrow> string \<Rightarrow> inbox \<Rightarrow> bool \<times> inbox" where
  "inbox_drop i worker n = inbox_finish i worker IDropped n"

definition inbox_fail :: "int \<Rightarrow> int \<Rightarrow> string \<Rightarrow> string \<Rightarrow> int \<Rightarrow> inbox \<Rightarrow> bool \<times> inbox" where
  "inbox_fail now i worker n retry_after = inbox_update i worker
     (\<lambda>r. r\<lparr>ir_status := (if max_attempts \<le> ir_attempts r then IFailed else INew),
        ir_next_attempt := (if max_attempts \<le> ir_attempts r then ir_next_attempt r else now + retry_after),
        ir_note := n, ir_locked_by := [], ir_locked_until := None\<rparr>)"

section \<open>Retention and counts\<close>

definition inbox_old :: "int \<Rightarrow> int \<Rightarrow> int \<Rightarrow> inbox_row \<Rightarrow> bool" where
  "inbox_old now keep keep_problems r \<longleftrightarrow>
     (ir_status r \<in> {IDone, IDropped} \<and> ir_received r < now - keep) \<or> (ir_status r = IFailed \<and> ir_received r < now - keep_problems)"

definition purge_inbox :: "int \<Rightarrow> int \<Rightarrow> int \<Rightarrow> inbox \<Rightarrow> nat \<times> inbox" where
  "purge_inbox now keep keep_problems ib =
     (length (filter (inbox_old now keep keep_problems) (ib_rows ib)),
      ib\<lparr>ib_rows := filter (\<lambda>r. \<not> inbox_old now keep keep_problems r) (ib_rows ib)\<rparr>)"

definition inbox_status_text :: "inbox_status \<Rightarrow> string" where
  "inbox_status_text st = (case st of INew \<Rightarrow> ''new'' | IRouting \<Rightarrow> ''routing'' | IDone \<Rightarrow> ''done'' | IDropped \<Rightarrow> ''dropped'' | IFailed \<Rightarrow> ''failed'')"

definition inbox_counts :: "inbox \<Rightarrow> nat gomap" where
  "inbox_counts ib = fold (\<lambda>r m. let k = inbox_status_text (ir_status r) in
     gm_set k (Suc (case gm_get m k of Some n \<Rightarrow> n | None \<Rightarrow> 0)) m) (ib_rows ib) []"

section \<open>Every step on the table\<close>

text \<open>In \<open>IbLease\<close> the last number is how long after its first statement the second one runs.\<close>

datatype inbox_op =
    IbInsert occurrence
  | IbLease string int int nat
  | IbDone int string
  | IbDrop int string string
  | IbFail int string string int
  | IbPurge int int

fun inbox_exec :: "inbox_op \<Rightarrow> int \<Rightarrow> inbox \<Rightarrow> inbox" where
  "inbox_exec (IbInsert oc) now ib = snd (inbox_insert now oc ib)"
| "inbox_exec (IbLease worker limit hold gap) now ib = snd (inbox_lease (now - int gap) now worker limit hold ib)"
| "inbox_exec (IbDone i worker) now ib = snd (inbox_done i worker ib)"
| "inbox_exec (IbDrop i worker n) now ib = snd (inbox_drop i worker n ib)"
| "inbox_exec (IbFail i worker n retry_after) now ib = snd (inbox_fail now i worker n retry_after ib)"
| "inbox_exec (IbPurge keep keep_problems) now ib = snd (purge_inbox now keep keep_problems ib)"

fun inbox_actor :: "inbox_op \<Rightarrow> actor" where
  "inbox_actor (IbLease worker _ _ _) = Worker worker"
| "inbox_actor (IbDone _ worker) = Worker worker"
| "inbox_actor (IbDrop _ worker _) = Worker worker"
| "inbox_actor (IbFail _ worker _ _) = Worker worker"
| "inbox_actor _ = Caretaker"

end
