(* ===== verification/Inbox_Facts.thy ===== *)
theory Inbox_Facts
  imports Inbox
begin

text \<open>
  The inbox keeps the contract of \<open>Leases\<close>: what every row satisfies, that every operation keeps
  it and is a step of the abstract machine, and the interpretation of the locale.
\<close>

section \<open>Well-formed tables\<close>

definition inbox_row_ok :: "inbox_row \<Rightarrow> bool" where
  "inbox_row_ok r \<longleftrightarrow> (ir_status r = IRouting \<longleftrightarrow> ir_locked_until r \<noteq> None) \<and> (ir_status r \<noteq> IRouting \<longrightarrow> ir_locked_by r = []) \<and>
     0 \<le> ir_attempts r \<and> (ir_status r = IRouting \<longrightarrow> 1 \<le> ir_attempts r)"

definition delivery_of :: "inbox_row \<Rightarrow> string \<times> string" where
  "delivery_of r = (oc_source (ir_occ r), oc_delivery (ir_occ r))"

definition inbox_good :: "inbox \<Rightarrow> bool" where
  "inbox_good ib \<longleftrightarrow> distinct (map ir_id (ib_rows ib)) \<and> distinct (map delivery_of (ib_rows ib)) \<and>
     (\<forall>r \<in> set (ib_rows ib). ir_id r < ib_next ib \<and> inbox_row_ok r)"

fun inbox_lease_of :: "inbox_row \<Rightarrow> lease" where
  "inbox_lease_of r = (case ir_status r of INew \<Rightarrow> Waiting | IRouting \<Rightarrow> Held (ir_locked_by r) (the (ir_locked_until r)) | _ \<Rightarrow> Over)"

declare inbox_lease_of.simps [simp del]

definition inbox_leases :: "inbox \<Rightarrow> int \<Rightarrow> lease option" where
  "inbox_leases ib i = map_option inbox_lease_of (row_at ir_id (ib_rows ib) i)"

lemma inbox_good_change:
  assumes "inbox_good ib"
    and "\<And>r. ir_id (g r) = ir_id r \<and> ir_occ (g r) = ir_occ r"
    and "\<And>r. r \<in> set (ib_rows ib) \<Longrightarrow> inbox_row_ok r \<Longrightarrow> inbox_row_ok (g r)"
  shows "inbox_good (ib\<lparr>ib_rows := map g (ib_rows ib)\<rparr>)"
proof -
  have "map ir_id (map g rs) = map ir_id rs" "map delivery_of (map g rs) = map delivery_of rs" for rs
    using assms(2) by (simp_all add: delivery_of_def)
  then show ?thesis using assms by (auto simp: inbox_good_def simp del: map_map)
qed

lemma inbox_good_update:
  assumes "inbox_good ib"
    and "\<And>r. ir_id (f r) = ir_id r \<and> ir_occ (f r) = ir_occ r"
    and "\<And>r. r \<in> set (ib_rows ib) \<Longrightarrow> P r \<Longrightarrow> inbox_row_ok r \<Longrightarrow> inbox_row_ok (f r)"
  shows "inbox_good (ib\<lparr>ib_rows := update_where P f (ib_rows ib)\<rparr>)"
  unfolding update_where_def by (rule inbox_good_change) (use assms in auto)

section \<open>Leasing as one change of rows\<close>

definition given_up :: "int \<Rightarrow> inbox_row \<Rightarrow> bool" where
  "given_up now r \<longleftrightarrow> ir_status r = IRouting \<and> ended_before now (ir_locked_until r) \<and> max_attempts \<le> ir_attempts r"

lemma inbox_give_up_rows: "\<exists>f. ib_rows (inbox_give_up now ib) = update_where (given_up now) f (ib_rows ib) \<and>
    (\<forall>r. ir_id (f r) = ir_id r \<and> ir_occ (f r) = ir_occ r \<and> ir_status (f r) = IFailed \<and> ir_attempts (f r) = ir_attempts r \<and>
       ir_locked_by (f r) = [] \<and> ir_locked_until (f r) = None)"
  by (rule exI [of _ "\<lambda>r. r\<lparr>ir_status := IFailed, ir_locked_by := [], ir_locked_until := None,
      ir_note := ''gave up: the worker stopped '' @ itoa (ir_attempts r) @ '' times before finishing it''\<rparr>"])
    (simp add: inbox_give_up_def given_up_def [abs_def])

lemma inbox_give_up_next [simp]: "ib_next (inbox_give_up now ib) = ib_next ib"
  by (simp add: inbox_give_up_def)

lemma give_up_good: "inbox_good ib \<Longrightarrow> inbox_good (inbox_give_up now ib)"
  unfolding inbox_give_up_def by (rule inbox_good_update) (auto simp: inbox_row_ok_def)

definition leased_as :: "int \<Rightarrow> int \<Rightarrow> string \<Rightarrow> int \<Rightarrow> inbox_row \<Rightarrow> inbox_row \<Rightarrow> bool" where
  "leased_as before now worker hold r r' \<longleftrightarrow> r' = r \<or>
     (given_up before r \<and> ir_status r' = IFailed \<and> ir_locked_by r' = [] \<and> ir_locked_until r' = None \<and> ir_attempts r' = ir_attempts r) \<or>
     (\<not> given_up before r \<and> inbox_due now r \<and> r' = inbox_hold worker (now + hold) r)"

text \<open>A row the second statement takes is, in the table before the first, due and not given up.\<close>

lemma inbox_lease_rows:
  assumes "inbox_good ib" "\<not> limit \<le> 0"
  obtains g where "ib_rows (snd (inbox_lease before now worker limit hold ib)) = map g (ib_rows ib)"
    "\<And>r. ir_id (g r) = ir_id r \<and> ir_occ (g r) = ir_occ r"
    "\<And>r. r \<in> set (ib_rows ib) \<Longrightarrow> leased_as before now worker hold r (g r)"
proof -
  obtain f where f: "ib_rows (inbox_give_up before ib) = update_where (given_up before) f (ib_rows ib)"
    "\<And>r. ir_id (f r) = ir_id r \<and> ir_occ (f r) = ir_occ r \<and> ir_status (f r) = IFailed \<and> ir_attempts (f r) = ir_attempts r \<and>
       ir_locked_by (f r) = [] \<and> ir_locked_until (f r) = None"
    using inbox_give_up_rows by metis
  let ?due = "first_by (\<lambda>r. (ir_next_attempt r, ir_id r)) limit (inbox_due now) (ib_rows (inbox_give_up before ib))"
  let ?Q = "\<lambda>r. ir_id r \<in> ir_id ` set ?due"
  define g where "g r = (let r1 = if given_up before r then f r else r in if ?Q r1 then inbox_hold worker (now + hold) r1 else r1)" for r
  have rows: "ib_rows (snd (inbox_lease before now worker limit hold ib)) = map g (ib_rows ib)"
    using assms(2) unfolding g_def update_after_update [symmetric] by (simp add: inbox_lease_def f(1) Let_def)
  have kept: "ir_id (g r) = ir_id r \<and> ir_occ (g r) = ir_occ r" for r
    by (simp add: g_def Let_def inbox_hold_def f(2))
  have d: "distinct (map ir_id (ib_rows (inbox_give_up before ib)))"
    using give_up_good [OF assms(1)] by (simp add: inbox_good_def)
  have due: "inbox_due now r1" if "r1 \<in> set (ib_rows (inbox_give_up before ib))" "?Q r1" for r1
    using chosen [OF d that] .
  have "leased_as before now worker hold r (g r)" if r: "r \<in> set (ib_rows ib)" for r
  proof (cases "given_up before r")
    case True
    have "f r \<in> set (ib_rows (inbox_give_up before ib))" using r True by (force simp: f(1) update_where_def)
    then have "\<not> ?Q (f r)" using due [of "f r"] f(2) [of r] by (auto simp: inbox_due_def)
    then show ?thesis using True f(2) [of r] by (simp add: g_def leased_as_def)
  next
    case False
    have "r \<in> set (ib_rows (inbox_give_up before ib))" using r False by (force simp: f(1) update_where_def)
    then show ?thesis using False due [of r] by (simp add: g_def leased_as_def)
  qed
  with rows kept show ?thesis by (rule that)
qed

lemma inbox_lease_next: "ib_next (snd (inbox_lease before now worker limit hold ib)) = ib_next ib"
  by (simp add: inbox_lease_def Let_def)

section \<open>Every operation keeps the tables well formed\<close>

lemma insert_good: "inbox_good ib \<Longrightarrow> inbox_good (snd (inbox_insert now oc ib))"
  by (fastforce simp: inbox_insert_def inbox_good_def Let_def inbox_row_ok_def delivery_of_def split: option.split)

lemma lease_good:
  assumes "inbox_good ib"
  shows "inbox_good (snd (inbox_lease before now worker limit hold ib))"
proof (cases "limit \<le> 0")
  case False
  from inbox_lease_rows [OF assms False] obtain g where
    g: "ib_rows (snd (inbox_lease before now worker limit hold ib)) = map g (ib_rows ib)"
    "\<And>r. ir_id (g r) = ir_id r \<and> ir_occ (g r) = ir_occ r"
    "\<And>r. r \<in> set (ib_rows ib) \<Longrightarrow> leased_as before now worker hold r (g r)" by blast
  have "inbox_row_ok (g r)" if "r \<in> set (ib_rows ib)" "inbox_row_ok r" for r
    using g(3) [OF that(1)] that(2) by (auto simp: leased_as_def inbox_row_ok_def inbox_hold_def)
  then have "inbox_good (ib\<lparr>ib_rows := map g (ib_rows ib)\<rparr>)" by (rule inbox_good_change [OF assms g(2)])
  then show ?thesis by (simp add: inbox_good_def g(1) inbox_lease_next)
qed (simp add: inbox_lease_def assms)

lemma update_good:
  assumes "inbox_good ib" "\<And>r. ir_id (f r) = ir_id r \<and> ir_occ (f r) = ir_occ r"
    and "\<And>r. inbox_row_ok r \<Longrightarrow> ir_status r = IRouting \<Longrightarrow> inbox_row_ok (f r)"
  shows "inbox_good (snd (inbox_update i worker f ib))"
  unfolding inbox_update_def snd_conv by (rule inbox_good_update) (use assms in \<open>auto simp: inbox_mine_def\<close>)

lemma inbox_exec_good: "inbox_good ib \<Longrightarrow> inbox_good (inbox_exec op now ib)"
proof (cases op)
  case (IbPurge keep keep_problems)
  assume "inbox_good ib"
  then show ?thesis by (auto simp: IbPurge purge_inbox_def inbox_good_def distinct_map_filter)
qed (auto simp: insert_good lease_good inbox_done_def inbox_drop_def inbox_fail_def inbox_finish_def inbox_row_ok_def intro!: update_good)

section \<open>Every operation is a step of the abstract machine\<close>

lemma update_step:
  assumes "\<And>r. ir_id (f r) = ir_id r"
    and "\<And>r. ir_status r = IRouting \<Longrightarrow> ir_locked_by r = worker \<Longrightarrow> inbox_lease_of (f r) \<in> {Waiting, Over}"
  shows "lease_step now (Worker worker) (inbox_leases ib i) (inbox_leases (snd (inbox_update j worker f ib)) i)"
proof -
  have "ib_rows (snd (inbox_update j worker f ib)) = update_where (inbox_mine j worker) f (ib_rows ib)"
    by (simp add: inbox_update_def)
  then show ?thesis unfolding inbox_leases_def
    by (simp only:, intro step_update) (use assms in \<open>force simp: inbox_mine_def inbox_lease_of.simps intro: give_back finish\<close>)+
qed

lemma lease_is_step:
  assumes "inbox_good ib"
  shows "lease_step now (Worker worker) (inbox_leases ib i) (inbox_leases (snd (inbox_lease (now - int gap) now worker limit hold ib)) i)"
proof (cases "limit \<le> 0")
  case False
  from inbox_lease_rows [OF assms False] obtain g where
    g: "ib_rows (snd (inbox_lease (now - int gap) now worker limit hold ib)) = map g (ib_rows ib)"
    "\<And>r. ir_id (g r) = ir_id r \<and> ir_occ (g r) = ir_occ r"
    "\<And>r. r \<in> set (ib_rows ib) \<Longrightarrow> leased_as (now - int gap) now worker hold r (g r)" by blast
  have "lease_step now (Worker worker) (Some (inbox_lease_of r)) (Some (inbox_lease_of (g r)))" if r: "r \<in> set (ib_rows ib)" for r
    using g(3) [OF r] unfolding leased_as_def
  proof (elim disjE conjE)
    assume "given_up (now - int gap) r" "ir_status (g r) = IFailed"
    then show ?thesis
      by (auto simp: given_up_def inbox_lease_of.simps ended_before_def split: option.splits intro!: give_up)
  next
    assume "inbox_due now r" "g r = inbox_hold worker (now + hold) r"
    then show ?thesis
      by (auto simp: inbox_due_def inbox_lease_of.simps inbox_hold_def ended_before_def split: option.splits intro!: take_waiting take_over)
  qed (simp add: stays)
  then show ?thesis unfolding inbox_leases_def g(1) using g(2) by (intro step_map) auto
qed (simp add: inbox_lease_def stays)

lemma inbox_exec_step:
  assumes "inbox_good ib" "i < ib_next ib"
  shows "lease_step now (inbox_actor op) (inbox_leases ib i) (inbox_leases (inbox_exec op now ib) i)"
proof (cases op)
  case (IbInsert oc)
  then show ?thesis using assms
    by (auto simp: inbox_insert_def inbox_leases_def Let_def stays intro!: step_append split: option.split)
next
  case (IbPurge keep keep_problems)
  have "lease_step now Caretaker (inbox_leases ib i) (inbox_leases (snd (purge_inbox now keep keep_problems ib)) i)"
    using assms unfolding inbox_leases_def
    by (auto simp: purge_inbox_def inbox_good_def inbox_old_def inbox_lease_of.simps intro!: step_filter)
  then show ?thesis by (simp add: IbPurge)
next
  case (IbLease worker limit hold gap)
  then show ?thesis using lease_is_step [OF assms(1)] by simp
qed (auto simp: inbox_done_def inbox_drop_def inbox_fail_def inbox_finish_def inbox_lease_of.simps
    intro!: update_step split: if_splits)

interpretation inbox_queue: lease_table inbox_leases ib_next inbox_exec inbox_actor inbox_good
proof
  fix s :: inbox and op now i
  assume good: "inbox_good s"
  show "i < ib_next s \<Longrightarrow> lease_step now (inbox_actor op) (inbox_leases s i) (inbox_leases (inbox_exec op now s) i)"
    by (rule inbox_exec_step [OF good])
  show "ib_next s \<le> i \<Longrightarrow> inbox_leases s i = None"
    using good by (fastforce simp: inbox_leases_def row_at_None inbox_good_def)
  show "ib_next s \<le> ib_next (inbox_exec op now s)"
    by (cases op) (auto simp: inbox_insert_def inbox_lease_next inbox_done_def inbox_drop_def inbox_fail_def inbox_finish_def inbox_update_def
        purge_inbox_def Let_def split: option.split)
  show "inbox_good (inbox_exec op now s)" using good by (rule inbox_exec_good)
qed

end
