(* ===== verification/Inbox_Claims.thy ===== *)
theory Inbox_Claims
  imports Inbox_Facts
begin

text \<open>
  What the inbox promises of the occurrences it holds: none is lost, and one worker at a time has it.
\<close>

definition run_inbox :: "(int \<times> inbox_op) list \<Rightarrow> inbox \<Rightarrow> inbox" where
  "run_inbox ops ib = fold (\<lambda>(t, op). inbox_exec op t) ops ib"

lemma run_inbox_queue: "run_inbox = inbox_queue.run_ops"
  by (intro ext) (simp add: run_inbox_def inbox_queue.run_ops_def)

lemma new_inbox_good: "inbox_good new_inbox"
  by (simp add: inbox_good_def new_inbox_def)

lemma run_inbox_good: "inbox_good (run_inbox ops new_inbox)"
  unfolding run_inbox_queue by (rule inbox_queue.good_run [OF new_inbox_good])

section \<open>An occurrence to try it on\<close>

definition mail_came :: occurrence where
  "mail_came = \<lparr>oc_source = ''mail'', oc_connection = ''c1'', oc_delivery = ''d1'', oc_event = ''mail.came'', oc_facts = [],
     oc_subject_kind = ''email'', oc_subject_value = ''a@b.c'', oc_repeat_key = ''r1'', oc_received = None\<rparr>"

definition mail_row :: inbox_row where
  "mail_row = \<lparr>ir_id = 1, ir_occ = mail_came\<lparr>oc_received := Some 0\<rparr>, ir_status = IRouting, ir_attempts = 1, ir_next_attempt = 0,
     ir_locked_by = ''w1'', ir_locked_until = Some 11, ir_note = [], ir_received = 0\<rparr>"

definition mail_ops :: "(int \<times> inbox_op) list" where
  "mail_ops = [(0, IbInsert mail_came), (1, IbLease ''w1'' 5 10 0)]"

lemma mail_taken: "ib_rows (run_inbox mail_ops new_inbox) = [mail_row]"
  by (simp add: run_inbox_def mail_ops_def inbox_insert_def mail_came_def marshal_args_def new_inbox_def inbox_lease_def Let_def
      inbox_give_up_def update_where_def first_by_def inbox_due_def inbox_hold_def mail_row_def)

section \<open>Nothing is lost\<close>

lemma update_keeps:
  assumes "r \<in> set (ib_rows ib)" "\<And>x. ir_id (f x) = ir_id x \<and> ir_occ (f x) = ir_occ x"
    and "\<not> inbox_mine i w r \<Longrightarrow> Q r" "inbox_mine i w r \<Longrightarrow> Q (f r)"
  shows "\<exists>r' \<in> set (ib_rows (snd (inbox_update i w f ib))). ir_id r' = ir_id r \<and> ir_occ r' = ir_occ r \<and> Q r'"
  using assms by (intro bexI [of _ "if inbox_mine i w r then f r else r"]) (auto simp: inbox_update_def update_where_def)

text \<open>How a step may end an occurrence.\<close>

definition rightly_over :: "inbox_op \<Rightarrow> int \<Rightarrow> inbox_row \<Rightarrow> inbox_row \<Rightarrow> bool" where
  "rightly_over op now r r' \<longleftrightarrow> ir_status r = IRouting \<and>
     ((ir_status r' = IDone \<and> op = IbDone (ir_id r) (ir_locked_by r)) \<or>
      (ir_status r' = IDropped \<and> (\<exists>n. op = IbDrop (ir_id r) (ir_locked_by r) n \<and> ir_note r' = n)) \<or>
      (ir_status r' = IFailed \<and> max_attempts \<le> ir_attempts r \<and>
         ((\<exists>n retry_after. op = IbFail (ir_id r) (ir_locked_by r) n retry_after) \<or> ended_before now (ir_locked_until r))))"

lemma ended_later: "ended_before t l \<Longrightarrow> t \<le> now \<Longrightarrow> ended_before now l"
  by (auto simp: ended_before_def split: option.splits)

lemma lease_keeps:
  assumes good: "inbox_good ib" and r: "r \<in> set (ib_rows ib)"
  shows "\<exists>r' \<in> set (ib_rows (snd (inbox_lease (now - int gap) now w limit hold ib))). ir_id r' = ir_id r \<and> ir_occ r' = ir_occ r \<and>
    (r' = r \<or> ir_status r' = IRouting \<or> (ir_status r' = IFailed \<and> given_up (now - int gap) r))"
proof (cases "limit \<le> 0")
  case False
  from inbox_lease_rows [OF good False] obtain g where
    g: "ib_rows (snd (inbox_lease (now - int gap) now w limit hold ib)) = map g (ib_rows ib)"
    "\<And>r. ir_id (g r) = ir_id r \<and> ir_occ (g r) = ir_occ r"
    "\<And>r. r \<in> set (ib_rows ib) \<Longrightarrow> leased_as (now - int gap) now w hold r (g r)" by blast
  have "g r = r \<or> ir_status (g r) = IRouting \<or> (ir_status (g r) = IFailed \<and> given_up (now - int gap) r)"
    using g(3) [OF r] by (auto simp: leased_as_def inbox_hold_def)
  then show ?thesis using g(1,2) r by (intro bexI [of _ "g r"]) auto
qed (use r in \<open>auto simp: inbox_lease_def\<close>)

text \<open>
  (C34) An accepted occurrence is not lost: as long as it waits or is being worked on, every step
  keeps it, unchanged, and ends it only when its holder reports it done or dropped, or when its last
  attempt has failed or its last holder has let the lease end.
\<close>

theorem occurrence_not_lost:
  assumes "ib = run_inbox before new_inbox" "r \<in> set (ib_rows ib)" "ir_status r \<in> {INew, IRouting}"
  shows "\<exists>r' \<in> set (ib_rows (inbox_exec op now ib)). ir_id r' = ir_id r \<and> ir_occ r' = ir_occ r \<and>
    (ir_status r' \<in> {INew, IRouting} \<or> rightly_over op now r r')"
proof (cases op)
  case (IbLease w limit hold gap)
  have "inbox_good ib" unfolding assms(1) by (rule run_inbox_good)
  from lease_keeps [OF this assms(2)] show ?thesis using assms(3)
    by (fastforce simp: IbLease rightly_over_def given_up_def intro: ended_later)
next
  case (IbInsert oc)
  then show ?thesis using assms(2,3) by (auto simp: inbox_insert_def Let_def split: option.split)
next
  case (IbPurge keep keep_problems)
  have "\<not> inbox_old now keep keep_problems r" using assms(3) by (auto simp: inbox_old_def)
  then show ?thesis using assms(2,3) by (auto simp: IbPurge purge_inbox_def)
next
  case (IbDone i w)
  show ?thesis unfolding IbDone inbox_exec.simps inbox_done_def inbox_finish_def
    by (rule update_keeps [OF assms(2)]) (use assms(3) in \<open>auto simp: inbox_mine_def rightly_over_def\<close>)
next
  case (IbDrop i w n)
  show ?thesis unfolding IbDrop inbox_exec.simps inbox_drop_def inbox_finish_def
    by (rule update_keeps [OF assms(2)]) (use assms(3) in \<open>auto simp: inbox_mine_def rightly_over_def\<close>)
next
  case (IbFail i w n retry_after)
  show ?thesis unfolding IbFail inbox_exec.simps inbox_fail_def
    by (rule update_keeps [OF assms(2)]) (use assms(3) in \<open>auto simp: inbox_mine_def rightly_over_def\<close>)
qed

theorem occurrence_not_lost_witness:
  "\<exists>r' \<in> set (ib_rows (inbox_exec (IbPurge 0 0) 100 (run_inbox mail_ops new_inbox))). ir_occ r' = ir_occ mail_row"
  using occurrence_not_lost [OF refl, of mail_row mail_ops "IbPurge 0 0" 100] by (auto simp: mail_taken mail_row_def)

section \<open>One holder\<close>

lemma inbox_row_unique: "inbox_good ib \<Longrightarrow> r \<in> set (ib_rows ib) \<Longrightarrow> r' \<in> set (ib_rows ib) \<Longrightarrow> ir_id r = ir_id r' \<Longrightarrow> r = r'"
  by (auto simp: inbox_good_def distinct_map dest: inj_onD)

lemma inbox_not_mine:
  assumes good: "inbox_good ib" and r: "r \<in> set (ib_rows ib)" "ir_locked_by r \<noteq> w"
  shows "inbox_update (ir_id r) w f ib = (False, ib)"
proof -
  have none: "\<not> inbox_mine (ir_id r) w x" if "x \<in> set (ib_rows ib)" for x
    using inbox_row_unique [OF good that r(1)] r(2) by (auto simp: inbox_mine_def)
  then have "filter (inbox_mine (ir_id r) w) (ib_rows ib) = []" by (simp add: filter_empty_conv)
  moreover have "update_where (inbox_mine (ir_id r) w) f (ib_rows ib) = ib_rows ib"
    using none by (simp add: update_where_def map_idI)
  ultimately show ?thesis by (simp add: inbox_update_def)
qed

lemma not_leased_out:
  assumes good: "inbox_good ib" and r: "r \<in> set (ib_rows ib)" "ir_status r = IRouting" "ir_locked_until r = Some u" "t \<le> u"
  shows "ir_id r \<notin> lr_id ` set (fst (inbox_lease (t - int gap) t w limit hold ib))"
proof
  let ?rows = "ib_rows (inbox_give_up (t - int gap) ib)"
  assume "ir_id r \<in> lr_id ` set (fst (inbox_lease (t - int gap) t w limit hold ib))"
  then have taken: "ir_id r \<in> ir_id ` set (first_by (\<lambda>r. (ir_next_attempt r, ir_id r)) limit (inbox_due t) ?rows)"
    by (cases "limit \<le> 0") (auto simp: inbox_lease_def Let_def leased_of_def inbox_hold_def image_image)
  have "\<not> ended_before (t - int gap) (ir_locked_until r)" using r by (simp add: ended_before_def)
  then have here: "r \<in> set ?rows" using r(1) by (force simp: inbox_give_up_def update_where_def)
  have d: "distinct (map ir_id ?rows)" using give_up_good [OF good] by (simp add: inbox_good_def)
  have "inbox_due t r" by (rule chosen [OF d here taken])
  then show False using r by (simp add: inbox_due_def ended_before_def)
qed

lemma held_means:
  assumes "inbox_lease_of r = Held w u" "inbox_row_ok r"
  shows "ir_status r = IRouting \<and> ir_locked_by r = w \<and> ir_locked_until r = Some u"
  using assms by (cases "ir_status r"; cases "ir_locked_until r") (simp_all add: inbox_lease_of.simps inbox_row_ok_def)

lemma no_operator: "inbox_actor op \<noteq> Operator"
  by (cases op) simp_all

text \<open>
  An occurrence has one holder: while a worker's lease lasts and it has not reported, no other
  worker gets it or can report on it, whatever the others do; and no delivery of a source is held twice.
\<close>

theorem occurrence_held_by_one:
  assumes ib: "ib = run_inbox before new_inbox"
    and r: "r \<in> set (ib_rows ib)" "ir_status r = IRouting" "ir_locked_by r = w" "ir_locked_until r = Some u"
    and others: "\<forall>(t, op) \<in> set ops. t \<le> u \<and> inbox_actor op \<noteq> Worker w"
    and later: "ib' = run_inbox ops ib"
  shows "(\<exists>r' \<in> set (ib_rows ib'). ir_id r' = ir_id r \<and> ir_status r' = IRouting \<and> ir_locked_by r' = w \<and> ir_locked_until r' = Some u) \<and>
    (\<forall>w' f. w' \<noteq> w \<longrightarrow> inbox_update (ir_id r) w' f ib' = (False, ib')) \<and>
    (\<forall>t gap w' limit hold. t \<le> u \<longrightarrow> ir_id r \<notin> lr_id ` set (fst (inbox_lease (t - int gap) t w' limit hold ib'))) \<and>
    distinct (map (\<lambda>r. (oc_source (ir_occ r), oc_delivery (ir_occ r))) (ib_rows ib'))"
proof -
  have good: "inbox_good ib" unfolding ib by (rule run_inbox_good)
  have good': "inbox_good ib'" unfolding later run_inbox_queue by (rule inbox_queue.good_run [OF good])
  have "row_at ir_id (ib_rows ib) (ir_id r) = Some r" using good r(1) by (simp add: inbox_good_def row_at_of_mem)
  then have "inbox_leases ib (ir_id r) = Some (Held w u)" using r by (simp add: inbox_leases_def inbox_lease_of.simps)
  moreover have "\<forall>(t, op) \<in> set ops. t \<le> u \<and> inbox_actor op \<noteq> Worker w \<and> inbox_actor op \<noteq> Operator"
    using others by (auto simp: no_operator)
  ultimately have "inbox_leases ib' (ir_id r) = Some (Held w u)"
    unfolding later run_inbox_queue by (rule inbox_queue.lease_lasts [OF good])
  then obtain r' where r': "r' \<in> set (ib_rows ib')" "ir_id r' = ir_id r" "inbox_lease_of r' = Held w u"
    by (auto simp: inbox_leases_def dest: row_at_mem)
  have held: "ir_status r' = IRouting" "ir_locked_by r' = w" "ir_locked_until r' = Some u"
    using held_means [OF r'(3)] good' r'(1) by (simp_all add: inbox_good_def)
  have "distinct (map (\<lambda>r. (oc_source (ir_occ r), oc_delivery (ir_occ r))) (ib_rows ib'))"
    using good' by (simp add: inbox_good_def delivery_of_def [abs_def])
  moreover have "inbox_update (ir_id r) w' f ib' = (False, ib')" if "w' \<noteq> w" for w' f
    using inbox_not_mine [OF good' r'(1), of w' f] that by (simp add: r'(2) held(2))
  moreover have "ir_id r \<notin> lr_id ` set (fst (inbox_lease (t - int gap) t w' limit hold ib'))" if "t \<le> u" for t gap w' limit hold
    using not_leased_out [OF good' r'(1) held(1,3) that] by (simp only: r'(2) not_False_eq_True)
  moreover have "\<exists>r' \<in> set (ib_rows ib'). ir_id r' = ir_id r \<and> ir_status r' = IRouting \<and> ir_locked_by r' = w \<and> ir_locked_until r' = Some u"
    using r'(1,2) held by blast
  ultimately show ?thesis by (intro conjI allI impI)
qed

theorem occurrence_held_by_one_witness:
  "fst (inbox_done 1 ''w2'' (run_inbox mail_ops new_inbox)) = False \<and>
   1 \<notin> lr_id ` set (fst (inbox_lease 11 11 ''w2'' 5 10 (run_inbox [(3, IbPurge 0 0)] (run_inbox mail_ops new_inbox))))"
proof -
  have row: "mail_row \<in> set (ib_rows (run_inbox mail_ops new_inbox))" by (simp add: mail_taken)
  have parts: "ir_id mail_row = 1" "ir_status mail_row = IRouting" "ir_locked_by mail_row = ''w1''" "ir_locked_until mail_row = Some 11"
    by (simp_all add: mail_row_def)
  have none: "\<forall>(t, op) \<in> set []. t \<le> (11::int) \<and> inbox_actor op \<noteq> Worker ''w1''" by simp
  have clearing: "\<forall>(t, op) \<in> set [(3, IbPurge 0 0)]. t \<le> (11::int) \<and> inbox_actor op \<noteq> Worker ''w1''" by simp
  note held = occurrence_held_by_one [OF refl row parts(2,3,4) _ refl]
  have "inbox_update (ir_id mail_row) ''w2'' f (run_inbox [] (run_inbox mail_ops new_inbox)) = (False, run_inbox [] (run_inbox mail_ops new_inbox))" for f
    using held [OF none, THEN conjunct2, THEN conjunct1] by simp
  then have "inbox_update 1 ''w2'' f (run_inbox mail_ops new_inbox) = (False, run_inbox mail_ops new_inbox)" for f
    unfolding parts(1) by (simp only: run_inbox_def fold.simps id_apply)
  moreover have "ir_id mail_row \<notin> lr_id ` set (fst (inbox_lease (11 - int 0) 11 ''w2'' 5 10 (run_inbox [(3, IbPurge 0 0)] (run_inbox mail_ops new_inbox))))"
    using held [OF clearing, THEN conjunct2, THEN conjunct2, THEN conjunct1, rule_format, of 11 0 "''w2''" 5 10] by (simp only: order_refl not_False_eq_True)
  ultimately show ?thesis unfolding inbox_done_def inbox_finish_def parts(1) by (simp only: int_ops(1) diff_0_right fst_conv simp_thms)
qed

end
