(* ===== verification/Ingest.thy ===== *)
theory Ingest
  imports Inbox_Facts
begin

text \<open>
  The front of the events pipeline (\<^verbatim>\<open>runtime/ingest.go\<close>, \<^verbatim>\<open>runtime/ratelimit.go\<close>,
  \<^verbatim>\<open>runtime/metrics.go\<close>): a delivery is routed to its connection, checked against that
  connection's secret, read, stored and acknowledged. The adapter of the source and the resolver of
  connections are parameters, and so is the store, which the locale \<open>inbox_store\<close> describes. Log
  lines are left out.
\<close>

section \<open>Throttling clients that keep failing\<close>

record failures =
  fl_count :: int
  fl_since :: int

record failure_limiter =
  lm_max :: int
  lm_window :: int
  lm_seen :: "failures gomap"

definition new_failure_limiter :: "int \<Rightarrow> int \<Rightarrow> failure_limiter" where
  "new_failure_limiter m window = \<lparr>lm_max = m, lm_window = window, lm_seen = []\<rparr>"

definition lapsed :: "int \<Rightarrow> failure_limiter \<Rightarrow> failures \<Rightarrow> bool" where
  "lapsed now l f \<longleftrightarrow> lm_window l < now - fl_since f"

definition blocked :: "int \<Rightarrow> string \<Rightarrow> failure_limiter \<Rightarrow> bool \<times> failure_limiter" where
  "blocked now key l =
     (case gm_get (lm_seen l) key of
        None \<Rightarrow> (False, l)
      | Some f \<Rightarrow>
         (if lapsed now l f then (False, l\<lparr>lm_seen := gm_del key (lm_seen l)\<rparr>) else (lm_max l \<le> fl_count f, l)))"

text \<open>Old clients are forgotten when there are many.\<close>

definition forget_lapsed :: "int \<Rightarrow> failure_limiter \<Rightarrow> failure_limiter" where
  "forget_lapsed now l =
     (if 10000 < length (lm_seen l) then l\<lparr>lm_seen := filter (\<lambda>(k, f). \<not> lapsed now l f) (lm_seen l)\<rparr> else l)"

definition count_failure :: "int \<Rightarrow> string \<Rightarrow> failure_limiter \<Rightarrow> failure_limiter" where
  "count_failure now key l0 =
     (let l = forget_lapsed now l0 in
      case gm_get (lm_seen l) key of
        None \<Rightarrow> l\<lparr>lm_seen := gm_set key \<lparr>fl_count = 1, fl_since = now\<rparr> (lm_seen l)\<rparr>
      | Some f \<Rightarrow>
         (if lapsed now l f then l\<lparr>lm_seen := gm_set key \<lparr>fl_count = 1, fl_since = now\<rparr> (lm_seen l)\<rparr>
          else l\<lparr>lm_seen := gm_set key (f\<lparr>fl_count := fl_count f + 1\<rparr>) (lm_seen l)\<rparr>))"

section \<open>Counters\<close>

text \<open>By source and name; with none, nothing is counted.\<close>

type_synonym metrics = "int gomap gomap"

definition metrics_inc :: "string \<Rightarrow> string \<Rightarrow> metrics option \<Rightarrow> metrics option" where
  "metrics_inc source name m =
     map_option (\<lambda>m. let c = (case gm_get m source of Some c \<Rightarrow> c | None \<Rightarrow> []) in
       gm_set source (gm_set name ((case gm_get c name of Some n \<Rightarrow> n | None \<Rightarrow> 0) + 1) c) m) m"

definition metrics_snapshot :: "metrics option \<Rightarrow> metrics" where
  "metrics_snapshot m = (case m of Some m \<Rightarrow> m | None \<Rightarrow> [])"

definition metrics_sources :: "metrics option \<Rightarrow> string list" where
  "metrics_sources m = sort (map fst (metrics_snapshot m))"

section \<open>A delivery\<close>

text \<open>\<open>dv_body\<close> is \<open>None\<close> when reading it fails; \<open>dv_rest\<close> is all else the adapter reads.\<close>

record 'q delivery =
  dv_fly_client :: string
  dv_remote :: string
  dv_body :: "string option"
  dv_rest :: 'q

text \<open>What the source's adapter does (\<^verbatim>\<open>PushAdapter\<close>).\<close>

record 'q adapter =
  ad_source :: string
  ad_legacy :: "string list"
  ad_route_key :: "'q delivery \<Rightarrow> string \<Rightarrow> string"
  ad_verify :: "string \<Rightarrow> 'q delivery \<Rightarrow> string \<Rightarrow> bool"
  ad_decode :: "'q delivery \<Rightarrow> string \<Rightarrow> goerr + occurrence option"

definition default_max_bytes :: int where "default_max_bytes = 5 * 2 ^ 20"
definition failures_before_throttle :: int where "failures_before_throttle = 30"
definition failure_window :: int where "failure_window = 60 * second"

definition max_bytes_of :: "int \<Rightarrow> int" where
  "max_bytes_of m = (if m \<le> 0 then default_max_bytes else m)"

definition ingest_paths :: "'q adapter \<Rightarrow> string list" where
  "ingest_paths a = (''/events/'' @ ad_source a) # ad_legacy a"

text \<open>\<^verbatim>\<open>net.SplitHostPort\<close>, the host or nothing.\<close>

definition upto_last :: "char \<Rightarrow> string \<Rightarrow> string option" where
  "upto_last c s = (if c \<in> set s then Some (rev (tl (dropWhile (\<lambda>x. x \<noteq> c) (rev s)))) else None)"

definition split_host :: "string \<Rightarrow> string option" where
  "split_host s =
     (case upto_last (CHR '':'') s of
        None \<Rightarrow> None
      | Some h \<Rightarrow>
         (let port = drop (length h) s in
          case s of
            CHR ''['' # inner \<Rightarrow>
              (let host = takeWhile (\<lambda>x. x \<noteq> CHR '']'') inner in
               if h = CHR ''['' # host @ '']'' \<and> CHR ''['' \<notin> set (host @ port) \<and> CHR '']'' \<notin> set port then Some host else None)
          | _ \<Rightarrow> (if CHR '':'' \<in> set h \<or> CHR ''['' \<in> set s \<or> CHR '']'' \<in> set s then None else Some h)))"

definition client_of :: "'q delivery \<Rightarrow> string" where
  "client_of d = (if dv_fly_client d \<noteq> [] then dv_fly_client d
     else case split_host (dv_remote d) of Some host \<Rightarrow> host | None \<Rightarrow> dv_remote d)"

section \<open>Ingest\<close>

text \<open>What the endpoint keeps: the limiter, the store, the counters, and what it told \<^verbatim>\<open>Forward\<close>.\<close>

record 's front =
  ft_limiter :: failure_limiter
  ft_store :: 's
  ft_metrics :: "metrics option"
  ft_forwarded :: "occurrence list"

definition tally :: "string \<Rightarrow> string \<Rightarrow> 's front \<Rightarrow> 's front" where
  "tally source name ft = ft\<lparr>ft_metrics := metrics_inc source name (ft_metrics ft)\<rparr>"

definition refuse :: "int \<Rightarrow> string \<Rightarrow> string \<Rightarrow> string \<Rightarrow> 's front \<Rightarrow> nat \<times> 's front" where
  "refuse now source client name ft =
     (401, (tally source name ft)\<lparr>ft_limiter := count_failure now client (ft_limiter ft)\<rparr>)"

text \<open>From a verified delivery on: read it, store it, tell of it.\<close>

definition stamped :: "int \<Rightarrow> string \<Rightarrow> connection \<Rightarrow> occurrence \<Rightarrow> occurrence" where
  "stamped now src conn oc = oc\<lparr>oc_source := src, oc_connection := cn_id conn, oc_received := Some now\<rparr>"

definition keep_delivery ::
  "int \<Rightarrow> 'q adapter \<Rightarrow> (int \<Rightarrow> occurrence \<Rightarrow> 's \<Rightarrow> (goerr + int \<times> bool) \<times> 's) \<Rightarrow> bool \<Rightarrow> connection \<Rightarrow> 'q delivery \<Rightarrow> string \<Rightarrow>
     's front \<Rightarrow> nat \<times> 's front" where
  "keep_delivery now a keep forward conn d body ft =
     (let src = ad_source a in
      case ad_decode a d body of
        Inl _ \<Rightarrow> (200, tally src ''error'' ft)
      | Inr None \<Rightarrow> (200, tally src ''ignored'' ft)
      | Inr (Some oc0) \<Rightarrow>
         (let oc = stamped now src conn oc0 in
          case keep now oc (ft_store ft) of
            (Inl _, s) \<Rightarrow> (503, tally src ''error'' (ft\<lparr>ft_store := s\<rparr>))
          | (Inr (_, False), s) \<Rightarrow> (200, tally src ''duplicate'' (ft\<lparr>ft_store := s\<rparr>))
          | (Inr (_, True), s) \<Rightarrow>
             (let ft1 = tally src ''stored'' (ft\<lparr>ft_store := s\<rparr>) in
              (200, if forward then tally src ''forwarded'' (ft1\<lparr>ft_forwarded := ft_forwarded ft1 @ [oc]\<rparr>) else ft1))))"

definition ingest ::
  "int \<Rightarrow> 'q adapter \<Rightarrow> (string \<Rightarrow> string \<Rightarrow> goerr + connection list) \<Rightarrow> (int \<Rightarrow> occurrence \<Rightarrow> 's \<Rightarrow> (goerr + int \<times> bool) \<times> 's) \<Rightarrow>
     int \<Rightarrow> bool \<Rightarrow> 'q delivery \<Rightarrow> 's front \<Rightarrow> nat \<times> 's front" where
  "ingest now a resolve keep max_bytes forward d ft0 =
     (let src = ad_source a; ft1 = tally src ''received'' ft0; client = client_of d;
          (stop, l) = blocked now client (ft_limiter ft1); ft = ft1\<lparr>ft_limiter := l\<rparr> in
      if stop then (429, tally src ''throttled'' ft)
      else case dv_body d of
        None \<Rightarrow> (400, ft)
      | Some body \<Rightarrow>
         (if max_bytes_of max_bytes < int (length body) then (413, tally src ''rejected'' ft)
          else case resolve src (ad_route_key a d body) of
            Inl _ \<Rightarrow> (503, tally src ''error'' ft)
          | Inr candidates \<Rightarrow>
             (case find (\<lambda>c. ad_verify a (cn_secret c) d body) candidates of
                None \<Rightarrow> refuse now src client (if candidates = [] then ''unknown'' else ''rejected'') ft
              | Some conn \<Rightarrow> keep_delivery now a keep forward conn d body ft)))"

section \<open>What the endpoint needs of the store\<close>

text \<open>The occurrences a store holds, and what storing one does to them.\<close>

locale inbox_store =
  fixes keep :: "int \<Rightarrow> occurrence \<Rightarrow> 's \<Rightarrow> (goerr + int \<times> bool) \<times> 's"
    and held :: "'s \<Rightarrow> occurrence set"
  assumes stored_keep: "keep now oc s = (Inr (i, True), s') \<Longrightarrow> held s' = held s \<union> {oc\<lparr>oc_received := Some now\<rparr>}"
    and repeated_keep: "keep now oc s = (Inr (i, False), s') \<Longrightarrow>
      held s' = held s \<and> (\<exists>o' \<in> held s. oc_source o' = oc_source oc \<and> oc_delivery o' = oc_delivery oc)"
    and failed_keep: "keep now oc s = (Inl e, s') \<Longrightarrow> held s' = held s"
begin

lemma kept_when_acknowledged:
  assumes "keep_delivery now a keep forward conn d body ft = (200, ft')" "ad_decode a d body = Inr (Some oc)"
  shows "\<exists>o' \<in> held (ft_store ft'). oc_source o' = ad_source a \<and> oc_delivery o' = oc_delivery oc"
  using assms
  by (auto simp: keep_delivery_def Let_def tally_def stamped_def split: prod.splits sum.splits bool.splits if_splits dest!: stored_keep repeated_keep)

text \<open>A verified delivery, as it is stored.\<close>

lemma held_after_keep:
  assumes kept: "keep_delivery now a keep forward conn d body ft = (code, ft')"
  obtains (same) "held (ft_store ft') = held (ft_store ft)" "ft_forwarded ft' = ft_forwarded ft"
  | (new) oc where "ad_decode a d body = Inr (Some oc)" "code = 200"
      "held (ft_store ft') = held (ft_store ft) \<union> {stamped now (ad_source a) conn oc}"
      "ft_forwarded ft' = ft_forwarded ft @ (if forward then [stamped now (ad_source a) conn oc] else [])"
proof -
  consider (unread) "(\<exists>e. ad_decode a d body = Inl e) \<or> ad_decode a d body = Inr None" | (read) oc where "ad_decode a d body = Inr (Some oc)"
    by (cases "ad_decode a d body") auto
  then show thesis
  proof cases
    case unread
    then have "ft_store ft' = ft_store ft \<and> ft_forwarded ft' = ft_forwarded ft"
      using kept by (auto simp: keep_delivery_def tally_def)
    then show thesis by (intro same) simp_all
  next
    case (read oc)
    let ?oc = "stamped now (ad_source a) conn oc"
    have st: "?oc\<lparr>oc_received := Some now\<rparr> = ?oc" by (simp add: stamped_def)
    obtain r s where k: "keep now ?oc (ft_store ft) = (r, s)" by fastforce
    consider (failed) e where "r = Inl e" | (repeated) i where "r = Inr (i, False)" | (stored) i where "r = Inr (i, True)"
      by (metis (full_types) obj_sumE old.prod.exhaust)
    then show thesis
    proof cases
      case (failed e)
      then have "ft_store ft' = s \<and> ft_forwarded ft' = ft_forwarded ft" using kept read k by (auto simp: keep_delivery_def tally_def)
      moreover have "held s = held (ft_store ft)" by (rule failed_keep [OF k [unfolded failed]])
      ultimately show thesis by (intro same) simp_all
    next
      case (repeated i)
      then have "ft_store ft' = s \<and> ft_forwarded ft' = ft_forwarded ft" using kept read k by (auto simp: keep_delivery_def tally_def)
      moreover have "held s = held (ft_store ft)" using repeated_keep [OF k [unfolded repeated]] by blast
      ultimately show thesis by (intro same) simp_all
    next
      case (stored i)
      then have "code = 200 \<and> ft_store ft' = s \<and> ft_forwarded ft' = ft_forwarded ft @ (if forward then [?oc] else [])"
        using kept read k by (auto simp: keep_delivery_def tally_def Let_def split: if_splits)
      moreover have "held s = held (ft_store ft) \<union> {?oc}" using stored_keep [OF k [unfolded stored]] st by simp
      ultimately show thesis using read by (intro new [of oc]) simp_all
    qed
  qed
qed

end

definition inbox_held :: "inbox \<Rightarrow> occurrence set" where
  "inbox_held ib = ir_occ ` set (ib_rows ib)"

interpretation events_inbox: inbox_store inbox_insert inbox_held
  by unfold_locales (auto simp: inbox_insert_def inbox_held_def Let_def split: option.splits if_splits)

end
