(* ===== verification/Ingest_Claims.thy ===== *)
theory Ingest_Claims
  imports Ingest
begin

text \<open>
  What the front of the events pipeline promises: only what a connection's secret vouches for is
  stored, what is acknowledged is stored, and a client that keeps failing is stopped.
\<close>

section \<open>The store\<close>

lemma tally_parts [simp]: "ft_store (tally src n ft) = ft_store ft" "ft_forwarded (tally src n ft) = ft_forwarded ft"
  "ft_limiter (tally src n ft) = ft_limiter ft"
  by (simp_all add: tally_def)

text \<open>The delivery was not throttled, was read whole and is vouched for by this connection, the first that is.\<close>

definition genuine ::
  "int \<Rightarrow> 'q adapter \<Rightarrow> (string \<Rightarrow> string \<Rightarrow> goerr + connection list) \<Rightarrow> int \<Rightarrow> 'q delivery \<Rightarrow> 's front \<Rightarrow> connection \<Rightarrow> string \<Rightarrow> bool" where
  "genuine now a resolve max_bytes d ft conn body \<longleftrightarrow>
     \<not> fst (blocked now (client_of d) (ft_limiter ft)) \<and> dv_body d = Some body \<and> int (length body) \<le> max_bytes_of max_bytes \<and>
     (\<exists>cs. resolve (ad_source a) (ad_route_key a d body) = Inr cs \<and> find (\<lambda>c. ad_verify a (cn_secret c) d body) cs = Some conn)"

lemma ingest_cases:
  assumes "ingest now a resolve keep max_bytes forward d ft = (code, ft')"
  obtains (stopped) "code \<noteq> 200" "ft_store ft' = ft_store ft" "ft_forwarded ft' = ft_forwarded ft"
  | (through) conn body ft1 where "genuine now a resolve max_bytes d ft conn body"
      "ft_store ft1 = ft_store ft" "ft_forwarded ft1 = ft_forwarded ft"
      "keep_delivery now a keep forward conn d body ft1 = (code, ft')"
proof -
  obtain stop l where b: "blocked now (client_of d) (ft_limiter ft) = (stop, l)" by fastforce
  define ft1 where "ft1 = tally (ad_source a) ''received'' ft\<lparr>ft_limiter := l\<rparr>"
  have ft1: "ft_store ft1 = ft_store ft" "ft_forwarded ft1 = ft_forwarded ft" by (simp_all add: ft1_def)
  have run: "(code, ft') = (if stop then (429, tally (ad_source a) ''throttled'' ft1)
      else case dv_body d of
        None \<Rightarrow> (400, ft1)
      | Some body \<Rightarrow>
         (if max_bytes_of max_bytes < int (length body) then (413, tally (ad_source a) ''rejected'' ft1)
          else case resolve (ad_source a) (ad_route_key a d body) of
            Inl _ \<Rightarrow> (503, tally (ad_source a) ''error'' ft1)
          | Inr cs \<Rightarrow>
             (case find (\<lambda>c. ad_verify a (cn_secret c) d body) cs of
                None \<Rightarrow> refuse now (ad_source a) (client_of d) (if cs = [] then ''unknown'' else ''rejected'') ft1
              | Some conn \<Rightarrow> keep_delivery now a keep forward conn d body ft1)))"
    unfolding assms [symmetric] ft1_def by (simp add: ingest_def Let_def b)
  show thesis
  proof (cases "\<exists>conn body. genuine now a resolve max_bytes d ft conn body")
    case True
    then obtain conn body where g: "genuine now a resolve max_bytes d ft conn body" by blast
    then have "keep_delivery now a keep forward conn d body ft1 = (code, ft')"
      using run b by (auto simp: genuine_def)
    then show thesis using through [OF g ft1] by blast
  next
    case False
    have "code \<noteq> 200 \<and> ft_store ft' = ft_store ft \<and> ft_forwarded ft' = ft_forwarded ft"
    proof (cases "dv_body d")
      case (Some body)
      show ?thesis
      proof (cases "resolve (ad_source a) (ad_route_key a d body)")
        case (Inr cs)
        then show ?thesis using False run b Some ft1
          by (cases "find (\<lambda>c. ad_verify a (cn_secret c) d body) cs") (auto simp: genuine_def refuse_def split: if_splits)
      qed (use run Some ft1 in \<open>auto split: if_splits\<close>)
    qed (use run ft1 in \<open>auto split: if_splits\<close>)
    then show thesis using stopped by blast
  qed
qed

text \<open>
  (C33) Only a delivery that one of the resolved connections' secrets vouches for changes what the
  inbox holds or is passed on, stamped with the adapter's source and that connection; and a delivery
  with an event in it that is acknowledged is in the inbox, now or since an earlier delivery.
\<close>

theorem acknowledged_is_kept:
  assumes "ingest now a resolve inbox_insert max_bytes forward d ft = (code, ft')"
  shows "((inbox_held (ft_store ft') = inbox_held (ft_store ft) \<and> ft_forwarded ft' = ft_forwarded ft) \<or>
      (\<exists>conn body oc. genuine now a resolve max_bytes d ft conn body \<and> ad_decode a d body = Inr (Some oc) \<and> code = 200 \<and>
         inbox_held (ft_store ft') = inbox_held (ft_store ft) \<union> {stamped now (ad_source a) conn oc} \<and>
         ft_forwarded ft' = ft_forwarded ft @ (if forward then [stamped now (ad_source a) conn oc] else []))) \<and>
    (code = 200 \<longrightarrow> (\<exists>conn body. genuine now a resolve max_bytes d ft conn body \<and>
       (\<forall>oc. ad_decode a d body = Inr (Some oc) \<longrightarrow>
          (\<exists>o' \<in> inbox_held (ft_store ft'). oc_source o' = ad_source a \<and> oc_delivery o' = oc_delivery oc))))"
  using assms
proof (cases rule: ingest_cases)
  case (through conn body ft1)
  have acked: "\<exists>o' \<in> inbox_held (ft_store ft'). oc_source o' = ad_source a \<and> oc_delivery o' = oc_delivery oc"
    if "code = 200" "ad_decode a d body = Inr (Some oc)" for oc
    using events_inbox.kept_when_acknowledged through(4) that by blast
  from through(4) show ?thesis
  proof (cases rule: events_inbox.held_after_keep)
    case same
    then show ?thesis using through(1,2,3) acked by metis
  next
    case (new oc)
    then show ?thesis using through(1,2,3) acked by metis
  qed
qed auto

section \<open>A delivery to try it on\<close>

definition post :: "string \<Rightarrow> unit delivery" where
  "post sig = \<lparr>dv_fly_client = [], dv_remote = ''1.2.3.4:5'', dv_body = Some sig, dv_rest = ()\<rparr>"

definition crm_event :: occurrence where
  "crm_event = \<lparr>oc_source = [], oc_connection = [], oc_delivery = ''d1'', oc_event = ''crm.changed'', oc_facts = [],
     oc_subject_kind = [], oc_subject_value = [], oc_repeat_key = ''r1'', oc_received = None\<rparr>"

definition crm_adapter :: "unit adapter" where
  "crm_adapter = \<lparr>ad_source = ''crm'', ad_legacy = [], ad_route_key = (\<lambda>_ _. ''k''), ad_verify = (\<lambda>secret _ body. body = secret),
     ad_decode = (\<lambda>_ _. Inr (Some crm_event))\<rparr>"

definition crm_connection :: connection where
  "crm_connection = \<lparr>cn_id = ''c1'', cn_route_key = ''k'', cn_secret = ''s3cret'', cn_creator = ''ann''\<rparr>"

definition crm_resolve :: "string \<Rightarrow> string \<Rightarrow> goerr + connection list" where
  "crm_resolve src key = Inr (if src = ''crm'' then [crm_connection] else [])"

definition new_front :: "inbox front" where
  "new_front = \<lparr>ft_limiter = new_failure_limiter failures_before_throttle failure_window, ft_store = new_inbox, ft_metrics = None, ft_forwarded = []\<rparr>"

lemma crm_accepted:
  "\<exists>ft. ingest 5 crm_adapter crm_resolve inbox_insert 0 True (post ''s3cret'') new_front = (200, ft) \<and>
     inbox_held (ft_store ft) = {stamped 5 ''crm'' crm_connection crm_event}"
  by (simp add: ingest_def Let_def post_def client_of_def blocked_def new_front_def new_failure_limiter_def tally_def metrics_inc_def
      max_bytes_of_def default_max_bytes_def crm_resolve_def crm_adapter_def crm_connection_def keep_delivery_def inbox_insert_def
      marshal_args_def crm_event_def stamped_def new_inbox_def inbox_held_def split_host_def upto_last_def)

theorem acknowledged_is_kept_witness:
  "\<exists>ft. ingest 5 crm_adapter crm_resolve inbox_insert 0 True (post ''s3cret'') new_front = (200, ft) \<and>
     (\<exists>conn body. genuine 5 crm_adapter crm_resolve 0 (post ''s3cret'') new_front conn body)"
proof -
  obtain ft where ft: "ingest 5 crm_adapter crm_resolve inbox_insert 0 True (post ''s3cret'') new_front = (200, ft)"
    using crm_accepted by blast
  show ?thesis using acknowledged_is_kept [OF ft] ft by blast
qed

section \<open>Throttling\<close>

text \<open>Deliveries one after the other, with when they came, through one endpoint.\<close>

fun ingest_all ::
  "'q adapter \<Rightarrow> (string \<Rightarrow> string \<Rightarrow> goerr + connection list) \<Rightarrow> (int \<Rightarrow> occurrence \<Rightarrow> 's \<Rightarrow> (goerr + int \<times> bool) \<times> 's) \<Rightarrow>
     int \<Rightarrow> bool \<Rightarrow> (int \<times> 'q delivery) list \<Rightarrow> 's front \<Rightarrow> (string \<times> nat) list \<times> 's front" where
  "ingest_all a resolve keep max_bytes forward [] ft = ([], ft)"
| "ingest_all a resolve keep max_bytes forward ((t, d) # ds) ft =
     (let (code, ft1) = ingest t a resolve keep max_bytes forward d ft;
          (codes, ft2) = ingest_all a resolve keep max_bytes forward ds ft1 in ((client_of d, code) # codes, ft2))"

definition refusals :: "string \<Rightarrow> (string \<times> nat) list \<Rightarrow> int" where
  "refusals client codes = int (length (filter (\<lambda>(c, code). c = client \<and> code = 401) codes))"

text \<open>No client has more failures counted than the limiter allows; in an interval, how many came before it.\<close>

definition limiter_ok :: "failure_limiter \<Rightarrow> bool" where
  "limiter_ok l \<longleftrightarrow> lm_max l = failures_before_throttle \<and> lm_window l = failure_window \<and> wf_gomap (lm_seen l) \<and>
     (\<forall>k f. gm_get (lm_seen l) k = Some f \<longrightarrow> 0 \<le> fl_count f \<and> fl_count f \<le> failures_before_throttle)"

definition so_far :: "int \<Rightarrow> string \<Rightarrow> failure_limiter \<Rightarrow> int \<Rightarrow> bool" where
  "so_far t0 client l n \<longleftrightarrow>
     (case gm_get (lm_seen l) client of
        None \<Rightarrow> n \<le> failures_before_throttle
      | Some f \<Rightarrow> (if t0 \<le> fl_since f then n \<le> failures_before_throttle + fl_count f else n \<le> fl_count f))"

lemma limiter_ok_get: "limiter_ok l \<Longrightarrow> gm_get (lm_seen l) k = Some f \<Longrightarrow> 0 \<le> fl_count f \<and> fl_count f \<le> failures_before_throttle"
  by (auto simp: limiter_ok_def)

lemma forget_get:
  assumes "limiter_ok l"
  shows "limiter_ok (forget_lapsed now l) \<and> (gm_get (lm_seen (forget_lapsed now l)) k = gm_get (lm_seen l) k \<or>
    (gm_get (lm_seen (forget_lapsed now l)) k = None \<and> (\<exists>f. gm_get (lm_seen l) k = Some f \<and> lapsed now l f)))"
  using assms gm_get_filter [of "lm_seen l" "lapsed now l"]
  by (auto simp: forget_lapsed_def limiter_ok_def split: option.splits)

text \<open>Looking a client up, and counting a failure of a client that is not stopped.\<close>

lemma blocked_keeps:
  assumes "limiter_ok l" "so_far t0 client l n" "t0 \<le> now" "now \<le> t0 + failure_window"
  shows "so_far t0 client (snd (blocked now key l)) n"
  using assms limiter_ok_get [OF assms(1), of client]
  by (force simp: blocked_def so_far_def lapsed_def limiter_ok_def split: option.splits)

lemma blocked_ok: "limiter_ok l \<Longrightarrow> limiter_ok (snd (blocked now key l))"
  by (auto simp: blocked_def limiter_ok_def split: option.splits)

lemma not_blocked:
  assumes "limiter_ok l" "\<not> fst (blocked now key l)" "gm_get (lm_seen (snd (blocked now key l))) key = Some f"
  shows "\<not> lapsed now l f \<and> fl_count f < failures_before_throttle \<and> snd (blocked now key l) = l"
  using assms by (auto simp: blocked_def limiter_ok_def split: option.splits if_splits)

lemma count_ok:
  assumes "limiter_ok l" "\<not> fst (blocked now key l)"
  shows "limiter_ok (count_failure now key (snd (blocked now key l)))"
proof -
  let ?l = "snd (blocked now key l)"
  have ok: "limiter_ok ?l" by (rule blocked_ok [OF assms(1)])
  then have ok': "limiter_ok (forget_lapsed now ?l)" using forget_get by blast
  have "fl_count f < failures_before_throttle \<or> lapsed now (forget_lapsed now ?l) f"
    if "gm_get (lm_seen (forget_lapsed now ?l)) key = Some f" for f
    using forget_get [OF ok, of now key] that not_blocked [OF assms, of f] by auto
  then show ?thesis using ok' by (auto simp: count_failure_def Let_def limiter_ok_def failures_before_throttle_def split: option.splits)
qed

lemma count_counted:
  assumes ok: "limiter_ok l" and free: "\<not> fst (blocked now key l)"
    and c: "so_far t0 client (snd (blocked now key l)) n" and t: "t0 \<le> now" "now \<le> t0 + failure_window"
  shows "so_far t0 client (count_failure now key (snd (blocked now key l))) (if client = key then n + 1 else n)"
proof -
  let ?l = "snd (blocked now key l)"
  have ok1: "limiter_ok ?l" by (rule blocked_ok [OF ok])
  have w: "lm_window (forget_lapsed now ?l) = failure_window" using forget_get [OF ok1] by (auto simp: limiter_ok_def)
  have c1: "so_far t0 client (forget_lapsed now ?l) n"
    using forget_get [OF ok1, of now client] c limiter_ok_get [OF ok1, of client] ok1 t
    by (fastforce simp: so_far_def lapsed_def limiter_ok_def split: option.splits if_splits)
  show ?thesis
  proof (cases "client = key")
    case False
    then show ?thesis using c1 by (auto simp: so_far_def count_failure_def Let_def split: option.splits)
  next
    case True
    have "\<not> lapsed now (forget_lapsed now ?l) f" if "gm_get (lm_seen (forget_lapsed now ?l)) key = Some f" for f
      using forget_get [OF ok1, of now key] that not_blocked [OF ok free, of f] w ok1 by (auto simp: lapsed_def limiter_ok_def)
    then show ?thesis using c1 True t by (auto simp: so_far_def count_failure_def Let_def failures_before_throttle_def split: option.splits if_splits)
  qed
qed

lemma keep_limiter:
  "keep_delivery now a keep forward conn d body ft = (code, ft') \<Longrightarrow> ft_limiter ft' = ft_limiter ft \<and> code \<noteq> 401"
  by (auto simp: keep_delivery_def Let_def split: sum.splits option.splits prod.splits bool.splits if_splits)

lemma ingest_limiter:
  assumes "ingest now a resolve keep max_bytes forward d ft = (code, ft')"
  shows "ft_limiter ft' = (let l = snd (blocked now (client_of d) (ft_limiter ft)) in if code = 401 then count_failure now (client_of d) l else l) \<and>
    (code = 401 \<longrightarrow> \<not> fst (blocked now (client_of d) (ft_limiter ft)))"
  using assms keep_limiter
  by (fastforce simp: ingest_def Let_def refuse_def case_prod_beta' split: if_splits option.splits sum.splits)

lemma ingest_keeps_limiter:
  assumes "ingest now a resolve keep max_bytes forward d ft = (code, ft')" "limiter_ok (ft_limiter ft)"
  shows "limiter_ok (ft_limiter ft')"
  using ingest_limiter [OF assms(1)] blocked_ok [OF assms(2)] count_ok [OF assms(2)] by (auto simp: Let_def)

lemma ingest_all_ok:
  "ingest_all a resolve keep max_bytes forward ds ft = (codes, ft') \<Longrightarrow> limiter_ok (ft_limiter ft) \<Longrightarrow> limiter_ok (ft_limiter ft')"
proof (induction ds arbitrary: ft codes)
  case (Cons x ds)
  obtain t d where x: "x = (t, d)" by fastforce
  obtain code ft1 where i: "ingest t a resolve keep max_bytes forward d ft = (code, ft1)" by fastforce
  from Cons.prems(1) obtain codes1 where "ingest_all a resolve keep max_bytes forward ds ft1 = (codes1, ft')"
    by (auto simp: x i split: prod.splits)
  from Cons.IH [OF this ingest_keeps_limiter [OF i Cons.prems(2)]] show ?case .
qed simp

lemma refusals_Cons: "refusals client (x # xs) = refusals client [x] + refusals client xs"
  by (simp add: refusals_def)

lemma counted_bound:
  assumes "so_far t0 client l n" "limiter_ok l"
  shows "n \<le> 2 * failures_before_throttle"
proof (cases "gm_get (lm_seen l) client")
  case (Some f)
  then show ?thesis using assms limiter_ok_get [OF assms(2) Some] by (auto simp: so_far_def split: if_splits)
qed (use assms in \<open>auto simp: so_far_def failures_before_throttle_def\<close>)

lemma ingest_all_counted:
  assumes "ingest_all a resolve keep max_bytes forward ds ft = (codes, ft')" "limiter_ok (ft_limiter ft)"
    and "so_far t0 client (ft_limiter ft) n" "\<forall>(t, d) \<in> set ds. t0 \<le> t \<and> t \<le> t0 + failure_window"
  shows "so_far t0 client (ft_limiter ft') (n + refusals client codes)"
  using assms
proof (induction ds arbitrary: ft codes n)
  case (Cons x ds)
  obtain t d where x: "x = (t, d)" by fastforce
  obtain code ft1 where i: "ingest t a resolve keep max_bytes forward d ft = (code, ft1)" by fastforce
  from Cons.prems(1) obtain codes1 where
    rest: "ingest_all a resolve keep max_bytes forward ds ft1 = (codes1, ft')" "codes = (client_of d, code) # codes1"
    by (auto simp: x i split: prod.splits)
  have t: "t0 \<le> t" "t \<le> t0 + failure_window" using Cons.prems(4) by (auto simp: x)
  note kept = blocked_keeps [OF Cons.prems(2,3) t, of "client_of d"]
  have "so_far t0 client (ft_limiter ft1) (n + refusals client [(client_of d, code)])"
    using ingest_limiter [OF i] kept count_counted [OF Cons.prems(2) _ kept t]
    by (auto simp: Let_def refusals_def)
  from Cons.IH [OF rest(1) ingest_keeps_limiter [OF i Cons.prems(2)] this] Cons.prems(4)
  have "so_far t0 client (ft_limiter ft') (n + refusals client [(client_of d, code)] + refusals client codes1)" by simp
  then show ?case by (simp add: rest(2) add.assoc refusals_Cons [of client _ codes1])
qed (simp add: refusals_def)

text \<open>
  Throttling: in any interval as long as the window, whatever came before, one client's
  deliveries are refused as unverified at most twice as often as the limiter allows in one window;
  all others of that client are stopped before they are read.
\<close>

theorem failures_throttled:
  assumes "ft_limiter ft0 = new_failure_limiter failures_before_throttle failure_window"
    and "ingest_all a resolve keep max_bytes forward before ft0 = (codes0, ft)"
    and "\<forall>(t, d) \<in> set ds. t0 \<le> t \<and> t \<le> t0 + failure_window"
    and "ingest_all a resolve keep max_bytes forward ds ft = (codes, ft')"
  shows "refusals client codes \<le> 2 * failures_before_throttle"
proof -
  have "limiter_ok (ft_limiter ft0)" by (simp add: assms(1) limiter_ok_def new_failure_limiter_def)
  then have ok: "limiter_ok (ft_limiter ft)" by (rule ingest_all_ok [OF assms(2)])
  then have "so_far t0 client (ft_limiter ft) 0"
    by (auto simp: so_far_def limiter_ok_def failures_before_throttle_def split: option.splits)
  from counted_bound [OF ingest_all_counted [OF assms(4) ok this assms(3)] ingest_all_ok [OF assms(4) ok]] show ?thesis by simp
qed

theorem failures_throttled_witness:
  "\<exists>codes ft. ingest_all crm_adapter crm_resolve inbox_insert 0 True [(5, post ''guess''), (6, post ''again'')] new_front = (codes, ft) \<and>
     refusals ''1.2.3.4'' codes \<le> 60"
proof -
  obtain codes ft where run: "ingest_all crm_adapter crm_resolve inbox_insert 0 True [(5, post ''guess''), (6, post ''again'')] new_front = (codes, ft)"
    by fastforce
  have "ft_limiter new_front = new_failure_limiter failures_before_throttle failure_window" by (simp add: new_front_def)
  from failures_throttled [OF this _ _ run, of "[]" "[]" 0] have "refusals ''1.2.3.4'' codes \<le> 60"
    by (simp add: failure_window_def second_def failures_before_throttle_def)
  then show ?thesis using run by blast
qed

end
