(* ===== verification/Offering.thy ===== *)
theory Offering
  imports Agent_Loop Hydration
begin

text \<open>
  What a message's turn is offered (\<^verbatim>\<open>runtime/requirements.go\<close>, \<^verbatim>\<open>runRoutedTurn\<close> and its helpers in
  \<^verbatim>\<open>runtime/host.go\<close>, \<^verbatim>\<open>runtime/beyond.go\<close>, \<^verbatim>\<open>finishFor\<close> of \<^verbatim>\<open>runtime/proposal_host.go\<close>): the
  abilities of the chosen capabilities are limited, trimmed and completed before the loop gets them.
  Who judges a message (\<^verbatim>\<open>ToolRequirer\<close>, \<^verbatim>\<open>ToolFilter\<close>) is a parameter.
\<close>

section \<open>Lists of actions\<close>

definition act_name :: "'w bound_action \<Rightarrow> string" where
  "act_name a = as_name (ba_spec a)"

definition looks_up :: "'w bound_action \<Rightarrow> bool" where
  "looks_up a \<longleftrightarrow> as_read_only (ba_spec a)"

definition offered_names :: "'w bound_action list \<Rightarrow> string list" where
  "offered_names as = map act_name as"

definition put_action :: "'w bound_action \<Rightarrow> 'w bound_action list \<Rightarrow> 'w bound_action list" where
  "put_action t offered = (if act_name t \<in> set (offered_names offered) then offered else offered @ [t])"

definition put_named :: "'w bound_action list \<Rightarrow> string \<Rightarrow> 'w bound_action list \<Rightarrow> 'w bound_action list" where
  "put_named all_tools name offered =
     (case find (\<lambda>t. act_name t = name) all_tools of None \<Rightarrow> offered | Some t \<Rightarrow> put_action t offered)"

section \<open>Limits and requirements\<close>

definition limit_unattended :: "'w bound_action list \<Rightarrow> string list \<Rightarrow> 'w bound_action list" where
  "limit_unattended tools allowed = filter (\<lambda>t. looks_up t \<or> act_name t \<in> set allowed) tools"

text \<open>What kind of message it is (\<^verbatim>\<open>domain/intent.go\<close>).\<close>

datatype intent = IntentExecute | IntentRecommend | IntentSchedule | IntentChat | IntentOffTopic | IntentOther string

text \<open>Who is asked which changes a message needs: the message, the reply before it, and the changes there are.\<close>

type_synonym 'w requirer = "string \<Rightarrow> string \<Rightarrow> 'w bound_action list \<Rightarrow> goerr + string list"

definition requirements_for ::
  "'w requirer option \<Rightarrow> string \<Rightarrow> string \<Rightarrow> intent \<Rightarrow> 'w bound_action list \<Rightarrow> requirements option" where
  "requirements_for requirer user_text earlier intent tools =
     (case requirer of
        None \<Rightarrow> None
      | Some ask \<Rightarrow>
         (let changing = filter (\<lambda>t. as_changes (ba_spec t)) tools in
          if intent \<noteq> IntentExecute \<or> changing = [] then None
          else case ask user_text earlier changing of
              Inl _ \<Rightarrow> Some \<lparr>rq_tools = [], rq_any_change = True\<rparr>
            | Inr names \<Rightarrow> (if names = [] then None else Some \<lparr>rq_tools = names, rq_any_change = False\<rparr>)))"

definition keep_required :: "'w bound_action list \<Rightarrow> 'w bound_action list \<Rightarrow> requirements option \<Rightarrow> 'w bound_action list" where
  "keep_required offered all_tools reqs =
     (case reqs of None \<Rightarrow> offered | Some r \<Rightarrow> fold (put_named all_tools) (rq_tools r) offered)"

section \<open>What an offered action relies on\<close>

text \<open>What one action brings along; \<open>picked\<close> is what trimming chose, \<open>None\<close> when nothing was trimmed.\<close>

definition brings_along :: "string list option \<Rightarrow> 'w bound_action \<Rightarrow> bool" where
  "brings_along picked a \<longleftrightarrow> (case picked of None \<Rightarrow> True | Some ps \<Rightarrow> act_name a \<in> set ps)"

definition bring :: "string list option \<Rightarrow> 'w bound_action list \<Rightarrow> 'w bound_action \<Rightarrow> 'w bound_action list \<Rightarrow> 'w bound_action list" where
  "bring picked all_tools a offered =
     (let relies = (if brings_along picked a then ba_needs a @ ba_with a else ba_needs a);
          o1 = fold (put_named all_tools) relies offered
      in if brings_along picked a \<and> ba_app a \<noteq> [] \<and> \<not> ba_declared a
         then fold put_action (filter (\<lambda>t. ba_app t = ba_app a \<and> looks_up t) all_tools) o1 else o1)"

lemma offered_names_put: "set (offered_names (put_action t offered)) = insert (act_name t) (set (offered_names offered))"
  by (auto simp: put_action_def offered_names_def)

lemma put_action_grows: "\<exists>xs. put_action t offered = offered @ xs \<and> set xs \<subseteq> {t} \<and> length xs = (if act_name t \<in> set (offered_names offered) then 0 else 1)"
  by (simp add: put_action_def)

text \<open>Whatever is put back is new, from the whole list, and goes to the end.\<close>

definition adds_from :: "'w bound_action list \<Rightarrow> 'w bound_action list \<Rightarrow> 'w bound_action list \<Rightarrow> bool" where
  "adds_from all_tools offered offered' \<longleftrightarrow>
     (\<exists>xs. offered' = offered @ xs \<and> set xs \<subseteq> set all_tools \<and> distinct (offered_names xs) \<and>
        set (offered_names xs) \<inter> set (offered_names offered) = {})"

lemma adds_from_refl [simp]: "adds_from all_tools offered offered"
  by (simp add: adds_from_def offered_names_def)

lemma adds_from_trans:
  assumes "adds_from all_tools a b" "adds_from all_tools b c"
  shows "adds_from all_tools a c"
proof -
  obtain xs ys where "b = a @ xs" "c = b @ ys" "set xs \<subseteq> set all_tools" "set ys \<subseteq> set all_tools"
    "distinct (offered_names xs)" "distinct (offered_names ys)" "set (offered_names xs) \<inter> set (offered_names a) = {}"
    "set (offered_names ys) \<inter> set (offered_names b) = {}"
    using assms by (auto simp: adds_from_def)
  then show ?thesis unfolding adds_from_def offered_names_def by (intro exI [of _ "xs @ ys"]) auto
qed

lemma adds_from_put: "t \<in> set all_tools \<Longrightarrow> adds_from all_tools offered (put_action t offered)"
  by (auto simp: adds_from_def put_action_def offered_names_def)

lemma adds_from_put_named: "adds_from all_tools offered (put_named all_tools name offered)"
  by (auto simp: put_named_def find_Some_iff intro: adds_from_put split: option.split)

lemma adds_from_fold:
  assumes "\<And>x o1. x \<in> set xs \<Longrightarrow> adds_from all_tools o1 (f x o1)"
  shows "adds_from all_tools offered (fold f xs offered)"
  using assms
proof (induction xs arbitrary: offered)
  case (Cons x xs)
  have "adds_from all_tools offered (f x offered)" by (rule Cons.prems) simp
  moreover have "adds_from all_tools (f x offered) (fold f xs (f x offered))" by (rule Cons.IH) (simp add: Cons.prems)
  ultimately show ?case by (simp add: adds_from_trans)
qed simp

lemma adds_from_bring: "adds_from all_tools offered (bring picked all_tools a offered)"
proof -
  have named: "adds_from all_tools offered (fold (put_named all_tools) names offered)" for names
    by (rule adds_from_fold) (rule adds_from_put_named)
  have app: "adds_from all_tools o1 (fold put_action (filter P all_tools) o1)" for P o1
    by (rule adds_from_fold) (simp add: adds_from_put)
  have "adds_from all_tools offered (if b then fold put_action (filter P all_tools) (fold (put_named all_tools) names offered)
      else fold (put_named all_tools) names offered)" for b P names
    using named adds_from_trans [OF named app] by (cases b) (simp_all only: if_True if_False)
  then show ?thesis unfolding bring_def Let_def .
qed

text \<open>The walk over what is offered, which grows under it: \<open>i\<close> is where it stands.\<close>

definition left_to_walk :: "'w bound_action list \<Rightarrow> 'w bound_action list \<Rightarrow> nat \<Rightarrow> nat" where
  "left_to_walk all_tools offered i = card (set (offered_names all_tools) - set (offered_names offered)) + length offered - i"

lemma adds_from_left:
  assumes "adds_from all_tools offered offered'" "i < length offered"
  shows "left_to_walk all_tools offered' (Suc i) < left_to_walk all_tools offered i"
proof -
  obtain xs where xs: "offered' = offered @ xs" "set xs \<subseteq> set all_tools" "distinct (offered_names xs)"
    "set (offered_names xs) \<inter> set (offered_names offered) = {}" using assms(1) by (auto simp: adds_from_def)
  let ?A = "set (offered_names all_tools) - set (offered_names offered)"
  have sub: "set (offered_names xs) \<subseteq> ?A" using xs(2,4) by (auto simp: offered_names_def)
  have "set (offered_names all_tools) - set (offered_names offered') = ?A - set (offered_names xs)"
    by (auto simp: xs(1) offered_names_def)
  moreover have len: "card (set (offered_names xs)) = length xs"
    using distinct_card [OF xs(3)] by (simp add: offered_names_def)
  moreover have "card (?A - set (offered_names xs)) = card ?A - length xs"
    using sub by (simp add: card_Diff_subset len)
  moreover have "length xs \<le> card ?A" using card_mono [OF _ sub] by (simp add: len)
  ultimately show ?thesis using assms(2) by (simp add: left_to_walk_def xs(1))
qed

function walk_needed :: "string list option \<Rightarrow> 'w bound_action list \<Rightarrow> 'w bound_action list \<Rightarrow> nat \<Rightarrow> 'w bound_action list" where
  "walk_needed picked all_tools offered i =
     (if i < length offered then walk_needed picked all_tools (bring picked all_tools (offered ! i) offered) (Suc i) else offered)"
  by pat_completeness auto
termination
  by (relation "measure (\<lambda>(picked, all_tools, offered, i). left_to_walk all_tools offered i)") (simp_all add: adds_from_left [OF adds_from_bring])

declare walk_needed.simps [simp del]

definition keep_needed :: "'w bound_action list \<Rightarrow> 'w bound_action list \<Rightarrow> string list option \<Rightarrow> 'w bound_action list" where
  "keep_needed offered all_tools picked = walk_needed picked all_tools offered 0"

text \<open>What a capability holds an ability to of its own.\<close>

definition guards :: "'w bound_action \<Rightarrow> nat" where
  "guards a = length (ba_needs a) + (if ba_limited a then 1 else 0)"

definition with_changes :: "'w bound_action list \<Rightarrow> 'w bound_action list \<Rightarrow> string list \<Rightarrow> 'w bound_action list" where
  "with_changes filtered all_tools picked =
     (let about = map ba_app (filter (\<lambda>t. act_name t \<in> set picked \<and> ba_app t \<noteq> []) all_tools)
      in filtered @ filter (\<lambda>t. \<not> looks_up t \<and> act_name t \<notin> set (offered_names filtered) \<and> (ba_app t = [] \<or> ba_app t \<in> set about)) all_tools)"


section \<open>The action a turn ends with\<close>

definition outcome_schema :: schema where
  "outcome_schema = Schema TString (''done: the action you were asked to carry out has really run successfully this turn (its result says so). '' @
     ''need_details: you need something from the person first, for example a size or a price. '' @
     (''cannot: you can'' @ [CHR 0x27] @ ''t do it, for example their account isn'' @ [CHR 0x27] @ ''t connected or it wasn'' @ [CHR 0x27] @ ''t approved. '') @
     ''Never choose done unless the action really succeeded.'') [] None [] [outcome_done, outcome_need_details, outcome_cannot]"

text \<open>What the two additions put under their names is text for the model: parameters.\<close>

definition finish_schema_of :: "bool \<Rightarrow> schema option \<Rightarrow> schema option \<Rightarrow> schema" where
  "finish_schema_of with_outcome choices ability =
     Schema TObject []
       ([(''content'', Schema TString ''Your final answer.'' [] None [] [])] @
        (if with_outcome then [(''outcome'', outcome_schema)] else []) @
        (case choices of Some c \<Rightarrow> [(''choices'', c)] | None \<Rightarrow> []) @
        (case ability of Some q \<Rightarrow> [(''no_ability_for_it'', q)] | None \<Rightarrow> []))
       None
       ([''content''] @ (if with_outcome then [''outcome''] else []) @ (if ability \<noteq> None then [''no_ability_for_it''] else [])) []"

text \<open>\<^verbatim>\<open>Invoke\<close> is nil: the loop handles finish itself and never calls it.\<close>

definition build_finish :: "bool \<Rightarrow> schema option \<Rightarrow> schema option \<Rightarrow> 'w bound_action" where
  "build_finish with_outcome choices ability =
     \<lparr>ba_spec = \<lparr>as_name = finish_action_name,
        as_description = ''Call this once you have your final answer for the user.'' @
          (if with_outcome then '' You must say how it ended in outcome.'' else []),
        as_instructions = [], as_input = finish_schema_of with_outcome choices ability,
        as_output = Schema (TOther []) [] [] None [] [], as_max_calls = 0, as_hidden = True, as_read_only = False, as_changes = False\<rparr>,
      ba_invoke = (\<lambda>_ w. ((GNil, Some \<lparr>err_text = [], err_wraps = [GoPanic]\<rparr>), w)), ba_needs = [], ba_app = [], ba_app_name = [], ba_with = [],
      ba_declared = False, ba_limited = False\<rparr>"

definition beyond_abilities :: "loop_result \<Rightarrow> bool" where
  "beyond_abilities r =
     (case res_output r of
        None \<Rightarrow> False
      | Some out \<Rightarrow> (case get_any out ''no_ability_for_it'' of GBool b \<Rightarrow> b | GStr s \<Rightarrow> s = ''true'' | _ \<Rightarrow> False))"

section \<open>What a routed turn is offered\<close>

text \<open>What the host knows of the turn.\<close>

record 'w turn_facts =
  tf_unattended :: bool
  tf_allowed :: "string list"
  tf_look_ups_only :: bool
  tf_user :: "string option"
  tf_platform :: "(skill \<times> 'w bound_action list) list"
  tf_learned :: "string list"
  tf_choices :: "schema option"
  tf_ability_question :: "schema option"

text \<open>\<^verbatim>\<open>finishFor\<close>; only a routed turn of a person asks about abilities.\<close>

definition finish_for :: "'w turn_facts \<Rightarrow> bool \<Rightarrow> bool \<Rightarrow> 'w bound_action" where
  "finish_for tf routed with_outcome =
     build_finish with_outcome (tf_choices tf) (if routed \<and> \<not> tf_unattended tf then tf_ability_question tf else None)"

definition is_platform_action :: "'w turn_facts \<Rightarrow> string \<Rightarrow> bool" where
  "is_platform_action tf name \<longleftrightarrow> (\<exists>(_, as) \<in> set (tf_platform tf). name \<in> set (offered_names as))"

text \<open>\<^verbatim>\<open>respondDirectly\<close>: the first finish there is, and nothing else.\<close>

definition finish_only :: "'w bound_action list \<Rightarrow> 'w bound_action list" where
  "finish_only actions = (case find (\<lambda>a. act_name a = finish_action_name) actions of None \<Rightarrow> [] | Some a \<Rightarrow> [a])"

text \<open>
  How the loop is run on a message: with finish only, or with these actions, held to these
  requirements, and which hint comes with it.
\<close>

datatype hint = NoHint | RecommendHint | LearnedHint

datatype 'w offer =
    Directly hint "'w bound_action list"
  | WithActions hint "'w bound_action list" "requirements option"

text \<open>Trimming: what is kept and what it picked; a filter that fails or keeps nothing trims nothing.\<close>

definition trim_tools ::
  "('w bound_action list \<Rightarrow> goerr + 'w bound_action list) option \<Rightarrow> requirements option \<Rightarrow> intent \<Rightarrow> 'w bound_action list \<Rightarrow>
     'w bound_action list \<times> string list option" where
  "trim_tools tool_filter reqs intent tools =
     (case tool_filter of
        None \<Rightarrow> (tools, None)
      | Some f \<Rightarrow>
         (case f tools of
            Inl _ \<Rightarrow> (tools, None)
          | Inr filtered \<Rightarrow>
             (if filtered = [] then (tools, None)
              else let picked = offered_names filtered @ (case reqs of Some r \<Rightarrow> rq_tools r | None \<Rightarrow> [])
                   in (if intent = IntentExecute then with_changes filtered tools picked else filtered, Some picked))))"

text \<open>A learned skill: whose it is (empty for everyone's) and the tools of its steps.\<close>

record learned_skill =
  le_person :: string
  le_abilities :: "string list"

definition learned_changes :: "bool \<Rightarrow> string option \<Rightarrow> learned_skill list \<Rightarrow> tool_def gomap \<Rightarrow> string list" where
  "learned_changes unattended user learned tools =
     (case user of
        None \<Rightarrow> []
      | Some u \<Rightarrow>
         (if u = [] \<or> unattended then []
          else map model_name (filter (\<lambda>d. \<not> td_read_only d)
            (List.map_filter (gm_get tools) (concat (map le_abilities (filter (\<lambda>s. le_person s = [] \<or> le_person s = u) learned)))))))"

text \<open>The changes of learned skills that a question may have done, each once.\<close>

definition add_learned :: "string list \<Rightarrow> 'w bound_action list \<Rightarrow> 'w bound_action list \<Rightarrow> 'w bound_action list" where
  "add_learned learned all_tools reads = fold put_action (filter (\<lambda>t. act_name t \<in> set learned) all_tools) reads"

definition offered_tools ::
  "'w turn_facts \<Rightarrow> 'w requirer option \<Rightarrow> ('w bound_action list \<Rightarrow> goerr + 'w bound_action list) option \<Rightarrow>
     string \<Rightarrow> string \<Rightarrow> intent \<Rightarrow> 'w bound_action list \<Rightarrow> 'w bound_action list \<times> requirements option" where
  "offered_tools tf requirer tool_filter user_text earlier intent all_tools =
     (let reqs = requirements_for requirer user_text earlier intent all_tools;
          (left, picked) = trim_tools tool_filter reqs intent all_tools
      in (keep_needed (keep_required left all_tools reqs) all_tools picked, reqs))"

definition routed_offer ::
  "'w turn_facts \<Rightarrow> 'w requirer option \<Rightarrow> ('w bound_action list \<Rightarrow> goerr + 'w bound_action list) option \<Rightarrow>
     string \<Rightarrow> string \<Rightarrow> intent \<Rightarrow> 'w bound_action list \<Rightarrow> 'w bound_action list \<Rightarrow> 'w bound_action list \<Rightarrow> 'w offer" where
  "routed_offer tf requirer tool_filter user_text earlier intent actions conv_actions merged =
     (if merged = [] then Directly NoHint (finish_only [finish_for tf True False])
      else let all_tools = (if tf_unattended tf then limit_unattended merged (tf_allowed tf) else merged) in
      if all_tools = [] then Directly NoHint (finish_only actions)
      else let (tools, reqs) = offered_tools tf requirer tool_filter user_text earlier intent all_tools;
               reads = filter (\<lambda>t. looks_up t \<or> is_platform_action tf (act_name t)) tools;
               read_tools = add_learned (tf_learned tf) all_tools reads in
      if intent = IntentRecommend \<and> read_tools = [] then Directly RecommendHint (finish_only [finish_for tf True False])
      else let loop_tools = (if intent = IntentRecommend then read_tools else tools);
               h = (if intent \<noteq> IntentRecommend then NoHint else if length reads < length read_tools then LearnedHint else RecommendHint)
      in WithActions h (loop_tools @ filter (\<lambda>a. act_name a \<notin> set (offered_names loop_tools)) conv_actions @
           [finish_for tf True (reqs \<noteq> None)]) reqs)"

end
