(* ===== verification/Routing.thy ===== *)
theory Routing
  imports Offering Loop_Run
begin

text \<open>
  How a message is routed (\<^verbatim>\<open>routeWithJev\<close> and its helpers in \<^verbatim>\<open>runtime/host.go\<close>,
  \<^verbatim>\<open>runtime/carryover.go\<close>, \<^verbatim>\<open>runtime/platform_skills.go\<close>, \<^verbatim>\<open>lastAssistant\<close> and \<^verbatim>\<open>recentTurn\<close> of
  \<^verbatim>\<open>runtime/requirements.go\<close>): what kind of message it is, which capabilities it is for, what the
  turn is offered, or which fixed words answer it. The router (a service that judges text), the
  loop that runs a turn and the intent handlers are parameters. What routing does beside running
  the loop (telling observers, keeping the last capabilities, delivering a handler's reply) is a
  list of notes; log lines are left out.
\<close>

section \<open>What was said before\<close>

fun last_assistant_from :: "message list \<Rightarrow> (string \<times> message list) option" where
  "last_assistant_from [] = None"
| "last_assistant_from (m # earlier) =
     (if m_role m \<noteq> RoleAssistant then last_assistant_from earlier
      else let t = trim_space (m_content m);
               said = (if t \<noteq> [] then t else fold (\<lambda>c s. if tc_name c = finish_action_name
                 then (case as_str (get_any (tc_args c) ''content'') of Some x \<Rightarrow> trim_space x | None \<Rightarrow> s) else s) (m_tool_calls m) [])
           in if said \<noteq> [] then Some (said, earlier) else last_assistant_from earlier)"

text \<open>The newest reply, and the messages before it, newest first.\<close>

definition last_assistant :: "message list \<Rightarrow> (string \<times> message list) option" where
  "last_assistant msgs = last_assistant_from (rev msgs)"

definition max_earlier_runes :: nat where "max_earlier_runes = 600"

definition last_assistant_text :: "message list \<Rightarrow> string" where
  "last_assistant_text msgs =
     (case last_assistant msgs of
        None \<Rightarrow> []
      | Some (t, _) \<Rightarrow> (if max_earlier_runes < rune_count t then concat (take max_earlier_runes (runes t)) @ ellipsis else t))"

text \<open>\<^verbatim>\<open>domain.Earlier\<close>.\<close>

record earlier =
  er_user :: string
  er_assistant :: string

definition recent_turn :: "message list \<Rightarrow> earlier" where
  "recent_turn msgs =
     (case last_assistant msgs of
        None \<Rightarrow> \<lparr>er_user = [], er_assistant = []\<rparr>
      | Some (reply, prior) \<Rightarrow>
         \<lparr>er_user = (case find (\<lambda>m. m_role m = RoleUser \<and> trim_space (m_content m) \<noteq> []) prior of
            Some m \<Rightarrow> trim_space (m_content m) | None \<Rightarrow> []), er_assistant = reply\<rparr>)"

definition earlier_is_zero :: "earlier \<Rightarrow> bool" where
  "earlier_is_zero e \<longleftrightarrow> er_user e = [] \<and> er_assistant e = []"

section \<open>Follow-ups\<close>

definition max_carry_over_runes :: nat where "max_carry_over_runes = 60"
definition follow_up_for :: int where "follow_up_for = 30 * 60 * 1000000000"
definition last_used_turns :: nat where "last_used_turns = 2"

definition is_short_follow_up :: "string \<Rightarrow> bool" where
  "is_short_follow_up text = (let t = trim_space text in t \<noteq> [] \<and> rune_count t \<le> max_carry_over_runes)"

fun used_back :: "message list \<Rightarrow> nat \<Rightarrow> string list \<Rightarrow> string list" where
  "used_back [] turns used = used"
| "used_back (m # earlier) turns used =
     (if last_used_turns \<le> turns then used
      else case m_role m of
          RoleUser \<Rightarrow> (if used \<noteq> [] then used else used_back earlier (Suc turns) used)
        | RoleAssistant \<Rightarrow> used_back earlier turns (used @ filter (\<lambda>n. n \<noteq> finish_action_name) (map tc_name (m_tool_calls m)))
        | _ \<Rightarrow> used_back earlier turns used)"

definition skills_last_used :: "(skill \<Rightarrow> goerr + 'w bound_action list) \<Rightarrow> skill list \<Rightarrow> message list \<Rightarrow> string list" where
  "skills_last_used hydrate skills msgs =
     (let used = used_back (rev (butlast msgs)) 0 [] in
      map sk_name (filter (\<lambda>s. case hydrate s of Inl _ \<Rightarrow> False | Inr tools \<Rightarrow> \<exists>t \<in> set tools. act_name t \<in> set used) skills))"

section \<open>Fixed words and hints\<close>

definition newline :: string where "newline = [CHR 0x0A]"
definition bullet :: string where "bullet = [CHR 0xE2, CHR 0x80, CHR 0xA2]"

definition decline_text :: "string list \<Rightarrow> string" where
  "decline_text abilities = ''I can'' @ [CHR 0x27] @ ''t help with that one.'' @
     (if abilities = [] then []
      else '' Here'' @ [CHR 0x27] @ ''s what I can do:'' @ concat (map (\<lambda>a. newline @ bullet @ '' '' @ a) abilities) @
        newline @ newline @ ''What would you like to try?'')"

definition fixed_reply :: "message list \<Rightarrow> string \<Rightarrow> loop_result \<times> message list" where
  "fixed_reply msgs text =
     (\<lparr>res_status = LoopComplete, res_content = text, res_output = None, res_actions = []\<rparr>,
      msgs @ [plain_message RoleAssistant text])"

text \<open>\<^verbatim>\<open>withHint\<close>, \<^verbatim>\<open>withSystemNoteBeforeLast\<close>, \<^verbatim>\<open>withDeclineHint\<close>: a note just before the last message.\<close>

definition with_hint :: "message list \<Rightarrow> string \<Rightarrow> message list" where
  "with_hint msgs text =
     (if msgs = [] then [plain_message RoleSystem text] else butlast msgs @ [plain_message RoleSystem text, last msgs])"

definition without_hint :: "message list \<Rightarrow> string \<Rightarrow> message list" where
  "without_hint msgs text = filter (\<lambda>m. \<not> (m_role m = RoleSystem \<and> m_content m = text)) msgs"

definition with_system_addition :: "message list \<Rightarrow> string \<Rightarrow> message list" where
  "with_system_addition msgs text =
     (case msgs of
        [] \<Rightarrow> with_hint msgs text
      | m # rest \<Rightarrow>
         (if m_role m \<noteq> RoleSystem then with_hint msgs text
          else m\<lparr>m_content := m_content m @ newline @ newline @ text\<rparr> # rest))"

definition skill_label :: "skill \<Rightarrow> string" where
  "skill_label s = (let d = trim_space (sk_description s); w = trim_space (replace_all ''_'' '' '' (sk_name s)) in
     if d \<noteq> [] then d else if w \<noteq> [] then w else ''your task'')"

definition max_capability_instructions :: nat where "max_capability_instructions = 4000"

text \<open>The creator's instructions of the chosen capabilities; \<open>frame\<close> is the sentence put before them.\<close>

definition capability_instructions_hint :: "string \<Rightarrow> skill list \<Rightarrow> string list \<Rightarrow> string" where
  "capability_instructions_hint frame all_skills chosen =
     (let part = (\<lambda>s. ''For '' @ [CHR 0x22] @ skill_label s @ [CHR 0x22] @ '':'' @ newline @ trim_space (sk_instructions s));
          parts = map part (filter (\<lambda>s. sk_name s \<in> set chosen \<and> trim_space (sk_instructions s) \<noteq> []) all_skills);
          body = join (newline @ newline) parts
      in if parts = [] then []
         else frame @ (if max_capability_instructions < rune_count body then concat (take max_capability_instructions (runes body)) else body))"

section \<open>A promise to look something up\<close>

definition word_char :: "char \<Rightarrow> bool" where
  "word_char c \<longleftrightarrow> is_digit c \<or> c = CHR ''_'' \<or> (byte c \<in> {65..90}) \<or> (byte c \<in> {97..122})"

text \<open>A phrase that starts here (in lower case; the letters outside ASCII that Go folds to k and s are left out), and, unless it stands for itself, ends where a word ends.\<close>

definition phrase_here :: "string \<Rightarrow> bool \<times> string \<Rightarrow> bool" where
  "phrase_here s = (\<lambda>(ends, p). has_prefix s p \<and> (ends \<longrightarrow> (case drop (length p) s of [] \<Rightarrow> True | c # _ \<Rightarrow> \<not> word_char c)))"

definition promise_phrases :: "(bool \<times> string) list" where
  "promise_phrases =
     (let looks = [''check'', ''look'', ''scan'', ''run'', ''pull'', ''find'', ''analyse'', ''analyze'', ''search'', ''fetch'', ''get''];
          doing = [''checking'', ''looking'', ''scanning'', ''running'', ''pulling'', ''analysing'', ''analyzing'', ''searching'']
      in map (\<lambda>v. (True, ''let me '' @ v)) (looks @ [''see'', ''go'']) @
         map (\<lambda>v. (True, ''i'' @ [CHR 0x27] @ ''ll '' @ v)) looks @ map (\<lambda>v. (True, ''ill '' @ v)) looks @
         map (\<lambda>v. (True, ''i will '' @ v)) looks @
         map (\<lambda>v. (True, ''i'' @ [CHR 0x27] @ ''m '' @ v)) doing @ map (\<lambda>v. (True, ''i am '' @ v)) doing @
         [(False, ''one moment'')] @ map (\<lambda>v. (True, ''give me a '' @ v)) [''moment'', ''second'', ''sec''])"

fun has_phrase :: "(bool \<times> string) list \<Rightarrow> string \<Rightarrow> bool" where
  "has_phrase ps [] = (\<exists>p \<in> set ps. phrase_here [] p)"
| "has_phrase ps (c # s) = ((\<exists>p \<in> set ps. phrase_here (c # s) p) \<or> has_phrase ps s)"

definition promises_lookup :: "loop_result \<Rightarrow> bool" where
  "promises_lookup r = (res_content r \<noteq> [] \<and> has_phrase promise_phrases (to_lower (concat (take 240 (runes (res_content r))))))"


section \<open>Who judges, and what a turn is routed with\<close>

text \<open>A capability as a router is shown it (\<^verbatim>\<open>domain/routing.go\<close>).\<close>

record routed_skill =
  rt_skill :: skill
  rt_tools :: "(string \<times> string) list"

text \<open>\<^verbatim>\<open>SkillRouter\<close> with what it may also implement.\<close>

record router =
  ro_classify :: "(string \<Rightarrow> earlier \<Rightarrow> string \<Rightarrow> goerr + intent) option"
  ro_pick_tools :: "(string \<Rightarrow> earlier \<Rightarrow> routed_skill list \<Rightarrow> goerr + string list \<times> intent) option"
  ro_pick_context :: "(string \<Rightarrow> earlier \<Rightarrow> skill list \<Rightarrow> goerr + string list \<times> intent) option"
  ro_pick :: "string \<Rightarrow> skill list \<Rightarrow> goerr + string list \<times> intent"
  ro_in_scope :: "(string \<Rightarrow> string \<Rightarrow> goerr + bool) option"

text \<open>What runs a turn with these actions on these messages, held to these requirements.\<close>

type_synonym ('w, 's) runner =
  "'w bound_action list \<Rightarrow> message list \<Rightarrow> requirements option \<Rightarrow> 's \<Rightarrow> ((goerr + loop_result) \<times> message list) \<times> 's"

text \<open>
  The rest a turn is routed with: the agent (its description, instructions, capabilities and what it
  tells people it can do), the switches of the host, the messages' texts for the model, the handler of
  each intent, and what the conversation was last routed to, with its age.
\<close>

record 'w routing_host =
  rh_router :: router
  rh_by_tools :: bool
  rh_no_gates :: bool
  rh_description :: string
  rh_instructions :: string
  rh_skills :: "skill list"
  rh_abilities :: "string list"
  rh_hydrate :: "skill \<Rightarrow> goerr + 'w bound_action list"
  rh_requirer :: "'w requirer option"
  rh_filter :: "(string \<Rightarrow> string \<Rightarrow> 'w bound_action list \<Rightarrow> goerr + 'w bound_action list) option"
  rh_handler :: "intent \<Rightarrow> (string \<Rightarrow> string \<Rightarrow> goerr + string) option"
  rh_last_skills :: "(string list \<times> int) option"
  rh_keeps_last :: bool
  rh_hint :: "string \<Rightarrow> string"

datatype 'w route_note =
    NoteUses "string list"
  | NoteCouldNot string
  | NoteDelivered string
  | NoteLastSkills "string list"
  | NoteRan "'w bound_action list"

record ('w, 's) routing =
  rs_state :: 's
  rs_notes :: "'w route_note list"

definition jot_note :: "'w route_note \<Rightarrow> ('w, 's) routing \<Rightarrow> ('w, 's) routing" where
  "jot_note n st = st\<lparr>rs_notes := rs_notes st @ [n]\<rparr>"

definition run_with ::
  "('w, 's) runner \<Rightarrow> 'w bound_action list \<Rightarrow> message list \<Rightarrow> requirements option \<Rightarrow> ('w, 's) routing \<Rightarrow>
     ((goerr + loop_result) \<times> message list) \<times> ('w, 's) routing" where
  "run_with run acts msgs reqs st =
     (let (r, s) = run acts msgs reqs (rs_state st) in (r, (jot_note (NoteRan acts) st)\<lparr>rs_state := s\<rparr>))"

section \<open>What the agent is for\<close>

definition scope_context :: "'w routing_host \<Rightarrow> string" where
  "scope_context h = (let d = trim_space (rh_description h) in if d \<noteq> [] then d else take 500 (trim_space (rh_instructions h)))"

definition scope_of :: "'w routing_host \<Rightarrow> string" where
  "scope_of h = (let about = scope_context h in
     if about = [] \<or> rh_abilities h = [] then about
     else about @ newline @ ''What it can do: '' @ join ''; '' (rh_abilities h))"

definition unrelated_scope :: "'w routing_host \<Rightarrow> 'w turn_facts \<Rightarrow> string" where
  "unrelated_scope h tf =
     (let about = scope_of h;
          also = filter (\<lambda>d. d \<noteq> []) (map (\<lambda>(s, _). trim_space (sk_description s)) (tf_platform tf)) in
      if about = [] \<or> also = [] then about
      else about @ newline @ ''It also, for anyone it talks to: '' @ join '' '' also)"

section \<open>Which capabilities a message is for\<close>

definition skills_for :: "'w routing_host \<Rightarrow> 'w turn_facts \<Rightarrow> skill list" where
  "skills_for h tf = rh_skills h @ map fst (tf_platform tf)"

definition platform_actions :: "'w turn_facts \<Rightarrow> string \<Rightarrow> 'w bound_action list option" where
  "platform_actions tf name = map_option snd (find (\<lambda>(s, _). sk_name s = name) (tf_platform tf))"

definition routed_tool_of :: "'w bound_action \<Rightarrow> string \<times> string" where
  "routed_tool_of a = (act_name a, as_description (ba_spec a))"

definition routed_skills :: "'w routing_host \<Rightarrow> 'w turn_facts \<Rightarrow> routed_skill list" where
  "routed_skills h tf =
     map (\<lambda>s. \<lparr>rt_skill = s, rt_tools = (case rh_hydrate h s of Inl _ \<Rightarrow> [] | Inr ts \<Rightarrow> map routed_tool_of ts)\<rparr>) (rh_skills h) @
     map (\<lambda>(s, as). \<lparr>rt_skill = s, rt_tools = map routed_tool_of as\<rparr>) (tf_platform tf)"

text \<open>The kind of message, when the router can tell; asked once more before it counts as unrelated.\<close>

definition classify :: "'w routing_host \<Rightarrow> 'w turn_facts \<Rightarrow> string \<Rightarrow> earlier \<Rightarrow> intent option" where
  "classify h tf text prior =
     (case ro_classify (rh_router h) of
        None \<Rightarrow> None
      | Some ask \<Rightarrow>
         (case ask text prior (scope_of h) of
            Inl _ \<Rightarrow> None
          | Inr i \<Rightarrow>
             Some (if i = IntentOffTopic \<and> unrelated_scope h tf \<noteq> scope_of h
                   then (case ask text prior (unrelated_scope h tf) of Inr again \<Rightarrow> again | Inl _ \<Rightarrow> i) else i)))"

definition pick_skills :: "'w routing_host \<Rightarrow> 'w turn_facts \<Rightarrow> bool \<Rightarrow> string \<Rightarrow> earlier \<Rightarrow> goerr + string list \<times> intent" where
  "pick_skills h tf classified text prior =
     (if classified \<and> length (rh_skills h) = 1 then Inr ([sk_name (hd (rh_skills h))], IntentOther [])
      else case ro_pick_tools (rh_router h) of
        Some pick \<Rightarrow> (if rh_by_tools h then pick text prior (routed_skills h tf)
          else case ro_pick_context (rh_router h) of
              Some pick' \<Rightarrow> (if \<not> earlier_is_zero prior then pick' text prior (skills_for h tf) else ro_pick (rh_router h) text (skills_for h tf))
            | None \<Rightarrow> ro_pick (rh_router h) text (skills_for h tf))
      | None \<Rightarrow>
         (case ro_pick_context (rh_router h) of
            Some pick' \<Rightarrow> (if \<not> earlier_is_zero prior then pick' text prior (skills_for h tf) else ro_pick (rh_router h) text (skills_for h tf))
          | None \<Rightarrow> ro_pick (rh_router h) text (skills_for h tf)))"

text \<open>With nobody there, or on an edit whose reply already changed something.\<close>

definition settled_intent :: "'w turn_facts \<Rightarrow> intent \<Rightarrow> intent" where
  "settled_intent tf i =
     (let i1 = (if tf_unattended tf \<and> (i = IntentExecute \<or> i = IntentSchedule)
                then (if tf_allowed tf \<noteq> [] then IntentExecute else IntentRecommend)
                else if tf_unattended tf \<and> i = IntentRecommend \<and> tf_allowed tf \<noteq> [] then IntentExecute else i)
      in if tf_look_ups_only tf \<and> i1 \<noteq> IntentChat then IntentRecommend else i1)"

definition follow_up_skills :: "'w routing_host \<Rightarrow> string \<Rightarrow> message list \<Rightarrow> string list \<Rightarrow> string list" where
  "follow_up_skills h text msgs names =
     (if names \<noteq> [] \<or> \<not> is_short_follow_up text then names
      else let kept_names = (case rh_last_skills h of Some (prev, age) \<Rightarrow> if age \<le> follow_up_for then prev else [] | None \<Rightarrow> [])
           in if kept_names \<noteq> [] then kept_names else skills_last_used (rh_hydrate h) (rh_skills h) msgs)"

text \<open>The tools of the chosen capabilities; of two copies of one ability the more guarded one stays.\<close>

definition merge_tool :: "'w bound_action \<Rightarrow> 'w bound_action list \<Rightarrow> 'w bound_action list" where
  "merge_tool t merged =
     (if act_name t \<in> set (offered_names merged)
      then map (\<lambda>m. if act_name m = act_name t \<and> guards m < guards t then t else m) merged
      else merged @ [t])"

definition merge_skill :: "'w routing_host \<Rightarrow> 'w turn_facts \<Rightarrow> string \<Rightarrow> 'w bound_action list \<Rightarrow> 'w bound_action list" where
  "merge_skill h tf name merged =
     (case platform_actions tf name of
        Some acts \<Rightarrow> fold put_action acts merged
      | None \<Rightarrow> fold (\<lambda>s m. case rh_hydrate h s of Inl _ \<Rightarrow> m | Inr tools \<Rightarrow> fold merge_tool tools m)
                 (filter (\<lambda>s. sk_name s = name) (rh_skills h)) merged)"

definition merged_tools :: "'w routing_host \<Rightarrow> 'w turn_facts \<Rightarrow> string list \<Rightarrow> 'w bound_action list" where
  "merged_tools h tf names = fold (merge_skill h tf) names []"

section \<open>Carrying it out\<close>

definition respond_directly ::
  "('w, 's) runner \<Rightarrow> message list \<Rightarrow> 'w bound_action list \<Rightarrow> ('w, 's) routing \<Rightarrow> ((goerr + loop_result) \<times> message list) \<times> ('w, 's) routing" where
  "respond_directly run msgs actions st = run_with run (finish_only actions) msgs None st"

definition chat_reply ::
  "'w routing_host \<Rightarrow> ('w, 's) runner \<Rightarrow> message list \<Rightarrow> 'w bound_action list \<Rightarrow> ('w, 's) routing \<Rightarrow> ((goerr + loop_result) \<times> message list) \<times> ('w, 's) routing" where
  "chat_reply h run msgs actions st =
     (let ((r, final), st1) = respond_directly run (with_hint msgs (rh_hint h ''chat'')) actions (jot_note (NoteUses []) st)
      in ((r, without_hint final (rh_hint h ''chat'')), st1))"

text \<open>The offer is run; an agent that says it could do nothing for the request is noted.\<close>

definition run_routed ::
  "'w routing_host \<Rightarrow> ('w, 's) runner \<Rightarrow> 'w turn_facts \<Rightarrow> string \<Rightarrow> message list \<Rightarrow> 'w offer \<Rightarrow> ('w, 's) routing \<Rightarrow>
     ((goerr + loop_result) \<times> message list) \<times> ('w, 's) routing" where
  "run_routed h run tf text msgs offer st =
     (let hinted = (\<lambda>k. case k of NoHint \<Rightarrow> msgs | RecommendHint \<Rightarrow> with_hint msgs (rh_hint h ''recommend'')
                       | LearnedHint \<Rightarrow> with_hint msgs (rh_hint h ''learned''));
          ((r, final), st1) = (case offer of Directly k acts \<Rightarrow> run_with run acts (hinted k) None st
                              | WithActions k acts reqs \<Rightarrow> run_with run acts (hinted k) reqs st)
      in ((r, final), case r of Inl _ \<Rightarrow> st1
           | Inr x \<Rightarrow> (if \<not> tf_unattended tf \<and> beyond_abilities x then jot_note (NoteCouldNot text) st1 else st1)))"

definition decline ::
  "'w routing_host \<Rightarrow> string \<Rightarrow> message list \<Rightarrow> ('w, 's) routing \<Rightarrow> ((goerr + loop_result) \<times> message list) \<times> ('w, 's) routing" where
  "decline h text msgs st = (let (r, final) = fixed_reply msgs (decline_text (rh_abilities h)) in ((Inr r, final), jot_note (NoteCouldNot text) st))"

text \<open>A question none of the abilities covers: answered without tools, and asked again when it promised a look-up.\<close>

definition answer_in_area ::
  "'w routing_host \<Rightarrow> ('w, 's) runner \<Rightarrow> message list \<Rightarrow> 'w bound_action list \<Rightarrow> ('w, 's) routing \<Rightarrow> ((goerr + loop_result) \<times> message list) \<times> ('w, 's) routing" where
  "answer_in_area h run msgs actions st =
     (let area = rh_hint h ''in area''; again = rh_hint h ''in area'' @ '' '' @ rh_hint h ''in area again'';
          ((r, final), st1) = respond_directly run (with_hint msgs area) actions (jot_note (NoteUses []) st) in
      case r of
        Inr x \<Rightarrow>
         (if \<not> promises_lookup x then ((r, without_hint final area), st1)
          else let ((r2, final2), st2) = respond_directly run (with_hint msgs again) actions st1 in
               (case r2 of
                  Inr y \<Rightarrow> (if promises_lookup y
                    then (let (fr, ff) = fixed_reply msgs (decline_text (rh_abilities h)) in ((Inr fr, ff), st2))
                    else ((r2, without_hint final2 again), st2))
                | Inl _ \<Rightarrow> (let (fr, ff) = fixed_reply msgs (decline_text (rh_abilities h)) in ((Inr fr, ff), st2))))
      | Inl _ \<Rightarrow> ((r, without_hint final area), st1))"


section \<open>Routing\<close>

text \<open>
  An intent handler's answer, when there is one: nothing (it said everything itself), or words that
  are delivered and kept while the result stays silent.
\<close>

definition handled ::
  "'w routing_host \<Rightarrow> 'w turn_facts \<Rightarrow> string \<Rightarrow> message list \<Rightarrow> intent \<Rightarrow> string list \<Rightarrow> ('w, 's) routing \<Rightarrow>
     (((goerr + loop_result) \<times> message list) \<times> ('w, 's) routing) option" where
  "handled h tf text msgs i names st =
     (let silent = \<lparr>res_status = LoopComplete, res_content = [], res_output = None, res_actions = []\<rparr> in
      case rh_handler h i of
        None \<Rightarrow> None
      | Some f \<Rightarrow>
         (if rh_no_gates h \<or> tf_user tf = None \<or> tf_user tf = Some [] then None
          else case f (case names of [] \<Rightarrow> [] | n # _ \<Rightarrow> n) text of
              Inl _ \<Rightarrow> None
            | Inr reply \<Rightarrow>
               (if trim_space reply = [] then Some ((Inr silent, msgs), st)
                else Some ((Inr silent, snd (fixed_reply msgs reply)), jot_note (NoteDelivered reply) st))))"

text \<open>No capability of the agent fits.\<close>

definition nothing_matched ::
  "'w routing_host \<Rightarrow> ('w, 's) runner \<Rightarrow> bool \<Rightarrow> intent \<Rightarrow> string \<Rightarrow> message list \<Rightarrow> 'w bound_action list \<Rightarrow> ('w, 's) routing \<Rightarrow>
     ((goerr + loop_result) \<times> message list) \<times> ('w, 's) routing" where
  "nothing_matched h run classified i text msgs actions st =
     (if rh_skills h \<noteq> []
      then (if classified \<and> i = IntentRecommend then answer_in_area h run msgs actions st else decline h text msgs st)
      else let about = (if rh_description h = [] then take 500 (rh_instructions h) else rh_description h) in
           case ro_in_scope (rh_router h) of
             Some ask \<Rightarrow> (if about \<noteq> [] \<and> ask text about = Inr False
               then respond_directly run (with_hint msgs (rh_hint h ''decline'')) actions st
               else run_with run actions msgs None st)
           | None \<Rightarrow> run_with run actions msgs None st)"

text \<open>From the capabilities on.\<close>

definition run_skills ::
  "'w routing_host \<Rightarrow> ('w, 's) runner \<Rightarrow> 'w turn_facts \<Rightarrow> intent \<Rightarrow> string list \<Rightarrow> string \<Rightarrow> message list \<Rightarrow> 'w bound_action list \<Rightarrow>
     'w bound_action list \<Rightarrow> ('w, 's) routing \<Rightarrow> ((goerr + loop_result) \<times> message list) \<times> ('w, 's) routing" where
  "run_skills h run tf i names text msgs actions conv_actions st =
     (let instr = capability_instructions_hint (rh_hint h ''instructions'') (skills_for h tf) names;
          msgs1 = (if instr \<noteq> [] then with_system_addition msgs instr else msgs);
          offer = routed_offer tf (rh_requirer h) (map_option (\<lambda>f. f text (scope_of h)) (rh_filter h)) text (last_assistant_text msgs1) i
            actions conv_actions (merged_tools h tf names)
      in run_routed h run tf text msgs1 offer (jot_note (NoteUses names) st))"

definition with_intent ::
  "'w routing_host \<Rightarrow> ('w, 's) runner \<Rightarrow> 'w turn_facts \<Rightarrow> bool \<Rightarrow> intent \<Rightarrow> string list \<Rightarrow> string \<Rightarrow> message list \<Rightarrow> 'w bound_action list \<Rightarrow>
     'w bound_action list \<Rightarrow> ('w, 's) routing \<Rightarrow> ((goerr + loop_result) \<times> message list) \<times> ('w, 's) routing" where
  "with_intent h run tf classified i picked text msgs actions conv_actions st =
     (if i = IntentChat \<and> \<not> rh_no_gates h then chat_reply h run msgs actions st
      else let names = follow_up_skills h text msgs picked;
               st1 = (if rh_keeps_last h then jot_note (NoteLastSkills names) st else st) in
           case handled h tf text msgs i names st1 of
             Some r \<Rightarrow> r
           | None \<Rightarrow> (if names = [] then nothing_matched h run classified i text msgs actions st1
                else run_skills h run tf i names text msgs actions conv_actions st1))"

definition route_with_jev ::
  "'w routing_host \<Rightarrow> ('w, 's) runner \<Rightarrow> 'w turn_facts \<Rightarrow> string \<Rightarrow> message list \<Rightarrow> 'w bound_action list \<Rightarrow> 'w bound_action list \<Rightarrow>
     ('w, 's) routing \<Rightarrow> ((goerr + loop_result) \<times> message list) \<times> ('w, 's) routing" where
  "route_with_jev h run tf text msgs actions conv_actions st =
     (let prior = recent_turn msgs;
          kind = map_option (\<lambda>i. if rh_no_gates h \<and> i = IntentChat then IntentRecommend else i) (classify h tf text prior) in
      if kind = Some IntentChat then chat_reply h run msgs actions st
      else if kind = Some IntentOffTopic
      then (if rh_skills h \<noteq> [] then decline h text msgs st
            else respond_directly run (with_hint msgs (rh_hint h ''decline'')) actions (jot_note (NoteCouldNot text) st))
      else case pick_skills h tf (kind \<noteq> None) text prior of
          Inl _ \<Rightarrow> run_with run actions msgs None st
        | Inr (picked, picked_intent) \<Rightarrow>
            with_intent h run tf (kind \<noteq> None) (settled_intent tf (case kind of Some i \<Rightarrow> i | None \<Rightarrow> picked_intent)) picked
              text msgs actions conv_actions st)"

text \<open>\<^verbatim>\<open>runNativeLoop\<close> with the loop of the domain: a new loop, with its own memory of providers, for each run.\<close>

definition native_runner :: "'w llm_env \<Rightarrow> int \<Rightarrow> ('w, 'w) runner" where
  "native_runner env max_iterations acts msgs reqs w =
     (let (r, s) = loop_run \<lparr>lc_env = env, lc_max_iterations = new_max_iterations max_iterations, lc_actions = acts, lc_requirements = reqs\<rparr>
            fresh_breaker msgs w
      in ((r, ls_messages s), ls_world s))"

end
