(* ===== verification/Offering_Facts.thy ===== *)
theory Offering_Facts
  imports Offering Loop_Safety
begin

text \<open>
  What holds of the actions a turn is offered: they come from the capabilities, nothing required is
  trimmed away, and whatever an offered action relies on is offered with it.
\<close>

lemma names_append [simp]: "offered_names (xs @ ys) = offered_names xs @ offered_names ys"
  by (simp add: offered_names_def)

lemma adds_from_mono: "adds_from all_tools a b \<Longrightarrow> set (offered_names a) \<subseteq> set (offered_names b) \<and> set a \<subseteq> set b"
  by (auto simp: adds_from_def)

lemma adds_from_within: "adds_from all_tools a b \<Longrightarrow> set b \<subseteq> set a \<union> set all_tools"
  by (auto simp: adds_from_def)

lemma put_named_has: "name \<in> set (offered_names all_tools) \<Longrightarrow> name \<in> set (offered_names (put_named all_tools name offered))"
proof -
  assume "name \<in> set (offered_names all_tools)"
  then obtain t where t: "find (\<lambda>t. act_name t = name) all_tools = Some t"
    by (cases "find (\<lambda>t. act_name t = name) all_tools") (auto simp: find_None_iff offered_names_def)
  then have "act_name t = name" by (auto simp: find_Some_iff)
  then show ?thesis using t by (simp add: put_named_def offered_names_put)
qed

lemma put_names_has:
  "name \<in> set names \<Longrightarrow> name \<in> set (offered_names all_tools) \<Longrightarrow> name \<in> set (offered_names (fold (put_named all_tools) names offered))"
proof (induction names arbitrary: offered)
  case (Cons n names)
  have "adds_from all_tools o1 (fold (put_named all_tools) names o1)" for o1
    by (rule adds_from_fold) (rule adds_from_put_named)
  then have "set (offered_names o1) \<subseteq> set (offered_names (fold (put_named all_tools) names o1))" for o1
    using adds_from_mono by blast
  then show ?case using Cons put_named_has [of name all_tools offered] by auto
qed simp

lemma put_actions_has: "t \<in> set ts \<Longrightarrow> act_name t \<in> set (offered_names (fold put_action ts offered))"
proof (induction ts arbitrary: offered)
  case (Cons x ts)
  have "adds_from ts o1 (fold put_action ts o1)" for o1 by (rule adds_from_fold) (simp add: adds_from_put)
  then have "set (offered_names o1) \<subseteq> set (offered_names (fold put_action ts o1))" for o1
    using adds_from_mono by blast
  from this [of "put_action x offered"] show ?case using Cons by (auto simp: offered_names_put)
qed simp

section \<open>What an action relies on comes with it\<close>

definition served :: "string list option \<Rightarrow> 'w bound_action list \<Rightarrow> 'w bound_action list \<Rightarrow> 'w bound_action \<Rightarrow> bool" where
  "served picked all_tools offered a \<longleftrightarrow>
     (\<forall>n \<in> set (ba_needs a) \<inter> set (offered_names all_tools). n \<in> set (offered_names offered)) \<and>
     (brings_along picked a \<longrightarrow>
        (\<forall>n \<in> set (ba_with a) \<inter> set (offered_names all_tools). n \<in> set (offered_names offered)) \<and>
        (ba_app a \<noteq> [] \<longrightarrow> \<not> ba_declared a \<longrightarrow>
           (\<forall>t \<in> set all_tools. ba_app t = ba_app a \<longrightarrow> looks_up t \<longrightarrow> act_name t \<in> set (offered_names offered))))"

lemma served_mono: "served picked all_tools o1 a \<Longrightarrow> adds_from all_tools o1 o2 \<Longrightarrow> served picked all_tools o2 a"
  using adds_from_mono [of all_tools o1 o2] unfolding served_def by blast

lemma bring_serves: "served picked all_tools (bring picked all_tools a offered) a"
proof -
  define relies where "relies = (if brings_along picked a then ba_needs a @ ba_with a else ba_needs a)"
  define o1 where "o1 = fold (put_named all_tools) relies offered"
  let ?o2 = "bring picked all_tools a offered"
  have o2: "?o2 = (if brings_along picked a \<and> ba_app a \<noteq> [] \<and> \<not> ba_declared a
      then fold put_action (filter (\<lambda>t. ba_app t = ba_app a \<and> looks_up t) all_tools) o1 else o1)"
    by (simp add: bring_def o1_def relies_def)
  have "adds_from all_tools o1 (fold put_action (filter P all_tools) o1)" for P
    by (rule adds_from_fold) (simp add: adds_from_put)
  then have "adds_from all_tools o1 ?o2" by (simp add: o2)
  then have sub: "set (offered_names o1) \<subseteq> set (offered_names ?o2)" using adds_from_mono by blast
  have "n \<in> set relies \<Longrightarrow> n \<in> set (offered_names all_tools) \<Longrightarrow> n \<in> set (offered_names ?o2)" for n
    using put_names_has [of n relies all_tools offered] sub by (auto simp: o1_def)
  moreover have "act_name t \<in> set (offered_names ?o2)"
    if "t \<in> set all_tools" "ba_app t = ba_app a" "looks_up t" "brings_along picked a" "ba_app a \<noteq> []" "\<not> ba_declared a" for t
    using that put_actions_has [of t "filter (\<lambda>t. ba_app t = ba_app a \<and> looks_up t) all_tools" o1] by (simp add: o2)
  ultimately show ?thesis by (auto simp: served_def relies_def)
qed

lemma walk_serves:
  assumes "\<forall>k < i. served picked all_tools offered (offered ! k)"
  shows "adds_from all_tools offered (walk_needed picked all_tools offered i) \<and>
    (\<forall>a \<in> set (walk_needed picked all_tools offered i). served picked all_tools (walk_needed picked all_tools offered i) a)"
  using assms
proof (induction picked all_tools offered i rule: walk_needed.induct)
  case (1 picked all_tools offered i)
  show ?case
  proof (cases "i < length offered")
    case True
    let ?o = "bring picked all_tools (offered ! i) offered"
    have e: "adds_from all_tools offered ?o" by (rule adds_from_bring)
    then obtain xs where xs: "?o = offered @ xs" by (auto simp: adds_from_def)
    have "served picked all_tools ?o (?o ! k)" if "k < Suc i" for k
    proof (cases "k = i")
      case True
      then show ?thesis using bring_serves xs \<open>i < length offered\<close> by (metis nth_append)
    next
      case False
      then have "k < i" using that by simp
      then show ?thesis using "1.prems" served_mono [OF _ e] xs True by (simp add: nth_append)
    qed
    from "1.IH" [OF True] this have
      "adds_from all_tools ?o (walk_needed picked all_tools ?o (Suc i))"
      "\<forall>a \<in> set (walk_needed picked all_tools ?o (Suc i)). served picked all_tools (walk_needed picked all_tools ?o (Suc i)) a"
      by auto
    then show ?thesis using True adds_from_trans [OF e] by (simp add: walk_needed.simps [of _ _ offered i])
  next
    case False
    then show ?thesis using "1.prems" by (auto simp: walk_needed.simps [of _ _ offered i] in_set_conv_nth)
  qed
qed

lemma keep_needed_facts:
  "adds_from all_tools offered (keep_needed offered all_tools picked)"
  "a \<in> set (keep_needed offered all_tools picked) \<Longrightarrow> served picked all_tools (keep_needed offered all_tools picked) a"
  unfolding keep_needed_def using walk_serves [of 0 picked all_tools offered] by auto

section \<open>The tools a turn is offered\<close>

text \<open>The filter's contract: what it keeps, it was given.\<close>

definition only_trims :: "('w bound_action list \<Rightarrow> goerr + 'w bound_action list) option \<Rightarrow> bool" where
  "only_trims tool_filter \<longleftrightarrow> (\<forall>f ts ts'. tool_filter = Some f \<longrightarrow> f ts = Inr ts' \<longrightarrow> set ts' \<subseteq> set ts)"

lemma with_changes_within: "set (with_changes filtered all_tools picked) \<subseteq> set filtered \<union> set all_tools"
  by (auto simp: with_changes_def Let_def)

lemma trimmed_within:
  assumes "only_trims tool_filter" "trim_tools tool_filter reqs intent ts = (left, picked)"
  shows "set left \<subseteq> set ts"
proof (cases tool_filter)
  case (Some f)
  show ?thesis
  proof (cases "f ts")
    case (Inr filtered)
    have "set filtered \<subseteq> set ts" using assms(1) Some Inr unfolding only_trims_def by blast
    then show ?thesis using assms(2) Some Inr with_changes_within [of filtered ts]
      by (auto simp: trim_tools_def Let_def split: if_splits)
  qed (use assms Some in \<open>simp add: trim_tools_def\<close>)
qed (use assms in \<open>simp add: trim_tools_def\<close>)

lemma keep_required_adds: "adds_from all_tools offered (keep_required offered all_tools reqs)"
  unfolding keep_required_def by (cases reqs) (auto intro: adds_from_fold adds_from_put_named)

lemma keep_required_has:
  "reqs = Some r \<Longrightarrow> n \<in> set (rq_tools r) \<Longrightarrow> n \<in> set (offered_names all_tools) \<Longrightarrow>
     n \<in> set (offered_names (keep_required offered all_tools reqs))"
  by (simp add: keep_required_def put_names_has)

lemma offered_tools_facts:
  assumes "offered_tools tf requirer tool_filter user_text earlier intent all_tools = (tools, reqs)"
  shows "only_trims tool_filter \<Longrightarrow> set tools \<subseteq> set all_tools"
    and "reqs = requirements_for requirer user_text earlier intent all_tools"
    and "reqs = Some r \<Longrightarrow> n \<in> set (rq_tools r) \<Longrightarrow> n \<in> set (offered_names all_tools) \<Longrightarrow> n \<in> set (offered_names tools)"
    and "a \<in> set tools \<Longrightarrow> n \<in> set (ba_needs a) \<Longrightarrow> n \<in> set (offered_names all_tools) \<Longrightarrow> n \<in> set (offered_names tools)"
proof -
  obtain left picked where k: "trim_tools tool_filter (requirements_for requirer user_text earlier intent all_tools) intent all_tools = (left, picked)"
    by fastforce
  have t: "tools = keep_needed (keep_required left all_tools reqs) all_tools picked"
    and r: "reqs = requirements_for requirer user_text earlier intent all_tools"
    using assms by (auto simp: offered_tools_def Let_def k)
  note e = adds_from_trans [OF keep_required_adds [of all_tools left reqs] keep_needed_facts(1) [of all_tools _ picked], folded t]
  show "reqs = requirements_for requirer user_text earlier intent all_tools" by (rule r)
  show "only_trims tool_filter \<Longrightarrow> set tools \<subseteq> set all_tools"
    using adds_from_within [OF e] trimmed_within [OF _ k] by blast
  show "reqs = Some r \<Longrightarrow> n \<in> set (rq_tools r) \<Longrightarrow> n \<in> set (offered_names all_tools) \<Longrightarrow> n \<in> set (offered_names tools)"
    using keep_required_has [of reqs r n all_tools left] adds_from_mono [OF keep_needed_facts(1) [of all_tools "keep_required left all_tools reqs" picked]]
    by (auto simp: t)
  show "a \<in> set tools \<Longrightarrow> n \<in> set (ba_needs a) \<Longrightarrow> n \<in> set (offered_names all_tools) \<Longrightarrow> n \<in> set (offered_names tools)"
    using keep_needed_facts(2) [of a "keep_required left all_tools reqs" all_tools picked] by (auto simp: t served_def)
qed

end
