(* ===== verification/Routing_Facts.thy ===== *)
theory Routing_Facts
  imports Routing Offering_Facts Turn
begin

text \<open>
  What holds of a routed message whatever the router says. The locale \<open>turn_runner\<close> is what routing
  relies on in the loop it hands actions to: a fact about the world that every one of them keeps, the
  whole run keeps. Interpreted by the loop of the domain.
\<close>

locale turn_runner =
  fixes run :: "('w, 's) runner" and P :: "'s \<Rightarrow> bool" and fine :: "'w bound_action \<Rightarrow> bool"
  assumes keeps: "(\<forall>a \<in> set acts. fine a) \<Longrightarrow> P s \<Longrightarrow> P (snd (run acts msgs reqs s))"
    and finish_fine: "act_name a = finish_action_name \<Longrightarrow> fine a"
begin

lemma run_with_keeps: "\<forall>a \<in> set acts. fine a \<Longrightarrow> P (rs_state st) \<Longrightarrow> P (rs_state (snd (run_with run acts msgs reqs st)))"
  using keeps [of acts "rs_state st" msgs reqs] by (simp add: run_with_def jot_note_def case_prod_beta' Let_def)

lemma finish_only_fine: "a \<in> set (finish_only actions) \<Longrightarrow> fine a"
  by (cases "find (\<lambda>a. act_name a = finish_action_name) actions") (auto simp: finish_only_def find_Some_iff finish_fine)

lemma respond_keeps: "P (rs_state st) \<Longrightarrow> P (rs_state (snd (respond_directly run msgs actions st)))"
  unfolding respond_directly_def by (rule run_with_keeps) (simp_all add: finish_only_fine)

lemma jot_state [simp]: "rs_state (jot_note n st) = rs_state st"
  by (simp add: jot_note_def)

lemma chat_keeps: "P (rs_state st) \<Longrightarrow> P (rs_state (snd (chat_reply h run msgs actions st)))"
  using respond_keeps [of "jot_note (NoteUses []) st"] by (simp add: chat_reply_def case_prod_beta' Let_def)

lemma decline_keeps: "P (rs_state st) \<Longrightarrow> P (rs_state (snd (decline h text msgs st)))"
  by (simp add: decline_def fixed_reply_def)

lemma in_area_keeps:
  assumes "P (rs_state st)"
  shows "P (rs_state (snd (answer_in_area h run msgs actions st)))"
proof -
  obtain r final st1 where 1: "respond_directly run (with_hint msgs (rh_hint h ''in area'')) actions (jot_note (NoteUses []) st) = ((r, final), st1)"
    by (metis surj_pair)
  obtain r2 final2 st2 where 2: "respond_directly run (with_hint msgs (rh_hint h ''in area'' @ '' '' @ rh_hint h ''in area again'')) actions st1 = ((r2, final2), st2)"
    by (metis surj_pair)
  have p1: "P (rs_state st1)" using respond_keeps [of "jot_note (NoteUses []) st"] assms 1 by (metis jot_state snd_conv)
  have p2: "P (rs_state st2)" using respond_keeps [OF p1] 2 by (metis snd_conv)
  show ?thesis using p1 p2
    by (simp only: answer_in_area_def 1 2 Let_def fixed_reply_def prod.case) (simp split: sum.split)
qed

definition fine_offer :: "'w offer \<Rightarrow> bool" where
  "fine_offer o1 \<longleftrightarrow> (case o1 of Directly k acts \<Rightarrow> \<forall>a \<in> set acts. fine a | WithActions k acts reqs \<Rightarrow> \<forall>a \<in> set acts. fine a)"

lemma run_routed_keeps:
  assumes "P (rs_state st)" "fine_offer offer"
  shows "P (rs_state (snd (run_routed h run tf text msgs offer st)))"
proof -
  obtain acts reqs where o1: "\<forall>a \<in> set acts. fine a" "\<exists>ms. (case offer of
      Directly k as \<Rightarrow> run_with run as (case k of NoHint \<Rightarrow> msgs | RecommendHint \<Rightarrow> with_hint msgs (rh_hint h ''recommend'')
                       | LearnedHint \<Rightarrow> with_hint msgs (rh_hint h ''learned'')) None st
    | WithActions k as rq \<Rightarrow> run_with run as (case k of NoHint \<Rightarrow> msgs | RecommendHint \<Rightarrow> with_hint msgs (rh_hint h ''recommend'')
                       | LearnedHint \<Rightarrow> with_hint msgs (rh_hint h ''learned'')) rq st) = run_with run acts ms reqs st"
    using assms(2) by (cases offer) (auto simp: fine_offer_def)
  then obtain ms where o2: "(case offer of
      Directly k as \<Rightarrow> run_with run as (case k of NoHint \<Rightarrow> msgs | RecommendHint \<Rightarrow> with_hint msgs (rh_hint h ''recommend'')
                       | LearnedHint \<Rightarrow> with_hint msgs (rh_hint h ''learned'')) None st
    | WithActions k as rq \<Rightarrow> run_with run as (case k of NoHint \<Rightarrow> msgs | RecommendHint \<Rightarrow> with_hint msgs (rh_hint h ''recommend'')
                       | LearnedHint \<Rightarrow> with_hint msgs (rh_hint h ''learned'')) rq st) = run_with run acts ms reqs st" by blast
  obtain r final st1 where r: "run_with run acts ms reqs st = ((r, final), st1)" by (metis surj_pair)
  have "P (rs_state st1)" using run_with_keeps [OF o1(1) assms(1), of ms reqs] r by simp
  then show ?thesis by (simp add: run_routed_def Let_def o2 r split: sum.split)
qed

lemma handled_state: "handled h tf text msgs i names st = Some r \<Longrightarrow> rs_state (snd r) = rs_state st"
  by (auto simp: handled_def Let_def split: option.splits if_splits sum.splits)

text \<open>From the intent on, when the agent has capabilities.\<close>

lemma with_intent_keeps:
  assumes p: "P (rs_state st)" and skills: "rh_skills h \<noteq> []"
    and offers: "\<And>earlier names. fine_offer (routed_offer tf (rh_requirer h) (map_option (\<lambda>f. f text (scope_of h)) (rh_filter h)) text earlier i
      actions conv_actions (merged_tools h tf names))"
  shows "P (rs_state (snd (with_intent h run tf classified i picked text msgs actions conv_actions st)))"
proof -
  define names where "names = follow_up_skills h text msgs picked"
  define st1 where "st1 = (if rh_keeps_last h then jot_note (NoteLastSkills names) st else st)"
  have p1: "P (rs_state st1)" using p by (simp add: st1_def)
  have none: "P (rs_state (snd (nothing_matched h run classified i text msgs actions st1)))"
    using skills in_area_keeps [OF p1] decline_keeps [OF p1] by (simp add: nothing_matched_def)
  have some: "P (rs_state (snd (run_skills h run tf i names text msgs actions conv_actions st1)))"
    unfolding run_skills_def Let_def by (rule run_routed_keeps) (use p1 offers in simp_all)
  have "P (rs_state (snd r))" if "handled h tf text msgs i names st1 = Some r" for r
    using handled_state [OF that] p1 by simp
  then show ?thesis using chat_keeps [OF p] none some
    unfolding with_intent_def Let_def names_def [symmetric] st1_def [symmetric]
    by (auto split: option.split)
qed

lemma route_keeps:
  assumes p: "P (rs_state st)" and skills: "rh_skills h \<noteq> []"
    and picks: "\<And>c. \<exists>r. pick_skills h tf c text (recent_turn msgs) = Inr r"
    and offers: "\<And>earlier names i. fine_offer (routed_offer tf (rh_requirer h) (map_option (\<lambda>f. f text (scope_of h)) (rh_filter h)) text earlier (settled_intent tf i)
      actions conv_actions (merged_tools h tf names))"
  shows "P (rs_state (snd (route_with_jev h run tf text msgs actions conv_actions st)))"
proof -
  note w = with_intent_keeps [OF p skills offers]
  define rd where "rd = map_option (\<lambda>i. if rh_no_gates h \<and> i = IntentChat then IntentRecommend else i) (classify h tf text (recent_turn msgs))"
  obtain picked i1 where r: "pick_skills h tf (rd \<noteq> None) text (recent_turn msgs) = Inr (picked, i1)"
    using picks [of "rd \<noteq> None"] by auto
  have "route_with_jev h run tf text msgs actions conv_actions st =
    (if rd = Some IntentChat then chat_reply h run msgs actions st
     else if rd = Some IntentOffTopic then decline h text msgs st
     else with_intent h run tf (rd \<noteq> None) (settled_intent tf (case rd of Some i \<Rightarrow> i | None \<Rightarrow> i1)) picked text msgs actions conv_actions st)"
    unfolding route_with_jev_def Let_def rd_def [symmetric] r using skills by simp
  then show ?thesis using chat_keeps [OF p] decline_keeps [OF p] w by simp
qed

end

section \<open>The loop of the domain\<close>

definition keeps_fact :: "('w \<Rightarrow> bool) \<Rightarrow> 'w bound_action \<Rightarrow> bool" where
  "keeps_fact P a \<longleftrightarrow> (\<forall>inp w. P w \<longrightarrow> P (snd (ba_invoke a inp w)))"

definition models_keep :: "'w llm_env \<Rightarrow> ('w \<Rightarrow> bool) \<Rightarrow> bool" where
  "models_keep env P \<longleftrightarrow> (\<forall>p \<in> set (le_llms env). \<forall>msgs specs w. P w \<longrightarrow> P (snd (p msgs specs w))) \<and>
     (\<forall>d w. P w \<longrightarrow> P (snd (le_wait env d w)))"

definition may_be_run :: "('w \<Rightarrow> bool) \<Rightarrow> 'w bound_action \<Rightarrow> bool" where
  "may_be_run P a \<longleftrightarrow> act_name a = finish_action_name \<or> keeps_fact P a"

definition fact_if_quiet :: "'w llm_env \<Rightarrow> ('w \<Rightarrow> bool) \<Rightarrow> 'w \<Rightarrow> bool" where
  "fact_if_quiet env P w \<longleftrightarrow> (models_keep env P \<longrightarrow> P w)"

lemma fact_world_invariant:
  assumes "\<forall>a \<in> set (lc_actions cfg). may_be_run P a"
  shows "world_invariant cfg (\<lambda>w _. fact_if_quiet (lc_env cfg) P w)"
proof
  fix w w' :: 'a and runs :: "(string \<times> args \<times> bool) list" and msgs specs b b' and r :: "goerr + llm_response"
  assume q: "fact_if_quiet (lc_env cfg) P w" and c: "call_llm (lc_env cfg) msgs specs b w = (r, b', w')"
  have "models_keep (lc_env cfg) P \<Longrightarrow> P w \<Longrightarrow> P w'"
    by (rule call_llm_keeps [OF _ _ _ c]) (auto simp: models_keep_def)
  then show "fact_if_quiet (lc_env cfg) P w'" using q by (simp add: fact_if_quiet_def)
next
  fix w w' :: 'a and runs :: "(string \<times> args \<times> bool) list" and n act inp out err
  assume q: "fact_if_quiet (lc_env cfg) P w" and f: "find_action cfg n = Some act" "n \<noteq> finish_action_name"
    and i: "ba_invoke act inp w = ((out, err), w')"
  have "(n, act) \<in> set (map (\<lambda>a. (as_name (ba_spec a), a)) (lc_actions cfg))"
    using f(1) map_of_SomeD unfolding find_action_def by fastforce
  then have "keeps_fact P act" using assms f(2) by (auto simp: may_be_run_def act_name_def)
  then show "fact_if_quiet (lc_env cfg) P w'" using q i unfolding fact_if_quiet_def keeps_fact_def by (metis snd_conv)
qed

interpretation domain_loop: turn_runner "native_runner env n" "fact_if_quiet env P" "may_be_run P"
  for env :: "'w llm_env" and n :: int and P :: "'w \<Rightarrow> bool"
proof
  fix acts :: "'w bound_action list" and s msgs reqs
  let ?cfg = "\<lparr>lc_env = env, lc_max_iterations = new_max_iterations n, lc_actions = acts, lc_requirements = reqs\<rparr>"
  assume "\<forall>a \<in> set acts. may_be_run P a" and p: "fact_if_quiet env P s"
  then have "world_invariant ?cfg (\<lambda>w _. fact_if_quiet (lc_env ?cfg) P w)" by (intro fact_world_invariant) simp
  from world_invariant.holds_after [OF this, of s fresh_breaker msgs] p
  show "fact_if_quiet env P (snd (native_runner env n acts msgs reqs s))"
    by (simp add: native_runner_def case_prod_beta' Let_def)
qed (simp add: may_be_run_def)

end
