(* ===== verification/Routing_Claims.thy ===== *)
theory Routing_Claims
  imports Routing_Facts
begin

text \<open>
  What routing promises: an unattended turn changes only what was agreed to, what a request needs is
  offered with what it relies on, a creator's guards survive the merging of capabilities; and where
  the limits of a turn are lost.
\<close>

section \<open>What is offered\<close>

definition offer_actions :: "'w offer \<Rightarrow> 'w bound_action list" where
  "offer_actions o1 = (case o1 of Directly _ acts \<Rightarrow> acts | WithActions _ acts _ \<Rightarrow> acts)"

definition usable_tools :: "'w turn_facts \<Rightarrow> 'w bound_action list \<Rightarrow> 'w bound_action list" where
  "usable_tools tf merged = (if tf_unattended tf then limit_unattended merged (tf_allowed tf) else merged)"

lemma finish_only_name: "a \<in> set (finish_only actions) \<Longrightarrow> act_name a = finish_action_name"
  by (cases "find (\<lambda>a. act_name a = finish_action_name) actions") (auto simp: finish_only_def find_Some_iff)

lemma finish_for_name [simp]: "act_name (finish_for tf routed out) = finish_action_name"
  by (simp add: finish_for_def build_finish_def act_name_def)

lemma put_actions_within: "set (fold put_action ts o1) \<subseteq> set o1 \<union> set ts"
proof -
  have "adds_from ts o1 (fold put_action ts o1)" by (rule adds_from_fold) (simp add: adds_from_put)
  then show ?thesis by (rule adds_from_within)
qed

lemma offer_cases:
  assumes "routed_offer tf requirer tool_filter user_text earlier i actions conv_actions merged = o1"
  obtains (direct) k acts where "o1 = Directly k (finish_only acts)"
  | (acting) k tools reqs loop_tools where
      "offered_tools tf requirer tool_filter user_text earlier i (usable_tools tf merged) = (tools, reqs)"
      "loop_tools = (if i = IntentRecommend
         then add_learned (tf_learned tf) (usable_tools tf merged) (filter (\<lambda>t. looks_up t \<or> is_platform_action tf (act_name t)) tools) else tools)"
      "o1 = WithActions k (loop_tools @ filter (\<lambda>a. act_name a \<notin> set (offered_names loop_tools)) conv_actions @ [finish_for tf True (reqs \<noteq> None)]) reqs"
proof -
  obtain tools reqs where o: "offered_tools tf requirer tool_filter user_text earlier i (usable_tools tf merged) = (tools, reqs)"
    by fastforce
  show thesis using assms direct acting [OF o refl]
    unfolding routed_offer_def Let_def usable_tools_def [symmetric] o prod.case
    by (auto split: if_splits)
qed

lemma offer_within:
  assumes "routed_offer tf requirer tool_filter user_text earlier i actions conv_actions merged = o1" "only_trims tool_filter" "a \<in> set (offer_actions o1)"
  shows "act_name a = finish_action_name \<or> a \<in> set conv_actions \<or>
    (a \<in> set (usable_tools tf merged) \<and>
      (i = IntentRecommend \<longrightarrow> looks_up a \<or> is_platform_action tf (act_name a) \<or> act_name a \<in> set (tf_learned tf)))"
  using assms(1)
proof (cases rule: offer_cases)
  case (direct k acts)
  then show ?thesis using assms(3) finish_only_name by (auto simp: offer_actions_def)
next
  case (acting k tools reqs loop_tools)
  have "set tools \<subseteq> set (usable_tools tf merged)" by (rule offered_tools_facts(1) [OF acting(1) assms(2)])
  moreover have "a \<in> set loop_tools \<or> a \<in> set conv_actions \<or> a = finish_for tf True (reqs \<noteq> None)"
    using assms(3) by (auto simp: acting(3) offer_actions_def)
  moreover have "set (add_learned learned all_tools reads) \<subseteq> set reads \<union> {t \<in> set all_tools. act_name t \<in> set learned}"
    for learned all_tools and reads :: "'a bound_action list"
    using put_actions_within [of "filter (\<lambda>t. act_name t \<in> set learned) all_tools" reads] by (auto simp: add_learned_def)
  ultimately show ?thesis using acting(2) by (fastforce split: if_splits)
qed

text \<open>The merged tools are tools of the agent's capabilities or the platform's.\<close>

lemma fold_within:
  assumes "\<And>x m. x \<in> set xs \<Longrightarrow> set m \<subseteq> A \<Longrightarrow> set (f x m) \<subseteq> A" "set m0 \<subseteq> A"
  shows "set (fold f xs m0) \<subseteq> A"
  using assms by (induction xs arbitrary: m0) auto

definition ability_of_agent :: "'w routing_host \<Rightarrow> 'w bound_action \<Rightarrow> bool" where
  "ability_of_agent h a \<longleftrightarrow> (\<exists>s \<in> set (rh_skills h). \<exists>ts. rh_hydrate h s = Inr ts \<and> a \<in> set ts)"

lemma merge_tool_within: "t \<in> A \<Longrightarrow> set m \<subseteq> A \<Longrightarrow> set (merge_tool t m) \<subseteq> A"
  by (auto simp: merge_tool_def)

lemma merge_tools_within: "set ts \<subseteq> A \<Longrightarrow> set m \<subseteq> A \<Longrightarrow> set (fold merge_tool ts m) \<subseteq> A"
  by (rule fold_within) (auto dest: merge_tool_within subsetD)

definition in_agent :: "'w routing_host \<Rightarrow> 'w turn_facts \<Rightarrow> 'w bound_action set" where
  "in_agent h tf = {a. ability_of_agent h a \<or> (\<exists>p \<in> set (tf_platform tf). a \<in> set (snd p))}"

lemma merge_skill_within:
  assumes "set m \<subseteq> in_agent h tf"
  shows "set (merge_skill h tf n m) \<subseteq> in_agent h tf"
proof (cases "platform_actions tf n")
  case None
  have "set (case rh_hydrate h s of Inl _ \<Rightarrow> m1 | Inr tools \<Rightarrow> fold merge_tool tools m1) \<subseteq> in_agent h tf"
    if "s \<in> set (filter (\<lambda>s. sk_name s = n) (rh_skills h))" "set m1 \<subseteq> in_agent h tf" for s m1
  proof (cases "rh_hydrate h s")
    case (Inr ts)
    have "set ts \<subseteq> in_agent h tf" using that(1) Inr by (auto simp: in_agent_def ability_of_agent_def)
    then show ?thesis using merge_tools_within that(2) Inr by simp
  qed (use that in simp)
  then show ?thesis unfolding merge_skill_def None option.case by (intro fold_within [OF _ assms])
next
  case (Some acts)
  have "set acts \<subseteq> in_agent h tf"
    using Some by (auto simp: platform_actions_def find_Some_iff in_agent_def intro!: bexI [OF _ nth_mem])
  then show ?thesis using assms put_actions_within [of acts m] by (auto simp: merge_skill_def Some)
qed

lemma merged_within: "set (merged_tools h tf names) \<subseteq> in_agent h tf"
  unfolding merged_tools_def by (rule fold_within) (auto dest: merge_skill_within subsetD)

section \<open>Of two copies, the more guarded\<close>

definition guarded_as :: "'w bound_action \<Rightarrow> 'w bound_action list \<Rightarrow> bool" where
  "guarded_as t merged \<longleftrightarrow> (\<exists>m \<in> set merged. act_name m = act_name t \<and> guards t \<le> guards m)"

text \<open>A step of the merging that neither repeats a name nor lets a guard go.\<close>

definition merges :: "('w bound_action list \<Rightarrow> 'w bound_action list) \<Rightarrow> bool" where
  "merges f \<longleftrightarrow> (\<forall>m. distinct (offered_names m) \<longrightarrow> distinct (offered_names (f m)) \<and> (\<forall>t. guarded_as t m \<longrightarrow> guarded_as t (f m)))"

lemma merges_id [simp]: "merges (\<lambda>m. m)"
  by (simp add: merges_def)

lemma merges_fold: "(\<And>x. x \<in> set xs \<Longrightarrow> merges (f x)) \<Longrightarrow> merges (fold f xs)"
  by (induction xs) (auto simp: merges_def)

lemma merge_tool_names:
  "offered_names (merge_tool t m) = offered_names m @ (if act_name t \<in> set (offered_names m) then [] else [act_name t])"
  by (auto simp: merge_tool_def offered_names_def)

lemma merge_tool_has: "guarded_as t (merge_tool t m)"
proof (cases "act_name t \<in> set (offered_names m)")
  case True
  then obtain x where x: "x \<in> set m" "act_name x = act_name t" by (auto simp: offered_names_def)
  let ?y = "if act_name x = act_name t \<and> guards x < guards t then t else x"
  have "?y \<in> set (merge_tool t m)" using x True by (auto simp: merge_tool_def)
  moreover have "act_name ?y = act_name t" "guards t \<le> guards ?y" using x by auto
  ultimately show ?thesis unfolding guarded_as_def by blast
qed (auto simp: guarded_as_def merge_tool_def)

lemma merges_tool: "merges (merge_tool t)"
proof -
  have "guarded_as u (merge_tool t m)" if g: "guarded_as u m" for u m
  proof -
    obtain x where x: "x \<in> set m" "act_name x = act_name u" "guards u \<le> guards x" using g by (auto simp: guarded_as_def)
    let ?y = "if act_name t \<in> set (offered_names m) \<and> act_name x = act_name t \<and> guards x < guards t then t else x"
    have "?y \<in> set (merge_tool t m)" using x(1) by (auto simp: merge_tool_def)
    moreover have "act_name ?y = act_name u" "guards u \<le> guards ?y" using x by auto
    ultimately show ?thesis unfolding guarded_as_def by blast
  qed
  then show ?thesis by (simp add: merges_def merge_tool_names)
qed

lemma merges_put: "merges (put_action t)"
  by (auto simp: merges_def put_action_def offered_names_def guarded_as_def)

lemma merges_skill: "merges (merge_skill h tf n)"
proof (cases "platform_actions tf n")
  case None
  have "merges (\<lambda>m. case rh_hydrate h s of Inl _ \<Rightarrow> m | Inr ts \<Rightarrow> fold merge_tool ts m)" for s
    by (cases "rh_hydrate h s") (simp_all add: merges_fold merges_tool)
  then show ?thesis unfolding merge_skill_def None option.case by (intro merges_fold)
next
  case (Some acts)
  show ?thesis unfolding merge_skill_def Some option.case by (intro merges_fold merges_put)
qed

text \<open>What one step puts there stays: the steps after it only merge.\<close>

lemma fold_has:
  assumes "x \<in> set xs" "\<And>y. merges (f y)" "\<And>m. distinct (offered_names m) \<Longrightarrow> guarded_as t (f x m)" "distinct (offered_names m0)"
  shows "guarded_as t (fold f xs m0)"
proof -
  obtain ys zs where xs: "xs = ys @ x # zs" using assms(1) by (meson split_list)
  have "merges (fold f ys)" "merges (fold f zs)" using assms(2) by (simp_all add: merges_fold)
  then show ?thesis using assms(2) [of x] assms(3,4) by (simp add: xs merges_def)
qed

lemma merge_skill_has:
  assumes "platform_actions tf (sk_name s) = None" "s \<in> set (rh_skills h)" "rh_hydrate h s = Inr ts" "t \<in> set ts" "distinct (offered_names m)"
  shows "guarded_as t (merge_skill h tf (sk_name s) m)"
proof -
  have m: "merges (\<lambda>m. case rh_hydrate h s of Inl _ \<Rightarrow> m | Inr ts \<Rightarrow> fold merge_tool ts m)" for s
    by (cases "rh_hydrate h s") (simp_all add: merges_fold merges_tool)
  have "guarded_as t (fold merge_tool ts m1)" if "distinct (offered_names m1)" for m1
    by (rule fold_has [OF assms(4)]) (use that merges_tool merge_tool_has in auto)
  then show ?thesis unfolding merge_skill_def assms(1) option.case
    by (intro fold_has [of s]) (use assms m in auto)
qed

section \<open>A small agent\<close>

text \<open>A world of what the model is still to say and how often something was changed; one capability with a look-up and a change.\<close>

type_synonym desk_world = "llm_response list \<times> nat"

definition desk_model :: "desk_world llm" where
  "desk_model msgs specs w = (case fst w of [] \<Rightarrow> (Inl (errorf ''silent''), w) | r # rs \<Rightarrow> (Inr r, (rs, snd w)))"

definition desk_env :: "desk_world llm_env" where
  "desk_env = \<lparr>le_llms = [desk_model], le_now = (\<lambda>w. 0), le_wait = (\<lambda>d w. (False, w)), le_ctx_err = (\<lambda>w. errorf [])\<rparr>"

definition desk_action :: "string \<Rightarrow> bool \<Rightarrow> string list \<Rightarrow> bool \<Rightarrow> desk_world bound_action" where
  "desk_action n ro needs own_limits =
     \<lparr>ba_spec = \<lparr>as_name = n, as_description = [], as_instructions = [], as_input = Schema TObject [] [] None [] [],
        as_output = Schema TObject [] [] None [] [], as_max_calls = 0, as_hidden = False, as_read_only = ro, as_changes = \<not> ro\<rparr>,
      ba_invoke = (\<lambda>inp w. ((GStr ''ok'', None), if ro then w else (fst w, Suc (snd w)))), ba_needs = needs, ba_app = [], ba_app_name = [],
      ba_with = [], ba_declared = False, ba_limited = own_limits\<rparr>"

definition desk_skill :: "string \<Rightarrow> skill" where
  "desk_skill n = \<lparr>sk_id = n, sk_name = n, sk_title = [], sk_description = [], sk_agent_id = [], sk_instructions = [],
     sk_input = Schema TObject [] [] None [] [], sk_output = Schema TObject [] [] None [] [], sk_tools = [], sk_integrations = [],
     sk_prerequisites = [], sk_limited = [], sk_rules = [], sk_all_look_ups = False, sk_public = False\<rparr>"

definition desk_host :: "(string list \<times> intent) option \<Rightarrow> (skill \<times> desk_world bound_action list) list \<Rightarrow> desk_world routing_host" where
  "desk_host picked skills =
     \<lparr>rh_router = \<lparr>ro_classify = None, ro_pick_tools = None, ro_pick_context = None,
          ro_pick = (\<lambda>text sks. case picked of None \<Rightarrow> Inl (errorf ''timeout'') | Some p \<Rightarrow> Inr p), ro_in_scope = None\<rparr>,
      rh_by_tools = False, rh_no_gates = False, rh_description = [], rh_instructions = [], rh_skills = map fst skills, rh_abilities = [],
      rh_hydrate = (\<lambda>s. case map_of (map (\<lambda>(k, ts). (sk_name k, ts)) skills) (sk_name s) of None \<Rightarrow> Inl (errorf ''gone'') | Some ts \<Rightarrow> Inr ts),
      rh_requirer = None, rh_filter = None, rh_handler = (\<lambda>i. None), rh_last_skills = None, rh_keeps_last = False, rh_hint = (\<lambda>n. n)\<rparr>"

definition desk_turn :: "bool \<Rightarrow> string list \<Rightarrow> bool \<Rightarrow> string list \<Rightarrow> desk_world turn_facts" where
  "desk_turn unattended allowed look_ups_only learned =
     \<lparr>tf_unattended = unattended, tf_allowed = allowed, tf_look_ups_only = look_ups_only, tf_user = Some ''ann'', tf_platform = [],
      tf_learned = learned, tf_choices = None, tf_ability_question = None\<rparr>"

definition list_orders :: "desk_world bound_action" where "list_orders = desk_action ''list'' True [] False"
definition send_order :: "desk_world bound_action" where "send_order = desk_action ''send'' False [''list''] False"

definition one_desk :: "(string list \<times> intent) option \<Rightarrow> desk_world routing_host" where
  "one_desk picked = desk_host picked [(desk_skill ''orders'', [list_orders, send_order])]"

definition sends_it :: "llm_response list" where
  "sends_it = [\<lparr>lr_content = [], lr_tool_calls = [\<lparr>tc_id = ''1'', tc_name = ''send'', tc_args = []\<rparr>], lr_reasoning = []\<rparr>,
     \<lparr>lr_content = [], lr_tool_calls = [\<lparr>tc_id = ''2'', tc_name = ''finish'', tc_args = [(''content'', GStr ''ok'')]\<rparr>], lr_reasoning = []\<rparr>]"

lemmas desk_simps = desk_host_def one_desk_def desk_turn_def desk_action_def desk_skill_def list_orders_def send_order_def desk_env_def

section \<open>An unattended turn\<close>

lemma unattended_offer_fine:
  assumes un: "tf_unattended tf" and trims: "only_trims tool_filter"
    and may: "\<forall>a \<in> in_agent h tf. looks_up a \<or> act_name a \<in> set (tf_allowed tf) \<longrightarrow> keeps_fact P a"
    and conv: "\<forall>a \<in> set conv_actions. keeps_fact P a"
  shows "domain_loop.fine_offer P (routed_offer tf requirer tool_filter text earlier i actions conv_actions (merged_tools h tf names))"
    (is "domain_loop.fine_offer P ?o")
proof -
  have "may_be_run P a" if a: "a \<in> set (offer_actions ?o)" for a
  proof -
    consider "act_name a = finish_action_name" | "a \<in> set conv_actions" | "a \<in> set (usable_tools tf (merged_tools h tf names))"
      using offer_within [OF refl trims a] by blast
    then show ?thesis
    proof cases
      case 3
      then have "a \<in> in_agent h tf" "looks_up a \<or> act_name a \<in> set (tf_allowed tf)"
        using merged_within [of h tf names] un by (auto simp: usable_tools_def limit_unattended_def)
      then show ?thesis using may by (auto simp: may_be_run_def)
    qed (use conv in \<open>simp_all add: may_be_run_def\<close>)
  qed
  then show ?thesis by (cases ?o) (simp_all add: domain_loop.fine_offer_def offer_actions_def)
qed



section \<open>Where the limits are lost\<close>



text \<open>What an edit is read as, and what a question may have done.\<close>

lemma look_ups_only_intent: "tf_look_ups_only tf \<Longrightarrow> \<not> tf_unattended tf \<Longrightarrow> i \<noteq> IntentChat \<Longrightarrow> settled_intent tf i = IntentRecommend"
  by (simp add: settled_intent_def)

text \<open>
  On an edit of a message whose old reply already changed something the turn is held to look-ups,
  but every change a learned skill names is offered all the same when its capability was chosen: it is
  added after what trimming left out was put back, so without what it must run first. The witness
  offers an order to send, and not the list that has to be looked at before.
\<close>
theorem learned_change_slips_in:
  assumes "tf_look_ups_only tf" "\<not> tf_unattended tf" "i \<noteq> IntentChat"
    and "t \<in> set merged" "act_name t \<in> set (tf_learned tf)"
  shows "\<exists>k acts reqs. routed_offer tf requirer tool_filter text earlier (settled_intent tf i) actions conv_actions merged = WithActions k acts reqs \<and>
    act_name t \<in> set (offered_names acts)"
proof -
  obtain tools reqs where o: "offered_tools tf requirer tool_filter text earlier IntentRecommend merged = (tools, reqs)" by fastforce
  define reads where "reads = filter (\<lambda>t. looks_up t \<or> is_platform_action tf (act_name t)) tools"
  have in_it: "act_name t \<in> set (offered_names (add_learned (tf_learned tf) merged reads))"
    unfolding add_learned_def by (rule put_actions_has) (use assms(4,5) in simp)
  then have "add_learned (tf_learned tf) merged reads \<noteq> []" by (auto simp: offered_names_def)
  then show ?thesis using in_it assms(2,4)
    by (auto simp: routed_offer_def look_ups_only_intent [OF assms(1-3)] o Let_def reads_def [symmetric])
qed

theorem learned_change_slips_in_witness:
  "\<exists>k acts reqs. routed_offer (desk_turn False [] True [''send'']) None (Some (\<lambda>ts. Inr [desk_action ''rates'' True [] False])) [] []
       (settled_intent (desk_turn False [] True [''send'']) IntentExecute) [] [] [desk_action ''rates'' True [] False, list_orders, send_order]
       = WithActions k acts reqs \<and> offered_names acts = [''rates'', ''send'', ''finish'']"
proof -
  let ?o = "routed_offer (desk_turn False [] True [''send'']) None (Some (\<lambda>ts. Inr [desk_action ''rates'' True [] False])) [] []
       (settled_intent (desk_turn False [] True [''send'']) IntentExecute) [] [] [desk_action ''rates'' True [] False, list_orders, send_order]"
  have "\<exists>k acts reqs. ?o = WithActions k acts reqs \<and> act_name send_order \<in> set (offered_names acts)"
    by (rule learned_change_slips_in) (simp_all add: desk_simps act_name_def)
  then obtain k acts reqs where o: "?o = WithActions k acts reqs" by blast
  have "offered_names (offer_actions ?o) = [''rates'', ''send'', ''finish'']"
    by (simp add: routed_offer_def offer_actions_def offered_tools_def requirements_for_def trim_tools_def keep_required_def keep_needed_def
        walk_needed.simps bring_def brings_along_def desk_simps settled_intent_def act_name_def offered_names_def looks_up_def
        is_platform_action_def add_learned_def put_action_def finish_for_def build_finish_def finish_action_name_def Let_def image_iff)
  then show ?thesis using o by (simp add: offer_actions_def)
qed

section \<open>What a request is offered\<close>

text \<open>
  (C27) A request to do something that is run with actions is offered every action it was found to need,
  and for each offered ability what must run before it: whatever the filter trimmed away, each of these
  that the turn may use comes back. (Actions of the conversation itself bring nothing along.)
\<close>
theorem required_and_needed_offered:
  assumes "routed_offer tf requirer tool_filter text earlier i actions conv_actions merged = WithActions k acts reqs" "i \<noteq> IntentRecommend"
  shows "(\<forall>r n. reqs = Some r \<longrightarrow> n \<in> set (rq_tools r) \<longrightarrow> n \<in> set (offered_names (usable_tools tf merged)) \<longrightarrow> n \<in> set (offered_names acts)) \<and>
    (\<forall>a \<in> set acts - set conv_actions. act_name a \<noteq> finish_action_name \<longrightarrow>
       (\<forall>n \<in> set (ba_needs a). n \<in> set (offered_names (usable_tools tf merged)) \<longrightarrow> n \<in> set (offered_names acts)))"
  using assms(1)
proof (cases rule: offer_cases)
  case (acting k' tools reqs' loop_tools)
  note f = offered_tools_facts [OF acting(1)]
  have eq: "reqs' = reqs" "acts = tools @ filter (\<lambda>a. act_name a \<notin> set (offered_names tools)) conv_actions @ [finish_for tf True (reqs \<noteq> None)]"
    using acting(2,3) assms(2) by simp_all
  have sub: "set (offered_names tools) \<subseteq> set (offered_names acts)" by (simp add: eq(2))
  have "a \<in> set tools" if "a \<in> set acts - set conv_actions" "act_name a \<noteq> finish_action_name" for a
    using that by (auto simp: eq(2))
  then show ?thesis using f(3,4) sub unfolding eq(1) by blast
qed simp

definition tight_filter :: "desk_world bound_action list \<Rightarrow> goerr + desk_world bound_action list" where
  "tight_filter ts = Inr (filter (\<lambda>t. act_name t = ''rates'') ts)"

definition desk_asks :: "desk_world requirer" where
  "desk_asks text earlier changing = Inr [''send'']"

theorem required_and_needed_offered_witness:
  "\<exists>k acts reqs. routed_offer (desk_turn False [] False []) (Some desk_asks) (Some tight_filter) [] [] IntentExecute [] []
       [desk_action ''rates'' True [] False, list_orders, send_order] = WithActions k acts reqs \<and>
     ''send'' \<in> set (offered_names acts) \<and> ''list'' \<in> set (offered_names acts)"
proof -
  let ?m = "[desk_action ''rates'' True [] False, list_orders, send_order]"
  let ?tf = "desk_turn False [] False []"
  obtain tools reqs where t: "offered_tools ?tf (Some desk_asks) (Some tight_filter) [] [] IntentExecute ?m = (tools, reqs)" by fastforce
  define acts where "acts = tools @ [finish_for ?tf True (reqs \<noteq> None)]"
  have o: "routed_offer ?tf (Some desk_asks) (Some tight_filter) [] [] IntentExecute [] [] ?m = WithActions NoHint acts reqs"
    using t by (simp add: routed_offer_def desk_turn_def acts_def)
  have r: "reqs = Some \<lparr>rq_tools = [''send''], rq_any_change = False\<rparr>"
    unfolding offered_tools_facts(2) [OF t] by (simp add: requirements_for_def desk_asks_def desk_simps)
  have u: "offered_names (usable_tools ?tf ?m) = [''rates'', ''list'', ''send'']"
    by (simp add: usable_tools_def offered_names_def act_name_def desk_simps)
  note c = required_and_needed_offered [OF o, simplified r, simplified, unfolded u]
  have s: "''send'' \<in> set (offered_names acts)" using c by simp
  then obtain a where a: "a \<in> set acts" "act_name a = ''send''" by (auto simp: offered_names_def)
  have w: "set tools \<subseteq> set ?m" by (rule offered_tools_facts(1) [OF t]) (auto simp: only_trims_def tight_filter_def)
  have "a = send_order" using a w by (auto simp: acts_def desk_simps act_name_def finish_for_def build_finish_def finish_action_name_def)
  then have "''list'' \<in> set (offered_names acts)" using a c by (auto simp: desk_simps act_name_def finish_action_name_def)
  with s o show ?thesis by blast
qed

section \<open>The guards of a merged ability\<close>

text \<open>
  The tools of the chosen capabilities are merged so that no name comes twice, and of every ability
  a chosen capability has the copy that is kept is held to at least as many guards (things to run first,
  limits of its own) as that capability holds it to.
\<close>
theorem most_guarded_copy_kept:
  shows "distinct (offered_names (merged_tools h tf names)) \<and>
    (\<forall>s \<in> set (rh_skills h). \<forall>ts. sk_name s \<in> set names \<longrightarrow> platform_actions tf (sk_name s) = None \<longrightarrow> rh_hydrate h s = Inr ts \<longrightarrow>
       (\<forall>t \<in> set ts. \<exists>m \<in> set (merged_tools h tf names). act_name m = act_name t \<and> guards t \<le> guards m))"
proof -
  have "merges (fold (merge_skill h tf) names)" by (intro merges_fold merges_skill)
  then have d: "distinct (offered_names (merged_tools h tf names))" by (simp add: merges_def merged_tools_def offered_names_def)
  have "guarded_as t (merged_tools h tf names)"
    if "s \<in> set (rh_skills h)" "sk_name s \<in> set names" "platform_actions tf (sk_name s) = None" "rh_hydrate h s = Inr ts" "t \<in> set ts" for s ts t
    unfolding merged_tools_def
    by (rule fold_has [OF that(2)]) (use that merges_skill merge_skill_has in \<open>auto simp: offered_names_def\<close>)
  with d show ?thesis unfolding guarded_as_def by blast
qed

theorem most_guarded_copy_kept_witness:
  "\<exists>m \<in> set (merged_tools (one_desk None) (desk_turn False [] False []) [''orders'']). act_name m = ''send'' \<and> 1 \<le> guards m"
  using most_guarded_copy_kept [of "one_desk None" "desk_turn False [] False []" "[''orders'']"]
  by (simp add: desk_simps platform_actions_def act_name_def guards_def)

text \<open>
  Guards are counted, not compared: of two copies with as many guards each, the one of the
  capability picked first is kept and the other's guard is lost. In the witness one capability says to
  look at the list first, the other limits what may be sent; which of the two holds depends on the order.
\<close>
theorem equal_guards_lose_one:
  assumes "rh_skills h = [s1, s2]" "sk_name s1 \<noteq> sk_name s2" "\<And>n. platform_actions tf n = None"
    and "rh_hydrate h s1 = Inr [t1]" "rh_hydrate h s2 = Inr [t2]" "act_name t1 = act_name t2" "guards t1 = guards t2"
  shows "merged_tools h tf [sk_name s1, sk_name s2] = [t1] \<and> merged_tools h tf [sk_name s2, sk_name s1] = [t2]"
  using assms by (auto simp: merged_tools_def merge_skill_def merge_tool_def offered_names_def)

theorem equal_guards_lose_one_witness:
  "let h = desk_host None [(desk_skill ''a'', [desk_action ''send'' False [''list''] False]), (desk_skill ''b'', [desk_action ''send'' False [] True])];
       tf = desk_turn False [] False []
   in map ba_limited (merged_tools h tf [''a'', ''b'']) = [False] \<and> map ba_needs (merged_tools h tf [''b'', ''a'']) = [[]]"
proof -
  let ?h = "desk_host None [(desk_skill ''a'', [desk_action ''send'' False [''list''] False]), (desk_skill ''b'', [desk_action ''send'' False [] True])]"
  have "merged_tools ?h (desk_turn False [] False []) [sk_name (desk_skill ''a''), sk_name (desk_skill ''b'')] = [desk_action ''send'' False [''list''] False] \<and>
    merged_tools ?h (desk_turn False [] False []) [sk_name (desk_skill ''b''), sk_name (desk_skill ''a'')] = [desk_action ''send'' False [] True]"
    by (rule equal_guards_lose_one) (simp_all add: desk_simps platform_actions_def act_name_def guards_def)
  then show ?thesis by (simp add: desk_simps)
qed

end
