(* ===== verification/Go_Time.thy ===== *)
theory Go_Time
  imports Go_Strings
begin

text \<open>
  The part of Go's \<^verbatim>\<open>time\<close> the code uses: an instant is its nanoseconds since the start of 1970 in
  UTC, a location the offset it has at an instant (with the span that offset holds for), a layout the
  list of its parts. Parsing follows \<^verbatim>\<open>time.Parse\<close>: a day or month is two digits, an hour one or two,
  a fraction may follow the seconds though no layout names one, a space stands for any number of them.
\<close>

section \<open>The calendar\<close>

definition leap :: "int \<Rightarrow> bool" where
  "leap y \<longleftrightarrow> y mod 4 = 0 \<and> (y mod 100 \<noteq> 0 \<or> y mod 400 = 0)"

definition year_days :: "int \<Rightarrow> int" where
  "year_days y = (if leap y then 366 else 365)"

definition month_days :: "int \<Rightarrow> int \<Rightarrow> int" where
  "month_days y m = (if m = 2 then (if leap y then 29 else 28) else if m \<in> {4, 6, 9, 11} then 30 else 31)"

text \<open>Days are counted from 2000-01-01; the calendar repeats every 400 years.\<close>

definition cycle_days :: int where "cycle_days = 146097"
definition days_to_2000 :: int where "days_to_2000 = 10957"

fun spend :: "(int \<Rightarrow> int) \<Rightarrow> nat \<Rightarrow> int \<Rightarrow> int \<Rightarrow> int \<times> int" where
  "spend len 0 k d = (k, d)"
| "spend len (Suc n) k d = (if d < len k then (k, d) else spend len n (k + 1) (d - len k))"

fun sum_lens :: "(int \<Rightarrow> int) \<Rightarrow> nat \<Rightarrow> int \<Rightarrow> int" where
  "sum_lens len 0 k = 0"
| "sum_lens len (Suc n) k = len k + sum_lens len n (k + 1)"

type_synonym civil = "int \<times> int \<times> int"

definition civil_of_days :: "int \<Rightarrow> civil" where
  "civil_of_days n =
     (let c = (n - days_to_2000) div cycle_days; (y, r) = spend year_days 400 2000 ((n - days_to_2000) mod cycle_days);
          (m, d) = spend (month_days y) 12 1 r
      in (y + 400 * c, m, d + 1))"

definition days_of_civil :: "civil \<Rightarrow> int" where
  "days_of_civil = (\<lambda>(y, m, d). let c = (y - 2000) div 400; k = (y - 2000) mod 400 in
     days_to_2000 + c * cycle_days + sum_lens year_days (nat k) 2000 + sum_lens (month_days y) (nat (m - 1)) 1 + (d - 1))"

definition date_ok :: "civil \<Rightarrow> bool" where
  "date_ok = (\<lambda>(y, m, d). 1 \<le> m \<and> m \<le> 12 \<and> 1 \<le> d \<and> d \<le> month_days y m)"

text \<open>Taking away whole years, then whole months, is undone by adding them.\<close>

lemma spend_total:
  assumes "0 \<le> d" "d < sum_lens len n k"
  obtains j r where "j < n" "spend len n k d = (k + int j, r)" "0 \<le> r" "r < len (k + int j)" "d = sum_lens len j k + r"
proof -
  have "\<exists>j r. j < n \<and> spend len n k d = (k + int j, r) \<and> 0 \<le> r \<and> r < len (k + int j) \<and> d = sum_lens len j k + r"
    using assms
  proof (induction n arbitrary: k d)
    case (Suc n)
    show ?case
    proof (cases "d < len k")
      case True
      then show ?thesis using Suc.prems by (intro exI [of _ 0] exI [of _ d]) simp
    next
      case False
      obtain j r where "j < n" "spend len n (k + 1) (d - len k) = (k + 1 + int j, r)" "0 \<le> r" "r < len (k + 1 + int j)"
        "d - len k = sum_lens len j (k + 1) + r"
        using Suc.IH [of "d - len k" "k + 1"] Suc.prems False by auto
      then show ?thesis using False by (intro exI [of _ "Suc j"] exI [of _ r]) (simp add: algebra_simps)
    qed
  qed simp
  then show ?thesis using that by blast
qed

lemma leap_cycle [simp]: "leap (y + 400 * c) = leap y"
proof -
  have "(y + 400 * c) mod 4 = y mod 4" "(y + 400 * c) mod 100 = y mod 100" "(y + 400 * c) mod 400 = y mod 400"
    using mod_mult_self2 [of y 4 "100 * c"] mod_mult_self2 [of y 100 "4 * c"] mod_mult_self2 [of y 400 c] by simp_all
  then show ?thesis by (simp add: leap_def)
qed

lemma month_days_cycle [simp]: "month_days (y + 400 * c) m = month_days y m"
  by (simp add: month_days_def)

lemma total_numeral: "sum_lens len (numeral n) k = len k + sum_lens len (pred_numeral n) (k + 1)"
  by (simp add: numeral_eq_Suc)

lemma total_add: "sum_lens len (m + n) k = sum_lens len m k + sum_lens len n (k + int m)"
  by (induction m arbitrary: k) (auto simp: algebra_simps)

lemma four_years:
  assumes "k mod 4 = 0"
  shows "sum_lens year_days 4 k = 1460 + (if leap k then 1 else 0)"
proof -
  have "(k + 1) mod 4 \<noteq> 0" "(k + 2) mod 4 \<noteq> 0" "(k + 3) mod 4 \<noteq> 0" using assms by presburger+
  then have "\<not> leap (k + 1)" "\<not> leap (k + 2)" "\<not> leap (k + 3)" by (simp_all add: leap_def)
  then have "year_days (k + 1) = 365" "year_days (k + 2) = 365" "year_days (k + 3) = 365" by (simp_all only: year_days_def if_False)
  moreover have "sum_lens year_days 4 k = year_days k + (year_days (k + 1) + (year_days (k + 2) + year_days (k + 3)))"
    by (simp add: total_numeral add.assoc)
  ultimately show ?thesis by (simp add: year_days_def [of k])
qed

lemma fours: "k mod 4 = 0 \<Longrightarrow> \<forall>i < n. (k + 4 * int i) mod 100 \<noteq> 0 \<Longrightarrow> sum_lens year_days (4 * n) k = 1461 * int n"
proof (induction n arbitrary: k)
  case (Suc n)
  have "(k + 4) mod 4 = 0" using Suc.prems(1) by presburger
  moreover have "\<forall>i < n. (k + 4 + 4 * int i) mod 100 \<noteq> 0"
  proof (intro allI impI)
    fix i assume "i < n"
    then have "(k + 4 * int (Suc i)) mod 100 \<noteq> 0" using Suc.prems(2) by (meson Suc_mono)
    then show "(k + 4 + 4 * int i) mod 100 \<noteq> 0" by (simp add: algebra_simps)
  qed
  ultimately have "sum_lens year_days (4 * n) (k + 4) = 1461 * int n" by (rule Suc.IH)
  moreover have "sum_lens year_days 4 k = 1461" 
  proof -
    have "k mod 100 \<noteq> 0" using Suc.prems(2) by (metis add.right_neutral mult_zero_right of_nat_0 zero_less_Suc)
    then show ?thesis using four_years [OF Suc.prems(1)] Suc.prems(1) by (simp add: leap_def)
  qed
  ultimately show ?case using total_add [of year_days 4 "4 * n" k] by simp
qed simp

lemma century:
  assumes "k mod 100 = 0"
  shows "sum_lens year_days 100 k = 36524 + (if leap k then 1 else 0)"
proof -
  have "(k + 4) mod 4 = 0" "\<forall>i < 24. (k + 4 + 4 * int i) mod 100 \<noteq> 0" using assms by presburger+
  then have "sum_lens year_days (4 * 24) (k + 4) = 1461 * int 24" by (rule fours)
  moreover have "k mod 4 = 0" using assms by presburger
  then have "sum_lens year_days 4 k = 1460 + (if leap k then 1 else 0)" by (rule four_years)
  ultimately show ?thesis using total_add [of year_days 4 96 k] by simp
qed

lemma total_years: "sum_lens year_days 400 2000 = cycle_days"
proof -
  have "sum_lens year_days (100 + (100 + (100 + 100))) 2000 = cycle_days"
    by (simp only: total_add) (simp add: century leap_def cycle_days_def)
  then show ?thesis by simp
qed

lemma total_months: "sum_lens (month_days y) 12 1 = year_days y"
  by (simp add: total_numeral month_days_def year_days_def)

lemma total_cong: "(\<And>k. f k = g k) \<Longrightarrow> sum_lens f n k = sum_lens g n k"
  by (induction n arbitrary: k) auto

lemma civil_parts:
  obtains y m r j where "civil_of_days n = (y + 400 * ((n - days_to_2000) div cycle_days), m, r + 1)"
    "y = 2000 + int j" "j < 400" "1 \<le> m" "m \<le> 12" "0 \<le> r" "r < month_days y m"
    "(n - days_to_2000) mod cycle_days = sum_lens year_days j 2000 + sum_lens (month_days y) (nat (m - 1)) 1 + r"
proof -
  let ?d = "(n - days_to_2000) mod cycle_days"
  have d: "0 \<le> ?d" "?d < sum_lens year_days 400 2000" by (simp_all add: total_years cycle_days_def)
  obtain j r where y: "j < 400" "spend year_days 400 2000 ?d = (2000 + int j, r)" "0 \<le> r" "r < year_days (2000 + int j)"
    "?d = sum_lens year_days j 2000 + r" using spend_total [OF d] by blast
  have r: "r < sum_lens (month_days (2000 + int j)) 12 1" using y(4) by (simp add: total_months)
  obtain i q where m: "i < 12" "spend (month_days (2000 + int j)) 12 1 r = (1 + int i, q)" "0 \<le> q" "q < month_days (2000 + int j) (1 + int i)"
    "r = sum_lens (month_days (2000 + int j)) i 1 + q" using spend_total [OF y(3) r] by blast
  show thesis
  proof (rule that [of "2000 + int j" "1 + int i" q j])
    show "civil_of_days n = (2000 + int j + 400 * ((n - days_to_2000) div cycle_days), 1 + int i, q + 1)"
      by (simp add: civil_of_days_def y(2) m(2))
  qed (use y m in simp_all)
qed

lemma civil_days: "days_of_civil (civil_of_days n) = n" and civil_ok: "date_ok (civil_of_days n)"
proof -
  obtain y m r j where c: "civil_of_days n = (y + 400 * ((n - days_to_2000) div cycle_days), m, r + 1)"
    "y = 2000 + int j" "j < 400" "1 \<le> m" "m \<le> 12" "0 \<le> r" "r < month_days y m"
    "(n - days_to_2000) mod cycle_days = sum_lens year_days j 2000 + sum_lens (month_days y) (nat (m - 1)) 1 + r"
    by (rule civil_parts)
  show "date_ok (civil_of_days n)" using c by (simp add: date_ok_def)
  let ?c = "(n - days_to_2000) div cycle_days"
  have "(y + 400 * ?c - 2000) div 400 = ?c" "(y + 400 * ?c - 2000) mod 400 = int j" using c(2,3) by auto
  then have "days_of_civil (civil_of_days n) = days_to_2000 + ?c * cycle_days + (n - days_to_2000) mod cycle_days"
    by (simp add: c(1,8) days_of_civil_def total_cong [OF month_days_cycle])
  then show "days_of_civil (civil_of_days n) = n" by (simp add: add.assoc)
qed

section \<open>Instants, locations, clocks\<close>

definition second :: int where "second = 1000000000"
definition minute :: int where "minute = 60 * second"
definition hour :: int where "hour = 60 * minute"

text \<open>Seconds after midnight, as hours, minutes and seconds.\<close>

definition clock_of :: "int \<Rightarrow> int \<times> int \<times> int" where
  "clock_of s = (s div 3600, s mod 3600 div 60, s mod 60)"

text \<open>\<^verbatim>\<open>Location.lookup\<close>: the offset at an instant (in seconds) and from when to when it holds.\<close>

type_synonym location = "int \<Rightarrow> int \<times> int \<times> int"

definition utc :: location where
  "utc s = (0, s, s + 1)"

text \<open>\<^verbatim>\<open>time.Date\<close> of a date and clock that are in range.\<close>

definition time_of :: "location \<Rightarrow> civil \<Rightarrow> int \<times> int \<times> int \<Rightarrow> int \<Rightarrow> int" where
  "time_of loc date = (\<lambda>(h, m, s) ns.
     let local_s = days_of_civil date * 86400 + h * 3600 + m * 60 + s; (off, from, until) = loc local_s;
         right = (if off = 0 then 0 else let u = local_s - off in if u < from \<or> until \<le> u then fst (loc u) else off)
     in (local_s - right) * second + ns)"

section \<open>Layouts\<close>

datatype layout_part = LYear | LMonth | LDay | LHour | LMinute | LSecond | LZone | LLit char

definition date_layout :: "layout_part list" where
  "date_layout = [LYear, LLit CHR ''-'', LMonth, LLit CHR ''-'', LDay]"

definition rfc3339 :: "layout_part list" where
  "rfc3339 = date_layout @ [LLit CHR ''T'', LHour, LLit CHR '':'', LMinute, LLit CHR '':'', LSecond, LZone]"

text \<open>Writing a time in UTC; a number is padded with zeros, a year to four digits.\<close>

definition padded :: "nat \<Rightarrow> int \<Rightarrow> string" where
  "padded n i = (let ds = int_digits \<bar>i\<bar> in (if i < 0 then ''-'' else []) @ replicate (n - length ds) CHR ''0'' @ ds)"

definition format_part :: "int \<Rightarrow> layout_part \<Rightarrow> string" where
  "format_part t p =
     (let s = t div second; (y, m, d) = civil_of_days (s div 86400); (h, mi, se) = clock_of (s mod 86400) in
      case p of LYear \<Rightarrow> padded 4 y | LMonth \<Rightarrow> padded 2 m | LDay \<Rightarrow> padded 2 d | LHour \<Rightarrow> padded 2 h | LMinute \<Rightarrow> padded 2 mi
        | LSecond \<Rightarrow> padded 2 se | LZone \<Rightarrow> ''Z'' | LLit c \<Rightarrow> [c])"

definition format_utc :: "layout_part list \<Rightarrow> int \<Rightarrow> string" where
  "format_utc layout t = concat (map (format_part t) layout)"

definition weekday_name :: "int \<Rightarrow> string" where
  "weekday_name t = [''Thursday'', ''Friday'', ''Saturday'', ''Sunday'', ''Monday'', ''Tuesday'', ''Wednesday''] ! nat (t div second div 86400 mod 7)"

section \<open>Parsing\<close>

text \<open>What has been read so far; no zone means the default location.\<close>

record parsed =
  pa_year :: int
  pa_month :: int
  pa_day :: int
  pa_clock :: "int \<times> int \<times> int"
  pa_nanos :: int
  pa_offset :: "int option"

definition nothing_parsed :: parsed where
  "nothing_parsed = \<lparr>pa_year = 0, pa_month = 1, pa_day = 1, pa_clock = (0, 0, 0), pa_nanos = 0, pa_offset = None\<rparr>"

definition get_num :: "bool \<Rightarrow> string \<Rightarrow> (int \<times> string) option" where
  "get_num fixed s =
     (case s of
        [] \<Rightarrow> None
      | a # r \<Rightarrow>
         (if \<not> is_digit a then None
          else case r of
              b # r' \<Rightarrow> (if is_digit b then Some (10 * digit_val a + digit_val b, r') else if fixed then None else Some (digit_val a, r))
            | [] \<Rightarrow> (if fixed then None else Some (digit_val a, r))))"

definition in_range :: "int \<Rightarrow> int \<Rightarrow> (int \<times> string) option \<Rightarrow> (int \<times> string) option" where
  "in_range lo hi r = (case r of Some (n, rest) \<Rightarrow> if lo \<le> n \<and> n \<le> hi then Some (n, rest) else None | None \<Rightarrow> None)"

text \<open>The fraction that may follow the seconds: nine digits count.\<close>

definition get_fraction :: "string \<Rightarrow> int \<times> string" where
  "get_fraction s =
     (case s of
        p # d # r \<Rightarrow>
         (if (p = CHR ''.'' \<or> p = CHR '','') \<and> is_digit d
          then (let ds = takeWhile is_digit (d # r); nine = take 9 ds
                in (digits_val nine * 10 ^ (9 - length nine), dropWhile is_digit (d # r)))
          else (0, s))
      | _ \<Rightarrow> (0, s))"

definition get_zone :: "string \<Rightarrow> (int \<times> string) option" where
  "get_zone s =
     (case s of
        [] \<Rightarrow> None
      | c # r \<Rightarrow>
         (if c = CHR ''Z'' then Some (0, r)
          else if length s < 6 \<or> s ! 3 \<noteq> CHR '':'' then None
          else case (in_range 0 24 (get_num True (take 2 (drop 1 s))), in_range 0 60 (get_num True (take 2 (drop 4 s)))) of
              (Some (hh, _), Some (mm, _)) \<Rightarrow>
                (let off = (hh * 60 + mm) * 60 in
                 if c = CHR ''+'' then Some (off, drop 6 s) else if c = CHR ''-'' then Some (- off, drop 6 s) else None)
            | _ \<Rightarrow> None))"

definition skip_char :: "char \<Rightarrow> string \<Rightarrow> string option" where
  "skip_char c s =
     (if c = CHR '' '' then (if s \<noteq> [] \<and> hd s \<noteq> CHR '' '' then None else Some (dropWhile (\<lambda>x. x = CHR '' '') s))
      else case s of [] \<Rightarrow> None | x # r \<Rightarrow> if x = c then Some r else None)"

definition parse_part :: "layout_part \<Rightarrow> parsed \<Rightarrow> string \<Rightarrow> (parsed \<times> string) option" where
  "parse_part p a s =
     (case p of
        LYear \<Rightarrow> (if length s < 4 \<or> \<not> list_all is_digit (take 4 s) then None else Some (a\<lparr>pa_year := digits_val (take 4 s)\<rparr>, drop 4 s))
      | LMonth \<Rightarrow> map_option (\<lambda>(n, r). (a\<lparr>pa_month := n\<rparr>, r)) (in_range 1 12 (get_num True s))
      | LDay \<Rightarrow> map_option (\<lambda>(n, r). (a\<lparr>pa_day := n\<rparr>, r)) (get_num True s)
      | LHour \<Rightarrow> map_option (\<lambda>(n, r). (a\<lparr>pa_clock := (n, snd (pa_clock a))\<rparr>, r)) (in_range 0 23 (get_num False s))
      | LMinute \<Rightarrow> map_option (\<lambda>(n, r). (a\<lparr>pa_clock := (fst (pa_clock a), n, snd (snd (pa_clock a)))\<rparr>, r)) (in_range 0 59 (get_num True s))
      | LSecond \<Rightarrow> map_option (\<lambda>(n, r). let (f, r') = get_fraction r in
           (a\<lparr>pa_clock := (fst (pa_clock a), fst (snd (pa_clock a)), n), pa_nanos := f\<rparr>, r')) (in_range 0 59 (get_num True s))
      | LZone \<Rightarrow> map_option (\<lambda>(n, r). (a\<lparr>pa_offset := Some n\<rparr>, r)) (get_zone s)
      | LLit c \<Rightarrow> map_option (\<lambda>r. (a, r)) (skip_char c s))"

fun parse_parts :: "layout_part list \<Rightarrow> parsed \<Rightarrow> string \<Rightarrow> parsed option" where
  "parse_parts [] a s = (if s = [] then Some a else None)"
| "parse_parts (p # ps) a s = (case parse_part p a s of None \<Rightarrow> None | Some (a', s') \<Rightarrow> parse_parts ps a' s')"

definition parse_time :: "layout_part list \<Rightarrow> location \<Rightarrow> string \<Rightarrow> int option" where
  "parse_time layout loc s =
     (case parse_parts layout nothing_parsed s of
        None \<Rightarrow> None
      | Some a \<Rightarrow>
         (let date = (pa_year a, pa_month a, pa_day a) in
          if \<not> date_ok date then None
          else Some (case pa_offset a of
               Some off \<Rightarrow> time_of utc date (pa_clock a) (pa_nanos a) - off * second
             | None \<Rightarrow> time_of loc date (pa_clock a) (pa_nanos a))))"

section \<open>What is written can be read\<close>

lemma digit_char_digit [simp]: "0 \<le> d \<Longrightarrow> d < 10 \<Longrightarrow> is_digit (digit_char d)"
  by (simp add: is_digit_def digit_char_def byte_def)

lemma digit_char_zero: "digit_char 0 = CHR ''0''"
proof -
  have "of_char (digit_char 0) = (of_char (CHR ''0'') :: nat)" by (simp add: digit_char_def)
  then show ?thesis by (simp only: of_char_eq_iff)
qed

lemma padded_two: "0 \<le> n \<Longrightarrow> n < 100 \<Longrightarrow> padded 2 n = [digit_char (n div 10), digit_char (n mod 10)]"
  by (auto simp: padded_def int_digits.simps [of n] int_digits.simps [of "n div 10"] numeral_2_eq_2 digit_char_zero)

lemma get_padded: "0 \<le> n \<Longrightarrow> n < 100 \<Longrightarrow> get_num fixed (padded 2 n @ r) = Some (n, r)"
  by (simp add: padded_two get_num_def)

lemma digits_val_zeros: "digits_val (replicate k CHR ''0'' @ ds) = digits_val ds"
  by (induction k) (simp_all add: digits_val_def digit_val_def byte_def)

lemma int_digits_length: "0 \<le> n \<Longrightarrow> n < 10 ^ Suc k \<Longrightarrow> length (int_digits n) \<le> Suc k"
proof (induction k arbitrary: n)
  case (Suc k)
  show ?case
  proof (cases "n < 10")
    case False
    have "n div 10 < 10 ^ Suc k" using Suc.prems(2) by simp
    then show ?thesis using Suc.IH [of "n div 10"] Suc.prems(1) False by (simp add: int_digits.simps [of n])
  qed (simp add: int_digits.simps)
qed (simp add: int_digits.simps)

lemma padded_four:
  assumes "0 \<le> y" "y < 10000"
  shows "length (padded 4 y) = 4" "list_all is_digit (padded 4 y)" "digits_val (padded 4 y) = y"
proof -
  have "length (int_digits y) \<le> 4" using int_digits_length [of y 3] assms by simp
  then show "length (padded 4 y) = 4" using assms(1) by (simp add: padded_def Let_def)
  show "list_all is_digit (padded 4 y)" using int_digits_digits [of y] assms(1)
    by (auto simp: padded_def Let_def list_all_iff is_digit_def byte_def)
  show "digits_val (padded 4 y) = y" using assms(1) by (simp add: padded_def Let_def digits_val_zeros digits_val_int_digits)
qed

lemma clock_range:
  assumes "clock_of (s mod 86400) = (h, mi, se)"
  shows "0 \<le> h" "h < 24" "0 \<le> mi" "mi < 60" "0 \<le> se" "se < 60" "h * 3600 + mi * 60 + se = s mod 86400"
proof -
  define r where "r = s mod 86400"
  have r: "0 \<le> r" "r < 86400" by (simp_all add: r_def)
  have p: "h = r div 3600" "mi = r mod 3600 div 60" "se = r mod 60" using assms by (simp_all add: clock_of_def r_def)
  show "0 \<le> h" "h < 24" "0 \<le> mi" "mi < 60" "0 \<le> se" "se < 60" using r by (simp_all add: p)
  have "r mod 3600 mod 60 = r mod 60" by (rule mod_mod_cancel) simp
  moreover have "r mod 3600 div 60 * 60 + r mod 3600 mod 60 = r mod 3600" by (rule div_mult_mod_eq)
  moreover have "r div 3600 * 3600 + r mod 3600 = r" by (rule div_mult_mod_eq)
  ultimately have "h * 3600 + mi * 60 + se = r" unfolding p by linarith
  then show "h * 3600 + mi * 60 + se = s mod 86400" by (simp add: r_def)
qed

lemma parse_year [simp]: "0 \<le> y \<Longrightarrow> y < 10000 \<Longrightarrow> parse_part LYear a (padded 4 y @ r) = Some (a\<lparr>pa_year := y\<rparr>, r)"
  by (simp add: parse_part_def padded_four)

lemma parse_month [simp]: "1 \<le> n \<Longrightarrow> n \<le> 12 \<Longrightarrow> parse_part LMonth a (padded 2 n @ r) = Some (a\<lparr>pa_month := n\<rparr>, r)"
  by (simp add: parse_part_def get_padded in_range_def)

lemma parse_day [simp]: "1 \<le> n \<Longrightarrow> n \<le> 31 \<Longrightarrow> parse_part LDay a (padded 2 n @ r) = Some (a\<lparr>pa_day := n\<rparr>, r)"
  by (simp add: parse_part_def get_padded)

lemma parse_hour [simp]: "0 \<le> n \<Longrightarrow> n < 24 \<Longrightarrow> parse_part LHour a (padded 2 n @ r) = Some (a\<lparr>pa_clock := (n, snd (pa_clock a))\<rparr>, r)"
  by (simp add: parse_part_def get_padded in_range_def)

lemma parse_minute [simp]: "0 \<le> n \<Longrightarrow> n < 60 \<Longrightarrow>
    parse_part LMinute a (padded 2 n @ r) = Some (a\<lparr>pa_clock := (fst (pa_clock a), n, snd (snd (pa_clock a)))\<rparr>, r)"
  by (simp add: parse_part_def get_padded in_range_def)

lemma parse_second [simp]: "0 \<le> n \<Longrightarrow> n < 60 \<Longrightarrow>
    parse_part LSecond a (padded 2 n @ ''Z'') = Some (a\<lparr>pa_clock := (fst (pa_clock a), fst (snd (pa_clock a)), n), pa_nanos := 0\<rparr>, ''Z'')"
  by (simp add: parse_part_def get_padded in_range_def get_fraction_def)

lemma parse_lit [simp]: "c \<noteq> CHR '' '' \<Longrightarrow> parse_part (LLit c) a (c # r) = Some (a, r)"
  by (simp add: parse_part_def skip_char_def)

lemma parse_zone [simp]: "parse_part LZone a ''Z'' = Some (a\<lparr>pa_offset := Some 0\<rparr>, [])"
  by (simp add: parse_part_def get_zone_def)

text \<open>A time written in UTC is read back, to the second, whatever the default location is.\<close>

lemma parse_format:
  assumes "civil_of_days (t div second div 86400) = (y, m, d)" "0 \<le> y" "y < 10000"
  shows "parse_time rfc3339 loc (format_utc rfc3339 t) = Some (t div second * second)"
proof -
  let ?s = "t div second"
  obtain h mi se where c: "clock_of (?s mod 86400) = (h, mi, se)" by (metis surj_pair)
  note r = clock_range [OF c]
  have ok: "date_ok (y, m, d)" using civil_ok [of "?s div 86400"] assms(1) by simp
  then have md: "1 \<le> m" "m \<le> 12" "1 \<le> d" "d \<le> 31" by (auto simp: date_ok_def month_days_def split: if_splits)
  have f: "format_utc rfc3339 t = padded 4 y @ ''-'' @ padded 2 m @ ''-'' @ padded 2 d @ ''T'' @ padded 2 h @ '':'' @ padded 2 mi @ '':'' @ padded 2 se @ ''Z''"
    by (simp add: format_utc_def rfc3339_def date_layout_def format_part_def assms(1) c)
  have "parse_parts rfc3339 nothing_parsed (format_utc rfc3339 t) =
      Some \<lparr>pa_year = y, pa_month = m, pa_day = d, pa_clock = (h, mi, se), pa_nanos = 0, pa_offset = Some 0\<rparr>"
    unfolding f using r md assms(2,3) by (simp add: rfc3339_def date_layout_def nothing_parsed_def)
  moreover have "time_of utc (y, m, d) (h, mi, se) 0 = (?s div 86400 * 86400 + (h * 3600 + mi * 60 + se)) * second"
    using civil_days [of "?s div 86400"] by (simp add: time_of_def utc_def assms(1) Let_def)
  ultimately show ?thesis using ok by (simp add: parse_time_def Let_def r(7))
qed

end
