(* ===== verification/Wake_Plan.thy ===== *)
theory Wake_Plan
  imports Routing_Facts Go_Time
begin

text \<open>
  When a task without a clock time should next happen (\<^verbatim>\<open>runtime/wake_plan.go\<close>): the agent looks up
  what the time depends on and says when to wake, in a run of the loop whose actions share what has
  been found and decided so far. The state of the run is the world beside that shared state. The
  prompt is text for the model, the time zone database a function: parameters. \<^verbatim>\<open>%q\<close> is written
  without escapes.
\<close>

section \<open>What is asked and what is decided\<close>

datatype wake_kind = WakeAct | WakeCheck | WakeOther string

definition wake_kind_of :: "string \<Rightarrow> wake_kind" where
  "wake_kind_of s = (if s = ''act'' then WakeAct else if s = ''check'' then WakeCheck else WakeOther s)"

fun wake_kind_text :: "wake_kind \<Rightarrow> string" where
  "wake_kind_text WakeAct = ''act''"
| "wake_kind_text WakeCheck = ''check''"
| "wake_kind_text (WakeOther s) = s"

definition min_act_ahead :: int where "min_act_ahead = 15 * minute"
definition min_check_ahead :: int where "min_check_ahead = hour"
definition max_wake_ahead :: int where "max_wake_ahead = 7 * 24 * hour"
definition late_wake :: int where "late_wake = hour"
definition max_wake_reason :: nat where "max_wake_reason = 200"
definition max_wake_say :: nat where "max_wake_say = 300"
definition max_wake_iterating :: int where "max_wake_iterating = 12"

record wake_record =
  wr_at :: int
  wr_kind :: wake_kind
  wr_reason :: string

record wake_request =
  wq_agent :: string
  wq_user :: string
  wq_action :: string
  wq_timing :: string
  wq_zone :: string
  wq_now :: "int option"
  wq_last :: "wake_record option"
  wq_due :: bool

record wake_plan =
  wp_at :: int
  wp_kind :: wake_kind
  wp_reason :: string
  wp_do_it_now :: bool
  wp_say :: string

text \<open>No time at all is \<^verbatim>\<open>time.Time{}\<close>, written as 0 here; only \<open>wp_say\<close> is read of such a plan.\<close>

definition only_say :: "string \<Rightarrow> wake_plan" where
  "only_say s = \<lparr>wp_at = 0, wp_kind = WakeOther [], wp_reason = [], wp_do_it_now = False, wp_say = s\<rparr>"

record wake_state =
  wk_lookups :: nat
  wk_plan :: "wake_plan option"
  wk_say :: string
  wk_do_now :: bool

definition fresh_wake :: wake_state where
  "fresh_wake = \<lparr>wk_lookups = 0, wk_plan = None, wk_say = [], wk_do_now = False\<rparr>"

definition decided :: "wake_state \<Rightarrow> bool" where
  "decided st \<longleftrightarrow> wk_plan st \<noteq> None \<or> wk_say st \<noteq> []"

definition may_act_now :: "wake_request \<Rightarrow> int \<Rightarrow> bool" where
  "may_act_now req now \<longleftrightarrow> wq_due req \<and> (case wq_last req of None \<Rightarrow> False | Some l \<Rightarrow> wr_kind l = WakeAct \<and> now - wr_at l \<le> late_wake)"

section \<open>What the agent may say\<close>

definition minute_layout :: "layout_part list" where
  "minute_layout = [LHour, LLit CHR '':'', LMinute]"

definition wake_layouts :: "layout_part list list" where
  "wake_layouts =
     [date_layout @ [LLit CHR ''T''] @ minute_layout @ [LLit CHR '':'', LSecond],
      date_layout @ [LLit CHR ''T''] @ minute_layout,
      date_layout @ [LLit CHR '' ''] @ minute_layout]"

definition first_some :: "('a \<Rightarrow> 'b option) \<Rightarrow> 'a list \<Rightarrow> 'b option" where
  "first_some f xs = foldr (\<lambda>x r. case f x of None \<Rightarrow> r | Some y \<Rightarrow> Some y) xs None"

definition parse_wake_time :: "string \<Rightarrow> location \<Rightarrow> goerr + int" where
  "parse_wake_time s loc =
     (if s = [] then Inl (errorf ''give the time, like 2026-10-25T08:30:00+01:00'')
      else case parse_time rfc3339 utc s of
          Some t \<Rightarrow> Inr t
        | None \<Rightarrow> (case first_some (\<lambda>l. parse_time l loc s) wake_layouts of
            Some t \<Rightarrow> Inr t
          | None \<Rightarrow> Inl (errorf (quoted s @ '' is not a time: use the form 2026-10-25T08:30:00+01:00''))))"

definition first_runes :: "nat \<Rightarrow> string \<Rightarrow> string" where
  "first_runes n s = (if n < rune_count s then concat (take n (runes s)) else s)"

definition validate :: "location \<Rightarrow> int \<Rightarrow> wake_state \<Rightarrow> args \<Rightarrow> goerr + wake_plan" where
  "validate loc now st input =
     (if wk_lookups st = 0
      then Inl (errorf ''look it up first: use your tools to find out when it happens, then set the time. A time from memory is not accepted'')
      else let kind = wake_kind_of (to_lower (trim_space (get_str input ''kind''))) in
      if kind \<noteq> WakeAct \<and> kind \<noteq> WakeCheck then Inl (errorf (''kind must be '' @ quoted ''act'' @ '' or '' @ quoted ''check''))
      else let reason = trim_space (get_str input ''reason'') in
      if reason = [] then Inl (errorf ''give the reason in one plain sentence'')
      else case parse_wake_time (trim_space (get_str input ''at'')) loc of
          Inl e \<Rightarrow> Inl e
        | Inr t \<Rightarrow>
           (let least = (if kind = WakeCheck then min_check_ahead else min_act_ahead) in
            if t < now + least
            then Inl (errorf (''that is too soon: a '' @ quoted (wake_kind_text kind) @ '' wake-up must be at least '' @ itoa (least div minute) @
                   '' minutes from now (now is '' @ format_utc rfc3339 now @ ''). If the moment is nearer than that, use the one after it''))
            else if now + max_wake_ahead < t
            then Inl (errorf (''that is too far ahead: choose a time no later than '' @ format_utc rfc3339 (now + max_wake_ahead) @
                   '', and use kind '' @ quoted ''check'' @ '' to look again then''))
            else Inr \<lparr>wp_at = t, wp_kind = kind, wp_reason = first_runes max_wake_reason reason, wp_do_it_now = False, wp_say = []\<rparr>))"

section \<open>The actions of a planning run\<close>

definition noted :: "string \<Rightarrow> goval \<times> goerr option" where
  "noted text = (GObj [(''message'', GStr text)], None)"

definition refused :: "goerr \<Rightarrow> goval \<times> goerr option" where
  "refused e = (GNil, Some e)"

definition plain_schema :: "schema_type \<Rightarrow> string \<Rightarrow> schema" where
  "plain_schema ty about = Schema ty about [] None [] []"

definition wake_action :: "string \<Rightarrow> string \<Rightarrow> schema \<Rightarrow> int \<Rightarrow> 'w invoke \<Rightarrow> 'w bound_action" where
  "wake_action name about input max_calls f =
     \<lparr>ba_spec = \<lparr>as_name = name, as_description = about, as_instructions = [], as_input = input,
        as_output = plain_schema (TOther []) [], as_max_calls = max_calls, as_hidden = False, as_read_only = False, as_changes = False\<rparr>,
      ba_invoke = f, ba_needs = [], ba_app = [], ba_app_name = [], ba_with = [], ba_declared = False, ba_limited = False\<rparr>"

text \<open>\<^verbatim>\<open>countLookups\<close>: a copy of the action that notes when it went through.\<close>

definition count_lookups :: "'w bound_action \<Rightarrow> ('w \<times> wake_state) bound_action" where
  "count_lookups t =
     \<lparr>ba_spec = ba_spec t,
      ba_invoke = (\<lambda>inp (w, st). let ((out, err), w') = ba_invoke t inp w in
         ((out, err), (w', if really_done out err then st\<lparr>wk_lookups := Suc (wk_lookups st)\<rparr> else st))),
      ba_needs = ba_needs t, ba_app = ba_app t, ba_app_name = ba_app_name t, ba_with = ba_with t, ba_declared = ba_declared t,
      ba_limited = ba_limited t\<rparr>"

definition set_next_wake :: "location \<Rightarrow> int \<Rightarrow> ('w \<times> wake_state) bound_action" where
  "set_next_wake loc now =
     wake_action ''set_next_wake''
       (''Say when the job should next happen (kind act) or when to look again (kind check). '' @
        ''Call it once, after looking the facts up with your other tools.'')
       (Schema TObject []
         [(''at'', plain_schema TString ''The time, with its offset, like 2026-10-25T08:30:00+01:00.''),
          (''kind'', Schema TString ''act (do the job then) or check (look again then).'' [] None [] [''act'', ''check'']),
          (''reason'', plain_schema TString (''One plain sentence for the person about this next wake-up only: what you found '' @
             ''and how you got this time. Never say what is being done now.''))]
         None [''at'', ''kind'', ''reason''] []) 3
       (\<lambda>inp (w, st). case validate loc now st inp of
           Inl e \<Rightarrow> (refused e, (w, st))
         | Inr p \<Rightarrow> (noted ''Noted. Now call finish.'', (w, st\<lparr>wk_plan := Some p\<rparr>)))"

definition cannot_plan :: "('w \<times> wake_state) bound_action" where
  "cannot_plan =
     wake_action ''cannot_plan''
       (''Use this only when, with the tools you have, you cannot find out when the job should happen. Say it in one plain sentence '' @
        ''to the person: what you couldn'' @ [CHR 0x27] @ ''t find and what you'' @ [CHR 0x27] @ ''d need.'')
       (Schema TObject [] [(''message'', plain_schema TString ''One plain sentence for the person.'')] None [''message''] []) 1
       (\<lambda>inp (w, st). let msg = trim_space (get_str inp ''message'') in
          if msg = [] then (refused (errorf (''say what you couldn'' @ [CHR 0x27] @ ''t find, in one plain sentence'')), (w, st))
          else (noted ''Noted. Now call finish.'', (w, st\<lparr>wk_say := first_runes max_wake_say msg\<rparr>)))"

definition confirm_moment :: "('w \<times> wake_state) bound_action" where
  "confirm_moment =
     wake_action ''confirm_moment''
       (''Call this when the time you planned has now come and, after looking everything up again, it still holds: the job should be done right now. '' @
        ''Do not call it if the time moved or is not here yet. Then still call set_next_wake for the one after this.'')
       (plain_schema TObject []) 0
       (\<lambda>inp (w, st). if wk_lookups st = 0
          then (refused (errorf ''look it up again first: use your tools to check that the time still holds''), (w, st))
          else (noted ''Noted: the job will be done now. Now call set_next_wake for the one after.'', (w, st\<lparr>wk_do_now := True\<rparr>)))"

text \<open>\<^verbatim>\<open>buildGetCurrentTimeAction\<close>: the clock is read when it is called.\<close>

definition current_time_action :: "('w \<Rightarrow> int) \<Rightarrow> 'w bound_action" where
  "current_time_action clock =
     wake_action ''get_current_time''
       ''Returns the current UTC date and time. Call this when you need to know today's date or the current time.''
       (plain_schema TObject []) 0
       (\<lambda>inp w. let now = clock w in
          ((GObj [(''utc'', GStr (format_utc rfc3339 now)), (''date'', GStr (format_utc date_layout now)),
             (''time'', GStr (format_utc (minute_layout @ [LLit CHR '':'', LSecond]) now)), (''day_of_week'', GStr (weekday_name now))], None), w))"

section \<open>Planning\<close>

text \<open>Models and clock beside the shared state, which they do not see.\<close>

definition beside :: "'w llm_env \<Rightarrow> ('w \<times> 's) llm_env" where
  "beside env =
     \<lparr>le_llms = map (\<lambda>p msgs specs (w, st). let (r, w') = p msgs specs w in (r, (w', st))) (le_llms env),
      le_now = (\<lambda>(w, _). le_now env w), le_wait = (\<lambda>d (w, st). let (b, w') = le_wait env d w in (b, (w', st))),
      le_ctx_err = (\<lambda>(w, _). le_ctx_err env w)\<rparr>"

record 'w wake_agent =
  wa_env :: "'w llm_env"
  wa_skills :: "skill list"
  wa_hydrate :: "skill \<Rightarrow> goerr + 'w bound_action list"

record 'w wake_host =
  wh_agents :: "string \<Rightarrow> 'w wake_agent option"
  wh_zone :: "string \<Rightarrow> location option"
  wh_prompt :: "wake_request \<Rightarrow> int \<Rightarrow> bool \<Rightarrow> string"

definition ask_options_name :: string where "ask_options_name = ''ask_options''"

text \<open>Every look-up of every capability whose abilities can be put together, each name once.\<close>

definition wake_lookups :: "'w wake_agent \<Rightarrow> 'w bound_action list" where
  "wake_lookups ag =
     dedupe_by act_name [] (filter (\<lambda>t. looks_up t \<and> act_name t \<noteq> ask_options_name)
       (concat (map (\<lambda>s. case wa_hydrate ag s of Inl _ \<Rightarrow> [] | Inr ts \<Rightarrow> ts) (wa_skills ag))))"

definition location_for :: "(string \<Rightarrow> location option) \<Rightarrow> string \<Rightarrow> location" where
  "location_for load zone = (if zone = [] \<or> zone = ''Local'' then utc else case load zone of None \<Rightarrow> utc | Some l \<Rightarrow> l)"

definition wake_actions :: "'w wake_agent \<Rightarrow> location \<Rightarrow> int \<Rightarrow> bool \<Rightarrow> ('w \<times> wake_state) bound_action list" where
  "wake_actions ag loc now can =
     map count_lookups (wake_lookups ag) @
     [current_time_action (\<lambda>(w, _). le_now (wa_env ag) w), set_next_wake loc now, cannot_plan, build_finish False None None] @
     (if can then [confirm_moment] else [])"

definition no_lookups_text :: string where
  "no_lookups_text = ''I'' @ [CHR 0x27] @ ''m not connected to anything that could tell me when that will be, so I can'' @ [CHR 0x27] @ ''t time it. '' @
     ''Give me a time of day instead, or connect what it depends on.''"

definition wake_nudge :: string where
  "wake_nudge = ''You have not set the next wake-up yet. Call set_next_wake with the time and the reason (or cannot_plan if you cannot find it out), then call finish.''"

definition no_wake_plan :: goerr where
  "no_wake_plan = \<lparr>err_text = ''the agent did not set when to wake'', err_wraps = [ErrNoWakePlan]\<rparr>"

definition wake_cfg :: "'w wake_agent \<Rightarrow> location \<Rightarrow> int \<Rightarrow> bool \<Rightarrow> ('w \<times> wake_state) loop_cfg" where
  "wake_cfg ag loc now can =
     \<lparr>lc_env = beside (wa_env ag), lc_max_iterations = new_max_iterations max_wake_iterating,
      lc_actions = wake_actions ag loc now can, lc_requirements = None\<rparr>"

text \<open>The run, and one more when it ended without a decision, by the same loop.\<close>

definition wake_runs ::
  "('w \<times> wake_state) loop_cfg \<Rightarrow> message list \<Rightarrow> 'w \<Rightarrow> (goerr + loop_result) \<times> ('w \<times> wake_state)" where
  "wake_runs cfg msgs w =
     (case loop_run cfg fresh_breaker msgs (w, fresh_wake) of
        (Inl e, s) \<Rightarrow> (Inl (wrapf ''PlanWake: '' e), ls_world s)
      | (Inr res, s) \<Rightarrow>
         (if decided (snd (ls_world s)) then (Inr res, ls_world s)
          else case loop_run cfg (ls_breaker s) (ls_messages s @ [plain_message RoleUser wake_nudge]) (ls_world s) of
              (Inr res2, s2) \<Rightarrow> (Inr res2, ls_world s2)
            | (Inl _, s2) \<Rightarrow> (Inr res, ls_world s2)))"

definition outcome_of_wake :: "bool \<Rightarrow> loop_result \<Rightarrow> wake_state \<Rightarrow> goerr + wake_plan" where
  "outcome_of_wake can res st =
     (case wk_plan st of
        Some p \<Rightarrow> Inr (p\<lparr>wp_do_it_now := wk_do_now st \<and> can\<rparr>)
      | None \<Rightarrow> (if wk_say st \<noteq> [] then Inr (only_say (wk_say st))
          else if res_content res \<noteq> [] then Inl \<lparr>err_text = ''PlanWake: '' @ err_text no_wake_plan @ '' ('' @ res_content res @ '')'', err_wraps = err_wraps no_wake_plan\<rparr>
          else Inl no_wake_plan))"

definition plan_wake :: "'w wake_host \<Rightarrow> wake_request \<Rightarrow> 'w \<Rightarrow> (goerr + wake_plan) \<times> 'w" where
  "plan_wake h req w =
     (case wh_agents h (wq_agent req) of
        None \<Rightarrow> (Inl (errorf (''PlanWake: agent '' @ quoted (wq_agent req) @ '' not registered'')), w)
      | Some ag \<Rightarrow>
         (if trim_space (wq_action req) = [] \<or> trim_space (wq_timing req) = []
          then (Inl (errorf ''PlanWake: a task and when it should happen are needed''), w)
          else let now = (case wq_now req of Some t \<Rightarrow> t | None \<Rightarrow> le_now (wa_env ag) w);
                   loc = location_for (wh_zone h) (wq_zone req); can = may_act_now req now in
          if wake_lookups ag = [] then (Inr (only_say no_lookups_text), w)
          else let msgs = [plain_message RoleSystem (wh_prompt h req now can), plain_message RoleUser ''Work out when this should happen.''];
                   (r, (w', st)) = wake_runs (wake_cfg ag loc now can) msgs w
               in (case r of Inl e \<Rightarrow> Inl e | Inr res \<Rightarrow> outcome_of_wake can res st, w')))"

end
