(* ===== verification/Wake_Claims.thy ===== *)
theory Wake_Claims
  imports Wake_Plan Routing_Claims
begin

text \<open>
  What a planned wake-up rests on: a look-up that really went through this time, a time in the range the
  code insists on, and nothing changed on the way; and that a refused time comes with one that is accepted.
\<close>

section \<open>A planning run\<close>

definition least_ahead :: "wake_kind \<Rightarrow> int" where
  "least_ahead k = (if k = WakeCheck then min_check_ahead else min_act_ahead)"

definition plan_fine :: "int \<Rightarrow> wake_plan \<Rightarrow> bool" where
  "plan_fine now p \<longleftrightarrow> wp_kind p \<in> {WakeAct, WakeCheck} \<and> wp_reason p \<noteq> [] \<and> wp_say p = [] \<and>
     now + least_ahead (wp_kind p) \<le> wp_at p \<and> wp_at p \<le> now + max_wake_ahead"

definition wake_good :: "('w \<Rightarrow> bool) \<Rightarrow> ('w \<Rightarrow> bool) \<Rightarrow> int \<Rightarrow> 'w \<times> wake_state \<Rightarrow> bool" where
  "wake_good Keeps seen now = (\<lambda>(w, st). Keeps w \<and> (0 < wk_lookups st \<longrightarrow> seen w) \<and> (wk_do_now st \<longrightarrow> 0 < wk_lookups st) \<and>
     (\<forall>p. wk_plan st = Some p \<longrightarrow> plan_fine now p \<and> 0 < wk_lookups st))"

lemma rune_nonempty: "r \<in> set (runes s) \<Longrightarrow> r \<noteq> []"
proof (induction s rule: runes.induct)
  case (2 b s)
  show ?case
  proof (cases "valid_rune_size (b # s)")
    case None
    then show ?thesis using 2 by (auto simp: rune_error_def)
  next
    case (Some n)
    then show ?thesis using 2 valid_rune_size_pos [OF Some] by auto
  qed
qed simp

lemma first_runes_nonempty: "s \<noteq> [] \<Longrightarrow> 0 < n \<Longrightarrow> first_runes n s \<noteq> []"
proof (cases "n < rune_count s")
  case True
  assume "0 < n"
  obtain r rs where r: "runes s = r # rs" using True by (cases "runes s") (auto simp: rune_count_def)
  then have "r \<noteq> []" using rune_nonempty [of r s] by simp
  then show ?thesis using True \<open>0 < n\<close> r by (cases n) (simp_all add: first_runes_def)
qed (simp add: first_runes_def)

text \<open>What an accepted answer keeps.\<close>

lemma validate_ok:
  assumes "validate loc now st inp = Inr p"
  shows "plan_fine now p" "0 < wk_lookups st" "\<not> wp_do_it_now p"
proof -
  have "plan_fine now p \<and> 0 < wk_lookups st \<and> \<not> wp_do_it_now p"
    using assms by (auto simp: validate_def Let_def plan_fine_def least_ahead_def max_wake_reason_def first_runes_nonempty
        split: if_splits sum.splits)
  then show "plan_fine now p" "0 < wk_lookups st" "\<not> wp_do_it_now p" by auto
qed

text \<open>Every action of the run keeps what is good: a look-up that goes through leaves its mark, and only it counts.\<close>

definition marks :: "('w \<Rightarrow> bool) \<Rightarrow> 'w bound_action \<Rightarrow> bool" where
  "marks seen a \<longleftrightarrow> (\<forall>inp w out err w'. ba_invoke a inp w = ((out, err), w') \<longrightarrow> (seen w \<or> really_done out err \<longrightarrow> seen w'))"

lemma count_keeps:
  assumes "marks seen t" "keeps_fact Keeps t"
  shows "keeps_fact (wake_good Keeps seen now) (count_lookups t)"
proof -
  have "wake_good Keeps seen now (snd (ba_invoke (count_lookups t) inp (w, st)))" if g: "wake_good Keeps seen now (w, st)" for inp w st
  proof -
    obtain out err w' where i: "ba_invoke t inp w = ((out, err), w')" by (metis surj_pair)
    have "Keeps w'" using assms(2) i g unfolding keeps_fact_def wake_good_def by (metis (no_types, lifting) case_prodD snd_conv)
    moreover have "seen w \<or> really_done out err \<longrightarrow> seen w'" using assms(1) i unfolding marks_def by blast
    ultimately show ?thesis using g by (auto simp: count_lookups_def i wake_good_def)
  qed
  then show ?thesis unfolding keeps_fact_def by auto
qed

lemma set_next_wake_keeps: "keeps_fact (wake_good Keeps seen now) (set_next_wake loc now)"
  by (auto simp: keeps_fact_def set_next_wake_def wake_action_def wake_good_def validate_ok split: sum.split)

lemma cannot_plan_keeps: "keeps_fact (wake_good Keeps seen now) cannot_plan"
  by (auto simp: keeps_fact_def cannot_plan_def wake_action_def wake_good_def Let_def)

lemma confirm_keeps: "keeps_fact (wake_good Keeps seen now) confirm_moment"
  by (auto simp: keeps_fact_def confirm_moment_def wake_action_def wake_good_def)

lemma clock_keeps: "keeps_fact (wake_good Keeps seen now) (current_time_action clock)"
  by (auto simp: keeps_fact_def current_time_action_def wake_action_def Let_def)

definition wake_tools_fine :: "('w \<Rightarrow> bool) \<Rightarrow> ('w \<Rightarrow> bool) \<Rightarrow> 'w wake_agent \<Rightarrow> bool" where
  "wake_tools_fine Keeps seen ag \<longleftrightarrow> (\<forall>s \<in> set (wa_skills ag). \<forall>ts. wa_hydrate ag s = Inr ts \<longrightarrow> (\<forall>t \<in> set ts. looks_up t \<longrightarrow> marks seen t \<and> keeps_fact Keeps t))"

lemma wake_lookups_fine:
  assumes "wake_tools_fine Keeps seen ag" "t \<in> set (wake_lookups ag)"
  shows "marks seen t \<and> keeps_fact Keeps t"
proof -
  obtain s where s: "s \<in> set (wa_skills ag)" "t \<in> set (case wa_hydrate ag s of Inl _ \<Rightarrow> [] | Inr ts \<Rightarrow> ts)" "looks_up t"
    using subsetD [OF set_dedupe_by_subset assms(2) [unfolded wake_lookups_def]] by auto
  then obtain ts where "wa_hydrate ag s = Inr ts" "t \<in> set ts" by (cases "wa_hydrate ag s") auto
  then show ?thesis using assms(1) s(1,3) unfolding wake_tools_fine_def by blast
qed

lemma wake_actions_keep:
  assumes "wake_tools_fine Keeps seen ag"
  shows "\<forall>a \<in> set (wake_actions ag loc now can). may_be_run (wake_good Keeps seen now) a"
proof -
  have "act_name (build_finish False None None) = finish_action_name" by (simp add: build_finish_def act_name_def)
  then show ?thesis using wake_lookups_fine [OF assms]
    by (auto simp: wake_actions_def may_be_run_def count_keeps set_next_wake_keeps cannot_plan_keeps confirm_keeps clock_keeps)
qed

lemma wake_good_world: "wake_good Keeps seen now (w, st) \<Longrightarrow> Keeps w' \<Longrightarrow> (seen w \<longrightarrow> seen w') \<Longrightarrow> wake_good Keeps seen now (w', st)"
  by (auto simp: wake_good_def)

lemma wake_good_keeps: "wake_good Keeps seen now x \<Longrightarrow> Keeps (fst x)"
  by (cases x) (simp add: wake_good_def)

lemma beside_keeps:
  assumes "models_keep env Keeps" "models_keep env seen"
  shows "models_keep (beside env) (wake_good Keeps seen now)"
proof -
  have llm: "wake_good Keeps seen now (snd (p msgs specs w), st)"
    if "p \<in> set (le_llms env)" "wake_good Keeps seen now (w, st)" for p msgs specs w st
    by (rule wake_good_world [OF that(2)]) (use assms that in \<open>auto simp: models_keep_def wake_good_def\<close>)
  have wait: "wake_good Keeps seen now (snd (le_wait env d w), st)" if "wake_good Keeps seen now (w, st)" for d w st
    by (rule wake_good_world [OF that]) (use assms that in \<open>auto simp: models_keep_def wake_good_def\<close>)
  show ?thesis unfolding models_keep_def using llm wait by (auto simp: beside_def case_prod_beta' Let_def)
qed

lemma wake_run_good:
  assumes "wake_tools_fine Keeps seen ag" "models_keep (wa_env ag) Keeps" "models_keep (wa_env ag) seen" "wake_good Keeps seen now x"
  shows "wake_good Keeps seen now (ls_world (snd (loop_run (wake_cfg ag loc now can) b msgs x)))"
proof -
  let ?cfg = "wake_cfg ag loc now can"
  have "\<forall>a \<in> set (lc_actions ?cfg). may_be_run (wake_good Keeps seen now) a"
    using wake_actions_keep [OF assms(1)] by (simp add: wake_cfg_def)
  from world_invariant.holds_after [OF fact_world_invariant [OF this], of x b msgs]
  have "fact_if_quiet (lc_env ?cfg) (wake_good Keeps seen now) (ls_world (snd (loop_run ?cfg b msgs x)))"
    using assms(4) by (simp add: fact_if_quiet_def)
  then show ?thesis using beside_keeps [OF assms(2,3), of now] by (simp add: fact_if_quiet_def wake_cfg_def)
qed

lemma wake_runs_good:
  assumes "wake_tools_fine Keeps seen ag" "models_keep (wa_env ag) Keeps" "models_keep (wa_env ag) seen" "Keeps w"
  shows "wake_good Keeps seen now (snd (wake_runs (wake_cfg ag loc now can) msgs w))"
proof -
  note good = wake_run_good [OF assms(1-3), of now, where loc = loc and can = can]
  have start: "wake_good Keeps seen now (w, fresh_wake)" using assms(4) by (simp add: wake_good_def fresh_wake_def)
  obtain r s where 1: "loop_run (wake_cfg ag loc now can) fresh_breaker msgs (w, fresh_wake) = (r, s)" by (metis surj_pair)
  obtain r2 s2 where 2: "loop_run (wake_cfg ag loc now can) (ls_breaker s) (ls_messages s @ [plain_message RoleUser wake_nudge]) (ls_world s) = (r2, s2)"
    by (metis surj_pair)
  have g1: "wake_good Keeps seen now (ls_world s)" using good [OF start, of fresh_breaker msgs] 1 by simp
  have g2: "wake_good Keeps seen now (ls_world s2)"
    using good [OF g1, of "ls_breaker s" "ls_messages s @ [plain_message RoleUser wake_nudge]"] 2 by simp
  show ?thesis using g1 g2 by (simp add: wake_runs_def 1 2 split: sum.split)
qed

section \<open>What a plan rests on\<close>

lemma plan_wake_run:
  assumes "plan_wake h req w = (Inr p, w')" "wp_say p = []" "wh_agents h (wq_agent req) = Some ag"
    "now = (case wq_now req of Some t \<Rightarrow> t | None \<Rightarrow> le_now (wa_env ag) w)"
  obtains loc msgs res st q where "wake_runs (wake_cfg ag loc now (may_act_now req now)) msgs w = (Inr res, (w', st))"
    "wk_plan st = Some q" "p = q\<lparr>wp_do_it_now := wk_do_now st \<and> may_act_now req now\<rparr>"
proof -
  define loc where "loc = location_for (wh_zone h) (wq_zone req)"
  define msgs where "msgs = [plain_message RoleSystem (wh_prompt h req now (may_act_now req now)), plain_message RoleUser ''Work out when this should happen.'']"
  obtain r w1 st where run: "wake_runs (wake_cfg ag loc now (may_act_now req now)) msgs w = (r, (w1, st))" by (metis surj_pair)
  have said: "wp_say (only_say no_lookups_text) \<noteq> []" "wp_say (only_say (wk_say st)) = wk_say st" by (simp_all add: only_say_def no_lookups_text_def)
  have "plan_wake h req w = (if trim_space (wq_action req) = [] \<or> trim_space (wq_timing req) = []
      then (Inl (errorf ''PlanWake: a task and when it should happen are needed''), w)
      else if wake_lookups ag = [] then (Inr (only_say no_lookups_text), w)
      else (case r of Inl e \<Rightarrow> Inl e | Inr res \<Rightarrow> outcome_of_wake (may_act_now req now) res st, w1))"
    by (simp add: plan_wake_def Let_def assms(3) assms(4) [symmetric] run [unfolded loc_def msgs_def])
  then have "(case r of Inl e \<Rightarrow> Inl e | Inr res \<Rightarrow> outcome_of_wake (may_act_now req now) res st) = Inr p \<and> w1 = w'"
    using assms(1,2) said(1) by (auto split: if_splits)
  then obtain res where r: "r = Inr res" "outcome_of_wake (may_act_now req now) res st = Inr p" "w1 = w'"
    by (cases r) auto
  then obtain q where "wk_plan st = Some q" "p = q\<lparr>wp_do_it_now := wk_do_now st \<and> may_act_now req now\<rparr>"
    using assms(2) said(2) by (auto simp: outcome_of_wake_def split: option.splits if_splits)
  then show thesis using that run r by blast
qed

text \<open>
  (C12) A planned wake-up is never from memory and never out of range: when an agent whose look-ups leave a
  mark (and only they do) gives a plan, a look-up went through during this very planning; the time is at
  least 15 minutes (an hour, to look again) and at most seven days away, and has a reason. The task is
  done now only at the wake-up of a time to act, no more than an hour late.
\<close>
theorem wake_plan_rests_on_lookup:
  assumes "plan_wake h req w = (Inr p, w')" "wp_say p = []" "wh_agents h (wq_agent req) = Some ag"
    and "now = (case wq_now req of Some t \<Rightarrow> t | None \<Rightarrow> le_now (wa_env ag) w)"
    and "\<forall>s \<in> set (wa_skills ag). \<forall>ts. wa_hydrate ag s = Inr ts \<longrightarrow> (\<forall>t \<in> set ts. looks_up t \<longrightarrow> marks seen t)"
    and "models_keep (wa_env ag) seen"
  shows "seen w' \<and> wp_kind p \<in> {WakeAct, WakeCheck} \<and> wp_reason p \<noteq> [] \<and>
    now + (if wp_kind p = WakeCheck then hour else 15 * minute) \<le> wp_at p \<and> wp_at p \<le> now + 7 * 24 * hour \<and>
    (wp_do_it_now p \<longrightarrow> wq_due req \<and> (\<exists>l. wq_last req = Some l \<and> wr_kind l = WakeAct \<and> now \<le> wr_at l + hour))"
proof -
  obtain loc msgs res st q where r: "wake_runs (wake_cfg ag loc now (may_act_now req now)) msgs w = (Inr res, (w', st))"
    and q: "wk_plan st = Some q" "p = q\<lparr>wp_do_it_now := wk_do_now st \<and> may_act_now req now\<rparr>"
    by (rule plan_wake_run [OF assms(1-4)])
  have "wake_tools_fine (\<lambda>_. True) seen ag" "models_keep (wa_env ag) (\<lambda>_. True)"
    using assms(5) by (auto simp: wake_tools_fine_def keeps_fact_def models_keep_def)
  then have "wake_good (\<lambda>_. True) seen now (w', st)"
    using wake_runs_good [of "\<lambda>_. True" seen ag w now loc "may_act_now req now" msgs] assms(6) r by simp
  then have "seen w'" "plan_fine now q" using q(1) by (simp_all add: wake_good_def)
  then show ?thesis using q(2)
    by (auto simp: plan_fine_def least_ahead_def min_check_ahead_def min_act_ahead_def max_wake_ahead_def late_wake_def may_act_now_def
        split: option.splits)
qed

text \<open>An agent that can look a deadline up (its look-ups are counted in the world) and send something.\<close>

definition look_deadline :: "desk_world bound_action" where
  "look_deadline = (desk_action ''deadline'' True [] False)\<lparr>ba_invoke := (\<lambda>inp w. ((GStr ''10:30'', None), (fst w, Suc (snd w))))\<rparr>"

definition squad_agent :: "desk_world bound_action list \<Rightarrow> desk_world wake_agent" where
  "squad_agent ts = \<lparr>wa_env = desk_env, wa_skills = [desk_skill ''squad''], wa_hydrate = (\<lambda>s. Inr ts)\<rparr>"

definition squad_host :: "desk_world bound_action list \<Rightarrow> desk_world wake_host" where
  "squad_host ts = \<lparr>wh_agents = (\<lambda>i. if i = ''a1'' then Some (squad_agent ts) else None), wh_zone = (\<lambda>z. None), wh_prompt = (\<lambda>r n c. [])\<rparr>"

definition squad_request :: wake_request where
  "squad_request = \<lparr>wq_agent = ''a1'', wq_user = [], wq_action = ''x'', wq_timing = ''y'', wq_zone = [], wq_now = Some 0, wq_last = None, wq_due = False\<rparr>"

definition wake_args :: args where
  "wake_args = [(''at'', GStr ''1970-01-01T02:00:00Z''), (''kind'', GStr ''act''), (''reason'', GStr ''r'')]"

definition plans_it :: "llm_response list" where
  "plans_it = [asks [call_of ''1'' ''deadline'' []], asks [call_of ''2'' ''set_next_wake'' wake_args], asks [call_of ''3'' ''finish'' [(''content'', GStr ''ok'')]]]"

definition at_two :: wake_plan where
  "at_two = \<lparr>wp_at = 2 * hour, wp_kind = WakeAct, wp_reason = ''r'', wp_do_it_now = False, wp_say = []\<rparr>"

lemma at_two_valid: "validate utc 0 \<lparr>wk_lookups = Suc 0, wk_plan = None, wk_say = [], wk_do_now = False\<rparr> wake_args = Inr at_two"
  by code_simp

lemma squad_lookups: "wake_lookups (squad_agent [look_deadline]) = [look_deadline]"
  by (simp add: wake_lookups_def squad_agent_def look_deadline_def desk_action_def looks_up_def act_name_def ask_options_name_def)

text \<open>What a run reads of the actions.\<close>

lemma wake_parts:
  "as_name (ba_spec (set_next_wake loc now)) = ''set_next_wake''" "as_max_calls (ba_spec (set_next_wake loc now)) = 3"
  "\<not> as_read_only (ba_spec (set_next_wake loc now))" "\<not> as_changes (ba_spec (set_next_wake loc now))"
  "as_name (ba_spec cannot_plan) = ''cannot_plan''" "as_name (ba_spec (current_time_action clock)) = ''get_current_time''"
  "as_name (ba_spec (build_finish False c q)) = ''finish''" "ba_spec (count_lookups t) = ba_spec t"
  "ba_invoke (set_next_wake loc now) inp (w, st) = (case validate loc now st inp of Inl e \<Rightarrow> (refused e, (w, st))
     | Inr p \<Rightarrow> (noted ''Noted. Now call finish.'', (w, st\<lparr>wk_plan := Some p\<rparr>)))"
  by (simp_all add: set_next_wake_def cannot_plan_def current_time_action_def wake_action_def build_finish_def count_lookups_def finish_action_name_def)

lemma deadline_parts:
  "as_name (ba_spec look_deadline) = ''deadline''" "as_max_calls (ba_spec look_deadline) = 0" "as_read_only (ba_spec look_deadline)"
  "\<not> as_changes (ba_spec look_deadline)"
  "ba_invoke (count_lookups look_deadline) inp ((rs, k), st) = ((GStr ''10:30'', None), ((rs, Suc k), st\<lparr>wk_lookups := Suc (wk_lookups st)\<rparr>))"
  by (simp_all add: look_deadline_def desk_action_def count_lookups_def really_done_def outcome_of_def output_not_approved_def
      output_auth_pending_prefix_def output_timezone_pending_prefix_def is_timezone_pending_def has_prefix_def)

lemma squad_run:
  "\<exists>res s. loop_run (wake_cfg (squad_agent [look_deadline]) utc 0 False) fresh_breaker msgs ((plans_it, 0), fresh_wake) = (Inr res, s) \<and>
     ls_world s = (([], 1), \<lparr>wk_lookups = 1, wk_plan = Some at_two, wk_say = [], wk_do_now = False\<rparr>)"
  unfolding wake_cfg_def wake_actions_def squad_lookups
  by (simp add: squad_agent_def desk_env_def beside_def scripted_eval wake_parts deadline_parts plans_it_def desk_model_def fresh_wake_def
      at_two_valid noted_def new_max_iterations_def max_wake_iterating_def)

lemma squad_plan: "\<exists>w'. plan_wake (squad_host [look_deadline]) squad_request (plans_it, 0) = (Inr at_two, w')"
proof -
  define msgs where "msgs = [plain_message RoleSystem (wh_prompt (squad_host [look_deadline]) squad_request 0 False), plain_message RoleUser ''Work out when this should happen.'']"
  obtain res s where r: "loop_run (wake_cfg (squad_agent [look_deadline]) utc 0 False) fresh_breaker msgs ((plans_it, 0), fresh_wake) = (Inr res, s)"
    "ls_world s = (([], 1), \<lparr>wk_lookups = 1, wk_plan = Some at_two, wk_say = [], wk_do_now = False\<rparr>)" using squad_run by blast
  have "wake_runs (wake_cfg (squad_agent [look_deadline]) utc 0 False) msgs (plans_it, 0) = (Inr res, ls_world s)"
    by (simp add: wake_runs_def r decided_def)
  moreover have "may_act_now squad_request 0 = False" "trim_space ''x'' \<noteq> []" "trim_space ''y'' \<noteq> []"
    by (simp add: may_act_now_def squad_request_def) code_simp+
  ultimately show ?thesis using squad_lookups
    by (simp add: plan_wake_def squad_host_def squad_request_def location_for_def r(2) outcome_of_wake_def at_two_def msgs_def)
qed

theorem wake_plan_rests_on_lookup_witness:
  "\<exists>w'. plan_wake (squad_host [look_deadline]) squad_request (plans_it, 0) = (Inr at_two, w') \<and> 0 < snd w'"
proof -
  obtain w' where w: "plan_wake (squad_host [look_deadline]) squad_request (plans_it, 0) = (Inr at_two, w')" using squad_plan by blast
  have "marks (\<lambda>w. 0 < snd w) look_deadline" by (auto simp: marks_def look_deadline_def)
  moreover have "models_keep desk_env (\<lambda>w. 0 < snd w)" by (auto simp: models_keep_def desk_env_def desk_model_def split: list.split)
  ultimately have "0 < snd w'"
    using wake_plan_rests_on_lookup [OF w, of "squad_agent [look_deadline]" 0 "\<lambda>w. 0 < snd w"]
    by (simp add: at_two_def squad_host_def squad_request_def squad_agent_def)
  then show ?thesis using w by blast
qed

text \<open>
  Planning looks and changes nothing: a fact about the world that every look-up of the agent and its
  models keep holds when planning is over, whatever the models say and whether or not it gave a plan; the
  agent's other abilities may break it and are never offered.
\<close>
theorem wake_planning_only_looks:
  assumes "wh_agents h (wq_agent req) = Some ag"
    and "\<forall>s \<in> set (wa_skills ag). \<forall>ts. wa_hydrate ag s = Inr ts \<longrightarrow> (\<forall>t \<in> set ts. looks_up t \<longrightarrow> keeps_fact P t)"
    and "models_keep (wa_env ag) P" "P w"
  shows "P (snd (plan_wake h req w))"
proof -
  have "wake_tools_fine P (\<lambda>_. True) ag" "models_keep (wa_env ag) (\<lambda>_. True)"
    using assms(2) by (auto simp: wake_tools_fine_def marks_def models_keep_def)
  then have "wake_good P (\<lambda>_. True) now (snd (wake_runs (wake_cfg ag loc now can) msgs w))" for loc now can msgs
    by (rule wake_runs_good [OF _ assms(3) _ assms(4)])
  then have k: "P (fst (snd (wake_runs (wake_cfg ag loc now can) msgs w)))" for loc now can msgs
    by (rule wake_good_keeps)
  show ?thesis unfolding plan_wake_def Let_def assms(1) option.case case_prod_beta'
    using assms(4) k by (auto simp del: split_paired_All)
qed

theorem wake_planning_only_looks_witness:
  "snd (snd (plan_wake (squad_host [list_orders, send_order]) squad_request (sends_it, 0))) = 0"
  by (rule wake_planning_only_looks [where ag = "squad_agent [list_orders, send_order]" and P = "\<lambda>w. snd w = 0"])
    (auto simp: squad_host_def squad_request_def squad_agent_def desk_simps looks_up_def keeps_fact_def models_keep_def desk_model_def
       split: list.split)

section \<open>A refused time\<close>

lemma token_at_head: "\<forall>x \<in> set R. x \<noteq> [] \<longrightarrow> hd x \<noteq> c \<Longrightarrow> token_at R (c # r) = None"
  by (auto simp: token_at_def find_None_iff neq_Nil_conv)

lemma trim_space_kept:
  assumes "is_digit c"
  shows "trim_space (c # m @ ''Z'') = c # m @ ''Z''"
proof -
  have "\<not> is_digit (hd x)" if "x \<in> set space_runes" for x
    using that by (auto simp: space_runes_def is_digit_def byte_def)
  then have "token_at space_runes (c # m @ ''Z'') = None" using assms by (intro token_at_head) auto
  moreover have "token_at (map rev space_runes) (CHR ''Z'' # rev (c # m)) = None"
    by (rule token_at_head) (simp add: space_runes_def)
  ultimately show ?thesis by (simp add: trim_space_def trim_left_def trim_right_def strip_left_fixed)
qed

lemma format_shape:
  assumes "civil_of_days (t div second div 86400) = (y, m, d)" "0 \<le> y" "y < 10000"
  obtains c r where "format_utc rfc3339 t = c # r @ ''Z''" "is_digit c"
proof -
  obtain c r where p: "padded 4 y = c # r" "is_digit c"
    using padded_four(1,2) [OF assms(2,3)] by (cases "padded 4 y") auto
  obtain h mi se where k: "clock_of (t div second mod 86400) = (h, mi, se)" by (metis surj_pair)
  have "format_utc rfc3339 t = c # (r @ ''-'' @ padded 2 m @ ''-'' @ padded 2 d @ ''T'' @ padded 2 h @ '':'' @ padded 2 mi @ '':'' @ padded 2 se) @ ''Z''"
    by (simp add: format_utc_def rfc3339_def date_layout_def format_part_def assms(1) k p(1))
  then show thesis using that p(2) by blast
qed

text \<open>
  (C13) A time that is too far ahead is refused with the latest one that may be chosen, and the advice is good:
  answering again with that very text, to look again, is accepted, and means the full seven days (cut to
  the second).
\<close>
theorem too_far_says_when:
  assumes "0 < wk_lookups st" "wake_kind_of (to_lower (trim_space (get_str inp ''kind''))) \<in> {WakeAct, WakeCheck}"
    and "trim_space (get_str inp ''reason'') \<noteq> []"
    and "parse_wake_time (trim_space (get_str inp ''at'')) loc = Inr t" "now + max_wake_ahead < t"
    and year: "civil_of_days ((now + max_wake_ahead) div second div 86400) = (y, m, d)" "0 \<le> y" "y < 10000"
  shows "\<exists>latest. validate loc now st inp = Inl (errorf (''that is too far ahead: choose a time no later than '' @ latest @
        '', and use kind '' @ quoted ''check'' @ '' to look again then'')) \<and>
    (\<forall>inp'. get_str inp' ''at'' = latest \<longrightarrow> get_str inp' ''kind'' = ''check'' \<longrightarrow> trim_space (get_str inp' ''reason'') \<noteq> [] \<longrightarrow>
       (\<exists>p. validate loc now st inp' = Inr p \<and> wp_kind p = WakeCheck \<and> now + max_wake_ahead - second < wp_at p))"
proof -
  define latest where "latest = format_utc rfc3339 (now + max_wake_ahead)"
  define due_at where "due_at = (now + max_wake_ahead) div second * second"
  have near: "min_check_ahead < max_wake_ahead" "min_act_ahead < max_wake_ahead"
    by (simp_all add: min_check_ahead_def min_act_ahead_def max_wake_ahead_def minute_def hour_def second_def)
  have "validate loc now st inp = Inl (errorf (''that is too far ahead: choose a time no later than '' @ latest @
      '', and use kind '' @ quoted ''check'' @ '' to look again then''))"
    using assms(1-5) near by (auto simp: validate_def Let_def latest_def)
  moreover have "\<exists>p. validate loc now st inp' = Inr p \<and> wp_kind p = WakeCheck \<and> now + max_wake_ahead - second < wp_at p"
    if "get_str inp' ''at'' = latest" "get_str inp' ''kind'' = ''check''" "trim_space (get_str inp' ''reason'') \<noteq> []" for inp'
  proof -
    obtain c r where l: "latest = c # r @ ''Z''" "is_digit c" unfolding latest_def by (rule format_shape [OF year])
    have t: "trim_space latest = latest" unfolding l(1) by (rule trim_space_kept [OF l(2)])
    have "parse_time rfc3339 utc latest = Some due_at" unfolding latest_def due_at_def by (rule parse_format [OF year])
    then have "parse_wake_time latest loc = Inr due_at" using l(1) by (simp add: parse_wake_time_def)
    moreover have "wake_kind_of (to_lower (trim_space ''check'')) = WakeCheck" by code_simp
    moreover have a: "due_at \<le> now + max_wake_ahead" "now + max_wake_ahead - second < due_at"
      using div_mult_mod_eq [of "now + max_wake_ahead" second] pos_mod_bound [of second "now + max_wake_ahead"]
        pos_mod_sign [of second "now + max_wake_ahead"] by (simp_all add: due_at_def second_def)
    moreover have "now + min_check_ahead \<le> due_at"
      using a(2) by (simp add: min_check_ahead_def max_wake_ahead_def minute_def hour_def second_def)
    ultimately show ?thesis using that assms(1) t by (simp add: validate_def Let_def)
  qed
  ultimately show ?thesis by blast
qed

definition one_lookup :: wake_state where
  "one_lookup = \<lparr>wk_lookups = 1, wk_plan = None, wk_say = [], wk_do_now = False\<rparr>"

theorem too_far_says_when_witness:
  "\<exists>p. validate utc 0 one_lookup [(''at'', GStr ''1970-01-08T00:00:00Z''), (''kind'', GStr ''check''), (''reason'', GStr ''r'')] = Inr p"
proof -
  let ?inp = "[(''at'', GStr ''1970-02-01T00:00:00Z''), (''kind'', GStr ''act''), (''reason'', GStr ''r'')]"
  have "parse_wake_time (trim_space (get_str ?inp ''at'')) utc = Inr (31 * 24 * hour)" by code_simp
  moreover have "wake_kind_of (to_lower (trim_space (get_str ?inp ''kind''))) \<in> {WakeAct, WakeCheck}" by code_simp
  moreover have "trim_space (get_str ?inp ''reason'') \<noteq> []" by code_simp
  moreover have "civil_of_days ((0 + max_wake_ahead) div second div 86400) = (1970, 1, 8)" by code_simp
  moreover have "0 + max_wake_ahead < 31 * 24 * hour" by code_simp
  ultimately obtain latest where l: "validate utc 0 one_lookup ?inp = Inl (errorf (''that is too far ahead: choose a time no later than '' @ latest @
        '', and use kind '' @ quoted ''check'' @ '' to look again then''))"
    "\<And>inp'. get_str inp' ''at'' = latest \<Longrightarrow> get_str inp' ''kind'' = ''check'' \<Longrightarrow> trim_space (get_str inp' ''reason'') \<noteq> [] \<Longrightarrow>
       \<exists>p. validate utc 0 one_lookup inp' = Inr p"
    using too_far_says_when [of one_lookup ?inp utc "31 * 24 * hour" 0 1970 1 8] by (auto simp: one_lookup_def)
  have "validate utc 0 one_lookup ?inp = Inl (errorf (''that is too far ahead: choose a time no later than '' @ ''1970-01-08T00:00:00Z'' @
        '', and use kind '' @ quoted ''check'' @ '' to look again then''))" by code_simp
  then have "latest = ''1970-01-08T00:00:00Z''" using l(1) by (simp add: errorf_def)
  moreover have "trim_space ''r'' \<noteq> []" by code_simp
  ultimately show ?thesis by (intro l(2)) (simp_all add: get_str_def)
qed

end
