(* ===== verification/Prompts.thy ===== *)
theory Prompts
  imports Offering
begin

text \<open>
  Asking a person and waiting for the tap (\<^verbatim>\<open>runtime/approval.go\<close>, \<^verbatim>\<open>runtime/choice.go\<close>): each question has a
  token, a channel of one place it waits on, and a timeout; taps come in from elsewhere at any time. The
  two requesters share this shape: an answer is a \<^verbatim>\<open>bool\<close> for an approval, the position of an option for
  a choice, which is also kept by conversation so that a new message can cut it short.

  What happens under one lock is one step; between two of them, any other goroutine's steps may come.
  Taking a waiter out and sending on its channel are two steps, since the lock is released between them.
\<close>

section \<open>The requester's state\<close>

datatype 'a wait_end = Answered 'a | TimedOut | NotPosted

datatype 'a wait_phase = Posting | Waiting | Ended "'a wait_end"

record 'a pending =
  pg_key :: "string option"
  pg_phase :: "'a wait_phase"

text \<open>
  \<open>pr_sending\<close>: taken out of the waiters, not yet sent; \<open>pr_sent\<close>: in the channel, not yet received;
  \<open>pr_calls\<close>: where each call of \<^verbatim>\<open>RequestApproval\<close> or \<^verbatim>\<open>RequestChoice\<close> stands.
\<close>

record 'a prompts =
  pr_seq :: nat
  pr_waiters :: "string list"
  pr_by_conv :: "string gomap"
  pr_sending :: "'a gomap"
  pr_sent :: "'a gomap"
  pr_calls :: "'a pending gomap"

definition no_prompts :: "'a prompts" where
  "no_prompts = \<lparr>pr_seq = 0, pr_waiters = [], pr_by_conv = [], pr_sending = [], pr_sent = [], pr_calls = []\<rparr>"

definition token_of :: "string \<Rightarrow> nat \<Rightarrow> string" where
  "token_of kind n = kind @ ''-'' @ itoa (int n)"

definition set_phase :: "string \<Rightarrow> 'a wait_phase \<Rightarrow> 'a prompts \<Rightarrow> 'a prompts" where
  "set_phase token ph p =
     p\<lparr>pr_calls := (case gm_get (pr_calls p) token of None \<Rightarrow> pr_calls p | Some c \<Rightarrow> gm_set token (c\<lparr>pg_phase := ph\<rparr>) (pr_calls p))\<rparr>"

section \<open>The steps\<close>

text \<open>A new question; an approval is not kept by conversation.\<close>

definition register :: "string \<Rightarrow> string option \<Rightarrow> 'a prompts \<Rightarrow> 'a prompts" where
  "register kind key p =
     (let token = token_of kind (Suc (pr_seq p)) in
      p\<lparr>pr_seq := Suc (pr_seq p), pr_waiters := token # pr_waiters p,
        pr_by_conv := (case key of None \<Rightarrow> pr_by_conv p | Some k \<Rightarrow> gm_set k token (pr_by_conv p)),
        pr_calls := gm_set token \<lparr>pg_key = key, pg_phase = Posting\<rparr> (pr_calls p)\<rparr>)"

text \<open>\<^verbatim>\<open>cleanup\<close>.\<close>

definition forget_wait :: "string \<Rightarrow> string option \<Rightarrow> 'a prompts \<Rightarrow> 'a prompts" where
  "forget_wait token key p =
     p\<lparr>pr_waiters := remove1 token (pr_waiters p),
       pr_by_conv := (case key of None \<Rightarrow> pr_by_conv p
         | Some k \<Rightarrow> (if gm_get (pr_by_conv p) k = Some token then gm_del k (pr_by_conv p) else pr_by_conv p))\<rparr>"

definition call_phase :: "'a prompts \<Rightarrow> string \<Rightarrow> 'a wait_phase option" where
  "call_phase p token = map_option pg_phase (gm_get (pr_calls p) token)"

definition give_up_wait :: "string \<Rightarrow> 'a wait_end \<Rightarrow> 'a prompts \<Rightarrow> 'a prompts" where
  "give_up_wait token why p =
     (case gm_get (pr_calls p) token of None \<Rightarrow> p | Some c \<Rightarrow> set_phase token (Ended why) (forget_wait token (pg_key c) p))"

text \<open>\<^verbatim>\<open>Resolve\<close> under the lock: whether a wait was found, and it is no longer there for anyone else.\<close>

definition take_waiter :: "string \<Rightarrow> 'a \<Rightarrow> 'a prompts \<Rightarrow> bool \<times> 'a prompts" where
  "take_waiter token a p =
     (if token \<in> set (pr_waiters p)
      then (True, p\<lparr>pr_waiters := remove1 token (pr_waiters p), pr_by_conv := filter (\<lambda>(k, t). t \<noteq> token) (pr_by_conv p),
              pr_sending := gm_set token a (pr_sending p)\<rparr>)
      else (False, p))"

definition send_answer :: "string \<Rightarrow> 'a prompts \<Rightarrow> 'a prompts" where
  "send_answer token p =
     (case gm_get (pr_sending p) token of
        None \<Rightarrow> p
      | Some a \<Rightarrow> p\<lparr>pr_sending := gm_del token (pr_sending p), pr_sent := gm_set token a (pr_sent p)\<rparr>)"

text \<open>The \<^verbatim>\<open>select\<close>: an answer that is there, or the timeout (or the turn's end); when both are, either.\<close>

definition receive_answer :: "string \<Rightarrow> 'a prompts \<Rightarrow> 'a prompts" where
  "receive_answer token p =
     (case gm_get (pr_sent p) token of
        None \<Rightarrow> p
      | Some a \<Rightarrow> set_phase token (Ended (Answered a)) (p\<lparr>pr_sent := gm_del token (pr_sent p)\<rparr>))"

text \<open>\<^verbatim>\<open>Supersede\<close>: which question waits in this conversation; then it is resolved like a tap.\<close>

definition waiting_in :: "string \<Rightarrow> 'a prompts \<Rightarrow> string option" where
  "waiting_in key p = gm_get (pr_by_conv p) key"

definition choice_superseded :: int where "choice_superseded = -1"

definition conversation_key :: "string \<Rightarrow> string \<Rightarrow> string \<Rightarrow> string \<Rightarrow> string" where
  "conversation_key identity chat thread sender = identity @ ''|'' @ chat @ ''|'' @ thread @ ''|'' @ sender"

text \<open>Every order of the goroutines' steps; a tap says whether a wait was found.\<close>

datatype 'a prompt_event =
    PeAsk "string option"
  | PePosted string
  | PeNotPosted string
  | PeTap string 'a bool
  | PeSend string
  | PeReceive string
  | PeTimeout string

inductive prompt_step :: "string \<Rightarrow> 'a prompts \<Rightarrow> 'a prompt_event \<Rightarrow> 'a prompts \<Rightarrow> bool" for kind :: string where
  ask: "prompt_step kind p (PeAsk key) (register kind key p)"
| posted: "call_phase p t = Some Posting \<Longrightarrow> prompt_step kind p (PePosted t) (set_phase t Waiting p)"
| not_posted: "call_phase p t = Some Posting \<Longrightarrow> prompt_step kind p (PeNotPosted t) (give_up_wait t NotPosted p)"
| tap: "take_waiter t a p = (found, p') \<Longrightarrow> prompt_step kind p (PeTap t a found) p'"
| send: "gm_get (pr_sending p) t = Some a \<Longrightarrow> prompt_step kind p (PeSend t) (send_answer t p)"
| receive: "call_phase p t = Some Waiting \<Longrightarrow> gm_get (pr_sent p) t = Some a \<Longrightarrow> prompt_step kind p (PeReceive t) (receive_answer t p)"
| timeout: "call_phase p t = Some Waiting \<Longrightarrow> prompt_step kind p (PeTimeout t) (give_up_wait t TimedOut p)"

inductive prompt_run :: "string \<Rightarrow> 'a prompt_event list \<Rightarrow> 'a prompts \<Rightarrow> bool" for kind :: string where
  start: "prompt_run kind [] no_prompts"
| step: "prompt_run kind es p \<Longrightarrow> prompt_step kind p e p' \<Longrightarrow> prompt_run kind (es @ [e]) p'"

inductive_cases prompt_stepE: "prompt_step kind p e p'"

section \<open>What the caller gets\<close>

definition default_approval_timeout :: int where "default_approval_timeout = 600"

definition wait_seconds :: "int \<Rightarrow> int" where
  "wait_seconds timeout_seconds = (if 0 < timeout_seconds then timeout_seconds else default_approval_timeout)"

definition check_mark :: string where "check_mark = [CHR 0xE2, CHR 0x9C, CHR 0x85]"
definition cross_mark :: string where "cross_mark = [CHR 0xE2, CHR 0x9D, CHR 0x8C]"
definition clock_mark :: string where "clock_mark = [CHR 0xE2, CHR 0x8F, CHR 0xB1]"
definition skip_mark :: string where "skip_mark = [CHR 0xE2, CHR 0x8F, CHR 0xAD]"
definition em_dash :: string where "em_dash = [CHR 0xE2, CHR 0x80, CHR 0x94]"
definition blank_line :: string where "blank_line = [CHR 0x0A, CHR 0x0A]"

text \<open>What \<^verbatim>\<open>RequestApproval\<close> and \<^verbatim>\<open>RequestChoice\<close> return; \<open>e\<close> is why posting failed or the wait's context ended.\<close>

definition approval_result :: "goerr \<Rightarrow> bool wait_end \<Rightarrow> goerr + bool" where
  "approval_result e w = (case w of Answered b \<Rightarrow> Inr b | TimedOut \<Rightarrow> Inl e | NotPosted \<Rightarrow> Inl (wrapf ''request approval: post prompt: '' e))"

definition approval_shown :: "bool wait_end \<Rightarrow> string option" where
  "approval_shown w =
     (case w of
        Answered True \<Rightarrow> Some (check_mark @ '' Approved '' @ em_dash @ '' proceeding'' @ ellipsis)
      | Answered False \<Rightarrow> Some (cross_mark @ '' Rejected '' @ em_dash @ '' nothing was submitted.'')
      | TimedOut \<Rightarrow> Some (clock_mark @ '' Timed out '' @ em_dash @ '' nothing happened.'')
      | NotPosted \<Rightarrow> None)"

definition choice_result :: "goerr \<Rightarrow> int wait_end \<Rightarrow> goerr + int" where
  "choice_result e w = (case w of Answered i \<Rightarrow> Inr i | TimedOut \<Rightarrow> Inl e | NotPosted \<Rightarrow> Inl (wrapf ''request choice: post prompt: '' e))"

definition choice_shown :: "string \<Rightarrow> string list \<Rightarrow> int wait_end \<Rightarrow> string option" where
  "choice_shown question options w =
     (case w of
        Answered i \<Rightarrow>
          Some (question @ blank_line @
            (if i = choice_superseded then skip_mark @ '' Replaced by your new message''
             else check_mark @ '' '' @ (if 0 \<le> i \<and> i < int (length options) then options ! nat i else [])))
      | TimedOut \<Rightarrow> Some (question @ blank_line @ clock_mark @ '' No answer.'')
      | NotPosted \<Rightarrow> None)"

section \<open>The question an agent may ask\<close>

definition ask_options_action_name :: string where "ask_options_action_name = ''ask_options''"
definition min_choice_options :: nat where "min_choice_options = 2"
definition max_choice_options :: nat where "max_choice_options = 6"
definition max_choice_question :: nat where "max_choice_question = 300"
definition max_choice_label :: nat where "max_choice_label = 40"
definition max_questions_asked :: int where "max_questions_asked = 3"
definition choice_timeout_seconds :: int where "choice_timeout_seconds = 120"

definition options_error :: "string \<Rightarrow> goerr" where
  "options_error s = errorf (''ask_options: '' @ s)"

text \<open>The options in order, each once whatever its case; a long one is refused where it is met.\<close>

fun parse_options :: "string list \<Rightarrow> goval list \<Rightarrow> goerr + string list" where
  "parse_options seen [] = Inr []"
| "parse_options seen (v # vs) =
     (let s = trim_space (case as_str v of None \<Rightarrow> [] | Some x \<Rightarrow> x) in
      if s = [] \<or> to_lower s \<in> set seen then parse_options seen vs
      else if max_choice_label < rune_count s
      then Inl (options_error (''each option must be short (up to '' @ itoa (int max_choice_label) @ '' characters)''))
      else case parse_options (to_lower s # seen) vs of Inl e \<Rightarrow> Inl e | Inr rest \<Rightarrow> Inr (s # rest))"

text \<open>Inputs come from JSON, where a list is \<^verbatim>\<open>[]any\<close>.\<close>

definition parse_choice_input :: "args \<Rightarrow> goerr + string \<times> string list" where
  "parse_choice_input input =
     (let question = trim_space (get_str input ''question'') in
      if question = [] \<or> max_choice_question < rune_count question
      then Inl (options_error (''give a question of up to '' @ itoa (int max_choice_question) @ '' characters''))
      else case parse_options [] (case get_any input ''options'' of GArr vs \<Rightarrow> vs | _ \<Rightarrow> []) of
          Inl e \<Rightarrow> Inl e
        | Inr options \<Rightarrow>
           (if length options < min_choice_options \<or> max_choice_options < length options
            then Inl (options_error (''give '' @ itoa (int min_choice_options) @ '' to '' @ itoa (int max_choice_options) @ '' different options''))
            else Inr (question, options)))"

type_synonym 'w choice_requester = "string \<Rightarrow> string list \<Rightarrow> int \<Rightarrow> 'w \<Rightarrow> (goerr + int) \<times> 'w"

definition no_answer :: "string \<Rightarrow> goval" where
  "no_answer why = GObj [(''answer'', GStr []), (''status'', GStr ''no_answer''), (''note'', GStr why)]"

text \<open>\<open>in_conversation\<close>: whether the turn belongs to one.\<close>

definition ask_options :: "bool \<Rightarrow> 'w choice_requester \<Rightarrow> 'w invoke" where
  "ask_options in_conversation requester input w =
     (case parse_choice_input input of
        Inl e \<Rightarrow> ((GNil, Some e), w)
      | Inr (question, options) \<Rightarrow>
         (if \<not> in_conversation then ((no_answer ''There is no conversation to ask in. Ask in your own words.'', None), w)
          else case requester question options choice_timeout_seconds w of
              (Inl _, w') \<Rightarrow> ((no_answer ''The person did not answer. Carry on without it, or say you need it.'', None), w')
            | (Inr i, w') \<Rightarrow>
               (if i = choice_superseded then ((GNil, Some \<lparr>err_text = ''the person wrote a new message instead'', err_wraps = [ErrSuperseded]\<rparr>), w')
                else if i < 0 \<or> int (length options) \<le> i
                then ((no_answer ''The person did not pick one of them. Ask in your own words.'', None), w')
                else ((GObj [(''answer'', GStr (options ! nat i)), (''position'', GInt (i + 1)), (''status'', GStr ''answered'')], None), w'))))"

text \<open>The action itself: it changes nothing and may be called a few times in a turn.\<close>

definition ask_options_action :: "bool \<Rightarrow> 'w choice_requester \<Rightarrow> 'w bound_action" where
  "ask_options_action in_conversation requester =
     \<lparr>ba_spec = \<lparr>as_name = ask_options_action_name,
        as_description = ''Ask the person to pick one of a few options, shown as buttons, and wait for their tap. '' @
          ''Use it when you need their decision and there are 2 to 6 short, distinct choices (for example which of several matches they meant, or a size to go with). '' @
          ''Do not use it for something they already told you, for a name or number they can simply type, or to confirm an action that already asks for approval. '' @
          ''Ask one question at a time and never the same question twice: once they have answered, use the answer. The result is the option they chose; if they did not answer, say so and ask in your own words.'',
        as_instructions = [],
        as_input = Schema TObject []
          [(''question'', Schema TString (''The question, in the person'' @ [CHR 0x27] @ ''s language, one short sentence.'') [] None [] []),
           (''options'', Schema TArray ''2 to 6 short, distinct answers, each a few words.'' [] (Some (Schema TString [] [] None [] [])) [] [])]
          None [''question'', ''options''] [],
        as_output = Schema (TOther []) [] [] None [] [], as_max_calls = max_questions_asked, as_hidden = False, as_read_only = False, as_changes = False\<rparr>,
      ba_invoke = ask_options in_conversation requester, ba_needs = [], ba_app = [], ba_app_name = [], ba_with = [],
      ba_declared = False, ba_limited = False\<rparr>"

end
