(* ===== verification/Prompt_Claims.thy ===== *)
theory Prompt_Claims
  imports Prompts
begin

text \<open>
  Each question as a cell that is settled at most once: the abstract machine the requesters implement,
  and what follows for taps, timeouts and new messages in every order they may come in.
\<close>

section \<open>A question as a cell\<close>

datatype 'a cell = Free | Open | Settled 'a | Told 'a | Missed 'a | Closed

inductive cell_step :: "string \<Rightarrow> 'a prompt_event \<Rightarrow> 'a cell \<Rightarrow> 'a cell \<Rightarrow> bool" where
  asked: "cell_step t (PeAsk key) Free Open"
| settled: "cell_step t (PeTap t a True) Open (Settled a)"
| told: "cell_step t (PeReceive t) (Settled a) (Told a)"
| closed: "e \<in> {PeTimeout t, PeNotPosted t} \<Longrightarrow> cell_step t e Open Closed"
| missed: "e \<in> {PeTimeout t, PeNotPosted t} \<Longrightarrow> cell_step t e (Settled a) (Missed a)"

definition on_its_way :: "'a prompts \<Rightarrow> string \<Rightarrow> 'a option" where
  "on_its_way p t = (case gm_get (pr_sending p) t of Some a \<Rightarrow> Some a | None \<Rightarrow> gm_get (pr_sent p) t)"

definition cell_of :: "'a prompts \<Rightarrow> string \<Rightarrow> 'a cell" where
  "cell_of p t =
     (case call_phase p t of
        None \<Rightarrow> Free
      | Some (Ended (Answered a)) \<Rightarrow> Told a
      | Some (Ended _) \<Rightarrow> (case on_its_way p t of Some a \<Rightarrow> Missed a | None \<Rightarrow> Closed)
      | Some _ \<Rightarrow> (case on_its_way p t of Some a \<Rightarrow> Settled a | None \<Rightarrow> Open))"

section \<open>What holds of every state\<close>

definition prompts_ok :: "string \<Rightarrow> 'a prompts \<Rightarrow> bool" where
  "prompts_ok kind p \<longleftrightarrow>
     (\<forall>t. gm_get (pr_calls p) t \<noteq> None \<longrightarrow> (\<exists>n. n \<le> pr_seq p \<and> t = token_of kind n)) \<and>
     distinct (pr_waiters p) \<and> wf_gomap (pr_by_conv p) \<and>
     (\<forall>t. t \<in> set (pr_waiters p) \<longleftrightarrow> call_phase p t \<in> {Some Posting, Some Waiting} \<and> on_its_way p t = None) \<and>
     (\<forall>t. on_its_way p t \<noteq> None \<longrightarrow> call_phase p t \<noteq> None \<and> (\<forall>a. call_phase p t \<noteq> Some (Ended (Answered a)))) \<and>
     (\<forall>t. gm_get (pr_sending p) t = None \<or> gm_get (pr_sent p) t = None) \<and>
     (\<forall>k t. gm_get (pr_by_conv p) k = Some t \<longrightarrow> t \<in> set (pr_waiters p) \<and> (\<exists>c. gm_get (pr_calls p) t = Some c \<and> pg_key c = Some k))"

lemma token_inj [simp]: "token_of kind m = token_of kind n \<longleftrightarrow> m = n"
  using itoa_inj [of "int m" "int n"] by (auto simp: token_of_def)

lemma set_phase_parts [simp]:
  "pr_seq (set_phase t ph p) = pr_seq p" "pr_waiters (set_phase t ph p) = pr_waiters p" "pr_by_conv (set_phase t ph p) = pr_by_conv p"
  "pr_sending (set_phase t ph p) = pr_sending p" "pr_sent (set_phase t ph p) = pr_sent p"
  "on_its_way (set_phase t ph p) t' = on_its_way p t'"
  "gm_get (pr_calls (set_phase t ph p)) t' = (if t' = t then map_option (\<lambda>c. c\<lparr>pg_phase := ph\<rparr>) (gm_get (pr_calls p) t) else gm_get (pr_calls p) t')"
  by (simp_all add: set_phase_def on_its_way_def split: option.split)

lemma call_phase_set [simp]:
  "call_phase (set_phase t ph p) t' = (if t' = t then (if call_phase p t = None then None else Some ph) else call_phase p t')"
  by (auto simp: call_phase_def)

lemma forget_parts [simp]:
  "pr_seq (forget_wait t key p) = pr_seq p" "pr_waiters (forget_wait t key p) = remove1 t (pr_waiters p)" "pr_calls (forget_wait t key p) = pr_calls p"
  "pr_sending (forget_wait t key p) = pr_sending p" "pr_sent (forget_wait t key p) = pr_sent p"
  "call_phase (forget_wait t key p) t' = call_phase p t'" "on_its_way (forget_wait t key p) t' = on_its_way p t'"
  "gm_get (pr_by_conv (forget_wait t key p)) k = (if key = Some k \<and> gm_get (pr_by_conv p) k = Some t then None else gm_get (pr_by_conv p) k)"
  "wf_gomap (pr_by_conv p) \<Longrightarrow> wf_gomap (pr_by_conv (forget_wait t key p))"
  by (auto simp: forget_wait_def call_phase_def on_its_way_def split: option.split)

lemma call_phase_get: "call_phase p t = Some ph \<Longrightarrow> \<exists>c. gm_get (pr_calls p) t = Some c \<and> pg_phase c = ph"
  by (auto simp: call_phase_def)

lemma give_up_parts:
  assumes "call_phase p t = Some ph"
  obtains c where "gm_get (pr_calls p) t = Some c" "give_up_wait t why p = set_phase t (Ended why) (forget_wait t (pg_key c) p)"
  using call_phase_get [OF assms] by (auto simp: give_up_wait_def)

lemma no_prompts_ok: "prompts_ok kind no_prompts"
  by (simp add: prompts_ok_def no_prompts_def call_phase_def on_its_way_def)

lemma register_ok:
  assumes "prompts_ok kind p"
  shows "prompts_ok kind (register kind key p)"
proof -
  let ?t = "token_of kind (Suc (pr_seq p))"
  have fresh: "gm_get (pr_calls p) ?t = None" using assms unfolding prompts_ok_def by (metis Suc_n_not_le_n token_inj)
  then have new: "call_phase p ?t = None" by (simp add: call_phase_def)
  then have "on_its_way p ?t = None" "?t \<notin> set (pr_waiters p)" using assms unfolding prompts_ok_def by force+
  moreover have "call_phase (register kind key p) t = (if t = ?t then Some Posting else call_phase p t)"
    "on_its_way (register kind key p) t = on_its_way p t" for t
    by (simp_all add: register_def Let_def call_phase_def on_its_way_def cong: option.case_cong)
  moreover have "gm_get (pr_by_conv (register kind key p)) k = (if key = Some k then Some ?t else gm_get (pr_by_conv p) k)" for k
    by (auto simp: register_def Let_def split: option.split)
  ultimately show ?thesis using assms fresh unfolding prompts_ok_def
    by (auto simp: register_def Let_def le_Suc_eq split: option.split)
qed

lemma posted_ok:
  assumes "prompts_ok kind p" "call_phase p t = Some Posting"
  shows "prompts_ok kind (set_phase t Waiting p)"
proof -
  obtain c where c: "gm_get (pr_calls p) t = Some c" using call_phase_get [OF assms(2)] by blast
  have "pg_key c = Some k" if "gm_get (pr_by_conv p) k = Some t" for k using assms(1) c that unfolding prompts_ok_def by fastforce
  then show ?thesis using assms c unfolding prompts_ok_def by (auto simp: call_phase_def)
qed

lemma give_up_ok:
  assumes ok: "prompts_ok kind p" and ph: "call_phase p t \<in> {Some Posting, Some Waiting}" and why: "\<forall>a. why \<noteq> Answered a"
  shows "prompts_ok kind (give_up_wait t why p)"
proof -
  obtain ph' where "call_phase p t = Some ph'" using ph by auto
  then obtain c where c: "gm_get (pr_calls p) t = Some c" "give_up_wait t why p = set_phase t (Ended why) (forget_wait t (pg_key c) p)"
    by (rule give_up_parts)
  have key: "pg_key c = Some k" if "gm_get (pr_by_conv p) k = Some t" for k using ok c(1) that unfolding prompts_ok_def by fastforce
  show ?thesis using ok ph why c(1) key unfolding prompts_ok_def c(2) by (auto simp: call_phase_def split: if_splits)
qed

lemma take_parts:
  assumes "take_waiter t a p = (found, p')"
  shows "found \<longleftrightarrow> t \<in> set (pr_waiters p)" "\<not> found \<Longrightarrow> p' = p" "pr_seq p' = pr_seq p" "pr_calls p' = pr_calls p" "pr_sent p' = pr_sent p"
    "call_phase p' u = call_phase p u" "found \<Longrightarrow> pr_sending p' = gm_set t a (pr_sending p)" "found \<Longrightarrow> pr_waiters p' = remove1 t (pr_waiters p)"
    "found \<Longrightarrow> pr_by_conv p' = filter (\<lambda>(k, t'). t' \<noteq> t) (pr_by_conv p)"
    "found \<Longrightarrow> on_its_way p' u = (if u = t then Some a else on_its_way p u)"
  using assms by (auto simp: take_waiter_def call_phase_def on_its_way_def split: if_splits cong: option.case_cong)

lemma take_ok:
  assumes ok: "prompts_ok kind p" and tk: "take_waiter t a p = (found, p')"
  shows "prompts_ok kind p'"
proof (cases found)
  case True
  note parts = take_parts [OF tk]
  have "gm_get (filter (\<lambda>(k, t'). t' \<noteq> t) (pr_by_conv p)) k = (case gm_get (pr_by_conv p) k of Some v \<Rightarrow> if v = t then None else Some v | None \<Rightarrow> None)" for k
    using gm_get_filter [of "pr_by_conv p" "\<lambda>t'. t' = t" k] ok unfolding prompts_ok_def by simp
  moreover have "gm_get (pr_sent p) t = None" using ok parts(1) True unfolding prompts_ok_def on_its_way_def by (auto split: option.splits)
  ultimately show ?thesis using ok parts True unfolding prompts_ok_def
    by (auto simp: call_phase_def split: option.splits if_splits)
qed (use take_parts(2) [OF tk] ok in simp)

lemma send_way: "on_its_way (send_answer t p) u = on_its_way p u" if "prompts_ok kind p" "gm_get (pr_sending p) t = Some a"
  using that unfolding prompts_ok_def
  by (auto simp: send_answer_def on_its_way_def split: option.splits)

lemma send_ok:
  assumes ok: "prompts_ok kind p" and s: "gm_get (pr_sending p) t = Some a"
  shows "prompts_ok kind (send_answer t p)"
proof -
  have "pr_seq (send_answer t p) = pr_seq p" "pr_waiters (send_answer t p) = pr_waiters p" "pr_by_conv (send_answer t p) = pr_by_conv p"
    "pr_calls (send_answer t p) = pr_calls p" "call_phase (send_answer t p) u = call_phase p u"
    "gm_get (pr_sending (send_answer t p)) u = (if u = t then None else gm_get (pr_sending p) u)"
    "gm_get (pr_sent (send_answer t p)) u = (if u = t then Some a else gm_get (pr_sent p) u)" for u
    by (simp_all add: send_answer_def s call_phase_def)
  then show ?thesis using ok send_way [OF ok s] unfolding prompts_ok_def by auto
qed

lemma receive_way:
  assumes "prompts_ok kind p" "gm_get (pr_sent p) t = Some a"
  shows "on_its_way (receive_answer t p) u = (if u = t then None else on_its_way p u)"
  using assms unfolding prompts_ok_def
  by (auto simp: receive_answer_def on_its_way_def split: option.splits) (metis option.distinct(1))+

lemma receive_ok:
  assumes ok: "prompts_ok kind p" and s: "gm_get (pr_sent p) t = Some a" "call_phase p t = Some Waiting"
  shows "prompts_ok kind (receive_answer t p)"
proof -
  let ?p = "receive_answer t p"
  have parts: "pr_seq ?p = pr_seq p" "pr_waiters ?p = pr_waiters p" "pr_by_conv ?p = pr_by_conv p" "pr_sending ?p = pr_sending p"
    "gm_get (pr_sent ?p) u = (if u = t then None else gm_get (pr_sent p) u)"
    "gm_get (pr_calls ?p) u = (if u = t then map_option (\<lambda>c. c\<lparr>pg_phase := Ended (Answered a)\<rparr>) (gm_get (pr_calls p) t) else gm_get (pr_calls p) u)" for u
    by (simp_all add: receive_answer_def s(1))
  have "t \<notin> set (pr_waiters p)" using ok s(1) unfolding prompts_ok_def by (auto simp: on_its_way_def split: option.splits)
  then show ?thesis using ok s(2) receive_way [OF ok s(1)] parts unfolding prompts_ok_def
    by (auto simp: call_phase_def split: if_splits)
qed

lemma prompt_step_ok: "prompt_step kind p e p' \<Longrightarrow> prompts_ok kind p \<Longrightarrow> prompts_ok kind p'"
  by (induction rule: prompt_step.induct)
    (auto intro: register_ok posted_ok give_up_ok take_ok send_ok receive_ok)

lemma prompt_run_ok: "prompt_run kind es p \<Longrightarrow> prompts_ok kind p"
  by (induction rule: prompt_run.induct) (auto intro: no_prompts_ok prompt_step_ok)

section \<open>The requester implements the cells\<close>

lemma cell_cong: "call_phase p' t = call_phase p t \<Longrightarrow> on_its_way p' t = on_its_way p t \<Longrightarrow> cell_of p' t = cell_of p t"
  by (simp add: cell_of_def cong: option.case_cong wait_phase.case_cong wait_end.case_cong)

lemma waiter_open: "prompts_ok kind p \<Longrightarrow> t \<in> set (pr_waiters p) \<Longrightarrow> call_phase p t \<in> {Some Posting, Some Waiting} \<and> on_its_way p t = None"
  unfolding prompts_ok_def by blast

lemma register_cell:
  assumes ok: "prompts_ok kind p"
  shows "cell_of (register kind key p) t = cell_of p t \<or> cell_step t (PeAsk key) (cell_of p t) (cell_of (register kind key p) t)"
proof (cases "t = token_of kind (Suc (pr_seq p))")
  case True
  have "gm_get (pr_calls p) t = None" using ok unfolding prompts_ok_def True by (metis Suc_n_not_le_n token_inj)
  then have f: "call_phase p t = None" by (simp add: call_phase_def)
  then have "on_its_way p t = None" using ok unfolding prompts_ok_def by force
  then have "cell_of p t = Free" "cell_of (register kind key p) t = Open"
    using f by (simp_all add: cell_of_def True register_def Let_def call_phase_def on_its_way_def cong: option.case_cong)
  then show ?thesis by (simp add: cell_step.asked)
next
  case False
  have "cell_of (register kind key p) t = cell_of p t"
    using False by (intro cell_cong) (simp_all add: register_def Let_def call_phase_def on_its_way_def cong: option.case_cong)
  then show ?thesis ..
qed

lemma give_up_cell:
  fixes p :: "'a prompts"
  assumes ph: "call_phase p u \<in> {Some Posting, Some Waiting}" and why: "\<forall>a. why \<noteq> Answered a" and e: "e \<in> {PeTimeout u, PeNotPosted u}"
  shows "cell_of (give_up_wait u why p) t = cell_of p t \<or> cell_step t e (cell_of p t) (cell_of (give_up_wait u why p) t)"
proof -
  obtain ph' where "call_phase p u = Some ph'" using ph by auto
  then obtain c :: "'a pending" where c: "give_up_wait u why p = set_phase u (Ended why) (forget_wait u (pg_key c) p)" by (rule give_up_parts [where why = why])
  have ended: "call_phase (give_up_wait u why p) u = Some (Ended why)" "on_its_way (give_up_wait u why p) u = on_its_way p u"
    using ph by (auto simp: c)
  show ?thesis
  proof (cases "t = u")
    case True
    have e': "e \<in> {PeTimeout t, PeNotPosted t}" using e True by simp
    have "cell_of (give_up_wait u why p) t = (case on_its_way p t of Some a \<Rightarrow> Missed a | None \<Rightarrow> Closed)"
      unfolding cell_of_def True ended using why by (simp split: wait_end.split)
    moreover have "cell_of p t = (case on_its_way p t of Some a \<Rightarrow> Settled a | None \<Rightarrow> Open)"
      using ph True by (auto simp: cell_of_def)
    ultimately show ?thesis using cell_step.closed [OF e'] cell_step.missed [OF e'] by (simp split: option.split)
  next
    case False
    then show ?thesis by (intro disjI1 cell_cong) (simp_all add: c)
  qed
qed

lemma take_cell:
  assumes ok: "prompts_ok kind p" and tk: "take_waiter u a p = (found, p')"
  shows "cell_of p' t = cell_of p t \<or> cell_step t (PeTap u a found) (cell_of p t) (cell_of p' t)"
proof (cases "found \<and> t = u")
  case True
  then have "t \<in> set (pr_waiters p)" using take_parts(1) [OF tk] by simp
  from waiter_open [OF ok this] have "cell_of p t = Open" "cell_of p' t = Settled a" using True take_parts(6,10) [OF tk] by (auto simp: cell_of_def)
  then show ?thesis using True by (simp add: cell_step.settled)
next
  case False
  then have "cell_of p' t = cell_of p t" using take_parts [OF tk] by (cases found) (auto intro: cell_cong)
  then show ?thesis ..
qed

lemma receive_cell:
  assumes ok: "prompts_ok kind p" and w: "call_phase p u = Some Waiting" "gm_get (pr_sent p) u = Some a"
  shows "cell_of (receive_answer u p) t = cell_of p t \<or> cell_step t (PeReceive u) (cell_of p t) (cell_of (receive_answer u p) t)"
proof -
  have ph: "call_phase (receive_answer u p) t = (if t = u then Some (Ended (Answered a)) else call_phase p t)"
    using w by (auto simp: receive_answer_def call_phase_def)
  show ?thesis
  proof (cases "t = u")
    case True
    have "on_its_way p t = Some a" using ok w(2) True unfolding prompts_ok_def on_its_way_def by (auto split: option.splits) (metis option.distinct(1))
    then have "cell_of p t = Settled a" "cell_of (receive_answer u p) t = Told a" using w(1) True ph by (auto simp: cell_of_def)
    then show ?thesis using True by (simp add: cell_step.told)
  next
    case False
    then have "cell_of (receive_answer u p) t = cell_of p t" using ph receive_way [OF ok w(2)] by (intro cell_cong) simp_all
    then show ?thesis ..
  qed
qed

lemma step_refines:
  assumes "prompt_step kind p e p'" "prompts_ok kind p"
  shows "cell_of p' t = cell_of p t \<or> cell_step t e (cell_of p t) (cell_of p' t)"
  using assms
proof (cases rule: prompt_step.cases)
  case (ask key)
  then show ?thesis using register_cell [OF assms(2)] by simp
next
  case (posted u)
  have "cell_of p' t = cell_of p t"
  proof (cases "t = u")
    case True
    then show ?thesis using posted by (simp add: cell_of_def cong: option.case_cong)
  next
    case False
    then show ?thesis using posted by (intro cell_cong) simp_all
  qed
  then show ?thesis ..
next
  case (not_posted u)
  then show ?thesis using give_up_cell [of p u NotPosted e t] by simp
next
  case (tap u a found)
  then show ?thesis using take_cell [OF assms(2)] by simp
next
  case (send u a)
  then have "call_phase p' t = call_phase p t" by (simp add: send_answer_def call_phase_def)
  then show ?thesis using send_way [OF assms(2)] send by (auto intro: cell_cong)
next
  case (receive u a)
  then show ?thesis using receive_cell [OF assms(2)] by simp
next
  case (timeout u)
  then show ?thesis using give_up_cell [of p u TimedOut e t] by simp
qed

section \<open>Taps\<close>

text \<open>The taps that were accepted for one question.\<close>

definition taps_taken :: "string \<Rightarrow> 'a prompt_event list \<Rightarrow> 'a list" where
  "taps_taken t es = concat (map (\<lambda>e. case e of PeTap t' a found \<Rightarrow> if t' = t \<and> found then [a] else [] | _ \<Rightarrow> []) es)"

fun taken_in :: "'a cell \<Rightarrow> 'a list" where
  "taken_in (Settled a) = [a]"
| "taken_in (Told a) = [a]"
| "taken_in (Missed a) = [a]"
| "taken_in _ = []"

lemma cell_step_taken: "cell_step t e c c' \<Longrightarrow> taken_in c' = taken_in c @ taps_taken t [e]"
  by (induction rule: cell_step.induct) (auto simp: taps_taken_def)

lemma accepted_here:
  assumes "prompt_step kind p (PeTap t a True) p'" "prompts_ok kind p"
  shows "cell_of p' t \<noteq> cell_of p t"
proof -
  have tk: "take_waiter t a p = (True, p')" using assms(1) by (auto elim: prompt_stepE)
  then have "t \<in> set (pr_waiters p)" using take_parts(1) [OF tk] by simp
  from waiter_open [OF assms(2) this] show ?thesis using take_parts(6,10) [OF tk] by (auto simp: cell_of_def)
qed

lemma taps_of_cell: "prompt_run kind es p \<Longrightarrow> taps_taken t es = taken_in (cell_of p t)"
proof (induction rule: prompt_run.induct)
  case start
  then show ?case by (simp add: taps_taken_def cell_of_def call_phase_def no_prompts_def)
next
  case (step es p e p')
  note ok = prompt_run_ok [OF step.hyps(1)]
  have app: "taps_taken t (es @ [e]) = taps_taken t es @ taps_taken t [e]" by (simp add: taps_taken_def)
  show ?case
  proof (cases "cell_of p' t = cell_of p t")
    case True
    have "taps_taken t [e] = []" using accepted_here [OF _ ok] step.hyps(2) True
      by (auto simp: taps_taken_def split: prompt_event.split)
    then show ?thesis using step.IH True app by simp
  next
    case False
    then show ?thesis using step_refines [OF step.hyps(2) ok, of t] step.IH app cell_step_taken by fastforce
  qed
qed

section \<open>The properties\<close>

text \<open>A run for the witnesses: one approval, tapped once, and once more after that.\<close>

definition first_token :: string where "first_token = token_of ''approval'' 1"

lemmas prompt_eval = register_def no_prompts_def first_token_def call_phase_def set_phase_def take_waiter_def send_answer_def receive_answer_def
  give_up_wait_def forget_wait_def gm_set_def gm_del_def gm_get_def AList.update.simps AList.delete_eq Let_def

lemma asked_run: "prompt_run ''approval'' [PeAsk None] (register ''approval'' None no_prompts)"
  using prompt_run.step [OF prompt_run.start prompt_step.ask [of "''approval''" no_prompts None]] by simp

definition tapped :: "bool prompts" where
  "tapped = snd (take_waiter first_token True (set_phase first_token Waiting (register ''approval'' None no_prompts)))"

lemma tapped_run: "prompt_run ''approval'' [PeAsk None, PePosted first_token, PeTap first_token True True] tapped"
proof -
  let ?r = "register ''approval'' None no_prompts :: bool prompts"
  have "call_phase ?r first_token = Some Posting" by (simp add: prompt_eval)
  then have 1: "prompt_run ''approval'' [PeAsk None, PePosted first_token] (set_phase first_token Waiting ?r)"
    using prompt_run.step [OF asked_run prompt_step.posted] by simp
  have "first_token \<in> set (pr_waiters (set_phase first_token Waiting ?r))" by (simp add: register_def first_token_def no_prompts_def Let_def)
  then have "take_waiter first_token True (set_phase first_token Waiting ?r) = (True, tapped)" by (simp add: tapped_def take_waiter_def)
  then show ?thesis using prompt_run.step [OF 1 prompt_step.tap] by simp
qed

lemma tapped_state:
  "call_phase tapped first_token = Some Waiting" "gm_get (pr_sending tapped) first_token = Some True" "first_token \<notin> set (pr_waiters tapped)"
  by (simp_all add: tapped_def take_waiter_def register_def no_prompts_def first_token_def Let_def call_phase_def)

text \<open>
  (C10) Both requesters implement one cell a question: it is opened once, settled by at most one tap, and then
  either told to the call that waits or missed by one that gave up; every step of any goroutine, in any
  order, leaves a question as it is or takes it one step through its life.
\<close>
theorem questions_are_cells:
  assumes "prompt_run kind es p" "prompt_step kind p e p'"
  shows "cell_of p' t = cell_of p t \<or> cell_step t e (cell_of p t) (cell_of p' t)"
  by (rule step_refines [OF assms(2) prompt_run_ok [OF assms(1)]])

theorem questions_are_cells_witness:
  "cell_step first_token (PeTimeout first_token) (cell_of tapped first_token) (cell_of (give_up_wait first_token TimedOut tapped) first_token)"
proof -
  have "prompt_step ''approval'' tapped (PeTimeout first_token) (give_up_wait first_token TimedOut tapped)"
    by (rule prompt_step.timeout) (rule tapped_state)
  from questions_are_cells [OF tapped_run this, of first_token] show ?thesis
    using tapped_state by (auto simp: cell_of_def on_its_way_def call_phase_def give_up_wait_def forget_wait_def split: option.splits)
qed

text \<open>
  (C11) An approval is a tap on that very prompt: when a call of \<^verbatim>\<open>RequestApproval\<close> says whether it was approved,
  exactly one tap was accepted for its token and it said so, whatever other prompts were open, whatever
  taps came late or twice, in every order of the goroutines.
\<close>
theorem approval_is_its_tap:
  assumes "prompt_run kind es p" "call_phase p t = Some (Ended w)" "approval_result e w = Inr b"
  shows "taps_taken t es = [b]"
proof -
  have "w = Answered b" using assms(3) by (simp add: approval_result_def split: wait_end.splits)
  then show ?thesis using taps_of_cell [OF assms(1), of t] assms(2) by (simp add: cell_of_def)
qed

definition told :: "bool prompts" where
  "told = receive_answer first_token (send_answer first_token tapped)"

theorem approval_is_its_tap_witness:
  "taps_taken first_token [PeAsk None, PePosted first_token, PeTap first_token True True, PeSend first_token, PeReceive first_token] = [True]"
proof -
  have ph: "call_phase (send_answer first_token tapped) first_token = Some Waiting"
    and sent: "gm_get (pr_sent (send_answer first_token tapped)) first_token = Some True"
    using tapped_state by (simp_all add: send_answer_def call_phase_def)
  note 1 = prompt_run.step [OF tapped_run prompt_step.send [OF tapped_state(2)]]
  have "prompt_run ''approval'' [PeAsk None, PePosted first_token, PeTap first_token True True, PeSend first_token, PeReceive first_token] told"
    using prompt_run.step [OF 1 prompt_step.receive [OF ph sent]] by (simp add: told_def)
  moreover have "call_phase told first_token = Some (Ended (Answered True))" using ph sent by (auto simp: told_def receive_answer_def call_phase_def)
  ultimately show ?thesis by (rule approval_is_its_tap [where e = "errorf []"]) (simp add: approval_result_def)
qed

text \<open>
  A tap can be accepted and still lost: \<^verbatim>\<open>Resolve\<close> says the approval was taken, and the call that
  waited for it says it timed out, when its time runs out between the tap and the moment it is received.
  The tap was accepted exactly once, and the person's messenger was told so.
\<close>
theorem accepted_tap_lost:
  "\<exists>es p. prompt_run ''approval'' es p \<and> PeTap first_token True True \<in> set es \<and> taps_taken first_token es = [True] \<and>
     call_phase p first_token = Some (Ended TimedOut) \<and> approval_shown TimedOut \<noteq> approval_shown (Answered True)"
proof -
  have "prompt_step ''approval'' tapped (PeTimeout first_token) (give_up_wait first_token TimedOut tapped)"
    by (rule prompt_step.timeout) (rule tapped_state)
  note r = prompt_run.step [OF tapped_run this]
  have "call_phase (give_up_wait first_token TimedOut tapped) first_token = Some (Ended TimedOut)"
    using tapped_state(1) by (auto simp: give_up_wait_def call_phase_def split: option.splits)
  moreover have "approval_shown TimedOut \<noteq> approval_shown (Answered True)"
    by (simp add: approval_shown_def clock_mark_def check_mark_def)
  ultimately show ?thesis using r by (intro exI conjI) (auto simp: taps_taken_def)
qed

text \<open>
  A new message cuts short the question its conversation waits on, and nothing else: what
  \<^verbatim>\<open>Supersede\<close> finds is an open question of that very conversation, resolving it succeeds, every other
  question stays as it was, and nothing waits in the conversation afterwards.
\<close>
theorem new_message_cuts_its_question:
  assumes "prompt_run kind es p" "waiting_in key p = Some t" "take_waiter t choice_superseded p = (found, p')"
  shows "found \<and> (\<exists>c. gm_get (pr_calls p) t = Some c \<and> pg_key c = Some key) \<and> cell_of p t = Open \<and> cell_of p' t = Settled choice_superseded \<and>
    waiting_in key p' = None \<and> (\<forall>u. u \<noteq> t \<longrightarrow> cell_of p' u = cell_of p u)"
proof -
  note ok = prompt_run_ok [OF assms(1)]
  have t: "t \<in> set (pr_waiters p)" "\<exists>c. gm_get (pr_calls p) t = Some c \<and> pg_key c = Some key"
    using ok assms(2) unfolding prompts_ok_def waiting_in_def by blast+
  then have f: found using take_parts(1) [OF assms(3)] by simp
  have o: "call_phase p t \<in> {Some Posting, Some Waiting}" "on_its_way p t = None" using waiter_open [OF ok t(1)] by auto
  have "cell_of p t = Open" "cell_of p' t = Settled choice_superseded" using o f take_parts(6,10) [OF assms(3)] by (auto simp: cell_of_def)
  moreover have "cell_of p' u = cell_of p u" if "u \<noteq> t" for u using that f take_parts(6,10) [OF assms(3)] by (intro cell_cong) auto
  moreover have "waiting_in key p' = None"
    using take_parts(9) [OF assms(3) f] assms(2) gm_get_filter [of "pr_by_conv p" "\<lambda>t'. t' = t" key] ok
    by (simp add: waiting_in_def prompts_ok_def)
  ultimately show ?thesis using f t(2) by blast
qed

definition asked_choice :: "int prompts" where
  "asked_choice = register ''choice'' (Some ''b|c||p'') no_prompts"

theorem new_message_cuts_its_question_witness:
  "fst (take_waiter (token_of ''choice'' 1) choice_superseded asked_choice) \<and>
     waiting_in ''b|c||p'' (snd (take_waiter (token_of ''choice'' 1) choice_superseded asked_choice)) = None"
proof -
  have r: "prompt_run ''choice'' [PeAsk (Some ''b|c||p'')] asked_choice"
    using prompt_run.step [OF prompt_run.start prompt_step.ask [of "''choice''" no_prompts "Some ''b|c||p''"]] by (simp add: asked_choice_def)
  have "waiting_in ''b|c||p'' asked_choice = Some (token_of ''choice'' 1)"
    by (simp add: waiting_in_def asked_choice_def register_def no_prompts_def Let_def)
  from new_message_cuts_its_question [OF r this prod.collapse [symmetric]] show ?thesis by blast
qed

section \<open>What may be asked\<close>

lemma parse_options_ok:
  "parse_options seen vs = Inr opts \<Longrightarrow> distinct (map to_lower opts) \<and> set (map to_lower opts) \<inter> set seen = {} \<and>
     (\<forall>x \<in> set opts. x \<noteq> [] \<and> trim_space x = x \<and> rune_count x \<le> max_choice_label)"
proof (induction vs arbitrary: seen opts)
  case (Cons v vs)
  define x where "x = trim_space (case as_str v of None \<Rightarrow> [] | Some x \<Rightarrow> x)"
  have e: "parse_options seen (v # vs) = (if x = [] \<or> to_lower x \<in> set seen then parse_options seen vs
      else if max_choice_label < rune_count x
      then Inl (options_error (''each option must be short (up to '' @ itoa (int max_choice_label) @ '' characters)''))
      else case parse_options (to_lower x # seen) vs of Inl e \<Rightarrow> Inl e | Inr rest \<Rightarrow> Inr (x # rest))"
    by (simp only: parse_options.simps Let_def x_def)
  show ?case
  proof (cases "x = [] \<or> to_lower x \<in> set seen")
    case True
    then have "parse_options seen vs = Inr opts" using Cons.prems unfolding e by (simp only: if_True)
    then show ?thesis by (rule Cons.IH)
  next
    case False
    then obtain rest where r: "rune_count x \<le> max_choice_label" "parse_options (to_lower x # seen) vs = Inr rest" "opts = x # rest"
      using Cons.prems unfolding e by (cases "parse_options (to_lower x # seen) vs") (auto split: if_split_asm)
    have "trim_space x = x" unfolding x_def by (rule trim_space_idem)
    then show ?thesis using Cons.IH [OF r(2)] False r(1) unfolding r(3) by auto
  qed
qed simp

lemma parse_choice_ok:
  assumes "parse_choice_input input = Inr (question, options)"
  shows "question \<noteq> []" "rune_count question \<le> 300" "length options \<in> {2..6}" "\<exists>vs. parse_options [] vs = Inr options"
proof -
  define q where "q = trim_space (get_str input ''question'')"
  define vs where "vs = (case get_any input ''options'' of GArr vs \<Rightarrow> vs | _ \<Rightarrow> [])"
  have e: "parse_choice_input input = (if q = [] \<or> max_choice_question < rune_count q
      then Inl (options_error (''give a question of up to '' @ itoa (int max_choice_question) @ '' characters''))
      else case parse_options [] vs of Inl e \<Rightarrow> Inl e
        | Inr opts \<Rightarrow> (if length opts < min_choice_options \<or> max_choice_options < length opts
            then Inl (options_error (''give '' @ itoa (int min_choice_options) @ '' to '' @ itoa (int max_choice_options) @ '' different options''))
            else Inr (q, opts)))"
    unfolding parse_choice_input_def Let_def q_def vs_def by (rule refl)
  obtain opts where o: "\<not> (q = [] \<or> max_choice_question < rune_count q)" "parse_options [] vs = Inr opts"
    using assms unfolding e by (cases "parse_options [] vs") (simp_all split: if_split_asm)
  then have "\<not> (length opts < min_choice_options \<or> max_choice_options < length opts)" "question = q" "options = opts"
    using assms unfolding e by (simp_all split: if_split_asm)
  then show "question \<noteq> []" "rune_count question \<le> 300" "length options \<in> {2..6}" "\<exists>vs. parse_options [] vs = Inr options"
    using o by (auto simp: max_choice_question_def min_choice_options_def max_choice_options_def)
qed

text \<open>
  A question reaches a person only well formed: not empty and at most 300 characters, with two to six
  options that differ beyond their case, each of one to 40 characters; and the answer the agent is given
  is one of those options, at the position the person tapped.
\<close>
theorem asked_well_formed:
  assumes "ask_options True requester input w = ((GObj m, None), w')" "get_any m ''status'' = GStr ''answered''"
  shows "\<exists>question options i. parse_choice_input input = Inr (question, options) \<and> requester question options choice_timeout_seconds w = (Inr i, w') \<and>
    question \<noteq> [] \<and> rune_count question \<le> 300 \<and> length options \<in> {2..6} \<and> distinct (map to_lower options) \<and>
    (\<forall>x \<in> set options. x \<noteq> [] \<and> rune_count x \<le> 40) \<and> 0 \<le> i \<and> i < int (length options) \<and> get_any m ''answer'' = GStr (options ! nat i)"
proof -
  obtain question options where p: "parse_choice_input input = Inr (question, options)"
    using assms(1) by (cases "parse_choice_input input") (auto simp: ask_options_def)
  note q = parse_choice_ok [OF p]
  from q(4) have "distinct (map to_lower options) \<and> (\<forall>x \<in> set options. x \<noteq> [] \<and> rune_count x \<le> 40)"
    using parse_options_ok by (fastforce simp: max_choice_label_def)
  moreover obtain r where r: "requester question options choice_timeout_seconds w = (r, w')"
    using assms(1) by (auto simp: ask_options_def p split: prod.splits sum.splits if_splits)
  moreover obtain i where "r = Inr i" "0 \<le> i" "i < int (length options)" "get_any m ''answer'' = GStr (options ! nat i)"
    using assms by (cases r) (auto simp: ask_options_def p r no_answer_def split: if_splits)
  ultimately show ?thesis using p q(1-3) by blast
qed

theorem asked_well_formed_witness:
  "ask_options True (\<lambda>q opts t w. (Inr 1, w)) [(''question'', GStr ''which?''), (''options'', GArr [GStr ''a'', GStr '' b '', GStr ''A''])] () =
     ((GObj [(''answer'', GStr ''b''), (''position'', GInt 2), (''status'', GStr ''answered'')], None), ()) \<and> (\<exists>i. i < (2 :: int) \<and> 0 \<le> i)"
proof -
  let ?inp = "[(''question'', GStr ''which?''), (''options'', GArr [GStr ''a'', GStr '' b '', GStr ''A''])]"
  let ?m = "[(''answer'', GStr ''b''), (''position'', GInt 2), (''status'', GStr ''answered'')]"
  have p: "parse_choice_input ?inp = Inr (''which?'', [''a'', ''b''])" by code_simp
  then have a: "ask_options True (\<lambda>q opts t w. (Inr 1, w)) ?inp () = ((GObj ?m, None), ())"
    by (simp add: ask_options_def choice_superseded_def)
  have st: "get_any ?m ''status'' = GStr ''answered''" by simp
  obtain q opts i where "parse_choice_input ?inp = Inr (q, opts)" "0 \<le> i" "i < int (length opts)"
    using asked_well_formed [OF a st] by blast
  then have "0 \<le> i" "i < 2" using p by auto
  then show ?thesis using a by blast
qed

end
