(* ===== verification/Go_Regexp.thy ===== *)
theory Go_Regexp
  imports Go_Strings
begin

text \<open>
  The part of Go's \<^verbatim>\<open>regexp\<close> package that the modelled code uses. A pattern is matched on
  the runes of a text. Of the ways a pattern can match at one place Go takes the one a backtracking
  search finds first; \<open>rx_run\<close> lists them in that order. The patterns of the code never match
  the empty text, which \<open>rx_all\<close> relies on only to end early.
\<close>

section \<open>Patterns\<close>

datatype rx =
    RxRune "string \<Rightarrow> bool"   \<comment> \<open>one rune of a class\<close>
  | RxEps
  | RxSeq rx rx
  | RxAlt rx rx
  | RxStar rx
  | RxBegin                    \<comment> \<open>\<^verbatim>\<open>^\<close>\<close>
  | RxEnd                      \<comment> \<open>\<^verbatim>\<open>$\<close>\<close>
  | RxWordEdge                 \<comment> \<open>\<^verbatim>\<open>\b\<close>\<close>

text \<open>A place in a text: the rune before it, if any, and the runes after it.\<close>

type_synonym place = "string option \<times> string list"

definition word_rune :: "string \<Rightarrow> bool" where
  "word_rune r = (case r of [c] \<Rightarrow> byte_in 48 57 c \<or> byte_in 65 90 c \<or> byte_in 97 122 c \<or> c = CHR ''_'' | _ \<Rightarrow> False)"

definition word_edge :: "place \<Rightarrow> bool" where
  "word_edge pl \<longleftrightarrow>
     (case fst pl of None \<Rightarrow> False | Some r \<Rightarrow> word_rune r) \<noteq> (case snd pl of [] \<Rightarrow> False | r # _ \<Rightarrow> word_rune r)"

function rx_run :: "rx \<Rightarrow> place \<Rightarrow> place list" where
  "rx_run (RxRune p) pl = (case snd pl of [] \<Rightarrow> [] | r # rs \<Rightarrow> if p r then [(Some r, rs)] else [])"
| "rx_run RxEps pl = [pl]"
| "rx_run (RxSeq a b) pl = concat (map (rx_run b) (rx_run a pl))"
| "rx_run (RxAlt a b) pl = rx_run a pl @ rx_run b pl"
| "rx_run (RxStar a) pl =
     concat (map (rx_run (RxStar a)) (filter (\<lambda>q. length (snd q) < length (snd pl)) (rx_run a pl))) @ [pl]"
| "rx_run RxBegin pl = (if fst pl = None then [pl] else [])"
| "rx_run RxEnd pl = (if snd pl = [] then [pl] else [])"
| "rx_run RxWordEdge pl = (if word_edge pl then [pl] else [])"
  by pat_completeness auto
termination
  by (relation "measures [\<lambda>(r, pl). size r, \<lambda>(r, pl). length (snd pl)]") auto

text \<open>The rule of a star would rewrite for ever.\<close>

lemmas rx_star = rx_run.simps(5)

declare rx_star [simp del]

section \<open>Searching\<close>

text \<open>The leftmost match from a place on: the runes before it, the match, and where it ends.\<close>

fun rx_search :: "rx \<Rightarrow> place \<Rightarrow> (string list \<times> string list \<times> place) option" where
  "rx_search r (pr, []) = (case rx_run r (pr, []) of [] \<Rightarrow> None | q # _ \<Rightarrow> Some ([], [], q))"
| "rx_search r (pr, x # xs) =
     (case rx_run r (pr, x # xs) of
        q # _ \<Rightarrow> Some ([], take (length (x # xs) - length (snd q)) (x # xs), q)
      | [] \<Rightarrow> (case rx_search r (Some x, xs) of None \<Rightarrow> None | Some (skipped, m, q) \<Rightarrow> Some (x # skipped, m, q)))"

text \<open>\<^verbatim>\<open>MatchString\<close>, \<^verbatim>\<open>FindString\<close>.\<close>

definition rx_match :: "rx \<Rightarrow> string \<Rightarrow> bool" where
  "rx_match r s \<longleftrightarrow> rx_search r (None, runes s) \<noteq> None"

definition rx_find :: "rx \<Rightarrow> string \<Rightarrow> string" where
  "rx_find r s = (case rx_search r (None, runes s) of None \<Rightarrow> [] | Some (_, m, _) \<Rightarrow> concat m)"

text \<open>
  A text cut at the matches that do not overlap, from the left: pieces between matches (\<open>Inl\<close>)
  and matches (\<open>Inr\<close>). \<^verbatim>\<open>FindAllString\<close> and \<^verbatim>\<open>ReplaceAllStringFunc\<close> read it.
\<close>

lemma rx_run_shorter: "q \<in> set (rx_run r pl) \<Longrightarrow> length (snd q) \<le> length (snd pl)"
proof (induction r pl arbitrary: q rule: rx_run.induct)
  case (3 a b pl)
  from "3.prems" obtain p where p: "p \<in> set (rx_run a pl)" and q: "q \<in> set (rx_run b p)" by auto
  have "length (snd p) \<le> length (snd pl)" by (rule "3.IH"(1) [OF p])
  moreover have "length (snd q) \<le> length (snd p)" by (rule "3.IH"(2) [OF p q])
  ultimately show ?case by simp
next
  case (5 a pl)
  show ?case
  proof (cases "q = pl")
    case False
    with "5.prems" obtain p where p: "p \<in> set (rx_run a pl)" "length (snd p) < length (snd pl)"
      and q: "q \<in> set (rx_run (RxStar a) p)" by (auto simp: rx_star [of a pl])
    have "length (snd q) \<le> length (snd p)" using "5.IH"(2) [OF _ q] p by simp
    then show ?thesis using p by simp
  qed simp
qed (auto split: list.splits if_splits)

lemma rx_search_shorter: "rx_search r pl = Some (sk, m, q) \<Longrightarrow> length sk + length m + length (snd q) = length (snd pl)"
proof (induction r pl arbitrary: sk m q rule: rx_search.induct)
  case (1 r pr)
  then show ?case using rx_run_shorter [of q r "(pr, [])"] by (auto split: list.splits)
next
  case (2 r pr x xs)
  show ?case
  proof (cases "rx_run r (pr, x # xs)")
    case Nil
    then show ?thesis using "2.prems" "2.IH" [OF Nil] by (fastforce split: option.splits)
  next
    case (Cons p ps)
    then have "length (snd p) \<le> length (x # xs)" using rx_run_shorter [of p r "(pr, x # xs)"] by simp
    then show ?thesis using "2.prems" Cons by auto
  qed
qed

function rx_cut :: "rx \<Rightarrow> place \<Rightarrow> (string + string) list" where
  "rx_cut r pl =
     (case rx_search r pl of
        None \<Rightarrow> [Inl (concat (snd pl))]
      | Some (sk, m, q) \<Rightarrow>
          if m = [] then [Inl (concat (snd pl))]
          else Inl (concat sk) # Inr (concat m) # rx_cut r q)"
  by pat_completeness auto
termination
proof (relation "measure (\<lambda>(r, pl). length (snd pl))", goal_cases)
  case 1
  then show ?case by simp
next
  case (2 r pl x sk y m q)
  then have "length sk + length m + length (snd q) = length (snd pl)" by (auto dest: rx_search_shorter)
  moreover have "m \<noteq> []" using 2 by simp
  ultimately show ?case by (cases m) auto
qed

declare rx_cut.simps [simp del]

definition rx_all :: "rx \<Rightarrow> string \<Rightarrow> string list" where
  "rx_all r s = concat (map (case_sum (\<lambda>_. []) (\<lambda>m. [m])) (rx_cut r (None, runes s)))"

definition rx_replace :: "rx \<Rightarrow> (string \<Rightarrow> string) \<Rightarrow> string \<Rightarrow> string" where
  "rx_replace r f s = concat (map (case_sum id f) (rx_cut r (None, runes s)))"

section \<open>Classes and constructions\<close>

definition rx_opt :: "rx \<Rightarrow> rx" where
  "rx_opt r = RxAlt r RxEps"

definition rx_plus :: "rx \<Rightarrow> rx" where
  "rx_plus r = RxSeq r (RxStar r)"

text \<open>\<open>r{1,n}\<close>: as many as there are, at least one.\<close>

fun rx_upto :: "nat \<Rightarrow> rx \<Rightarrow> rx" where
  "rx_upto 0 r = RxEps"
| "rx_upto (Suc n) r = (if n = 0 then r else RxSeq r (rx_opt (rx_upto n r)))"

fun rx_seq :: "rx list \<Rightarrow> rx" where
  "rx_seq [] = RxEps"
| "rx_seq [r] = r"
| "rx_seq (r # rs) = RxSeq r (rx_seq rs)"

fun rx_alt :: "rx list \<Rightarrow> rx" where
  "rx_alt [] = RxRune (\<lambda>_. False)"
| "rx_alt [r] = r"
| "rx_alt (r # rs) = RxAlt r (rx_alt rs)"

definition one_of :: "string \<Rightarrow> string \<Rightarrow> bool" where
  "one_of cs r = (case r of [c] \<Rightarrow> c \<in> set cs | _ \<Rightarrow> False)"

definition rune_between :: "char \<Rightarrow> char \<Rightarrow> string \<Rightarrow> bool" where
  "rune_between lo hi r = (case r of [c] \<Rightarrow> byte_in (byte lo) (byte hi) c | _ \<Rightarrow> False)"

definition digit_rune :: "string \<Rightarrow> bool" where
  "digit_rune = rune_between (CHR ''0'') (CHR ''9'')"

text \<open>\<^verbatim>\<open>\s\<close>.\<close>

definition rx_space :: "string \<Rightarrow> bool" where
  "rx_space = one_of [CHR 0x09, CHR 0x0A, CHR 0x0C, CHR 0x0D, CHR 0x20]"

text \<open>Words, as they are and under \<^verbatim>\<open>(?i)\<close>, where a letter stands for every rune that folds to it.\<close>

definition rx_lit :: "string \<Rightarrow> rx" where
  "rx_lit s = rx_seq (map (\<lambda>c. RxRune (\<lambda>r. r = [c])) s)"

definition folds_to :: "char \<Rightarrow> string \<Rightarrow> bool" where
  "folds_to c r \<longleftrightarrow> to_lower r = [c] \<or> (c = CHR ''k'' \<and> r = [CHR 0xE2, CHR 0x84, CHR 0xAA]) \<or>
     (c = CHR ''s'' \<and> r = [CHR 0xC5, CHR 0xBF])"

definition rx_fold :: "string \<Rightarrow> rx" where
  "rx_fold s = rx_seq (map (\<lambda>c. RxRune (folds_to c)) s)"

definition rx_words :: "string list \<Rightarrow> rx" where
  "rx_words ws = rx_alt (map rx_fold ws)"

section \<open>Facts\<close>

text \<open>What a pattern takes is a piece of the text, with its last rune before the place it ends at.\<close>

lemma rx_run_splits:
  "q \<in> set (rx_run r pl) \<Longrightarrow> \<exists>m. snd pl = m @ snd q \<and> fst q = (if m = [] then fst pl else Some (last m))"
proof (induction r pl arbitrary: q rule: rx_run.induct)
  case (3 a b pl)
  from "3.prems" obtain p where p: "p \<in> set (rx_run a pl)" and q: "q \<in> set (rx_run b p)" by auto
  obtain m where "snd pl = m @ snd p \<and> fst p = (if m = [] then fst pl else Some (last m))"
    using "3.IH"(1) [OF p] by blast
  moreover obtain n where "snd p = n @ snd q \<and> fst q = (if n = [] then fst p else Some (last n))"
    using "3.IH"(2) [OF p q] by blast
  ultimately show ?case by (intro exI [of _ "m @ n"]) auto
next
  case (5 a pl)
  show ?case
  proof (cases "q = pl")
    case False
    with "5.prems" obtain p where p: "p \<in> set (rx_run a pl)" "length (snd p) < length (snd pl)"
      and q: "q \<in> set (rx_run (RxStar a) p)" by (auto simp: rx_star [of a pl])
    obtain m where "snd pl = m @ snd p \<and> fst p = (if m = [] then fst pl else Some (last m))"
      using "5.IH"(1) [OF p(1)] by blast
    moreover obtain n where "snd p = n @ snd q \<and> fst q = (if n = [] then fst p else Some (last n))"
      using "5.IH"(2) [OF _ q] p by auto
    ultimately show ?thesis by (intro exI [of _ "m @ n"]) auto
  qed simp
next
  case (1 p pl)
  then show ?case by (cases "snd pl") (auto split: if_splits intro: exI [of _ "[hd (snd pl)]"])
next
  case (4 a b pl)
  have "q \<in> set (rx_run a pl) \<or> q \<in> set (rx_run b pl)" using "4.prems" by simp
  then show ?case using "4.IH" by (elim disjE)
qed (auto split: if_splits)

lemma rx_search_splits:
  "rx_search r pl = Some (sk, m, q) \<Longrightarrow> snd pl = sk @ m @ snd q"
proof (induction r pl arbitrary: sk m q rule: rx_search.induct)
  case (1 r pr)
  then show ?case using rx_run_shorter [of q r "(pr, [])"] by (auto split: list.splits)
next
  case (2 r pr x xs)
  show ?case
  proof (cases "rx_run r (pr, x # xs)")
    case Nil
    then show ?thesis using "2.prems" "2.IH" [OF Nil] by (fastforce split: option.splits)
  next
    case (Cons p ps)
    then obtain n where "x # xs = n @ snd p" using rx_run_splits [of p r "(pr, x # xs)"] by auto
    then have "take (length (x # xs) - length (snd p)) (x # xs) = n" by simp
    then have "sk = []" "m = n" "q = p" using "2.prems" Cons by auto
    then show ?thesis using \<open>x # xs = n @ snd p\<close> by simp
  qed
qed

text \<open>Nothing of the text is lost by cutting it.\<close>

lemma rx_cut_whole: "concat (map (case_sum id id) (rx_cut r pl)) = concat (snd pl)"
proof (induction r pl rule: rx_cut.induct)
  case (1 r pl)
  show ?case
  proof (cases "rx_search r pl")
    case None
    then show ?thesis by (simp add: rx_cut.simps [of r pl])
  next
    case (Some t)
    obtain sk m q where t: "t = (sk, m, q)" by (cases t)
    have "snd pl = sk @ m @ snd q" using Some t by (simp add: rx_search_splits)
    then show ?thesis using "1.IH" [OF Some t [symmetric] refl] Some t
      by (simp add: rx_cut.simps [of r pl])
  qed
qed

end
