(* ===== verification/Chat_Format.thy ===== *)
theory Chat_Format
  imports Go_Regexp Go_Values
begin

text \<open>
  What an agent wrote, read into parts and drawn for a chat app (\<^verbatim>\<open>chatformat/chatformat.go\<close>).
  The markdown parser (goldmark) is a library: its result is a tree of nodes, the value the model
  starts from; a node is what kind it is, with the data the code reads from it, and its children.
  A chat app's renderer is a record of functions, the code's interface \<^verbatim>\<open>Renderer\<close>.
\<close>

section \<open>Parts\<close>

record inline_run =
  il_text :: string
  il_bold :: bool
  il_italic :: bool
  il_code :: bool
  il_strike :: bool
  il_link :: string

definition no_marks :: "inline_run" where
  "no_marks = \<lparr>il_text = [], il_bold = False, il_italic = False, il_code = False, il_strike = False, il_link = []\<rparr>"

definition marked_none :: "string \<Rightarrow> inline_run" where
  "marked_none t = no_marks\<lparr>il_text := t\<rparr>"

record list_entry =
  it_level :: int
  it_ordered :: bool
  it_number :: int
  it_inlines :: "inline_run list"

record grid =
  g_header :: "string list"
  g_rows :: "string list list"
  g_right :: "bool list"

text \<open>A part: \<^verbatim>\<open>Block\<close> with the fields its \<^verbatim>\<open>Kind\<close> uses.\<close>

datatype block =
    Paragraph "inline_run list"
  | Heading int "inline_run list"
  | ListBlock bool "list_entry list"
  | Quote "inline_run list"
  | Code string string         \<comment> \<open>language, text\<close>
  | Rule
  | Table "grid option"

section \<open>The parsed tree\<close>

text \<open>The nodes of goldmark's \<^verbatim>\<open>ast\<close> and \<^verbatim>\<open>extension/ast\<close> the code tells apart.\<close>

datatype md_kind =
    KParagraph | KTextBlock | KHeading int | KList bool int   \<comment> \<open>\<^verbatim>\<open>IsOrdered\<close>, \<^verbatim>\<open>Start\<close>\<close>
  | KListItem | KBlockquote
  | KFenced string "string list"    \<comment> \<open>\<^verbatim>\<open>Language\<close>, \<^verbatim>\<open>Lines\<close>\<close>
  | KCodeBlock "string list" | KThematicBreak | KHTMLBlock "string list"
  | KTable | KTableHeader | KTableRow | KTableCell
  | KText string bool bool          \<comment> \<open>\<^verbatim>\<open>Segment\<close>, \<^verbatim>\<open>HardLineBreak\<close>, \<^verbatim>\<open>SoftLineBreak\<close>\<close>
  | KString string | KCodeSpan | KEmphasis int | KStrikethrough
  | KLink string | KAutoLink string string   \<comment> \<open>\<^verbatim>\<open>URL\<close>, \<^verbatim>\<open>Label\<close>\<close>
  | KImage | KRawHTML "string list" | KOther

datatype md_node = Node (md_kind: md_kind) (md_children: "md_node list")

section \<open>Reading inline content\<close>

definition same_marks :: "inline_run \<Rightarrow> inline_run \<Rightarrow> bool" where
  "same_marks a b \<longleftrightarrow> il_bold a = il_bold b \<and> il_italic a = il_italic b \<and> il_code a = il_code b \<and>
     il_strike a = il_strike b \<and> il_link a = il_link b"

definition lf_char :: "char" where
  "lf_char = CHR 0x0A"

definition trim_end :: "char \<Rightarrow> string \<Rightarrow> string" where
  "trim_end c s = rev (dropWhile (\<lambda>x. x = c) (rev s))"

definition add_run :: "string \<Rightarrow> inline_run \<Rightarrow> inline_run list \<Rightarrow> inline_run list" where
  "add_run t m out =
     (if t = [] then out
      else if out \<noteq> [] \<and> same_marks (last out) (m\<lparr>il_text := t\<rparr>)
      then butlast out @ [(last out)\<lparr>il_text := il_text (last out) @ t\<rparr>]
      else out @ [m\<lparr>il_text := t\<rparr>])"

definition add_runs :: "inline_run list \<Rightarrow> inline_run list \<Rightarrow> inline_run list" where
  "add_runs ins out = foldl (\<lambda>o' i. add_run (il_text i) i o') out ins"

definition drop_last_break :: "inline_run list \<Rightarrow> inline_run list" where
  "drop_last_break out =
     (if out = [] then []
      else let l = (last out)\<lparr>il_text := trim_end lf_char (il_text (last out))\<rparr>
           in if il_text l = [] then butlast out else butlast out @ [l])"

definition plain_text :: "inline_run list \<Rightarrow> string" where
  "plain_text ins = concat (map il_text ins)"

text \<open>\<^verbatim>\<open>inlines\<close> and the loop over its children, which carries what was read so far.\<close>

fun inlines :: "inline_run \<Rightarrow> md_node \<Rightarrow> inline_run list"
and inline_kids :: "inline_run \<Rightarrow> md_node list \<Rightarrow> inline_run list \<Rightarrow> inline_run list" where
  "inlines m (Node k cs) = drop_last_break (inline_kids m cs [])"
| "inline_kids m [] out = out"
| "inline_kids m (Node k ds # cs) out =
     inline_kids m cs
       (case k of
          KText t hard soft \<Rightarrow>
            (let o' = add_run t m out in if hard \<or> soft then add_run [lf_char] m o' else o')
        | KString t \<Rightarrow> add_run t m out
        | KCodeSpan \<Rightarrow> add_run (plain_text (inlines no_marks (Node k ds))) (m\<lparr>il_code := True\<rparr>) out
        | KEmphasis lev \<Rightarrow>
            add_runs (inlines (if 2 \<le> lev then m\<lparr>il_bold := True\<rparr> else m\<lparr>il_italic := True\<rparr>) (Node k ds)) out
        | KStrikethrough \<Rightarrow> add_runs (inlines (m\<lparr>il_strike := True\<rparr>) (Node k ds)) out
        | KLink dest \<Rightarrow> add_runs (inlines (m\<lparr>il_link := dest\<rparr>) (Node k ds)) out
        | KAutoLink url lab \<Rightarrow> add_run lab (m\<lparr>il_link := url\<rparr>) out
        | KImage \<Rightarrow> add_run (plain_text (inlines no_marks (Node k ds))) m out
        | KRawHTML segs \<Rightarrow> add_run (concat segs) m out
        | _ \<Rightarrow> add_runs (inlines m (Node k ds)) out)"

definition plain_node :: "md_node \<Rightarrow> string" where
  "plain_node n = plain_text (inlines no_marks n)"

definition code_lines :: "string list \<Rightarrow> string" where
  "code_lines ls = trim_end lf_char (concat ls)"

section \<open>Lists and quotes\<close>

definition is_list :: "md_node \<Rightarrow> bool" where
  "is_list n = (case md_kind n of KList _ _ \<Rightarrow> True | _ \<Rightarrow> False)"

text \<open>The inline content of a block's children, one after the other, with a line break between.\<close>

definition join_children :: "md_node list \<Rightarrow> inline_run list" where
  "join_children cs = foldl (\<lambda>acc c. (if acc = [] then [] else acc @ [marked_none [lf_char]]) @ inlines no_marks c) [] cs"

definition list_entry_of :: "bool \<Rightarrow> int \<Rightarrow> int \<Rightarrow> md_node \<Rightarrow> list_entry" where
  "list_entry_of ordered level number li =
     \<lparr>it_level = level, it_ordered = ordered, it_number = (if ordered then number else 0),
      it_inlines = join_children (filter (\<lambda>c. \<not> is_list c) (md_children li))\<rparr>"

text \<open>
  \<^verbatim>\<open>listItems\<close>: an entry for each child of a list, followed by those of the lists nested in it.
\<close>

fun list_items :: "bool \<Rightarrow> int \<Rightarrow> int \<Rightarrow> md_node list \<Rightarrow> list_entry list"
and nested_items :: "int \<Rightarrow> md_node list \<Rightarrow> list_entry list" where
  "list_items ordered level number [] = []"
| "list_items ordered level number (Node k cs # lis) =
     list_entry_of ordered level number (Node k cs) # nested_items (level + 1) cs
       @ list_items ordered level (if ordered then number + 1 else number) lis"
| "nested_items level [] = []"
| "nested_items level (Node k lis # cs) =
     (case k of KList ordered start \<Rightarrow> list_items ordered level start lis | _ \<Rightarrow> [])
       @ nested_items level cs"

section \<open>Tables\<close>

text \<open>
  \<^verbatim>\<open>^[-+\<close>minus\<^verbatim>\<open>]?[\<close>currency\<^verbatim>\<open>]?\s?[-+\<close>minus\<^verbatim>\<open>]?\d[\d,.]*(\s?(%|\<close>degree\<^verbatim>\<open>[CF]?|[a-zA-Z/\<close>degree\<^verbatim>\<open>]{1,5}))?$\<close>
\<close>

definition minus_sign :: "string" where
  "minus_sign = [CHR 0xE2, CHR 0x88, CHR 0x92]"

definition degree_sign :: "string" where
  "degree_sign = [CHR 0xC2, CHR 0xB0]"

definition sign_rune :: "string \<Rightarrow> bool" where
  "sign_rune r \<longleftrightarrow> one_of ''-+'' r \<or> r = minus_sign"

definition currency_rune :: "string \<Rightarrow> bool" where
  "currency_rune r \<longleftrightarrow> r \<in> set [[CHR 0xC2, CHR 0xA3], ''$'', [CHR 0xE2, CHR 0x82, CHR 0xAC],
     [CHR 0xE2, CHR 0x82, CHR 0xA6], [CHR 0xC2, CHR 0xA5]]"

definition unit_rune :: "string \<Rightarrow> bool" where
  "unit_rune r \<longleftrightarrow> rune_between (CHR ''a'') (CHR ''z'') r \<or> rune_between (CHR ''A'') (CHR ''Z'') r \<or> r = ''/'' \<or> r = degree_sign"

definition rx_numeric :: "rx" where
  "rx_numeric = rx_seq [RxBegin, rx_opt (RxRune sign_rune), rx_opt (RxRune currency_rune), rx_opt (RxRune rx_space),
     rx_opt (RxRune sign_rune), RxRune digit_rune, RxStar (RxRune (\<lambda>r. digit_rune r \<or> one_of '',.'' r)),
     rx_opt (RxSeq (rx_opt (RxRune rx_space))
       (rx_alt [RxRune (\<lambda>r. r = ''%''),
                RxSeq (RxRune (\<lambda>r. r = degree_sign)) (rx_opt (RxRune (one_of ''CF''))),
                rx_upto 5 (RxRune unit_rune)])),
     RxEnd]"

definition row_cells :: "md_node \<Rightarrow> string list" where
  "row_cells row = map (\<lambda>c. trim_space (plain_node c)) (md_children row)"

definition is_header_row :: "md_node \<Rightarrow> bool" where
  "is_header_row row \<longleftrightarrow> md_kind row = KTableHeader"

definition grid_header :: "md_node list \<Rightarrow> string list" where
  "grid_header rows = (case rev (filter is_header_row rows) of [] \<Rightarrow> [] | h # _ \<Rightarrow> row_cells h)"

definition grid_rows :: "md_node list \<Rightarrow> string list list" where
  "grid_rows rows = map row_cells (filter (\<lambda>r. \<not> is_header_row r) rows)"

text \<open>The cells of a column that count when its kind is decided: those that say something.\<close>

definition telling_cells :: "string list list \<Rightarrow> nat \<Rightarrow> string list" where
  "telling_cells rows c =
     filter (\<lambda>x. x \<noteq> [] \<and> x \<noteq> ''-'' \<and> x \<noteq> em_dash) (map (\<lambda>r. r ! c) (filter (\<lambda>r. c < length r) rows))"

definition right_column :: "string list list \<Rightarrow> nat \<Rightarrow> bool" where
  "right_column rows c \<longleftrightarrow> telling_cells rows c \<noteq> [] \<and> (\<forall>x\<in>set (telling_cells rows c). rx_match rx_numeric x)"

definition grid_of :: "md_node list \<Rightarrow> grid" where
  "grid_of rows =
     (let h = grid_header rows; rs = grid_rows rows; cols = foldl max (length h) (map length rs)
      in \<lparr>g_header = h, g_rows = rs, g_right = map (right_column rs) [0..<cols]\<rparr>)"

section \<open>Blocks\<close>

fun blocks :: "md_node \<Rightarrow> block list" where
  "blocks (Node k cs) =
     (case k of
        KParagraph \<Rightarrow> (let ins = inlines no_marks (Node k cs) in if ins = [] then [] else [Paragraph ins])
      | KTextBlock \<Rightarrow> (let ins = inlines no_marks (Node k cs) in if ins = [] then [] else [Paragraph ins])
      | KHeading lev \<Rightarrow> [Heading lev (inlines no_marks (Node k cs))]
      | KList ordered start \<Rightarrow> [ListBlock ordered (list_items ordered 0 start cs)]
      | KBlockquote \<Rightarrow> [Quote (join_children cs)]
      | KFenced lang ls \<Rightarrow> [Code lang (code_lines ls)]
      | KCodeBlock ls \<Rightarrow> [Code [] (code_lines ls)]
      | KThematicBreak \<Rightarrow> [Rule]
      | KHTMLBlock ls \<Rightarrow> (let t = trim_space (code_lines ls) in if t = [] then [] else [Paragraph [marked_none t]])
      | KTable \<Rightarrow> [Table (Some (grid_of cs))]
      | _ \<Rightarrow> [])"

text \<open>\<^verbatim>\<open>Parse\<close>, from the document's children on.\<close>

definition parse_doc :: "md_node list \<Rightarrow> block list" where
  "parse_doc ns = concat (map blocks ns)"

section \<open>Drawing\<close>

record renderer =
  r_inlines :: "inline_run list \<Rightarrow> string"
  r_paragraph :: "string \<Rightarrow> string"
  r_heading :: "string \<Rightarrow> string"
  r_list :: "list_entry list \<Rightarrow> string list \<Rightarrow> string"
  r_quote :: "string \<Rightarrow> string"
  r_code :: "string \<Rightarrow> string \<Rightarrow> string"
  r_rule :: "string"
  r_table :: "grid \<Rightarrow> string"
  r_fixed :: "string \<Rightarrow> string"
  r_join :: "string list \<Rightarrow> string"

record fits =
  f_tables :: bool
  f_width :: int
  f_table_link :: "(grid \<Rightarrow> string) option"

definition wide_columns :: nat where
  "wide_columns = 6"

definition full_table :: string where
  "full_table = ''See the full table '' @ [CHR 0xE2, CHR 0x80, CHR 0xBA]"

definition widest :: "string \<Rightarrow> nat" where
  "widest s = foldl max 0 (map rune_count (split_char lf_char s))"

definition column_widths :: "nat \<Rightarrow> string list list \<Rightarrow> nat list" where
  "column_widths n rs = map (\<lambda>c. foldl max 0 (map (\<lambda>r. rune_count (r ! c)) (filter (\<lambda>r. c < length r) rs))) [0..<n]"

definition spaces :: "nat \<Rightarrow> string" where
  "spaces n = replicate n (CHR '' '')"

text \<open>
  One cell, pad_cell to its column's width. \<^verbatim>\<open>strings.Repeat\<close> panics on a negative count; a width is
  the largest of its column, so the difference is never negative (\<open>cell_fits\<close>).
\<close>

definition pad_cell :: "nat \<Rightarrow> bool \<Rightarrow> string \<Rightarrow> string" where
  "pad_cell w right cell =
     (let pad = spaces (w - rune_count cell) in if right then pad @ cell else cell @ pad)"

definition cell_at :: "string list \<Rightarrow> nat \<Rightarrow> string" where
  "cell_at r c = (if c < length r then r ! c else [])"

definition line_fields :: "grid \<Rightarrow> nat list \<Rightarrow> string list \<Rightarrow> string list" where
  "line_fields g ws r = map (\<lambda>c. pad_cell (ws ! c) (g_right g ! c) (cell_at r c)) [0..<length ws]"

definition aligned_line :: "grid \<Rightarrow> nat list \<Rightarrow> string list \<Rightarrow> string" where
  "aligned_line g ws r = trim_end (CHR '' '') (join ''  '' (line_fields g ws r))"

definition all_rows :: "grid \<Rightarrow> string list list" where
  "all_rows g = g_header g # g_rows g"

definition grid_widths :: "grid \<Rightarrow> nat list" where
  "grid_widths g = column_widths (length (g_right g)) (all_rows g)"

definition aligned :: "grid \<Rightarrow> string" where
  "aligned g = join [lf_char] (map (aligned_line g (grid_widths g)) (all_rows g))"

definition middle_dot :: string where
  "middle_dot = [CHR 0xC2, CHR 0xB7]"

definition row_part :: "grid \<Rightarrow> string list \<Rightarrow> nat \<Rightarrow> inline_run list" where
  "row_part g row c =
     (if trim_space (row ! c) = [] then []
      else [marked_none ('' '' @ middle_dot @ '' '' @
              (if c < length (g_header g) \<and> trim_space (g_header g ! c) \<noteq> []
               then g_header g ! c @ '': '' else []) @ row ! c)])"

definition row_line :: "grid \<Rightarrow> string list \<Rightarrow> inline_run list" where
  "row_line g row =
     (case row of
        [] \<Rightarrow> []
      | first # _ \<Rightarrow> (marked_none first)\<lparr>il_bold := True\<rparr> # concat (map (row_part g row) [1..<length row]))"

definition draw_table :: "renderer \<Rightarrow> fits \<Rightarrow> grid option \<Rightarrow> string list" where
  "draw_table r f go =
     (case go of
        None \<Rightarrow> []
      | Some g \<Rightarrow>
          if f_tables f then [r_table r g]
          else if f_width f \<le> 0 \<or> int (widest (aligned g)) \<le> f_width f then [r_fixed r (aligned g)]
          else map (\<lambda>row. r_paragraph r (r_inlines r (row_line g row))) (g_rows g) @
            (case f_table_link f of
               None \<Rightarrow> []
             | Some link \<Rightarrow>
                 if wide_columns < length (g_right g) \<and> link g \<noteq> []
                 then [r_paragraph r (r_inlines r [(marked_none full_table)\<lparr>il_link := link g\<rparr>])] else []))"

fun draw_block :: "renderer \<Rightarrow> fits \<Rightarrow> block \<Rightarrow> string list" where
  "draw_block r f (Paragraph ins) = [r_paragraph r (r_inlines r ins)]"
| "draw_block r f (Heading lev ins) = [r_heading r (r_inlines r ins)]"
| "draw_block r f (ListBlock ordered items) = [r_list r items (map (\<lambda>it. r_inlines r (it_inlines it)) items)]"
| "draw_block r f (Quote ins) = [r_quote r (r_inlines r ins)]"
| "draw_block r f (Code lang t) = [r_code r lang t]"
| "draw_block r f Rule = [r_rule r]"
| "draw_block r f (Table g) = draw_table r f g"

definition render_blocks :: "renderer \<Rightarrow> fits \<Rightarrow> block list \<Rightarrow> string" where
  "render_blocks r f bs = r_join r (concat (map (draw_block r f) bs))"

definition render :: "(string \<Rightarrow> md_node list) \<Rightarrow> renderer \<Rightarrow> fits \<Rightarrow> string \<Rightarrow> string" where
  "render parser r f markdown = render_blocks r f (parse_doc (parser markdown))"

end
