(* ===== verification/Chat_Facts.thy ===== *)
theory Chat_Facts
  imports Chat_Format
begin

text \<open>
  Facts about reading and drawing a reply: what adding a run keeps, which words a node has, how runes
  are counted over pieces joined by spaces, and where a cell stands in a lined-up row.
\<close>

section \<open>Runs in normal form\<close>

definition tidy :: "inline_run list \<Rightarrow> bool" where
  "tidy out \<longleftrightarrow> (\<forall>r\<in>set out. il_text r \<noteq> []) \<and> successively (\<lambda>a b. \<not> same_marks a b) out"

lemma same_marks_text [simp]:
  "same_marks (a\<lparr>il_text := t\<rparr>) b = same_marks a b" "same_marks a (b\<lparr>il_text := t\<rparr>) = same_marks a b"
  by (auto simp: same_marks_def)

lemma same_marks_refl [simp]: "same_marks a a"
  by (simp add: same_marks_def)

lemma tidy_Nil [simp]: "tidy []"
  by (simp add: tidy_def)

lemma tidy_snoc:
  "tidy (out @ [x]) \<longleftrightarrow> tidy out \<and> il_text x \<noteq> [] \<and> (out \<noteq> [] \<longrightarrow> \<not> same_marks (last out) x)"
  by (auto simp: tidy_def successively_append_iff)

lemma tidy_add_run:
  assumes "tidy out"
  shows "tidy (add_run t m out)"
proof (cases out rule: rev_cases)
  case (snoc ys y)
  then have "tidy ys" "tidy (ys @ [y])" "il_text y \<noteq> []" "ys \<noteq> [] \<longrightarrow> \<not> same_marks (last ys) y"
    using assms by (simp_all add: tidy_snoc)
  then show ?thesis using tidy_snoc [of "ys @ [y]" "m\<lparr>il_text := t\<rparr>"]
    by (auto simp: snoc add_run_def tidy_snoc [of ys])
qed (simp add: add_run_def tidy_def)

lemma add_runs_Cons: "add_runs (i # ins) out = add_runs ins (add_run (il_text i) i out)"
  by (simp add: add_runs_def)

lemma add_runs_Nil [simp]: "add_runs [] out = out"
  by (simp add: add_runs_def)

lemma tidy_add_runs: "tidy out \<Longrightarrow> tidy (add_runs ins out)"
  by (induction ins arbitrary: out) (simp_all add: add_runs_Cons tidy_add_run)

lemma tidy_drop_last_break: "tidy out \<Longrightarrow> tidy (drop_last_break out)"
  by (cases out rule: rev_cases) (auto simp: drop_last_break_def tidy_snoc Let_def)

lemmas tidy_steps = tidy_add_run tidy_add_runs tidy_drop_last_break

lemma tidy_inlines: "tidy (inlines m n)" and tidy_inline_kids: "tidy out \<Longrightarrow> tidy (inline_kids m cs out)"
proof (induction m n and m cs out rule: inlines_inline_kids.induct)
  case (3 m k ds cs out)
  show ?case by (cases k) (use "3.IH" "3.prems" in \<open>simp_all add: Let_def tidy_steps del: inlines.simps\<close>)
qed (simp_all add: tidy_steps)

section \<open>The words of a node\<close>

definition said :: "string \<Rightarrow> string" where
  "said s = filter (\<lambda>c. c \<noteq> lf_char) s"

fun leaf_words :: "md_node \<Rightarrow> string" where
  "leaf_words (Node k cs) =
     (case k of KText t hard soft \<Rightarrow> t | KString t \<Rightarrow> t | KAutoLink url lab \<Rightarrow> lab | KRawHTML segs \<Rightarrow> concat segs
      | _ \<Rightarrow> concat (map leaf_words cs))"

lemma said_append [simp]: "said (a @ b) = said a @ said b"
  by (simp add: said_def)

lemma said_Nil [simp]: "said [] = []"
  by (simp add: said_def)

lemma said_lf [simp]: "said [lf_char] = []"
  by (simp add: said_def)

lemma plain_text_Nil [simp]: "plain_text [] = []"
  by (simp add: plain_text_def)

lemma plain_text_append [simp]: "plain_text (a @ b) = plain_text a @ plain_text b"
  by (simp add: plain_text_def)

lemma plain_text_Cons [simp]: "plain_text (r # rs) = il_text r @ plain_text rs"
  by (simp add: plain_text_def)

lemma plain_text_add_run [simp]: "plain_text (add_run t m out) = plain_text out @ t"
  by (cases out rule: rev_cases) (auto simp: add_run_def)

lemma plain_text_add_runs [simp]: "plain_text (add_runs ins out) = plain_text out @ plain_text ins"
  by (induction ins arbitrary: out) (simp_all add: add_runs_Cons)

lemma trim_end_split: "\<exists>k. s = trim_end c s @ replicate k c"
proof -
  have "\<forall>x\<in>set (takeWhile (\<lambda>x. x = c) (rev s)). x = c" by (auto dest: set_takeWhileD)
  then have "takeWhile (\<lambda>x. x = c) (rev s) = replicate (length (takeWhile (\<lambda>x. x = c) (rev s))) c"
    by (metis replicate_length_same)
  then have "rev s = replicate (length (takeWhile (\<lambda>x. x = c) (rev s))) c @ dropWhile (\<lambda>x. x = c) (rev s)"
    by (metis takeWhile_dropWhile_id)
  then have "s = rev (replicate (length (takeWhile (\<lambda>x. x = c) (rev s))) c @ dropWhile (\<lambda>x. x = c) (rev s))"
    by (metis rev_rev_ident)
  then show ?thesis by (auto simp: trim_end_def)
qed

lemma said_trim_end [simp]: "said (trim_end lf_char s) = said s"
proof -
  obtain k where "s = trim_end lf_char s @ replicate k lf_char" using trim_end_split by blast
  then have "said s = said (trim_end lf_char s) @ said (replicate k lf_char)" by (metis said_append)
  then show ?thesis by (simp add: said_def)
qed

lemma said_drop_last_break [simp]: "said (plain_text (drop_last_break out)) = said (plain_text out)"
proof (cases out rule: rev_cases)
  case (snoc ys y)
  show ?thesis
  proof (cases "trim_end lf_char (il_text y) = []")
    case True
    then have "said (il_text y) = []" by (metis said_trim_end said_Nil)
    then show ?thesis using True snoc by (simp add: drop_last_break_def)
  qed (simp add: snoc drop_last_break_def Let_def)
qed (simp add: drop_last_break_def)

lemma said_inlines: "said (plain_text (inlines m n)) = said (concat (map leaf_words (md_children n)))"
  and said_inline_kids:
    "said (plain_text (inline_kids m cs out)) = said (plain_text out) @ said (concat (map leaf_words cs))"
proof (induction m n and m cs out rule: inlines_inline_kids.induct)
  case (3 m k ds cs out)
  show ?case using 3 by (cases k) (auto simp: Let_def)
qed simp_all

section \<open>No break at the end\<close>

definition ends_broken :: "string \<Rightarrow> bool" where
  "ends_broken s \<longleftrightarrow> s \<noteq> [] \<and> last s = lf_char"

definition well_ended :: "inline_run list \<Rightarrow> bool" where
  "well_ended out \<longleftrightarrow> out = [] \<or> \<not> ends_broken (il_text (last out))"

text \<open>A label of goldmark's automatic links: an address, which has no line break in it.\<close>

fun labels_whole :: "md_node \<Rightarrow> bool" where
  "labels_whole (Node k cs) =
     ((case k of KAutoLink url lab \<Rightarrow> \<not> ends_broken lab | _ \<Rightarrow> True) \<and> list_all labels_whole cs)"

text \<open>While a node is read, only a run with its own marks can end in a break, and one before it cannot.\<close>

definition held_ended :: "inline_run \<Rightarrow> inline_run list \<Rightarrow> bool" where
  "held_ended m out \<longleftrightarrow> well_ended out \<or>
     (same_marks (last out) m \<and> (said (il_text (last out)) = [] \<longrightarrow> well_ended (butlast out)))"

lemma ends_broken_append: "t \<noteq> [] \<Longrightarrow> ends_broken (s @ t) = ends_broken t"
  by (simp add: ends_broken_def)

lemma said_Nil_iff: "said s = [] \<longleftrightarrow> set s \<subseteq> {lf_char}"
  by (auto simp: said_def filter_empty_conv)

lemma said_Nil_ends: "said s = [] \<Longrightarrow> s \<noteq> [] \<Longrightarrow> ends_broken s"
  using last_in_set [of s] by (auto simp: said_Nil_iff ends_broken_def simp del: last_in_set)

lemma well_ended_add_run: "t \<noteq> [] \<Longrightarrow> \<not> ends_broken t \<Longrightarrow> well_ended (add_run t m out)"
  by (auto simp: add_run_def well_ended_def ends_broken_append)

lemma add_run_Nil [simp]: "add_run [] m out = out"
  by (simp add: add_run_def)

lemma held_add_own:
  assumes "tidy out" "held_ended m out"
  shows "held_ended m (add_run t m out)"
proof (cases "t = [] \<or> out = []")
  case True
  then show ?thesis using assms by (auto simp: add_run_def held_ended_def well_ended_def)
next
  case False
  then obtain ys y where out: "out = ys @ [y]" by (cases out rule: rev_cases) auto
  show ?thesis
  proof (cases "same_marks y m")
    case True
    have "well_ended ys" if "said (il_text y @ t) = []"
    proof -
      have "ends_broken (il_text y)" using that assms(1) out by (intro said_Nil_ends) (auto simp: tidy_snoc)
      then have "\<not> well_ended out" by (simp add: out well_ended_def)
      then show ?thesis using assms(2) that by (simp add: held_ended_def out)
    qed
    then show ?thesis using True False out by (simp add: add_run_def held_ended_def)
  next
    case no: False
    then have "well_ended out" using assms(2) by (auto simp: held_ended_def out)
    then show ?thesis using no False out by (simp add: add_run_def held_ended_def butlast_append)
  qed
qed

lemma held_add_other: "held_ended m out \<Longrightarrow> \<not> ends_broken t \<Longrightarrow> held_ended m (add_run t m' out)"
  by (cases "t = []") (auto simp: held_ended_def well_ended_add_run)

lemma held_add_runs:
  assumes "held_ended m out" "tidy ins" "well_ended ins"
  shows "held_ended m (add_runs ins out)"
proof (cases ins rule: rev_cases)
  case (snoc xs x)
  have "add_runs ins out = add_run (il_text x) x (add_runs xs out)" by (simp add: snoc add_runs_def)
  then show ?thesis using assms snoc by (simp add: held_ended_def well_ended_add_run tidy_snoc well_ended_def [of "xs @ [x]"])
qed (simp add: assms)

lemma ends_broken_plain: "tidy ins \<Longrightarrow> well_ended ins \<Longrightarrow> \<not> ends_broken (plain_text ins)"
  by (cases ins rule: rev_cases)
    (auto simp: tidy_snoc ends_broken_append well_ended_def, simp add: ends_broken_def)

lemma ends_broken_trim_end: "\<not> ends_broken (trim_end lf_char s)"
proof -
  have "dropWhile (\<lambda>x. x = lf_char) (rev s) = [] \<or> hd (dropWhile (\<lambda>x. x = lf_char) (rev s)) \<noteq> lf_char"
    by (metis (mono_tags) hd_dropWhile)
  then show ?thesis by (auto simp: ends_broken_def trim_end_def last_rev)
qed

lemma trim_end_id: "\<not> ends_broken s \<Longrightarrow> trim_end lf_char s = s"
  by (cases s rule: rev_cases) (auto simp: ends_broken_def trim_end_def)

lemma well_ended_drop:
  assumes "tidy out" "held_ended m out"
  shows "well_ended (drop_last_break out)"
proof (cases out rule: rev_cases)
  case (snoc ys y)
  let ?t = "trim_end lf_char (il_text y)"
  show ?thesis
  proof (cases "?t = []")
    case True
    then have none: "said (il_text y) = []" by (metis said_trim_end said_Nil)
    then have "ends_broken (il_text y)" using assms(1) snoc by (intro said_Nil_ends) (auto simp: tidy_snoc)
    then have "well_ended ys" using assms(2) none by (simp add: held_ended_def snoc well_ended_def)
    then show ?thesis using True by (simp add: drop_last_break_def snoc)
  next
    case False
    then show ?thesis by (simp add: drop_last_break_def snoc Let_def well_ended_def ends_broken_trim_end)
  qed
qed (simp add: drop_last_break_def well_ended_def)

lemma well_ended_inlines: "labels_whole n \<Longrightarrow> well_ended (inlines m n)"
  and held_inline_kids:
    "list_all labels_whole cs \<Longrightarrow> tidy out \<Longrightarrow> held_ended m out \<Longrightarrow> held_ended m (inline_kids m cs out)"
proof (induction m n and m cs out rule: inlines_inline_kids.induct)
  case (1 m k cs)
  then have "held_ended m (inline_kids m cs [])" by (simp add: held_ended_def well_ended_def)
  then show ?case by (simp add: well_ended_drop [where m = m] tidy_inline_kids)
next
  case (3 m k ds cs out)
  note hold = held_add_own held_add_other held_add_runs tidy_inlines ends_broken_plain tidy_steps
  have "labels_whole (Node k ds)" "list_all labels_whole cs" using "3.prems" by simp_all
  then show ?case using "3.prems"(2,3) "3.IH" by (cases k) (auto simp: Let_def hold simp del: inlines.simps)
qed simp_all

end
