(* ===== verification/Chat_Tables.thy ===== *)
theory Chat_Tables
  imports Chat_Facts
begin

text \<open>
  Facts about lined-up tables: how runes are counted over pieces that spaces separate, how wide a
  pad_cell cell and a line are, where each column starts, and that a cell is found again in its line.
\<close>

section \<open>Counting runes\<close>

lemma valid_rune_size_append:
  assumes "byte c < 128"
  shows "valid_rune_size (x # a @ c # b) = valid_rune_size (x # a)"
proof -
  have no: "\<not> cont_byte c" and lo: "128 \<le> l \<Longrightarrow> \<not> byte_in l h c" for l h
    using assms by (auto simp: cont_byte_def byte_in_def)
  consider "a = []" | p where "a = [p]" | p q where "a = [p, q]" | p q r d where "a = p # q # r # d"
    by (metis list.exhaust)
  then show ?thesis
    by cases (cases b; auto simp: valid_rune_size.simps no lo split: list.splits)+
qed

lemma runes_Cons:
  "runes (x # s) = (case valid_rune_size (x # s) of
      None \<Rightarrow> rune_error # runes s | Some n \<Rightarrow> take n (x # s) # runes (drop n (x # s)))"
  by simp

declare runes.simps(2) [simp del]

lemma runes_append: "byte c < 128 \<Longrightarrow> runes (a @ c # b) = runes a @ runes (c # b)"
proof (induction a rule: runes.induct)
  case (2 x s)
  show ?case
  proof (cases "valid_rune_size (x # s)")
    case None
    then have "valid_rune_size (x # s @ c # b) = None" using valid_rune_size_append [OF "2.prems"] by simp
    then show ?thesis using "2.IH"(1) [OF None "2.prems"] None
      by (simp only: append_Cons runes_Cons [of x] option.case)
  next
    case (Some n)
    then have n: "n \<le> length (x # s)" "valid_rune_size (x # s @ c # b) = Some n"
      using valid_rune_size_pos [of "x # s" n] valid_rune_size_append [OF "2.prems"] by simp_all
    have "take n (x # s @ c # b) = take n (x # s)" "drop n (x # s @ c # b) = drop n (x # s) @ c # b"
      using n(1) take_append [of n "x # s" "c # b"] drop_append [of n "x # s" "c # b"] by simp_all
    then show ?thesis using "2.IH"(2) [OF Some "2.prems"] Some n(2)
      by (simp only: append_Cons runes_Cons [of x] option.case)
  qed
qed simp

lemma rune_count_Nil [simp]: "rune_count [] = 0"
  by (simp add: rune_count_def)

lemma rune_count_ascii: "byte c < 128 \<Longrightarrow> rune_count (c # b) = Suc (rune_count b)"
  by (simp add: rune_count_def runes_Cons valid_rune_size.simps)

lemma byte_space [simp]: "byte (CHR '' '') = 32"
  by (simp add: byte_def)

lemma rune_count_append: "byte c < 128 \<Longrightarrow> rune_count (a @ c # b) = rune_count a + rune_count (c # b)"
  by (simp add: rune_count_def runes_append)

lemma spaces_Suc: "spaces (Suc n) = CHR '' '' # spaces n"
  by (simp add: spaces_def)

lemma spaces_0 [simp]: "spaces 0 = []"
  by (simp add: spaces_def)

lemma rune_count_spaces_append [simp]: "rune_count (spaces n @ b) = n + rune_count b"
  by (induction n) (simp_all add: spaces_Suc rune_count_ascii)

lemma rune_count_spaces [simp]: "rune_count (spaces n) = n"
  using rune_count_spaces_append [of n "[]"] by simp

lemma rune_count_append_spaces: "0 < n \<or> b = [] \<Longrightarrow> rune_count (a @ spaces n @ b) = rune_count a + n + rune_count b"
  by (cases n) (simp_all add: spaces_Suc rune_count_append rune_count_ascii)

section \<open>Padded cells and lines\<close>

lemma two_spaces: "''  '' = spaces 2"
  by (simp add: spaces_def numeral_2_eq_2)

lemma rune_count_pad_cell: "rune_count cell \<le> w \<Longrightarrow> rune_count (pad_cell w right cell) = w"
  using rune_count_append_spaces [of "w - rune_count cell" "[]" cell] by (simp add: pad_cell_def Let_def)

lemma rune_count_pad_cell_spaces:
  "rune_count cell \<le> w \<Longrightarrow> 0 < n \<Longrightarrow> rune_count (pad_cell w right cell @ spaces n @ b) = w + n + rune_count b"
  using rune_count_append_spaces [of n b "pad_cell w right cell"] by (simp add: rune_count_pad_cell)

lemma foldl_max_start: "(a::nat) \<le> foldl max a xs"
proof (induction xs arbitrary: a)
  case (Cons x xs)
  show ?case using Cons.IH [of "max a x"] by simp
qed simp

lemma foldl_max_ge: "(x::nat) \<in> set xs \<Longrightarrow> x \<le> foldl max a xs"
proof (induction xs arbitrary: a)
  case (Cons y xs)
  then show ?case using foldl_max_start [of "max a y" xs] by auto
qed simp

lemma foldl_max_le: "(\<forall>x\<in>set xs. x \<le> (n::nat)) \<Longrightarrow> a \<le> n \<Longrightarrow> foldl max a xs \<le> n"
  by (induction xs arbitrary: a) auto

lemma length_column_widths [simp]: "length (column_widths n rs) = n"
  by (simp add: column_widths_def)

text \<open>A width is never smaller than a cell of its column, so padding is never negative.\<close>

lemma cell_fits: "r \<in> set rs \<Longrightarrow> c < n \<Longrightarrow> rune_count (cell_at r c) \<le> column_widths n rs ! c"
  by (cases "c < length r") (auto simp: column_widths_def cell_at_def intro!: foldl_max_ge)

lemma join_snoc: "xs \<noteq> [] \<Longrightarrow> join sep (xs @ ys) = (if ys = [] then join sep xs else concat (map (\<lambda>x. x @ sep) xs) @ join sep ys)"
proof (induction sep xs rule: join.induct)
  case (2 sep x)
  then show ?case by (cases ys) auto
next
  case (3 sep x y xs)
  then show ?case by auto
qed simp

lemma join_split_at:
  assumes "c < length xs"
  shows "\<exists>R. join sep xs = concat (map (\<lambda>x. x @ sep) (take c xs)) @ xs ! c @ R"
proof -
  have split: "xs = take c xs @ xs ! c # drop (Suc c) xs" using assms by (simp add: id_take_nth_drop)
  have head: "\<exists>R. join sep (xs ! c # drop (Suc c) xs) = xs ! c @ R"
    by (cases "drop (Suc c) xs") auto
  show ?thesis
  proof (cases "take c xs = []")
    case True
    then show ?thesis using head split by (metis append_Nil concat.simps(1) list.map(1))
  next
    case False
    then show ?thesis using head split join_snoc [of "take c xs" sep "xs ! c # drop (Suc c) xs"] by auto
  qed
qed

definition line_width :: "nat list \<Rightarrow> nat" where
  "line_width ws = sum_list (map (\<lambda>w. w + 2) ws) - 2"

text \<open>The runes before a run of fields that end at column \<open>c\<close>.\<close>

lemma rune_count_before:
  assumes fit: "\<forall>i<length ws. rune_count (cell_at r i) \<le> ws ! i" and c: "c \<le> length ws"
  shows "rune_count (concat (map (\<lambda>x. x @ ''  '') (take c (line_fields g ws r))) @ b)
           = sum_list (map (\<lambda>w. w + 2) (take c ws)) + rune_count b"
  using c
proof (induction c arbitrary: b)
  case (Suc c)
  let ?f = "pad_cell (ws ! c) (g_right g ! c) (cell_at r c)"
  have t: "take (Suc c) (line_fields g ws r) = take c (line_fields g ws r) @ [?f]"
    using Suc.prems by (simp add: take_Suc_conv_app_nth line_fields_def)
  have w: "take (Suc c) ws = take c ws @ [ws ! c]" using Suc.prems by (simp add: take_Suc_conv_app_nth)
  have f: "rune_count (?f @ ''  '' @ b) = ws ! c + 2 + rune_count b"
    unfolding two_spaces using fit Suc.prems by (intro rune_count_pad_cell_spaces) auto
  show ?case using Suc.IH [of "?f @ ''  '' @ b"] Suc.prems f by (simp add: t w)
qed simp

lemma rune_count_line:
  assumes fit: "\<forall>i<length ws. rune_count (cell_at r i) \<le> ws ! i"
  shows "rune_count (join ''  '' (line_fields g ws r)) = line_width ws"
proof (cases "length ws")
  case 0
  then show ?thesis by (simp add: line_fields_def line_width_def)
next
  case (Suc c)
  let ?f = "pad_cell (ws ! c) (g_right g ! c) (cell_at r c)"
  have fs: "line_fields g ws r = take c (line_fields g ws r) @ [?f]"
    using Suc by (simp add: line_fields_def take_map)
  have ws: "ws = take c ws @ [ws ! c]" using Suc by (metis lessI take_Suc_conv_app_nth take_all_iff order_refl)
  have "join ''  '' (fs @ [x]) = concat (map (\<lambda>x. x @ ''  '') fs) @ x" for fs x
    by (cases "fs = []") (simp_all add: join_snoc)
  then have "join ''  '' (line_fields g ws r) = concat (map (\<lambda>x. x @ ''  '') (take c (line_fields g ws r))) @ ?f"
    by (subst fs)
  moreover have "rune_count ?f = ws ! c" using fit Suc by (simp add: rune_count_pad_cell)
  ultimately have "rune_count (join ''  '' (line_fields g ws r)) = sum_list (map (\<lambda>w. w + 2) (take c ws)) + ws ! c"
    using rune_count_before [OF fit, of c g ?f] Suc by simp
  moreover have "sum_list (map (\<lambda>w. w + 2) ws) = sum_list (map (\<lambda>w. w + 2) (take c ws)) + (ws ! c + 2)"
    by (subst ws) simp
  ultimately show ?thesis by (simp add: line_width_def)
qed

lemma rune_count_trim_end: "rune_count (trim_end (CHR '' '') s) \<le> rune_count s"
proof -
  obtain k where "s = trim_end (CHR '' '') s @ spaces k" using trim_end_split unfolding spaces_def by blast
  then have "rune_count s = rune_count (trim_end (CHR '' '') s) + k"
    using rune_count_append_spaces [of k "[]" "trim_end (CHR '' '') s"] by simp
  then show ?thesis by simp
qed

lemma line_within:
  assumes "r \<in> set (all_rows g)"
  shows "rune_count (aligned_line g (grid_widths g) r) \<le> line_width (grid_widths g)"
proof -
  have "\<forall>i<length (grid_widths g). rune_count (cell_at r i) \<le> grid_widths g ! i"
    using assms by (simp add: grid_widths_def cell_fits)
  then have "rune_count (join ''  '' (line_fields g (grid_widths g) r)) = line_width (grid_widths g)"
    by (rule rune_count_line)
  then show ?thesis using rune_count_trim_end by (metis aligned_line_def)
qed

section \<open>Finding a cell again\<close>

lemma trim_end_append: "b \<noteq> [] \<Longrightarrow> last b \<noteq> c \<Longrightarrow> trim_end c (a @ b @ s) = a @ b @ trim_end c s"
proof (cases b rule: rev_cases)
  case (snoc ys y)
  moreover assume "last b \<noteq> c"
  ultimately show ?thesis
    by (cases "\<forall>x\<in>set s. x = c") (auto simp: trim_end_def dropWhile_append)
qed simp

lemma pad_cell_has: "\<exists>l r. pad_cell w right cell = l @ cell @ r"
  by (cases right) (simp_all add: pad_cell_def Let_def, metis append_Nil2, metis append_Nil)

lemma contains_str_pieces: "s = a @ sub @ b \<Longrightarrow> contains_str s sub"
  by (simp add: contains_str_append)

lemma line_has_cell:
  assumes c: "c < length ws" and cell: "cell_at r c \<noteq> []" "last (cell_at r c) \<noteq> CHR '' ''"
  shows "\<exists>a b. aligned_line g ws r = a @ cell_at r c @ b"
proof -
  have len: "length (line_fields g ws r) = length ws" by (simp add: line_fields_def)
  obtain R where "join ''  '' (line_fields g ws r) =
      concat (map (\<lambda>x. x @ ''  '') (take c (line_fields g ws r))) @ line_fields g ws r ! c @ R"
    using join_split_at [of c "line_fields g ws r" "''  ''"] c len by auto
  moreover obtain l l' where "line_fields g ws r ! c = l @ cell_at r c @ l'"
    using c pad_cell_has by (fastforce simp: line_fields_def)
  ultimately have "join ''  '' (line_fields g ws r) =
      (concat (map (\<lambda>x. x @ ''  '') (take c (line_fields g ws r))) @ l) @ cell_at r c @ (l' @ R)" by simp
  then show ?thesis using trim_end_append [OF cell] by (metis aligned_line_def)
qed

lemma join_has: "x \<in> set xs \<Longrightarrow> \<exists>a b. join sep xs = a @ x @ b"
proof -
  assume "x \<in> set xs"
  then obtain c where "c < length xs" "xs ! c = x" by (metis in_set_conv_nth)
  then show ?thesis using join_split_at [of c xs sep] by blast
qed

lemma aligned_has_cell:
  assumes "r \<in> set (all_rows g)" "c < length r" "length r \<le> length (g_right g)"
    and "r ! c \<noteq> []" "last (r ! c) \<noteq> CHR '' ''"
  shows "contains_str (aligned g) (r ! c)"
proof -
  have "aligned_line g (grid_widths g) r \<in> set (map (aligned_line g (grid_widths g)) (all_rows g))"
    using assms(1) by simp
  then obtain a b where whole: "aligned g = a @ aligned_line g (grid_widths g) r @ b"
    unfolding aligned_def using join_has by metis
  have "cell_at r c = r ! c" using assms(2) by (simp add: cell_at_def)
  then obtain a' b' where "aligned_line g (grid_widths g) r = a' @ r ! c @ b'"
    using line_has_cell [of c "grid_widths g" r g] assms by (auto simp: grid_widths_def)
  then show ?thesis using whole by (intro contains_str_pieces [of _ "a @ a'" _ "b' @ b"]) simp
qed

lemma row_line_has_cell:
  assumes "c < length row" "trim_space (row ! c) \<noteq> []"
  shows "contains_str (plain_text (row_line g row)) (row ! c)"
proof -
  obtain first rest where row: "row = first # rest" using assms(1) by (cases row) auto
  have line: "row_line g row = (marked_none first)\<lparr>il_bold := True\<rparr> # concat (map (row_part g row) [1..<length row])"
    by (simp add: row_line_def row)
  show ?thesis
  proof (cases c)
    case 0
    then have "plain_text (row_line g row) = [] @ row ! c @ plain_text (concat (map (row_part g row) [1..<length row]))"
      by (simp add: line) (simp add: row marked_none_def no_marks_def)
    then show ?thesis by (rule contains_str_pieces)
  next
    case (Suc d)
    then have "[1..<length row] = [1..<c] @ c # [Suc c..<length row]"
    proof -
      have "[1..<length row] = [1..<c] @ [c..<length row]"
        using Suc assms(1) by (metis le_add1 le_add_diff_inverse less_imp_le plus_1_eq_Suc upt_add_eq_append)
      then show ?thesis using assms(1) by (simp only: upt_conv_Cons)
    qed
    moreover obtain x where "plain_text (row_part g row c) = x @ row ! c"
      using assms(2) by (auto simp: row_part_def marked_none_def no_marks_def)
    ultimately have "plain_text (row_line g row) = (il_text ((marked_none first)\<lparr>il_bold := True\<rparr>) @
        plain_text (concat (map (row_part g row) [1..<c])) @ x) @ row ! c @
        plain_text (concat (map (row_part g row) [Suc c..<length row]))"
      by (simp add: line)
    then show ?thesis by (rule contains_str_pieces)
  qed
qed

end
