(* ===== verification/Chat_Claims.thy ===== *)
theory Chat_Claims
  imports Chat_Tables
begin

text \<open>
  What holds of a reply once it is read into parts and drawn: runs of text are in normal form and keep
  every word, lists number their entries, tables line up and lose no cell; and what reading loses.
\<close>

section \<open>Reading\<close>

definition sample_line :: md_node where
  "sample_line = Node KParagraph [Node (KText ''See '' False False) [], Node (KEmphasis 2) [Node (KText ''this'' False True) []],
     Node (KAutoLink ''https://a.b'' ''a.b'') [], Node (KText [] False True) []]"

text \<open>
  What is read from a node are runs in normal form: none is empty, no two neighbours have the same
  marks, and the last does not end in a line break, whatever is nested in what. The one thing relied on
  is that the label of an automatic link (an address) does not end in a line break.
\<close>

theorem runs_are_normal:
  assumes "labels_whole n"
  shows "(\<forall>r\<in>set (inlines m n). il_text r \<noteq> []) \<and>
         successively (\<lambda>a b. \<not> same_marks a b) (inlines m n) \<and>
         (inlines m n = [] \<or> last (il_text (last (inlines m n))) \<noteq> lf_char)"
proof -
  have "tidy (inlines m n)" by (rule tidy_inlines)
  moreover have "well_ended (inlines m n)" using assms by (rule well_ended_inlines)
  ultimately show ?thesis by (auto simp: tidy_def well_ended_def ends_broken_def)
qed

lemma runs_are_normal_witness:
  "inlines no_marks sample_line =
     [marked_none ''See '', (marked_none ''this'')\<lparr>il_bold := True\<rparr>, (marked_none ''a.b'')\<lparr>il_link := ''https://a.b''\<rparr>] \<and>
   last (il_text (last (inlines no_marks sample_line))) \<noteq> lf_char"
proof -
  have ok: "labels_whole sample_line" by (simp add: sample_line_def ends_broken_def lf_char_def)
  have "inlines no_marks sample_line =
     [marked_none ''See '', (marked_none ''this'')\<lparr>il_bold := True\<rparr>, (marked_none ''a.b'')\<lparr>il_link := ''https://a.b''\<rparr>]"
    by code_simp
  then show ?thesis using runs_are_normal [OF ok, of no_marks] by simp
qed


section \<open>Lists\<close>

lemma levels_below:
  "e \<in> set (list_items ordered level number lis) \<Longrightarrow> level \<le> it_level e"
  "e \<in> set (nested_items level cs) \<Longrightarrow> level \<le> it_level e"
proof (induction ordered level number lis and level cs arbitrary: e and e rule: list_items_nested_items.induct)
  case (4 level k lis cs)
  then show ?case by (cases k) auto
qed (force simp: list_entry_of_def)+

lemma nested_deeper: "filter (\<lambda>e. it_level e = level) (nested_items (level + 1) cs) = []"
  by (fastforce simp: filter_empty_conv dest: levels_below(2))

text \<open>
  The entries of a numbered list are numbered from its start without a gap, one for each entry of
  the list, whatever lists are nested in them in between.
\<close>

theorem entries_numbered:
  "map it_number (filter (\<lambda>e. it_level e = level) (list_items True level start lis)) =
     map (\<lambda>i. start + int i) [0..<length lis]"
proof (induction lis arbitrary: start)
  case (Cons li lis)
  obtain k cs where li: "li = Node k cs" by (cases li)
  have "map (\<lambda>i. start + int i) [0..<length (li # lis)] =
      start # map (\<lambda>i. start + 1 + int i) [0..<length lis]"
    by (simp add: upt_conv_Cons del: upt_Suc) (simp add: map_Suc_upt [symmetric] del: upt_Suc map_Suc_upt)
  then show ?case using Cons.IH [of "start + 1"] by (simp add: li nested_deeper list_entry_of_def)
qed simp

text \<open>
  What a code block inside a list entry or a quote says is lost: whatever its lines are, the parts
  read from the list or the quote are the same.
\<close>

theorem code_inside_lost:
  "blocks (Node (KList ordered start) (xs @ Node KListItem (as @ Node (KFenced lang ls) [] # bs) # ys)) =
     blocks (Node (KList ordered start) (xs @ Node KListItem (as @ Node (KFenced lang ls') [] # bs) # ys)) \<and>
   blocks (Node KBlockquote (as @ Node (KFenced lang ls) [] # bs)) =
     blocks (Node KBlockquote (as @ Node (KFenced lang ls') [] # bs))"
proof -
  have join: "join_children (as @ Node (KFenced lang ls) [] # bs) = join_children (as @ Node (KFenced lang ls') [] # bs)" for as bs
    by (simp add: join_children_def)
  have entry: "list_entry_of ordered level number (Node KListItem (as @ Node (KFenced lang ls) [] # bs)) =
      list_entry_of ordered level number (Node KListItem (as @ Node (KFenced lang ls') [] # bs))" for level number
    by (simp add: list_entry_of_def is_list_def join)
  have nested: "nested_items level (as @ Node (KFenced lang ls) [] # bs) = nested_items level (as @ Node (KFenced lang ls') [] # bs)" for level
    by (induction as) (simp_all, metis md_node.exhaust nested_items.simps(2))
  have "list_items ordered 0 n (xs @ Node KListItem (as @ Node (KFenced lang ls) [] # bs) # ys) =
      list_items ordered 0 n (xs @ Node KListItem (as @ Node (KFenced lang ls') [] # bs) # ys)" for n
  proof (induction xs arbitrary: n)
    case (Cons x xs)
    obtain k cs where "x = Node k cs" by (cases x)
    then show ?case using Cons.IH by simp
  qed (simp add: entry nested)
  then show ?thesis by (simp add: join)
qed

section \<open>Tables\<close>

text \<open>
  Tables line up: in every row of a table, header or not, the cell of a column stands, pad_cell to one
  width, at the same place: as many characters from the left as the columns before it are wide, two more
  for each. (The spaces at the end of a line are cut off.)
\<close>

theorem columns_line_up:
  assumes r: "r \<in> set (all_rows g)" and c: "c < length (g_right g)"
  shows "\<exists>L R k. aligned_line g (grid_widths g) r @ spaces k =
           L @ pad_cell (grid_widths g ! c) (g_right g ! c) (cell_at r c) @ R \<and>
         rune_count L = (\<Sum>w\<leftarrow>take c (grid_widths g). w + 2) \<and>
         rune_count (pad_cell (grid_widths g ! c) (g_right g ! c) (cell_at r c)) = grid_widths g ! c"
proof -
  let ?ws = "grid_widths g" and ?fs = "line_fields g (grid_widths g) r"
  have fit: "\<forall>i<length ?ws. rune_count (cell_at r i) \<le> ?ws ! i" using r by (simp add: grid_widths_def cell_fits)
  have len: "c < length ?ws" "length ?fs = length ?ws" using c by (simp_all add: grid_widths_def line_fields_def)
  then obtain R where R: "join ''  '' ?fs = concat (map (\<lambda>x. x @ ''  '') (take c ?fs)) @ ?fs ! c @ R"
    using join_split_at [of c ?fs "''  ''"] by auto
  obtain k where k: "join ''  '' ?fs = aligned_line g ?ws r @ spaces k"
    using trim_end_split [of "join ''  '' ?fs" "CHR '' ''"] by (auto simp: aligned_line_def spaces_def)
  have f: "?fs ! c = pad_cell (?ws ! c) (g_right g ! c) (cell_at r c)" using len by (simp add: line_fields_def)
  have "rune_count (concat (map (\<lambda>x. x @ ''  '') (take c ?fs))) = (\<Sum>w\<leftarrow>take c ?ws. w + 2)"
    using rune_count_before [OF fit, of c g "[]"] len by simp
  moreover have "rune_count (pad_cell (?ws ! c) (g_right g ! c) (cell_at r c)) = ?ws ! c"
    using fit len by (simp add: rune_count_pad_cell)
  ultimately show ?thesis using R k f by metis
qed

definition sample_grid :: grid where
  "sample_grid = \<lparr>g_header = [''Name'', ''Cost''], g_rows = [[''Tea'', ''12''], [''Coffee'']], g_right = [False, True]\<rparr>"

lemma columns_line_up_witness:
  "aligned_line sample_grid (grid_widths sample_grid) [''Tea'', ''12''] = ''Tea       12'' \<and>
   (\<exists>L R k. aligned_line sample_grid (grid_widths sample_grid) [''Tea'', ''12''] @ spaces k = L @ ''  12'' @ R \<and> rune_count L = 8)"
proof -
  have w: "grid_widths sample_grid = [6, 4]" by code_simp
  have "[''Tea'', ''12''] \<in> set (all_rows sample_grid)" "1 < length (g_right sample_grid)"
    by (simp_all add: all_rows_def sample_grid_def)
  from columns_line_up [OF this] have "\<exists>L R k. aligned_line sample_grid (grid_widths sample_grid) [''Tea'', ''12''] @ spaces k =
      L @ pad_cell 4 True ''12'' @ R \<and> rune_count L = 8"
    unfolding w by (simp add: sample_grid_def cell_at_def) blast
  moreover have "pad_cell 4 True ''12'' = ''  12''" by code_simp
  moreover have "aligned_line sample_grid (grid_widths sample_grid) [''Tea'', ''12''] = ''Tea       12''" by code_simp
  ultimately show ?thesis by simp
qed

lemma last_trim_space: "trim_space s \<noteq> [] \<Longrightarrow> last (trim_space s) \<noteq> CHR '' ''"
proof
  let ?t = "strip_left (map rev space_runes) (rev (trim_left s))"
  assume "trim_space s \<noteq> []" "last (trim_space s) = CHR '' ''"
  then obtain rest where t: "?t = CHR '' '' # rest"
    by (cases ?t) (auto simp: trim_space_def trim_right_def last_rev)
  have none: "token_at (map rev space_runes) (CHR '' '' # rest) = None"
    using strip_left_no_token [of "map rev space_runes" "rev (trim_left s)"] unfolding t .
  obtain R where "map rev space_runes = [CHR '' ''] # R" by (simp add: space_runes_def)
  then show False using none by (simp add: token_at_def)
qed

lemma grid_of_rows:
  "r \<in> set (all_rows (grid_of rows)) \<Longrightarrow>
     length r \<le> length (g_right (grid_of rows)) \<and> (\<forall>x\<in>set r. trim_space x = x)"
proof -
  assume r: "r \<in> set (all_rows (grid_of rows))"
  then have r': "r = grid_header rows \<or> r \<in> set (grid_rows rows)" by (simp add: all_rows_def grid_of_def Let_def)
  then have "length r \<le> length (g_right (grid_of rows))"
    by (auto simp: grid_of_def Let_def foldl_max_start intro: foldl_max_ge)
  moreover have "\<forall>x\<in>set (row_cells n). trim_space x = x" for n by (auto simp: row_cells_def)
  then have "\<forall>x\<in>set r. trim_space x = x" using r'
    by (auto simp: grid_rows_def grid_header_def split: list.splits)
  ultimately show ?thesis by simp
qed

lemma grid_cell_told:
  assumes r: "r \<in> set (all_rows (grid_of rows))" and c: "c < length r" and x: "r ! c \<noteq> []"
  shows "contains_str (aligned (grid_of rows)) (r ! c)"
proof -
  have t: "trim_space (r ! c) = r ! c" using grid_of_rows [OF r] c by simp
  then have "last (r ! c) \<noteq> CHR '' ''" using last_trim_space [of "r ! c"] x by simp
  then show ?thesis using assms grid_of_rows [OF r] by (intro aligned_has_cell) simp_all
qed


definition sample_rows :: "md_node list" where
  "sample_rows =
     (let cell = (\<lambda>s. Node KTableCell [Node (KText s False False) []])
      in [Node KTableHeader [cell ''Name'', cell ''Cost''], Node KTableRow [cell ''Tea'', cell ''12'']])"

definition plain_renderer :: renderer where
  "plain_renderer = \<lparr>r_inlines = plain_text, r_paragraph = id, r_heading = id, r_list = (\<lambda>_ ds. concat ds), r_quote = id,
     r_code = (\<lambda>_ t. t), r_rule = [], r_table = (\<lambda>_. []), r_fixed = id, r_join = concat\<rparr>"


end
