(* ===== verification/Proposals.thy ===== *)
theory Proposals
  imports Go_Regexp Tool_Gates
begin

text \<open>
  Messages that carry choices a person can tap (\<^verbatim>\<open>domain/proposal.go\<close>), the table they are kept in
  (\<^verbatim>\<open>postgres/proposal.go\<close>; each statement is one step at the time it is given, and what
  \<^verbatim>\<open>json.Marshal\<close> writes of the choices is what is read back), and the messages that
  come in (\<^verbatim>\<open>domain/conversation.go\<close>; where one came from is the record \<open>conv\<close> of \<open>Tool_Gates\<close>).
\<close>

section \<open>Messages\<close>

record callback =
  cb_query :: string
  cb_data :: string
  cb_message :: string
  cb_trigger :: string

record inbound =
  ib_conv :: conv
  ib_text :: string
  ib_message :: string
  ib_thread :: string
  ib_callback :: "callback option"
  ib_instructions :: "string option"
  ib_edited :: bool
  ib_replaces :: string
  ib_look_ups_only :: bool
  ib_hint :: string
  ib_first_name :: string
  ib_last_name :: string

text \<open>The message a chosen sentence is handed on as: words, and where they came from.\<close>

definition words_of :: "conv \<Rightarrow> string \<Rightarrow> inbound" where
  "words_of c t = \<lparr>ib_conv = c, ib_text = t, ib_message = [], ib_thread = [], ib_callback = None, ib_instructions = None,
     ib_edited = False, ib_replaces = [], ib_look_ups_only = False, ib_hint = [], ib_first_name = [], ib_last_name = []\<rparr>"

section \<open>Proposals\<close>

definition platform_answer_prefix :: string where
  "platform_answer_prefix = ''kael:''"

record choice =
  ch_label :: string
  ch_say :: string

record proposal =
  pp_id :: string
  pp_person :: string
  pp_agent :: string
  pp_identity :: string
  pp_chat :: string
  pp_thread :: string
  pp_message :: string
  pp_text :: string
  pp_choices :: "choice list"
  pp_created :: int
  pp_expires :: int
  pp_chosen :: "int option"
  pp_chosen_at :: "int option"

definition min_proposal_choices :: nat where "min_proposal_choices = 2"
definition max_proposal_choices :: nat where "max_proposal_choices = 5"
definition max_choice_label_runes :: nat where "max_choice_label_runes = 40"
definition max_choice_say_runes :: nat where "max_choice_say_runes = 300"

text \<open>\<^verbatim>\<open>24 * time.Hour\<close> in nanoseconds.\<close>

definition proposal_lifetime :: int where
  "proposal_lifetime = 24 * 3600 * 1000000000"

section \<open>The data of a button\<close>

definition proposal_callback_prefix :: string where
  "proposal_callback_prefix = ''prop:''"

definition proposal_data :: "string \<Rightarrow> int \<Rightarrow> string" where
  "proposal_data pid i = proposal_callback_prefix @ pid @ '':'' @ itoa i"

text \<open>\<^verbatim>\<open>strings.LastIndex\<close> of a character: what is before the last one, and what is after it.\<close>

definition cut_last :: "char \<Rightarrow> string \<Rightarrow> (string \<times> string) option" where
  "cut_last c s =
     (if c \<in> set s
      then Some (rev (drop 1 (dropWhile (\<lambda>x. x \<noteq> c) (rev s))), rev (takeWhile (\<lambda>x. x \<noteq> c) (rev s)))
      else None)"

text \<open>
  An \<^verbatim>\<open>int\<close> read from the front of a text: \<^verbatim>\<open>Sscanf(s, "%d", &n)\<close> (which skips blanks first; a
  text with a blank in front is refused by the code right after) and, when nothing may be left,
  \<^verbatim>\<open>strconv.Atoi\<close>.
\<close>

definition read_int :: "string \<Rightarrow> (int \<times> string) option" where
  "read_int s =
     (let neg = (s \<noteq> [] \<and> hd s = CHR ''-''); rest = (if s \<noteq> [] \<and> (hd s = CHR ''-'' \<or> hd s = CHR ''+'') then tl s else s);
          ds = takeWhile is_digit rest; n = (if neg then - digits_val ds else digits_val ds)
      in if ds = [] \<or> \<not> int64_range n then None else Some (n, dropWhile is_digit rest))"

definition scan_int :: "string \<Rightarrow> int option" where
  "scan_int s = map_option fst (read_int (dropWhile (\<lambda>c. c = CHR '' '' \<or> c = CHR 0x09) s))"

definition atoi :: "string \<Rightarrow> int option" where
  "atoi s = (case read_int s of Some (n, []) \<Rightarrow> Some n | _ \<Rightarrow> None)"

definition parse_proposal_data :: "string \<Rightarrow> (string \<times> int) option" where
  "parse_proposal_data d =
     (if \<not> has_prefix d proposal_callback_prefix then None
      else case cut_last (CHR '':'') (drop (length proposal_callback_prefix) d) of
          None \<Rightarrow> None
        | Some (pid, num) \<Rightarrow>
            if pid = [] then None
            else case scan_int num of
                None \<Rightarrow> None
              | Some n \<Rightarrow> if n < 0 \<or> num \<noteq> itoa n then None else Some (pid, n))"

section \<open>The choices an agent gave\<close>

text \<open>When a choice would happen, and when a label says so itself (two regular expressions, \<^verbatim>\<open>(?i)\<close>).\<close>

definition week_days :: "string list" where
  "week_days = [''monday'', ''tuesday'', ''wednesday'', ''thursday'', ''friday'', ''saturday'', ''sunday'']"

definition rx_digits2 :: rx where
  "rx_digits2 = rx_upto 2 (RxRune digit_rune)"

definition rx_opt_space :: rx where
  "rx_opt_space = rx_opt (rx_lit '' '')"

definition rx_am_pm :: rx where
  "rx_am_pm = RxSeq (RxRune (\<lambda>r. folds_to (CHR ''a'') r \<or> folds_to (CHR ''p'') r)) (rx_fold ''m'')"

definition rx_two_digits :: rx where
  "rx_two_digits = RxSeq (RxRune digit_rune) (RxRune digit_rune)"

definition rx_clock :: rx where
  "rx_clock = rx_seq [rx_fold ''at '', rx_digits2, rx_opt (RxSeq (rx_lit '':'') rx_two_digits)]"

definition timing :: rx where
  "timing = rx_seq [RxWordEdge,
     rx_alt [
       RxSeq (rx_fold ''later'') (rx_opt (rx_words ['' on'', '' today''])),
       rx_fold ''tonight'',
       RxSeq (rx_fold ''this '') (rx_words [''morning'', ''afternoon'', ''evening'', ''week'', ''weekend'']),
       RxSeq (rx_fold ''tomorrow'') (rx_opt (RxSeq (rx_lit '' '')
         (rx_alt [rx_fold ''morning'', rx_fold ''afternoon'', rx_fold ''evening'',
                  RxSeq rx_clock (rx_opt (RxSeq rx_opt_space rx_am_pm))]))),
       RxSeq (rx_fold ''next '') (rx_words ([''week'', ''month''] @ week_days)),
       RxSeq (rx_fold ''every '') (rx_words ([''day'', ''morning'', ''evening'', ''week''] @ week_days)),
       rx_seq [rx_fold ''in '', RxAlt (RxSeq (rx_fold ''a'') (rx_opt (rx_fold ''n''))) (rx_plus (RxRune digit_rune)), rx_lit '' '',
               rx_words [''minute'', ''hour'', ''day'', ''week''], rx_opt (rx_fold ''s'')],
       RxSeq rx_clock (rx_opt (RxAlt (RxSeq rx_opt_space rx_am_pm) (rx_fold '' utc''))),
       RxSeq (rx_fold ''on '') (rx_words week_days)],
     RxWordEdge]"

definition says_when :: rx where
  "says_when = rx_seq [RxWordEdge,
     rx_alt [
       rx_seq [rx_digits2, rx_lit '':'', rx_two_digits],
       rx_seq [rx_digits2, rx_opt_space, rx_am_pm],
       rx_words [''now'', ''today'', ''tonight'', ''tomorrow'', ''later'', ''morning'', ''afternoon'', ''evening'',
                 ''daily'', ''weekly'', ''monthly'', ''hourly''],
       rx_seq [rx_words [''mon'', ''tues'', ''wednes'', ''thurs'', ''fri'', ''satur'', ''sun''], rx_fold ''day'', rx_opt (rx_fold ''s'')],
       rx_words [''mon'', ''tue'', ''wed'', ''thu'', ''fri'', ''sat'', ''sun'']],
     RxWordEdge]"

definition trim_end_any :: "string \<Rightarrow> string \<Rightarrow> string" where
  "trim_end_any cs s = rev (dropWhile (\<lambda>c. c \<in> set cs) (rev s))"

definition trim_any :: "string \<Rightarrow> string \<Rightarrow> string" where
  "trim_any cs s = trim_end_any cs (dropWhile (\<lambda>c. c \<in> set cs) s)"

definition with_timing :: "string \<Rightarrow> string \<Rightarrow> string" where
  "with_timing label say =
     (let when = rx_find timing say
      in if when = [] \<or> rx_match timing label \<or> rx_match says_when label then label
         else let longer = trim_end_any ''.!?'' label @ '' '' @ to_lower when
              in if max_choice_label_runes < rune_count longer then label else longer)"

text \<open>The loop over the items, with the labels seen so far.\<close>

definition item_text :: "goval \<Rightarrow> string \<Rightarrow> string" where
  "item_text v k = (case as_obj v of None \<Rightarrow> [] | Some m \<Rightarrow> get_str m k)"

fun keep_choices :: "string list \<Rightarrow> goval list \<Rightarrow> choice list" where
  "keep_choices seen [] = []"
| "keep_choices seen (item # items) =
     (let label = join '' '' (Go_Strings.fields (item_text item ''label'')); say = trim_space (item_text item ''say'')
      in if label = [] \<or> say = [] \<or> max_choice_label_runes < rune_count label \<or> max_choice_say_runes < rune_count say
         then keep_choices seen items
         else let label = with_timing label say; key = to_lower label
              in if key \<in> set seen then keep_choices seen items
                 else \<lparr>ch_label = label, ch_say = say\<rparr> # keep_choices (key # seen) items)"

definition parse_proposal_choices :: "goval \<Rightarrow> choice list" where
  "parse_proposal_choices raw =
     (let out = keep_choices [] (case as_list raw of None \<Rightarrow> [] | Some vs \<Rightarrow> vs)
      in if length out < min_proposal_choices then [] else take max_proposal_choices out)"

section \<open>The table\<close>

datatype choose_error = PropNotFound | PropChosen | PropExpired

definition get_proposal :: "string \<Rightarrow> proposal list \<Rightarrow> proposal option" where
  "get_proposal pid rows = find (\<lambda>p. pp_id p = pid) rows"

text \<open>\<^verbatim>\<open>SaveProposal\<close>: a new row, or the message, words, choices and end of the one there is.\<close>

definition save_proposal :: "int \<Rightarrow> proposal \<Rightarrow> proposal list \<Rightarrow> proposal list" where
  "save_proposal now p rows =
     (if get_proposal (pp_id p) rows = None
      then rows @ [p\<lparr>pp_created := now, pp_chosen := None, pp_chosen_at := None\<rparr>]
      else map (\<lambda>q. if pp_id q = pp_id p
                    then q\<lparr>pp_message := pp_message p, pp_text := pp_text p, pp_choices := pp_choices p, pp_expires := pp_expires p\<rparr>
                    else q) rows)"

definition can_choose :: "int \<Rightarrow> int \<Rightarrow> proposal \<Rightarrow> bool" where
  "can_choose i now p \<longleftrightarrow> pp_chosen p = None \<and> now < pp_expires p \<and> 0 \<le> i \<and> i < int (length (pp_choices p))"

definition mark_chosen :: "int \<Rightarrow> int \<Rightarrow> proposal \<Rightarrow> proposal" where
  "mark_chosen i now p = p\<lparr>pp_chosen := Some i, pp_chosen_at := Some now\<rparr>"

text \<open>The \<^verbatim>\<open>UPDATE ... RETURNING\<close> of \<^verbatim>\<open>ChooseProposal\<close>.\<close>

definition choose_row :: "string \<Rightarrow> int \<Rightarrow> int \<Rightarrow> proposal list \<Rightarrow> proposal option \<times> proposal list" where
  "choose_row pid i now rows =
     (map_option (mark_chosen i now) (find (\<lambda>p. pp_id p = pid \<and> can_choose i now p) rows),
      map (\<lambda>p. if pp_id p = pid \<and> can_choose i now p then mark_chosen i now p else p) rows)"

text \<open>Why nothing was chosen: the second statement, on the table as it is by then.\<close>

definition why_not :: "string \<Rightarrow> int \<Rightarrow> proposal list \<Rightarrow> choose_error" where
  "why_not pid i rows =
     (case get_proposal pid rows of
        None \<Rightarrow> PropNotFound
      | Some cur \<Rightarrow> if i < 0 \<or> int (length (pp_choices cur)) \<le> i then PropNotFound
                    else if pp_chosen cur \<noteq> None then PropChosen else PropExpired)"

text \<open>\<open>later\<close> is the table when the second statement runs: \<open>snd (choose_row ...)\<close> when nobody came between.\<close>

definition choose_proposal :: "string \<Rightarrow> int \<Rightarrow> int \<Rightarrow> proposal list \<Rightarrow> proposal list \<Rightarrow> (choose_error + proposal)" where
  "choose_proposal pid i now rows later =
     (case fst (choose_row pid i now rows) of Some p \<Rightarrow> Inr p | None \<Rightarrow> Inl (why_not pid i later))"

definition delete_expired :: "int \<Rightarrow> proposal list \<Rightarrow> nat \<times> proposal list" where
  "delete_expired before_time rows =
     (length (filter (\<lambda>p. pp_expires p < before_time) rows), filter (\<lambda>p. \<not> pp_expires p < before_time) rows)"

definition close_proposal :: "string \<Rightarrow> int \<Rightarrow> proposal list \<Rightarrow> proposal list" where
  "close_proposal pid now rows =
     map (\<lambda>p. if pp_id p = pid \<and> pp_chosen p = None then p\<lparr>pp_expires := min (pp_expires p) now\<rparr> else p) rows"

definition is_open :: "string \<Rightarrow> string \<Rightarrow> string \<Rightarrow> int \<Rightarrow> proposal \<Rightarrow> bool" where
  "is_open agent identity chat now p \<longleftrightarrow>
     pp_agent p = agent \<and> pp_identity p = identity \<and> pp_chat p = chat \<and> pp_chosen p = None \<and> now < pp_expires p"

text \<open>\<^verbatim>\<open>ORDER BY created_at DESC LIMIT 1\<close>; of two made at the same moment the first row.\<close>

fun newest :: "proposal list \<Rightarrow> proposal option" where
  "newest [] = None"
| "newest (p # ps) = (case newest ps of None \<Rightarrow> Some p | Some q \<Rightarrow> if pp_created p < pp_created q then Some q else Some p)"

definition latest_open_proposal :: "string \<Rightarrow> string \<Rightarrow> string \<Rightarrow> int \<Rightarrow> proposal list \<Rightarrow> proposal option" where
  "latest_open_proposal agent identity chat now rows = newest (filter (is_open agent identity chat now) rows)"

end
