(* ===== verification/Choice_Host.thy ===== *)
theory Choice_Host
  imports Proposals Offering Prompts
begin

text \<open>
  How the host offers choices and takes a tap or a typed answer (\<^verbatim>\<open>runtime/proposal_host.go\<close>), and
  how it makes choices of a reply's closing offer (\<^verbatim>\<open>runtime/proposal_derive.go\<close>). Between reading
  a proposal and choosing from it anything else may happen to the table, so these are two steps of the
  world of choices at the end. The chat app, the platform's own answers and the turn a sentence is
  handed to are what the host does to the outside: \<open>host_effect\<close>.
\<close>

section \<open>Offering\<close>

text \<open>
  Whether a reply's choices can be buttons: \<open>stored\<close> (there is a store), the conversation of the turn,
  if any, and whether its messenger can put buttons under a message.
\<close>

definition can_offer_choices :: "bool \<Rightarrow> bool \<Rightarrow> bool \<Rightarrow> conv option \<Rightarrow> bool \<Rightarrow> bool" where
  "can_offer_choices stored unattended alert c can_attach \<longleftrightarrow>
     stored \<and> (\<not> unattended \<or> alert) \<and> (case c of None \<Rightarrow> False | Some c \<Rightarrow> cv_user c \<noteq> [] \<and> can_attach)"

definition choices_of :: "loop_result option \<Rightarrow> bool \<Rightarrow> choice list" where
  "choices_of res unattended =
     (case res of
        None \<Rightarrow> []
      | Some r \<Rightarrow> if unattended then []
                  else case res_output r of None \<Rightarrow> [] | Some out \<Rightarrow> parse_proposal_choices (get_any out ''choices''))"

definition numbered_line :: "nat \<Rightarrow> choice \<Rightarrow> string" where
  "numbered_line i c = [CHR 0x0A] @ itoa (int i + 1) @ ''. '' @ ch_label c"

definition with_numbered_choices :: "string \<Rightarrow> choice list \<Rightarrow> string" where
  "with_numbered_choices content choices =
     trim_end_any [CHR 0x0A, CHR '' ''] content @ [CHR 0x0A] @ concat (map (\<lambda>(i, c). numbered_line i c) (enumerate 0 choices))"

definition new_proposal :: "string \<Rightarrow> string \<Rightarrow> conv \<Rightarrow> string \<Rightarrow> string \<Rightarrow> choice list \<Rightarrow> int \<Rightarrow> proposal" where
  "new_proposal pid agent c message content choices now =
     \<lparr>pp_id = pid, pp_person = cv_user c, pp_agent = agent, pp_identity = cv_identity c, pp_chat = cv_chat c,
      pp_thread = cv_thread c, pp_message = message, pp_text = content, pp_choices = choices, pp_created = 0,
      pp_expires = now + proposal_lifetime, pp_chosen = None, pp_chosen_at = None\<rparr>"

text \<open>The buttons: what each says, and what a tap on it sends back.\<close>

definition buttons_of :: "proposal \<Rightarrow> (string \<times> string) list" where
  "buttons_of p = map (\<lambda>(i, c). (ch_label c, proposal_data (pp_id p) (int i))) (enumerate 0 (pp_choices p))"

text \<open>\<^verbatim>\<open>attachChoices\<close>: the table after, and the buttons put under the message.\<close>

definition attach_choices ::
  "bool \<Rightarrow> bool \<Rightarrow> string \<Rightarrow> string \<Rightarrow> conv \<Rightarrow> string \<Rightarrow> string \<Rightarrow> choice list \<Rightarrow> int \<Rightarrow> proposal list
     \<Rightarrow> (string \<times> string) list \<times> proposal list" where
  "attach_choices can_attach stored pid agent c message content choices now rows =
     (if \<not> can_attach \<or> \<not> stored \<or> message = [] \<or> choices = [] then ([], rows)
      else let p = new_proposal pid agent c message content choices now in (buttons_of p, save_proposal now p rows))"

definition platform_answered :: "choice list \<Rightarrow> bool" where
  "platform_answered choices \<longleftrightarrow> choices \<noteq> [] \<and> (\<forall>c\<in>set choices. has_prefix (ch_say c) platform_answer_prefix)"

text \<open>
  \<^verbatim>\<open>OfferChoices\<close>: \<open>deliver\<close> gives the message's id, empty when it could not be delivered.
\<close>

definition offer_choices ::
  "bool \<Rightarrow> bool \<Rightarrow> bool \<Rightarrow> string \<Rightarrow> string \<Rightarrow> conv \<Rightarrow> string \<Rightarrow> choice list \<Rightarrow> (string \<Rightarrow> string) \<Rightarrow> int \<Rightarrow> proposal list
     \<Rightarrow> (string + (string \<times> string) list) \<times> proposal list" where
  "offer_choices known can_attach stored pid agent c body_text choices deliver now rows =
     (if \<not> known then (Inl (''OfferChoices: agent '' @ go_quote agent @ '' not registered''), rows)
      else if \<not> stored \<or> cv_user c = [] \<or> choices = []
      then (Inl ''OfferChoices: nothing to keep the choices in, or nobody to offer them to'', rows)
      else let body = (if can_attach then body_text else with_numbered_choices body_text choices); message = deliver body
           in if message = [] then (Inl ''OfferChoices: could not be delivered'', rows)
              else if can_attach
              then (let (bs, rows') = attach_choices can_attach stored pid agent c message body_text choices now rows in (Inr bs, rows'))
              else (Inr [], save_proposal now (new_proposal pid agent c message body choices now) rows))"

section \<open>Choices made of a reply\<close>

definition apostrophe :: string where
  "apostrophe = [CHR 0x27]"

definition rx_offer_ending :: rx where
  "rx_offer_ending = rx_alt [rx_lit ''?'', rx_fold ''want me to'', rx_fold ''would you like'', rx_fold ''shall i'', rx_fold ''should i'',
     rx_fold ''let me know'', rx_fold (''if you'' @ apostrophe @ ''d like''), rx_fold ''if you want'',
     rx_seq [rx_fold ''i can '', rx_opt (rx_fold ''also ''),
       rx_alt ([rx_fold ''move'', rx_fold ''book'', rx_fold ''hold'', rx_fold ''set'', rx_fold ''add'', rx_fold ''change'', rx_fold ''cancel'',
         rx_seq [rx_fold ''analy'', RxRune (\<lambda>r. folds_to (CHR ''s'') r \<or> folds_to (CHR ''z'') r), rx_fold ''e'']] @
         map rx_fold [''check'', ''look'', ''run'', ''place'', ''send'', ''schedule'', ''remind''])],
     RxSeq (rx_fold ''just '') (rx_words [''name'', ''tell'', ''give'', ''say'']),
     rx_seq [rx_words [''may'', ''might'', ''likely'', ''probably'', ''will'', apostrophe @ ''ll''], rx_lit '' '', rx_words [''want'', ''need''], rx_fold '' to''],
     rx_seq [rx_words [''a few'', ''some'', ''several''], rx_lit '' '', rx_words [''ways'', ''options'', ''things'']],
     rx_fold ''ways to'']"

definition rx_last_question :: rx where
  "rx_last_question = rx_seq [RxStar (RxRune (\<lambda>r. \<not> one_of (''.!?:'' @ [CHR 0x0A]) r)), rx_lit ''?'', RxStar (RxRune rx_space), RxEnd]"

definition rx_asks_for_words :: rx where
  "rx_asks_for_words = rx_seq [RxBegin, RxStar (RxRune rx_space),
     rx_words [''what'', ''what'' @ apostrophe @ ''s'', ''which'', ''when'', ''where'', ''who'', ''whose'', ''whom'', ''how'', ''why''], RxWordEdge]"

definition rx_yes_no :: rx where
  "rx_yes_no = rx_seq [RxBegin, RxStar (RxRune rx_space), rx_words [''yes'', ''no''], RxWordEdge]"

text \<open>The group of the last question: what is before its question mark, in which there is none.\<close>

definition last_question :: "string \<Rightarrow> string option" where
  "last_question s = (if rx_match rx_last_question s then Some (takeWhile (\<lambda>c. c \<noteq> CHR ''?'') (rx_find rx_last_question s)) else None)"

definition yes_no_to_open :: "string \<Rightarrow> choice list \<Rightarrow> bool" where
  "yes_no_to_open reply choices \<longleftrightarrow>
     choices \<noteq> [] \<and> (\<forall>c\<in>set choices. rx_match rx_yes_no (ch_label c)) \<and>
     (case last_question (trim_space reply) of None \<Rightarrow> False | Some q \<Rightarrow> rx_match rx_asks_for_words q)"

definition ends_in_offer :: "string \<Rightarrow> bool" where
  "ends_in_offer reply =
     (let r = runes (trim_space reply); tail = (if 240 < length r then drop (length r - 240) r else r)
      in rx_match rx_offer_ending (concat tail))"

definition offer_choices_name :: string where
  "offer_choices_name = ''offer_choices''"

text \<open>The models are asked one after the other; the first that answers decides.\<close>

fun derive_choices :: "string \<Rightarrow> message list \<Rightarrow> action_spec \<Rightarrow> 'w llm list \<Rightarrow> 'w \<Rightarrow> choice list \<times> 'w" where
  "derive_choices reply msgs spec [] w = ([], w)"
| "derive_choices reply msgs spec (llm # llms) w =
     (case llm msgs [spec] w of
        (Inl e, w') \<Rightarrow> derive_choices reply msgs spec llms w'
      | (Inr resp, w') \<Rightarrow>
          (case find (\<lambda>call. tc_name call = as_name spec) (lr_tool_calls resp) of
             None \<Rightarrow> ([], w')
           | Some call \<Rightarrow>
               (let choices = parse_proposal_choices (get_any (tc_args call) ''choices'')
                in (if yes_no_to_open reply choices then [] else choices, w'))))"

definition derive_spec :: "schema \<Rightarrow> action_spec" where
  "derive_spec choices_schema =
     \<lparr>as_name = offer_choices_name, as_description = ''Shows these as buttons under the assistant'' @ apostrophe @ ''s reply.'',
      as_instructions = [], as_input = Schema TObject [] [(''choices'', choices_schema)] None [''choices''] [],
      as_output = Schema (TOther []) [] [] None [] [], as_max_calls = 0, as_hidden = True, as_read_only = False, as_changes = False\<rparr>"

definition derive_messages :: "string \<Rightarrow> string \<Rightarrow> string \<Rightarrow> message list" where
  "derive_messages instruction user_text reply =
     [plain_message RoleSystem instruction,
      plain_message RoleUser (''The person wrote:'' @ [CHR 0x0A] @ user_text @ [CHR 0x0A, CHR 0x0A] @
        ''The assistant replied:'' @ [CHR 0x0A] @ reply)]"

text \<open>\<^verbatim>\<open>withDerived\<close>: \<open>own\<close> is the agent's models, \<open>choice_model\<close> the platform's; the instruction is text for the model.\<close>

definition with_derived ::
  "string \<Rightarrow> schema \<Rightarrow> 'w llm option \<Rightarrow> 'w llm list \<Rightarrow> bool \<Rightarrow> loop_result option \<Rightarrow> string \<Rightarrow> string \<Rightarrow> choice list \<Rightarrow> 'w
     \<Rightarrow> choice list \<times> 'w" where
  "with_derived instruction choices_schema choice_model own can_offer res user_text reply given w =
     (case res of
        None \<Rightarrow> (given, w)
      | Some r \<Rightarrow>
          if given \<noteq> [] \<or> res_status r \<noteq> LoopComplete \<or> res_content r = [] \<or> reply \<noteq> res_content r then (given, w)
          else if (choice_model = None \<and> own = []) \<or> \<not> ends_in_offer reply \<or> \<not> can_offer then (given, w)
          else derive_choices reply (derive_messages instruction user_text reply) (derive_spec choices_schema)
                 (case choice_model of None \<Rightarrow> own | Some m \<Rightarrow> [m]) w)"

section \<open>A tap, a typed answer\<close>

datatype host_effect =
    ShownText conv string string      \<comment> \<open>\<^verbatim>\<open>UpdateMessage\<close>: message, text\<close>
  | HandedOn string inbound           \<comment> \<open>\<^verbatim>\<open>proposalDispatch\<close>: to this agent, as what the person said\<close>
  | PlatformAnswers string conv string  \<comment> \<open>\<^verbatim>\<open>choiceAnswerer\<close>\<close>

text \<open>The host as one tap meets it: the agent, whether its messenger can change a message, whether there is an answerer.\<close>

record choice_host =
  ch_agent :: string
  ch_updates :: bool
  ch_answerer :: bool

definition dispatch_choice :: "choice_host \<Rightarrow> conv \<Rightarrow> string \<Rightarrow> host_effect list" where
  "dispatch_choice h c words =
     (if has_prefix words platform_answer_prefix then (if ch_answerer h then [PlatformAnswers (ch_agent h) c words] else [])
      else [HandedOn (ch_agent h) (words_of c words)])"

definition tap_target :: "choice_host \<Rightarrow> inbound \<Rightarrow> proposal list \<Rightarrow> (proposal \<times> int) option" where
  "tap_target h msg rows =
     (case ib_callback msg of
        None \<Rightarrow> None
      | Some cb \<Rightarrow>
          (case parse_proposal_data (cb_data cb) of
             None \<Rightarrow> None
           | Some (pid, i) \<Rightarrow>
               (case get_proposal pid rows of
                  None \<Rightarrow> None
                | Some p \<Rightarrow>
                    if pp_agent p \<noteq> ch_agent h \<or> cv_user (ib_conv msg) = [] \<or> cv_user (ib_conv msg) \<noteq> pp_person p then None
                    else Some (p, i))))"

definition tap_conv :: "inbound \<Rightarrow> proposal \<Rightarrow> conv" where
  "tap_conv msg p =
     \<lparr>cv_provider = cv_provider (ib_conv msg), cv_chat = pp_chat p, cv_thread = pp_thread p, cv_identity = pp_identity p,
      cv_user = pp_person p, cv_message = [], cv_sender = cv_sender (ib_conv msg), cv_shared = False\<rparr>"

definition show_text :: "choice_host \<Rightarrow> conv \<Rightarrow> proposal \<Rightarrow> string \<Rightarrow> host_effect list" where
  "show_text h c p note_text =
     (if ch_updates h then [ShownText c (pp_message p) (pp_text p @ [CHR 0x0A, CHR 0x0A] @ note_text)] else [])"

definition stopwatch :: string where
  "stopwatch = [CHR 0xE2, CHR 0x8F, CHR 0xB1]"

definition ticked :: string where
  "ticked = [CHR 0xE2, CHR 0x9C, CHR 0x85]"

definition settle_tap :: "choice_host \<Rightarrow> conv \<Rightarrow> proposal \<Rightarrow> int \<Rightarrow> (choose_error + proposal) \<Rightarrow> host_effect list" where
  "settle_tap h c p i res =
     (case res of
        Inr chosen \<Rightarrow>
          (let choice = pp_choices chosen ! nat i
           in show_text h c p (ticked @ '' '' @ ch_label choice) @ dispatch_choice h c (ch_say choice))
      | Inl PropChosen \<Rightarrow> []
      | Inl PropExpired \<Rightarrow> show_text h c p (stopwatch @ '' These options have expired.'')
      | Inl PropNotFound \<Rightarrow> [])"

text \<open>The first choice a typed text is: by its number, where the platform answers them all, or by its label.\<close>

definition by_number :: "proposal \<Rightarrow> string \<Rightarrow> int" where
  "by_number p t =
     (case atoi (trim_any ''.) '' t) of
        None \<Rightarrow> -1
      | Some n \<Rightarrow> if 1 \<le> n \<and> n \<le> int (length (pp_choices p)) \<and> platform_answered (pp_choices p) then n - 1 else -1)"

definition typed_index :: "proposal \<Rightarrow> string \<Rightarrow> int option" where
  "typed_index p t =
     map_option (\<lambda>(i, c). int i)
       (find (\<lambda>(i, c). int i = by_number p t \<or> equal_fold (trim_space (ch_label c)) t) (enumerate 0 (pp_choices p)))"

definition open_here :: "choice_host \<Rightarrow> inbound \<Rightarrow> int \<Rightarrow> proposal list \<Rightarrow> proposal option" where
  "open_here h msg now rows =
     latest_open_proposal (ch_agent h) (cv_identity (ib_conv msg)) (cv_chat (ib_conv msg)) now rows"

definition typed_target :: "choice_host \<Rightarrow> inbound \<Rightarrow> int \<Rightarrow> proposal list \<Rightarrow> (proposal \<times> int) option" where
  "typed_target h msg now rows =
     (if cv_user (ib_conv msg) = [] \<or> trim_space (ib_text msg) = [] then None
      else case open_here h msg now rows of
          None \<Rightarrow> None
        | Some p \<Rightarrow> if pp_person p \<noteq> cv_user (ib_conv msg) then None
                    else map_option (\<lambda>i. (p, i)) (typed_index p (trim_space (ib_text msg))))"

text \<open>What a typed choice does; \<^verbatim>\<open>None\<close>: it was answered a moment ago, or run out, and is an ordinary message.\<close>

definition settle_typed :: "choice_host \<Rightarrow> conv \<Rightarrow> int \<Rightarrow> (choose_error + proposal) \<Rightarrow> host_effect list option" where
  "settle_typed h c i res =
     (case res of Inr chosen \<Rightarrow> Some (dispatch_choice h c (ch_say (pp_choices chosen ! nat i))) | Inl _ \<Rightarrow> None)"

text \<open>\<^verbatim>\<open>retireChoices\<close>: the proposal an ordinary message ends.\<close>

definition retire_target :: "choice_host \<Rightarrow> inbound \<Rightarrow> int \<Rightarrow> proposal list \<Rightarrow> proposal option" where
  "retire_target h msg now rows =
     (if ib_callback msg \<noteq> None \<or> cv_user (ib_conv msg) = [] then None
      else case open_here h msg now rows of
          None \<Rightarrow> None
        | Some p \<Rightarrow> if pp_person p \<noteq> cv_user (ib_conv msg) \<or> pp_message p = [] then None else Some p)"

text \<open>
  A message as \<^verbatim>\<open>handleInbound\<close> (\<^verbatim>\<open>runtime/listen.go\<close>) takes it, when nothing comes between: a
  typed choice, or else the choices offered before are over and it goes on as an ordinary message.
\<close>

definition handle_words :: "choice_host \<Rightarrow> inbound \<Rightarrow> int \<Rightarrow> proposal list \<Rightarrow> host_effect list option \<times> proposal list" where
  "handle_words h msg now rows =
     (let (taken, rows1) =
        (case typed_target h msg now rows of
           None \<Rightarrow> (None, rows)
         | Some (p, i) \<Rightarrow>
             (let rows' = snd (choose_row (pp_id p) i now rows)
              in (settle_typed h (ib_conv msg) i (choose_proposal (pp_id p) i now rows rows'), rows')))
      in if taken \<noteq> None then (taken, rows1)
         else (None, case retire_target h msg now rows1 of None \<Rightarrow> rows1 | Some p \<Rightarrow> close_proposal (pp_id p) now rows1))"

definition handle_tap :: "choice_host \<Rightarrow> inbound \<Rightarrow> int \<Rightarrow> proposal list \<Rightarrow> host_effect list \<times> proposal list" where
  "handle_tap h msg now rows =
     (case tap_target h msg rows of
        None \<Rightarrow> ([], rows)
      | Some (p, i) \<Rightarrow>
          (let rows' = snd (choose_row (pp_id p) i now rows)
           in (settle_tap h (tap_conv msg p) p i (choose_proposal (pp_id p) i now rows rows'), rows')))"

section \<open>Everything at once\<close>

text \<open>
  Taps and messages of every agent and chat, in every order: what has been looked up is kept until it is
  chosen from. \<open>cw_log\<close> is what each choosing did, with the proposal and the time it was chosen at.
\<close>

record looked =
  lk_host :: choice_host
  lk_conv :: conv
  lk_proposal :: proposal
  lk_index :: int
  lk_tap :: bool

record choice_world =
  cw_rows :: "proposal list"
  cw_used :: "string list"
  cw_offers :: "proposal list"
  cw_looked :: "looked list"
  cw_log :: "(string \<times> int \<times> host_effect list) list"

definition no_choices :: choice_world where
  "no_choices = \<lparr>cw_rows = [], cw_used = [], cw_offers = [], cw_looked = [], cw_log = []\<rparr>"

datatype choice_event =
    CeOffer string string conv string string "choice list" int   \<comment> \<open>id, agent, where, message, text, choices, when\<close>
  | CeTap choice_host inbound
  | CeTyped choice_host inbound int
  | CeChoose nat int "proposal list"     \<comment> \<open>which of the looked up; when; the table when a failure is explained\<close>
  | CeRetire string int
  | CeClean int

definition look :: "choice_host \<Rightarrow> conv \<Rightarrow> bool \<Rightarrow> proposal \<times> int \<Rightarrow> looked" where
  "look h c tap found = \<lparr>lk_host = h, lk_conv = c, lk_proposal = fst found, lk_index = snd found, lk_tap = tap\<rparr>"

definition settle :: "looked \<Rightarrow> (choose_error + proposal) \<Rightarrow> host_effect list" where
  "settle l res =
     (if lk_tap l then settle_tap (lk_host l) (lk_conv l) (lk_proposal l) (lk_index l) res
      else (case settle_typed (lk_host l) (lk_conv l) (lk_index l) res of None \<Rightarrow> [] | Some es \<Rightarrow> es))"

fun choice_step :: "choice_event \<Rightarrow> choice_world \<Rightarrow> choice_world" where
  "choice_step (CeOffer pid agent c message content choices now) w =
     (if pid \<in> set (cw_used w) then w
      else let p = new_proposal pid agent c message content choices now
           in w\<lparr>cw_rows := save_proposal now p (cw_rows w), cw_used := pid # cw_used w, cw_offers := p # cw_offers w\<rparr>)"
| "choice_step (CeTap h msg) w =
     (case tap_target h msg (cw_rows w) of
        None \<Rightarrow> w
      | Some found \<Rightarrow> w\<lparr>cw_looked := cw_looked w @ [look h (tap_conv msg (fst found)) True found]\<rparr>)"
| "choice_step (CeTyped h msg now) w =
     (case typed_target h msg now (cw_rows w) of
        None \<Rightarrow> w
      | Some found \<Rightarrow> w\<lparr>cw_looked := cw_looked w @ [look h (ib_conv msg) False found]\<rparr>)"
| "choice_step (CeChoose k now later) w =
     (if length (cw_looked w) \<le> k then w
      else let l = cw_looked w ! k; pid = pp_id (lk_proposal l)
           in w\<lparr>cw_rows := snd (choose_row pid (lk_index l) now (cw_rows w)),
                cw_looked := take k (cw_looked w) @ drop (Suc k) (cw_looked w),
                cw_log := cw_log w @ [(pid, now, settle l (choose_proposal pid (lk_index l) now (cw_rows w) later))]\<rparr>)"
| "choice_step (CeRetire pid now) w = w\<lparr>cw_rows := close_proposal pid now (cw_rows w)\<rparr>"
| "choice_step (CeClean t) w = w\<lparr>cw_rows := snd (delete_expired t (cw_rows w))\<rparr>"

definition choice_run :: "choice_event list \<Rightarrow> choice_world" where
  "choice_run evs = foldl (\<lambda>w e. choice_step e w) no_choices evs"

end
