(* ===== verification/Choice_Facts.thy ===== *)
theory Choice_Facts
  imports Choice_Host
begin

text \<open>
  Facts about proposals: reading a button's data back, the choices that are kept, and the invariant of
  the world of choices, which every tap, message, offer and clean-up keeps.
\<close>

section \<open>Button data\<close>

lemma cut_last_append: "c \<notin> set b \<Longrightarrow> cut_last c (a @ c # b) = Some (a, b)"
  by (simp add: cut_last_def dropWhile_append3 takeWhile_append2 dropWhile_append takeWhile_append)

lemma cut_last_whole: "cut_last c s = Some (a, b) \<Longrightarrow> s = a @ c # b"
proof -
  assume cut: "cut_last c s = Some (a, b)"
  let ?t = "takeWhile (\<lambda>x. x \<noteq> c) (rev s)" and ?d = "dropWhile (\<lambda>x. x \<noteq> c) (rev s)"
  have in_s: "c \<in> set (rev s)" and a: "a = rev (drop 1 ?d)" and b: "b = rev ?t"
    using cut by (auto simp: cut_last_def split: if_splits)
  have "?d \<noteq> [] \<and> hd ?d = c" using in_s hd_dropWhile [of "\<lambda>x. x \<noteq> c" "rev s"] by (auto simp: dropWhile_eq_Nil_conv)
  then have "?d = c # drop 1 ?d" by (cases ?d) auto
  moreover have "rev s = ?t @ ?d" by simp
  ultimately have "rev s = ?t @ c # drop 1 ?d" by simp
  then have "s = rev (?t @ c # drop 1 ?d)" by (metis rev_rev_ident)
  then show ?thesis by (simp add: a b)
qed

lemma int_digits_not_Nil [simp]: "int_digits n \<noteq> []"
  by (subst int_digits.simps) simp

lemma itoa_digits: "0 \<le> i \<Longrightarrow> c \<in> set (itoa i) \<Longrightarrow> is_digit c"
  using int_digits_digits by (auto simp: itoa_def)

lemma digit_not: "is_digit c \<Longrightarrow> c \<noteq> CHR '':'' \<and> c \<noteq> CHR ''-'' \<and> c \<noteq> CHR ''+'' \<and> c \<noteq> CHR '' '' \<and> c \<noteq> CHR 0x09"
  by (auto simp: is_digit_def byte_def)

lemma read_int_itoa: "0 \<le> i \<Longrightarrow> read_int (itoa i) = (if int64_range i then Some (i, []) else None)"
proof -
  assume i: "0 \<le> i"
  then have ds: "\<forall>c\<in>set (itoa i). is_digit c" using itoa_digits by blast
  have ne: "itoa i \<noteq> []" using i by (simp add: itoa_def)
  then have "is_digit (hd (itoa i))" using ds by simp
  then have "hd (itoa i) \<noteq> CHR ''-'' \<and> hd (itoa i) \<noteq> CHR ''+''" using digit_not by blast
  moreover have "takeWhile is_digit (itoa i) = itoa i" "dropWhile is_digit (itoa i) = []"
    using ds by (simp_all add: takeWhile_eq_all_conv dropWhile_eq_Nil_conv)
  moreover have "digits_val (itoa i) = i" using i by (simp add: itoa_def digits_val_int_digits)
  ultimately show ?thesis using ne
    by (simp add: read_int_def Let_def del: takeWhile_eq_all_conv dropWhile_eq_Nil_conv)
qed

lemma scan_int_itoa: "0 \<le> i \<Longrightarrow> int64_range i \<Longrightarrow> scan_int (itoa i) = Some i"
proof -
  assume i: "0 \<le> i" "int64_range i"
  have "itoa i \<noteq> []" using i by (simp add: itoa_def)
  then have "is_digit (hd (itoa i))" using i itoa_digits by simp
  then have "dropWhile (\<lambda>c. c = CHR '' '' \<or> c = CHR 0x09) (itoa i) = itoa i"
    using digit_not by (cases "itoa i") auto
  then show ?thesis using i by (simp add: scan_int_def read_int_itoa)
qed

lemma scan_int_range: "scan_int s = Some n \<Longrightarrow> int64_range n"
  by (auto simp: scan_int_def read_int_def Let_def split: if_splits)

lemma colon_not_in_itoa: "CHR '':'' \<notin> set (itoa i)"
proof -
  have "CHR '':'' \<notin> set (int_digits n)" if "0 \<le> n" for n using that int_digits_digits digit_not by blast
  then show ?thesis by (simp add: itoa_def)
qed

lemma button_data_parsed:
  assumes "pid \<noteq> []" "0 \<le> i" "int64_range i"
  shows "parse_proposal_data (proposal_data pid i) = Some (pid, i)"
proof -
  have "cut_last (CHR '':'') (pid @ CHR '':'' # itoa i) = Some (pid, itoa i)"
    by (simp add: cut_last_append colon_not_in_itoa)
  then show ?thesis using assms by (simp add: parse_proposal_data_def proposal_data_def scan_int_itoa)
qed

lemma parsed_button_data:
  assumes "parse_proposal_data d = Some (pid, i)"
  shows "d = proposal_data pid i \<and> pid \<noteq> [] \<and> 0 \<le> i \<and> int64_range i"
proof -
  from assms have pre: "has_prefix d proposal_callback_prefix"
    and cut: "cut_last (CHR '':'') (drop (length proposal_callback_prefix) d) = Some (pid, itoa i)"
    and rest: "pid \<noteq> []" "0 \<le> i" "scan_int (itoa i) = Some i"
    by (auto simp: parse_proposal_data_def split: if_splits option.splits)
  have "d = proposal_callback_prefix @ drop (length proposal_callback_prefix) d"
    using pre by (metis append_take_drop_id has_prefix_def)
  also have "drop (length proposal_callback_prefix) d = pid @ CHR '':'' # itoa i" using cut by (rule cut_last_whole)
  finally show ?thesis using rest scan_int_range by (simp add: proposal_data_def)
qed

lemma proposal_data_id: "proposal_data pid i = proposal_data pid' j \<Longrightarrow> pid = pid'"
proof -
  assume "proposal_data pid i = proposal_data pid' j"
  then have "pid @ CHR '':'' # itoa i = pid' @ CHR '':'' # itoa j" by (simp add: proposal_data_def)
  then have "cut_last (CHR '':'') (pid @ CHR '':'' # itoa i) = cut_last (CHR '':'') (pid' @ CHR '':'' # itoa j)" by simp
  then show ?thesis by (simp add: cut_last_append colon_not_in_itoa)
qed

section \<open>The choices that are kept\<close>

definition good_choice :: "choice \<Rightarrow> bool" where
  "good_choice c \<longleftrightarrow> ch_label c \<noteq> [] \<and> ch_say c \<noteq> [] \<and>
     rune_count (ch_label c) \<le> max_choice_label_runes \<and> rune_count (ch_say c) \<le> max_choice_say_runes"

lemma with_timing_good:
  "label \<noteq> [] \<Longrightarrow> rune_count label \<le> max_choice_label_runes \<Longrightarrow>
     with_timing label s \<noteq> [] \<and> rune_count (with_timing label s) \<le> max_choice_label_runes"
  by (auto simp: with_timing_def Let_def)

lemma keep_choices_good:
  "(\<forall>c\<in>set (keep_choices seen items). good_choice c) \<and>
   distinct (map (to_lower \<circ> ch_label) (keep_choices seen items)) \<and>
   (to_lower \<circ> ch_label) ` set (keep_choices seen items) \<inter> set seen = {}"
proof (induction seen items rule: keep_choices.induct)
  case (2 seen item items)
  let ?l = "join '' '' (Go_Strings.fields (item_text item ''label''))" and ?s = "trim_space (item_text item ''say'')"
  show ?case
  proof (cases "?l = [] \<or> ?s = [] \<or> max_choice_label_runes < rune_count ?l \<or> max_choice_say_runes < rune_count ?s")
    case True
    then show ?thesis using "2.IH"(1) [OF refl refl True] by (simp add: Let_def)
  next
    case False
    show ?thesis
    proof (cases "to_lower (with_timing ?l ?s) \<in> set seen")
      case True
      then show ?thesis using "2.IH"(2) [OF refl refl False refl refl True] False by (simp add: Let_def)
    next
      case new: False
      have good: "good_choice \<lparr>ch_label = with_timing ?l ?s, ch_say = ?s\<rparr>"
        using False with_timing_good [of ?l ?s] by (simp add: good_choice_def)
      have "keep_choices seen (item # items) =
          \<lparr>ch_label = with_timing ?l ?s, ch_say = ?s\<rparr> # keep_choices (to_lower (with_timing ?l ?s) # seen) items"
        using False new by (simp add: Let_def)
      then show ?thesis using "2.IH"(3) [OF refl refl False refl refl new] good new by auto
    qed
  qed
qed simp

section \<open>The table\<close>

definition of_offer :: "proposal \<Rightarrow> proposal \<Rightarrow> bool" where
  "of_offer p off \<longleftrightarrow> pp_id p = pp_id off \<and> pp_person p = pp_person off \<and> pp_agent p = pp_agent off \<and>
     pp_choices p = pp_choices off \<and> pp_expires p \<le> pp_expires off"

lemma get_proposal_Some: "get_proposal pid rows = Some p \<Longrightarrow> p \<in> set rows \<and> pp_id p = pid"
  by (auto simp: get_proposal_def dest: find_Some_mem)

lemma get_proposal_None: "get_proposal pid rows = None \<longleftrightarrow> pid \<notin> pp_id ` set rows"
  by (auto simp: get_proposal_def find_None_all)

lemma newest_mem: "newest ps = Some p \<Longrightarrow> p \<in> set ps"
  by (induction ps arbitrary: p) (auto split: option.splits if_splits)

lemma open_here_mem:
  "open_here h msg now rows = Some p \<Longrightarrow>
     p \<in> set rows \<and> is_open (ch_agent h) (cv_identity (ib_conv msg)) (cv_chat (ib_conv msg)) now p"
  by (auto simp: open_here_def latest_open_proposal_def dest: newest_mem)

lemma choose_row_Some:
  "fst (choose_row pid i now rows) = Some q \<Longrightarrow>
     \<exists>p\<in>set rows. pp_id p = pid \<and> can_choose i now p \<and> q = mark_chosen i now p"
  by (auto simp: choose_row_def dest: find_Some_mem)

lemma mark_chosen_fields [simp]:
  "pp_id (mark_chosen i now p) = pp_id p" "pp_choices (mark_chosen i now p) = pp_choices p"
  "pp_person (mark_chosen i now p) = pp_person p" "pp_agent (mark_chosen i now p) = pp_agent p"
  "pp_expires (mark_chosen i now p) = pp_expires p" "pp_chosen (mark_chosen i now p) = Some i"
  by (simp_all add: mark_chosen_def)

lemma choose_row_ids [simp]: "map pp_id (snd (choose_row pid i now rows)) = map pp_id rows"
  by (simp add: choose_row_def)

lemma close_proposal_ids [simp]: "map pp_id (close_proposal pid now rows) = map pp_id rows"
  by (simp add: close_proposal_def)

lemma save_new: "pp_id p \<notin> pp_id ` set rows \<Longrightarrow>
   save_proposal now p rows = rows @ [p\<lparr>pp_created := now, pp_chosen := None, pp_chosen_at := None\<rparr>]"
  by (simp add: save_proposal_def get_proposal_None)

section \<open>What a choosing carries out\<close>

fun carried :: "host_effect \<Rightarrow> (string \<times> conv \<times> string) option" where
  "carried (ShownText c m t) = None"
| "carried (HandedOn agent msg) = Some (agent, ib_conv msg, ib_text msg)"
| "carried (PlatformAnswers agent c t) = Some (agent, c, t)"

definition carries :: "host_effect list \<Rightarrow> bool" where
  "carries es \<longleftrightarrow> (\<exists>e\<in>set es. carried e \<noteq> None)"

lemma carried_dispatch:
  "e \<in> set (dispatch_choice h c t) \<Longrightarrow> carried e = Some x \<Longrightarrow> x = (ch_agent h, c, t)"
  by (auto simp: dispatch_choice_def words_of_def split: if_splits)

lemma carried_settle:
  "e \<in> set (settle l res) \<Longrightarrow> carried e = Some x \<Longrightarrow>
     \<exists>q. res = Inr q \<and> x = (ch_agent (lk_host l), lk_conv l, ch_say (pp_choices q ! nat (lk_index l)))"
  by (auto simp: settle_def settle_tap_def settle_typed_def show_text_def Let_def
      split: if_splits sum.splits choose_error.splits dest: carried_dispatch)

section \<open>The invariant\<close>

definition rows_offered :: "choice_world \<Rightarrow> bool" where
  "rows_offered w \<longleftrightarrow> distinct (map pp_id (cw_rows w)) \<and> pp_id ` set (cw_offers w) \<subseteq> set (cw_used w) \<and>
     distinct (map pp_id (cw_offers w)) \<and> (\<forall>p\<in>set (cw_rows w). \<exists>off\<in>set (cw_offers w). of_offer p off)"

definition looked_offered :: "choice_world \<Rightarrow> bool" where
  "looked_offered w \<longleftrightarrow> (\<forall>l\<in>set (cw_looked w). (\<exists>off\<in>set (cw_offers w). of_offer (lk_proposal l) off) \<and>
     cv_user (lk_conv l) = pp_person (lk_proposal l) \<and> ch_agent (lk_host l) = pp_agent (lk_proposal l))"

definition log_offered :: "choice_world \<Rightarrow> bool" where
  "log_offered w \<longleftrightarrow> (\<forall>(pid, t, es)\<in>set (cw_log w). \<forall>e\<in>set es. \<forall>agent c words.
     carried e = Some (agent, c, words) \<longrightarrow>
       (\<exists>off\<in>set (cw_offers w). pp_id off = pid \<and> t < pp_expires off \<and> pp_agent off = agent \<and>
          pp_person off = cv_user c \<and> words \<in> ch_say ` set (pp_choices off)))"

definition log_once :: "choice_world \<Rightarrow> bool" where
  "log_once w \<longleftrightarrow> distinct (map fst (filter (\<lambda>(pid, t, es). carries es) (cw_log w))) \<and>
     (\<forall>(pid, t, es)\<in>set (cw_log w). carries es \<longrightarrow>
        pid \<in> set (cw_used w) \<and> (\<forall>p\<in>set (cw_rows w). pp_id p = pid \<longrightarrow> pp_chosen p \<noteq> None))"

lemmas choice_invs = rows_offered_def looked_offered_def log_offered_def log_once_def

lemma choice_run_invariant:
  assumes "P no_choices" and "\<And>e w. P w \<Longrightarrow> P (choice_step e w)"
  shows "P (choice_run evs)"
  by (induction evs rule: rev_induct) (simp_all add: choice_run_def assms)

lemma tap_target_Some:
  "tap_target h msg rows = Some (p, i) \<Longrightarrow>
     p \<in> set rows \<and> pp_agent p = ch_agent h \<and> cv_user (ib_conv msg) = pp_person p"
  by (auto simp: tap_target_def split: option.splits if_splits dest!: get_proposal_Some)

lemma typed_target_Some:
  "typed_target h msg now rows = Some (p, i) \<Longrightarrow>
     p \<in> set rows \<and> pp_agent p = ch_agent h \<and> cv_user (ib_conv msg) = pp_person p"
  by (auto simp: typed_target_def is_open_def split: option.splits if_splits dest!: open_here_mem)

lemma rows_offered_step: "rows_offered w \<Longrightarrow> rows_offered (choice_step e w)"
proof (cases e)
  case (CeOffer pid agent c message content choices now)
  let ?p = "new_proposal pid agent c message content choices now"
  assume inv: "rows_offered w"
  show ?thesis
  proof (cases "pid \<in> set (cw_used w)")
    case False
    have "pid \<notin> pp_id ` set (cw_rows w)" using inv False by (fastforce simp: rows_offered_def of_offer_def)
    moreover have "pp_id ?p = pid" by (simp add: new_proposal_def)
    ultimately have "save_proposal now ?p (cw_rows w) = cw_rows w @ [?p\<lparr>pp_created := now, pp_chosen := None, pp_chosen_at := None\<rparr>]"
      by (simp add: save_new)
    then show ?thesis using inv False \<open>pid \<notin> pp_id ` set (cw_rows w)\<close>
      by (auto simp: CeOffer rows_offered_def of_offer_def new_proposal_def Let_def)
  qed (simp add: CeOffer inv)
next
  case (CeChoose k now later)
  assume inv: "rows_offered w"
  have "\<exists>off\<in>set (cw_offers w). of_offer q off" if "q \<in> set (snd (choose_row pid i now (cw_rows w)))" for q pid i
  proof -
    from that obtain p where "p \<in> set (cw_rows w)" "q = p \<or> q = mark_chosen i now p" by (auto simp: choose_row_def)
    then show ?thesis using inv by (auto simp: rows_offered_def of_offer_def)
  qed
  then show ?thesis using inv by (simp add: CeChoose rows_offered_def Let_def)
next
  case (CeRetire pid now)
  assume inv: "rows_offered w"
  have "\<exists>off\<in>set (cw_offers w). of_offer q off" if "q \<in> set (close_proposal pid now (cw_rows w))" for q
  proof -
    from that obtain p where "p \<in> set (cw_rows w)" "q = p \<or> q = p\<lparr>pp_expires := min (pp_expires p) now\<rparr>"
      by (auto simp: close_proposal_def split: if_splits)
    then show ?thesis using inv by (fastforce simp: rows_offered_def of_offer_def)
  qed
  then show ?thesis using inv by (simp add: CeRetire rows_offered_def)
next
  case (CeClean t)
  assume "rows_offered w"
  then show ?thesis by (simp add: CeClean rows_offered_def delete_expired_def distinct_map_filter)
qed (auto simp: rows_offered_def split: option.split)

lemma looked_step:
  assumes "rows_offered w" "looked_offered w"
  shows "looked_offered (choice_step e w)"
proof (cases e)
  case (CeOffer pid agent c message content choices now)
  then show ?thesis using assms(2) by (auto simp: looked_offered_def Let_def)
next
  case (CeTap h msg)
  show ?thesis
  proof (cases "tap_target h msg (cw_rows w)")
    case (Some found)
    then have "fst found \<in> set (cw_rows w) \<and> pp_agent (fst found) = ch_agent h" using tap_target_Some by (metis prod.collapse)
    then show ?thesis using assms Some by (auto simp: CeTap looked_offered_def look_def tap_conv_def rows_offered_def)
  qed (simp add: CeTap assms)
next
  case (CeTyped h msg now)
  show ?thesis
  proof (cases "typed_target h msg now (cw_rows w)")
    case (Some found)
    then have "fst found \<in> set (cw_rows w) \<and> pp_agent (fst found) = ch_agent h \<and> cv_user (ib_conv msg) = pp_person (fst found)"
      using typed_target_Some by (metis prod.collapse)
    then show ?thesis using assms Some by (auto simp: CeTyped looked_offered_def look_def rows_offered_def)
  qed (simp add: CeTyped assms)
next
  case (CeChoose k now later)
  then show ?thesis using assms(2) by (auto simp: looked_offered_def Let_def dest: in_set_takeD in_set_dropD)
qed (use assms in \<open>simp_all add: looked_offered_def\<close>)

text \<open>What choosing the \<open>k\<close>-th of those looked up carries out.\<close>

lemma choosing_carries:
  assumes k: "k < length (cw_looked w)" and l: "l = cw_looked w ! k"
    and e: "e \<in> set (settle l (choose_proposal (pp_id (lk_proposal l)) (lk_index l) now (cw_rows w) later))" "carried e = Some x"
  shows "\<exists>p\<in>set (cw_rows w). pp_id p = pp_id (lk_proposal l) \<and> can_choose (lk_index l) now p \<and>
           x = (ch_agent (lk_host l), lk_conv l, ch_say (pp_choices p ! nat (lk_index l)))"
proof -
  obtain q where q: "choose_proposal (pp_id (lk_proposal l)) (lk_index l) now (cw_rows w) later = Inr q"
    and x: "x = (ch_agent (lk_host l), lk_conv l, ch_say (pp_choices q ! nat (lk_index l)))"
    using carried_settle [OF e] by blast
  then have "fst (choose_row (pp_id (lk_proposal l)) (lk_index l) now (cw_rows w)) = Some q"
    by (simp add: choose_proposal_def split: option.splits)
  then show ?thesis using x by (auto dest!: choose_row_Some)
qed

lemma log_offered_step:
  assumes "rows_offered w" "looked_offered w" "log_offered w"
  shows "log_offered (choice_step e w)"
proof (cases e)
  case (CeChoose k now later)
  show ?thesis
  proof (cases "length (cw_looked w) \<le> k")
    case False
    let ?l = "cw_looked w ! k"
    let ?es = "settle ?l (choose_proposal (pp_id (lk_proposal ?l)) (lk_index ?l) now (cw_rows w) later)"
    have "\<exists>off\<in>set (cw_offers w). pp_id off = pp_id (lk_proposal ?l) \<and> now < pp_expires off \<and> pp_agent off = agent \<and>
        pp_person off = cv_user c \<and> words \<in> ch_say ` set (pp_choices off)"
      if ev: "ev \<in> set ?es" "carried ev = Some (agent, c, words)" for ev agent c words
    proof -
      obtain p where p: "p \<in> set (cw_rows w)" "pp_id p = pp_id (lk_proposal ?l)" "can_choose (lk_index ?l) now p"
        and x: "agent = ch_agent (lk_host ?l)" "c = lk_conv ?l" "words = ch_say (pp_choices p ! nat (lk_index ?l))"
        using choosing_carries [OF _ refl ev] False by auto
      obtain off where off: "off \<in> set (cw_offers w)" "of_offer p off" using assms(1) p(1) by (auto simp: rows_offered_def)
      have "?l \<in> set (cw_looked w)" using False by simp
      then obtain off' where off': "off' \<in> set (cw_offers w)" "of_offer (lk_proposal ?l) off'"
        and lk: "cv_user (lk_conv ?l) = pp_person (lk_proposal ?l)" "ch_agent (lk_host ?l) = pp_agent (lk_proposal ?l)"
        using assms(2) by (auto simp: looked_offered_def)
      have "pp_id off = pp_id off'" using off off' p by (simp add: of_offer_def)
      then have same: "off' = off" using assms(1) off(1) off'(1) by (auto simp: rows_offered_def distinct_map dest: inj_onD)
      have "nat (lk_index ?l) < length (pp_choices p)" using p(3) by (simp add: can_choose_def nat_less_iff)
      then show ?thesis using off off' lk x p same by (intro bexI [of _ off]) (auto simp: of_offer_def can_choose_def)
    qed
    then show ?thesis using assms(3) False by (auto simp: CeChoose log_offered_def Let_def)
  qed (simp add: CeChoose assms)
next
  case (CeOffer pid agent c message content choices now)
  then show ?thesis using assms(3) by (fastforce simp: log_offered_def Let_def)
qed (use assms in \<open>auto simp: log_offered_def split: option.split\<close>)

lemma log_once_step:
  assumes "rows_offered w" "log_once w"
  shows "log_once (choice_step e w)"
proof (cases e)
  case (CeOffer pid agent c message content choices now)
  let ?p = "new_proposal pid agent c message content choices now"
  show ?thesis
  proof (cases "pid \<in> set (cw_used w)")
    case False
    have "pid \<notin> pp_id ` set (cw_rows w)" using assms(1) False by (fastforce simp: rows_offered_def of_offer_def)
    moreover have "pp_id ?p = pid" by (simp add: new_proposal_def)
    ultimately have "save_proposal now ?p (cw_rows w) = cw_rows w @ [?p\<lparr>pp_created := now, pp_chosen := None, pp_chosen_at := None\<rparr>]"
      by (simp add: save_new)
    then show ?thesis using assms(2) False \<open>pp_id ?p = pid\<close> by (auto simp: CeOffer log_once_def Let_def)
  qed (simp add: CeOffer assms)
next
  case (CeChoose k now later)
  show ?thesis
  proof (cases "length (cw_looked w) \<le> k")
    case False
    let ?l = "cw_looked w ! k" and ?rows = "snd (choose_row (pp_id (lk_proposal (cw_looked w ! k))) (lk_index (cw_looked w ! k)) now (cw_rows w))"
    let ?es = "settle ?l (choose_proposal (pp_id (lk_proposal ?l)) (lk_index ?l) now (cw_rows w) later)"
    have kept: "pp_chosen q \<noteq> None"
      if "q \<in> set ?rows" "\<forall>p\<in>set (cw_rows w). pp_id p = pp_id q \<longrightarrow> pp_chosen p \<noteq> None" for q
      using that by (auto simp: choose_row_def split: if_splits)
    have new: "pp_id (lk_proposal ?l) \<notin> fst ` set (filter (\<lambda>(pid, t, es). carries es) (cw_log w)) \<and>
        pp_id (lk_proposal ?l) \<in> set (cw_used w) \<and>
        (\<forall>q\<in>set ?rows. pp_id q = pp_id (lk_proposal ?l) \<longrightarrow> pp_chosen q \<noteq> None)" if carries: "carries ?es"
    proof -
      obtain ev x where "ev \<in> set ?es" "carried ev = Some x" using carries by (auto simp: carries_def)
      then obtain p where p: "p \<in> set (cw_rows w)" "pp_id p = pp_id (lk_proposal ?l)" "can_choose (lk_index ?l) now p"
        using choosing_carries [OF _ refl] False by (metis not_le)
      have "pp_chosen p = None" using p(3) by (simp add: can_choose_def)
      then have "pp_id (lk_proposal ?l) \<notin> fst ` set (filter (\<lambda>(pid, t, es). carries es) (cw_log w))"
        using assms(2) p(1,2) by (fastforce simp: log_once_def)
      moreover have "pp_id p \<in> set (cw_used w)" using assms(1) p(1) by (fastforce simp: rows_offered_def of_offer_def)
      moreover have "pp_chosen q \<noteq> None" if "q \<in> set ?rows" "pp_id q = pp_id (lk_proposal ?l)" for q
      proof -
        have "distinct (map pp_id ?rows)" using assms(1) by (simp add: rows_offered_def)
        then have inj: "inj_on pp_id (set ?rows)" by (simp only: distinct_map)
        have "mark_chosen (lk_index ?l) now p \<in> set ?rows" using p by (auto simp: choose_row_def)
        then have "q = mark_chosen (lk_index ?l) now p" using inj_onD [OF inj] that p(2) by simp
        then show ?thesis by simp
      qed
      ultimately show ?thesis using p(2) by simp
    qed
    have old: "pid \<in> set (cw_used w) \<and> (\<forall>q\<in>set ?rows. pp_id q = pid \<longrightarrow> pp_chosen q \<noteq> None)"
      if "(pid, t, es) \<in> set (cw_log w)" "carries es" for pid t es
      using assms(2) that kept by (fastforce simp: log_once_def)
    show ?thesis using assms(2) False new old by (auto simp: CeChoose log_once_def Let_def)
  qed (simp add: CeChoose assms)
next
  case (CeRetire pid now)
  have "pp_chosen q \<noteq> None" if "q \<in> set (close_proposal pid now (cw_rows w))"
      "\<forall>p\<in>set (cw_rows w). pp_id p = pp_id q \<longrightarrow> pp_chosen p \<noteq> None" for q
    using that by (auto simp: close_proposal_def split: if_splits)
  then show ?thesis using assms(2) by (fastforce simp: CeRetire log_once_def)
next
  case (CeClean t)
  then show ?thesis using assms(2) by (auto simp: log_once_def delete_expired_def)
qed (use assms in \<open>auto simp: log_once_def split: option.split\<close>)

theorem choice_invariant:
  "rows_offered (choice_run evs) \<and> looked_offered (choice_run evs) \<and> log_offered (choice_run evs) \<and> log_once (choice_run evs)"
  by (rule choice_run_invariant)
    (auto simp: no_choices_def choice_invs [of no_choices, unfolded no_choices_def]
      intro: rows_offered_step looked_step log_offered_step log_once_step)

end
