(* ===== verification/Choice_Claims.thy ===== *)
theory Choice_Claims
  imports Choice_Facts
begin

text \<open>
  What holds of choices: what a button's data says, which choices are kept, that a choice is carried out
  once and is one that was offered to that person, that a button does what it says; and what is left open.
\<close>

section \<open>Buttons and choices\<close>

text \<open>
  The data of a button is read back as the proposal and the position it was made for, and nothing
  else is taken for a button: any other text is refused.
\<close>

theorem button_data_roundtrip:
  "parse_proposal_data d = Some (pid, i) \<longleftrightarrow> d = proposal_data pid i \<and> pid \<noteq> [] \<and> 0 \<le> i \<and> int64_range i"
  using button_data_parsed parsed_button_data by blast

text \<open>
  Whatever an agent gives as choices, what is kept is nothing at all or two to five choices, each with a
  label of at most 40 characters and a sentence of at most 300, neither empty, and no two labels the same
  up to letter case, also after the time of a choice was added to its label.
\<close>

theorem kept_choices_well_formed:
  "parse_proposal_choices raw = [] \<or>
     (2 \<le> length (parse_proposal_choices raw) \<and> length (parse_proposal_choices raw) \<le> 5 \<and>
      (\<forall>c\<in>set (parse_proposal_choices raw). ch_label c \<noteq> [] \<and> rune_count (ch_label c) \<le> 40 \<and>
         ch_say c \<noteq> [] \<and> rune_count (ch_say c) \<le> 300) \<and>
      distinct (map (to_lower \<circ> ch_label) (parse_proposal_choices raw)))"
proof -
  define cs where "cs = keep_choices [] (case as_list raw of None \<Rightarrow> [] | Some vs \<Rightarrow> vs)"
  have good: "\<forall>c\<in>set cs. good_choice c" "distinct (map (to_lower \<circ> ch_label) cs)"
    using keep_choices_good unfolding cs_def by blast+
  have eq: "parse_proposal_choices raw = (if length cs < 2 then [] else take 5 cs)"
    by (simp add: parse_proposal_choices_def cs_def min_proposal_choices_def max_proposal_choices_def Let_def)
  have "distinct (map (to_lower \<circ> ch_label) (take 5 cs))" using good(2) by (metis distinct_take take_map)
  then show ?thesis using good(1) in_set_takeD [of _ 5 cs]
    by (auto simp: eq good_choice_def max_choice_label_runes_def max_choice_say_runes_def)
qed

lemma kept_choices_well_formed_witness:
  "length (parse_proposal_choices (GArr [GObj [(''label'', GStr ''Yes''), (''say'', GStr ''Book it'')],
       GObj [(''label'', GStr ''YES''), (''say'', GStr ''Book it now'')], GObj [(''label'', GStr ''No''), (''say'', GStr ''Leave it'')]])) = 2 \<and>
   distinct (map (to_lower \<circ> ch_label) (parse_proposal_choices (GArr [GObj [(''label'', GStr ''Yes''), (''say'', GStr ''Book it'')],
       GObj [(''label'', GStr ''YES''), (''say'', GStr ''Book it now'')], GObj [(''label'', GStr ''No''), (''say'', GStr ''Leave it'')]])))"
  (is "length (parse_proposal_choices ?raw) = 2 \<and> _")
proof -
  have "length (parse_proposal_choices ?raw) = 2" by code_simp
  then show ?thesis using kept_choices_well_formed [of ?raw] by auto
qed

section \<open>Once, and only what was offered\<close>

text \<open>
  (C14) In every order of offers, taps, typed answers, closings and clean-ups, of any number of people and
  agents at once, a message's choices lead to something being done at most once, and then to one thing.
\<close>

theorem chosen_once:
  "distinct (map fst (filter (\<lambda>(pid, t, es). carries es) (cw_log (choice_run evs)))) \<and>
   (\<forall>(pid, t, es)\<in>set (cw_log (choice_run evs)). length (filter (\<lambda>e. carried e \<noteq> None) es) \<le> 1)"
proof
  show "distinct (map fst (filter (\<lambda>(pid, t, es). carries es) (cw_log (choice_run evs))))"
    using choice_invariant [of evs] by (simp add: log_once_def)
  let ?P = "\<lambda>w :: choice_world. \<forall>(pid, t, es)\<in>set (cw_log w). length (filter (\<lambda>e. carried e \<noteq> None) es) \<le> 1"
  have one: "length (filter (\<lambda>e. carried e \<noteq> None) (settle l res)) \<le> 1" for l res
    by (auto simp: settle_def settle_tap_def settle_typed_def show_text_def dispatch_choice_def Let_def
        split: sum.split choose_error.split)
  have "?P (choice_run evs)"
  proof (rule choice_run_invariant)
    fix e w
    assume "?P w"
    then show "?P (choice_step e w)" using one by (cases e) (auto simp: Let_def split: option.split)
  qed (simp add: no_choices_def)
  then show "\<forall>(pid, t, es)\<in>set (cw_log (choice_run evs)). length (filter (\<lambda>e. carried e \<noteq> None) es) \<le> 1" .
qed

lemma offer_step:
  "off \<in> set (cw_offers (choice_step e w)) \<Longrightarrow> off \<in> set (cw_offers w) \<or>
     (\<exists>pid agent c message content choices t. e = CeOffer pid agent c message content choices t \<and>
        off = new_proposal pid agent c message content choices t)"
  by (cases e) (auto simp: Let_def split: option.splits if_splits)

lemma offers_made:
  "off \<in> set (cw_offers (choice_run evs)) \<Longrightarrow> \<exists>pid agent c message content choices t.
     CeOffer pid agent c message content choices t \<in> set evs \<and> off = new_proposal pid agent c message content choices t"
proof (induction evs rule: rev_induct)
  case Nil
  then show ?case by (simp add: choice_run_def no_choices_def)
next
  case (snoc e evs)
  have "choice_run (evs @ [e]) = choice_step e (choice_run evs)" by (simp add: choice_run_def)
  then have "off \<in> set (cw_offers (choice_run evs)) \<or>
     (\<exists>pid agent c message content choices t. e = CeOffer pid agent c message content choices t \<and>
        off = new_proposal pid agent c message content choices t)" using snoc.prems offer_step by metis
  then show ?case
  proof
    assume "off \<in> set (cw_offers (choice_run evs))"
    from snoc.IH [OF this] show ?thesis by (simp only: set_append Un_iff) blast
  next
    assume "\<exists>pid agent c message content choices t. e = CeOffer pid agent c message content choices t \<and>
        off = new_proposal pid agent c message content choices t"
    then show ?thesis by (simp only: set_append list.set Un_iff insert_iff) blast
  qed
qed

text \<open>
  (C15) Whatever is handed to an agent, or answered by the platform, because of a choice is the sentence of
  a choice that this agent offered, to this very person, within the last 24 hours; nothing else can be
  brought about by tapping, typing, or tampering with what a button sends.
\<close>

theorem only_what_was_offered:
  assumes entry: "(pid, t, es) \<in> set (cw_log (choice_run evs))"
    and e: "e \<in> set es" "carried e = Some (agent, c, words)"
  shows "\<exists>c0 message content choices t0. CeOffer pid agent c0 message content choices t0 \<in> set evs \<and>
           cv_user c0 = cv_user c \<and> words \<in> ch_say ` set choices \<and> t < t0 + proposal_lifetime"
proof -
  obtain off where off: "off \<in> set (cw_offers (choice_run evs))" "pp_id off = pid" "t < pp_expires off" "pp_agent off = agent"
    "pp_person off = cv_user c" "words \<in> ch_say ` set (pp_choices off)"
    using choice_invariant [of evs] entry e by (fastforce simp: log_offered_def)
  obtain pid' agent' c0 message content choices t0 where
    ev: "CeOffer pid' agent' c0 message content choices t0 \<in> set evs"
    and new: "off = new_proposal pid' agent' c0 message content choices t0"
    using offers_made [OF off(1)] by blast
  have "pid' = pid" "agent' = agent" "cv_user c0 = cv_user c" "words \<in> ch_say ` set choices" "t < t0 + proposal_lifetime"
    using off(2-) by (simp_all add: new new_proposal_def)
  then show ?thesis using ev by blast
qed

definition sample_chat :: conv where
  "sample_chat = \<lparr>cv_provider = ''telegram'', cv_chat = ''c1'', cv_thread = [], cv_identity = ''bot'', cv_user = ''ann'',
     cv_message = [], cv_sender = ''s1'', cv_shared = False\<rparr>"

definition sample_choices :: "choice list" where
  "sample_choices = [\<lparr>ch_label = ''Yes'', ch_say = ''Book it''\<rparr>, \<lparr>ch_label = ''No'', ch_say = ''Leave it''\<rparr>]"

definition sample_host :: choice_host where
  "sample_host = \<lparr>ch_agent = ''a1'', ch_updates = True, ch_answerer = True\<rparr>"

definition sample_tap :: "string \<Rightarrow> inbound" where
  "sample_tap d = (words_of sample_chat [])\<lparr>ib_callback := Some \<lparr>cb_query = ''q'', cb_data = d, cb_message = ''m1'', cb_trigger = []\<rparr>\<rparr>"

definition sample_events :: "choice_event list" where
  "sample_events = [CeOffer ''p1'' ''a1'' sample_chat ''m1'' ''Book?'' sample_choices 100, CeTap sample_host (sample_tap ''prop:p1:0''),
     CeTap sample_host (sample_tap ''prop:p1:1''), CeChoose 1 200 [], CeChoose 0 210 []]"

lemma only_what_was_offered_witness:
  "cw_log (choice_run sample_events) \<noteq> [] \<and>
   (\<exists>c0 message content choices t0. CeOffer ''p1'' ''a1'' c0 message content choices t0 \<in> set sample_events \<and>
      cv_user c0 = ''ann'' \<and> ''Leave it'' \<in> ch_say ` set choices \<and> 200 < t0 + proposal_lifetime)"
proof -
  have log: "hd (cw_log (choice_run sample_events)) =
      (''p1'', 200, [ShownText sample_chat ''m1'' (''Book?'' @ [CHR 0x0A, CHR 0x0A] @ ticked @ '' No''),
        HandedOn ''a1'' (words_of sample_chat ''Leave it'')])" (is "_ = ?entry")
    by code_simp
  have ne: "cw_log (choice_run sample_events) \<noteq> []" by code_simp
  then have "?entry \<in> set (cw_log (choice_run sample_events))" using log by (metis list.set_sel(1))
  from only_what_was_offered [OF this, of "HandedOn ''a1'' (words_of sample_chat ''Leave it'')" "''a1''" sample_chat "''Leave it''"]
  show ?thesis using ne by (simp add: words_of_def sample_chat_def)
qed

lemma chosen_once_witness:
  "length (cw_log (choice_run sample_events)) = 2 \<and>
   distinct (map fst (filter (\<lambda>(pid, t, es). carries es) (cw_log (choice_run sample_events))))"
proof -
  have "length (cw_log (choice_run sample_events)) = 2" by code_simp
  then show ?thesis using chosen_once [of sample_events] by simp
qed

section \<open>A button does what it says\<close>

lemma find_distinct:
  "distinct (map f rows) \<Longrightarrow> p \<in> set rows \<Longrightarrow> find (\<lambda>q. f q = f p) rows = Some p"
  by (induction rows) auto

lemma choose_row_of:
  "distinct (map pp_id rows) \<Longrightarrow> p \<in> set rows \<Longrightarrow> can_choose i now p \<Longrightarrow>
     fst (choose_row (pp_id p) i now rows) = Some (mark_chosen i now p)"
  by (induction rows) (auto simp: choose_row_def)

text \<open>
  Tapping a button of a message whose choices are still open does what the button says: it is as if the
  person had typed its sentence (or asked the platform for it). Tapping any button of that message again
  brings nothing about.
\<close>

theorem button_does_what_it_says:
  assumes rows: "distinct (map pp_id rows)" "p \<in> set rows" "pp_id p \<noteq> []" "pp_chosen p = None" "now < pp_expires p"
    and i: "i < length (pp_choices p)" "length (pp_choices p) \<le> 5"
    and tap: "ib_callback msg = Some cb" "cb_data cb = snd (buttons_of p ! i)"
      "cv_user (ib_conv msg) = pp_person p" "pp_person p \<noteq> []" "ch_agent h = pp_agent p"
  shows "fst (handle_tap h msg now rows) =
           show_text h (tap_conv msg p) p (ticked @ '' '' @ ch_label (pp_choices p ! i)) @
           dispatch_choice h (tap_conv msg p) (ch_say (pp_choices p ! i)) \<and>
         (ib_callback msg' = Some cb' \<and> cb_data cb' = proposal_data (pp_id p) j \<longrightarrow>
           \<not> carries (fst (handle_tap h' msg' now' (snd (handle_tap h msg now rows)))))"
proof -
  have data: "cb_data cb = proposal_data (pp_id p) (int i)" using tap(2) i(1) by (simp add: buttons_of_def nth_enumerate_eq)
  have "int64_range (int i)" using i by (simp add: int64_range_def)
  then have "parse_proposal_data (cb_data cb) = Some (pp_id p, int i)"
    using rows(3) by (simp add: data button_data_parsed)
  moreover have "get_proposal (pp_id p) rows = Some p" using rows(1,2) by (simp add: get_proposal_def find_distinct)
  ultimately have target: "tap_target h msg rows = Some (p, int i)" using tap by (simp add: tap_target_def)
  have "can_choose (int i) now p" using rows i by (simp add: can_choose_def)
  then have row: "fst (choose_row (pp_id p) (int i) now rows) = Some (mark_chosen (int i) now p)"
    using rows by (simp add: choose_row_of)
  let ?rows = "snd (choose_row (pp_id p) (int i) now rows)"
  have after: "snd (handle_tap h msg now rows) = ?rows" by (simp add: handle_tap_def target Let_def)
  have first: "fst (handle_tap h msg now rows) =
      show_text h (tap_conv msg p) p (ticked @ '' '' @ ch_label (pp_choices p ! i)) @
      dispatch_choice h (tap_conv msg p) (ch_say (pp_choices p ! i))"
    by (simp add: handle_tap_def target Let_def choose_proposal_def row settle_tap_def)
  have chosen: "q \<in> set ?rows \<Longrightarrow> pp_id q = pp_id p \<Longrightarrow> pp_chosen q \<noteq> None" for q
    using rows by (auto simp: choose_row_def \<open>can_choose (int i) now p\<close> distinct_map dest: inj_onD split: if_splits)
  have "\<not> carries (fst (handle_tap h' msg' now' ?rows))"
    if again: "ib_callback msg' = Some cb'" "cb_data cb' = proposal_data (pp_id p) j"
  proof (cases "tap_target h' msg' ?rows")
    case (Some found)
    obtain q k where found: "found = (q, k)" by (cases found)
    have "parse_proposal_data (cb_data cb') = Some (pp_id q, k)"
      using Some again(1) by (auto simp: found tap_target_def split: option.splits if_splits dest: get_proposal_Some)
    then have "proposal_data (pp_id q) k = proposal_data (pp_id p) j" "0 \<le> k" using parsed_button_data again(2) by auto
    then have "pp_id q = pp_id p" using proposal_data_id by blast
    then have "fst (choose_row (pp_id q) k now' ?rows) = None"
    proof (cases "fst (choose_row (pp_id q) k now' ?rows)")
      case (Some r)
      then obtain o' where "o' \<in> set ?rows" "pp_id o' = pp_id q" "can_choose k now' o'" using choose_row_Some by metis
      then show ?thesis using chosen \<open>pp_id q = pp_id p\<close> by (simp add: can_choose_def)
    qed
    then show ?thesis
      by (auto simp: handle_tap_def Some found Let_def choose_proposal_def settle_tap_def carries_def show_text_def
          split: choose_error.split)
  qed (simp add: handle_tap_def carries_def)
  then show ?thesis using first after by simp
qed

definition sample_proposal :: proposal where
  "sample_proposal = new_proposal ''p1'' ''a1'' sample_chat ''m1'' ''Book?'' sample_choices 100"

lemma button_does_what_it_says_witness:
  "snd (buttons_of sample_proposal ! 1) = ''prop:p1:1'' \<and>
   last (fst (handle_tap sample_host (sample_tap ''prop:p1:1'') 200 [sample_proposal])) = HandedOn ''a1'' (words_of sample_chat ''Leave it'') \<and>
   \<not> carries (fst (handle_tap sample_host (sample_tap ''prop:p1:0'') 300
      (snd (handle_tap sample_host (sample_tap ''prop:p1:1'') 200 [sample_proposal]))))"
proof -
  let ?cb = "\<lambda>d. \<lparr>cb_query = ''q'', cb_data = d, cb_message = ''m1'', cb_trigger = []\<rparr>"
  have b: "snd (buttons_of sample_proposal ! 1) = ''prop:p1:1''" "''prop:p1:0'' = proposal_data (pp_id sample_proposal) 0" by code_simp+
  have p: "distinct (map pp_id [sample_proposal])" "sample_proposal \<in> set [sample_proposal]" "pp_id sample_proposal \<noteq> []"
    "pp_chosen sample_proposal = None" "200 < pp_expires sample_proposal"
    "1 < length (pp_choices sample_proposal)" "length (pp_choices sample_proposal) \<le> 5"
    "pp_person sample_proposal \<noteq> []" "ch_agent sample_host = pp_agent sample_proposal"
    "cv_user (ib_conv (sample_tap ''prop:p1:1'')) = pp_person sample_proposal"
    by (simp_all add: sample_proposal_def new_proposal_def sample_choices_def sample_chat_def sample_host_def
        sample_tap_def words_of_def proposal_lifetime_def)
  have cb: "ib_callback (sample_tap d) = Some (?cb d)" for d by (simp add: sample_tap_def)
  have conv: "tap_conv (sample_tap ''prop:p1:1'') sample_proposal = sample_chat"
    by (simp add: tap_conv_def sample_tap_def words_of_def sample_proposal_def new_proposal_def sample_chat_def)
  have d: "dispatch_choice sample_host sample_chat (ch_say (pp_choices sample_proposal ! 1)) = [HandedOn ''a1'' (words_of sample_chat ''Leave it'')]"
    by code_simp
  from button_does_what_it_says [OF p(1-7) cb _ p(10) p(8) p(9), of "sample_tap ''prop:p1:0''" "?cb ''prop:p1:0''" 0 sample_host 300]
  show ?thesis using b cb conv d by simp
qed

section \<open>What is left open\<close>

definition forged_choices :: goval where
  "forged_choices = GArr [GObj [(''label'', GStr ''Yes''), (''say'', GStr ''kael:stop'')], GObj [(''label'', GStr ''No''), (''say'', GStr ''Leave it'')]]"

text \<open>
  Nothing stops an agent from offering a choice whose sentence starts with the platform's own prefix: such
  choices are kept and given buttons like any other, and a tap hands the agent's words to what answers the
  platform's own choices, not to the agent as what the person said.
\<close>

theorem agent_speaks_for_platform:
  "\<exists>raw bs rows. attach_choices True True ''p1'' ''a1'' sample_chat ''m1'' ''Book?'' (parse_proposal_choices raw) 100 [] = (bs, rows) \<and>
     PlatformAnswers ''a1'' sample_chat ''kael:stop'' \<in> set (fst (handle_tap sample_host (sample_tap (snd (bs ! 0))) 200 rows))"
proof -
  have "PlatformAnswers ''a1'' sample_chat ''kael:stop'' \<in> set (fst (handle_tap sample_host
     (sample_tap (snd (fst (attach_choices True True ''p1'' ''a1'' sample_chat ''m1'' ''Book?'' (parse_proposal_choices forged_choices) 100 []) ! 0))) 200
     (snd (attach_choices True True ''p1'' ''a1'' sample_chat ''m1'' ''Book?'' (parse_proposal_choices forged_choices) 100 []))))"
    by code_simp
  then show ?thesis by (metis prod.collapse)
qed

lemma newest_ge: "newest ps = Some r \<Longrightarrow> q \<in> set ps \<Longrightarrow> pp_created q \<le> pp_created r"
proof (induction ps arbitrary: r)
  case (Cons p ps)
  show ?case
  proof (cases "newest ps")
    case None
    then have "ps = []" by (cases ps) (auto split: option.splits if_splits)
    then show ?thesis using Cons.prems by simp
  next
    case (Some s)
    then have "q \<in> set ps \<Longrightarrow> pp_created q \<le> pp_created s" by (rule Cons.IH)
    then show ?thesis using Cons.prems Some by (auto split: if_splits)
  qed
qed simp

text \<open>
  An ordinary message ends only the newest choices of its chat: choices offered before those, which
  nothing closed in between, stay as they were, so a tap or their typed label is still carried out later.
\<close>

theorem older_choices_stay:
  assumes p: "p \<in> set rows" and q: "q \<in> set rows" "pp_created p < pp_created q"
    and distinct: "distinct (map pp_id rows)"
    and "is_open (ch_agent h) (cv_identity (ib_conv msg)) (cv_chat (ib_conv msg)) now q"
    and ordinary: "typed_target h msg now rows = None"
  shows "fst (handle_words h msg now rows) = None \<and> p \<in> set (snd (handle_words h msg now rows))"
proof (cases "retire_target h msg now rows")
  case None
  then show ?thesis using p by (simp add: handle_words_def ordinary)
next
  case (Some r)
  then have r: "open_here h msg now rows = Some r" by (auto simp: retire_target_def split: option.splits if_splits)
  then have "pp_created q \<le> pp_created r"
    using assms(5) q(1) by (auto simp: open_here_def latest_open_proposal_def intro: newest_ge)
  moreover have "r \<in> set rows" using r open_here_mem by blast
  moreover have "inj_on pp_id (set rows)" using distinct by (simp add: distinct_map)
  ultimately have other: "pp_id p \<noteq> pp_id r" using p q(2) by (metis inj_onD not_le)
  have "p \<in> set (close_proposal (pp_id r) now rows)"
    unfolding close_proposal_def set_map using p other by (intro image_eqI [of _ _ p]) simp_all
  then show ?thesis using Some by (simp add: handle_words_def ordinary)
qed

definition later_proposal :: proposal where
  "later_proposal = sample_proposal\<lparr>pp_id := ''p2'', pp_message := ''m2'', pp_created := 150\<rparr>"

lemma older_choices_stay_witness:
  "last (fst (handle_tap sample_host (sample_tap ''prop:p1:1'') 300
     (snd (handle_words sample_host (words_of sample_chat ''Never mind'') 200 [sample_proposal, later_proposal]))))
   = HandedOn ''a1'' (words_of sample_chat ''Leave it'') \<and>
   sample_proposal \<in> set (snd (handle_words sample_host (words_of sample_chat ''Never mind'') 200 [sample_proposal, later_proposal]))"
proof -
  have "last (fst (handle_tap sample_host (sample_tap ''prop:p1:1'') 300
     (snd (handle_words sample_host (words_of sample_chat ''Never mind'') 200 [sample_proposal, later_proposal]))))
     = HandedOn ''a1'' (words_of sample_chat ''Leave it'')" by code_simp
  moreover have "sample_proposal \<in> set [sample_proposal, later_proposal]" "later_proposal \<in> set [sample_proposal, later_proposal]"
    "pp_created sample_proposal < pp_created later_proposal" "distinct (map pp_id [sample_proposal, later_proposal])"
    "is_open (ch_agent sample_host) (cv_identity (ib_conv (words_of sample_chat ''Never mind'')))
       (cv_chat (ib_conv (words_of sample_chat ''Never mind''))) 200 later_proposal"
    by (simp_all add: sample_proposal_def later_proposal_def new_proposal_def sample_chat_def sample_host_def
        words_of_def is_open_def proposal_lifetime_def)
  moreover have "typed_target sample_host (words_of sample_chat ''Never mind'') 200 [sample_proposal, later_proposal] = None" by code_simp
  ultimately show ?thesis using older_choices_stay by blast
qed

end
