(* ===== verification/Event_Contract.thy ===== *)
theory Event_Contract
  imports Go_Regexp Input_Contract
begin

text \<open>
  The contract an event must keep to be registered (\<^verbatim>\<open>domain/event_contract.go\<close>), the one-line message
  it may be told with (\<^verbatim>\<open>domain/event_summary.go\<close>) and the registry that holds the events of every
  service (\<^verbatim>\<open>IntegrationEventRegistry\<close> of \<^verbatim>\<open>domain/integration.go\<close>). Of an event's handler the
  contract only asks whether there is one. A problem is its text.
\<close>

section \<open>Events\<close>

datatype arrival = ArrivalPushed | ArrivalInternal | ArrivalOther string

fun arrival_text :: "arrival \<Rightarrow> string" where
  "arrival_text ArrivalPushed = ''pushed''"
| "arrival_text ArrivalInternal = ''internal''"
| "arrival_text (ArrivalOther s) = s"

datatype subject_kind = SubjectPayload | SubjectNobody | SubjectOther string

fun subject_text :: "subject_kind \<Rightarrow> string" where
  "subject_text SubjectPayload = ''payload''"
| "subject_text SubjectNobody = ''nobody''"
| "subject_text (SubjectOther s) = s"

record event_subject =
  es_kind :: subject_kind
  es_field :: string
  es_account :: string

record integration_event =
  ev_name :: string
  ev_description :: string
  ev_arrival :: arrival
  ev_subject :: event_subject
  ev_payload :: schema
  ev_options :: schema
  ev_repeat_key :: string
  ev_sample :: "args option"
  ev_summary :: string
  ev_handled :: bool        \<comment> \<open>\<^verbatim>\<open>Handler != nil\<close>\<close>

definition max_event_description_len :: nat where "max_event_description_len = 120"
definition max_event_payload_properties :: nat where "max_event_payload_properties = 20"
definition max_event_summary_len :: nat where "max_event_summary_len = 280"
definition max_summary_value_len :: nat where "max_summary_value_len = 200"

section \<open>Names and words\<close>

definition lower_alpha :: "string \<Rightarrow> bool" where
  "lower_alpha = rune_between (CHR ''a'') (CHR ''z'')"

definition name_rune :: "string \<Rightarrow> bool" where
  "name_rune r \<longleftrightarrow> lower_alpha r \<or> digit_rune r \<or> one_of ''_'' r"

definition rx_event_name :: rx where
  "rx_event_name = rx_seq [RxBegin, RxRune lower_alpha, RxStar (RxRune name_rune),
     rx_plus (RxSeq (rx_lit ''.'') (rx_plus (RxRune name_rune))), RxEnd]"

definition rx_event_account :: rx where
  "rx_event_account = rx_seq [RxBegin, RxRune lower_alpha, RxStar (RxRune name_rune), RxEnd]"

definition maybe_s :: "string \<Rightarrow> rx" where
  "maybe_s w = RxSeq (rx_fold w) (rx_opt (rx_fold ''s''))"

definition platform_words :: rx where
  "platform_words = rx_seq [RxWordEdge,
     rx_alt ([maybe_s ''event'', maybe_s ''trigger'', maybe_s ''webhook'', maybe_s ''payload'', rx_fold ''json'', rx_fold ''api'',
       maybe_s ''tool'', maybe_s ''skill'', maybe_s ''callback'', maybe_s ''endpoint'']),
     RxWordEdge]"

definition event_problem :: "string \<Rightarrow> string \<Rightarrow> string" where
  "event_problem name msg = ''event '' @ go_quote name @ '': '' @ msg"

section \<open>The summary\<close>

definition summary_blank :: rx where
  "summary_blank = rx_seq [rx_lit ''{{'', RxStar (RxRune rx_space), RxRune lower_alpha, RxStar (RxRune name_rune),
     RxStar (RxRune rx_space), rx_lit ''}}'']"

text \<open>The group of a blank: the name between the braces.\<close>

definition blank_name :: "string \<Rightarrow> string" where
  "blank_name m = takeWhile (\<lambda>c. name_rune [c]) (dropWhile (\<lambda>c. rx_space [c]) (drop 2 m))"

definition summary_blanks :: "string \<Rightarrow> string list" where
  "summary_blanks s = map blank_name (rx_all summary_blank s)"

definition plain_type :: "schema \<Rightarrow> bool" where
  "plain_type p \<longleftrightarrow> s_type p \<in> {TString, TInteger, TNumber, TBoolean}"

definition blank_problem :: "schema \<Rightarrow> string \<Rightarrow> string list" where
  "blank_problem payload n =
     (case gm_get (s_properties payload) n of
        None \<Rightarrow> [''the summary uses {{'' @ n @ ''}}, which the payload doesn'' @ [CHR 0x27] @ ''t have'']
      | Some p \<Rightarrow>
          if n \<notin> set (s_required payload)
          then [''the summary uses {{'' @ n @ ''}}, which is not always there (it must be required)'']
          else if \<not> plain_type p then [''the summary uses {{'' @ n @ ''}}, which is not a plain value''] else [])"

definition noted_if :: "bool \<Rightarrow> string \<Rightarrow> string list" where
  "noted_if b msg = (if b then [msg] else [])"

definition summary_problems :: "integration_event \<Rightarrow> string list" where
  "summary_problems e =
     (let s = ev_summary e; rest = rx_replace summary_blank (\<lambda>_. []) s
      in if trim_space s = [] then noted_if (s \<noteq> []) ''the summary is only spaces''
         else
           noted_if (max_event_summary_len < rune_count s)
             (''the summary is '' @ itoa (int (rune_count s)) @ '' characters; the most allowed is '' @ itoa (int max_event_summary_len)) @
           noted_if (contains_any s [CHR 0x0A, CHR 0x0D]) ''the summary must be one line'' @
           noted_if (summary_blanks s = []) ''the summary has no blanks, so it would say the same thing every time'' @
           concat (map (blank_problem (ev_payload e)) (summary_blanks s)) @
           noted_if (contains_str rest ''{{'' \<or> contains_str rest ''}}'') ''the summary has a blank that is not written {{name}}'' @
           noted_if (rx_find platform_words rest \<noteq> [])
             (''the summary uses a platform word ('' @ go_quote (rx_find platform_words rest) @ ''); say it in plain words''))"

text \<open>
  \<^verbatim>\<open>plainValue\<close>. A whole number is written without a fraction where \<^verbatim>\<open>int64(x)\<close> is exact.
\<close>

definition control_rune :: "string \<Rightarrow> bool" where
  "control_rune r \<longleftrightarrow> (case r of [c] \<Rightarrow> byte c < 32 \<or> byte c = 127 | [a, c] \<Rightarrow> a = CHR 0xC2 \<and> byte_in 128 159 c | _ \<Rightarrow> False)"

definition value_text :: "goval \<Rightarrow> string" where
  "value_text v =
     (case v of
        GNum (Fin q) \<Rightarrow> (if of_int \<lfloor>q\<rfloor> = q \<and> int64_range \<lfloor>q\<rfloor> then itoa \<lfloor>q\<rfloor> else sprint v)
      | _ \<Rightarrow> sprint v)"

definition one_line :: "string \<Rightarrow> string list" where
  "one_line s = map (\<lambda>r. if is_space_rune r then '' '' else r) (filter (\<lambda>r. is_space_rune r \<or> \<not> control_rune r) (runes s))"

definition plain_value :: "goval \<Rightarrow> string" where
  "plain_value v =
     (let s = join '' '' (Go_Strings.fields (concat (one_line (value_text v))))
      in if max_summary_value_len < length (runes s) then concat (take max_summary_value_len (runes s)) @ ellipsis else s)"

definition render_summary :: "integration_event \<Rightarrow> args \<Rightarrow> string + string" where
  "render_summary e facts =
     (if trim_space (ev_summary e) = [] then Inl (''event '' @ go_quote (ev_name e) @ '' has no summary'')
      else let lacking = filter (\<lambda>n. get_any facts n = GNil) (summary_blanks (ev_summary e))
           in if lacking \<noteq> [] then Inl (''event '' @ go_quote (ev_name e) @ '': the summary needs '' @ join '', '' lacking)
              else Inr (rx_replace summary_blank (\<lambda>m. plain_value (get_any facts (blank_name m))) (ev_summary e)))"

section \<open>The contract\<close>

definition name_problems :: "string \<Rightarrow> string \<Rightarrow> string list" where
  "name_problems service n =
     (if \<not> rx_match rx_event_name n
      then [''the name must be lowercase words separated by dots, such as '' @ service @ ''.thing.happened'']
      else if \<not> has_prefix n (service @ ''.'') then [''the name must start with its integration, '' @ go_quote (service @ ''.'')]
      else [])"

definition event_description_problems :: "string \<Rightarrow> string list" where
  "event_description_problems descr =
     (let d = trim_space descr
      in if d = [] then [''has no description'']
         else if max_event_description_len < length d
         then [''description is '' @ itoa (int (length d)) @ '' characters; the most allowed is '' @ itoa (int max_event_description_len)]
         else if rx_match platform_words d
         then [''description uses a platform word ('' @ go_quote (rx_find platform_words d) @ ''); say what happened in plain words'']
         else [])"

definition arrival_problems :: "integration_event \<Rightarrow> string list" where
  "arrival_problems e =
     (case ev_arrival e of
        ArrivalPushed \<Rightarrow> noted_if (\<not> ev_handled e) ''is pushed to us but has no handler to decode a delivery''
      | ArrivalInternal \<Rightarrow> []
      | ArrivalOther s \<Rightarrow> [''must say how it arrives (pushed or internal), not '' @ go_quote s])"

definition described_prop :: "schema \<Rightarrow> bool" where
  "described_prop p \<longleftrightarrow> s_type p \<noteq> TOther [] \<and> trim_space (s_description p) \<noteq> [] \<and>
     (s_type p = TArray \<longrightarrow> (case s_items p of None \<Rightarrow> False | Some it \<Rightarrow> s_type it \<noteq> TOther []))"

definition prop_problems :: "string \<Rightarrow> string \<Rightarrow> schema \<Rightarrow> string list" where
  "prop_problems what n p =
     noted_if (s_type p = TOther []) (what @ '' '' @ go_quote n @ '' has no type'') @
     noted_if (trim_space (s_description p) = []) (what @ '' '' @ go_quote n @ '' has no description'') @
     noted_if (s_type p = TArray \<and> (case s_items p of None \<Rightarrow> True | Some it \<Rightarrow> s_type it = TOther []))
       (what @ '' '' @ go_quote n @ '' is a list without a type for its items'')"

definition bad_props :: "string \<Rightarrow> schema \<Rightarrow> string list" where
  "bad_props what s =
     concat (map (\<lambda>n. case gm_get (s_properties s) n of None \<Rightarrow> [] | Some p \<Rightarrow> prop_problems what n p) (sort (gm_keys (s_properties s)))) @
     concat (map (\<lambda>r. noted_if (\<not> has_property s r) (what @ '' requires '' @ go_quote r @ '', which it doesn'' @ [CHR 0x27] @ ''t describe'')) (s_required s))"

definition payload_problems :: "schema \<Rightarrow> string list" where
  "payload_problems s =
     noted_if (s_type s \<noteq> TObject) (''payload must be an object, not '' @ go_quote (type_name (s_type s))) @
     noted_if (s_properties s = []) ''payload describes nothing'' @
     noted_if (max_event_payload_properties < length (s_properties s))
       (''payload has '' @ itoa (int (length (s_properties s))) @ '' properties; the most allowed is '' @ itoa (int max_event_payload_properties)) @
     bad_props ''payload property'' s"

definition options_problems :: "schema \<Rightarrow> string list" where
  "options_problems s =
     noted_if (s_type s \<noteq> TOther [] \<and> s_type s \<noteq> TObject) (''options must be an object, not '' @ go_quote (type_name (s_type s))) @
     bad_props ''option'' s"

definition who :: string where
  "who = ''the property that says who it is about, ''"

definition subject_problems :: "integration_event \<Rightarrow> string list" where
  "subject_problems e =
     (let sub = ev_subject e; f = es_field sub
      in case es_kind sub of
           SubjectPayload \<Rightarrow>
             (if f = [] then [''says it is about someone in the payload but not which property'']
              else case gm_get (s_properties (ev_payload e)) f of
                  None \<Rightarrow> [who @ go_quote f @ '', is not in the payload'']
                | Some p \<Rightarrow> if s_type p \<noteq> TString then [who @ go_quote f @ '', must be text'']
                            else if f \<notin> set (s_required (ev_payload e)) then [who @ go_quote f @ '', must be required''] else []) @
             noted_if (\<not> rx_match rx_event_account (es_account sub))
               ''must say what kind of account the person is identified by, such as github_login''
         | SubjectNobody \<Rightarrow>
             noted_if (f \<noteq> [] \<or> es_account sub \<noteq> []) ''is about nobody, so it has no property or account for who''
         | SubjectOther s \<Rightarrow> [''must say who it is about, not '' @ go_quote s])"

definition repeat_problems :: "integration_event \<Rightarrow> string list" where
  "repeat_problems e =
     (let k = ev_repeat_key e
      in if k = [] then [''has no repeat key, so the same occurrence could be handled twice'']
         else case gm_get (s_properties (ev_payload e)) k of
             None \<Rightarrow> [''the repeat key '' @ go_quote k @ '' is not in the payload'']
           | Some p \<Rightarrow> if s_type p \<noteq> TString \<and> s_type p \<noteq> TInteger
                       then [''the repeat key '' @ go_quote k @ '' must be text or a whole number'']
                       else if k \<notin> set (s_required (ev_payload e)) then [''the repeat key '' @ go_quote k @ '' must be required''] else [])"

definition sample_problems :: "integration_event \<Rightarrow> string list" where
  "sample_problems e =
     (case ev_sample e of
        None \<Rightarrow> [''has no sample payload'']
      | Some m \<Rightarrow>
          if s_properties (ev_payload e) = [] then []
          else (case check_input (ev_payload e) m of
                  Inl err \<Rightarrow> [''the sample payload doesn'' @ [CHR 0x27] @ ''t satisfy its own schema ('' @ err @ '')'']
                | Inr _ \<Rightarrow> []))"

definition validate_event :: "string \<Rightarrow> integration_event \<Rightarrow> string list" where
  "validate_event service e =
     map (event_problem (ev_name e))
       (name_problems service (ev_name e) @ event_description_problems (ev_description e) @ arrival_problems e @
        payload_problems (ev_payload e) @ options_problems (ev_options e) @ subject_problems e @ repeat_problems e @
        summary_problems e @ sample_problems e)"

text \<open>\<^verbatim>\<open>ValidEvents\<close>: a nil event is \<open>None\<close>; the events kept and the problems.\<close>

fun valid_events_from :: "string \<Rightarrow> string list \<Rightarrow> integration_event option list \<Rightarrow> integration_event list \<times> string list" where
  "valid_events_from service seen [] = ([], [])"
| "valid_events_from service seen (None # es) =
     (let (keep, errs) = valid_events_from service seen es in (keep, ''event is nil'' # errs))"
| "valid_events_from service seen (Some e # es) =
     (if validate_event service e \<noteq> []
      then (let (keep, errs) = valid_events_from service seen es in (keep, validate_event service e @ errs))
      else if ev_name e \<in> set seen
      then (let (keep, errs) = valid_events_from service seen es
            in (keep, event_problem (ev_name e) ''is used by more than one event'' # errs))
      else (let (keep, errs) = valid_events_from service (ev_name e # seen) es in (e # keep, errs)))"

definition valid_events :: "string \<Rightarrow> integration_event option list \<Rightarrow> integration_event list \<times> string list" where
  "valid_events service es = valid_events_from service [] es"

text \<open>\<^verbatim>\<open>CheckPayload\<close>; reading the JSON text is \<^verbatim>\<open>json.Unmarshal\<close>, a parameter.\<close>

definition check_payload :: "(string \<Rightarrow> string + args) \<Rightarrow> integration_event \<Rightarrow> string \<Rightarrow> string + args" where
  "check_payload decode e t =
     (if s_type (ev_payload e) \<noteq> TObject
      then Inl (''event '' @ go_quote (ev_name e) @ '': it describes no payload, so a delivery can'' @ [CHR 0x27] @ ''t be checked'')
      else case decode t of
          Inl err \<Rightarrow> Inl (''event '' @ go_quote (ev_name e) @ '': the payload is not a JSON object: '' @ err)
        | Inr m \<Rightarrow> (case check_input (ev_payload e) m of
                      Inl err \<Rightarrow> Inl (''event '' @ go_quote (ev_name e) @ '': '' @ err) | Inr out \<Rightarrow> Inr out))"

section \<open>The registry\<close>

type_synonym event_registry = "(string \<times> integration_event list) list"

definition taken_by_others :: "string \<Rightarrow> event_registry \<Rightarrow> string \<Rightarrow> string option" where
  "taken_by_others service r n =
     map_option fst (find (\<lambda>(svc, evs). svc \<noteq> service \<and> n \<in> ev_name ` set evs) (rev r))"

definition register_events :: "string \<Rightarrow> integration_event option list \<Rightarrow> event_registry \<Rightarrow> event_registry \<times> string list" where
  "register_events service es r =
     (let (valid, errs) = valid_events service es
      in (gm_set service (filter (\<lambda>e. taken_by_others service r (ev_name e) = None) valid) r,
          errs @ concat (map (\<lambda>e. case taken_by_others service r (ev_name e) of
             None \<Rightarrow> [] | Some svc \<Rightarrow> [event_problem (ev_name e) (''is already registered by '' @ go_quote svc)]) valid)))"

definition events_for :: "string \<Rightarrow> event_registry \<Rightarrow> integration_event list" where
  "events_for service r = (case gm_get r service of None \<Rightarrow> [] | Some evs \<Rightarrow> evs)"

definition remove_events :: "string \<Rightarrow> event_registry \<Rightarrow> event_registry" where
  "remove_events service r = gm_del service r"

text \<open>Both loops stop at the first event with the name; the order of the services is the map's.\<close>

definition service_of_event :: "string \<Rightarrow> event_registry \<Rightarrow> string option" where
  "service_of_event n r = map_option fst (find (\<lambda>(svc, evs). n \<in> ev_name ` set evs) r)"

definition find_event :: "string \<Rightarrow> event_registry \<Rightarrow> integration_event option" where
  "find_event n r = find (\<lambda>e. ev_name e = n) (concat (map snd r))"

end
