(* ===== verification/Event_Claims.thy ===== *)
theory Event_Claims
  imports Event_Contract
begin

text \<open>
  What the event contract means, that the one-line message of an event that keeps it can always be filled
  in, and that whatever is registered keeps it and is found by its name.
\<close>

section \<open>The contract, stated\<close>

definition schema_described :: "schema \<Rightarrow> bool" where
  "schema_described s \<longleftrightarrow> (\<forall>n p. gm_get (s_properties s) n = Some p \<longrightarrow> described_prop p) \<and>
     (\<forall>r\<in>set (s_required s). has_property s r)"

text \<open>A property that is always there and of one of these types.\<close>

definition required_as :: "schema \<Rightarrow> schema_type set \<Rightarrow> string \<Rightarrow> bool" where
  "required_as s tys n \<longleftrightarrow> n \<in> set (s_required s) \<and> (\<exists>p. gm_get (s_properties s) n = Some p \<and> s_type p \<in> tys)"

definition summary_ok :: "schema \<Rightarrow> string \<Rightarrow> bool" where
  "summary_ok payload s \<longleftrightarrow> s = [] \<or>
     (trim_space s \<noteq> [] \<and> rune_count s \<le> 280 \<and> \<not> contains_any s [CHR 0x0A, CHR 0x0D] \<and>
      summary_blanks s \<noteq> [] \<and>
      (\<forall>n\<in>set (summary_blanks s). required_as payload {TString, TInteger, TNumber, TBoolean} n) \<and>
      (let rest = rx_replace summary_blank (\<lambda>_. []) s
       in \<not> contains_str rest ''{{'' \<and> \<not> contains_str rest ''}}'' \<and> rx_find platform_words rest = []))"

definition subject_ok :: "schema \<Rightarrow> event_subject \<Rightarrow> bool" where
  "subject_ok payload sub \<longleftrightarrow>
     (es_kind sub = SubjectPayload \<and> es_field sub \<noteq> [] \<and> required_as payload {TString} (es_field sub) \<and>
        rx_match rx_event_account (es_account sub)) \<or>
     (es_kind sub = SubjectNobody \<and> es_field sub = [] \<and> es_account sub = [])"

definition keeps_contract :: "string \<Rightarrow> integration_event \<Rightarrow> bool" where
  "keeps_contract service e \<longleftrightarrow>
     rx_match rx_event_name (ev_name e) \<and> has_prefix (ev_name e) (service @ ''.'') \<and>
     trim_space (ev_description e) \<noteq> [] \<and> length (trim_space (ev_description e)) \<le> 120 \<and>
     \<not> rx_match platform_words (trim_space (ev_description e)) \<and>
     (ev_arrival e = ArrivalPushed \<and> ev_handled e \<or> ev_arrival e = ArrivalInternal) \<and>
     s_type (ev_payload e) = TObject \<and> s_properties (ev_payload e) \<noteq> [] \<and> length (s_properties (ev_payload e)) \<le> 20 \<and>
     schema_described (ev_payload e) \<and>
     s_type (ev_options e) \<in> {TOther [], TObject} \<and> schema_described (ev_options e) \<and>
     subject_ok (ev_payload e) (ev_subject e) \<and>
     ev_repeat_key e \<noteq> [] \<and> required_as (ev_payload e) {TString, TInteger} (ev_repeat_key e) \<and>
     summary_ok (ev_payload e) (ev_summary e) \<and>
     (\<exists>m out. ev_sample e = Some m \<and> check_input (ev_payload e) m = Inr out)"

lemma noted_if_Nil [simp]: "noted_if b msg = [] \<longleftrightarrow> \<not> b"
  by (simp add: noted_if_def)

lemma prop_problems_Nil: "prop_problems what n p = [] \<longleftrightarrow> described_prop p"
  by (auto simp: prop_problems_def described_prop_def split: option.split)

lemma bad_props_Nil: "bad_props what s = [] \<longleftrightarrow> schema_described s"
proof -
  have "(\<forall>n\<in>set (gm_keys (s_properties s)). (case gm_get (s_properties s) n of None \<Rightarrow> [] | Some p \<Rightarrow> prop_problems what n p) = []) \<longleftrightarrow>
      (\<forall>n p. gm_get (s_properties s) n = Some p \<longrightarrow> described_prop p)"
    by (force simp: prop_problems_Nil split: option.splits dest: gm_get_in_keys)
  then show ?thesis by (simp add: bad_props_def schema_described_def)
qed

lemma blank_problem_Nil: "blank_problem payload n = [] \<longleftrightarrow> required_as payload {TString, TInteger, TNumber, TBoolean} n"
  by (auto simp: blank_problem_def required_as_def plain_type_def split: option.splits)

lemma trim_space_not_Nil: "trim_space s \<noteq> [] \<Longrightarrow> s \<noteq> []"
  by auto

lemma summary_problems_Nil: "summary_problems e = [] \<longleftrightarrow> summary_ok (ev_payload e) (ev_summary e)"
proof (cases "trim_space (ev_summary e) = []")
  case True
  then show ?thesis by (simp add: summary_problems_def summary_ok_def)
next
  case False
  then have "ev_summary e \<noteq> []" by auto
  then show ?thesis using False
    by (simp add: summary_problems_def summary_ok_def blank_problem_Nil max_event_summary_len_def Let_def not_less)
qed

lemma subject_problems_Nil: "subject_problems e = [] \<longleftrightarrow> subject_ok (ev_payload e) (ev_subject e)"
  by (cases "es_kind (ev_subject e)")
    (auto simp: subject_problems_def subject_ok_def required_as_def Let_def split: option.splits if_splits)

lemma repeat_problems_Nil:
  "repeat_problems e = [] \<longleftrightarrow> ev_repeat_key e \<noteq> [] \<and> required_as (ev_payload e) {TString, TInteger} (ev_repeat_key e)"
  by (auto simp: repeat_problems_def required_as_def Let_def split: option.splits)

lemma event_description_Nil:
  "event_description_problems d = [] \<longleftrightarrow>
     trim_space d \<noteq> [] \<and> length (trim_space d) \<le> 120 \<and> \<not> rx_match platform_words (trim_space d)"
  by (auto simp: event_description_problems_def max_event_description_len_def Let_def)

lemma name_problems_Nil: "name_problems service n = [] \<longleftrightarrow> rx_match rx_event_name n \<and> has_prefix n (service @ ''.'')"
  by (simp add: name_problems_def)

lemma arrival_problems_Nil:
  "arrival_problems e = [] \<longleftrightarrow> (ev_arrival e = ArrivalPushed \<and> ev_handled e \<or> ev_arrival e = ArrivalInternal)"
  by (cases "ev_arrival e") (simp_all add: arrival_problems_def)

lemma payload_problems_Nil:
  "payload_problems s = [] \<longleftrightarrow> s_type s = TObject \<and> s_properties s \<noteq> [] \<and> length (s_properties s) \<le> 20 \<and> schema_described s"
  by (auto simp: payload_problems_def bad_props_Nil max_event_payload_properties_def)

lemma options_problems_Nil: "options_problems s = [] \<longleftrightarrow> s_type s \<in> {TOther [], TObject} \<and> schema_described s"
  by (auto simp: options_problems_def bad_props_Nil)

lemma sample_problems_Nil:
  "s_properties (ev_payload e) \<noteq> [] \<Longrightarrow>
     sample_problems e = [] \<longleftrightarrow> (\<exists>m out. ev_sample e = Some m \<and> check_input (ev_payload e) m = Inr out)"
  by (auto simp: sample_problems_def split: option.splits sum.splits)

lemmas contract_parts =
  name_problems_Nil event_description_Nil arrival_problems_Nil payload_problems_Nil options_problems_Nil
  subject_problems_Nil repeat_problems_Nil summary_problems_Nil

text \<open>
  (C18) An event passes the check of the contract exactly when it keeps the contract: named after its
  service, described in plain words, pushed with a handler or raised by the platform, its payload and options
  typed and described, who it is about and what identifies one occurrence given by required properties, every
  blank of its summary a required plain property, and a sample that passes its own schema.
\<close>

theorem validate_event_is_the_contract:
  "validate_event service e = [] \<longleftrightarrow> keeps_contract service e"
proof (cases "s_properties (ev_payload e) = []")
  case True
  then show ?thesis by (simp add: validate_event_def contract_parts keeps_contract_def)
next
  case False
  show ?thesis
    unfolding validate_event_def map_is_Nil_conv append_is_Nil_conv contract_parts sample_problems_Nil [OF False] keeps_contract_def
    by blast
qed

section \<open>Filling in the summary\<close>

lemma valid_rune_head:
  "valid_rune_size (b # s) = Some n \<Longrightarrow> n \<noteq> 1 \<Longrightarrow> \<forall>x\<in>set (take n (b # s)). 128 \<le> byte x"
  by (auto simp: valid_rune_size.simps byte_in_def cont_byte_def split: if_splits list.splits)

lemma valid_rune_head': "valid_rune_size (b # s) = Some n \<Longrightarrow> c \<in> set (take n (b # s)) \<Longrightarrow> byte c < 128 \<Longrightarrow> take n (b # s) = [c]"
  using valid_rune_head [of b s n] by (cases "n = 1") (auto simp: not_le [symmetric])

lemma ascii_rune: "r \<in> set (runes s) \<Longrightarrow> c \<in> set r \<Longrightarrow> byte c < 128 \<Longrightarrow> r = [c]"
proof (induction s rule: runes.induct)
  case (2 b s)
  then show ?case
    by (auto simp: rune_error_def byte_def split: option.splits dest: valid_rune_head')
qed simp

lemma runes_chars: "r \<in> set (runes s) \<Longrightarrow> c \<in> set r \<Longrightarrow> c \<in> set s \<or> c \<in> set rune_error"
proof (induction s rule: runes.induct)
  case (2 b s)
  show ?case
  proof (cases "valid_rune_size (b # s)")
    case None
    then show ?thesis using 2 by auto
  next
    case (Some n)
    then have "r = take n (b # s) \<or> r \<in> set (runes (drop n (b # s)))" using "2.prems"(1) by simp
    then show ?thesis
    proof
      assume "r = take n (b # s)"
      then show ?thesis using "2.prems"(2) by (metis in_set_takeD)
    next
      assume "r \<in> set (runes (drop n (b # s)))"
      from "2.IH"(2) [OF Some this "2.prems"(2)] show ?thesis by (metis in_set_dropD)
    qed
  qed
qed simp

definition ascii_control :: "char \<Rightarrow> bool" where
  "ascii_control c \<longleftrightarrow> byte c < 32 \<or> byte c = 127"

lemma one_line_clean: "r \<in> set (one_line s) \<Longrightarrow> c \<in> set r \<Longrightarrow> \<not> ascii_control c"
proof
  assume r: "r \<in> set (one_line s)" "c \<in> set r" and bad: "ascii_control c"
  then obtain q where q: "q \<in> set (runes s)" "is_space_rune q \<or> \<not> control_rune q" "r = (if is_space_rune q then '' '' else q)"
    by (auto simp: one_line_def)
  show False
  proof (cases "is_space_rune q")
    case True
    then show False using r(2) bad q(3) by (simp add: ascii_control_def byte_def)
  next
    case False
    then have "q = [c]" using q r(2) bad ascii_rune [of q s c] by (auto simp: ascii_control_def)
    then show False using q(2) False bad by (simp add: control_rune_def ascii_control_def)
  qed
qed

lemma field_runes_chars: "w \<in> set (field_runes cur rs) \<Longrightarrow> c \<in> set w \<Longrightarrow> c \<in> set cur \<or> (\<exists>r\<in>set rs. c \<in> set r)"
  by (induction cur rs rule: field_runes.induct) (auto split: if_splits)

lemma join_chars: "c \<in> set (join sep xs) \<Longrightarrow> c \<in> set sep \<or> (\<exists>x\<in>set xs. c \<in> set x)"
  by (induction sep xs rule: join.induct) auto

lemma not_control [simp]: "\<not> ascii_control (CHR '' '')" "c \<in> set rune_error \<Longrightarrow> \<not> ascii_control c" "c \<in> set ellipsis \<Longrightarrow> \<not> ascii_control c"
  by (auto simp: ascii_control_def byte_def rune_error_def ellipsis_def)

lemma plain_value_clean: "c \<in> set (plain_value v) \<Longrightarrow> \<not> ascii_control c"
proof -
  let ?x = "concat (one_line (value_text v))"
  let ?s = "join '' '' (Go_Strings.fields ?x)"
  have x: "\<not> ascii_control c" if "c \<in> set ?x" for c using that one_line_clean by auto
  have s: "\<not> ascii_control c" if "c \<in> set ?s" for c
  proof -
    have "c \<in> set '' '' \<or> (\<exists>w\<in>set (Go_Strings.fields ?x). c \<in> set w)" using \<open>c \<in> set ?s\<close> by (rule join_chars)
    then consider "c = CHR '' ''" | w where "w \<in> set (Go_Strings.fields ?x)" "c \<in> set w" by auto
    then show ?thesis
    proof cases
      case 2
      then obtain r where "r \<in> set (runes ?x)" "c \<in> set r"
        using field_runes_chars [of w "[]" "runes ?x" c] by (auto simp: Go_Strings.fields_def)
      then show ?thesis using runes_chars x by fastforce
    qed simp
  qed
  have "c \<in> set ?s \<or> c \<in> set ellipsis \<or> (\<exists>r\<in>set (runes ?s). c \<in> set r)" if "c \<in> set (plain_value v)"
    using that by (auto simp: plain_value_def Let_def split: if_splits dest: in_set_takeD)
  then show "c \<in> set (plain_value v) \<Longrightarrow> \<not> ascii_control c"
    using s runes_chars [of _ ?s] by fastforce
qed

lemma rx_cut_chars: "Inl t \<in> set (rx_cut r pl) \<Longrightarrow> c \<in> set t \<Longrightarrow> c \<in> set (concat (snd pl))"
proof -
  assume t: "Inl t \<in> set (rx_cut r pl)" "c \<in> set t"
  then have "c \<in> set (concat (map (case_sum id id) (rx_cut r pl)))" by (auto intro!: bexI [of _ "Inl t"])
  then show ?thesis by (simp only: rx_cut_whole)
qed

lemma rx_replace_chars:
  "c \<in> set (rx_replace r f s) \<Longrightarrow> c \<in> set s \<or> c \<in> set rune_error \<or> (\<exists>m. c \<in> set (f m))"
proof -
  assume "c \<in> set (rx_replace r f s)"
  then obtain x where "x \<in> set (rx_cut r (None, runes s))" "c \<in> set (case_sum id f x)" by (auto simp: rx_replace_def)
  then have "(\<exists>t. Inl t \<in> set (rx_cut r (None, runes s)) \<and> c \<in> set t) \<or> (\<exists>m. c \<in> set (f m))"
    by (simp add: sum.case_eq_if split: if_splits) (metis sum.collapse(1) | metis)+
  then consider t where "Inl t \<in> set (rx_cut r (None, runes s))" "c \<in> set t" | m where "c \<in> set (f m)" by blast
  then show ?thesis
  proof cases
    case 1
    then have "c \<in> set (concat (runes s))" using rx_cut_chars [of t r "(None, runes s)" c] by simp
    then show ?thesis using runes_chars by fastforce
  qed blast
qed

text \<open>
  (C16) The message of an event that keeps the contract can be filled in from any payload that passed the
  event's own check, however the sender filled it, and is one line: no value can bring in a line break.
\<close>

theorem summary_always_renders:
  assumes ok: "validate_event service e = []" "ev_summary e \<noteq> []"
    and payload: "wf_schema (ev_payload e)" "check_payload decode e t = Inr facts"
  shows "\<exists>s. render_summary e facts = Inr s \<and> CHR 0x0A \<notin> set s \<and> CHR 0x0D \<notin> set s"
proof -
  have sum: "trim_space (ev_summary e) \<noteq> []" "\<not> contains_any (ev_summary e) [CHR 0x0A, CHR 0x0D]"
    "\<forall>n\<in>set (summary_blanks (ev_summary e)). required_as (ev_payload e) {TString, TInteger, TNumber, TBoolean} n"
    using ok by (auto simp: validate_event_is_the_contract keeps_contract_def summary_ok_def)
  obtain m where "check_input (ev_payload e) m = Inr facts"
    using payload(2) by (auto simp: check_payload_def split: if_splits sum.splits)
  then have "all_given (s_required (ev_payload e)) facts" using check_input_ok(1) payload(1) by (auto simp: input_conforms_def)
  then have "get_any facts n \<noteq> GNil" if "n \<in> set (summary_blanks (ev_summary e))" for n
    using sum(3) that by (auto simp: required_as_def all_given_def missing_def)
  then have "filter (\<lambda>n. get_any facts n = GNil) (summary_blanks (ev_summary e)) = []" by (simp add: filter_empty_conv)
  then have r: "render_summary e facts =
      Inr (rx_replace summary_blank (\<lambda>m. plain_value (get_any facts (blank_name m))) (ev_summary e))"
    using sum(1) by (simp add: render_summary_def)
  let ?s = "rx_replace summary_blank (\<lambda>m. plain_value (get_any facts (blank_name m))) (ev_summary e)"
  have "c \<notin> set ?s" if c: "ascii_control c" "c \<notin> set (ev_summary e)" for c
  proof
    assume "c \<in> set ?s"
    then obtain m where m: "c \<in> set (plain_value (get_any facts (blank_name m)))"
      using rx_replace_chars [of c summary_blank "\<lambda>m. plain_value (get_any facts (blank_name m))" "ev_summary e"] not_control(2) [of c] c
      by blast
    from plain_value_clean [OF m] show False using c by simp
  qed
  moreover have "ascii_control (CHR 0x0A)" "ascii_control (CHR 0x0D)" by (simp_all add: ascii_control_def byte_def)
  moreover have "CHR 0x0A \<notin> set (ev_summary e)" "CHR 0x0D \<notin> set (ev_summary e)" using sum(2) by (auto simp: contains_any_def)
  ultimately have "CHR 0x0A \<notin> set ?s" "CHR 0x0D \<notin> set ?s" by blast+
  then show ?thesis using r by blast
qed

definition sample_event :: integration_event where
  "sample_event = \<lparr>ev_name = ''github.pr.opened'', ev_description = ''A pull request was opened'', ev_arrival = ArrivalPushed,
     ev_subject = \<lparr>es_kind = SubjectNobody, es_field = [], es_account = []\<rparr>,
     ev_payload = Schema TObject [] [(''title'', Schema TString ''Its title'' [] None [] []), (''n'', Schema TInteger ''Its number'' [] None [] [])]
       None [''title'', ''n''] [],
     ev_options = Schema (TOther []) [] [] None [] [], ev_repeat_key = ''n'',
     ev_sample = Some [(''title'', GStr ''x''), (''n'', GNum (Fin 3))], ev_summary = ''New: {{title}} ({{ n }})'', ev_handled = True\<rparr>"

lemma summary_always_renders_witness:
  "validate_event ''github'' sample_event = [] \<and>
   (\<exists>s. render_summary sample_event [(''title'', GStr (''a'' @ [CHR 0x0A] @ '' b'')), (''n'', GNum (Fin 3))] = Inr s \<and> CHR 0x0A \<notin> set s)"
proof -
  let ?m = "[(''title'', GStr (''a'' @ [CHR 0x0A] @ '' b'')), (''n'', GNum (Fin 3))]"
  have ok: "validate_event ''github'' sample_event = []" by code_simp
  have ne: "ev_summary sample_event \<noteq> []" and wf: "wf_schema (ev_payload sample_event)"
    by (simp_all add: sample_event_def)
  have "check_payload (\<lambda>_. Inr ?m) sample_event [] = Inr ?m" by code_simp
  from summary_always_renders [OF ok ne wf this] ok show ?thesis by auto
qed

section \<open>The registry\<close>

definition registry_ok :: "event_registry \<Rightarrow> bool" where
  "registry_ok r \<longleftrightarrow> distinct (map fst r) \<and>
     (\<forall>(svc, evs)\<in>set r. (\<forall>e\<in>set evs. validate_event svc e = []) \<and> distinct (map ev_name evs) \<and>
        (\<forall>(svc', evs')\<in>set r. svc' \<noteq> svc \<longrightarrow> ev_name ` set evs \<inter> ev_name ` set evs' = {}))"

lemma registry_okD:
  assumes "registry_ok r" "(svc, evs) \<in> set r"
  shows "e \<in> set evs \<Longrightarrow> validate_event svc e = []" "distinct (map ev_name evs)"
    "(svc', evs') \<in> set r \<Longrightarrow> svc' \<noteq> svc \<Longrightarrow> ev_name ` set evs \<inter> ev_name ` set evs' = {}"
proof -
  have *: "(\<forall>e\<in>set evs. validate_event svc e = []) \<and> distinct (map ev_name evs) \<and>
      (\<forall>(svc', evs')\<in>set r. svc' \<noteq> svc \<longrightarrow> ev_name ` set evs \<inter> ev_name ` set evs' = {})"
  proof -
    have "\<forall>x\<in>set r. case x of (svc, evs) \<Rightarrow> (\<forall>e\<in>set evs. validate_event svc e = []) \<and> distinct (map ev_name evs) \<and>
        (\<forall>(svc', evs')\<in>set r. svc' \<noteq> svc \<longrightarrow> ev_name ` set evs \<inter> ev_name ` set evs' = {})"
      using assms(1) by (simp add: registry_ok_def)
    from bspec [OF this assms(2)] show ?thesis by (simp only: prod.case) blast
  qed
  then show "e \<in> set evs \<Longrightarrow> validate_event svc e = []" "distinct (map ev_name evs)" by blast+
  assume "(svc', evs') \<in> set r" "svc' \<noteq> svc"
  with * have "case (svc', evs') of (svc', evs') \<Rightarrow> svc' \<noteq> svc \<longrightarrow> ev_name ` set evs \<inter> ev_name ` set evs' = {}" by blast
  then show "ev_name ` set evs \<inter> ev_name ` set evs' = {}" using \<open>svc' \<noteq> svc\<close> by simp
qed

lemma registry_okI:
  assumes "distinct (map fst r)" "\<And>svc evs e. (svc, evs) \<in> set r \<Longrightarrow> e \<in> set evs \<Longrightarrow> validate_event svc e = []"
    "\<And>svc evs. (svc, evs) \<in> set r \<Longrightarrow> distinct (map ev_name evs)"
    "\<And>svc evs svc' evs'. (svc, evs) \<in> set r \<Longrightarrow> (svc', evs') \<in> set r \<Longrightarrow> svc' \<noteq> svc \<Longrightarrow> ev_name ` set evs \<inter> ev_name ` set evs' = {}"
  shows "registry_ok r"
  using assms unfolding registry_ok_def by blast

lemma registry_ok_distinct: "registry_ok r \<Longrightarrow> distinct (map fst r)"
  by (simp add: registry_ok_def)

lemma registry_ok_subset: "registry_ok r \<Longrightarrow> distinct (map fst r') \<Longrightarrow> set r' \<subseteq> set r \<Longrightarrow> registry_ok r'"
proof (rule registry_okI)
  fix svc evs svc' evs'
  assume "registry_ok r" "set r' \<subseteq> set r" and "(svc, evs) \<in> set r'" "(svc', evs') \<in> set r'" "svc' \<noteq> svc"
  then show "ev_name ` set evs \<inter> ev_name ` set evs' = {}" using registry_okD(3) [of r svc evs svc' evs'] by blast
qed (use registry_okD(1,2) in blast)+

lemma valid_events_from_ok:
  "(\<forall>e\<in>set (fst (valid_events_from service seen es)). validate_event service e = []) \<and>
   distinct (map ev_name (fst (valid_events_from service seen es))) \<and>
   ev_name ` set (fst (valid_events_from service seen es)) \<inter> set seen = {}"
proof (induction service seen es rule: valid_events_from.induct)
  case (3 service seen e es)
  show ?case
  proof (cases "validate_event service e = []")
    case False
    then show ?thesis using "3.IH"(1) [OF False] by (simp add: case_prod_beta' Let_def)
  next
    case True
    show ?thesis
    proof (cases "ev_name e \<in> set seen")
      case old: True
      then show ?thesis using "3.IH"(2) True by (simp add: case_prod_beta' Let_def)
    next
      case new: False
      have "fst (valid_events_from service seen (Some e # es)) = e # fst (valid_events_from service (ev_name e # seen) es)"
        using True new by (simp add: case_prod_beta' Let_def)
      then show ?thesis using "3.IH"(3) True new by auto
    qed
  qed
qed (simp_all add: case_prod_beta' Let_def)

lemma taken_None: "taken_by_others service r n = None \<longleftrightarrow> (\<forall>(svc, evs)\<in>set r. svc \<noteq> service \<longrightarrow> n \<notin> ev_name ` set evs)"
  by (fastforce simp: taken_by_others_def find_None_all)

lemma gm_set_mem: "distinct (map fst r) \<Longrightarrow> x \<in> set (gm_set k v r) \<Longrightarrow> x = (k, v) \<or> (x \<in> set r \<and> fst x \<noteq> k)"
  by (induction r) (auto simp: gm_set_def split: if_splits)

lemma gm_set_keys: "distinct (map fst r) \<Longrightarrow> distinct (map fst (gm_set k v r))"
  by (simp add: gm_set_def distinct_update)

lemma registry_ok_register: "registry_ok r \<Longrightarrow> registry_ok (fst (register_events service es r))"
proof -
  assume ok: "registry_ok r"
  let ?new = "filter (\<lambda>e. taken_by_others service r (ev_name e) = None) (fst (valid_events service es))"
  have r': "fst (register_events service es r) = gm_set service ?new r"
    by (simp add: register_events_def case_prod_beta' Let_def)
  have new: "\<forall>e\<in>set ?new. validate_event service e = []" "distinct (map ev_name ?new)"
    using valid_events_from_ok [of service "[]" es] by (auto simp: valid_events_def distinct_map_filter)
  have apart: "svc \<noteq> service \<Longrightarrow> (svc, evs) \<in> set r \<Longrightarrow> ev_name ` set ?new \<inter> ev_name ` set evs = {}" for svc evs
    by (auto simp: taken_None)
  note d = registry_ok_distinct [OF ok] and mem = gm_set_mem [OF registry_ok_distinct [OF ok]]
  show ?thesis unfolding r'
  proof (rule registry_okI)
    show "distinct (map fst (gm_set service ?new r))" using d by (rule gm_set_keys)
  next
    fix svc evs e
    assume "(svc, evs) \<in> set (gm_set service ?new r)" "e \<in> set evs"
    then show "validate_event svc e = []" using mem new(1) registry_okD(1) [OF ok] by fastforce
  next
    fix svc evs
    assume "(svc, evs) \<in> set (gm_set service ?new r)"
    then show "distinct (map ev_name evs)" using mem new(2) registry_okD(2) [OF ok] by fastforce
  next
    fix svc evs svc' evs'
    assume a: "(svc, evs) \<in> set (gm_set service ?new r)" "(svc', evs') \<in> set (gm_set service ?new r)" "svc' \<noteq> svc"
    have "(svc, evs) = (service, ?new) \<or> ((svc, evs) \<in> set r \<and> svc \<noteq> service)"
      "(svc', evs') = (service, ?new) \<or> ((svc', evs') \<in> set r \<and> svc' \<noteq> service)"
      using mem [OF a(1)] mem [OF a(2)] by simp_all
    then consider "evs = ?new" "(svc', evs') \<in> set r" "svc' \<noteq> service" | "evs' = ?new" "(svc, evs) \<in> set r" "svc \<noteq> service"
      | "(svc, evs) \<in> set r" "(svc', evs') \<in> set r" using a(3) by blast
    then show "ev_name ` set evs \<inter> ev_name ` set evs' = {}"
    proof cases
      case 1
      then show ?thesis using apart by (simp only:)
    next
      case 2
      then show ?thesis using apart [OF 2(3,2)] by (simp only: Int_commute)
    next
      case 3
      then show ?thesis using registry_okD(3) [OF ok] a(3) by blast
    qed
  qed
qed

lemma gm_del_mem: "x \<in> set (gm_del k r) \<Longrightarrow> x \<in> set r"
  by (auto simp: gm_del_def AList.delete_eq)

lemma registry_ok_remove: "registry_ok r \<Longrightarrow> registry_ok (remove_events service r)"
proof -
  assume ok: "registry_ok r"
  have "distinct (map fst (gm_del service r))" using ok by (simp add: registry_ok_def gm_del_def distinct_delete)
  moreover have "set (gm_del service r) \<subseteq> set r" using gm_del_mem by blast
  ultimately show ?thesis unfolding remove_events_def using ok by (rule registry_ok_subset [rotated])
qed

lemma same_service:
  assumes "registry_ok r" "(svc, evs) \<in> set r" "(svc', evs') \<in> set r" "n \<in> ev_name ` set evs" "n \<in> ev_name ` set evs'"
  shows "svc' = svc \<and> evs' = evs"
proof -
  have "svc' = svc" using registry_okD(3) [OF assms(1,2,3)] assms(4,5) by blast
  then show ?thesis using registry_ok_distinct [OF assms(1)] assms(2,3) by (metis map_of_is_SomeI option.inject)
qed

text \<open>What happens to a registry over time.\<close>

datatype registry_op = RegisterEvents string "integration_event option list" | RemoveEvents string

fun registry_step :: "registry_op \<Rightarrow> event_registry \<Rightarrow> event_registry" where
  "registry_step (RegisterEvents service es) r = fst (register_events service es r)"
| "registry_step (RemoveEvents service) r = remove_events service r"

definition registry_run :: "registry_op list \<Rightarrow> event_registry" where
  "registry_run ops = foldl (\<lambda>r op'. registry_step op' r) [] ops"

lemma registry_run_ok: "registry_ok (registry_run ops)"
proof (induction ops rule: rev_induct)
  case Nil
  then show ?case by (simp add: registry_run_def registry_ok_def)
next
  case (snoc x ops)
  then show ?case
    by (cases x) (simp_all add: registry_run_def registry_ok_register registry_ok_remove)
qed

lemma find_event_iff:
  assumes "registry_ok r"
  shows "find_event n r = Some e \<longleftrightarrow> (\<exists>svc evs. (svc, evs) \<in> set r \<and> e \<in> set evs \<and> ev_name e = n)"
proof
  assume "find_event n r = Some e"
  then show "\<exists>svc evs. (svc, evs) \<in> set r \<and> e \<in> set evs \<and> ev_name e = n"
    by (fastforce simp: find_event_def dest: find_Some_mem)
next
  assume "\<exists>svc evs. (svc, evs) \<in> set r \<and> e \<in> set evs \<and> ev_name e = n"
  then obtain svc evs where e: "(svc, evs) \<in> set r" "e \<in> set evs" "ev_name e = n" by blast
  then obtain e' where e': "find_event n r = Some e'"
    by (cases "find_event n r") (auto simp: find_event_def find_None_all)
  then obtain svc' evs' where m: "(svc', evs') \<in> set r" "e' \<in> set evs'" "ev_name e' = n"
    by (fastforce simp: find_event_def dest: find_Some_mem)
  have "n \<in> ev_name ` set evs" "n \<in> ev_name ` set evs'" using e(2,3) m(2,3) by (metis image_eqI)+
  then have "evs' = evs" using same_service [OF assms e(1) m(1)] by blast
  then have "e' = e" using registry_okD(2) [OF assms e(1)] e(2,3) m(2,3) by (auto simp: distinct_map dest: inj_onD)
  then show "find_event n r = Some e" using e' by simp
qed

text \<open>
  (C17) Whatever was registered and removed, in any order: every event in the registry keeps the contract of
  its service, no name is used twice, and an event is found by its name, the same one in every order the
  services are gone through.
\<close>

theorem registered_events_found:
  assumes "(svc, evs) \<in> set (registry_run ops)" "e \<in> set evs" and "set r' = set (registry_run ops)"
  shows "keeps_contract svc e \<and> (distinct (map fst r') \<longrightarrow> find_event (ev_name e) r' = Some e \<and> service_of_event (ev_name e) r' = Some svc)"
proof -
  have ok: "registry_ok (registry_run ops)" by (rule registry_run_ok)
  then have "validate_event svc e = []" using assms(1,2) by (rule registry_okD(1))
  moreover have "find_event (ev_name e) r' = Some e \<and> service_of_event (ev_name e) r' = Some svc" if d: "distinct (map fst r')"
  proof -
    have ok': "registry_ok r'" using ok d assms(3) registry_ok_subset by blast
    have mem: "(svc, evs) \<in> set r'" using assms by simp
    then have "find_event (ev_name e) r' = Some e" using find_event_iff [OF ok'] assms(2) by blast
    moreover have "find (\<lambda>(s, es). ev_name e \<in> ev_name ` set es) r' \<noteq> None"
      using mem assms(2) by (auto simp: find_None_all)
    then obtain svc' evs' where f: "find (\<lambda>(s, es). ev_name e \<in> ev_name ` set es) r' = Some (svc', evs')" by auto
    then have "(svc', evs') \<in> set r'" "ev_name e \<in> ev_name ` set evs'" by (auto dest: find_Some_mem)
    then have "svc' = svc" using same_service [OF ok' mem] assms(2) by blast
    ultimately show ?thesis using f by (simp add: service_of_event_def)
  qed
  ultimately show ?thesis by (simp add: validate_event_is_the_contract)
qed

definition sample_ops :: "registry_op list" where
  "sample_ops = [RegisterEvents ''github'' [Some sample_event, None, Some sample_event], RemoveEvents ''stripe'']"

lemma registered_events_found_witness:
  "registry_run sample_ops = [(''github'', [sample_event])] \<and> keeps_contract ''github'' sample_event \<and>
   find_event ''github.pr.opened'' (registry_run sample_ops) = Some sample_event"
proof -
  have "validate_event ''github'' sample_event = []" by code_simp
  then have r: "registry_run sample_ops = [(''github'', [sample_event])]"
    by (simp add: registry_run_def sample_ops_def register_events_def valid_events_def remove_events_def gm_set_def gm_del_def
        taken_by_others_def)
  have n: "ev_name sample_event = ''github.pr.opened''" by (simp add: sample_event_def)
  have "(''github'', [sample_event]) \<in> set (registry_run sample_ops)" "sample_event \<in> set [sample_event]"
    "distinct (map fst (registry_run sample_ops))" by (simp_all add: r)
  then have "keeps_contract ''github'' sample_event \<and> find_event (ev_name sample_event) (registry_run sample_ops) = Some sample_event"
    using registered_events_found by blast
  then show ?thesis using r n by simp
qed

end
