(* ===== verification/Conv_Memory.thy ===== *)
theory Conv_Memory
  imports Tool_Gates
begin

text \<open>
  What an agent remembers of its conversations (\<^verbatim>\<open>domain/memory.go\<close>, \<^verbatim>\<open>postgres/memory.go\<close>) and where it
  may reach a person from it (\<^verbatim>\<open>ReachAt\<close> of \<^verbatim>\<open>runtime/host.go\<close>). Two tables: the messages, in the order of
  their ids, and one row for each place a conversation is held in. Each statement is one step at the
  time \<^verbatim>\<open>NOW()\<close> has. What \<^verbatim>\<open>json.Marshal\<close> writes of a message's calls is what is read back.
\<close>

section \<open>The tables\<close>

record conv_key =
  ck_agent :: string
  ck_identity :: string
  ck_chat :: string
  ck_thread :: string
  ck_user :: string
  ck_shared :: bool

record memory_row =
  mr_agent :: string
  mr_identity :: string
  mr_chat :: string
  mr_thread :: string
  mr_user :: string
  mr_message :: message

record last_exchange =
  le_message :: string
  le_text :: string
  le_at :: int
  le_reply :: string
  le_changed :: "string list"

record convo_row =
  co_user :: string
  co_skills :: "string list"
  co_skills_at :: "int option"
  co_in_id :: string
  co_in_text :: string
  co_in_at :: "int option"
  co_reply_id :: string
  co_changed :: "string list"
  co_edit_note :: "int option"

type_synonym convo_place = "string \<times> string \<times> string \<times> string"

record memory =
  mt_messages :: "memory_row list"
  mt_convos :: "(convo_place \<times> convo_row) list"

definition new_convo :: convo_row where
  "new_convo = \<lparr>co_user = [], co_skills = [], co_skills_at = None, co_in_id = [], co_in_text = [], co_in_at = None,
     co_reply_id = [], co_changed = [], co_edit_note = None\<rparr>"

definition new_memory :: memory where
  "new_memory = \<lparr>mt_messages = [], mt_convos = []\<rparr>"

definition place_of :: "conv_key \<Rightarrow> convo_place" where
  "place_of k = (ck_agent k, ck_identity k, ck_chat k, ck_thread k)"

text \<open>\<^verbatim>\<open>INSERT ... ON CONFLICT (agent_id, identity_id, chat_id, thread_id) DO UPDATE\<close>.\<close>

definition upsert_convo :: "convo_place \<Rightarrow> (convo_row \<Rightarrow> convo_row) \<Rightarrow> memory \<Rightarrow> memory" where
  "upsert_convo p f t =
     t\<lparr>mt_convos := AList.update p (f (case map_of (mt_convos t) p of None \<Rightarrow> new_convo | Some r \<Rightarrow> r)) (mt_convos t)\<rparr>"

definition keep_user :: "string \<Rightarrow> convo_row \<Rightarrow> convo_row" where
  "keep_user u r = r\<lparr>co_user := (if u \<noteq> [] then u else co_user r)\<rparr>"

section \<open>The conversation\<close>

definition memory_read_rows :: nat where "memory_read_rows = 150"
definition memory_whole :: nat where "memory_whole = 3"
definition memory_said :: nat where "memory_said = 10"
definition memory_max_content :: nat where "memory_max_content = 4000"

definition content_overflow :: string where
  "content_overflow = ''[content too large '' @ [CHR 0xE2, CHR 0x80, CHR 0x94] @ '' omitted]''"

text \<open>A row of the person's conversation with this agent; in a chat others read, only of this chat.\<close>

definition of_conversation :: "conv_key \<Rightarrow> memory_row \<Rightarrow> bool" where
  "of_conversation k r \<longleftrightarrow> mr_agent r = ck_agent k \<and> mr_user r = ck_user k \<and>
     (ck_shared k \<longrightarrow> mr_identity r = ck_identity k \<and> mr_chat r = ck_chat k)"

definition last_rows :: "nat \<Rightarrow> 'a list \<Rightarrow> 'a list" where
  "last_rows n xs = drop (length xs - n) xs"

definition history :: "conv_key \<Rightarrow> memory \<Rightarrow> message list" where
  "history k t =
     (if ck_user k = [] then []
      else recent_window (map mr_message (last_rows memory_read_rows (filter (of_conversation k) (mt_messages t))))
             memory_whole memory_said)"

definition stored_message :: "message \<Rightarrow> message" where
  "stored_message m =
     m\<lparr>m_content := (if memory_max_content < length (m_content m) then content_overflow else m_content m), m_internal := False\<rparr>"

definition memory_row_of :: "conv_key \<Rightarrow> message \<Rightarrow> memory_row" where
  "memory_row_of k m = \<lparr>mr_agent = ck_agent k, mr_identity = ck_identity k, mr_chat = ck_chat k, mr_thread = ck_thread k,
     mr_user = ck_user k, mr_message = stored_message m\<rparr>"

definition append_messages :: "conv_key \<Rightarrow> message list \<Rightarrow> memory \<Rightarrow> memory" where
  "append_messages k ms t =
     (if ms = [] then t
      else let t1 = upsert_convo (place_of k) (keep_user (ck_user k)) t
           in t1\<lparr>mt_messages := mt_messages t1 @ map (memory_row_of k) ms\<rparr>)"

text \<open>The chats the person wrote in, the latest first.\<close>

definition chats_of :: "string \<Rightarrow> string \<Rightarrow> memory \<Rightarrow> (string \<times> string) list" where
  "chats_of agent user t =
     (if agent = [] \<or> user = [] then []
      else take 20 (rev (remdups (map (\<lambda>r. (mr_identity r, mr_chat r))
             (filter (\<lambda>r. mr_agent r = agent \<and> mr_user r = user \<and> m_role (mr_message r) = RoleUser \<and> mr_identity r \<noteq> [] \<and> mr_chat r \<noteq> [])
                (mt_messages t))))))"

section \<open>Follow-ups\<close>

text \<open>The latest row whose time is set; of equals, any: here the first.\<close>

definition latest_skills :: "convo_row list \<Rightarrow> (string list \<times> int) option" where
  "latest_skills rows =
     foldl (\<lambda>b r. case (co_skills_at r, b) of
         (None, _) \<Rightarrow> b
       | (Some a, None) \<Rightarrow> Some (co_skills r, a)
       | (Some a, Some (_, a0)) \<Rightarrow> (if a0 < a then Some (co_skills r, a) else b)) None rows"

definition last_skills :: "conv_key \<Rightarrow> memory \<Rightarrow> (string list \<times> int) option" where
  "last_skills k t =
     (if ck_user k \<noteq> []
      then latest_skills (map snd (filter (\<lambda>((a, _), r). a = ck_agent k \<and> co_user r = ck_user k) (mt_convos t)))
      else latest_skills (case map_of (mt_convos t) (place_of k) of None \<Rightarrow> [] | Some r \<Rightarrow> [r]))"

definition set_last_skills :: "int \<Rightarrow> conv_key \<Rightarrow> string list \<Rightarrow> memory \<Rightarrow> memory" where
  "set_last_skills now k skills t =
     (if skills = [] then t
      else upsert_convo (place_of k) (\<lambda>r. keep_user (ck_user k) (r\<lparr>co_skills := skills, co_skills_at := Some now\<rparr>)) t)"

section \<open>The last exchange\<close>

definition get_exchange :: "conv_key \<Rightarrow> memory \<Rightarrow> last_exchange option" where
  "get_exchange k t =
     (case map_of (mt_convos t) (place_of k) of
        None \<Rightarrow> None
      | Some r \<Rightarrow>
          (case co_in_at r of
             None \<Rightarrow> None
           | Some at_ \<Rightarrow>
               if co_in_id r = [] then None
               else Some \<lparr>le_message = co_in_id r, le_text = co_in_text r, le_at = at_, le_reply = co_reply_id r,
                          le_changed = co_changed r\<rparr>))"

definition set_exchange :: "conv_key \<Rightarrow> last_exchange \<Rightarrow> memory \<Rightarrow> memory" where
  "set_exchange k e t =
     upsert_convo (place_of k)
       (\<lambda>r. r\<lparr>co_in_id := le_message e, co_in_text := le_text e, co_in_at := Some (le_at e), co_reply_id := le_reply e,
              co_changed := le_changed e\<rparr>) t"

text \<open>24 hours, in nanoseconds.\<close>

definition edit_note_every :: int where "edit_note_every = 86400000000000"

definition may_note_edit :: "int \<Rightarrow> conv_key \<Rightarrow> memory \<Rightarrow> bool \<times> memory" where
  "may_note_edit now k t =
     (case map_of (mt_convos t) (place_of k) of
        None \<Rightarrow> (False, t)
      | Some r \<Rightarrow>
          if (case co_edit_note r of None \<Rightarrow> True | Some at_ \<Rightarrow> at_ < now - edit_note_every)
          then (True, t\<lparr>mt_convos := AList.update (place_of k) (r\<lparr>co_edit_note := Some now\<rparr>) (mt_convos t)\<rparr>)
          else (False, t))"

text \<open>
  \<^verbatim>\<open>RewindLastExchange\<close>: of the rows of the chat (the statement does not ask which chat app's), those from
  the last one the person wrote on are deleted; the ids are the order of the list.
\<close>

definition of_chat :: "conv_key \<Rightarrow> memory_row \<Rightarrow> bool" where
  "of_chat k r \<longleftrightarrow> mr_agent r = ck_agent k \<and> mr_user r = ck_user k \<and> mr_chat r = ck_chat k \<and> mr_thread r = ck_thread k"

definition written_here :: "conv_key \<Rightarrow> memory_row \<Rightarrow> bool" where
  "written_here k r \<longleftrightarrow> of_chat k r \<and> m_role (mr_message r) = RoleUser"

text \<open>Read from the newest: rows of the chat go, until the one the person wrote has gone.\<close>

fun drop_newest :: "conv_key \<Rightarrow> memory_row list \<Rightarrow> memory_row list" where
  "drop_newest k [] = []"
| "drop_newest k (r # rs) =
     (if written_here k r then rs else if of_chat k r then drop_newest k rs else r # drop_newest k rs)"

definition rewind_rows :: "conv_key \<Rightarrow> memory_row list \<Rightarrow> memory_row list" where
  "rewind_rows k rows = (if \<exists>r\<in>set rows. written_here k r then rev (drop_newest k (rev rows)) else rows)"

definition forget_exchange :: "convo_row \<Rightarrow> convo_row" where
  "forget_exchange r = r\<lparr>co_in_id := [], co_in_text := [], co_in_at := None, co_reply_id := [], co_changed := []\<rparr>"

definition rewind :: "conv_key \<Rightarrow> memory \<Rightarrow> memory" where
  "rewind k t =
     \<lparr>mt_messages = rewind_rows k (mt_messages t),
      mt_convos = map (\<lambda>(p, r). (p, if p = place_of k then forget_exchange r else r)) (mt_convos t)\<rparr>"

section \<open>Where to reach a person\<close>

text \<open>\<open>found c\<close>: the messenger of chat \<open>c\<close>, if it has one, with whether others read that chat.\<close>

definition reach_at ::
  "string list option \<Rightarrow> bool \<Rightarrow> (string \<times> string \<Rightarrow> bool option) \<Rightarrow> string \<Rightarrow> string \<Rightarrow> memory \<Rightarrow> string \<times> string \<Rightarrow> string \<times> string" where
  "reach_at identities keeps_chats found agent user t home =
     (case identities of
        None \<Rightarrow> home
      | Some own \<Rightarrow>
          if user = [] \<or> \<not> keeps_chats then home
          else (case find (\<lambda>c. fst c \<in> set own \<and> (case found c of None \<Rightarrow> False | Some shared \<Rightarrow> shared \<longrightarrow> c = home)) (chats_of agent user t) of
                  None \<Rightarrow> home | Some c \<Rightarrow> c))"

end
