(* ===== verification/Conv_Lines.thy ===== *)
theory Conv_Lines
  imports Conv_Memory Choice_Host
begin

text \<open>
  The line of messages of each conversation (\<^verbatim>\<open>runtime/inbound.go\<close>) and what becomes of an edited message
  (\<^verbatim>\<open>domain/editing.go\<close>, \<^verbatim>\<open>runtime/editing.go\<close>, the checks for \<^verbatim>\<open>ErrEdited\<close> of \<^verbatim>\<open>handleTurn\<close>). A
  conversation is worked through by one goroutine, a \<open>line_worker\<close>. What happens under one lock, or in
  one call of the memory, is one step; between two steps any other goroutine's may come. What a turn
  does before its reply is \<open>Loop_Run\<close>'s; here it makes changes, keeps its messages and replies.
\<close>

section \<open>The state\<close>

text \<open>\<open>cq_cancel\<close>: the turn \<^verbatim>\<open>cancel\<close> would stop.\<close>

record conv_queue =
  cq_msgs :: "inbound list"
  cq_current :: string
  cq_cancel :: "nat option"

text \<open>
  Where a worker stands with its message: taken from the line, \<^verbatim>\<open>current\<close> not yet set; being answered;
  answered and kept in the conversation; about to be sent; over.
\<close>

datatype phase = Taken | Handling nat | KeptIt nat | Replying nat | Settled nat

record line_worker =
  wk_key :: string
  wk_msg :: inbound
  wk_phase :: phase

datatype line_note =
    LnArrived string inbound
  | LnBegan string nat inbound
  | LnChanged string nat string             \<comment> \<open>what a turn changed, by its plain name\<close>
  | LnKept string nat
  | LnReplied string nat inbound
  | LnTold conv string
  | LnAtOnce inbound
  | LnCutShort conv

record lines =
  ln_queues :: "conv_queue gomap"
  ln_workers :: "line_worker list"
  ln_turns :: nat
  ln_dropped :: "nat list"
  ln_stopped :: bool
  ln_memory :: memory
  ln_edits :: "inbound list"
  ln_again :: "inbound list"
  ln_log :: "line_note list"

definition no_lines :: "memory \<Rightarrow> lines" where
  "no_lines t = \<lparr>ln_queues = [], ln_workers = [], ln_turns = 0, ln_dropped = [], ln_stopped = False, ln_memory = t,
     ln_edits = [], ln_again = [], ln_log = []\<rparr>"

text \<open>
  The agent, and what it is given: who wrote from a chat, if known; whether its memory keeps exchanges, and
  that edits were left alone; whether a conversation's chat app can cut a question short.
\<close>

record line_host =
  lh_agent :: string
  lh_resolve :: "string \<Rightarrow> string \<Rightarrow> string \<Rightarrow> string option"
  lh_exchanges :: bool
  lh_notes :: bool
  lh_cuts :: "conv \<Rightarrow> bool"

definition conv_line :: "conv \<Rightarrow> string" where
  "conv_line c = conversation_key (cv_identity c) (cv_chat c) (cv_thread c) (cv_sender c)"

definition line_of :: "line_host \<Rightarrow> inbound \<Rightarrow> string" where
  "line_of h m = lh_agent h @ ''|'' @ conv_line (ib_conv m)"

definition jot :: "line_note list \<Rightarrow> lines \<Rightarrow> lines" where
  "jot ns s = s\<lparr>ln_log := ln_log s @ ns\<rparr>"

definition put_queue :: "string \<Rightarrow> conv_queue \<Rightarrow> lines \<Rightarrow> lines" where
  "put_queue k q s = s\<lparr>ln_queues := gm_set k q (ln_queues s)\<rparr>"

section \<open>Joining the line\<close>

definition new_queue :: conv_queue where
  "new_queue = \<lparr>cq_msgs = [], cq_current = [], cq_cancel = None\<rparr>"

definition enqueue_inbound :: "line_host \<Rightarrow> inbound \<Rightarrow> lines \<Rightarrow> lines" where
  "enqueue_inbound h m s =
     (let k = line_of h m; s1 = jot [LnArrived k m] s in
      case gm_get (ln_queues s) k of
        Some q \<Rightarrow> put_queue k (q\<lparr>cq_msgs := cq_msgs q @ [m]\<rparr>) s1
      | None \<Rightarrow> (put_queue k new_queue s1)\<lparr>ln_workers := ln_workers s @ [\<lparr>wk_key = k, wk_msg = m, wk_phase = Taken\<rparr>]\<rparr>)"

definition with_person :: "line_host \<Rightarrow> inbound \<Rightarrow> conv" where
  "with_person h m =
     (let c = ib_conv m;
          c1 = (if cv_user c = []
                then case lh_resolve h (cv_identity c) (cv_chat c) (cv_sender c) of None \<Rightarrow> c | Some u \<Rightarrow> c\<lparr>cv_user := u\<rparr>
                else c)
      in if ib_thread m \<noteq> [] then c1\<lparr>cv_thread := ib_thread m\<rparr> else c1)"

definition conv_key_of :: "line_host \<Rightarrow> conv \<Rightarrow> conv_key" where
  "conv_key_of h c = \<lparr>ck_agent = lh_agent h, ck_identity = cv_identity c, ck_chat = cv_chat c, ck_thread = cv_thread c,
     ck_user = cv_user c, ck_shared = cv_shared c\<rparr>"

definition answered :: "line_host \<Rightarrow> inbound \<Rightarrow> memory \<Rightarrow> bool" where
  "answered h m t \<longleftrightarrow> lh_exchanges h \<and>
     (case get_exchange (conv_key_of h (with_person h m)) t of None \<Rightarrow> False | Some e \<Rightarrow> le_message e = ib_message m)"

text \<open>The first waiting message with the edited one's id takes its words.\<close>

fun reword :: "string \<Rightarrow> string \<Rightarrow> inbound list \<Rightarrow> inbound list" where
  "reword i t [] = []"
| "reword i t (m # ms) = (if ib_message m = i then m\<lparr>ib_text := t\<rparr> # ms else m # reword i t ms)"

definition put_aside :: "inbound \<Rightarrow> lines \<Rightarrow> lines" where
  "put_aside m s = s\<lparr>ln_edits := ln_edits s @ [m]\<rparr>"

definition edit_in_line :: "string \<Rightarrow> inbound \<Rightarrow> lines \<Rightarrow> lines" where
  "edit_in_line k fresh s =
     (case gm_get (ln_queues s) k of
        None \<Rightarrow> put_aside fresh s
      | Some q \<Rightarrow>
          if ib_message fresh \<in> ib_message ` set (cq_msgs q)
          then put_queue k (q\<lparr>cq_msgs := reword (ib_message fresh) (ib_text fresh) (cq_msgs q)\<rparr>) s
          else (case cq_cancel q of
              Some t \<Rightarrow>
                if cq_current q = ib_message fresh
                then (put_queue k (q\<lparr>cq_msgs := fresh # cq_msgs q\<rparr>) s)\<lparr>ln_dropped := t # ln_dropped s\<rparr>
                else put_aside fresh s
            | None \<Rightarrow> put_aside fresh s))"

definition dispatch_edit :: "line_host \<Rightarrow> inbound \<Rightarrow> lines \<Rightarrow> lines" where
  "dispatch_edit h m s =
     (if trim_space (ib_text m) = [] \<or> ib_message m = [] then s
      else let fresh = m\<lparr>ib_edited := False\<rparr>
           in if answered h m (ln_memory s) then put_aside fresh s else edit_in_line (line_of h m) fresh s)"

definition dispatch_inbound :: "line_host \<Rightarrow> inbound \<Rightarrow> lines \<Rightarrow> lines" where
  "dispatch_inbound h m0 s =
     (let m = (if ib_thread m0 \<noteq> [] then m0\<lparr>ib_conv := (ib_conv m0)\<lparr>cv_thread := ib_thread m0\<rparr>\<rparr> else m0) in
      if ib_callback m \<noteq> None \<or> ib_instructions m \<noteq> None then jot [LnAtOnce m] s
      else if ib_edited m then dispatch_edit h m s
      else enqueue_inbound h m
        (if trim_space (ib_text m) \<noteq> [] \<and> lh_cuts h (ib_conv m) then jot [LnCutShort (ib_conv m)] s else s))"

section \<open>Working through it\<close>

definition set_worker :: "nat \<Rightarrow> line_worker \<Rightarrow> lines \<Rightarrow> lines" where
  "set_worker i w s = s\<lparr>ln_workers := (ln_workers s)[i := w]\<rparr>"

definition go_on :: "nat \<Rightarrow> phase \<Rightarrow> lines \<Rightarrow> lines" where
  "go_on i ph s = set_worker i ((ln_workers s ! i)\<lparr>wk_phase := ph\<rparr>) s"

text \<open>A new turn, with its own \<^verbatim>\<open>cancel\<close>.\<close>

definition begin_turn :: "nat \<Rightarrow> line_worker \<Rightarrow> lines \<Rightarrow> lines" where
  "begin_turn i w s =
     (case gm_get (ln_queues s) (wk_key w) of
        None \<Rightarrow> s
      | Some q \<Rightarrow>
          (let t = Suc (ln_turns s) in
           jot [LnBegan (wk_key w) t (wk_msg w)]
             (go_on i (Handling t)
               (put_queue (wk_key w) (q\<lparr>cq_current := ib_message (wk_msg w), cq_cancel := Some t\<rparr>) (s\<lparr>ln_turns := t\<rparr>)))))"

text \<open>The turn is over: the next in line, or the worker ends and the conversation is idle.\<close>

definition end_turn :: "nat \<Rightarrow> line_worker \<Rightarrow> lines \<Rightarrow> lines" where
  "end_turn i w s =
     (case gm_get (ln_queues s) (wk_key w) of
        None \<Rightarrow> s
      | Some q \<Rightarrow>
          (case cq_msgs q of
             [] \<Rightarrow> s\<lparr>ln_queues := gm_del (wk_key w) (ln_queues s), ln_workers := take i (ln_workers s) @ drop (Suc i) (ln_workers s)\<rparr>
           | m # ms \<Rightarrow>
               if ln_stopped s
               then s\<lparr>ln_queues := gm_del (wk_key w) (ln_queues s), ln_workers := take i (ln_workers s) @ drop (Suc i) (ln_workers s)\<rparr>
               else set_worker i (w\<lparr>wk_msg := m, wk_phase := Taken\<rparr>)
                      (put_queue (wk_key w) \<lparr>cq_msgs = ms, cq_current = [], cq_cancel = None\<rparr> s)))"

text \<open>\<^verbatim>\<open>noteExchange\<close>.\<close>

definition note_exchange :: "line_host \<Rightarrow> conv \<Rightarrow> string \<Rightarrow> int \<Rightarrow> string \<Rightarrow> string list \<Rightarrow> memory \<Rightarrow> memory" where
  "note_exchange h c text now reply changed t =
     (if \<not> lh_exchanges h \<or> cv_user c = [] \<or> cv_message c = [] then t
      else set_exchange (conv_key_of h c) \<lparr>le_message = cv_message c, le_text = text, le_at = now, le_reply = reply, le_changed = changed\<rparr> t)"

text \<open>Where a message comes from, as its turn sees it.\<close>

definition turn_conv :: "line_host \<Rightarrow> inbound \<Rightarrow> conv" where
  "turn_conv h m = (let c = with_person h m in if ib_message m \<noteq> [] then c\<lparr>cv_message := ib_message m\<rparr> else c)"

definition changed_by :: "nat \<Rightarrow> line_note list \<Rightarrow> string list" where
  "changed_by t ns = concat (map (\<lambda>n. case n of LnChanged k t' x \<Rightarrow> (if t' = t then [x] else []) | _ \<Rightarrow> []) ns)"

text \<open>The checks and what is between them: the reply is kept, then sent, unless its message has been edited.\<close>

definition keep_turn :: "line_host \<Rightarrow> nat \<Rightarrow> nat \<Rightarrow> message list \<Rightarrow> line_worker \<Rightarrow> lines \<Rightarrow> lines" where
  "keep_turn h i t ms w s =
     (if t \<in> set (ln_dropped s) then go_on i (Settled t) s
      else jot [LnKept (wk_key w) t]
             (go_on i (KeptIt t) (s\<lparr>ln_memory := append_messages (conv_key_of h (turn_conv h (wk_msg w))) (kept ms) (ln_memory s)\<rparr>)))"

definition check_turn :: "nat \<Rightarrow> nat \<Rightarrow> lines \<Rightarrow> lines" where
  "check_turn i t s = go_on i (if t \<in> set (ln_dropped s) then Settled t else Replying t) s"

definition reply_turn :: "line_host \<Rightarrow> nat \<Rightarrow> nat \<Rightarrow> int \<Rightarrow> string \<Rightarrow> line_worker \<Rightarrow> lines \<Rightarrow> lines" where
  "reply_turn h i t now reply w s =
     jot [LnReplied (wk_key w) t (wk_msg w)]
       (go_on i (Settled t)
         (s\<lparr>ln_memory := note_exchange h (turn_conv h (wk_msg w)) (ib_text (wk_msg w)) now reply (changed_by t (ln_log s)) (ln_memory s)\<rparr>))"

section \<open>An edit of a message answered before\<close>

text \<open>15 minutes, in nanoseconds.\<close>

definition edit_window :: int where "edit_window = 900000000000"

definition ignored_edit_note :: string where
  "ignored_edit_note = ''I only take in a change to your latest message, for 15 minutes after you send it. Write it again as a new message if you'' @ [CHR 0x27] @ ''d like me to look at it.''"

definition edited_hint :: "string \<Rightarrow> string \<Rightarrow> string list \<Rightarrow> string" where
  "edited_hint old new changed =
     ''The person edited their last message: it said '' @ [CHR 0x22] @ old @ [CHR 0x22] @ '' and now says '' @ [CHR 0x22] @ new @ [CHR 0x22] @
     ''. Your reply to the old words already did this: '' @ join '', '' changed @
     ''. Don'' @ [CHR 0x27] @ ''t do it again and don'' @ [CHR 0x27] @ ''t undo it on your own. Say plainly what was already done (and that it can be undone if they ask), then help with the new words; anything that would change something, offer it as a choice and wait for their yes.''"

datatype edit_answer = LeftAlone | TellIgnored conv | AnswerAgain inbound

definition answer_edit :: "line_host \<Rightarrow> int \<Rightarrow> inbound \<Rightarrow> memory \<Rightarrow> edit_answer \<times> memory" where
  "answer_edit h now m t =
     (let c = with_person h m; k = conv_key_of h c in
      if \<not> lh_exchanges h then (LeftAlone, t)
      else case get_exchange k t of
          None \<Rightarrow> (LeftAlone, t)
        | Some e \<Rightarrow>
            if le_message e \<noteq> ib_message m \<or> edit_window < now - le_at e
            then (if \<not> lh_notes h then (LeftAlone, t)
                  else let (may, t') = may_note_edit now k t in (if may then TellIgnored c else LeftAlone, t'))
            else if trim_space (le_text e) = trim_space (ib_text m) then (LeftAlone, t)
            else if le_changed e = []
            then (AnswerAgain (m\<lparr>ib_conv := c, ib_replaces := le_reply e\<rparr>), rewind k t)
            else (AnswerAgain (m\<lparr>ib_conv := c, ib_look_ups_only := True, ib_hint := edited_hint (le_text e) (ib_text m) (le_changed e)\<rparr>), t))"

definition finish_edit :: "edit_answer \<times> memory \<Rightarrow> lines \<Rightarrow> lines" where
  "finish_edit r s =
     (let s1 = s\<lparr>ln_memory := snd r\<rparr> in
      case fst r of
        LeftAlone \<Rightarrow> s1
      | TellIgnored c \<Rightarrow> jot [LnTold c ignored_edit_note] s1
      | AnswerAgain m \<Rightarrow> s1\<lparr>ln_again := ln_again s1 @ [m]\<rparr>)"

section \<open>Every order of the steps\<close>

datatype line_event =
    LeReceive inbound
  | LeEdit nat int                      \<comment> \<open>which of the edits put aside is looked at, and when\<close>
  | LeAgain nat                         \<comment> \<open>which of those to be answered again joins its line\<close>
  | LeBegin nat
  | LeChange nat string
  | LeKeep nat "message list"
  | LeQuiet nat                         \<comment> \<open>the turn ends without a reply to keep\<close>
  | LeCheck nat
  | LeReply nat int string
  | LeEnd nat
  | LeStop                              \<comment> \<open>\<^verbatim>\<open>CancelTurns\<close>\<close>

definition take_nth :: "nat \<Rightarrow> 'a list \<Rightarrow> 'a list" where
  "take_nth n xs = take n xs @ drop (Suc n) xs"

inductive line_step :: "line_host \<Rightarrow> lines \<Rightarrow> line_event \<Rightarrow> lines \<Rightarrow> bool" for h :: line_host where
  receive: "line_step h s (LeReceive m) (dispatch_inbound h m s)"
| edit: "n < length (ln_edits s) \<Longrightarrow>
    line_step h s (LeEdit n now) (finish_edit (answer_edit h now (ln_edits s ! n) (ln_memory s)) (s\<lparr>ln_edits := take_nth n (ln_edits s)\<rparr>))"
| again: "n < length (ln_again s) \<Longrightarrow>
    line_step h s (LeAgain n) (enqueue_inbound h (ln_again s ! n) (s\<lparr>ln_again := take_nth n (ln_again s)\<rparr>))"
| begins: "i < length (ln_workers s) \<Longrightarrow> wk_phase (ln_workers s ! i) = Taken \<Longrightarrow>
    line_step h s (LeBegin i) (begin_turn i (ln_workers s ! i) s)"
| change: "i < length (ln_workers s) \<Longrightarrow> wk_phase (ln_workers s ! i) = Handling t \<Longrightarrow>
    line_step h s (LeChange i x) (jot [LnChanged (wk_key (ln_workers s ! i)) t x] s)"
| keep: "i < length (ln_workers s) \<Longrightarrow> wk_phase (ln_workers s ! i) = Handling t \<Longrightarrow>
    line_step h s (LeKeep i ms) (keep_turn h i t ms (ln_workers s ! i) s)"
| quiet: "i < length (ln_workers s) \<Longrightarrow> wk_phase (ln_workers s ! i) = Handling t \<or> wk_phase (ln_workers s ! i) = KeptIt t \<Longrightarrow>
    line_step h s (LeQuiet i) (go_on i (Settled t) s)"
| check: "i < length (ln_workers s) \<Longrightarrow> wk_phase (ln_workers s ! i) = KeptIt t \<Longrightarrow>
    line_step h s (LeCheck i) (check_turn i t s)"
| reply: "i < length (ln_workers s) \<Longrightarrow> wk_phase (ln_workers s ! i) = Replying t \<Longrightarrow>
    line_step h s (LeReply i now r) (reply_turn h i t now r (ln_workers s ! i) s)"
| ends: "i < length (ln_workers s) \<Longrightarrow> wk_phase (ln_workers s ! i) = Settled t \<Longrightarrow>
    line_step h s (LeEnd i) (end_turn i (ln_workers s ! i) s)"
| stop: "line_step h s LeStop (s\<lparr>ln_stopped := True\<rparr>)"

inductive line_run :: "line_host \<Rightarrow> memory \<Rightarrow> line_event list \<Rightarrow> lines \<Rightarrow> bool" for h :: line_host and t0 :: memory where
  start: "line_run h t0 [] (no_lines t0)"
| step: "line_run h t0 es s \<Longrightarrow> line_step h s e s' \<Longrightarrow> line_run h t0 (es @ [e]) s'"

inductive_cases line_stepE: "line_step h s e s'"

end
