(* ===== verification/Line_Facts.thy ===== *)
theory Line_Facts
  imports Conv_Lines
begin

text \<open>
  What holds of the lines of messages in every order of the steps: a conversation's queue has exactly one
  worker, and what has been begun and not dropped, what is taken and what waits are together what arrived,
  in its order. Turn numbers are not used twice, so dropping a turn concerns one conversation only.
\<close>

section \<open>One of a list\<close>

lemma filter_split:
  assumes "i < length xs"
  shows "filter P xs = filter P (take i xs) @ (if P (xs ! i) then [xs ! i] else []) @ filter P (drop (Suc i) xs)"
  by (subst id_take_nth_drop [OF assms]) simp

lemma filter_single:
  assumes "filter P xs = [x]" "i < length xs" "P (xs ! i)"
  shows "xs ! i = x" "filter P (take i xs) = []" "filter P (drop (Suc i) xs) = []"
  using assms filter_split [of i xs P] by (auto simp: append_eq_Cons_conv)

lemma filter_put:
  assumes "filter P xs = [x]" "i < length xs" "P (xs ! i)" "P y"
  shows "filter P (xs[i := y]) = [y]"
  using filter_single [OF assms(1-3)] assms by (simp add: upd_conv_take_nth_drop)

lemma filter_take_out:
  assumes "filter P xs = [x]" "i < length xs" "P (xs ! i)"
  shows "filter P (take i xs @ drop (Suc i) xs) = []"
  using filter_single [OF assms] by simp

lemma filter_put_other: "i < length xs \<Longrightarrow> \<not> P (xs ! i) \<Longrightarrow> \<not> P y \<Longrightarrow> filter P (xs[i := y]) = filter P xs"
  by (subst (2) filter_split [of i]) (simp_all add: upd_conv_take_nth_drop)

lemma filter_take_out_other:
  "i < length xs \<Longrightarrow> \<not> P (xs ! i) \<Longrightarrow> filter P (take i xs) @ filter P (drop (Suc i) xs) = filter P xs"
  by (simp add: filter_split [of i xs])

section \<open>Reading the log\<close>

definition begun :: "string \<Rightarrow> line_note list \<Rightarrow> (nat \<times> inbound) list" where
  "begun k ns = concat (map (\<lambda>n. case n of LnBegan k' t m \<Rightarrow> (if k' = k then [(t, m)] else []) | _ \<Rightarrow> []) ns)"

definition arrived :: "string \<Rightarrow> line_note list \<Rightarrow> string list" where
  "arrived k ns = concat (map (\<lambda>n. case n of LnArrived k' m \<Rightarrow> (if k' = k then [ib_message m] else []) | _ \<Rightarrow> []) ns)"

definition turn_numbers :: "line_note list \<Rightarrow> nat list" where
  "turn_numbers ns = concat (map (\<lambda>n. case n of LnBegan k t m \<Rightarrow> [t] | _ \<Rightarrow> []) ns)"

lemma log_append [simp]:
  "begun k (ns @ ns') = begun k ns @ begun k ns'"
  "arrived k (ns @ ns') = arrived k ns @ arrived k ns'"
  "turn_numbers (ns @ ns') = turn_numbers ns @ turn_numbers ns'"
  by (simp_all add: begun_def arrived_def turn_numbers_def)

lemma log_Nil [simp]: "begun k [] = []" "arrived k [] = []" "turn_numbers [] = []"
  by (simp_all add: begun_def arrived_def turn_numbers_def)

lemma log_Cons:
  "begun k (n # ns) = (case n of LnBegan k' t m \<Rightarrow> (if k' = k then [(t, m)] else []) | _ \<Rightarrow> []) @ begun k ns"
  "arrived k (n # ns) = (case n of LnArrived k' m \<Rightarrow> (if k' = k then [ib_message m] else []) | _ \<Rightarrow> []) @ arrived k ns"
  "turn_numbers (n # ns) = (case n of LnBegan k t m \<Rightarrow> [t] | _ \<Rightarrow> []) @ turn_numbers ns"
  by (simp_all add: begun_def arrived_def turn_numbers_def)

lemma begun_numbers: "(t, m) \<in> set (begun k ns) \<Longrightarrow> t \<in> set (turn_numbers ns)"
  by (induction ns) (auto simp: log_Cons split: line_note.splits if_splits)

lemma begun_one_key:
  "distinct (turn_numbers ns) \<Longrightarrow> (t, m) \<in> set (begun k ns) \<Longrightarrow> (t, m') \<in> set (begun k' ns) \<Longrightarrow> k = k'"
  by (induction ns) (auto simp: log_Cons dest: begun_numbers split: line_note.splits if_splits)

lemma begun_distinct: "distinct (turn_numbers ns) \<Longrightarrow> distinct (map fst (begun k ns))"
  by (induction ns) (auto simp: log_Cons dest: begun_numbers split: line_note.splits)

section \<open>The invariant\<close>

definition working :: "string \<Rightarrow> lines \<Rightarrow> line_worker list" where
  "working k s = filter (\<lambda>w. wk_key w = k) (ln_workers s)"

fun turn_at :: "phase \<Rightarrow> nat option" where
  "turn_at Taken = None"
| "turn_at (Handling t) = Some t"
| "turn_at (KeptIt t) = Some t"
| "turn_at (Replying t) = Some t"
| "turn_at (Settled t) = Some t"

text \<open>The messages whose turn has begun and was not dropped, by their ids.\<close>

definition dealt_with :: "string \<Rightarrow> lines \<Rightarrow> string list" where
  "dealt_with k s = map (ib_message \<circ> snd) (filter (\<lambda>(t, m). t \<notin> set (ln_dropped s)) (begun k (ln_log s)))"

definition waiting :: "string \<Rightarrow> lines \<Rightarrow> string list" where
  "waiting k s =
     map (ib_message \<circ> wk_msg) (filter (\<lambda>w. wk_phase w = Taken) (working k s)) @
     (case gm_get (ln_queues s) k of None \<Rightarrow> [] | Some q \<Rightarrow> map ib_message (cq_msgs q))"

definition serves :: "string \<Rightarrow> conv_queue \<Rightarrow> line_worker \<Rightarrow> lines \<Rightarrow> bool" where
  "serves k q w s \<longleftrightarrow>
     (case turn_at (wk_phase w) of
        None \<Rightarrow> cq_cancel q = None
      | Some t \<Rightarrow> cq_cancel q = Some t \<and> cq_current q = ib_message (wk_msg w) \<and> (\<exists>xs. begun k (ln_log s) = xs @ [(t, wk_msg w)]) \<and>
          (t \<in> set (ln_dropped s) \<longrightarrow> cq_msgs q \<noteq> [] \<and> ib_message (hd (cq_msgs q)) = cq_current q))"

definition line_ok :: "string \<Rightarrow> lines \<Rightarrow> bool" where
  "line_ok k s \<longleftrightarrow>
     (case gm_get (ln_queues s) k of None \<Rightarrow> working k s = [] | Some q \<Rightarrow> \<exists>w. working k s = [w] \<and> serves k q w s) \<and>
     (\<not> ln_stopped s \<longrightarrow> dealt_with k s @ waiting k s = arrived k (ln_log s))"

definition numbers_ok :: "lines \<Rightarrow> bool" where
  "numbers_ok s \<longleftrightarrow> distinct (turn_numbers (ln_log s)) \<and> 
     (\<forall>t\<in>set (turn_numbers (ln_log s)). t \<le> ln_turns s) \<and> (\<forall>t\<in>set (ln_dropped s). t \<le> ln_turns s)"

definition lines_ok :: "lines \<Rightarrow> bool" where
  "lines_ok s \<longleftrightarrow> numbers_ok s \<and> (\<forall>k. line_ok k s)"

text \<open>A conversation's line depends on what is its own.\<close>

lemma line_ok_frame:
  assumes "line_ok k s" "gm_get (ln_queues s') k = gm_get (ln_queues s) k" "working k s' = working k s"
    "begun k (ln_log s') = begun k (ln_log s)" "arrived k (ln_log s') = arrived k (ln_log s)" "ln_stopped s' = ln_stopped s"
    "\<And>t m. (t, m) \<in> set (begun k (ln_log s)) \<Longrightarrow> t \<in> set (ln_dropped s') \<longleftrightarrow> t \<in> set (ln_dropped s)"
  shows "line_ok k s'"
proof -
  have d: "dealt_with k s' = dealt_with k s" unfolding dealt_with_def assms(4) using assms(7)
    by (intro arg_cong [where f = "map (ib_message \<circ> snd)"] filter_cong) auto
  have s: "serves k q w s'" if "serves k q w s" for q w
    using that assms(4,7) unfolding serves_def by (fastforce split: option.splits)
  have "waiting k s' = waiting k s" by (simp add: waiting_def assms(2,3))
  then show ?thesis using assms(1) s by (fastforce simp: line_ok_def assms(2,3,5,6) d split: option.splits)
qed

definition same_lines :: "lines \<Rightarrow> lines \<Rightarrow> bool" where
  "same_lines s s' \<longleftrightarrow> ln_queues s' = ln_queues s \<and> ln_workers s' = ln_workers s \<and> ln_dropped s' = ln_dropped s \<and>
     ln_stopped s' = ln_stopped s \<and> ln_turns s' = ln_turns s \<and> turn_numbers (ln_log s') = turn_numbers (ln_log s) \<and>
     (\<forall>k. begun k (ln_log s') = begun k (ln_log s) \<and> arrived k (ln_log s') = arrived k (ln_log s))"

lemma same_lines_ok:
  assumes "lines_ok s" "same_lines s s'"
  shows "lines_ok s'"
proof -
  have "line_ok k s'" for k
    by (rule line_ok_frame [of k s]) (use assms in \<open>simp_all add: lines_ok_def same_lines_def working_def\<close>)
  then show ?thesis using assms by (simp add: lines_ok_def same_lines_def numbers_ok_def)
qed

section \<open>Every step keeps it\<close>

lemma lines_okI:
  assumes "numbers_ok s" "\<And>k. line_ok k s"
  shows "lines_ok s"
  using assms by (simp add: lines_ok_def)

lemma enqueue_ok:
  assumes ok: "lines_ok s"
  shows "lines_ok (enqueue_inbound h m s)"
proof (rule lines_okI)
  let ?k = "line_of h m"
  show "numbers_ok (enqueue_inbound h m s)"
    using ok by (auto simp: lines_ok_def numbers_ok_def enqueue_inbound_def Let_def jot_def put_queue_def log_Cons split: option.split)
  fix k
  show "line_ok k (enqueue_inbound h m s)"
  proof (cases "k = ?k")
    case False
    have "line_ok k s" using ok by (simp add: lines_ok_def)
    then show ?thesis
      by (rule line_ok_frame)
        (use False in \<open>auto simp: enqueue_inbound_def Let_def jot_def put_queue_def working_def log_Cons split: option.split\<close>)
  next
    case True
    have "line_ok ?k s" using ok by (simp add: lines_ok_def)
    then show ?thesis
      by (auto simp: True line_ok_def enqueue_inbound_def Let_def jot_def put_queue_def working_def log_Cons dealt_with_def waiting_def
          serves_def new_queue_def split: option.splits)
  qed
qed

lemma reword_ids [simp]: "map ib_message (reword i t ms) = map ib_message ms"
  by (induction ms) auto

lemma reword_Nil_iff [simp]: "reword i t ms = [] \<longleftrightarrow> ms = []"
  by (cases ms) auto

lemma reword_hd: "ms \<noteq> [] \<Longrightarrow> ib_message (hd (reword i t ms)) = ib_message (hd ms)"
  by (cases ms) auto

text \<open>A queue whose waiting ids are the same.\<close>

lemma requeue_ok:
  assumes ok: "lines_ok s" and q: "gm_get (ln_queues s) k = Some q" and ids: "map ib_message ms = map ib_message (cq_msgs q)"
  shows "lines_ok (put_queue k (q\<lparr>cq_msgs := ms\<rparr>) s)"
proof (rule lines_okI)
  show "numbers_ok (put_queue k (q\<lparr>cq_msgs := ms\<rparr>) s)" using ok by (simp add: lines_ok_def numbers_ok_def put_queue_def)
  have hd: "cq_msgs q \<noteq> [] \<longrightarrow> ms \<noteq> [] \<and> ib_message (hd ms) = ib_message (hd (cq_msgs q))"
    using ids by (metis list.map_sel(1) map_is_Nil_conv)
  fix k'
  have "line_ok k' s" using ok by (simp add: lines_ok_def)
  then show "line_ok k' (put_queue k (q\<lparr>cq_msgs := ms\<rparr>) s)"
    using q ids hd by (cases "k' = k")
      (auto simp: line_ok_def put_queue_def working_def dealt_with_def waiting_def serves_def split: option.splits)
qed

lemma drop_ok:
  assumes ok: "lines_ok s" and q: "gm_get (ln_queues s) k = Some q" "cq_cancel q = Some t" "cq_current q = ib_message m"
    "ib_message m \<notin> ib_message ` set (cq_msgs q)"
  shows "lines_ok ((put_queue k (q\<lparr>cq_msgs := m # cq_msgs q\<rparr>) s)\<lparr>ln_dropped := t # ln_dropped s\<rparr>)" (is "lines_ok ?s")
proof (rule lines_okI)
  have here: "line_ok k s" and nums: "numbers_ok s" using ok by (simp_all add: lines_ok_def)
  obtain w where w: "working k s = [w]" "serves k q w s" using here q(1) by (auto simp: line_ok_def)
  have at: "turn_at (wk_phase w) = Some t" using w(2) q(2) by (auto simp: serves_def split: option.splits)
  then obtain xs where xs: "begun k (ln_log s) = xs @ [(t, wk_msg w)]" "cq_current q = ib_message (wk_msg w)"
    using w(2) by (auto simp: serves_def)
  have "cq_msgs q = [] \<or> ib_message (hd (cq_msgs q)) \<in> ib_message ` set (cq_msgs q)"
    by (cases "cq_msgs q") auto
  then have new: "t \<notin> set (ln_dropped s)" using w(2) at q(3,4) unfolding serves_def by simp metis
  have dist: "distinct (map fst (begun k (ln_log s)))" using nums by (auto simp: numbers_ok_def intro: begun_distinct)
  have mem: "(t, wk_msg w) \<in> set (begun k (ln_log s))" by (simp add: xs)
  show "numbers_ok ?s" using nums begun_numbers [OF mem] by (auto simp: numbers_ok_def put_queue_def)
  have nt: "wk_phase w \<noteq> Taken" using at by auto
  have out: "dealt_with k s = dealt_with k ?s @ [ib_message m]"
  proof -
    have "filter (\<lambda>(t', m). t' \<notin> set (t # ln_dropped s)) xs = filter (\<lambda>(t', m). t' \<notin> set (ln_dropped s)) xs"
      using dist by (intro filter_cong) (force simp: xs)+
    then show ?thesis using new q(3) by (simp add: dealt_with_def put_queue_def xs)
  qed
  fix k'
  show "line_ok k' ?s"
  proof (cases "k' = k")
    case False
    have "line_ok k' s" using ok by (simp add: lines_ok_def)
    then show ?thesis
      by (rule line_ok_frame)
        (use False nums mem in \<open>auto simp: put_queue_def working_def numbers_ok_def dest: begun_one_key\<close>)
  next
    case True
    have "waiting k ?s = ib_message m # waiting k s" using w(1) q(1) nt by (simp add: waiting_def working_def put_queue_def)
    moreover have "serves k (q\<lparr>cq_msgs := m # cq_msgs q\<rparr>) w ?s" using at xs q(2,3) by (simp add: serves_def put_queue_def)
    moreover have "working k ?s = [w]" using w(1) by (simp add: working_def put_queue_def)
    ultimately show ?thesis using here out by (simp add: True line_ok_def put_queue_def)
  qed
qed

lemma put_aside_ok: "lines_ok s \<Longrightarrow> lines_ok (put_aside m s)"
  by (erule same_lines_ok) (simp add: same_lines_def put_aside_def)

lemma edit_in_line_ok:
  assumes "lines_ok s"
  shows "lines_ok (edit_in_line k m s)"
proof (cases "gm_get (ln_queues s) k")
  case None
  then show ?thesis using assms by (simp add: edit_in_line_def put_aside_ok)
next
  case (Some q)
  then show ?thesis using assms requeue_ok [OF assms Some, of "reword (ib_message m) (ib_text m) (cq_msgs q)"] drop_ok [OF assms Some, of _ m]
    by (auto simp: edit_in_line_def put_aside_ok split: option.split)
qed

lemma jot_ok:
  assumes "lines_ok s" "turn_numbers ns = []" "\<And>k. arrived k ns = []"
  shows "lines_ok (jot ns s)"
proof -
  have "begun k ns = []" for k using assms(2) begun_numbers [of _ _ k ns] by (cases "begun k ns") auto
  then have "same_lines s (jot ns s)" using assms by (simp add: same_lines_def jot_def)
  then show ?thesis using assms(1) same_lines_ok by blast
qed

lemma arrival_ok: "lines_ok s \<Longrightarrow> lines_ok (dispatch_inbound h m s)"
  by (simp add: dispatch_inbound_def dispatch_edit_def Let_def jot_ok log_Cons enqueue_ok put_aside_ok edit_in_line_ok)

text \<open>A worker that stays with its message and its turn.\<close>

lemma go_on_ok:
  assumes ok: "lines_ok s" and i: "i < length (ln_workers s)"
    and ph: "turn_at ph = turn_at (wk_phase (ln_workers s ! i))" "ph \<noteq> Taken"
  shows "lines_ok (go_on i ph s)"
proof (rule lines_okI)
  let ?w = "ln_workers s ! i"
  show "numbers_ok (go_on i ph s)" using ok by (simp add: lines_ok_def numbers_ok_def go_on_def set_worker_def)
  have nt: "wk_phase ?w \<noteq> Taken" using ph by (cases ph) auto
  fix k
  have here: "line_ok k s" using ok by (simp add: lines_ok_def)
  show "line_ok k (go_on i ph s)"
  proof (cases "k = wk_key ?w")
    case False
    from here show ?thesis
      by (rule line_ok_frame) (use False i in \<open>auto simp: go_on_def set_worker_def working_def filter_put_other\<close>)
  next
    case True
    have "?w \<in> set (working k s)" using i True by (simp add: working_def)
    then obtain q w where q: "gm_get (ln_queues s) k = Some q" "working k s = [w]" "serves k q w s"
      using here by (auto simp: line_ok_def split: option.splits)
    have w: "w = ?w" using filter_single(1) [OF q(2) [unfolded working_def] i] True by simp
    have put: "working k (go_on i ph s) = [?w\<lparr>wk_phase := ph\<rparr>]"
      using filter_put [OF q(2) [unfolded working_def] i] True by (simp add: working_def go_on_def set_worker_def)
    show ?thesis using here q nt ph put by (auto simp: line_ok_def w go_on_def set_worker_def waiting_def dealt_with_def serves_def split: option.splits)
  qed
qed

lemma begin_ok:
  assumes ok: "lines_ok s" and i: "i < length (ln_workers s)" and ph: "wk_phase (ln_workers s ! i) = Taken"
  shows "lines_ok (begin_turn i (ln_workers s ! i) s)"
proof (cases "gm_get (ln_queues s) (wk_key (ln_workers s ! i))")
  case None
  then show ?thesis using ok by (simp add: begin_turn_def)
next
  case (Some q)
  let ?w = "ln_workers s ! i" and ?t = "Suc (ln_turns s)"
  let ?s = "begin_turn i ?w s"
  have nums: "numbers_ok s" using ok by (simp add: lines_ok_def)
  have parts: "ln_log ?s = ln_log s @ [LnBegan (wk_key ?w) ?t (wk_msg ?w)]" "ln_dropped ?s = ln_dropped s" "ln_stopped ?s = ln_stopped s"
    "ln_turns ?s = ?t" "ln_workers ?s = (ln_workers s)[i := ?w\<lparr>wk_phase := Handling ?t\<rparr>]"
    "ln_queues ?s = gm_set (wk_key ?w) (q\<lparr>cq_current := ib_message (wk_msg ?w), cq_cancel := Some ?t\<rparr>) (ln_queues s)"
    by (simp_all add: begin_turn_def Some jot_def go_on_def set_worker_def put_queue_def Let_def)
  have fresh: "?t \<notin> set (ln_dropped s)" using nums unfolding numbers_ok_def by (meson Suc_n_not_le_n)
  show ?thesis
  proof (rule lines_okI)
    show "numbers_ok ?s" using nums by (fastforce simp: numbers_ok_def parts log_Cons intro: le_SucI)
    fix k
    have here: "line_ok k s" using ok by (simp add: lines_ok_def)
    show "line_ok k ?s"
    proof (cases "k = wk_key ?w")
      case False
      from here show ?thesis
        by (rule line_ok_frame) (use False i in \<open>auto simp: parts working_def filter_put_other log_Cons\<close>)
    next
      case True
      obtain w where q: "working k s = [w]" using here Some True by (auto simp: line_ok_def)
      have w: "w = ?w" using filter_single(1) [OF q [unfolded working_def] i] True by simp
      have put: "working k ?s = [?w\<lparr>wk_phase := Handling ?t\<rparr>]"
        using filter_put [OF q [unfolded working_def] i] True by (simp add: working_def parts)
      show ?thesis using here put q fresh Some True ph
        by (auto simp: line_ok_def w parts waiting_def dealt_with_def serves_def log_Cons)
    qed
  qed
qed

lemma end_ok:
  assumes ok: "lines_ok s" and i: "i < length (ln_workers s)" and ph: "wk_phase (ln_workers s ! i) = Settled t"
  shows "lines_ok (end_turn i (ln_workers s ! i) s)"
proof (cases "gm_get (ln_queues s) (wk_key (ln_workers s ! i))")
  case None
  then show ?thesis using ok by (simp add: end_turn_def)
next
  case (Some q)
  let ?w = "ln_workers s ! i" and ?s = "end_turn i (ln_workers s ! i) s"
  have same: "ln_log ?s = ln_log s" "ln_dropped ?s = ln_dropped s" "ln_stopped ?s = ln_stopped s" "ln_turns ?s = ln_turns s"
    by (simp_all add: end_turn_def Some set_worker_def put_queue_def split: list.split)
  show ?thesis
  proof (rule lines_okI)
    show "numbers_ok ?s" using ok by (auto simp: lines_ok_def numbers_ok_def same)
    fix k
    have here: "line_ok k s" using ok by (simp add: lines_ok_def)
    show "line_ok k ?s"
    proof (cases "k = wk_key ?w")
      case False
      from here show ?thesis
        by (rule line_ok_frame)
          (use False i in \<open>auto simp: end_turn_def Some set_worker_def put_queue_def working_def filter_put_other filter_take_out_other split: list.split\<close>)
    next
      case True
      obtain w where q: "working k s = [w]" using here Some True by (auto simp: line_ok_def)
      have w: "w = ?w" using filter_single(1) [OF q [unfolded working_def] i] True by simp
      have left: "working k ?s = (case cq_msgs q of [] \<Rightarrow> [] | m # ms \<Rightarrow> if ln_stopped s then [] else [?w\<lparr>wk_msg := m, wk_phase := Taken\<rparr>])"
        using filter_take_out [OF q [unfolded working_def] i] filter_put [OF q [unfolded working_def] i] True
        by (simp add: working_def end_turn_def Some set_worker_def put_queue_def split: list.split)
      have queue: "gm_get (ln_queues ?s) k =
          (case cq_msgs q of [] \<Rightarrow> None | m # ms \<Rightarrow> if ln_stopped s then None else Some \<lparr>cq_msgs = ms, cq_current = [], cq_cancel = None\<rparr>)"
        using Some True by (simp add: end_turn_def set_worker_def put_queue_def split: list.split)
      show ?thesis using here q Some True ph left queue
        by (cases "cq_msgs q") (auto simp: line_ok_def w same waiting_def dealt_with_def serves_def)
    qed
  qed
qed

lemma line_step_ok:
  assumes "lines_ok s" "line_step h s e s'"
  shows "lines_ok s'"
  using assms(2)
proof cases
  case (receive m)
  then show ?thesis using assms(1) arrival_ok by simp
next
  case (edit n now)
  have "same_lines s s'" by (auto simp: edit same_lines_def finish_edit_def Let_def jot_def log_Cons split: edit_answer.split)
  then show ?thesis using assms(1) same_lines_ok by blast
next
  case (again n)
  have "lines_ok (s\<lparr>ln_again := take_nth n (ln_again s)\<rparr>)" using assms(1) by (rule same_lines_ok) (simp add: same_lines_def)
  then show ?thesis using again enqueue_ok by simp
next
  case (begins i)
  then show ?thesis using assms(1) begin_ok by simp
next
  case (change i t x)
  then show ?thesis using assms(1) by (simp add: jot_ok log_Cons)
next
  case (keep i t ms)
  have "lines_ok (s\<lparr>ln_memory := M\<rparr>)" for M using assms(1) by (rule same_lines_ok) (simp add: same_lines_def)
  then show ?thesis using keep assms(1) by (auto simp: keep_turn_def go_on_ok intro!: jot_ok go_on_ok simp: log_Cons)
next
  case (quiet i t)
  then show ?thesis using assms(1) by (auto intro!: go_on_ok)
next
  case (check i t)
  then show ?thesis using assms(1) by (auto simp: check_turn_def intro!: go_on_ok)
next
  case (reply i t now r)
  have "lines_ok (s\<lparr>ln_memory := M\<rparr>)" for M using assms(1) by (rule same_lines_ok) (simp add: same_lines_def)
  then show ?thesis using reply by (auto simp: reply_turn_def log_Cons intro!: jot_ok go_on_ok)
next
  case (ends i t)
  then show ?thesis using assms(1) end_ok by simp
next
  case stop
  have "line_ok k s'" if "line_ok k s" for k
    using that by (auto simp: stop line_ok_def working_def serves_def split: option.splits)
  then show ?thesis using assms(1) by (simp add: stop lines_ok_def numbers_ok_def)
qed

lemma no_lines_ok: "lines_ok (no_lines t)"
  by (simp add: lines_ok_def numbers_ok_def line_ok_def no_lines_def working_def dealt_with_def waiting_def)

lemma line_run_ok: "line_run h t0 es s \<Longrightarrow> lines_ok s"
  by (induction rule: line_run.induct) (auto intro: no_lines_ok line_step_ok)

section \<open>Turns are not confused\<close>

lemma distinct_by_filter: "(\<And>k. length (filter (\<lambda>x. f x = k) xs) \<le> 1) \<Longrightarrow> distinct (map f xs)"
proof (induction xs)
  case (Cons x xs)
  have "filter (\<lambda>y. f y = f x) xs = []" using Cons.prems [of "f x"] by simp
  moreover have "length (filter (\<lambda>y. f y = k) xs) \<le> 1" for k using Cons.prems [of k] by (auto split: if_splits)
  ultimately show ?case using Cons.IH by (auto simp: filter_empty_conv)
qed simp

lemma one_worker: "lines_ok s \<Longrightarrow> distinct (map wk_key (ln_workers s))"
proof (rule distinct_by_filter)
  fix k
  assume "lines_ok s"
  then have "line_ok k s" by (simp add: lines_ok_def)
  then show "length (filter (\<lambda>w. wk_key w = k) (ln_workers s)) \<le> 1"
    by (auto simp: line_ok_def working_def split: option.splits)
qed

lemma worker_serves:
  assumes ok: "lines_ok s" and i: "i < length (ln_workers s)"
  obtains q where "gm_get (ln_queues s) (wk_key (ln_workers s ! i)) = Some q" "serves (wk_key (ln_workers s ! i)) q (ln_workers s ! i) s"
proof -
  let ?k = "wk_key (ln_workers s ! i)"
  have here: "line_ok ?k s" using ok by (simp add: lines_ok_def)
  have mem: "ln_workers s ! i \<in> set (working ?k s)" using i by (simp add: working_def)
  then obtain q w where q: "gm_get (ln_queues s) ?k = Some q" "working ?k s = [w]" "serves ?k q w s"
    using here by (auto simp: line_ok_def split: option.splits)
  then show ?thesis using mem by (auto intro: that)
qed

lemma turn_begun:
  assumes "lines_ok s" "i < length (ln_workers s)" "turn_at (wk_phase (ln_workers s ! i)) = Some t"
  shows "(t, wk_msg (ln_workers s ! i)) \<in> set (begun (wk_key (ln_workers s ! i)) (ln_log s))" "t \<le> ln_turns s"
proof -
  obtain q where "serves (wk_key (ln_workers s ! i)) q (ln_workers s ! i) s" using worker_serves [OF assms(1,2)] by blast
  then show mem: "(t, wk_msg (ln_workers s ! i)) \<in> set (begun (wk_key (ln_workers s ! i)) (ln_log s))"
    using assms(3) by (auto simp: serves_def)
  then show "t \<le> ln_turns s" using begun_numbers [OF mem] assms(1) by (auto simp: lines_ok_def numbers_ok_def)
qed

lemma turns_apart:
  assumes ok: "lines_ok s" and i: "i < length (ln_workers s)" "j < length (ln_workers s)"
    and t: "turn_at (wk_phase (ln_workers s ! i)) = Some t" "turn_at (wk_phase (ln_workers s ! j)) = Some t"
  shows "i = j"
proof -
  have "wk_key (ln_workers s ! i) = wk_key (ln_workers s ! j)"
    using turn_begun(1) [OF ok i(1) t(1)] turn_begun(1) [OF ok i(2) t(2)] ok
    by (auto simp: lines_ok_def numbers_ok_def dest: begun_one_key)
  then show ?thesis using one_worker [OF ok] i by (simp add: distinct_conv_nth) metis
qed

text \<open>A turn that is still being answered has kept and sent nothing.\<close>

fun speaks :: "nat \<Rightarrow> line_note \<Rightarrow> bool" where
  "speaks t (LnKept k t') \<longleftrightarrow> t' = t"
| "speaks t (LnReplied k t' m) \<longleftrightarrow> t' = t"
| "speaks t _ \<longleftrightarrow> False"

definition unspoken :: "lines \<Rightarrow> bool" where
  "unspoken s \<longleftrightarrow>
     (\<forall>i<length (ln_workers s). \<forall>t. wk_phase (ln_workers s ! i) = Handling t \<longrightarrow> \<not> list_ex (speaks t) (ln_log s)) \<and>
     (\<forall>t. list_ex (speaks t) (ln_log s) \<longrightarrow> t \<le> ln_turns s)"

text \<open>A dropped turn that has not kept its reply, and never will.\<close>

definition silenced :: "nat \<Rightarrow> lines \<Rightarrow> bool" where
  "silenced t s \<longleftrightarrow> t \<in> set (ln_dropped s) \<and> t \<le> ln_turns s \<and> \<not> list_ex (speaks t) (ln_log s) \<and>
     (\<forall>w\<in>set (ln_workers s). wk_phase w \<noteq> KeptIt t \<and> wk_phase w \<noteq> Replying t)"

lemma set_update_cases: "x \<in> set (xs[i := y]) \<Longrightarrow> x = y \<or> x \<in> set xs"
  using set_update_subset_insert by fastforce

lemma in_take_out: "x \<in> set (take i xs @ drop (Suc i) xs) \<Longrightarrow> x \<in> set xs"
  by (auto dest: in_set_takeD in_set_dropD)

text \<open>Steps that say nothing, and at most settle or take up a message.\<close>

definition calm :: "lines \<Rightarrow> lines \<Rightarrow> bool" where
  "calm s s' \<longleftrightarrow> set (ln_dropped s) \<subseteq> set (ln_dropped s') \<and> ln_turns s' = ln_turns s \<and>
     (\<forall>t. list_ex (speaks t) (ln_log s') = list_ex (speaks t) (ln_log s)) \<and>
     (\<forall>w\<in>set (ln_workers s'). wk_phase w = Taken \<or> (\<exists>t. wk_phase w = Settled t) \<or> wk_phase w \<in> wk_phase ` set (ln_workers s))"

lemma calm_jot: "(\<And>t. \<not> list_ex (speaks t) ns) \<Longrightarrow> calm s (jot ns s)"
  by (auto simp: calm_def jot_def)

lemma calm_enqueue: "calm s (enqueue_inbound h m s)"
  by (auto simp: calm_def enqueue_inbound_def Let_def jot_def put_queue_def split: option.split)

lemma calm_edit_in_line: "calm s (edit_in_line k m s)"
  by (auto simp: calm_def edit_in_line_def put_aside_def put_queue_def split: option.split)

lemma calm_dispatch: "calm s (dispatch_inbound h m s)"
proof -
  have "calm s (enqueue_inbound h m' (jot [LnCutShort c] s))" for m' c
    using calm_enqueue [of "jot [LnCutShort c] s" h m'] by (auto simp: calm_def jot_def)
  moreover have "calm s (put_aside m' s)" for m' by (auto simp: calm_def put_aside_def)
  moreover have "calm s s" by (auto simp: calm_def)
  ultimately show ?thesis
    by (simp add: dispatch_inbound_def dispatch_edit_def Let_def calm_jot calm_enqueue calm_edit_in_line)
qed

lemma calm_edit: "calm s (finish_edit r (s\<lparr>ln_edits := es\<rparr>))"
  by (auto simp: calm_def finish_edit_def Let_def jot_def split: edit_answer.split)

lemma calm_again: "calm s (enqueue_inbound h m (s\<lparr>ln_again := ms\<rparr>))"
  using calm_enqueue [of "s\<lparr>ln_again := ms\<rparr>" h m] by (auto simp: calm_def)

lemma calm_settle: "calm s (go_on i (Settled t) s)"
  by (auto simp: calm_def go_on_def set_worker_def dest!: set_update_cases)

lemma calm_end: "calm s (end_turn i w s)"
  by (auto simp: calm_def end_turn_def set_worker_def put_queue_def dest!: set_update_cases in_set_takeD in_set_dropD
      split: option.split list.split)

lemma step_cases:
  assumes "line_step h s e s'"
  obtains "calm s s'"
  | i where "i < length (ln_workers s)" "wk_phase (ln_workers s ! i) = Taken" "s' = begin_turn i (ln_workers s ! i) s"
  | i t ms where "i < length (ln_workers s)" "wk_phase (ln_workers s ! i) = Handling t" "t \<notin> set (ln_dropped s)"
      "s' = keep_turn h i t ms (ln_workers s ! i) s"
  | i t where "i < length (ln_workers s)" "wk_phase (ln_workers s ! i) = KeptIt t" "t \<notin> set (ln_dropped s)" "s' = go_on i (Replying t) s"
  | i t now r where "i < length (ln_workers s)" "wk_phase (ln_workers s ! i) = Replying t" "s' = reply_turn h i t now r (ln_workers s ! i) s"
  using assms
proof cases
  case (keep i t ms)
  then show ?thesis by (cases "t \<in> set (ln_dropped s)") (auto simp: keep_turn_def calm_settle intro: that)
next
  case (check i t)
  then show ?thesis by (cases "t \<in> set (ln_dropped s)") (auto simp: check_turn_def calm_settle intro: that)
next
  case (change i t x)
  have "calm s s'" unfolding change(2) by (rule calm_jot) simp
  then show ?thesis by (rule that(1))
next
  case stop
  have "calm s (s\<lparr>ln_stopped := True\<rparr>)" by (auto simp: calm_def)
  then show ?thesis using stop that(1) by simp
qed (auto intro: that calm_dispatch calm_edit calm_again calm_settle calm_end calm_jot)

lemma begin_parts:
  "ln_log (begin_turn i w s) = ln_log s \<or> (\<exists>t m. ln_log (begin_turn i w s) = ln_log s @ [LnBegan (wk_key w) t m])"
  "ln_dropped (begin_turn i w s) = ln_dropped s"
  "ln_turns (begin_turn i w s) \<ge> ln_turns s"
  "v \<in> set (ln_workers (begin_turn i w s)) \<Longrightarrow> v \<in> set (ln_workers s) \<or> wk_phase v = Handling (Suc (ln_turns s))"
  by (auto simp: begin_turn_def jot_def go_on_def set_worker_def put_queue_def Let_def dest!: set_update_cases split: option.splits)

lemma go_on_workers: "v \<in> set (ln_workers (go_on i ph s)) \<Longrightarrow> v \<in> set (ln_workers s) \<or> wk_phase v = ph"
  by (auto simp: go_on_def set_worker_def dest!: set_update_cases)

lemma go_on_parts: "ln_log (go_on i ph s) = ln_log s" "ln_dropped (go_on i ph s) = ln_dropped s" "ln_turns (go_on i ph s) = ln_turns s"
  by (simp_all add: go_on_def set_worker_def)

lemma silenced_step:
  assumes sil: "silenced t s" and st: "line_step h s e s'"
  shows "silenced t s'"
  using st
proof (cases rule: step_cases)
  case 1
  then show ?thesis using sil by (fastforce simp: silenced_def calm_def)
next
  case (2 i)
  then show ?thesis using sil begin_parts [where i = i and w = "ln_workers s ! i" and s = s] by (fastforce simp: silenced_def)
next
  case (3 i u ms)
  then have "u \<noteq> t" using sil by (auto simp: silenced_def)
  then show ?thesis using sil 3(3) go_on_workers [of _ i "KeptIt u"] unfolding 3(4)
    by (fastforce simp: silenced_def keep_turn_def jot_def go_on_parts)
next
  case (4 i u)
  then have "u \<noteq> t" using sil by (auto simp: silenced_def)
  then show ?thesis using sil go_on_workers [of _ i "Replying u" s] unfolding 4(4)
    by (fastforce simp: silenced_def go_on_parts)
next
  case (5 i u now r)
  then have "u \<noteq> t" using sil by (fastforce simp: silenced_def)
  then show ?thesis using sil go_on_workers [of _ i "Settled u"] unfolding 5(3)
    by (fastforce simp: silenced_def reply_turn_def jot_def go_on_parts)
qed

definition line_reach :: "line_host \<Rightarrow> lines \<Rightarrow> lines \<Rightarrow> bool" where
  "line_reach h = (\<lambda>s s'. \<exists>e. line_step h s e s')\<^sup>*\<^sup>*"

lemma silenced_reach: "line_reach h s s' \<Longrightarrow> silenced t s \<Longrightarrow> silenced t s'"
  unfolding line_reach_def by (induction rule: rtranclp_induct) (auto dest: silenced_step)

lemma unspokenI:
  assumes "\<And>w t. w \<in> set (ln_workers s) \<Longrightarrow> wk_phase w = Handling t \<Longrightarrow> \<not> list_ex (speaks t) (ln_log s)"
    "\<And>t. list_ex (speaks t) (ln_log s) \<Longrightarrow> t \<le> ln_turns s"
  shows "unspoken s"
  using assms nth_mem unfolding unspoken_def by blast

lemma unspokenD:
  assumes "unspoken s"
  shows "w \<in> set (ln_workers s) \<Longrightarrow> wk_phase w = Handling t \<Longrightarrow> \<not> list_ex (speaks t) (ln_log s)"
    "list_ex (speaks t) (ln_log s) \<Longrightarrow> t \<le> ln_turns s"
  using assms by (auto simp: unspoken_def in_set_conv_nth)

text \<open>Saying something of a turn that only one worker is at.\<close>

lemma unspoken_say:
  assumes ok: "lines_ok s" and un: "unspoken s" and i: "i < length (ln_workers s)" "turn_at (wk_phase (ln_workers s ! i)) = Some t"
    and new: "ln_workers s' = (ln_workers s)[i := w]" "\<And>u. wk_phase w \<noteq> Handling u" "ln_turns s' = ln_turns s"
      "\<And>u. list_ex (speaks u) (ln_log s') \<Longrightarrow> u = t \<or> list_ex (speaks u) (ln_log s)"
  shows "unspoken s'"
proof (rule unspokenI)
  fix v u
  assume v: "v \<in> set (ln_workers s')" "wk_phase v = Handling u"
  then obtain j where jj: "j < length (ln_workers s)" "v = (ln_workers s)[i := w] ! j" using new(1) by (auto simp: in_set_conv_nth)
  then have "j \<noteq> i" using new(2) [of u] v(2) i(1) by auto
  then have j: "j < length (ln_workers s)" "j \<noteq> i" "v = ln_workers s ! j" using jj by simp_all
  then have "u \<noteq> t" using turns_apart [OF ok i(1) j(1) i(2)] v(2) by auto
  then show "\<not> list_ex (speaks u) (ln_log s')" using new(4) unspokenD(1) [OF un] j v(2) by (auto simp: in_set_conv_nth)
next
  fix u
  assume "list_ex (speaks u) (ln_log s')"
  then show "u \<le> ln_turns s'" using new(3,4) unspokenD(2) [OF un] turn_begun(2) [OF ok i] by auto
qed

lemma unspoken_step:
  assumes ok: "lines_ok s" and un: "unspoken s" and st: "line_step h s e s'"
  shows "unspoken s'"
  using st
proof (cases rule: step_cases)
  case 1
  show ?thesis
  proof (rule unspokenI)
    fix w t
    assume w: "w \<in> set (ln_workers s')" "wk_phase w = Handling t"
    then have "wk_phase w = Taken \<or> (\<exists>t. wk_phase w = Settled t) \<or> wk_phase w \<in> wk_phase ` set (ln_workers s)"
      using 1 [unfolded calm_def] by blast
    then have "wk_phase w \<in> wk_phase ` set (ln_workers s)" using w(2) by auto
    then obtain w' where "w' \<in> set (ln_workers s)" "wk_phase w' = Handling t" using w(2) by auto
    then have "\<not> list_ex (speaks t) (ln_log s)" by (rule unspokenD(1) [OF un])
    then show "\<not> list_ex (speaks t) (ln_log s')" using 1 by (simp add: calm_def)
  next
    fix t
    assume "list_ex (speaks t) (ln_log s')"
    then show "t \<le> ln_turns s'" using unspokenD(2) [OF un] 1 by (simp add: calm_def)
  qed
next
  case (2 i)
  have spk: "list_ex (speaks t) (ln_log s') = list_ex (speaks t) (ln_log s)" for t
    using begin_parts(1) [where i = i and w = "ln_workers s ! i" and s = s] 2(3) by auto
  show ?thesis
  proof (rule unspokenI)
    fix w t
    assume w: "w \<in> set (ln_workers s')" "wk_phase w = Handling t"
    then consider "w \<in> set (ln_workers s)" | "t = Suc (ln_turns s)" using begin_parts(4) [where v = w and i = i and w = "ln_workers s ! i" and s = s] 2(3) by auto
    then show "\<not> list_ex (speaks t) (ln_log s')"
    proof cases
      case 1
      then show ?thesis using unspokenD(1) [OF un] w(2) spk by blast
    next
      case 2
      then show ?thesis using unspokenD(2) [OF un, of t] spk by auto
    qed
  next
    fix t
    assume "list_ex (speaks t) (ln_log s')"
    then show "t \<le> ln_turns s'" using unspokenD(2) [OF un, of t] spk begin_parts(3) [where i = i and w = "ln_workers s ! i" and s = s] 2(3) by auto
  qed
next
  case (3 i u ms)
  show ?thesis
    by (rule unspoken_say [OF ok un 3(1), where t = u]) (auto simp: 3 keep_turn_def jot_def go_on_def set_worker_def)
next
  case (4 i u)
  show ?thesis
    by (rule unspoken_say [OF ok un 4(1), where t = u]) (auto simp: 4 go_on_def set_worker_def)
next
  case (5 i u now r)
  show ?thesis
    by (rule unspoken_say [OF ok un 5(1), where t = u]) (auto simp: 5 reply_turn_def jot_def go_on_def set_worker_def)
qed

lemma line_run_unspoken: "line_run h t0 es s \<Longrightarrow> unspoken s"
proof (induction rule: line_run.induct)
  case start
  show ?case by (simp add: no_lines_def unspoken_def)
next
  case (step es s e s')
  then show ?case using unspoken_step line_run_ok by blast
qed

section \<open>Playing a run\<close>

text \<open>The step as a function, to evaluate runs with.\<close>

fun line_exec :: "line_host \<Rightarrow> line_event \<Rightarrow> lines \<Rightarrow> lines option" where
  "line_exec h (LeReceive m) s = Some (dispatch_inbound h m s)"
| "line_exec h (LeEdit n now) s =
     (if n < length (ln_edits s)
      then Some (finish_edit (answer_edit h now (ln_edits s ! n) (ln_memory s)) (s\<lparr>ln_edits := take_nth n (ln_edits s)\<rparr>)) else None)"
| "line_exec h (LeAgain n) s =
     (if n < length (ln_again s) then Some (enqueue_inbound h (ln_again s ! n) (s\<lparr>ln_again := take_nth n (ln_again s)\<rparr>)) else None)"
| "line_exec h (LeBegin i) s =
     (if i < length (ln_workers s) \<and> wk_phase (ln_workers s ! i) = Taken then Some (begin_turn i (ln_workers s ! i) s) else None)"
| "line_exec h (LeChange i x) s =
     (if i < length (ln_workers s)
      then (case wk_phase (ln_workers s ! i) of Handling t \<Rightarrow> Some (jot [LnChanged (wk_key (ln_workers s ! i)) t x] s) | _ \<Rightarrow> None) else None)"
| "line_exec h (LeKeep i ms) s =
     (if i < length (ln_workers s)
      then (case wk_phase (ln_workers s ! i) of Handling t \<Rightarrow> Some (keep_turn h i t ms (ln_workers s ! i) s) | _ \<Rightarrow> None) else None)"
| "line_exec h (LeQuiet i) s =
     (if i < length (ln_workers s)
      then (case wk_phase (ln_workers s ! i) of Handling t \<Rightarrow> Some (go_on i (Settled t) s) | KeptIt t \<Rightarrow> Some (go_on i (Settled t) s) | _ \<Rightarrow> None)
      else None)"
| "line_exec h (LeCheck i) s =
     (if i < length (ln_workers s)
      then (case wk_phase (ln_workers s ! i) of KeptIt t \<Rightarrow> Some (check_turn i t s) | _ \<Rightarrow> None) else None)"
| "line_exec h (LeReply i now r) s =
     (if i < length (ln_workers s)
      then (case wk_phase (ln_workers s ! i) of Replying t \<Rightarrow> Some (reply_turn h i t now r (ln_workers s ! i) s) | _ \<Rightarrow> None) else None)"
| "line_exec h (LeEnd i) s =
     (if i < length (ln_workers s)
      then (case wk_phase (ln_workers s ! i) of Settled t \<Rightarrow> Some (end_turn i (ln_workers s ! i) s) | _ \<Rightarrow> None) else None)"
| "line_exec h LeStop s = Some (s\<lparr>ln_stopped := True\<rparr>)"

lemma line_exec_step: "line_exec h e s = Some s' \<Longrightarrow> line_step h s e s'"
  by (cases e) (auto split: if_splits phase.splits intro: line_step.intros)

fun line_play :: "line_host \<Rightarrow> line_event list \<Rightarrow> lines \<Rightarrow> lines option" where
  "line_play h [] s = Some s"
| "line_play h (e # es) s = (case line_exec h e s of None \<Rightarrow> None | Some s' \<Rightarrow> line_play h es s')"

lemma line_play_run: "line_run h t0 es0 s \<Longrightarrow> line_play h es s = Some s' \<Longrightarrow> line_run h t0 (es0 @ es) s'"
proof (induction es arbitrary: es0 s)
  case (Cons e es)
  then obtain s1 where s1: "line_exec h e s = Some s1" "line_play h es s1 = Some s'" by (auto split: option.splits)
  then have "line_run h t0 (es0 @ [e]) s1" using Cons.prems(1) line_exec_step line_run.step by blast
  then show ?case using Cons.IH s1(2) by fastforce
qed simp

lemma line_played: "line_play h es (no_lines t0) = Some s \<Longrightarrow> line_run h t0 es s"
  using line_play_run [OF line_run.start] by simp

end
