(* ===== verification/Line_Claims.thy ===== *)
theory Line_Claims
  imports Line_Facts
begin

text \<open>
  What holds of conversations: their order, edits, and what is remembered of them; and what the code does
  not do that its comments say.
\<close>

section \<open>In line\<close>

text \<open>
  (C21) In every order of messages, edits, turns and stops: a conversation never has two messages answered
  at once, and until the turns are cancelled the messages whose turn has begun (those dropped for an edit left
  out), then the one taken and those waiting, are exactly the messages that arrived, in the order they arrived.
\<close>

theorem messages_in_order:
  assumes "line_run h t0 es s"
  shows "distinct (map wk_key (ln_workers s)) \<and>
         (\<not> ln_stopped s \<longrightarrow> dealt_with k s @ waiting k s = arrived k (ln_log s))"
  using line_run_ok [OF assms] one_worker by (auto simp: lines_ok_def line_ok_def)

definition sample_place :: conv where
  "sample_place = \<lparr>cv_provider = ''telegram'', cv_chat = ''c1'', cv_thread = [], cv_identity = ''bot'', cv_user = ''ann'',
     cv_message = [], cv_sender = ''s1'', cv_shared = False\<rparr>"

definition sample_says :: "string \<Rightarrow> string \<Rightarrow> inbound" where
  "sample_says i t = (words_of sample_place t)\<lparr>ib_message := i\<rparr>"

definition sample_agent :: line_host where
  "sample_agent = \<lparr>lh_agent = ''a1'', lh_resolve = (\<lambda>i c s. None), lh_exchanges = True, lh_notes = True, lh_cuts = (\<lambda>c. False)\<rparr>"

definition sample_queue :: string where
  "sample_queue = ''a1|bot|c1||s1''"

definition played :: "line_event list \<Rightarrow> lines" where
  "played es = (case line_play sample_agent es (no_lines new_memory) of None \<Rightarrow> no_lines new_memory | Some s \<Rightarrow> s)"

lemma played_run:
  assumes "line_play sample_agent es (no_lines new_memory) \<noteq> None"
  shows "line_run sample_agent new_memory es (played es)"
  using assms line_played by (auto simp: played_def)

lemma messages_in_order_witness:
  "dealt_with sample_queue (played [LeReceive (sample_says ''1'' ''a''), LeReceive (sample_says ''2'' ''b''), LeBegin 0,
       LeReceive ((sample_says ''1'' ''c'')\<lparr>ib_edited := True\<rparr>), LeQuiet 0, LeEnd 0, LeBegin 0]) @
   waiting sample_queue (played [LeReceive (sample_says ''1'' ''a''), LeReceive (sample_says ''2'' ''b''), LeBegin 0,
       LeReceive ((sample_says ''1'' ''c'')\<lparr>ib_edited := True\<rparr>), LeQuiet 0, LeEnd 0, LeBegin 0]) = [''1'', ''2'']"
  (is "dealt_with _ (played ?es) @ _ = _")
proof -
  have "line_play sample_agent ?es (no_lines new_memory) \<noteq> None" by code_simp
  note messages_in_order [OF played_run [OF this], of sample_queue]
  moreover have "\<not> ln_stopped (played ?es)" by code_simp
  moreover have "arrived sample_queue (ln_log (played ?es)) = [''1'', ''2'']" by code_simp
  ultimately show ?thesis by simp
qed

section \<open>Edits\<close>



text \<open>Rewinding undoes an append from the person's message on; what the platform noted before it stays.\<close>

lemma drop_newest_append:
  "(\<forall>m\<in>set ms. m_role m \<noteq> RoleUser) \<Longrightarrow> drop_newest k (map (memory_row_of k) ms @ rs) = drop_newest k rs"
  by (induction ms) (auto simp: written_here_def of_chat_def memory_row_of_def stored_message_def)

lemma written_row: "m_role u = RoleUser \<Longrightarrow> written_here k (memory_row_of k u)"
  by (simp add: written_here_def of_chat_def memory_row_of_def stored_message_def)

lemma rewind_rows_append:
  assumes "m_role u = RoleUser" "\<forall>m\<in>set rest. m_role m \<noteq> RoleUser"
  shows "rewind_rows k (rows @ map (memory_row_of k) (notes @ u # rest)) = rows @ map (memory_row_of k) notes"
proof -
  have "rev (rows @ map (memory_row_of k) (notes @ u # rest)) =
      map (memory_row_of k) (rev rest) @ memory_row_of k u # rev (rows @ map (memory_row_of k) notes)" by (simp add: rev_map)
  then show ?thesis
    using written_row [OF assms(1), of k] drop_newest_append [of "rev rest" k] assms(2) by (simp add: rewind_rows_def)
qed

lemma convos_set [simp]:
  "map_of (mt_convos (upsert_convo p f t)) p' =
     (if p' = p then Some (f (case map_of (mt_convos t) p of None \<Rightarrow> new_convo | Some r \<Rightarrow> r)) else map_of (mt_convos t) p')"
  by (simp add: upsert_convo_def update_conv')

lemma messages_set [simp]:
  "mt_messages (upsert_convo p f t) = mt_messages t"
  "mt_messages (append_messages k ms t) = mt_messages t @ map (memory_row_of k) ms"
  "mt_messages (set_exchange k e t) = mt_messages t"
  by (simp_all add: upsert_convo_def append_messages_def set_exchange_def Let_def)

lemma exchange_set:
  "le_message e \<noteq> [] \<Longrightarrow> get_exchange k (set_exchange k e t) = Some e"
  by (simp add: get_exchange_def set_exchange_def)

lemma exchange_rewound: "get_exchange k (rewind k t) = None"
proof -
  have "map_of (map (\<lambda>(p, r). (p, if p = place_of k then forget_exchange r else r)) cs) (place_of k) =
      map_option forget_exchange (map_of cs (place_of k))" for cs
    by (induction cs) auto
  then show ?thesis by (auto simp: get_exchange_def rewind_def forget_exchange_def split: option.split)
qed

text \<open>
  (C23) A message was answered, and its reply noted with what it changed. When the person then edits it within
  15 minutes of the answer, to other words: if nothing had been changed, the new words are answered in the old
  reply's place and the conversation is again what it was before the message, but for the platform's notes; if
  anything had, the new words are answered with look-ups only, nothing is forgotten, and the agent is told what was done.
\<close>

theorem edit_redoes_nothing:
  assumes c: "lh_exchanges h" "cv_user c \<noteq> []" "cv_message c \<noteq> []"
    and turn: "kept ms = notes @ u # rest" "m_role u = RoleUser" "\<forall>x\<in>set rest. m_role x \<noteq> RoleUser"
    and edit: "conv_key_of h (with_person h m) = conv_key_of h c" "ib_message m = cv_message c" "now' - now \<le> edit_window"
      "trim_space text \<noteq> trim_space (ib_text m)"
  shows "let t2 = note_exchange h c text now reply changed (append_messages (conv_key_of h c) (kept ms) t);
             m1 = m\<lparr>ib_conv := with_person h m\<rparr>; (r, t3) = answer_edit h now' m t2
         in if changed = []
            then r = AnswerAgain (m1\<lparr>ib_replaces := reply\<rparr>) \<and> get_exchange (conv_key_of h c) t3 = None \<and>
                 mt_messages t3 = mt_messages t @ map (memory_row_of (conv_key_of h c)) notes
            else r = AnswerAgain (m1\<lparr>ib_look_ups_only := True, ib_hint := edited_hint text (ib_text m) changed\<rparr>) \<and> t3 = t2"
proof -
  let ?e = "\<lparr>le_message = cv_message c, le_text = text, le_at = now, le_reply = reply, le_changed = changed\<rparr>"
  let ?t2 = "set_exchange (conv_key_of h c) ?e (append_messages (conv_key_of h c) (kept ms) t)"
  have "mt_messages (rewind (conv_key_of h c) ?t2) = mt_messages t @ map (memory_row_of (conv_key_of h c)) notes"
    using rewind_rows_append [OF turn(2,3)] by (simp add: rewind_def turn(1))
  then show ?thesis
    using c edit exchange_set [of ?e "conv_key_of h c"] exchange_rewound
    by (cases "changed = []") (simp_all add: note_exchange_def answer_edit_def Let_def)
qed

lemma edit_redoes_nothing_witness:
  "let c = sample_place\<lparr>cv_message := ''1''\<rparr>;
       ms = [plain_message RoleUser ''book it'', plain_message RoleAssistant ''Booked.''];
       t2 = note_exchange sample_agent c ''book it'' 10 ''r1'' [''Book''] (append_messages (conv_key_of sample_agent c) (kept ms) new_memory)
   in answer_edit sample_agent 20 (sample_says ''1'' ''book two'') t2 =
        (AnswerAgain ((sample_says ''1'' ''book two'')\<lparr>ib_look_ups_only := True, ib_hint := edited_hint ''book it'' ''book two'' [''Book'']\<rparr>), t2)"
proof -
  let ?c = "sample_place\<lparr>cv_message := ''1''\<rparr>"
  have parts: "lh_exchanges sample_agent" "cv_user ?c \<noteq> []" "cv_message ?c \<noteq> []"
    "kept [plain_message RoleUser ''book it'', plain_message RoleAssistant ''Booked.''] =
       [] @ plain_message RoleUser ''book it'' # [plain_message RoleAssistant ''Booked.'']"
    "m_role (plain_message RoleUser ''book it'') = RoleUser" "\<forall>x\<in>set [plain_message RoleAssistant ''Booked.'']. m_role x \<noteq> RoleUser"
    "conv_key_of sample_agent (with_person sample_agent (sample_says ''1'' ''book two'')) = conv_key_of sample_agent ?c"
    "ib_message (sample_says ''1'' ''book two'') = cv_message ?c" "(20::int) - 10 \<le> edit_window"
    "trim_space ''book it'' \<noteq> trim_space (ib_text (sample_says ''1'' ''book two''))"
    by code_simp+
  have same: "(sample_says ''1'' ''book two'')\<lparr>ib_conv := with_person sample_agent (sample_says ''1'' ''book two'')\<rparr> = sample_says ''1'' ''book two''"
    "ib_text (sample_says ''1'' ''book two'') = ''book two''" by code_simp+
  show ?thesis
    using edit_redoes_nothing [OF parts, of "''r1''" "[''Book'']" new_memory] by (auto simp: Let_def same split: prod.splits)
qed

section \<open>What is remembered where\<close>

text \<open>
  (C24) What is said elsewhere stays there: what is added to another agent's or another person's conversation,
  or, for a chat others read, to any other chat, does not change what the agent is given of this conversation.
\<close>

theorem said_elsewhere_stays:
  assumes "ck_agent k' \<noteq> ck_agent k \<or> ck_user k' \<noteq> ck_user k \<or>
           ck_shared k \<and> (ck_identity k' \<noteq> ck_identity k \<or> ck_chat k' \<noteq> ck_chat k)"
  shows "history k (append_messages k' ms t) = history k t"
proof -
  have "filter (of_conversation k) (map (memory_row_of k') ms) = []"
    using assms by (auto simp: filter_empty_conv of_conversation_def memory_row_of_def)
  then show ?thesis by (simp add: history_def)
qed

definition sample_key :: "string \<Rightarrow> bool \<Rightarrow> conv_key" where
  "sample_key chat shared = \<lparr>ck_agent = ''a1'', ck_identity = ''bot'', ck_chat = chat, ck_thread = [], ck_user = ''ann'', ck_shared = shared\<rparr>"

lemma said_elsewhere_stays_witness:
  "history (sample_key ''team'' True) (append_messages (sample_key ''private'' False) [plain_message RoleUser ''I am ill''] new_memory) = [] \<and>
   history (sample_key ''team'' False) (append_messages (sample_key ''private'' False) [plain_message RoleUser ''I am ill''] new_memory) =
     [plain_message RoleUser ''I am ill'']"
proof -
  have "history (sample_key ''team'' True) new_memory = []" by code_simp
  then have "history (sample_key ''team'' True) (append_messages (sample_key ''private'' False) [plain_message RoleUser ''I am ill''] new_memory) = []"
    using said_elsewhere_stays [of "sample_key ''private'' False" "sample_key ''team'' True"] by (simp add: sample_key_def)
  moreover have "history (sample_key ''team'' False) (append_messages (sample_key ''private'' False) [plain_message RoleUser ''I am ill''] new_memory) =
     [plain_message RoleUser ''I am ill'']" by code_simp
  ultimately show ?thesis by simp
qed

text \<open>
  What an agent sends a person unasked goes to the chat it was set up in, or to a chat of one of the
  agent's own chat apps in which this person wrote to it and which nobody else reads.
\<close>

theorem reached_where_they_wrote:
  "reach_at identities keeps_chats found agent user t home = home \<or>
   (\<exists>own r. identities = Some own \<and> r \<in> set (mt_messages t) \<and> mr_agent r = agent \<and> mr_user r = user \<and> m_role (mr_message r) = RoleUser \<and>
      reach_at identities keeps_chats found agent user t home = (mr_identity r, mr_chat r) \<and>
      mr_identity r \<in> set own \<and> found (mr_identity r, mr_chat r) = Some False)"
proof (cases "reach_at identities keeps_chats found agent user t home = home")
  case False
  let ?c = "reach_at identities keeps_chats found agent user t home"
  let ?P = "\<lambda>own c. fst c \<in> set own \<and> (case found c of None \<Rightarrow> False | Some shared \<Rightarrow> shared \<longrightarrow> c = home)"
  obtain own where own: "identities = Some own" "find (?P own) (chats_of agent user t) = Some ?c"
    using False by (auto simp: reach_at_def split: option.splits if_splits)
  then have c: "?P own ?c" "?c \<in> set (chats_of agent user t)" by (auto dest: find_Some_mem)
  then have f: "found ?c = Some False" using False by (auto split: option.splits)
  have "?c \<in> (\<lambda>r. (mr_identity r, mr_chat r)) ` set (filter (\<lambda>r. mr_agent r = agent \<and> mr_user r = user \<and>
      m_role (mr_message r) = RoleUser \<and> mr_identity r \<noteq> [] \<and> mr_chat r \<noteq> []) (mt_messages t))"
    using c(2) unfolding chats_of_def by (auto split: if_splits dest!: in_set_takeD)
  then obtain r where "r \<in> set (mt_messages t)" "mr_agent r = agent" "mr_user r = user" "m_role (mr_message r) = RoleUser"
    "?c = (mr_identity r, mr_chat r)" by auto
  then show ?thesis using own(1) c(1) f by auto
qed simp

section \<open>What the lines do not do\<close>

text \<open>
  A turn that has changed something is dropped when its message is edited; the new words are answered as a
  message like any other, and nothing tells the agent, or the gates, that the change has been made.
\<close>

lemma edit_forgets_changes_made:
  "ln_log (played [LeReceive (sample_says ''1'' ''book it''), LeBegin 0, LeChange 0 ''Book'',
       LeReceive ((sample_says ''1'' ''book it please'')\<lparr>ib_edited := True\<rparr>), LeKeep 0 [], LeEnd 0, LeBegin 0]) =
     [LnArrived sample_queue (sample_says ''1'' ''book it''), LnBegan sample_queue 1 (sample_says ''1'' ''book it''),
      LnChanged sample_queue 1 ''Book'', LnBegan sample_queue 2 (sample_says ''1'' ''book it please'')] \<and>
   \<not> ib_look_ups_only (sample_says ''1'' ''book it please'') \<and> ib_hint (sample_says ''1'' ''book it please'') = []"
  by code_simp

text \<open>An edit between the two checks: the reply is kept in the conversation, and never sent.\<close>

lemma kept_but_never_sent:
  "map mr_message (mt_messages (ln_memory (played
       [LeReceive (sample_says ''1'' ''hi''), LeBegin 0, LeKeep 0 [plain_message RoleUser ''hi'', plain_message RoleAssistant ''Hello''],
        LeReceive ((sample_says ''1'' ''bye'')\<lparr>ib_edited := True\<rparr>), LeCheck 0, LeEnd 0, LeBegin 0]))) =
     [plain_message RoleUser ''hi'', plain_message RoleAssistant ''Hello''] \<and>
   \<not> list_ex (\<lambda>n. case n of LnReplied k t m \<Rightarrow> True | _ \<Rightarrow> False) (ln_log (played
       [LeReceive (sample_says ''1'' ''hi''), LeBegin 0, LeKeep 0 [plain_message RoleUser ''hi'', plain_message RoleAssistant ''Hello''],
        LeReceive ((sample_says ''1'' ''bye'')\<lparr>ib_edited := True\<rparr>), LeCheck 0, LeEnd 0, LeBegin 0]))"
  by code_simp

text \<open>An edit between a message's being taken and its turn's beginning is lost: the old words are answered.\<close>

lemma edit_in_the_gap_lost:
  "ln_log (played [LeReceive (sample_says ''1'' ''yes''), LeReceive ((sample_says ''1'' ''no'')\<lparr>ib_edited := True\<rparr>), LeEdit 0 5, LeBegin 0]) =
     [LnArrived sample_queue (sample_says ''1'' ''yes''), LnBegan sample_queue 1 (sample_says ''1'' ''yes'')]"
  by code_simp

text \<open>The rewind does not ask which chat app a row is of: a chat of another one with the same id loses its last exchange.\<close>

lemma rewind_crosses_chat_apps:
  "mt_messages (rewind (sample_key ''42'' False)
      (append_messages ((sample_key ''42'' False)\<lparr>ck_identity := ''other bot''\<rparr>) [plain_message RoleUser ''a'', plain_message RoleAssistant ''b'']
        new_memory)) = []"
  by code_simp

end
