(* ===== verification/Profile.thy ===== *)
theory Profile
  imports Event_Contract Prompts Proposals "HOL-Library.Product_Lexorder"
begin

text \<open>
  What agents have learned about a person, as named details in maps: one about who they are, one for
  each app (\<^verbatim>\<open>domain/profile_details.go\<close>); the tables they are kept in (\<^verbatim>\<open>postgres/profile_details.go\<close>); and
  how an agent learns from an exchange (\<^verbatim>\<open>runtime/profile_learn.go\<close>). The model that reads an exchange, the
  judge of what is alike, the person's own fields and the chat the person is asked in may answer
  anything and do anything to their environment \<open>'e\<close>. \<open>cmp\<close> is what \<^verbatim>\<open>ComparableValue\<close>
  reduces a value to (with the Unicode tables of \<^verbatim>\<open>golang.org/x/text\<close>).
\<close>

section \<open>Details\<close>

record person_detail =
  dt_scope :: string
  dt_key :: string
  dt_value :: string
  dt_source :: string
  dt_created :: int
  dt_updated :: int
  dt_confirmed :: int

definition profile_personal :: string where "profile_personal = ''personal''"
definition detail_said :: string where "detail_said = ''said''"
definition detail_changed :: string where "detail_changed = ''changed''"

definition max_details_per_scope :: nat where "max_details_per_scope = 60"
definition max_detail_key_len :: nat where "max_detail_key_len = 40"
definition max_detail_value_runes :: nat where "max_detail_value_runes = 200"

definition new_detail :: "string \<Rightarrow> string \<Rightarrow> string \<Rightarrow> string \<Rightarrow> person_detail" where
  "new_detail scope key val source =
     \<lparr>dt_scope = scope, dt_key = key, dt_value = val, dt_source = source, dt_created = 0, dt_updated = 0, dt_confirmed = 0\<rparr>"

section \<open>Names\<close>

definition key_rune :: "string \<Rightarrow> bool" where
  "key_rune r \<longleftrightarrow> rune_between (CHR ''a'') (CHR ''z'') r \<or> digit_rune r"

definition non_key_chars :: rx where
  "non_key_chars = rx_plus (RxRune (\<lambda>r. \<not> key_rune r))"

definition normalize_detail_key :: "string \<Rightarrow> string \<times> bool" where
  "normalize_detail_key s0 =
     (let s1 = to_lower (trim_space s0);
          s2 = replace_all ''favorite'' ''favourite'' s1;
          s3 = rx_replace non_key_chars (\<lambda>_. ''_'') s2;
          s4 = trim_any ''_'' s3;
          s = (if max_detail_key_len < length (runes s4) then trim_any ''_'' (concat (take max_detail_key_len (runes s4))) else s4)
      in (s, 2 \<le> length s))"

definition aliases_for :: "string \<Rightarrow> string list \<Rightarrow> (string \<times> string) list" where
  "aliases_for name others = map (\<lambda>o'. (o', name)) others"

definition detail_aliases :: "(string \<times> string) list" where
  "detail_aliases =
     aliases_for ''residence'' [''location'', ''city'', ''lives_in'', ''based_in'', ''home_city'', ''city_of_residence'', ''place_of_residence'',
       ''home_location'', ''current_city''] @
     aliases_for ''name'' [''full_name'', ''legal_name'', ''fullname''] @
     aliases_for ''language'' [''preferred_language'', ''main_language''] @
     aliases_for ''time_zone'' [''timezone'', ''tz'', ''time_zone_name''] @
     aliases_for ''occupation'' [''job'', ''profession'', ''job_title'', ''role'', ''current_job''] @
     aliases_for ''employer'' [''company'', ''works_at'', ''workplace'', ''organization'', ''organisation'', ''employer_name''] @
     aliases_for ''birthday'' [''dob'', ''date_of_birth'', ''birth_date'', ''birthdate''] @
     aliases_for ''favourite_club'' [''favourite_team'', ''football_team'', ''team'', ''supports''] @
     aliases_for ''hobbies'' [''interests'', ''hobby'', ''pastimes''] @
     aliases_for ''country'' [''home_country'', ''country_of_origin'']"

definition canonical_detail_key :: "string \<Rightarrow> string option" where
  "canonical_detail_key s =
     (let (k, ok) = normalize_detail_key s
      in if \<not> ok then None else Some (case map_of detail_aliases k of Some a \<Rightarrow> a | None \<Rightarrow> k))"

section \<open>Values\<close>

text \<open>The runes kept; \<open>space\<close>: white space was met since the last of them.\<close>

fun clean_runes :: "bool \<Rightarrow> string \<Rightarrow> string list \<Rightarrow> string" where
  "clean_runes space out [] = out"
| "clean_runes space out (r # rs) =
     (if is_space_rune r then clean_runes True out rs
      else if control_rune r then clean_runes space out rs
      else clean_runes False (out @ (if space \<and> out \<noteq> [] then '' '' else []) @ r) rs)"

definition clean_detail_value :: "string \<Rightarrow> string \<times> bool" where
  "clean_detail_value s =
     (let out = trim_space (clean_runes False [] (runes s));
          cut = (if max_detail_value_runes < rune_count out then trim_space (concat (take max_detail_value_runes (runes out))) else out)
      in (cut, cut \<noteq> []))"

definition same_detail_value :: "(string \<Rightarrow> string) \<Rightarrow> string \<Rightarrow> string \<Rightarrow> bool" where
  "same_detail_value cmp a b \<longleftrightarrow> cmp a \<noteq> [] \<and> cmp a = cmp b"

section \<open>What is never kept\<close>

definition between_underscores :: "rx list \<Rightarrow> rx" where
  "between_underscores ws = rx_seq [RxAlt RxBegin (rx_lit ''_''), rx_alt ws, RxAlt (rx_lit ''_'') RxEnd]"

definition sensitive_key :: rx where
  "sensitive_key = between_underscores
     (map rx_lit [''password'', ''passcode'', ''passphrase'', ''pin'', ''secret'', ''token'', ''api_key'', ''apikey'', ''private_key'', ''cvv'',
        ''cvc'', ''card'', ''iban'', ''ssn'', ''passport''] @
      [rx_seq [rx_lit ''licen'', RxRune (one_of ''cs''), rx_lit ''e_number'']] @
      map rx_lit [''bank_account'', ''account_number'', ''sort_code'', ''routing''])"

definition rx_atleast :: "nat \<Rightarrow> rx \<Rightarrow> rx" where
  "rx_atleast n r = RxSeq (rx_seq (replicate n r)) (RxStar r)"

definition long_digits :: rx where
  "long_digits = rx_seq [RxRune digit_rune, rx_atleast 8 (RxRune (\<lambda>r. digit_rune r \<or> rx_space r \<or> r = ''-'')), RxRune digit_rune]"

definition looks_sensitive :: "string \<Rightarrow> string \<Rightarrow> bool" where
  "looks_sensitive key val \<longleftrightarrow> rx_match sensitive_key key \<or> rx_match long_digits val"

definition never_learned_key :: rx where
  "never_learned_key = between_underscores
     (map rx_lit [''permission'', ''permissions'', ''allow'', ''allowed'', ''disallow'', ''limit'', ''limits'', ''consent'', ''approval'', ''approve''] @
      [rx_seq [rx_lit ''authori'', RxRune (one_of ''sz''), rx_lit ''e''], rx_seq [rx_lit ''authori'', RxRune (one_of ''sz''), rx_lit ''ation'']] @
      map rx_lit [''autonomy'', ''may'', ''must'', ''never'', ''always''])"

definition never_learned :: "string \<Rightarrow> string \<Rightarrow> bool" where
  "never_learned key val \<longleftrightarrow> looks_sensitive key val \<or> rx_match never_learned_key key"

section \<open>Showing a map\<close>

definition render_details :: "person_detail list \<Rightarrow> string" where
  "render_details ds =
     join [CHR 0x0A] (map (\<lambda>d. dt_key d @ '': '' @ replace_all [CHR 0x0A] '' '' (dt_value d))
       (filter (\<lambda>d. dt_key d \<noteq> [] \<and> dt_value d \<noteq> []) (sort_key dt_key ds)))"

section \<open>The tables\<close>

record profile_tables =
  pt_details :: "(string \<times> person_detail) list"
  pt_declined :: "((string \<times> string \<times> string \<times> string) \<times> int) list"
  pt_migrated :: "(string \<times> string) list"

definition is_detail :: "string \<Rightarrow> string \<Rightarrow> string \<Rightarrow> string \<times> person_detail \<Rightarrow> bool" where
  "is_detail user scope key r \<longleftrightarrow> fst r = user \<and> dt_scope (snd r) = scope \<and> dt_key (snd r) = key"

text \<open>\<^verbatim>\<open>ORDER BY scope, key\<close>.\<close>

definition profile_details :: "string \<Rightarrow> string list \<Rightarrow> profile_tables \<Rightarrow> person_detail list" where
  "profile_details user scopes t =
     sort_key (\<lambda>d. (dt_scope d, dt_key d)) (map snd (filter (\<lambda>(u, d). u = user \<and> (scopes \<noteq> [] \<longrightarrow> dt_scope d \<in> set scopes)) (pt_details t)))"

definition set_detail :: "int \<Rightarrow> string \<Rightarrow> person_detail \<Rightarrow> profile_tables \<Rightarrow> bool \<times> profile_tables" where
  "set_detail now user d t =
     (let same = is_detail user (dt_scope d) (dt_key d);
          source = (if dt_source d = [] then detail_said else dt_source d) in
      if \<exists>r\<in>set (pt_details t). same r
      then (True, t\<lparr>pt_details := map (\<lambda>r. if same r
             then (fst r, (snd r)\<lparr>dt_value := dt_value d, dt_source := source, dt_updated := now, dt_confirmed := now\<rparr>) else r) (pt_details t)\<rparr>)
      else if length (filter (\<lambda>(u, x). u = user \<and> dt_scope x = dt_scope d) (pt_details t)) < max_details_per_scope
      then (True, t\<lparr>pt_details := pt_details t @ [(user, d\<lparr>dt_source := source, dt_created := now, dt_updated := now, dt_confirmed := now\<rparr>)]\<rparr>)
      else (False, t))"

definition confirm_detail :: "int \<Rightarrow> string \<Rightarrow> string \<Rightarrow> string \<Rightarrow> profile_tables \<Rightarrow> profile_tables" where
  "confirm_detail now user scope key t =
     t\<lparr>pt_details := map (\<lambda>r. if is_detail user scope key r then (fst r, (snd r)\<lparr>dt_confirmed := now\<rparr>) else r) (pt_details t)\<rparr>"

definition remove_detail :: "string \<Rightarrow> string \<Rightarrow> string \<Rightarrow> profile_tables \<Rightarrow> bool \<times> profile_tables" where
  "remove_detail user scope key t =
     (\<exists>r\<in>set (pt_details t). is_detail user scope key r, t\<lparr>pt_details := filter (\<lambda>r. \<not> is_detail user scope key r) (pt_details t)\<rparr>)"

definition decline_value :: "(string \<Rightarrow> string) \<Rightarrow> int \<Rightarrow> string \<Rightarrow> string \<Rightarrow> string \<Rightarrow> string \<Rightarrow> profile_tables \<Rightarrow> profile_tables" where
  "decline_value cmp now user scope key val t =
     (if cmp val = [] then t else t\<lparr>pt_declined := AList.update (user, scope, key, cmp val) now (pt_declined t)\<rparr>)"

definition declined_value :: "(string \<Rightarrow> string) \<Rightarrow> string \<Rightarrow> string \<Rightarrow> string \<Rightarrow> string \<Rightarrow> int \<Rightarrow> profile_tables \<Rightarrow> bool" where
  "declined_value cmp user scope key val since t \<longleftrightarrow>
     cmp val \<noteq> [] \<and> (\<exists>(k, when0)\<in>set (pt_declined t). k = (user, scope, key, cmp val) \<and> since \<le> when0)"

definition profile_migrated :: "string \<Rightarrow> string \<Rightarrow> profile_tables \<Rightarrow> bool" where
  "profile_migrated user scope t \<longleftrightarrow> (user, scope) \<in> set (pt_migrated t)"

definition mark_migrated :: "string \<Rightarrow> string \<Rightarrow> profile_tables \<Rightarrow> profile_tables" where
  "mark_migrated user scope t = (if profile_migrated user scope t then t else t\<lparr>pt_migrated := pt_migrated t @ [(user, scope)]\<rparr>)"

section \<open>Learning from an exchange\<close>

datatype value_relation = RelDifferent | RelSame | RelAdds

record detail_proposal =
  dp_scope :: string
  dp_key :: string
  dp_value :: string

record learn_request =
  lq_user :: string
  lq_agent :: string
  lq_conv :: conv
  lq_message :: string
  lq_response :: string
  lq_apps :: "string gomap"

text \<open>The person's own fields; setting one may be refused.\<close>

record 'e typed_details =
  ty_details :: "string \<Rightarrow> 'e \<Rightarrow> (goerr + person_detail list) \<times> 'e"
  ty_owns :: "string \<Rightarrow> bool"
  ty_valid :: "string \<Rightarrow> string \<Rightarrow> bool"
  ty_set :: "string \<Rightarrow> string \<Rightarrow> string \<Rightarrow> 'e \<Rightarrow> goerr option \<times> 'e"

record 'e learner =
  lr_now :: "'e \<Rightarrow> int"
  lr_compare :: "string \<Rightarrow> string"
  lr_propose :: "learn_request \<Rightarrow> person_detail list gomap \<Rightarrow> 'e \<Rightarrow> (goerr + detail_proposal list) \<times> 'e"
  lr_same_kind :: "detail_proposal \<Rightarrow> person_detail list \<Rightarrow> 'e \<Rightarrow> (goerr + string \<times> rat) \<times> 'e"
  lr_relation :: "string \<Rightarrow> string \<Rightarrow> string \<Rightarrow> 'e \<Rightarrow> (goerr + value_relation) \<times> 'e"
  lr_lasting :: "detail_proposal \<Rightarrow> string \<Rightarrow> 'e \<Rightarrow> (goerr + bool) \<times> 'e"
  lr_typed :: "'e typed_details option"
  lr_ask :: "(conv \<Rightarrow> 'e choice_requester) option"

text \<open>\<^verbatim>\<open>MatchThreshold\<close> as the \<^verbatim>\<open>float64\<close> it is; 180 days in nanoseconds.\<close>

definition match_threshold :: rat where "match_threshold = 3152519739159347 / 4503599627370496"
definition max_proposals_per_exchange :: nat where "max_proposals_per_exchange = 8"
definition max_questions_per_exchange :: nat where "max_questions_per_exchange = 2"
definition ask_timeout_seconds :: int where "ask_timeout_seconds = 120"
definition declined_memory :: int where "declined_memory = 15552000000000000"

text \<open>What one exchange works on; the log says what was written and what was asked, with the answer.\<close>

datatype learn_note =
    LgWrote string string string string        \<comment> \<open>scope, key, value, source\<close>
  | LgAsked string string string string int    \<comment> \<open>scope, key, the value held, the value said, the answer\<close>

record 'e learning =
  lg_held :: "person_detail list gomap"
  lg_questions :: nat
  lg_tables :: profile_tables
  lg_env :: 'e
  lg_log :: "learn_note list"

definition held_in :: "string \<Rightarrow> 'e learning \<Rightarrow> person_detail list" where
  "held_in scope st = (case gm_get (lg_held st) scope of None \<Rightarrow> [] | Some ds \<Rightarrow> ds)"

definition find_detail :: "string \<Rightarrow> string \<Rightarrow> 'e learning \<Rightarrow> person_detail option" where
  "find_detail scope key st = find (\<lambda>d. dt_key d = key) (held_in scope st)"

fun put_in :: "person_detail \<Rightarrow> person_detail list \<Rightarrow> person_detail list" where
  "put_in d [] = [d]"
| "put_in d (x # xs) =
     (if dt_key x = dt_key d then x\<lparr>dt_value := dt_value d, dt_source := dt_source d\<rparr> # xs else x # put_in d xs)"

definition put_detail :: "person_detail \<Rightarrow> 'e learning \<Rightarrow> 'e learning" where
  "put_detail d st = st\<lparr>lg_held := gm_set (dt_scope d) (put_in d (held_in (dt_scope d) st)) (lg_held st)\<rparr>"

definition personal_field :: "'e learner \<Rightarrow> detail_proposal \<Rightarrow> 'e typed_details option" where
  "personal_field l p =
     (case lr_typed l of None \<Rightarrow> None
      | Some t \<Rightarrow> if dp_scope p = profile_personal \<and> ty_owns t (dp_key p) then Some t else None)"

definition write_detail :: "'e learner \<Rightarrow> string \<Rightarrow> detail_proposal \<Rightarrow> string \<Rightarrow> 'e learning \<Rightarrow> bool \<times> 'e learning" where
  "write_detail l user p source st =
     (let (ok, st1) =
        (case personal_field l p of
           Some t \<Rightarrow> (let (err, e) = ty_set t user (dp_key p) (dp_value p) (lg_env st) in (err = None, st\<lparr>lg_env := e\<rparr>))
         | None \<Rightarrow> (let (ok, t) = set_detail (lr_now l (lg_env st)) user (new_detail (dp_scope p) (dp_key p) (dp_value p) source) (lg_tables st)
                    in (ok, st\<lparr>lg_tables := t\<rparr>)))
      in (ok, if ok then put_detail (new_detail (dp_scope p) (dp_key p) (dp_value p) source)
                           (st1\<lparr>lg_log := lg_log st1 @ [LgWrote (dp_scope p) (dp_key p) (dp_value p) source]\<rparr>) else st1))"

definition is_lasting :: "'e learner \<Rightarrow> learn_request \<Rightarrow> detail_proposal \<Rightarrow> 'e learning \<Rightarrow> bool \<times> 'e learning" where
  "is_lasting l req p st =
     (let (r, e) = lr_lasting l p (lq_message req) (lg_env st) in (r = Inr True, st\<lparr>lg_env := e\<rparr>))"

definition learn_new :: "'e learner \<Rightarrow> learn_request \<Rightarrow> detail_proposal \<Rightarrow> 'e learning \<Rightarrow> 'e learning" where
  "learn_new l req p st =
     (let (ok, st1) = is_lasting l req p st in if \<not> ok then st1 else snd (write_detail l (lq_user req) p detail_said st1))"

definition quote_open :: string where "quote_open = [CHR 0xE2, CHR 0x80, CHR 0x9C]"
definition quote_close :: string where "quote_close = [CHR 0xE2, CHR 0x80, CHR 0x9D]"

definition change_question :: "string \<Rightarrow> string \<Rightarrow> string \<Rightarrow> string \<Rightarrow> value_relation \<Rightarrow> string \<times> string" where
  "change_question app key old new rel =
     (let what = replace_all ''_'' '' '' key; prefix = (if app = [] then [] else app @ '': '');
          have = prefix @ ''I have your '' @ what @ '' as '' @ quote_open @ old @ quote_close
      in if rel = RelAdds then (have @ ''. Add the detail, '' @ quote_open @ new @ quote_close @ ''?'', ''Yes, add it'')
         else (have @ ''. Update it to '' @ quote_open @ new @ quote_close @ ''?'', ''Yes, update it''))"

definition ask_change :: "'e learner \<Rightarrow> learn_request \<Rightarrow> (conv \<Rightarrow> 'e choice_requester) \<Rightarrow> detail_proposal \<Rightarrow> person_detail \<Rightarrow> value_relation \<Rightarrow> 'e learning \<Rightarrow> 'e learning" where
  "ask_change l req ask p old rel st =
     (let (question, yes) = change_question (case gm_get (lq_apps req) (dp_scope p) of None \<Rightarrow> [] | Some n \<Rightarrow> n) (dp_key p) (dt_value old) (dp_value p) rel;
          (ans, e) = ask (lq_conv req) question [yes, ''No, keep it''] ask_timeout_seconds (lg_env st);
          st1 = st\<lparr>lg_env := e, lg_questions := Suc (lg_questions st)\<rparr>
      in case ans of
           Inl err \<Rightarrow> st1
         | Inr i \<Rightarrow>
             (let st2 = st1\<lparr>lg_log := lg_log st1 @ [LgAsked (dp_scope p) (dp_key p) (dt_value old) (dp_value p) i]\<rparr>
              in if i = choice_superseded then st2
                 else if i = 0 then snd (write_detail l (lq_user req) p detail_changed st2)
                 else st2\<lparr>lg_tables := decline_value (lr_compare l) (lr_now l e) (lq_user req) (dp_scope p) (dp_key p) (dp_value p) (lg_tables st2)\<rparr>))"

definition propose_change :: "'e learner \<Rightarrow> learn_request \<Rightarrow> detail_proposal \<Rightarrow> person_detail \<Rightarrow> value_relation \<Rightarrow> 'e learning \<Rightarrow> 'e learning" where
  "propose_change l req p old rel st =
     (if (case personal_field l p of None \<Rightarrow> False | Some t \<Rightarrow> \<not> ty_valid t (dp_key p) (dp_value p)) then st
      else if declined_value (lr_compare l) (lq_user req) (dp_scope p) (dp_key p) (dp_value p) (lr_now l (lg_env st) - declined_memory) (lg_tables st) then st
      else let (ok, st1) = is_lasting l req p st in
        if \<not> ok then st1
        else case lr_ask l of
            None \<Rightarrow> st1
          | Some ask \<Rightarrow> if max_questions_per_exchange \<le> lg_questions st1 then st1 else ask_change l req ask p old rel st1)"

text \<open>The name under which the detail is held already, if a close one is; \<^verbatim>\<open>None\<close>: it could not be compared.\<close>

definition match_held :: "'e learner \<Rightarrow> detail_proposal \<Rightarrow> 'e learning \<Rightarrow> string option \<times> 'e learning" where
  "match_held l p st =
     (if find_detail (dp_scope p) (dp_key p) st = None \<and> held_in (dp_scope p) st \<noteq> []
      then let (r, e) = lr_same_kind l p (held_in (dp_scope p) st) (lg_env st); st1 = st\<lparr>lg_env := e\<rparr>
           in case r of
                Inl err \<Rightarrow> (None, st1)
              | Inr (m, score) \<Rightarrow>
                  (Some (if m \<noteq> [] \<and> match_threshold \<le> score \<and> find_detail (dp_scope p) m st1 \<noteq> None then m else dp_key p), st1)
      else (Some (dp_key p), st))"

definition confirm_held :: "'e learner \<Rightarrow> learn_request \<Rightarrow> detail_proposal \<Rightarrow> 'e learning \<Rightarrow> 'e learning" where
  "confirm_held l req p st =
     st\<lparr>lg_tables := confirm_detail (lr_now l (lg_env st)) (lq_user req) (dp_scope p) (dp_key p) (lg_tables st)\<rparr>"

definition settle_detail :: "'e learner \<Rightarrow> learn_request \<Rightarrow> detail_proposal \<Rightarrow> 'e learning \<Rightarrow> 'e learning" where
  "settle_detail l req p st =
     (case find_detail (dp_scope p) (dp_key p) st of
        None \<Rightarrow> learn_new l req p st
      | Some old \<Rightarrow>
          if same_detail_value (lr_compare l) (dt_value old) (dp_value p) then confirm_held l req p st
          else let (r, e) = lr_relation l (dp_key p) (dt_value old) (dp_value p) (lg_env st); st1 = st\<lparr>lg_env := e\<rparr>
               in case r of
                    Inl err \<Rightarrow> st1
                  | Inr RelSame \<Rightarrow> confirm_held l req p st1
                  | Inr rel \<Rightarrow> propose_change l req p old rel st1)"

definition consider_detail :: "'e learner \<Rightarrow> learn_request \<Rightarrow> detail_proposal \<Rightarrow> 'e learning \<Rightarrow> 'e learning" where
  "consider_detail l req p st =
     (let scope = (if trim_space (dp_scope p) = [] then profile_personal else trim_space (dp_scope p)) in
      if scope \<noteq> profile_personal \<and> gm_get (lq_apps req) scope = None then st
      else case (canonical_detail_key (dp_key p), clean_detail_value (dp_value p)) of
          (Some key, (val, True)) \<Rightarrow>
            if never_learned key val then st
            else (case match_held l \<lparr>dp_scope = scope, dp_key = key, dp_value = val\<rparr> st of
                    (None, st1) \<Rightarrow> st1
                  | (Some k, st1) \<Rightarrow> settle_detail l req \<lparr>dp_scope = scope, dp_key = k, dp_value = val\<rparr> st1)
        | _ \<Rightarrow> st)"

section \<open>The whole exchange\<close>

definition add_unless_held :: "person_detail list \<Rightarrow> person_detail list \<Rightarrow> person_detail list" where
  "add_unless_held ds out = foldl (\<lambda>o' d. if dt_key d \<in> dt_key ` set o' then o' else o' @ [d]) out ds"

text \<open>An owned key always comes from the field; the rest of the fields only fills gaps.\<close>

definition merge_typed :: "person_detail list \<Rightarrow> person_detail list \<Rightarrow> 'e typed_details \<Rightarrow> person_detail list" where
  "merge_typed stored typed t =
     (let personal = map (\<lambda>d. d\<lparr>dt_scope := profile_personal\<rparr>) typed
      in add_unless_held personal (add_unless_held stored (filter (\<lambda>d. ty_owns t (dt_key d)) personal)))"

definition by_scope :: "person_detail list \<Rightarrow> person_detail list gomap" where
  "by_scope ds = map (\<lambda>s. (s, filter (\<lambda>d. dt_scope d = s) ds)) (remdups (map dt_scope ds))"

definition scopes_of :: "learn_request \<Rightarrow> string list" where
  "scopes_of req = profile_personal # sort (map fst (lq_apps req))"

definition start_learning :: "'e learner \<Rightarrow> learn_request \<Rightarrow> profile_tables \<Rightarrow> 'e \<Rightarrow> (goerr + person_detail list gomap) \<times> 'e" where
  "start_learning l req t e =
     (let held = by_scope (profile_details (lq_user req) (scopes_of req) t) in
      case lr_typed l of
        None \<Rightarrow> (Inr held, e)
      | Some ty \<Rightarrow>
          (case ty_details ty (lq_user req) e of
             (Inl err, e1) \<Rightarrow> (Inl (wrapf ''profile: load typed: '' err), e1)
           | (Inr typed, e1) \<Rightarrow>
               (Inr (gm_set profile_personal (merge_typed (case gm_get held profile_personal of None \<Rightarrow> [] | Some ds \<Rightarrow> ds) typed ty) held), e1)))"

definition learn :: "'e learner \<Rightarrow> learn_request \<Rightarrow> profile_tables \<Rightarrow> 'e \<Rightarrow> goerr option \<times> 'e learning" where
  "learn l req t e =
     (let none = \<lparr>lg_held = [], lg_questions = 0, lg_tables = t, lg_env = e, lg_log = []\<rparr> in
      if lq_user req = [] then (None, none)
      else case start_learning l req t e of
          (Inl err, e1) \<Rightarrow> (Some err, none\<lparr>lg_env := e1\<rparr>)
        | (Inr held, e1) \<Rightarrow>
            (case lr_propose l req held e1 of
               (Inl err, e2) \<Rightarrow> (Some (wrapf ''profile: read: '' err), none\<lparr>lg_held := held, lg_env := e2\<rparr>)
             | (Inr ps, e2) \<Rightarrow>
                 (None, foldl (\<lambda>st p. consider_detail l req p st) (none\<lparr>lg_held := held, lg_env := e2\<rparr>) (take max_proposals_per_exchange ps))))"

end
