(* ===== verification/Profile_Claims.thy ===== *)
theory Profile_Claims
  imports Profile
begin

text \<open>
  What holds of learning about a person, whatever the model, the judge and the person's chat answer: a
  detail held is changed only by a yes to a question that names it; what is written carries no
  long number and stays within the maps of the exchange; the maps keep their bound.
\<close>

section \<open>The tables\<close>

definition same_detail :: "string \<times> person_detail \<Rightarrow> string \<times> person_detail \<Rightarrow> bool" where
  "same_detail r r' \<longleftrightarrow> fst r' = fst r \<and> dt_scope (snd r') = dt_scope (snd r) \<and> dt_key (snd r') = dt_key (snd r)"

lemma same_detail_refl [simp]: "same_detail r r"
  by (simp add: same_detail_def)

lemma same_detail_trans: "same_detail a b \<Longrightarrow> same_detail b c \<Longrightarrow> same_detail a c"
  by (simp add: same_detail_def)

lemma set_detail_rows:
  assumes "set_detail now user d t = (ok, t')" "r \<in> set (pt_details t)"
  shows "\<exists>r'\<in>set (pt_details t'). same_detail r r' \<and>
           (dt_value (snd r') = dt_value (snd r) \<or> is_detail user (dt_scope d) (dt_key d) r \<and> dt_value (snd r') = dt_value d)"
proof (cases "\<exists>r\<in>set (pt_details t). is_detail user (dt_scope d) (dt_key d) r")
  case True
  let ?f = "\<lambda>r. if is_detail user (dt_scope d) (dt_key d) r
    then (fst r, (snd r)\<lparr>dt_value := dt_value d, dt_source := if dt_source d = [] then detail_said else dt_source d,
            dt_updated := now, dt_confirmed := now\<rparr>) else r"
  have "pt_details t' = map ?f (pt_details t)" using True assms(1) by (auto simp: set_detail_def Let_def)
  then have "?f r \<in> set (pt_details t')" using assms(2) by simp
  moreover have "same_detail r (?f r) \<and> (dt_value (snd (?f r)) = dt_value (snd r) \<or>
      is_detail user (dt_scope d) (dt_key d) r \<and> dt_value (snd (?f r)) = dt_value d)" by (auto simp: same_detail_def)
  ultimately show ?thesis by blast
next
  case False
  then have "r \<in> set (pt_details t')" using assms by (auto simp: set_detail_def Let_def split: if_splits)
  then show ?thesis using same_detail_refl by blast
qed

lemma set_detail_new:
  assumes "set_detail now user d t = (ok, t')" "r' \<in> set (pt_details t')"
  shows "(\<exists>r\<in>set (pt_details t). same_detail r r') \<or> ok \<and> is_detail user (dt_scope d) (dt_key d) r'"
  using assms by (auto simp: set_detail_def same_detail_def is_detail_def Let_def split: if_splits)

lemma confirm_row:
  assumes "r \<in> set (pt_details t)"
  shows "\<exists>r'\<in>set (pt_details (confirm_detail now user scope key t)). same_detail r r' \<and> dt_value (snd r') = dt_value (snd r)"
proof -
  let ?f = "\<lambda>r. if is_detail user scope key r then (fst r, (snd r)\<lparr>dt_confirmed := now\<rparr>) else r"
  have "?f r \<in> set (pt_details (confirm_detail now user scope key t))" using assms by (simp add: confirm_detail_def)
  moreover have "same_detail r (?f r) \<and> dt_value (snd (?f r)) = dt_value (snd r)" by (simp add: same_detail_def)
  ultimately show ?thesis by blast
qed

lemma confirmed_row:
  assumes "r' \<in> set (pt_details (confirm_detail now user scope key t))"
  shows "\<exists>r\<in>set (pt_details t). same_detail r r'"
proof -
  let ?f = "\<lambda>r. if is_detail user scope key r then (fst r, (snd r)\<lparr>dt_confirmed := now\<rparr>) else r"
  have "r' \<in> ?f ` set (pt_details t)" using assms by (simp add: confirm_detail_def)
  then obtain r where "r' = ?f r" "r \<in> set (pt_details t)" by (rule imageE)
  moreover have "same_detail r (?f r)" by (simp add: same_detail_def)
  ultimately show ?thesis by blast
qed

lemma decline_rows [simp]: "pt_details (decline_value cmp now user scope key val t) = pt_details t"
  by (simp add: decline_value_def)

text \<open>A detail is there once for each name, and a map holds no more than it may.\<close>

definition detail_name :: "string \<times> person_detail \<Rightarrow> string \<times> string \<times> string" where
  "detail_name r = (fst r, dt_scope (snd r), dt_key (snd r))"

definition tables_ok :: "profile_tables \<Rightarrow> bool" where
  "tables_ok t \<longleftrightarrow> distinct (map detail_name (pt_details t)) \<and>
     (\<forall>u s. length (filter (\<lambda>r. fst r = u \<and> dt_scope (snd r) = s) (pt_details t)) \<le> max_details_per_scope)"

lemma tables_ok_map:
  assumes "tables_ok t" "pt_details t' = map f (pt_details t)" "\<And>r. detail_name (f r) = detail_name r"
  shows "tables_ok t'"
proof -
  have "map detail_name (pt_details t') = map detail_name (pt_details t)" using assms(2,3) by simp
  moreover have "length (filter (\<lambda>r. fst r = u \<and> dt_scope (snd r) = s) (pt_details t')) =
      length (filter (\<lambda>r. fst r = u \<and> dt_scope (snd r) = s) (pt_details t))" for u s
  proof -
    have "fst (f r) = fst r \<and> dt_scope (snd (f r)) = dt_scope (snd r)" for r using assms(3) [of r] by (simp add: detail_name_def)
    then show ?thesis by (simp add: assms(2) filter_map o_def)
  qed
  ultimately show ?thesis using assms(1) by (simp add: tables_ok_def)
qed

lemma set_detail_ok:
  assumes ok: "tables_ok t"
  shows "tables_ok (snd (set_detail now user d t))"
proof (cases "\<exists>r\<in>set (pt_details t). is_detail user (dt_scope d) (dt_key d) r")
  case True
  show ?thesis
    by (rule tables_ok_map [OF ok, where f = "\<lambda>r. if is_detail user (dt_scope d) (dt_key d) r
          then (fst r, (snd r)\<lparr>dt_value := dt_value d, dt_source := if dt_source d = [] then detail_said else dt_source d,
            dt_updated := now, dt_confirmed := now\<rparr>) else r"])
      (use True in \<open>simp_all add: set_detail_def Let_def detail_name_def\<close>)
next
  case False
  show ?thesis
  proof (cases "length (filter (\<lambda>(u, x). u = user \<and> dt_scope x = dt_scope d) (pt_details t)) < max_details_per_scope")
    case room: True
    have same: "(\<lambda>(u, x). u = user \<and> dt_scope x = dt_scope d) = (\<lambda>r. fst r = user \<and> dt_scope (snd r) = dt_scope d)" by auto
    show ?thesis using ok False room unfolding same
      by (auto simp: set_detail_def Let_def tables_ok_def detail_name_def is_detail_def same)
  qed (use ok False in \<open>simp add: set_detail_def Let_def\<close>)
qed

lemma confirm_ok: "tables_ok t \<Longrightarrow> tables_ok (confirm_detail now user scope key t)"
  by (erule tables_ok_map [where f = "\<lambda>r. if is_detail user scope key r then (fst r, (snd r)\<lparr>dt_confirmed := now\<rparr>) else r"])
    (simp_all add: confirm_detail_def detail_name_def)

lemma remove_ok:
  assumes "tables_ok t"
  shows "tables_ok (snd (remove_detail user scope key t))"
proof -
  have fewer: "length (filter P (filter Q xs)) \<le> length (filter P xs)" for P Q and xs :: "(string \<times> person_detail) list"
    by (induction xs) auto
  have e: "pt_details (snd (remove_detail user scope key t)) = filter (\<lambda>r. \<not> is_detail user scope key r) (pt_details t)"
    by (simp add: remove_detail_def)
  have "length (filter (\<lambda>r. fst r = u \<and> dt_scope (snd r) = s) (pt_details (snd (remove_detail user scope key t)))) \<le> max_details_per_scope" for u s
    using fewer le_trans assms unfolding e tables_ok_def by blast
  moreover have "distinct (map detail_name (pt_details (snd (remove_detail user scope key t))))"
    using assms by (simp add: tables_ok_def remove_detail_def distinct_map_filter)
  ultimately show ?thesis by (simp add: tables_ok_def)
qed

section \<open>The details held\<close>

lemma put_in_keys: "dt_key ` set (put_in d xs) = insert (dt_key d) (dt_key ` set xs)"
  by (induction xs) auto

lemma held_in_put: "held_in s (put_detail d st) = (if s = dt_scope d then put_in d (held_in s st) else held_in s st)"
  by (simp add: held_in_def put_detail_def)

lemma put_detail_parts [simp]:
  "lg_tables (put_detail d st) = lg_tables st" "lg_log (put_detail d st) = lg_log st" "lg_questions (put_detail d st) = lg_questions st"
  by (simp_all add: put_detail_def)

lemma held_in_env [simp]:
  "held_in s (st\<lparr>lg_env := e\<rparr>) = held_in s st" "held_in s (st\<lparr>lg_tables := t\<rparr>) = held_in s st"
  "held_in s (st\<lparr>lg_log := ns\<rparr>) = held_in s st" "held_in s (st\<lparr>lg_questions := n\<rparr>) = held_in s st"
  by (simp_all add: held_in_def)

lemma find_detail_None: "find_detail scope key st = None \<longleftrightarrow> key \<notin> dt_key ` set (held_in scope st)"
  by (auto simp: find_detail_def find_None_iff)

text \<open>
  What has been written and asked fits the exchange, and the tables still hold every detail there was at
  \<open>t0\<close>, changed only where the log has the question and the yes.
\<close>

definition note_fits :: "learn_request \<Rightarrow> learn_note list \<Rightarrow> learn_note \<Rightarrow> bool" where
  "note_fits req ns n \<longleftrightarrow>
     (case n of
        LgWrote scope key val source \<Rightarrow>
          (scope = profile_personal \<or> gm_get (lq_apps req) scope \<noteq> None) \<and> val \<noteq> [] \<and> \<not> rx_match long_digits val \<and>
          (source = detail_said \<or> source = detail_changed \<and> (\<exists>old. LgAsked scope key old val 0 \<in> set ns))
      | LgAsked scope key old val i \<Rightarrow> scope = profile_personal \<or> gm_get (lq_apps req) scope \<noteq> None)"

definition rows_kept :: "string \<Rightarrow> learn_note list \<Rightarrow> profile_tables \<Rightarrow> profile_tables \<Rightarrow> bool" where
  "rows_kept user ns t0 t \<longleftrightarrow>
     (\<forall>r\<in>set (pt_details t0). \<exists>r'\<in>set (pt_details t). same_detail r r' \<and>
        (dt_value (snd r') = dt_value (snd r) \<or>
         fst r = user \<and> (\<exists>old. LgAsked (dt_scope (snd r)) (dt_key (snd r)) old (dt_value (snd r')) 0 \<in> set ns)))"

definition in_exchange :: "learn_request \<Rightarrow> string \<Rightarrow> bool" where
  "in_exchange req scope \<longleftrightarrow> scope = profile_personal \<or> gm_get (lq_apps req) scope \<noteq> None"

definition asked_count :: "learn_note list \<Rightarrow> nat" where
  "asked_count ns = length (filter (\<lambda>n. case n of LgAsked a b c d i \<Rightarrow> True | _ \<Rightarrow> False) ns)"

definition wrote_count :: "learn_note list \<Rightarrow> nat" where
  "wrote_count ns = length (filter (\<lambda>n. case n of LgWrote a b c d \<Rightarrow> True | _ \<Rightarrow> False) ns)"

definition learning_ok :: "learn_request \<Rightarrow> profile_tables \<Rightarrow> 'e learning \<Rightarrow> bool" where
  "learning_ok req t0 st \<longleftrightarrow>
     rows_kept (lq_user req) (lg_log st) t0 (lg_tables st) \<and>
     (\<forall>n\<in>set (lg_log st). note_fits req (lg_log st) n) \<and>
     (\<forall>r\<in>set (pt_details (lg_tables st)). fst r = lq_user req \<and> in_exchange req (dt_scope (snd r)) \<longrightarrow>
        dt_key (snd r) \<in> dt_key ` set (held_in (dt_scope (snd r)) st)) \<and>
     (tables_ok t0 \<longrightarrow> tables_ok (lg_tables st)) \<and>
     asked_count (lg_log st) \<le> lg_questions st \<and> lg_questions st \<le> max_questions_per_exchange"

lemma learning_okI:
  assumes "rows_kept (lq_user req) (lg_log st) t0 (lg_tables st)"
    "\<And>n. n \<in> set (lg_log st) \<Longrightarrow> note_fits req (lg_log st) n"
    "\<And>r. r \<in> set (pt_details (lg_tables st)) \<Longrightarrow> fst r = lq_user req \<Longrightarrow> in_exchange req (dt_scope (snd r)) \<Longrightarrow>
       dt_key (snd r) \<in> dt_key ` set (held_in (dt_scope (snd r)) st)"
    "tables_ok t0 \<Longrightarrow> tables_ok (lg_tables st)"
    "asked_count (lg_log st) \<le> lg_questions st" "lg_questions st \<le> max_questions_per_exchange"
  shows "learning_ok req t0 st"
  unfolding learning_ok_def using assms by blast

lemma learning_okD:
  assumes "learning_ok req t0 st"
  shows "rows_kept (lq_user req) (lg_log st) t0 (lg_tables st)"
    "n \<in> set (lg_log st) \<Longrightarrow> note_fits req (lg_log st) n"
    "r \<in> set (pt_details (lg_tables st)) \<Longrightarrow> fst r = lq_user req \<Longrightarrow> in_exchange req (dt_scope (snd r)) \<Longrightarrow>
       dt_key (snd r) \<in> dt_key ` set (held_in (dt_scope (snd r)) st)"
    "tables_ok t0 \<Longrightarrow> tables_ok (lg_tables st)"
    "asked_count (lg_log st) \<le> lg_questions st" "lg_questions st \<le> max_questions_per_exchange"
  using assms unfolding learning_ok_def by blast+

lemma note_fits_mono: "note_fits req ns n \<Longrightarrow> set ns \<subseteq> set ns' \<Longrightarrow> note_fits req ns' n"
  by (auto simp: note_fits_def split: learn_note.splits)

lemma rows_kept_mono: "rows_kept user ns t0 t \<Longrightarrow> set ns \<subseteq> set ns' \<Longrightarrow> rows_kept user ns' t0 t"
  unfolding rows_kept_def by (meson subsetD)

lemma learning_ok_same:
  assumes ok: "learning_ok req t0 st" and same: "lg_tables st' = lg_tables st" "lg_log st' = lg_log st" "lg_questions st' = lg_questions st"
    "\<And>s. held_in s st' = held_in s st"
  shows "learning_ok req t0 st'"
  by (rule learning_okI; unfold same) (rule learning_okD [OF ok]; assumption)+

lemma learning_ok_env [simp]: "learning_ok req t0 st \<Longrightarrow> learning_ok req t0 (st\<lparr>lg_env := e\<rparr>)"
  by (erule learning_ok_same) simp_all

text \<open>New tables whose rows are the old ones', but for what a yes changed, and what is held.\<close>

lemma rows_kept_step:
  assumes "rows_kept user ns t0 t" "set ns \<subseteq> set ns'"
    "\<And>r. r \<in> set (pt_details t) \<Longrightarrow> \<exists>r'\<in>set (pt_details t'). same_detail r r' \<and>
       (dt_value (snd r') = dt_value (snd r) \<or>
        fst r = user \<and> (\<exists>old. LgAsked (dt_scope (snd r)) (dt_key (snd r)) old (dt_value (snd r')) 0 \<in> set ns'))"
  shows "rows_kept user ns' t0 t'"
  unfolding rows_kept_def
proof
  fix r
  assume "r \<in> set (pt_details t0)"
  then obtain r1 where r1: "r1 \<in> set (pt_details t)" "same_detail r r1"
    "dt_value (snd r1) = dt_value (snd r) \<or> fst r = user \<and>
       (\<exists>old. LgAsked (dt_scope (snd r)) (dt_key (snd r)) old (dt_value (snd r1)) 0 \<in> set ns)"
    using assms(1) unfolding rows_kept_def by blast
  obtain r2 where r2: "r2 \<in> set (pt_details t')" "same_detail r1 r2"
    "dt_value (snd r2) = dt_value (snd r1) \<or> fst r1 = user \<and>
       (\<exists>old. LgAsked (dt_scope (snd r1)) (dt_key (snd r1)) old (dt_value (snd r2)) 0 \<in> set ns')"
    using assms(3) [OF r1(1)] by blast
  have s: "fst r1 = fst r" "dt_scope (snd r1) = dt_scope (snd r)" "dt_key (snd r1) = dt_key (snd r)"
    using r1(2) by (simp_all add: same_detail_def)
  have "same_detail r r2" by (rule same_detail_trans [OF r1(2) r2(2)])
  moreover have "dt_value (snd r2) = dt_value (snd r) \<or> fst r = user \<and>
      (\<exists>old. LgAsked (dt_scope (snd r)) (dt_key (snd r)) old (dt_value (snd r2)) 0 \<in> set ns')"
    using r1(3) r2(3) assms(2) unfolding s by (metis subsetD)
  ultimately show "\<exists>r'\<in>set (pt_details t'). same_detail r r' \<and> (dt_value (snd r') = dt_value (snd r) \<or> fst r = user \<and>
      (\<exists>old. LgAsked (dt_scope (snd r)) (dt_key (snd r)) old (dt_value (snd r')) 0 \<in> set ns'))"
    using r2(1) by blast
qed

lemma confirm_learning:
  assumes ok: "learning_ok req t0 st"
  shows "learning_ok req t0 (confirm_held l req p st)"
proof (rule learning_okI)
  have same: "lg_log (confirm_held l req p st) = lg_log st" "lg_questions (confirm_held l req p st) = lg_questions st"
    "held_in s (confirm_held l req p st) = held_in s st" for s
    by (simp_all add: confirm_held_def)
  show "rows_kept (lq_user req) (lg_log (confirm_held l req p st)) t0 (lg_tables (confirm_held l req p st))"
  proof (rule rows_kept_step [OF learning_okD(1) [OF ok]])
    show "\<exists>r'\<in>set (pt_details (lg_tables (confirm_held l req p st))). same_detail r r' \<and>
        (dt_value (snd r') = dt_value (snd r) \<or> fst r = lq_user req \<and>
          (\<exists>old. LgAsked (dt_scope (snd r)) (dt_key (snd r)) old (dt_value (snd r')) 0 \<in> set (lg_log (confirm_held l req p st))))"
      if "r \<in> set (pt_details (lg_tables st))" for r
      using confirm_row [OF that] unfolding confirm_held_def by fastforce
  qed (simp add: same)
  show "note_fits req (lg_log (confirm_held l req p st)) n" if "n \<in> set (lg_log (confirm_held l req p st))" for n
    using that learning_okD(2) [OF ok] by (simp add: same)
  show "dt_key (snd r') \<in> dt_key ` set (held_in (dt_scope (snd r')) (confirm_held l req p st))"
    if r': "r' \<in> set (pt_details (lg_tables (confirm_held l req p st)))" "fst r' = lq_user req" "in_exchange req (dt_scope (snd r'))" for r'
  proof -
    have "lg_tables (confirm_held l req p st) = confirm_detail (lr_now l (lg_env st)) (lq_user req) (dp_scope p) (dp_key p) (lg_tables st)"
      by (simp add: confirm_held_def)
    then obtain r where "r \<in> set (pt_details (lg_tables st))" "same_detail r r'" using confirmed_row r'(1) by metis
    then show ?thesis using learning_okD(3) [OF ok, of r] r'(2,3) by (simp add: same_detail_def same)
  qed
  show "tables_ok (lg_tables (confirm_held l req p st))" if "tables_ok t0"
    using learning_okD(4) [OF ok that] confirm_ok by (simp add: confirm_held_def)
qed (use learning_okD(5,6) [OF ok] in \<open>simp_all add: confirm_held_def\<close>)


section \<open>Every step of learning keeps it\<close>

text \<open>The log after a write, and the tables and what is held after it.\<close>

lemma learning_ok_wrote:
  assumes ok: "learning_ok req t0 st" and fits: "note_fits req (lg_log st) n" and n: "n = LgWrote (dp_scope p) (dp_key p) (dp_value p) source"
    and tab: "lg_tables st1 = lg_tables st" "lg_log st1 = lg_log st" "lg_questions st1 = lg_questions st" "\<And>s. held_in s st1 = held_in s st"
  shows "learning_ok req t0 (put_detail (new_detail (dp_scope p) (dp_key p) (dp_value p) source) (st1\<lparr>lg_log := lg_log st1 @ [n]\<rparr>))"
    (is "learning_ok _ _ ?st")
proof (rule learning_okI)
  have log: "lg_log ?st = lg_log st @ [n]" by (simp add: tab)
  have sub: "set (lg_log st) \<subseteq> set (lg_log ?st)" unfolding log by auto
  have tb: "lg_tables ?st = lg_tables st" by (simp add: tab)
  show "rows_kept (lq_user req) (lg_log ?st) t0 (lg_tables ?st)"
    unfolding tb by (rule rows_kept_mono [OF learning_okD(1) [OF ok] sub])
  show "note_fits req (lg_log ?st) m" if "m \<in> set (lg_log ?st)" for m
    using that learning_okD(2) [OF ok] fits note_fits_mono [OF _ sub] unfolding log by auto
  show "dt_key (snd r) \<in> dt_key ` set (held_in (dt_scope (snd r)) ?st)"
    if "r \<in> set (pt_details (lg_tables ?st))" "fst r = lq_user req" "in_exchange req (dt_scope (snd r))" for r
    using learning_okD(3) [OF ok, of r] that unfolding tb by (auto simp: held_in_put put_in_keys tab)
  show "tables_ok (lg_tables ?st)" if "tables_ok t0"
    unfolding tb by (rule learning_okD(4) [OF ok that])
  show "asked_count (lg_log ?st) \<le> lg_questions ?st" "lg_questions ?st \<le> max_questions_per_exchange"
    using learning_okD(5,6) [OF ok] by (simp_all add: tab asked_count_def n)
qed

definition may_write :: "learn_request \<Rightarrow> 'e learning \<Rightarrow> detail_proposal \<Rightarrow> string \<Rightarrow> bool" where
  "may_write req st p source \<longleftrightarrow>
     in_exchange req (dp_scope p) \<and> dp_value p \<noteq> [] \<and> \<not> rx_match long_digits (dp_value p) \<and>
     (source = detail_said \<and> find_detail (dp_scope p) (dp_key p) st = None \<or>
      source = detail_changed \<and> (\<exists>old. LgAsked (dp_scope p) (dp_key p) old (dp_value p) 0 \<in> set (lg_log st)))"

lemma set_detail_refused: "set_detail now user d t = (False, t') \<Longrightarrow> t' = t"
  by (auto simp: set_detail_def Let_def split: if_splits)

lemma sources_differ [simp]: "detail_said \<noteq> detail_changed"
  by (simp add: detail_said_def detail_changed_def)

lemma set_detail_learning:
  assumes ok: "learning_ok req t0 st" and may: "may_write req st p source"
    and set: "set_detail now (lq_user req) (new_detail (dp_scope p) (dp_key p) (dp_value p) source) (lg_tables st) = (True, t)"
  shows "learning_ok req t0 (put_detail (new_detail (dp_scope p) (dp_key p) (dp_value p) source)
    (st\<lparr>lg_tables := t, lg_log := lg_log st @ [LgWrote (dp_scope p) (dp_key p) (dp_value p) source]\<rparr>))"
    (is "learning_ok _ _ ?st")
proof (rule learning_okI)
  let ?d = "new_detail (dp_scope p) (dp_key p) (dp_value p) source"
  let ?n = "LgWrote (dp_scope p) (dp_key p) (dp_value p) source"
  have log: "lg_log ?st = lg_log st @ [?n]" by simp
  have sub: "set (lg_log st) \<subseteq> set (lg_log ?st)" unfolding log by auto
  have d: "dt_scope ?d = dp_scope p" "dt_key ?d = dp_key p" "dt_value ?d = dp_value p" by (simp_all add: new_detail_def)
  have tb: "lg_tables ?st = t" by simp
  show "rows_kept (lq_user req) (lg_log ?st) t0 (lg_tables ?st)"
    unfolding tb
  proof (rule rows_kept_step [OF learning_okD(1) [OF ok] sub])
    fix r
    assume r: "r \<in> set (pt_details (lg_tables st))"
    obtain r' where r': "r' \<in> set (pt_details t)" "same_detail r r'"
      "dt_value (snd r') = dt_value (snd r) \<or> is_detail (lq_user req) (dp_scope p) (dp_key p) r \<and> dt_value (snd r') = dp_value p"
      using set_detail_rows [OF set r] unfolding d by blast
    have "dt_value (snd r') = dt_value (snd r) \<or> fst r = lq_user req \<and>
        (\<exists>old. LgAsked (dt_scope (snd r)) (dt_key (snd r)) old (dt_value (snd r')) 0 \<in> set (lg_log ?st))"
    proof (cases "dt_value (snd r') = dt_value (snd r)")
      case False
      then have q: "fst r = lq_user req" "dt_scope (snd r) = dp_scope p" "dt_key (snd r) = dp_key p" "dt_value (snd r') = dp_value p"
        using r'(3) by (auto simp: is_detail_def)
      have "dp_key p \<in> dt_key ` set (held_in (dp_scope p) st)"
        using learning_okD(3) [OF ok r] may q by (simp add: may_write_def)
      then have "find_detail (dp_scope p) (dp_key p) st \<noteq> None" by (simp add: find_detail_None)
      then obtain old where "LgAsked (dp_scope p) (dp_key p) old (dp_value p) 0 \<in> set (lg_log st)"
        using may by (auto simp: may_write_def)
      then show ?thesis using q log by auto
    qed simp
    then show "\<exists>r'\<in>set (pt_details t). same_detail r r' \<and> (dt_value (snd r') = dt_value (snd r) \<or> fst r = lq_user req \<and>
        (\<exists>old. LgAsked (dt_scope (snd r)) (dt_key (snd r)) old (dt_value (snd r')) 0 \<in> set (lg_log ?st)))"
      using r'(1,2) by blast
  qed
  have "note_fits req (lg_log st) ?n"
    using may by (auto simp: note_fits_def may_write_def in_exchange_def)
  then show "note_fits req (lg_log ?st) m" if "m \<in> set (lg_log ?st)" for m
    using that learning_okD(2) [OF ok] note_fits_mono [OF _ sub] unfolding log by auto
  show "dt_key (snd r) \<in> dt_key ` set (held_in (dt_scope (snd r)) ?st)"
    if r: "r \<in> set (pt_details (lg_tables ?st))" "fst r = lq_user req" "in_exchange req (dt_scope (snd r))" for r
  proof -
    consider r0 where "r0 \<in> set (pt_details (lg_tables st))" "same_detail r0 r" | "is_detail (lq_user req) (dp_scope p) (dp_key p) r"
      using set_detail_new [OF set] r(1) unfolding tb d by blast
    then show ?thesis
    proof cases
      case 1
      then have "dt_key (snd r) \<in> dt_key ` set (held_in (dt_scope (snd r)) st)"
        using learning_okD(3) [OF ok 1(1)] r(2,3) by (simp add: same_detail_def)
      then show ?thesis by (auto simp: held_in_put put_in_keys)
    next
      case 2
      then show ?thesis by (simp add: held_in_put put_in_keys is_detail_def d)
    qed
  qed
  show "tables_ok (lg_tables ?st)" if "tables_ok t0"
    using set_detail_ok [OF learning_okD(4) [OF ok that], of now "lq_user req" ?d] set unfolding tb by simp
  show "asked_count (lg_log ?st) \<le> lg_questions ?st" "lg_questions ?st \<le> max_questions_per_exchange"
    using learning_okD(5,6) [OF ok] by (simp_all add: asked_count_def)
qed

lemma write_learning:
  assumes ok: "learning_ok req t0 st" and may: "may_write req st p source"
  shows "learning_ok req t0 (snd (write_detail l (lq_user req) p source st))"
proof (cases "personal_field l p")
  case (Some t)
  obtain err e where set: "ty_set t (lq_user req) (dp_key p) (dp_value p) (lg_env st) = (err, e)" by fastforce
  have "note_fits req (lg_log st) (LgWrote (dp_scope p) (dp_key p) (dp_value p) source)"
    using may by (auto simp: note_fits_def may_write_def in_exchange_def)
  note wrote = learning_ok_wrote [OF ok this refl, of "st\<lparr>lg_env := e\<rparr>"]
  show ?thesis
    using wrote ok by (simp add: write_detail_def Some set Let_def)
next
  case None
  obtain g t where set: "set_detail (lr_now l (lg_env st)) (lq_user req) (new_detail (dp_scope p) (dp_key p) (dp_value p) source) (lg_tables st) = (g, t)"
    by fastforce
  show ?thesis
  proof (cases g)
    case True
    then show ?thesis
      using set_detail_learning [OF ok may] set by (simp add: write_detail_def None Let_def)
  next
    case False
    with set have "set_detail (lr_now l (lg_env st)) (lq_user req) (new_detail (dp_scope p) (dp_key p) (dp_value p) source) (lg_tables st) = (False, t)" by simp
    then have "t = lg_tables st" by (rule set_detail_refused)
    then show ?thesis using ok set False by (simp add: write_detail_def None Let_def)
  qed
qed

lemma may_write_same: "lg_log st' = lg_log st \<Longrightarrow> (\<And>s. held_in s st' = held_in s st) \<Longrightarrow> may_write req st' p source = may_write req st p source"
  by (simp add: may_write_def find_detail_def)

lemma lasting_state: "\<exists>e. snd (is_lasting l req p st) = st\<lparr>lg_env := e\<rparr>"
  by (auto simp: is_lasting_def split: prod.splits)


lemma learn_new_ok:
  assumes ok: "learning_ok req t0 st" and may: "may_write req st p detail_said"
  shows "learning_ok req t0 (learn_new l req p st)"
proof -
  obtain b st1 where l: "is_lasting l req p st = (b, st1)" by fastforce
  then obtain e where st1: "st1 = st\<lparr>lg_env := e\<rparr>" using lasting_state by (metis snd_conv)
  have "learning_ok req t0 st1" "may_write req st1 p detail_said"
    using ok may by (simp_all add: st1 may_write_same [of "st\<lparr>lg_env := e\<rparr>" st])
  then have "learning_ok req t0 (snd (write_detail l (lq_user req) p detail_said st1))" by (rule write_learning)
  then show ?thesis using \<open>learning_ok req t0 st1\<close> by (simp add: learn_new_def l)
qed

lemma asked_learning:
  assumes ok: "learning_ok req t0 st" and scope: "in_exchange req (dp_scope p)" and few: "lg_questions st < max_questions_per_exchange"
  shows "learning_ok req t0 (st\<lparr>lg_env := e, lg_questions := Suc (lg_questions st),
    lg_log := lg_log st @ [LgAsked (dp_scope p) (dp_key p) old val i]\<rparr>)" (is "learning_ok _ _ ?st")
proof (rule learning_okI)
  have sub: "set (lg_log st) \<subseteq> set (lg_log ?st)" by auto
  show "rows_kept (lq_user req) (lg_log ?st) t0 (lg_tables ?st)"
    using rows_kept_mono [OF learning_okD(1) [OF ok] sub] by simp
  show "note_fits req (lg_log ?st) m" if "m \<in> set (lg_log ?st)" for m
  proof (cases "m \<in> set (lg_log st)")
    case True
    then show ?thesis using learning_okD(2) [OF ok] note_fits_mono [OF _ sub] by blast
  next
    case False
    then have "m = LgAsked (dp_scope p) (dp_key p) old val i" using that by simp
    then show ?thesis using scope by (simp add: note_fits_def in_exchange_def)
  qed
qed (use learning_okD(3-6) [OF ok] few in \<open>simp_all add: asked_count_def\<close>)

lemma questions_learning:
  assumes ok: "learning_ok req t0 st" and few: "lg_questions st < max_questions_per_exchange"
  shows "learning_ok req t0 (st\<lparr>lg_env := e, lg_questions := Suc (lg_questions st)\<rparr>)"
  by (rule learning_okI) (use learning_okD [OF ok] few in \<open>simp_all add: le_SucI\<close>)

lemma declined_learning:
  assumes ok: "learning_ok req t0 st"
  shows "learning_ok req t0 (st\<lparr>lg_tables := decline_value cmp now u s k v (lg_tables st)\<rparr>)" (is "learning_ok _ _ ?st")
proof (rule learning_okI)
  show "rows_kept (lq_user req) (lg_log ?st) t0 (lg_tables ?st)" using learning_okD(1) [OF ok] by (simp add: rows_kept_def)
  show "tables_ok (lg_tables ?st)" if "tables_ok t0" using learning_okD(4) [OF ok that] by (simp add: tables_ok_def)
qed (use learning_okD(2,3,5,6) [OF ok] in simp_all)

lemma ask_change_ok:
  assumes ok: "learning_ok req t0 st" and scope: "in_exchange req (dp_scope p)" and few: "lg_questions st < max_questions_per_exchange"
    and val: "dp_value p \<noteq> []" "\<not> rx_match long_digits (dp_value p)"
  shows "learning_ok req t0 (ask_change l req ask p old rel st)"
proof -
  obtain question yes where q: "change_question (case gm_get (lq_apps req) (dp_scope p) of None \<Rightarrow> [] | Some n \<Rightarrow> n) (dp_key p) (dt_value old) (dp_value p) rel = (question, yes)"
    by fastforce
  obtain ans e where a: "ask (lq_conv req) question [yes, ''No, keep it''] ask_timeout_seconds (lg_env st) = (ans, e)" by fastforce
  show ?thesis
  proof (cases ans)
    case (Inl err)
    then show ?thesis using questions_learning [OF ok few] by (simp add: ask_change_def q a Let_def)
  next
    case (Inr i)
    let ?st2 = "st\<lparr>lg_env := e, lg_questions := Suc (lg_questions st), lg_log := lg_log st @ [LgAsked (dp_scope p) (dp_key p) (dt_value old) (dp_value p) i]\<rparr>"
    have st2: "learning_ok req t0 ?st2" by (rule asked_learning [OF ok scope few])
    consider "i = choice_superseded" | "i = 0" | "i \<noteq> choice_superseded" "i \<noteq> 0" by blast
    then show ?thesis
    proof cases
      case 1
      then show ?thesis using st2 Inr by (simp add: ask_change_def q a Let_def)
    next
      case 2
      have "may_write req ?st2 p detail_changed" using scope val 2 by (auto simp: may_write_def)
      then have "learning_ok req t0 (snd (write_detail l (lq_user req) p detail_changed ?st2))" by (rule write_learning [OF st2])
      then show ?thesis using Inr 2 by (simp add: ask_change_def q a Let_def choice_superseded_def)
    next
      case 3
      then show ?thesis using declined_learning [OF st2] Inr by (simp add: ask_change_def q a Let_def)
    qed
  qed
qed

lemma propose_change_ok:
  assumes ok: "learning_ok req t0 st" and scope: "in_exchange req (dp_scope p)" and val: "dp_value p \<noteq> []" "\<not> rx_match long_digits (dp_value p)"
  shows "learning_ok req t0 (propose_change l req p old rel st)"
proof -
  obtain b st1 where l: "is_lasting l req p st = (b, st1)" by fastforce
  then obtain e where st1: "st1 = st\<lparr>lg_env := e\<rparr>" using lasting_state by (metis snd_conv)
  have ok1: "learning_ok req t0 st1" using ok by (simp add: st1)
  have "learning_ok req t0 (ask_change l req ask p old rel st1)" if "\<not> max_questions_per_exchange \<le> lg_questions st1" for ask
    by (rule ask_change_ok [OF ok1 scope _ val]) (use that in simp)
  then show ?thesis using ok ok1 by (simp add: propose_change_def l Let_def split: option.splits)
qed

lemma match_held_state: "match_held l p st = (k, st1) \<Longrightarrow> \<exists>e. st1 = st\<lparr>lg_env := e\<rparr>"
proof -
  assume m: "match_held l p st = (k, st1)"
  have "\<exists>e. st = st\<lparr>lg_env := e\<rparr>" by (rule exI [of _ "lg_env st"]) simp
  then show ?thesis using m unfolding match_held_def Let_def
    by (auto split: if_splits prod.splits sum.splits)
qed

lemma settle_ok:
  assumes ok: "learning_ok req t0 st" and scope: "in_exchange req (dp_scope p)" and val: "dp_value p \<noteq> []" "\<not> rx_match long_digits (dp_value p)"
  shows "learning_ok req t0 (settle_detail l req p st)"
proof (cases "find_detail (dp_scope p) (dp_key p) st")
  case None
  have "may_write req st p detail_said" using scope val None by (simp add: may_write_def)
  then show ?thesis using learn_new_ok [OF ok] None by (simp add: settle_detail_def)
next
  case (Some old)
  obtain r e where r: "lr_relation l (dp_key p) (dt_value old) (dp_value p) (lg_env st) = (r, e)" by fastforce
  have ok1: "learning_ok req t0 (st\<lparr>lg_env := e\<rparr>)" using ok by simp
  have "learning_ok req t0 (propose_change l req p old rel (st\<lparr>lg_env := e\<rparr>))" for rel
    by (rule propose_change_ok [OF ok1 scope val])
  then show ?thesis
    using ok1 confirm_learning [OF ok, of l p] confirm_learning [OF ok1, of l p] by (simp add: settle_detail_def Some r Let_def split: sum.splits value_relation.splits)
qed

lemma consider_ok:
  assumes ok: "learning_ok req t0 st"
  shows "learning_ok req t0 (consider_detail l req p st)"
proof -
  define scope where "scope = (if trim_space (dp_scope p) = [] then profile_personal else trim_space (dp_scope p))"
  note d = consider_detail_def [of l req p st, folded scope_def, unfolded Let_def]
  consider "scope \<noteq> profile_personal \<and> gm_get (lq_apps req) scope = None" | "in_exchange req scope"
    unfolding in_exchange_def by blast
  then show ?thesis
  proof cases
    case 1
    then show ?thesis using ok by (simp add: d)
  next
    case 2
    then have sc: "\<not> (scope \<noteq> profile_personal \<and> gm_get (lq_apps req) scope = None)" by (auto simp: in_exchange_def)
    obtain val g where v: "clean_detail_value (dp_value p) = (val, g)" by fastforce
    show ?thesis
    proof (cases "\<exists>key. canonical_detail_key (dp_key p) = Some key \<and> g \<and> \<not> never_learned key val")
      case False
      then show ?thesis using ok sc unfolding d v by (cases "canonical_detail_key (dp_key p)"; cases g) simp_all
    next
      case True
      then obtain key where k: "canonical_detail_key (dp_key p) = Some key" "g" "\<not> never_learned key val" by blast
      have val: "val \<noteq> []" "\<not> rx_match long_digits val"
        using v k(2,3) by (auto simp: clean_detail_value_def never_learned_def looks_sensitive_def Let_def)
      obtain m st1 where m: "match_held l \<lparr>dp_scope = scope, dp_key = key, dp_value = val\<rparr> st = (m, st1)" by fastforce
      then obtain e where st1: "st1 = st\<lparr>lg_env := e\<rparr>" using match_held_state by blast
      have ok1: "learning_ok req t0 st1" using ok by (simp add: st1)
      have "learning_ok req t0 (settle_detail l req \<lparr>dp_scope = scope, dp_key = k', dp_value = val\<rparr> st1)" for k'
        by (rule settle_ok [OF ok1]) (use 2 val in simp_all)
      then show ?thesis using ok ok1 k sc unfolding d v by (simp add: m split: option.splits)
    qed
  qed
qed

lemma considered_ok: "learning_ok req t0 st \<Longrightarrow> learning_ok req t0 (foldl (\<lambda>st p. consider_detail l req p st) st ps)"
  by (induction ps arbitrary: st) (simp_all add: consider_ok)


section \<open>The whole exchange\<close>

lemma by_scope_get: "gm_get (by_scope ds) s = (if s \<in> dt_scope ` set ds then Some (filter (\<lambda>d. dt_scope d = s) ds) else None)"
proof -
  have "map_of (map (\<lambda>s. (s, f s)) xs) s = (if s \<in> set xs then Some (f s) else None)" for f :: "string \<Rightarrow> person_detail list" and xs
    by (induction xs) auto
  then show ?thesis by (simp add: by_scope_def gm_get_def)
qed

lemma scopes_in: "in_exchange req s \<Longrightarrow> s \<in> set (scopes_of req)"
  by (auto simp: in_exchange_def scopes_of_def gm_get_def dest: map_of_SomeD intro: rev_image_eqI)

lemma profile_details_set: "d \<in> set (profile_details u scopes t) \<longleftrightarrow> (u, d) \<in> set (pt_details t) \<and> (scopes \<noteq> [] \<longrightarrow> dt_scope d \<in> set scopes)"
  by (force simp: profile_details_def)

lemma add_unless_held_keys: "dt_key ` set (add_unless_held ds out) = dt_key ` set ds \<union> dt_key ` set out"
  unfolding add_unless_held_def by (induction ds arbitrary: out) (auto simp: image_iff)

lemma merge_typed_keys: "dt_key ` set stored \<subseteq> dt_key ` set (merge_typed stored typed t)"
  by (auto simp: merge_typed_def Let_def add_unless_held_keys)

lemma start_learning_holds:
  assumes start: "start_learning l req t e = (Inr held, e1)" and r: "r \<in> set (pt_details t)" "fst r = lq_user req" "in_exchange req (dt_scope (snd r))"
  shows "dt_key (snd r) \<in> dt_key ` set (case gm_get held (dt_scope (snd r)) of None \<Rightarrow> [] | Some ds \<Rightarrow> ds)"
proof -
  let ?by = "by_scope (profile_details (lq_user req) (scopes_of req) t)"
  let ?at = "\<lambda>h s. case gm_get h s of None \<Rightarrow> [] | Some ds \<Rightarrow> ds"
  have "snd r \<in> set (profile_details (lq_user req) (scopes_of req) t)"
    using r scopes_in unfolding profile_details_set by (metis prod.collapse)
  then have key: "dt_key (snd r) \<in> dt_key ` set (?at ?by (dt_scope (snd r)))"
    by (auto simp: by_scope_get intro: imageI)
  show ?thesis
  proof (cases "lr_typed l")
    case None
    then show ?thesis using start key by (simp add: start_learning_def)
  next
    case (Some ty)
    then obtain typed where "held = gm_set profile_personal (merge_typed (?at ?by profile_personal) typed ty) ?by"
      using start by (auto simp: start_learning_def Let_def split: prod.splits sum.splits)
    then have "?at held s = (if s = profile_personal then merge_typed (?at ?by s) typed ty else ?at ?by s)" for s by simp
    then show ?thesis using key subsetD [OF merge_typed_keys [where typed = typed and t = ty] key] by presburger
  qed
qed

lemma learn_ok:
  assumes "learn l req t e = (err, st)"
  shows "rows_kept (lq_user req) (lg_log st) t (lg_tables st)"
    "n \<in> set (lg_log st) \<Longrightarrow> note_fits req (lg_log st) n"
    "tables_ok t \<Longrightarrow> tables_ok (lg_tables st)"
    "asked_count (lg_log st) \<le> max_questions_per_exchange"
proof -
  have kept: "rows_kept u [] t t" for u
    unfolding rows_kept_def using same_detail_refl by blast
  consider "lg_tables st = t" "lg_log st = []"
    | held e1 e2 ps where "start_learning l req t e = (Inr held, e1)"
        "st = foldl (\<lambda>st p. consider_detail l req p st) \<lparr>lg_held = held, lg_questions = 0, lg_tables = t, lg_env = e2, lg_log = []\<rparr> ps"
    using assms by (auto simp: learn_def Let_def split: if_splits prod.splits sum.splits)
  then have "rows_kept (lq_user req) (lg_log st) t (lg_tables st) \<and> (\<forall>n\<in>set (lg_log st). note_fits req (lg_log st) n) \<and>
      (tables_ok t \<longrightarrow> tables_ok (lg_tables st)) \<and> asked_count (lg_log st) \<le> max_questions_per_exchange"
  proof cases
    case 1
    then show ?thesis using kept by (simp add: asked_count_def)
  next
    case (2 held e1 e2 ps)
    have "learning_ok req t \<lparr>lg_held = held, lg_questions = 0, lg_tables = t, lg_env = e2, lg_log = []\<rparr>"
      by (rule learning_okI) (use kept start_learning_holds [OF 2(1)] in \<open>simp_all add: asked_count_def held_in_def\<close>)
    then have ok: "learning_ok req t st" unfolding 2(2) by (rule considered_ok)
    show ?thesis using learning_okD [OF ok] le_trans by blast
  qed
  then show "rows_kept (lq_user req) (lg_log st) t (lg_tables st)"
    "n \<in> set (lg_log st) \<Longrightarrow> note_fits req (lg_log st) n"
    "tables_ok t \<Longrightarrow> tables_ok (lg_tables st)"
    "asked_count (lg_log st) \<le> max_questions_per_exchange" by blast+
qed

section \<open>The properties\<close>

text \<open>
  (C25) Whatever the model proposes, the judge says and the person answers, and whoever the details are of:
  a detail that was held is held afterwards, and with the value it had, unless it is a detail of the person
  spoken with and they were asked whether to change that very detail to the value it has now, and said yes.
\<close>

theorem held_changes_with_yes:
  assumes "learn l req t e = (err, st)" "(user, d) \<in> set (pt_details t)"
  shows "\<exists>d'. (user, d') \<in> set (pt_details (lg_tables st)) \<and> dt_scope d' = dt_scope d \<and> dt_key d' = dt_key d \<and>
           (dt_value d' = dt_value d \<or>
            user = lq_user req \<and> (\<exists>old. LgAsked (dt_scope d) (dt_key d) old (dt_value d') 0 \<in> set (lg_log st)))"
proof -
  obtain r' where "r' \<in> set (pt_details (lg_tables st))" "same_detail (user, d) r'"
    "dt_value (snd r') = dt_value d \<or> user = lq_user req \<and> (\<exists>old. LgAsked (dt_scope d) (dt_key d) old (dt_value (snd r')) 0 \<in> set (lg_log st))"
    using learn_ok(1) [OF assms(1)] assms(2) unfolding rows_kept_def by force
  then have "(user, snd r') \<in> set (pt_details (lg_tables st)) \<and> dt_scope (snd r') = dt_scope d \<and> dt_key (snd r') = dt_key d"
    by (metis same_detail_def fst_conv snd_conv prod.collapse)
  then show ?thesis using \<open>dt_value (snd r') = dt_value d \<or> _\<close> by blast
qed

text \<open>Someone who lives in Lagos says Berlin, and answers yes (0) or no (1) when asked; the judge finds the two different.\<close>

definition moving :: "int \<Rightarrow> unit learner" where
  "moving i = \<lparr>lr_now = (\<lambda>_. 9), lr_compare = to_lower, lr_propose = (\<lambda>r h e. (Inr [\<lparr>dp_scope = [], dp_key = ''City'', dp_value = ''Berlin''\<rparr>], e)),
     lr_same_kind = (\<lambda>p ds e. (Inr ([], 0), e)), lr_relation = (\<lambda>k a b e. (Inr RelDifferent, e)), lr_lasting = (\<lambda>p m e. (Inr True, e)),
     lr_typed = None, lr_ask = Some (\<lambda>c q os n e. (Inr i, e))\<rparr>"

definition moving_said :: learn_request where
  "moving_said = \<lparr>lq_user = ''u'', lq_agent = ''ag'', lq_conv = \<lparr>cv_provider = ''discord'', cv_chat = ''c'', cv_thread = [], cv_identity = ''i'', cv_user = ''u'', cv_message = ''m'', cv_sender = ''u'', cv_shared = False\<rparr>,
     lq_message = ''I moved to Berlin'', lq_response = ''Nice!'', lq_apps = []\<rparr>"

definition lives_in :: "string \<Rightarrow> profile_tables" where
  "lives_in city = \<lparr>pt_details = [(''u'', (new_detail ''personal'' ''residence'' city ''said'')\<lparr>dt_created := 1, dt_updated := 1, dt_confirmed := 1\<rparr>)],
     pt_declined = [], pt_migrated = []\<rparr>"


lemma held_changes_with_yes_witness:
  "pt_details (lg_tables (snd (learn (moving 0) moving_said (lives_in ''Lagos'') ()))) =
     [(''u'', (new_detail ''personal'' ''residence'' ''Berlin'' ''changed'')\<lparr>dt_created := 1, dt_updated := 9, dt_confirmed := 9\<rparr>)] \<and>
   pt_details (lg_tables (snd (learn (moving 1) moving_said (lives_in ''Lagos'') ()))) = pt_details (lives_in ''Lagos'') \<and>
   (\<exists>old. LgAsked ''personal'' ''residence'' old ''Berlin'' 0 \<in> set (lg_log (snd (learn (moving 0) moving_said (lives_in ''Lagos'') ()))))"
proof -
  let ?st = "snd (learn (moving 0) moving_said (lives_in ''Lagos'') ())"
  have run: "pt_details (lg_tables ?st) =
     [(''u'', (new_detail ''personal'' ''residence'' ''Berlin'' ''changed'')\<lparr>dt_created := 1, dt_updated := 9, dt_confirmed := 9\<rparr>)]"
    by code_simp
  have no: "pt_details (lg_tables (snd (learn (moving 1) moving_said (lives_in ''Lagos'') ()))) = pt_details (lives_in ''Lagos'')"
    by code_simp
  let ?d = "(new_detail ''personal'' ''residence'' ''Lagos'' ''said'')\<lparr>dt_created := 1, dt_updated := 1, dt_confirmed := 1\<rparr>"
  have "(''u'', ?d) \<in> set (pt_details (lives_in ''Lagos''))" by (simp add: lives_in_def)
  from held_changes_with_yes [OF surjective_pairing this, of "moving 0" moving_said "()"]
  have "\<exists>old. LgAsked ''personal'' ''residence'' old ''Berlin'' 0 \<in> set (lg_log ?st)"
    unfolding run by (simp add: new_detail_def)
  then show ?thesis using run no by blast
qed



text \<open>
  However details are set, confirmed, removed and learned: a person has at most one detail of a name in
  a map, and no map of theirs grows past sixty.
\<close>

theorem maps_stay_bounded:
  assumes "tables_ok t"
  shows "tables_ok (snd (set_detail now user d t)) \<and> tables_ok (confirm_detail now user scope key t) \<and>
         tables_ok (snd (remove_detail user scope key t)) \<and> tables_ok (decline_value cmp now user scope key val t) \<and>
         tables_ok (lg_tables (snd (learn l req t e)))"
  using set_detail_ok [OF assms] confirm_ok [OF assms] remove_ok [OF assms] learn_ok(3) [OF surjective_pairing assms] assms
  by (simp add: tables_ok_def)

lemma maps_stay_bounded_witness:
  "tables_ok (lg_tables (snd (learn (moving 0) moving_said (lives_in ''Lagos'') ()))) \<and>
   length (pt_details (snd (set_detail 2 ''u'' (new_detail ''personal'' ''name'' ''Ada'' []) (lives_in ''Lagos'')))) = 2"
proof -
  have "tables_ok (lives_in ''Lagos'')" by (auto simp: tables_ok_def lives_in_def max_details_per_scope_def)
  from maps_stay_bounded [OF this, where l = "moving 0" and req = moving_said and e = "()"]
  have "tables_ok (lg_tables (snd (learn (moving 0) moving_said (lives_in ''Lagos'') ())))" by blast
  then show ?thesis by (simp add: set_detail_def lives_in_def is_detail_def new_detail_def max_details_per_scope_def)
qed

end
