(* ===== verification/Spec2Isabelle.thy ===== *)
theory Spec2Isabelle
  imports Turn Provider_Claims Gate_Gaps Rule_Claims Job_Limits Inbox_Claims Ingest_Claims Routing_Claims Wake_Claims Prompt_Claims
    Chat_Claims Choice_Claims Event_Claims Line_Claims Profile_Claims
begin

text \<open>
  A model of the runtime of open-kael, with the theorems that make it correct. Paths are under
  \<^verbatim>\<open>src/\<close>.

  The program. An agent answers a person, or acts on an event, by running a loop: it asks a language
  model, carries out the tool calls the model makes and tells it the results, until the model calls
  \<^verbatim>\<open>finish\<close> (\<^verbatim>\<open>domain/loop.go\<close>). What it may call comes from its capabilities: a capability
  names tools, or grants the tools of integrations (\<^verbatim>\<open>domain/hydrate.go\<close>, \<^verbatim>\<open>domain/catalog.go\<close>), and
  every tool is bound behind a stack of gates (input check, the creator's rules, prerequisites, sign-in,
  approval by a person, one-shot guard, ...). Events of the outside world come in through an HTTP
  endpoint that checks and stores them (\<^verbatim>\<open>runtime/ingest.go\<close>), are kept in an inbox table until a
  worker has dealt with them (\<^verbatim>\<open>postgres/inbox.go\<close>, \<^verbatim>\<open>postgres/inbox_queue.go\<close>), and become jobs in a
  queue that workers lease (\<^verbatim>\<open>postgres/jobs.go\<close>). A message is first routed: what kind it is, which
  capabilities it is for and what the turn may use (\<^verbatim>\<open>runtime/host.go\<close>).

  The theories.

  \<^item> Ground: \<open>Kael_Prelude\<close> (collections of rewrite rules, Go maps, errors), \<open>Go_Strings\<close>,
    \<open>Go_Numbers\<close>, \<open>Go_Values\<close> (the part of Go's library the code uses: byte strings with UTF-8,
    \<^verbatim>\<open>float64\<close> as rationals, infinities and NaN with rounding, the values of \<^verbatim>\<open>any\<close>), \<open>Go_Regexp\<close>
    (regular expressions, leftmost-first as Go matches them, over runes).
  \<^item> Data: \<open>Agent_Types\<close> (schemas, messages, actions), \<open>Tool_Types\<close> (\<^verbatim>\<open>domain/tool.go\<close>,
    \<^verbatim>\<open>tool_interface.go\<close>), \<open>Outcome\<close> (\<^verbatim>\<open>outcome.go\<close>, \<^verbatim>\<open>window.go\<close>, \<^verbatim>\<open>steps.go\<close>).
  \<^item> The loop: \<open>LLM_Providers\<close> (\<^verbatim>\<open>callLLM\<close>, retries, resting providers), \<open>Agent_Loop\<close> (one
    definition for each step of \<^verbatim>\<open>NativeLoop.Run\<close>), \<open>Loop_Run\<close> (the run and its induction rule; it is
    total: a measure of iterations, stale steps and calls left), \<open>Loop_Safety\<close> (the locale
    \<open>run_invariant\<close>, what a run may do), \<open>Loop_Answers\<close> (transcripts, honest endings); claims in
    \<open>Loop_Claims\<close> and \<open>Provider_Claims\<close>.
  \<^item> Tools: \<open>Tool_Contract\<close> (\<^verbatim>\<open>tool_contract.go\<close>), \<open>Input_Contract\<close> (\<^verbatim>\<open>input_contract.go\<close>),
    \<open>Tool_Rules\<close> and \<open>Rule_Facts\<close> (\<^verbatim>\<open>tool_rule.go\<close>), \<open>Prerequisites\<close> (\<^verbatim>\<open>prerequisite.go\<close>, with the
    locale of a run journal); claims in \<open>Rule_Claims\<close>.
  \<^item> Gates: \<open>Tool_Gates\<close> (each gate a function from handler to handler over an explicit world, stacked
    by \<open>gated\<close> in the order of \<^verbatim>\<open>BindTool\<close>), \<open>Gate_Facts\<close> (the locale of a gate, interpreted by each of
    them), \<open>Gate_Stack\<close> (the facts of the whole stack); claims in \<open>Gate_Claims\<close>, what the gates miss in
    \<open>Gate_Gaps\<close>.
  \<^item> Capabilities: \<open>Catalog\<close> (\<^verbatim>\<open>catalog.go\<close>), \<open>Hydration\<close> and \<open>Hydration_Facts\<close> (\<^verbatim>\<open>hydrate.go\<close>,
    \<^verbatim>\<open>granted.go\<close>, \<^verbatim>\<open>skill.go\<close>, \<^verbatim>\<open>agent.go\<close>); claims in \<open>Catalog_Claims\<close>, \<open>Hydration_Claims\<close>. \<open>Turn\<close>
    puts loop, capability and gates together.
  \<^item> Messages: \<open>Offering\<close> (\<^verbatim>\<open>runRoutedTurn\<close> of \<^verbatim>\<open>runtime/host.go\<close>, \<^verbatim>\<open>requirements.go\<close>: what a
    turn is offered; the walk over what is put back grows the list under it and is shown to end),
    \<open>Offering_Facts\<close>, \<open>Routing\<close> (\<^verbatim>\<open>routeWithJev\<close>, \<^verbatim>\<open>carryover.go\<close>, \<^verbatim>\<open>route_tools.go\<close>), \<open>Routing_Facts\<close>
    (the locale \<open>turn_runner\<close>, interpreted by the loop), claims in \<open>Routing_Claims\<close>.
  \<^item> Waiting: \<open>Go_Time\<close> (the calendar, writing and parsing times), \<open>Wake_Plan\<close> (\<^verbatim>\<open>runtime/wake_plan.go\<close> run on
    the loop, with what its actions share beside the world) and \<open>Wake_Claims\<close>; \<open>Prompts\<close>
    (\<^verbatim>\<open>runtime/approval.go\<close>, \<^verbatim>\<open>runtime/choice.go\<close>: one step for each stretch under a lock, in every order)
    and \<open>Prompt_Claims\<close> (the cells they implement).
  \<^item> Choices: \<open>Proposals\<close> (\<^verbatim>\<open>domain/proposal.go\<close>, \<^verbatim>\<open>postgres/proposal.go\<close>), \<open>Choice_Host\<close>
    (\<^verbatim>\<open>runtime/proposal_host.go\<close>, \<^verbatim>\<open>proposal_derive.go\<close>: offering, tapping, typing, retiring, in every
    order), \<open>Choice_Facts\<close> and \<open>Choice_Claims\<close>.
  \<^item> Conversations: \<open>Conv_Memory\<close> (\<^verbatim>\<open>postgres/memory.go\<close>, \<^verbatim>\<open>ReachAt\<close>: what is remembered, the last
    exchange, rewinding it), \<open>Conv_Lines\<close> (\<^verbatim>\<open>runtime/inbound.go\<close>, \<^verbatim>\<open>runtime/editing.go\<close>: the line of
    each conversation, its worker, edits, as a step relation), \<open>Line_Facts\<close> (its invariant by rule
    induction, and what a dropped turn can no longer do), \<open>Line_Claims\<close>.
  \<^item> People: \<open>Profile\<close> (\<^verbatim>\<open>domain/profile_details.go\<close>, \<^verbatim>\<open>postgres/profile_details.go\<close>,
    \<^verbatim>\<open>runtime/profile_learn.go\<close>: details of a person and how they are learned) and \<open>Profile_Claims\<close> (an
    invariant every step of learning keeps).
  \<^item> Replies: \<open>Chat_Format\<close> (\<^verbatim>\<open>chatformat/chatformat.go\<close>: from the tree of a Markdown parser to what a
    chat app shows), \<open>Chat_Facts\<close> (runs), \<open>Chat_Tables\<close> (tables), \<open>Chat_Claims\<close>.
  \<^item> Event contracts: \<open>Event_Contract\<close> (\<^verbatim>\<open>domain/event_contract.go\<close>, \<^verbatim>\<open>event_summary.go\<close>, the event
    registry of \<^verbatim>\<open>integration.go\<close>) and \<open>Event_Claims\<close>.
  \<^item> Events: \<open>Pipeline\<close> (\<^verbatim>\<open>domain/pipeline.go\<close>), \<open>Leases\<close> (the abstract machine of a leased row and
    the locale \<open>lease_table\<close> both tables interpret), \<open>Inbox\<close>, \<open>Inbox_Facts\<close>, \<open>Inbox_Claims\<close>;
    \<open>Job_Queue\<close>, \<open>Job_Facts\<close>, \<open>Job_Runs\<close>, \<open>Job_Shares\<close>, claims in \<open>Job_Claims\<close> and \<open>Job_Limits\<close>;
    \<open>Ingest\<close> (\<^verbatim>\<open>runtime/ingest.go\<close>, \<^verbatim>\<open>ratelimit.go\<close>, \<^verbatim>\<open>metrics.go\<close>, with the locale \<open>inbox_store\<close>
    the inbox interprets) and \<open>Ingest_Claims\<close>.

  How state and operations correspond. A struct is a record with its fields in order, an enumeration a
  datatype, an error a text with the sentinel errors it wraps, a pair of result and error a sum. The
  loop's local variables are the record \<open>loop_state\<close>; one turn of its \<^verbatim>\<open>for\<close> is \<open>loop_iter\<close>. What a
  handler can touch is the record of its world, passed on explicitly; a closure over a mutable map
  (the one-shot guard, the journal) is a part of that world. A table is the list of its rows, an SQL
  statement a function on it at the time \<^verbatim>\<open>NOW()\<close> gives; an operation of two statements has two times,
  and \<open>job_exec\<close> and \<open>inbox_exec\<close> make all operations one step relation that every order of workers'
  calls is a sequence of. An advisory lock makes the statements under it one step.

  What is a parameter. Model providers, executors (the services behind tools), those who are asked
  (approval, sign-in, time zone), adapters of event sources and resolvers of connections, the Markdown
  parser's tree, a chat app's renderer, the reader of JSON text, the model that reads choices out of
  a reply, the models that propose and compare details of a person and what values are compared by are functions or values given to the model; hypotheses about them are stated where a property needs one, with a witness.
  Nothing is assumed of the answers of a language model.

  Conventions. A nil map is an empty map. A Go map is an association list, and a theorem about every
  list holds for every order of iteration. Letter case is folded for ASCII. Numbers are \<^verbatim>\<open>float64\<close>
  with the two zeros identified; other numeric types of \<^verbatim>\<open>any\<close> do not reach the modelled code except
  through JSON. Times are whole nanoseconds. A panic is an error with its own sentinel. Log lines,
  observers and traces are left out.

  Bounds. There is no fuel: every loop of the code is structural recursion or has a termination proof.
  The model calls of a run, the uses of a tool in a run, the starts of a job, the leases an abandoned
  job goes through, the refusals of one client are bounded by the claims about them, with the code's
  own constants.

  Not modelled, and why. Failures of the database (each is returned unchanged to the caller) and rows
  that cannot be read back; the lock of the catalog (each operation is one step); the account,
  activity and settings stores under \<^verbatim>\<open>postgres/\<close>, which are single statements without
  logic of their own; \<^verbatim>\<open>api/\<close> (HTTP handlers over those stores); the chat apps, MCP client, crypto, JSON
  web tokens and mail, which wrap other libraries; the rest of \<^verbatim>\<open>runtime/host.go\<close> (setting a host up, putting a
  turn's prompt together, delivering a reply), moving a person's older notes over, and the parts of \<^verbatim>\<open>runtime/\<close> that call a model to judge
  free text.
\<close>

end
